(* ===== verification/Prelude.thy ===== *)
theory Prelude
  imports Complex_Main "HOL-Library.List_Lexorder" "HOL-Library.Char_ord" "HOL-Library.AList"
begin

text \<open>
  What every component of the development shares: the Go values (strings as byte lists,
  times and durations in nanoseconds, truncating integer division), the money type of the
  database, the semantics of the SQL statement shapes that the stores use, and the lemma
  collections.

  \<^item> A Go \<open>string\<close> is a HOL \<open>string\<close>, a list of bytes. \<open>trim_space\<close> and \<open>to_lower\<close> are
    \<open>strings.TrimSpace\<close> and \<open>strings.ToLower\<close> on ASCII text.
  \<^item> A \<open>time.Time\<close> is the number of nanoseconds since Go's zero time, so the zero value is
    \<open>0\<close> and \<open>IsZero\<close> is a comparison with \<open>0\<close>; a \<open>time.Duration\<close> is a number of
    nanoseconds.
  \<^item> A time that is stored is rounded to microseconds (\<open>db_time\<close>) where a component compares what was
    saved with what is read back, in the usage limit settings; elsewhere the rows keep the
    nanoseconds they are given.
  \<^item> A \<open>float64\<close> that carries money is the decimal it is transmitted as, a rational; Go's
    additions and products on it are exact here (the rounding of the IEEE operations is
    not modelled). A \<open>DECIMAL(15,6)\<close> or \<open>NUMERIC(15,6)\<close> column rounds to six places
    when it is written (\<open>dec6\<close>), which is modelled; its overflow error is not.
\<close>

subsection \<open>Lemma collections\<close>

named_theorems sql_simps "rewriting the SQL statement shapes"
named_theorems grid_intros "values on the six-decimal grid"

subsection \<open>Times\<close>

type_synonym gotime = int
type_synonym duration = int

definition zero_time :: gotime where "zero_time = 0"
definition go_second :: duration where "go_second = 1000000000"
definition go_minute :: duration where "go_minute = 60 * go_second"

lemma go_second_pos [simp]: "0 < go_second"
  by (simp add: go_second_def)

lemma go_minute_pos [simp]: "0 < go_minute"
  by (simp add: go_minute_def)

text \<open>A \<open>TIMESTAMPTZ\<close> column keeps a time to the nearest microsecond, halves to the even one.\<close>

definition db_time :: "gotime \<Rightarrow> gotime" where
  "db_time t =
     (let q = t div 1000; r = t mod 1000
      in 1000 * (if r < 500 \<or> r = 500 \<and> even q then q else q + 1))"

subsection \<open>Integer division of Go\<close>

definition go_div :: "int \<Rightarrow> int \<Rightarrow> int" where
  "go_div a b = sgn a * sgn b * (\<bar>a\<bar> div \<bar>b\<bar>)"

lemma go_div_nonneg: "0 \<le> a \<Longrightarrow> 0 < b \<Longrightarrow> go_div a b = a div b"
  by (cases "a = 0") (simp_all add: go_div_def)

text \<open>Go's \<open>int\<close> is 64 bits wide; \<open>int64\<close> is where its arithmetic may wrap around.\<close>

definition int64 :: "int \<Rightarrow> int" where
  "int64 x = (x + 2 ^ 63) mod 2 ^ 64 - 2 ^ 63"

lemma int64_id: "- (2 ^ 63) \<le> x \<Longrightarrow> x < 2 ^ 63 \<Longrightarrow> int64 x = x"
  by (simp add: int64_def)

subsection \<open>Maps\<close>

text \<open>Reading a Go map: a missing key gives the zero value \<open>d\<close> of the element type.\<close>

definition go_get :: "('k \<Rightarrow> 'v option) \<Rightarrow> 'v \<Rightarrow> 'k \<Rightarrow> 'v" where
  "go_get m d k = (case m k of None \<Rightarrow> d | Some v \<Rightarrow> v)"

lemma go_get_empty [simp]: "go_get Map.empty d k = d"
  by (simp add: go_get_def)

lemma go_get_upd [simp]: "go_get (m(k \<mapsto> v)) d k' = (if k' = k then v else go_get m d k')"
  by (simp add: go_get_def)

lemma go_get_del [simp]: "go_get (m(k := None)) d k' = (if k' = k then d else go_get m d k')"
  by (simp add: go_get_def)

subsection \<open>Strings\<close>

text \<open>\<open>strings.Join\<close>.\<close>

fun join_with :: "string \<Rightarrow> string list \<Rightarrow> string" where
  "join_with sep [] = []"
| "join_with sep [s] = s"
| "join_with sep (s # t # ss) = s @ sep @ join_with sep (t # ss)"

lemma append_colon_inj:
  "c \<notin> set a \<Longrightarrow> c \<notin> set b \<Longrightarrow> a @ [c] @ x = b @ [c] @ y \<longleftrightarrow> a = b \<and> x = y"
  by (induction a arbitrary: b) (case_tac b; auto)+

text \<open>\<open>strconv.Itoa\<close> of a number that is not negative.\<close>

function digits :: "int \<Rightarrow> string" where
  "digits n = (if n < 10 then [char_of (48 + n)] else digits (n div 10) @ [char_of (48 + n mod 10)])"
  by pat_completeness auto

termination by (relation "measure nat") auto

declare digits.simps [simp del]

lemma digits_no_colon: "0 \<le> n \<Longrightarrow> CHR '':'' \<notin> set (digits n)"
proof (induction n rule: digits.induct)
  case (1 n)
  have c: "0 \<le> m \<Longrightarrow> m < 10 \<Longrightarrow> CHR '':'' \<noteq> char_of (48 + m :: int)" for m
  proof
    assume m: "0 \<le> m" "m < 10" and "CHR '':'' = char_of (48 + m)"
    then have "of_char (CHR '':'') = (48 + m) mod (256 :: int)" by simp
    with m show False by simp
  qed
  show ?case
  proof (cases "n < 10")
    case True
    then show ?thesis using c [of n] 1(2) by (simp add: digits.simps [of n])
  next
    case False
    then show ?thesis using 1 c [of "n mod 10"] by (simp add: digits.simps [of n])
  qed
qed

fun undigits :: "string \<Rightarrow> int" where
  "undigits s = fold (\<lambda>c v. 10 * v + (of_char c - 48)) s 0"

lemma undigits_digits: "0 \<le> n \<Longrightarrow> undigits (digits n) = n"
proof (induction n rule: digits.induct)
  case (1 n)
  show ?case
  proof (cases "n < 10")
    case True
    then show ?thesis using 1(2) by (simp add: digits.simps [of n])
  next
    case False
    then show ?thesis using 1 by (simp add: digits.simps [of n])
  qed
qed

lemma digits_inj: "0 \<le> a \<Longrightarrow> 0 \<le> b \<Longrightarrow> digits a = digits b \<longleftrightarrow> a = b"
  by (metis undigits_digits)

lemma digits_not_Nil [simp]: "digits n \<noteq> []"
  by (simp add: digits.simps [of n])

definition is_space :: "char \<Rightarrow> bool" where
  "is_space c \<longleftrightarrow> c \<in> {CHR '' '', CHR 0x09, CHR 0x0A, CHR 0x0B, CHR 0x0C, CHR 0x0D}"

definition trim_space :: "string \<Rightarrow> string" where
  "trim_space s = rev (dropWhile is_space (rev (dropWhile is_space s)))"

definition lower_char :: "char \<Rightarrow> char" where
  "lower_char c =
     (if 65 \<le> (of_char c :: nat) \<and> (of_char c :: nat) \<le> 90
      then char_of ((of_char c :: nat) + 32) else c)"

definition to_lower :: "string \<Rightarrow> string" where
  "to_lower s = List.map lower_char s"

text \<open>\<open>strings.HasPrefix\<close> and \<open>strings.Contains\<close>.\<close>

fun has_prefix :: "string \<Rightarrow> string \<Rightarrow> bool" where
  "has_prefix s [] = True"
| "has_prefix [] (p # ps) = False"
| "has_prefix (c # s) (p # ps) = (c = p \<and> has_prefix s ps)"

fun contains_str :: "string \<Rightarrow> string \<Rightarrow> bool" where
  "contains_str [] sub = (sub = [])"
| "contains_str (c # s) sub = (has_prefix (c # s) sub \<or> contains_str s sub)"

lemma dropWhile_rev_idem:
  "(xs \<noteq> [] \<longrightarrow> \<not> P (hd xs)) \<Longrightarrow> dropWhile P xs = xs"
  by (cases xs) auto

lemma hd_dropWhile_not: "dropWhile P xs \<noteq> [] \<Longrightarrow> \<not> P (hd (dropWhile P xs))"
  by (induction xs) auto

lemma last_rev_dropWhile:
  "rev (dropWhile P (rev xs)) \<noteq> [] \<Longrightarrow> \<not> P (last (rev (dropWhile P (rev xs))))"
  using hd_dropWhile_not [of P "rev xs"] by (simp add: last_rev)

lemma rev_dropWhile_prefix: "\<exists>zs. xs = rev (dropWhile P (rev xs)) @ zs"
proof -
  have "rev xs = takeWhile P (rev xs) @ dropWhile P (rev xs)" by simp
  then have "xs = rev (dropWhile P (rev xs)) @ rev (takeWhile P (rev xs))"
    by (metis rev_append rev_rev_ident)
  then show ?thesis by blast
qed

lemma trim_space_idem [simp]: "trim_space (trim_space s) = trim_space s"
proof -
  let ?a = "dropWhile is_space s"
  let ?t = "rev (dropWhile is_space (rev ?a))"
  have "dropWhile is_space ?t = ?t"
  proof (rule dropWhile_rev_idem, rule impI)
    assume t: "?t \<noteq> []"
    obtain zs where zs: "?a = ?t @ zs" using rev_dropWhile_prefix by blast
    with t have "?a \<noteq> []" and "hd ?a = hd ?t" by (metis Nil_is_append_conv, metis hd_append2)
    then show "\<not> is_space (hd ?t)" using hd_dropWhile_not [of is_space s] by simp
  qed
  moreover have "dropWhile is_space (rev ?t) = rev ?t" by simp
  ultimately show ?thesis by (simp add: trim_space_def)
qed

lemma trim_space_Nil [simp]: "trim_space [] = []"
  by (simp add: trim_space_def)

subsection \<open>Money: the six-decimal columns\<close>

type_synonym usd = rat

text \<open>PostgreSQL rounds a \<open>NUMERIC\<close> to its scale half away from zero.\<close>

definition dec6 :: "usd \<Rightarrow> usd" where
  "dec6 x =
     (if 0 \<le> x then of_int \<lfloor>x * 1000000 + 1 / 2\<rfloor> / 1000000
      else - (of_int \<lfloor>- x * 1000000 + 1 / 2\<rfloor> / 1000000))"

text \<open>The \<open>DECIMAL(10,2)\<close> columns.\<close>

definition dec2 :: "usd \<Rightarrow> usd" where
  "dec2 x =
     (if 0 \<le> x then of_int \<lfloor>x * 100 + 1 / 2\<rfloor> / 100
      else - (of_int \<lfloor>- x * 100 + 1 / 2\<rfloor> / 100))"

definition grid :: "usd \<Rightarrow> bool" where
  "grid x \<longleftrightarrow> dec6 x = x"

lemma floor_int_half: "\<lfloor>of_int k + 1 / 2 :: rat\<rfloor> = k"
  by (rule floor_unique) simp_all

lemma dec6_of_int: "dec6 (of_int k / 1000000) = of_int k / 1000000"
proof (cases "0 \<le> k")
  case True
  then show ?thesis by (simp add: dec6_def floor_int_half)
next
  case False
  have "- (of_int k / 1000000) * 1000000 + 1 / 2 = (of_int (- k) + 1 / 2 :: rat)" by simp
  then have "\<lfloor>- (of_int k / 1000000) * 1000000 + 1 / 2 :: rat\<rfloor> = - k"
    by (simp only: floor_int_half)
  with False show ?thesis by (simp add: dec6_def)
qed

lemma dec6_int: "\<exists>k. dec6 x = of_int k / 1000000"
proof (cases "0 \<le> x")
  case True
  then show ?thesis by (auto simp: dec6_def)
next
  case False
  then have "dec6 x = of_int (- \<lfloor>- x * 1000000 + 1 / 2\<rfloor>) / 1000000" by (simp add: dec6_def)
  then show ?thesis by blast
qed

lemma grid_iff: "grid x \<longleftrightarrow> (\<exists>k. x = of_int k / 1000000)"
  unfolding grid_def using dec6_int dec6_of_int by metis

lemma dec6_grid [simp]: "grid (dec6 x)"
  using dec6_int grid_iff by blast

lemma grid_dec6: "grid x \<Longrightarrow> dec6 x = x"
  by (simp add: grid_def)

lemma grid_0 [simp, grid_intros]: "grid 0"
  unfolding grid_iff by (rule exI [of _ 0]) simp

lemma grid_add [grid_intros]: "grid x \<Longrightarrow> grid y \<Longrightarrow> grid (x + y)"
  unfolding grid_iff by (metis add_divide_distrib of_int_add)

lemma grid_diff [grid_intros]: "grid x \<Longrightarrow> grid y \<Longrightarrow> grid (x - y)"
  unfolding grid_iff by (metis diff_divide_distrib of_int_diff)

lemma grid_max [grid_intros]: "grid x \<Longrightarrow> grid y \<Longrightarrow> grid (max x y)"
  by (simp add: max_def)

lemma dec6_nonneg: "0 \<le> x \<Longrightarrow> 0 \<le> dec6 x"
  by (simp add: dec6_def)

lemma dec6_mono: "0 \<le> x \<Longrightarrow> x \<le> y \<Longrightarrow> dec6 x \<le> dec6 y"
proof -
  assume x: "0 \<le> x" and xy: "x \<le> y"
  then have "\<lfloor>x * 1000000 + 1 / 2\<rfloor> \<le> \<lfloor>y * 1000000 + 1 / 2\<rfloor>"
    by (intro floor_mono) simp
  with x xy show ?thesis by (simp add: dec6_def divide_right_mono)
qed

subsection \<open>SQL statement shapes over a table kept as a list of rows\<close>

text \<open>
  \<open>UPDATE t SET f WHERE P\<close>: the new rows and the number of rows affected.
  \<open>SELECT ... WHERE P\<close> read with \<open>QueryRow\<close>: the first row that matches
  (\<open>None\<close> is \<open>sql.ErrNoRows\<close>).
\<close>

definition sql_update :: "('r \<Rightarrow> bool) \<Rightarrow> ('r \<Rightarrow> 'r) \<Rightarrow> 'r list \<Rightarrow> 'r list \<times> nat" where
  "sql_update P f rs = (List.map (\<lambda>r. if P r then f r else r) rs, length (List.filter P rs))"

definition sql_select :: "('r \<Rightarrow> bool) \<Rightarrow> 'r list \<Rightarrow> 'r option" where
  "sql_select P rs = List.find P rs"

lemma sql_update_rows [sql_simps]:
  "fst (sql_update P f rs) = List.map (\<lambda>r. if P r then f r else r) rs"
  by (simp add: sql_update_def)

lemma sql_update_count [sql_simps]:
  "snd (sql_update P f rs) = 0 \<longleftrightarrow> (\<forall>r \<in> set rs. \<not> P r)"
  by (simp add: sql_update_def filter_empty_conv)

lemma sql_update_pos [sql_simps]:
  "0 < snd (sql_update P f rs) \<longleftrightarrow> (\<exists>r \<in> set rs. P r)"
  using sql_update_count [of P f rs] by auto

lemma sql_update_none: "(\<forall>r \<in> set rs. \<not> P r) \<Longrightarrow> fst (sql_update P f rs) = rs"
  by (induction rs) (auto simp: sql_update_def)

lemma sql_select_Some: "sql_select P rs = Some r \<Longrightarrow> r \<in> set rs \<and> P r"
  by (auto simp: sql_select_def find_Some_iff)

lemma sql_select_None [sql_simps]: "sql_select P rs = None \<longleftrightarrow> (\<forall>r \<in> set rs. \<not> P r)"
  by (auto simp: sql_select_def find_None_iff)

lemma sql_select_append:
  "sql_select P (rs @ rs') =
     (case sql_select P rs of None \<Rightarrow> sql_select P rs' | Some r \<Rightarrow> Some r)"
  by (induction rs) (auto simp: sql_select_def)

lemma sql_select_map:
  "(\<And>r. P (f r) = P r) \<Longrightarrow> sql_select P (List.map f rs) = map_option f (sql_select P rs)"
  by (induction rs) (auto simp: sql_select_def)

text \<open>\<open>NULLIF(s, '')\<close> and \<open>COALESCE(c, '')\<close>: a nullable text column, \<open>None\<close> its NULL.\<close>

definition nullif_empty :: "string \<Rightarrow> string option" where
  "nullif_empty s = (if s = [] then None else Some s)"

definition coalesce_empty :: "string option \<Rightarrow> string" where
  "coalesce_empty u = (case u of None \<Rightarrow> [] | Some s \<Rightarrow> s)"

lemma coalesce_inj:
  "u \<noteq> Some [] \<Longrightarrow> v \<noteq> Some [] \<Longrightarrow> coalesce_empty u = coalesce_empty v \<longleftrightarrow> u = v"
  by (auto simp: coalesce_empty_def split: option.splits)

lemma coalesce_nullif [simp]: "coalesce_empty (nullif_empty s) = s"
  by (simp add: coalesce_empty_def nullif_empty_def)

lemma nullif_not_empty [simp]: "nullif_empty s \<noteq> Some []"
  by (simp add: nullif_empty_def)

subsection \<open>Tables with a unique index\<close>

text \<open>
  A unique index is a symmetric conflict relation that no two rows of the table are in.
\<close>

definition unique_rows :: "('r \<Rightarrow> 'r \<Rightarrow> bool) \<Rightarrow> 'r list \<Rightarrow> bool" where
  "unique_rows C rows = sorted_wrt (\<lambda>x y. \<not> C x y) rows"

lemma unique_split:
  assumes "unique_rows C xs" "s \<in> set xs" "P s"
    and conflict: "\<And>x y. P x \<Longrightarrow> P y \<Longrightarrow> C x y"
  shows "\<exists>ys zs. xs = ys @ s # zs \<and> (\<forall>x \<in> set ys \<union> set zs. \<not> P x)"
proof -
  from assms(2) obtain ys zs where xs: "xs = ys @ s # zs" by (meson split_list)
  with assms(1) have "\<forall>x \<in> set ys. \<not> C x s" and "\<forall>x \<in> set zs. \<not> C s x"
    by (auto simp: unique_rows_def sorted_wrt_append)
  with conflict assms(3) have "\<forall>x \<in> set ys \<union> set zs. \<not> P x" by blast
  with xs show ?thesis by blast
qed

lemma unique_update:
  assumes "unique_rows C xs" "s \<in> set xs" "P s"
    and "\<And>x y. P x \<Longrightarrow> P y \<Longrightarrow> C x y"
  shows "\<exists>ys zs. xs = ys @ s # zs
     \<and> List.map (\<lambda>r. if P r then f r else r) xs = ys @ f s # zs
     \<and> (\<forall>x \<in> set ys \<union> set zs. \<not> P x)"
proof -
  obtain ys zs where "xs = ys @ s # zs" "\<forall>x \<in> set ys \<union> set zs. \<not> P x"
    using unique_split [of C xs s P, OF assms] by blast
  moreover from this assms(3)
  have "List.map (\<lambda>r. if P r then f r else r) xs = ys @ f s # zs"
    by (simp add: map_idI)
  ultimately show ?thesis by blast
qed

lemma unique_sum_update:
  fixes h :: "'r \<Rightarrow> 'n :: ab_group_add"
  assumes "unique_rows C xs" "s \<in> set xs" "P s"
    and "\<And>x y. P x \<Longrightarrow> P y \<Longrightarrow> C x y"
  shows "sum_list (List.map h (List.map (\<lambda>r. if P r then f r else r) xs))
     = sum_list (List.map h xs) - h s + h (f s)"
proof -
  obtain ys zs where "xs = ys @ s # zs"
    and "List.map (\<lambda>r. if P r then f r else r) xs = ys @ f s # zs"
    using unique_update [of C xs s P f, OF assms] by blast
  then show ?thesis by (simp only:) (simp add: algebra_simps)
qed

lemma unique_map:
  assumes "unique_rows C xs"
    and "\<And>x y. C (f x) (f y) = C x y"
  shows "unique_rows C (List.map f xs)"
  using assms by (simp add: unique_rows_def sorted_wrt_map)

lemma unique_rows_Nil [simp]: "unique_rows C []"
  by (simp add: unique_rows_def)

lemma unique_append1:
  "unique_rows C (xs @ [r]) \<longleftrightarrow>
     unique_rows C xs \<and> (\<forall>x \<in> set xs. \<not> C x r)"
  by (auto simp: unique_rows_def sorted_wrt_append)

lemma sum_list_map_ge_elem:
  fixes h :: "'r \<Rightarrow> rat"
  assumes "s \<in> set xs" "\<And>x. x \<in> set xs \<Longrightarrow> 0 \<le> h x"
  shows "h s \<le> sum_list (List.map h xs)"
  using assms
proof (induction xs)
  case (Cons x xs)
  have nn: "0 \<le> sum_list (List.map h xs)"
    by (rule sum_list_nonneg) (use Cons.prems in auto)
  show ?case
  proof (cases "s = x")
    case True
    with nn show ?thesis by simp
  next
    case False
    with Cons have "h s \<le> sum_list (List.map h xs)" by simp
    moreover have "0 \<le> h x" using Cons.prems by simp
    ultimately show ?thesis by simp
  qed
qed simp

lemma unique_rows_eq:
  assumes "unique_rows C xs" "x \<in> set xs" "y \<in> set xs" "C x y" "C y x"
  shows "x = y"
  using assms by (induction xs) (auto simp: unique_rows_def)

lemma ball_set_mapI: "(\<And>x. x \<in> set xs \<Longrightarrow> P (f x)) \<Longrightarrow> \<forall>y \<in> set (List.map f xs). P y"
  by auto

lemma bex_set_mapI: "x \<in> set xs \<Longrightarrow> P (f x) \<Longrightarrow> \<exists>y \<in> set (List.map f xs). P y"
  by auto

subsection \<open>Steps that may fail\<close>

text \<open>A call that may return an error, followed by the rest of the body; a guard; a lookup.\<close>

fun try_step :: "'e + 'a \<Rightarrow> ('a \<Rightarrow> 'e + 'b) \<Rightarrow> 'e + 'b" where
  "try_step (Inl e) f = Inl e"
| "try_step (Inr x) f = f x"

definition fail_if :: "bool \<Rightarrow> 'e \<Rightarrow> 'e + unit" where
  "fail_if b e = (if b then Inl e else Inr ())"

definition or_error :: "'e \<Rightarrow> 'a option \<Rightarrow> 'e + 'a" where
  "or_error e x = (case x of None \<Rightarrow> Inl e | Some y \<Rightarrow> Inr y)"

lemma try_step_Inr: "try_step m f = Inr y \<longleftrightarrow> (\<exists>x. m = Inr x \<and> f x = Inr y)"
  by (cases m) auto

lemma fail_if_Inr [simp]: "fail_if b e = Inr u \<longleftrightarrow> \<not> b"
  by (simp add: fail_if_def)

lemma or_error_Inr [simp]: "or_error e x = Inr y \<longleftrightarrow> x = Some y"
  by (auto simp: or_error_def split: option.splits)

lemmas step_simps = try_step_Inr Let_def

text \<open>\<open>COALESCE(NULLIF(s, ''), c)\<close>.\<close>

definition set_unless_empty :: "string \<Rightarrow> string option \<Rightarrow> string option" where
  "set_unless_empty s c = (if s = [] then c else Some s)"

text \<open>What \<open>strings.ToLower(strings.TrimSpace(s))\<close> gives, with the fallback for an empty string.\<close>

definition lower_or :: "string \<Rightarrow> string \<Rightarrow> string" where
  "lower_or d s = (let n = to_lower (trim_space s) in if n = [] then d else n)"

end
