(* ===== verification/Quota_Ledger.thy ===== *)
theory Quota_Ledger
  imports Prelude
begin

text \<open>
  The quota ledger: \<open>src/server/internal/quota/service.go\<close>, the SQL store and the service
  methods that move balances, billing sessions and top-up orders.

  The database is a record of tables, each a list of rows. A store method takes an
  environment (the clock, the identifier generator, and which driver calls report an error)
  and the database, and returns the database after it with its result. A transaction works
  on a copy of the tables: \<open>Commit\<close> returns the copy, every other exit the original. A
  \<open>Commit\<close> that reports an error is taken as not committed. The \<open>fmt.Errorf\<close> prefixes are
  dropped, the error they wrap is kept. Foreign keys, metrics and tracing spans are not
  modelled.
\<close>

subsection \<open>Rows and errors\<close>

record quota_row =
  q_id :: string
  q_org :: string
  q_user :: string
  q_scope :: string
  q_balance :: usd
  q_used :: usd
  q_created :: gotime
  q_updated :: gotime

record billing_session =
  bs_id :: string
  bs_org :: string
  bs_user :: string
  bs_channel :: string
  bs_model :: string
  bs_api_type :: string
  bs_idem :: string
  bs_preauth :: usd
  bs_settled :: usd
  bs_status :: string
  bs_created :: gotime
  bs_settled_at :: "gotime option"

record quota_package =
  pk_id :: string
  pk_max_tokens_per_request :: int
  pk_is_active :: bool
  pk_is_public :: bool
  pk_sort_order :: int
  pk_created :: gotime

record quota_subscription =
  su_id :: string
  su_org :: string
  su_user :: string
  su_package :: string
  su_status :: string
  su_created :: gotime

record topup_order =
  to_id :: string
  to_org :: string
  to_user :: string
  to_payment_intent :: "string option"
  to_checkout_session :: "string option"
  to_amount :: usd
  to_money :: usd
  to_status :: string
  to_trade_no :: string
  to_paid_at :: "gotime option"
  to_created :: gotime

text \<open>\<open>concurrency_limits\<close> and \<open>token_rate_limits\<close>; \<open>None\<close> is a NULL \<open>user_id\<close>.\<close>

record concurrency_row =
  cl_org :: string
  cl_user :: "string option"
  cl_max :: int
  cl_updated :: gotime

record token_rate_row =
  tl_org :: string
  tl_user :: "string option"
  tl_window :: int
  tl_max_window :: int
  tl_max_request :: int
  tl_updated :: gotime

record quota_db =
  quotas :: "quota_row list"
  sessions :: "billing_session list"
  packages :: "quota_package list"
  subscriptions :: "quota_subscription list"
  topups :: "topup_order list"
  conc_limits :: "concurrency_row list"
  token_limits :: "token_rate_row list"

datatype db_call =
    CallScope | CallScopeAgain | CallGetQuota | CallCreateQuota | CallReadCreatedQuota
  | CallUpdateBalance | CallIdemLookup | CallIdemRelookup | CallBegin | CallInsertSession
  | CallReserve | CallRowsAffected | CallRollback | CallCurrentBalance | CallCommit
  | CallGetSession | CallUpdateSession | CallTxScope | CallRefundQuota | CallRefundRows
  | CallInsertTopup | CallUpdateTopup | CallUpsertConcurrency | CallUpsertTokens
  | CallListLimits | CallListSubscriptions | CallGetPackage

datatype quota_error =
    OrganizationRequired | AmountNotPositive | SessionRequired
  | InsufficientBalance usd usd | SettledNegative | SettledExceedsPreauth usd usd
  | SessionClosed | NoRows | UniqueViolation | DbFault db_call | IdFailure
  | PaymentIntentRequired | CheckoutSessionRequired
  | NegativeConcurrent | NegativeWindowTokens | NegativeRequestTokens | NoLimitSet
  | NegativeWindowSeconds | UserMustBeEmpty | UserRequired | BadQuotaMode

record quota_env =
  e_now :: gotime
  e_new_id :: "string \<Rightarrow> string option"
  e_fault :: "db_call \<Rightarrow> bool"

subsection \<open>Which balance a request uses\<close>

definition has_user_limits :: "quota_db \<Rightarrow> string \<Rightarrow> string \<Rightarrow> bool" where
  "has_user_limits db org user \<longleftrightarrow>
     list_ex (\<lambda>r. cl_org r = org \<and> cl_user r = Some user) (conc_limits db)
   \<or> list_ex (\<lambda>r. tl_org r = org \<and> tl_user r = Some user) (token_limits db)"

text \<open>
  The scope of a user's balance, without the driver error; \<open>quotaBalanceScope\<close> and
  \<open>quotaBalanceScopeTx\<close> differ only in the connection they use.
\<close>

definition scope_of :: "quota_db \<Rightarrow> string \<Rightarrow> string \<Rightarrow> string" where
  "scope_of db user org =
     (if user = [] then ''organization''
      else if has_user_limits db org user then ''user'' else ''organization'')"

definition quota_balance_scope ::
  "quota_env \<Rightarrow> db_call \<Rightarrow> quota_db \<Rightarrow> string \<Rightarrow> string \<Rightarrow> quota_error + string" where
  "quota_balance_scope env call db user org =
     (if user = [] then Inr ''organization''
      else if e_fault env call then Inl (DbFault call)
      else if has_user_limits db org user then Inr ''user''
      else Inr ''organization'')"

definition quota_balance_scope_tx ::
  "quota_env \<Rightarrow> quota_db \<Rightarrow> string \<Rightarrow> string \<Rightarrow> quota_error + string" where
  "quota_balance_scope_tx env tx user org =
     (if user = [] then Inr ''organization''
      else if e_fault env CallTxScope then Inl (DbFault CallTxScope)
      else if has_user_limits tx org user then Inr ''user''
      else Inr ''organization'')"

text \<open>The \<open>WHERE\<close> clause every statement on \<open>quotas\<close> uses.\<close>

definition quota_match :: "string \<Rightarrow> string \<Rightarrow> string \<Rightarrow> quota_row \<Rightarrow> bool" where
  "quota_match org scope user q \<longleftrightarrow>
     q_org q = org \<and> q_scope q = scope \<and> (scope = ''organization'' \<or> q_user q = user)"

text \<open>The unique indexes of \<open>quotas\<close>: the primary key and one row per scope.\<close>

definition quota_conflict :: "quota_row \<Rightarrow> quota_row \<Rightarrow> bool" where
  "quota_conflict r q \<longleftrightarrow>
     q_id q = q_id r
   \<or> (q_scope q = ''organization'' \<and> q_scope r = ''organization'' \<and> q_org q = q_org r)
   \<or> (q_scope q = ''user'' \<and> q_scope r = ''user'' \<and> q_org q = q_org r \<and> q_user q = q_user r)"

definition insert_quota :: "quota_row \<Rightarrow> quota_db \<Rightarrow> quota_db" where
  "insert_quota r db =
     (if list_ex (quota_conflict r) (quotas db) then db
      else db\<lparr>quotas := quotas db @ [r]\<rparr>)"

definition get_or_create_quota ::
  "quota_env \<Rightarrow> string \<Rightarrow> string \<Rightarrow> quota_db \<Rightarrow> quota_db \<times> (quota_error + quota_row)" where
  "get_or_create_quota env user org db =
     (case quota_balance_scope env CallScope db user org of
        Inl e \<Rightarrow> (db, Inl e)
      | Inr scope \<Rightarrow>
          if e_fault env CallGetQuota then (db, Inl (DbFault CallGetQuota))
          else case sql_select (quota_match org scope user) (quotas db) of
            Some q \<Rightarrow> (db, Inr q)
          | None \<Rightarrow>
              (case e_new_id env ''quota'' of
                 None \<Rightarrow> (db, Inl IdFailure)
               | Some nid \<Rightarrow>
                   if e_fault env CallCreateQuota then (db, Inl (DbFault CallCreateQuota))
                   else
                     (let db1 = insert_quota
                                  \<lparr>q_id = nid, q_org = org, q_user = user, q_scope = scope,
                                   q_balance = 0, q_used = 0,
                                   q_created = e_now env, q_updated = e_now env\<rparr> db
                      in if e_fault env CallReadCreatedQuota
                         then (db1, Inl (DbFault CallReadCreatedQuota))
                         else case sql_select (quota_match org scope user) (quotas db1) of
                                None \<Rightarrow> (db1, Inl NoRows)
                              | Some q \<Rightarrow> (db1, Inr q))))"

definition update_quota_balance ::
  "quota_env \<Rightarrow> string \<Rightarrow> string \<Rightarrow> usd \<Rightarrow> quota_db \<Rightarrow> quota_db \<times> quota_error option" where
  "update_quota_balance env user org delta db =
     (case quota_balance_scope env CallScope db user org of
        Inl e \<Rightarrow> (db, Some e)
      | Inr scope \<Rightarrow>
          if e_fault env CallUpdateBalance then (db, Some (DbFault CallUpdateBalance))
          else if 0 < delta then
            (db\<lparr>quotas := fst (sql_update (quota_match org scope user)
                 (\<lambda>q. q\<lparr>q_balance := dec6 (q_balance q + delta), q_updated := e_now env\<rparr>)
                 (quotas db))\<rparr>, None)
          else
            (db\<lparr>quotas := fst (sql_update (quota_match org scope user)
                 (\<lambda>q. q\<lparr>q_balance := dec6 (q_balance q + delta),
                        q_used := dec6 (q_used q - delta), q_updated := e_now env\<rparr>)
                 (quotas db))\<rparr>, None))"

subsection \<open>Billing sessions\<close>

definition session_conflict :: "billing_session \<Rightarrow> billing_session \<Rightarrow> bool" where
  "session_conflict s r \<longleftrightarrow>
     bs_id r = bs_id s
   \<or> (bs_idem s \<noteq> [] \<and> bs_org r = bs_org s \<and> bs_idem r = bs_idem s)"

text \<open>
  The row an \<open>INSERT INTO billing_sessions\<close> stores: \<open>settled_amt\<close> and \<open>settled_at\<close> are not
  listed and take their defaults, the amount is rounded to the column.
\<close>

definition stored_session :: "billing_session \<Rightarrow> billing_session" where
  "stored_session s =
     s\<lparr>bs_preauth := dec6 (bs_preauth s), bs_settled := 0, bs_settled_at := None\<rparr>"

definition create_billing_session ::
  "quota_env \<Rightarrow> billing_session \<Rightarrow> quota_db \<Rightarrow> quota_db \<times> (quota_error + billing_session)" where
  "create_billing_session env s db =
     (if e_fault env CallInsertSession then (db, Inl (DbFault CallInsertSession))
      else if list_ex (session_conflict s) (sessions db) then (db, Inl UniqueViolation)
      else (db\<lparr>sessions := sessions db @ [stored_session s]\<rparr>, Inr s))"

definition get_session_by_idempotency_key ::
  "quota_env \<Rightarrow> db_call \<Rightarrow> string \<Rightarrow> string \<Rightarrow> quota_db \<Rightarrow> quota_error + billing_session option" where
  "get_session_by_idempotency_key env call key org db =
     (if e_fault env call then Inl (DbFault call)
      else Inr (sql_select (\<lambda>s. bs_idem s = key \<and> bs_org s = org) (sessions db)))"

text \<open>
  The conditional \<open>UPDATE quotas ... AND balance >= $4\<close> that reserves the amount.
\<close>

definition reserve_match :: "string \<Rightarrow> string \<Rightarrow> string \<Rightarrow> usd \<Rightarrow> quota_row \<Rightarrow> bool" where
  "reserve_match org scope user amt q \<longleftrightarrow> quota_match org scope user q \<and> amt \<le> q_balance q"

definition reserve_row :: "gotime \<Rightarrow> usd \<Rightarrow> quota_row \<Rightarrow> quota_row" where
  "reserve_row now amt q =
     q\<lparr>q_balance := dec6 (q_balance q - amt), q_used := dec6 (q_used q + amt), q_updated := now\<rparr>"

text \<open>
  The transaction of \<open>PreauthorizeBillingSession\<close>: insert the session, reserve the amount,
  commit. \<open>quota\<close> is the row read before the transaction; its balance is reported when the
  reread fails.
\<close>

definition preauthorize_tx ::
  "quota_env \<Rightarrow> billing_session \<Rightarrow> string \<Rightarrow> quota_row \<Rightarrow> quota_db
     \<Rightarrow> quota_db \<times> (quota_error + billing_session)" where
  "preauthorize_tx env s scope quota db =
     (if e_fault env CallBegin then (db, Inl (DbFault CallBegin))
      else if e_fault env CallInsertSession then (db, Inl (DbFault CallInsertSession))
      else if list_ex (session_conflict s) (sessions db) then
        (if bs_idem s \<noteq> [] then
           (if e_fault env CallRollback then (db, Inl (DbFault CallRollback))
            else case get_session_by_idempotency_key env CallIdemRelookup (bs_idem s) (bs_org s) db of
                   Inl e \<Rightarrow> (db, Inl e)
                 | Inr (Some existing) \<Rightarrow> (db, Inr existing)
                 | Inr None \<Rightarrow> (db, Inl UniqueViolation))
         else (db, Inl UniqueViolation))
      else
        (let tx = db\<lparr>sessions := sessions db @ [stored_session s]\<rparr>;
             res = sql_update (reserve_match (bs_org s) scope (bs_user s) (bs_preauth s))
                     (reserve_row (e_now env) (bs_preauth s)) (quotas tx)
         in if e_fault env CallReserve then (db, Inl (DbFault CallReserve))
            else if e_fault env CallRowsAffected then (db, Inl (DbFault CallRowsAffected))
            else if snd res = 0 then
              (if e_fault env CallRollback then (db, Inl (DbFault CallRollback))
               else (db, Inl (InsufficientBalance
                      (if e_fault env CallCurrentBalance then q_balance quota
                       else case sql_select (quota_match (bs_org s) scope (bs_user s)) (quotas db) of
                              Some q \<Rightarrow> q_balance q | None \<Rightarrow> q_balance quota)
                      (bs_preauth s))))
            else if e_fault env CallCommit then (db, Inl (DbFault CallCommit))
            else (tx\<lparr>quotas := fst res\<rparr>, Inr s)))"

definition default_session :: "quota_env \<Rightarrow> string \<Rightarrow> billing_session \<Rightarrow> billing_session" where
  "default_session env sid s =
     s\<lparr>bs_id := sid,
       bs_status := (if bs_status s = [] then ''preauthorized'' else bs_status s),
       bs_created := (if bs_created s = zero_time then e_now env else bs_created s)\<rparr>"

text \<open>From the missed idempotency lookup on: the quota row, its scope, the transaction.\<close>

definition preauthorize_reserve ::
  "quota_env \<Rightarrow> billing_session \<Rightarrow> quota_db \<Rightarrow> quota_db \<times> (quota_error + billing_session)" where
  "preauthorize_reserve env s db =
     (case get_or_create_quota env (bs_user s) (bs_org s) db of
        (db1, Inl e) \<Rightarrow> (db1, Inl e)
      | (db1, Inr quota) \<Rightarrow>
          (case quota_balance_scope env CallScopeAgain db1 (bs_user s) (bs_org s) of
             Inl e \<Rightarrow> (db1, Inl e)
           | Inr scope \<Rightarrow> preauthorize_tx env s scope quota db1))"

definition preauthorize_billing_session ::
  "quota_env \<Rightarrow> billing_session option \<Rightarrow> quota_db \<Rightarrow> quota_db \<times> (quota_error + billing_session)" where
  "preauthorize_billing_session env session db =
     (case session of
        None \<Rightarrow> (db, Inl SessionRequired)
      | Some s0 \<Rightarrow>
          if bs_org s0 = [] then (db, Inl OrganizationRequired)
          else if bs_preauth s0 \<le> 0 then (db, Inl AmountNotPositive)
          else case (if bs_id s0 = [] then e_new_id env ''bill'' else Some (bs_id s0)) of
            None \<Rightarrow> (db, Inl IdFailure)
          | Some sid \<Rightarrow>
              (let s = default_session env sid s0 in
               case (if bs_idem s = [] then Inr None
                     else get_session_by_idempotency_key env CallIdemLookup (bs_idem s) (bs_org s) db) of
                 Inl e \<Rightarrow> (db, Inl e)
               | Inr (Some existing) \<Rightarrow> (db, Inr existing)
               | Inr None \<Rightarrow> preauthorize_reserve env s db))"

definition refund_reserved_quota_tx ::
  "quota_env \<Rightarrow> string \<Rightarrow> string \<Rightarrow> usd \<Rightarrow> quota_db \<Rightarrow> quota_error + quota_db" where
  "refund_reserved_quota_tx env user org amt tx =
     (if amt \<le> 0 then Inr tx
      else case quota_balance_scope_tx env tx user org of
        Inl e \<Rightarrow> Inl e
      | Inr scope \<Rightarrow>
          (let res = sql_update (quota_match org scope user)
                 (\<lambda>q. q\<lparr>q_balance := dec6 (q_balance q + amt),
                        q_used := dec6 (max (q_used q - amt) 0), q_updated := e_now env\<rparr>)
                 (quotas tx)
           in if e_fault env CallRefundQuota then Inl (DbFault CallRefundQuota)
              else if e_fault env CallRefundRows then Inl (DbFault CallRefundRows)
              else if snd res = 0 then Inl NoRows
              else Inr (tx\<lparr>quotas := fst res\<rparr>)))"

definition session_key :: "string \<Rightarrow> string \<Rightarrow> billing_session \<Rightarrow> bool" where
  "session_key sid org s \<longleftrightarrow> bs_id s = sid \<and> bs_org s = org"

definition open_session :: "string \<Rightarrow> string \<Rightarrow> billing_session \<Rightarrow> bool" where
  "open_session sid org s \<longleftrightarrow> session_key sid org s \<and> bs_status s = ''preauthorized''"

definition settle_update :: "gotime \<Rightarrow> usd \<Rightarrow> billing_session \<Rightarrow> billing_session" where
  "settle_update now amt s =
     s\<lparr>bs_status := ''settled'', bs_settled := dec6 amt, bs_settled_at := Some now\<rparr>"

definition refund_update :: "gotime \<Rightarrow> billing_session \<Rightarrow> billing_session" where
  "refund_update now s = s\<lparr>bs_status := ''refunded'', bs_settled_at := Some now\<rparr>"

definition settle_billing_session ::
  "quota_env \<Rightarrow> string \<Rightarrow> string \<Rightarrow> usd \<Rightarrow> quota_db \<Rightarrow> quota_db \<times> quota_error option" where
  "settle_billing_session env sid org amt db =
     (if amt < 0 then (db, Some SettledNegative)
      else if e_fault env CallBegin then (db, Some (DbFault CallBegin))
      else if e_fault env CallGetSession then (db, Some (DbFault CallGetSession))
      else case sql_select (session_key sid org) (sessions db) of
        None \<Rightarrow> (db, Some NoRows)
      | Some s \<Rightarrow>
          if bs_status s \<noteq> ''preauthorized'' then (db, Some SessionClosed)
          else if bs_preauth s < amt then (db, Some (SettledExceedsPreauth amt (bs_preauth s)))
          else
            (let refund_amt = bs_preauth s - amt;
                 res = sql_update (open_session sid org)
                   (settle_update (e_now env) amt) (sessions db)
             in if e_fault env CallUpdateSession then (db, Some (DbFault CallUpdateSession))
                else if e_fault env CallRowsAffected then (db, Some (DbFault CallRowsAffected))
                else if snd res = 0 then (db, Some SessionClosed)
                else case refund_reserved_quota_tx env (bs_user s) (bs_org s) refund_amt
                            (db\<lparr>sessions := fst res\<rparr>) of
                  Inl e \<Rightarrow> (db, Some e)
                | Inr tx \<Rightarrow>
                    if e_fault env CallCommit then (db, Some (DbFault CallCommit))
                    else (tx, None)))"

definition refund_billing_session ::
  "quota_env \<Rightarrow> string \<Rightarrow> string \<Rightarrow> quota_db \<Rightarrow> quota_db \<times> quota_error option" where
  "refund_billing_session env sid org db =
     (if e_fault env CallBegin then (db, Some (DbFault CallBegin))
      else if e_fault env CallGetSession then (db, Some (DbFault CallGetSession))
      else case sql_select (session_key sid org) (sessions db) of
        None \<Rightarrow> (db, Some NoRows)
      | Some s \<Rightarrow>
          if bs_status s = ''refunded'' then (db, None)
          else if bs_status s \<noteq> ''preauthorized'' then (db, Some SessionClosed)
          else
            (let res = sql_update (open_session sid org)
                   (refund_update (e_now env)) (sessions db)
             in if e_fault env CallUpdateSession then (db, Some (DbFault CallUpdateSession))
                else if e_fault env CallRowsAffected then (db, Some (DbFault CallRowsAffected))
                else if snd res = 0 then (db, Some SessionClosed)
                else case refund_reserved_quota_tx env (bs_user s) (bs_org s) (bs_preauth s)
                            (db\<lparr>sessions := fst res\<rparr>) of
                  Inl e \<Rightarrow> (db, Some e)
                | Inr tx \<Rightarrow>
                    if e_fault env CallCommit then (db, Some (DbFault CallCommit))
                    else (tx, None)))"

subsection \<open>Top-up orders\<close>

text \<open>The unique indexes of \<open>topup_orders\<close>: the primary key and the payment intent.\<close>

definition topup_conflict :: "topup_order \<Rightarrow> topup_order \<Rightarrow> bool" where
  "topup_conflict t r \<longleftrightarrow>
     to_id r = to_id t
   \<or> (to_payment_intent t \<noteq> None \<and> to_payment_intent r = to_payment_intent t)"

definition stored_topup :: "topup_order \<Rightarrow> topup_order" where
  "stored_topup t =
     t\<lparr>to_amount := dec6 (to_amount t), to_money := dec2 (to_money t),
       to_trade_no := [], to_paid_at := None\<rparr>"

definition create_topup_order ::
  "quota_env \<Rightarrow> topup_order \<Rightarrow> quota_db \<Rightarrow> quota_db \<times> (quota_error + topup_order)" where
  "create_topup_order env t db =
     (if e_fault env CallInsertTopup then (db, Inl (DbFault CallInsertTopup))
      else if list_ex (topup_conflict t) (topups db) then (db, Inl UniqueViolation)
      else (db\<lparr>topups := topups db @ [stored_topup t]\<rparr>, Inr t))"

definition update_topup_rows ::
  "quota_env \<Rightarrow> (topup_order \<Rightarrow> bool) \<Rightarrow> (topup_order \<Rightarrow> topup_order) \<Rightarrow> quota_db
     \<Rightarrow> quota_db \<times> quota_error option" where
  "update_topup_rows env P f db =
     (let res = sql_update P f (topups db)
      in if e_fault env CallUpdateTopup then (db, Some (DbFault CallUpdateTopup))
         else if e_fault env CallRowsAffected
           then (db\<lparr>topups := fst res\<rparr>, Some (DbFault CallRowsAffected))
         else if snd res = 0 then (db, Some NoRows)
         else (db\<lparr>topups := fst res\<rparr>, None))"

definition update_topup_order_checkout_session ::
  "quota_env \<Rightarrow> string \<Rightarrow> string \<Rightarrow> string \<Rightarrow> quota_db \<Rightarrow> quota_db \<times> quota_error option" where
  "update_topup_order_checkout_session env org intent checkout db =
     update_topup_rows env (\<lambda>t. to_org t = org \<and> to_payment_intent t = Some intent)
       (\<lambda>t. t\<lparr>to_checkout_session := Some checkout\<rparr>) db"

definition mark_topup_order_failed_by_payment_intent ::
  "quota_env \<Rightarrow> string \<Rightarrow> string \<Rightarrow> quota_db \<Rightarrow> quota_db \<times> quota_error option" where
  "mark_topup_order_failed_by_payment_intent env org intent db =
     update_topup_rows env
       (\<lambda>t. to_org t = org \<and> to_payment_intent t = Some intent \<and> to_status t = ''pending'')
       (\<lambda>t. t\<lparr>to_status := ''failed''\<rparr>) db"

definition update_topup_order_status ::
  "quota_env \<Rightarrow> string \<Rightarrow> string \<Rightarrow> string \<Rightarrow> string \<Rightarrow> quota_db \<Rightarrow> quota_db \<times> quota_error option" where
  "update_topup_order_status env tid org status trade_no db =
     update_topup_rows env (\<lambda>t. to_id t = tid \<and> to_org t = org)
       (\<lambda>t. t\<lparr>to_status := status, to_trade_no := trade_no,
              to_paid_at := (if status = ''paid'' then Some (e_now env) else None)\<rparr>) db"

subsection \<open>The service\<close>

definition new_session ::
  "quota_env \<Rightarrow> string \<Rightarrow> string \<Rightarrow> string \<Rightarrow> usd \<Rightarrow> string \<Rightarrow> string \<Rightarrow> string \<Rightarrow> string \<Rightarrow> billing_session"
where
  "new_session env sid user org amt idem channel model api_type =
     \<lparr>bs_id = sid, bs_org = org, bs_user = user, bs_channel = channel, bs_model = model,
      bs_api_type = api_type, bs_idem = idem, bs_preauth = amt, bs_settled = 0,
      bs_status = ''preauthorized'', bs_created = e_now env, bs_settled_at = None\<rparr>"

text \<open>
  \<open>PreConsume\<close> for a store that implements \<open>billingSessionPreauthorizer\<close> (the SQL store
  does), and the path for a store that does not, over the same tables. The results of the
  compensating \<open>UpdateQuotaBalance\<close> calls are ignored, as in the code.
\<close>

definition pre_consume_fallback ::
  "quota_env \<Rightarrow> string \<Rightarrow> string \<Rightarrow> usd \<Rightarrow> string \<Rightarrow> string \<Rightarrow> string \<Rightarrow> string \<Rightarrow> quota_db
     \<Rightarrow> quota_db \<times> (quota_error + billing_session)" where
  "pre_consume_fallback env user org amt idem channel model api_type db =
     (case (if idem \<noteq> [] then get_session_by_idempotency_key env CallIdemLookup idem org db
            else Inr None) of
        Inl e \<Rightarrow> (db, Inl e)
      | Inr (Some existing) \<Rightarrow> (db, Inr existing)
      | Inr None \<Rightarrow>
          (case get_or_create_quota env user org db of
             (db1, Inl e) \<Rightarrow> (db1, Inl e)
           | (db1, Inr quota) \<Rightarrow>
               if q_balance quota < amt
               then (db1, Inl (InsufficientBalance (q_balance quota) amt))
               else
                 (case update_quota_balance env user org (- amt) db1 of
                    (db2, Some e) \<Rightarrow> (db2, Inl e)
                  | (db2, None) \<Rightarrow>
                      (case e_new_id env ''bill'' of
                         None \<Rightarrow> (fst (update_quota_balance env user org amt db2), Inl IdFailure)
                       | Some sid \<Rightarrow>
                           (case create_billing_session env
                                   (new_session env sid user org amt idem channel model api_type) db2 of
                              (db3, Inl e) \<Rightarrow>
                                (fst (update_quota_balance env user org amt db3), Inl e)
                            | (db3, Inr created) \<Rightarrow> (db3, Inr created))))))"

definition pre_consume ::
  "bool \<Rightarrow> quota_env \<Rightarrow> string \<Rightarrow> string \<Rightarrow> usd \<Rightarrow> string \<Rightarrow> string \<Rightarrow> string \<Rightarrow> string \<Rightarrow> quota_db
     \<Rightarrow> quota_db \<times> (quota_error + billing_session)" where
  "pre_consume is_preauthorizer env user org amt idem channel model api_type db =
     (if org = [] then (db, Inl OrganizationRequired)
      else if amt \<le> 0 then (db, Inl AmountNotPositive)
      else if is_preauthorizer then
        (case e_new_id env ''bill'' of
           None \<Rightarrow> (db, Inl IdFailure)
         | Some sid \<Rightarrow>
             preauthorize_billing_session env
               (Some (new_session env sid user org amt idem channel model api_type)) db)
      else pre_consume_fallback env user org amt idem channel model api_type db)"

definition quota_settle ::
  "quota_env \<Rightarrow> string \<Rightarrow> string \<Rightarrow> usd \<Rightarrow> quota_db \<Rightarrow> quota_db \<times> quota_error option" where
  "quota_settle env org sid amt db =
     (if org = [] then (db, Some OrganizationRequired)
      else settle_billing_session env sid org amt db)"

definition quota_refund ::
  "quota_env \<Rightarrow> string \<Rightarrow> string \<Rightarrow> quota_db \<Rightarrow> quota_db \<times> quota_error option" where
  "quota_refund env org sid db =
     (if org = [] then (db, Some OrganizationRequired)
      else refund_billing_session env sid org db)"

definition quota_topup ::
  "quota_env \<Rightarrow> string \<Rightarrow> string \<Rightarrow> usd \<Rightarrow> quota_db \<Rightarrow> quota_db \<times> quota_error option" where
  "quota_topup env user org amt db =
     (if org = [] then (db, Some OrganizationRequired)
      else case get_or_create_quota env user org db of
        (db1, Inl e) \<Rightarrow> (db1, Some e)
      | (db1, Inr _) \<Rightarrow> update_quota_balance env user org amt db1)"

definition create_pending_topup ::
  "quota_env \<Rightarrow> string \<Rightarrow> string \<Rightarrow> string \<Rightarrow> usd \<Rightarrow> usd \<Rightarrow> quota_db
     \<Rightarrow> quota_db \<times> (quota_error + topup_order)" where
  "create_pending_topup env user org intent amt money db =
     (if org = [] then (db, Inl OrganizationRequired)
      else if amt \<le> 0 then (db, Inl AmountNotPositive)
      else case e_new_id env ''topup'' of
        None \<Rightarrow> (db, Inl IdFailure)
      | Some tid \<Rightarrow>
          create_topup_order env
            \<lparr>to_id = tid, to_org = org, to_user = user, to_payment_intent = nullif_empty intent,
             to_checkout_session = None, to_amount = amt, to_money = money,
             to_status = ''pending'', to_trade_no = [], to_paid_at = None,
             to_created = e_now env\<rparr> db)"

definition set_topup_checkout_session ::
  "quota_env \<Rightarrow> string \<Rightarrow> string \<Rightarrow> string \<Rightarrow> quota_db \<Rightarrow> quota_db \<times> quota_error option" where
  "set_topup_checkout_session env org intent checkout db =
     (if org = [] then (db, Some OrganizationRequired)
      else if intent = [] then (db, Some PaymentIntentRequired)
      else if checkout = [] then (db, Some CheckoutSessionRequired)
      else update_topup_order_checkout_session env org intent checkout db)"

definition mark_topup_checkout_failed ::
  "quota_env \<Rightarrow> string \<Rightarrow> string \<Rightarrow> quota_db \<Rightarrow> quota_db \<times> quota_error option" where
  "mark_topup_checkout_failed env org intent db =
     (if org = [] then (db, Some OrganizationRequired)
      else if intent = [] then (db, Some PaymentIntentRequired)
      else mark_topup_order_failed_by_payment_intent env org intent db)"

end
