(* ===== verification/Ledger_Invariant.thy ===== *)
theory Ledger_Invariant
  imports Quota_Ledger
begin

text \<open>
  The accounting invariant of the quota ledger and its preservation by every service
  operation, whatever the driver faults: balances never negative, every session backed by a
  quota row, and \<open>used\<close> of a row equal to what its sessions hold.
\<close>

subsection \<open>Scopes and rows\<close>

lemma quota_balance_scope_Inr:
  "quota_balance_scope env call db user org = Inr scope \<Longrightarrow> scope = scope_of db user org"
  by (auto simp: quota_balance_scope_def scope_of_def split: if_splits)

lemma quota_balance_scope_tx_Inr:
  "quota_balance_scope_tx env db user org = Inr scope \<Longrightarrow> scope = scope_of db user org"
  by (auto simp: quota_balance_scope_tx_def scope_of_def split: if_splits)

lemma scope_of_values: "scope_of db user org = ''organization'' \<or> scope_of db user org = ''user''"
  by (simp add: scope_of_def)

lemma scope_of_frame [simp]:
  "scope_of (db\<lparr>quotas := qs\<rparr>) = scope_of db"
  "scope_of (db\<lparr>sessions := ss\<rparr>) = scope_of db"
  by (simp_all add: fun_eq_iff scope_of_def has_user_limits_def)

text \<open>The row a user's requests draw on.\<close>

definition draws_on :: "quota_db \<Rightarrow> string \<Rightarrow> string \<Rightarrow> quota_row \<Rightarrow> bool" where
  "draws_on db user org q = quota_match org (scope_of db user org) user q"

lemma draws_on_frame [simp]:
  "draws_on (db\<lparr>quotas := qs\<rparr>) = draws_on db"
  "draws_on (db\<lparr>sessions := ss\<rparr>) = draws_on db"
  by (simp_all add: fun_eq_iff draws_on_def)

lemma draws_on_conflict: "draws_on db user org q \<Longrightarrow> draws_on db user org r \<Longrightarrow> quota_conflict q r"
  using scope_of_values [of db user org]
  by (auto simp: draws_on_def quota_match_def quota_conflict_def)

lemma quota_conflict_keys [simp]:
  "quota_conflict (q\<lparr>q_balance := a, q_used := b, q_updated := t\<rparr>) r = quota_conflict q r"
  "quota_conflict q (r\<lparr>q_balance := a, q_used := b, q_updated := t\<rparr>) = quota_conflict q r"
  "quota_conflict (q\<lparr>q_balance := a, q_updated := t\<rparr>) r = quota_conflict q r"
  "quota_conflict q (r\<lparr>q_balance := a, q_updated := t\<rparr>) = quota_conflict q r"
  by (simp_all add: quota_conflict_def)

lemma draws_on_keys [simp]:
  "draws_on db user org (q\<lparr>q_balance := a, q_used := b, q_updated := t\<rparr>) = draws_on db user org q"
  "draws_on db user org (q\<lparr>q_balance := a, q_updated := t\<rparr>) = draws_on db user org q"
  by (simp_all add: draws_on_def quota_match_def)

subsection \<open>The invariant\<close>

text \<open>What a session still holds of its balance.\<close>

definition held :: "billing_session \<Rightarrow> usd" where
  "held s =
     (if bs_status s = ''preauthorized'' then bs_preauth s
      else if bs_status s = ''settled'' then bs_settled s else 0)"

definition backed_by :: "quota_db \<Rightarrow> quota_row \<Rightarrow> billing_session \<Rightarrow> bool" where
  "backed_by db q s = draws_on db (bs_user s) (bs_org s) q"

definition held_on :: "quota_db \<Rightarrow> quota_row \<Rightarrow> billing_session \<Rightarrow> usd" where
  "held_on db q s = (if backed_by db q s then held s else 0)"

definition used_total :: "quota_db \<Rightarrow> quota_row \<Rightarrow> usd" where
  "used_total db q = sum_list (List.map (held_on db q) (sessions db))"

definition quota_row_ok :: "quota_row \<Rightarrow> bool" where
  "quota_row_ok q \<longleftrightarrow> 0 \<le> q_balance q \<and> grid (q_balance q) \<and> grid (q_used q)"

definition session_ok :: "billing_session \<Rightarrow> bool" where
  "session_ok s \<longleftrightarrow>
     bs_status s \<in> {''preauthorized'', ''settled'', ''refunded''}
   \<and> 0 \<le> bs_settled s \<and> bs_settled s \<le> bs_preauth s
   \<and> grid (bs_preauth s) \<and> grid (bs_settled s)"

definition ledger_ok :: "quota_db \<Rightarrow> bool" where
  "ledger_ok db \<longleftrightarrow>
     unique_rows quota_conflict (quotas db)
   \<and> unique_rows session_conflict (sessions db)
   \<and> (\<forall>q \<in> set (quotas db). quota_row_ok q)
   \<and> (\<forall>s \<in> set (sessions db). session_ok s)
   \<and> (\<forall>s \<in> set (sessions db). \<exists>q \<in> set (quotas db). backed_by db q s)
   \<and> (\<forall>q \<in> set (quotas db). q_used q = used_total db q)"

lemma ledger_okI:
  assumes "unique_rows quota_conflict (quotas db)" "unique_rows session_conflict (sessions db)"
    and "\<forall>q \<in> set (quotas db). quota_row_ok q \<and> q_used q = used_total db q"
    and "\<forall>s \<in> set (sessions db). session_ok s"
    and "\<forall>s \<in> set (sessions db). \<exists>q \<in> set (quotas db). backed_by db q s"
  shows "ledger_ok db"
  using assms by (simp add: ledger_ok_def)

lemma held_nonneg: "session_ok s \<Longrightarrow> 0 \<le> held s"
  by (auto simp: session_ok_def held_def)

lemma held_on_nonneg: "session_ok s \<Longrightarrow> 0 \<le> held_on db q s"
  by (simp add: held_on_def held_nonneg)

lemma backed_by_frame [simp]:
  "backed_by (db\<lparr>quotas := qs\<rparr>) = backed_by db"
  "backed_by (db\<lparr>sessions := ss\<rparr>) = backed_by db"
  by (simp_all add: fun_eq_iff backed_by_def)

lemma backed_by_keys [simp]:
  "backed_by db (q\<lparr>q_balance := a, q_used := b, q_updated := t\<rparr>) = backed_by db q"
  "backed_by db (q\<lparr>q_balance := a, q_updated := t\<rparr>) = backed_by db q"
  by (simp_all add: fun_eq_iff backed_by_def)

lemma backed_by_update [simp]:
  "backed_by db q (s\<lparr>bs_status := st, bs_settled := a, bs_settled_at := t\<rparr>) = backed_by db q s"
  "backed_by db q (s\<lparr>bs_status := st, bs_settled_at := t\<rparr>) = backed_by db q s"
  by (simp_all add: backed_by_def)

lemma held_on_frame [simp]:
  "held_on (db\<lparr>quotas := qs\<rparr>) = held_on db"
  "held_on (db\<lparr>sessions := ss\<rparr>) = held_on db"
  by (simp_all add: fun_eq_iff held_on_def)

lemma held_on_keys [simp]:
  "held_on db (q\<lparr>q_balance := a, q_used := b, q_updated := t\<rparr>) = held_on db q"
  "held_on db (q\<lparr>q_balance := a, q_updated := t\<rparr>) = held_on db q"
  by (simp_all add: fun_eq_iff held_on_def)

lemma used_total_keys [simp]:
  "used_total db (q\<lparr>q_balance := a, q_used := b, q_updated := t\<rparr>) = used_total db q"
  "used_total db (q\<lparr>q_balance := a, q_updated := t\<rparr>) = used_total db q"
  "used_total (db\<lparr>quotas := qs\<rparr>) q = used_total db q"
  by (simp_all add: used_total_def)

lemma held_le_used_total:
  assumes "ledger_ok db" "s \<in> set (sessions db)" "backed_by db q s"
  shows "held s \<le> used_total db q"
proof -
  have "held_on db q s \<le> used_total db q"
    unfolding used_total_def using assms
    by (intro sum_list_map_ge_elem) (auto simp: ledger_ok_def intro: held_on_nonneg)
  with assms(3) show ?thesis by (simp add: held_on_def)
qed

subsection \<open>The empty row a first request creates\<close>

lemma insert_quota_ok:
  assumes ok: "ledger_ok db"
    and row: "q_balance r = 0" "q_used r = 0"
    and scope: "q_scope r = ''organization'' \<or> q_scope r = ''user''"
  shows "ledger_ok (insert_quota r db)"
proof (cases "list_ex (quota_conflict r) (quotas db)")
  case True
  with ok show ?thesis by (simp add: insert_quota_def)
next
  case False
  then have nc: "\<forall>q \<in> set (quotas db). \<not> quota_conflict q r"
    by (auto simp: list_ex_iff quota_conflict_def)
  have fresh: "\<forall>s \<in> set (sessions db). \<not> backed_by db r s"
  proof (intro ballI notI)
    fix s assume "s \<in> set (sessions db)" and b: "backed_by db r s"
    with ok obtain q where "q \<in> set (quotas db)" "backed_by db q s"
      by (auto simp: ledger_ok_def)
    with b nc draws_on_conflict show False unfolding backed_by_def by blast
  qed
  then have "List.map (held_on db r) (sessions db) = List.map (\<lambda>_. 0) (sessions db)"
    by (intro map_cong) (auto simp: held_on_def)
  then have "used_total db r = 0" unfolding used_total_def by (simp only: sum_list_triv mult_zero_right)
  with ok False nc row show ?thesis
    by (auto simp: ledger_ok_def insert_quota_def unique_append1 quota_row_ok_def)
qed

lemma get_or_create_quota_db:
  "get_or_create_quota env user org db = (db', r) \<Longrightarrow>
     db' = db \<or> (\<exists>nid. db' = insert_quota
       \<lparr>q_id = nid, q_org = org, q_user = user, q_scope = scope_of db user org,
        q_balance = 0, q_used = 0, q_created = e_now env, q_updated = e_now env\<rparr> db)"
  by (auto simp: get_or_create_quota_def Let_def dest!: quota_balance_scope_Inr
           split: sum.splits if_splits option.splits)

lemma get_or_create_quota_frame:
  "get_or_create_quota env user org db = (db', r) \<Longrightarrow>
     sessions db' = sessions db \<and> scope_of db' = scope_of db \<and> topups db' = topups db
   \<and> (\<forall>q \<in> set (quotas db). q \<in> set (quotas db'))"
  by (auto dest!: get_or_create_quota_db simp: insert_quota_def)

lemma get_or_create_quota_ok:
  assumes "ledger_ok db" "get_or_create_quota env user org db = (db', r)"
  shows "ledger_ok db'"
proof -
  from get_or_create_quota_db [OF assms(2)] show ?thesis
  proof
    assume "db' = db" with assms(1) show ?thesis by simp
  next
    assume "\<exists>nid. db' = insert_quota
       \<lparr>q_id = nid, q_org = org, q_user = user, q_scope = scope_of db user org,
        q_balance = 0, q_used = 0, q_created = e_now env, q_updated = e_now env\<rparr> db"
    then show ?thesis using scope_of_values [of db user org]
      by (elim exE) (simp add: insert_quota_ok [OF assms(1)])
  qed
qed

subsection \<open>Reserving an amount\<close>

definition reserved_db :: "quota_env \<Rightarrow> billing_session \<Rightarrow> string \<Rightarrow> quota_db \<Rightarrow> quota_db" where
  "reserved_db env s scope db =
     db\<lparr>sessions := sessions db @ [stored_session s],
        quotas := List.map (\<lambda>q. if reserve_match (bs_org s) scope (bs_user s) (bs_preauth s) q
                          then reserve_row (e_now env) (bs_preauth s) q else q) (quotas db)\<rparr>"

definition can_reserve :: "billing_session \<Rightarrow> string \<Rightarrow> quota_db \<Rightarrow> bool" where
  "can_reserve s scope db \<longleftrightarrow>
     \<not> list_ex (session_conflict s) (sessions db)
   \<and> list_ex (reserve_match (bs_org s) scope (bs_user s) (bs_preauth s)) (quotas db)"

text \<open>A result that charged nothing: an error, or a session that was already stored.\<close>

definition replayed :: "billing_session \<Rightarrow> quota_db \<Rightarrow> quota_error + billing_session \<Rightarrow> bool" where
  "replayed s db r \<longleftrightarrow>
     (case r of Inl _ \<Rightarrow> True
      | Inr x \<Rightarrow> bs_idem s \<noteq> []
          \<and> sql_select (\<lambda>t. bs_idem t = bs_idem s \<and> bs_org t = bs_org s) (sessions db) = Some x)"

lemma default_session_simps [simp]:
  "bs_idem (default_session env sid s) = bs_idem s"
  "bs_org (default_session env sid s) = bs_org s"
  "bs_user (default_session env sid s) = bs_user s"
  "bs_preauth (default_session env sid s) = bs_preauth s"
  by (simp_all add: default_session_def)

lemma preauthorize_tx_cases:
  assumes "preauthorize_tx env s scope quota db = (db', r)"
  shows "(db' = db \<and> replayed s db r)
       \<or> (r = Inr s \<and> db' = reserved_db env s scope db \<and> can_reserve s scope db)"
  using assms
  by (auto simp: preauthorize_tx_def Let_def get_session_by_idempotency_key_def reserved_db_def
        can_reserve_def replayed_def sql_simps list_ex_iff
      split: if_splits sum.splits option.splits)

lemma preauthorize_reserve_cases:
  assumes "preauthorize_reserve env s db = (db', r)"
  shows "\<exists>db1 r1. get_or_create_quota env (bs_user s) (bs_org s) db = (db1, r1)
     \<and> ((db' = db1 \<and> replayed s db r)
        \<or> (r = Inr s \<and> db' = reserved_db env s (scope_of db1 (bs_user s) (bs_org s)) db1
           \<and> can_reserve s (scope_of db1 (bs_user s) (bs_org s)) db1))"
proof -
  obtain db1 r1 where goc: "get_or_create_quota env (bs_user s) (bs_org s) db = (db1, r1)"
    by fastforce
  have frame: "replayed s db1 r = replayed s db r"
    using get_or_create_quota_frame [OF goc] by (auto simp: replayed_def split: sum.splits)
  have "(db' = db1 \<and> replayed s db1 r)
        \<or> (r = Inr s \<and> db' = reserved_db env s (scope_of db1 (bs_user s) (bs_org s)) db1
           \<and> can_reserve s (scope_of db1 (bs_user s) (bs_org s)) db1)"
    using assms goc
    by (auto simp: preauthorize_reserve_def replayed_def
             dest!: quota_balance_scope_Inr dest: preauthorize_tx_cases split: sum.splits)
  with goc frame show ?thesis by auto
qed

lemma preauthorize_cases:
  assumes "preauthorize_billing_session env (Some s0) db = (db', r)"
  shows "(db' = db \<and> replayed s0 db r)
       \<or> (\<exists>sid. bs_org s0 \<noteq> [] \<and> 0 < bs_preauth s0
            \<and> preauthorize_reserve env (default_session env sid s0) db = (db', r))"
  using assms
  by (auto simp: preauthorize_billing_session_def Let_def replayed_def
        get_session_by_idempotency_key_def
      split: if_splits option.splits sum.splits)

lemma draws_on_unique:
  assumes "ledger_ok db" "q \<in> set (quotas db)" "r \<in> set (quotas db)"
    and "draws_on db user org q" "draws_on db user org r"
  shows "q = r"
proof -
  have "unique_rows quota_conflict (quotas db)" using assms(1) by (simp add: ledger_ok_def)
  then show ?thesis using assms(2,3)
    by (rule unique_rows_eq) (rule draws_on_conflict [OF assms(4,5)], rule draws_on_conflict [OF assms(5,4)])
qed

lemma stored_session_simps [simp]:
  "bs_idem (stored_session s) = bs_idem s" "bs_org (stored_session s) = bs_org s"
  "bs_user (stored_session s) = bs_user s" "bs_id (stored_session s) = bs_id s"
  "bs_status (stored_session s) = bs_status s" "bs_settled (stored_session s) = 0"
  "bs_preauth (stored_session s) = dec6 (bs_preauth s)"
  "backed_by db q (stored_session s) = backed_by db q s"
  by (simp_all add: stored_session_def backed_by_def)

lemma session_conflict_sym: "session_conflict s (stored_session t) = session_conflict t s"
  by (auto simp: session_conflict_def)

lemma reserve_match_iff:
  "scope = scope_of db (bs_user s) (bs_org s) \<Longrightarrow>
     reserve_match (bs_org s) scope (bs_user s) a q \<longleftrightarrow> backed_by db q s \<and> a \<le> q_balance q"
  by (simp add: reserve_match_def backed_by_def draws_on_def)

lemma reserved_ok:
  assumes ok: "ledger_ok db" and can: "can_reserve s scope db"
    and scope: "scope = scope_of db (bs_user s) (bs_org s)"
    and a: "0 < bs_preauth s" "grid (bs_preauth s)" "bs_status s = ''preauthorized''"
  shows "ledger_ok (reserved_db env s scope db)"
proof -
  let ?P = "\<lambda>q. backed_by db q s \<and> bs_preauth s \<le> q_balance q"
  let ?f = "\<lambda>q. if ?P q then reserve_row (e_now env) (bs_preauth s) q else q"
  let ?db' = "db\<lparr>sessions := sessions db @ [stored_session s], quotas := List.map ?f (quotas db)\<rparr>"
  have db': "reserved_db env s scope db = ?db'"
    by (simp add: reserved_db_def reserve_match_iff [OF scope])
  obtain q0 where q0: "q0 \<in> set (quotas db)" "?P q0"
    using can by (auto simp: can_reserve_def list_ex_iff reserve_match_iff [OF scope])
  have keys: "quota_conflict (?f x) (?f y) = quota_conflict x y" for x y
    by (simp add: reserve_row_def)
  have backed: "backed_by db (?f q) = backed_by db q" for q
    by (simp add: reserve_row_def)
  have total: "used_total ?db' (?f q) = used_total db q + held_on db q (stored_session s)" for q
    by (simp add: used_total_def reserve_row_def)
  have new: "held (stored_session s) = bs_preauth s"
    using a by (simp add: held_def grid_dec6)
  have used: "q_used (?f q) = used_total ?db' (?f q)" if q: "q \<in> set (quotas db)" for q
  proof (cases "?P q")
    case True
    then have "q_used (?f q) = q_used q + bs_preauth s"
      using ok q a by (auto simp: reserve_row_def ledger_ok_def quota_row_ok_def grid_dec6 grid_add)
    with True ok q show ?thesis unfolding total by (simp add: held_on_def new ledger_ok_def)
  next
    case False
    have "\<not> backed_by db q s"
    proof
      assume b: "backed_by db q s"
      then have "q = q0"
        using draws_on_unique [OF ok q q0(1)] q0(2) by (simp add: backed_by_def)
      with False b q0(2) show False by simp
    qed
    with False ok q show ?thesis unfolding total by (auto simp: held_on_def ledger_ok_def)
  qed
  have rows: "quota_row_ok (?f q)" if "q \<in> set (quotas db)" for q
    using ok that a by (auto simp: ledger_ok_def quota_row_ok_def reserve_row_def grid_dec6 grid_diff grid_add)
  have sess: "session_ok (stored_session s)"
    using a by (simp add: session_ok_def grid_dec6)
  have covered: "\<exists>q \<in> set (quotas ?db'). backed_by ?db' q t" if "t \<in> set (sessions ?db')" for t
  proof -
    have "\<exists>q \<in> set (quotas db). backed_by db q t"
      using that ok q0 by (auto simp: ledger_ok_def)
    then obtain q where "q \<in> set (quotas db)" "backed_by db (?f q) t" using backed by auto
    then have "\<exists>q \<in> set (List.map ?f (quotas db)). backed_by db q t" by (rule bex_set_mapI)
    then show ?thesis by simp
  qed
  show ?thesis unfolding db'
  proof (rule ledger_okI)
    show "unique_rows quota_conflict (quotas ?db')"
      using ok unique_map [where C = quota_conflict and f = ?f, OF _ keys]
      by (simp add: ledger_ok_def)
    show "unique_rows session_conflict (sessions ?db')"
      using ok can by (auto simp: ledger_ok_def unique_append1 can_reserve_def list_ex_iff session_conflict_sym)
    have "\<forall>q \<in> set (List.map ?f (quotas db)). quota_row_ok q \<and> q_used q = used_total ?db' q"
      by (rule ball_set_mapI) (rule conjI, erule rows, erule used)
    then show "\<forall>q \<in> set (quotas ?db'). quota_row_ok q \<and> q_used q = used_total ?db' q" by simp
    show "\<forall>t \<in> set (sessions ?db'). session_ok t" using ok sess by (auto simp: ledger_ok_def)
    show "\<forall>t \<in> set (sessions ?db'). \<exists>q \<in> set (quotas ?db'). backed_by ?db' q t"
      using covered by blast
  qed
qed

subsection \<open>Closing a session: settlement and refund\<close>

definition refund_row :: "gotime \<Rightarrow> usd \<Rightarrow> quota_row \<Rightarrow> quota_row" where
  "refund_row now r q =
     q\<lparr>q_balance := dec6 (q_balance q + r), q_used := dec6 (max (q_used q - r) 0), q_updated := now\<rparr>"

lemma refund_reserved_quota_tx_Inr:
  assumes "refund_reserved_quota_tx env user org r db = Inr tx"
  shows "tx = db\<lparr>quotas := List.map (\<lambda>q. if 0 < r \<and> draws_on db user org q
                 then refund_row (e_now env) r q else q) (quotas db)\<rparr>"
  using assms
  by (auto simp: refund_reserved_quota_tx_def Let_def sql_simps draws_on_def refund_row_def
      dest!: quota_balance_scope_tx_Inr split: if_splits sum.splits)

text \<open>
  How a session may be closed: the update keeps its keys, and what it still holds is the
  reserved amount less the refund.
\<close>

definition closes :: "billing_session \<Rightarrow> (billing_session \<Rightarrow> billing_session) \<Rightarrow> usd \<Rightarrow> bool" where
  "closes s f r \<longleftrightarrow> 0 \<le> r \<and> grid r \<and> session_ok (f s) \<and> held (f s) = held s - r
     \<and> (\<forall>x. bs_id (f x) = bs_id x \<and> bs_org (f x) = bs_org x
          \<and> bs_user (f x) = bs_user x \<and> bs_idem (f x) = bs_idem x)"

definition close_sessions ::
  "string \<Rightarrow> string \<Rightarrow> (billing_session \<Rightarrow> billing_session) \<Rightarrow> quota_db \<Rightarrow> quota_db" where
  "close_sessions sid org f db =
     db\<lparr>sessions := List.map (\<lambda>s. if open_session sid org s then f s else s) (sessions db)\<rparr>"

lemma open_session_conflict:
  "open_session sid org s \<Longrightarrow> open_session sid org t \<Longrightarrow> session_conflict s t"
  by (simp add: open_session_def session_key_def session_conflict_def)

lemma close_used_total:
  assumes ok: "ledger_ok db" and s: "s \<in> set (sessions db)" "open_session sid org s"
    and f: "closes s f r"
  shows "used_total (close_sessions sid org f db) q
     = used_total db q - (if backed_by db q s then r else 0)"
proof -
  have u: "unique_rows session_conflict (sessions db)" using ok by (simp add: ledger_ok_def)
  have "used_total (close_sessions sid org f db) q
      = sum_list (List.map (held_on db q)
          (List.map (\<lambda>s. if open_session sid org s then f s else s) (sessions db)))"
    by (simp add: used_total_def close_sessions_def)
  also have "\<dots> = used_total db q - held_on db q s + held_on db q (f s)"
    unfolding used_total_def
    by (rule unique_sum_update [where C = session_conflict and P = "open_session sid org",
          OF u s open_session_conflict])
  also have "held_on db q (f s) = held_on db q s - (if backed_by db q s then r else 0)"
    using f by (simp add: held_on_def closes_def backed_by_def)
  finally show ?thesis by simp
qed

lemma close_frame:
  assumes "closes s f r"
  shows "session_conflict (if open_session sid org x then f x else x)
           (if open_session sid org y then f y else y) = session_conflict x y"
    and "backed_by db q (f x) = backed_by db q x"
  using assms by (simp_all add: closes_def session_conflict_def backed_by_def)

lemma close_sessions_ok:
  assumes ok: "ledger_ok db" and s: "s \<in> set (sessions db)" "open_session sid org s"
    and f: "closes s f r"
  shows "unique_rows session_conflict (sessions (close_sessions sid org f db))"
    and "\<forall>t \<in> set (sessions (close_sessions sid org f db)). session_ok t"
    and "\<forall>t \<in> set (sessions (close_sessions sid org f db)). \<exists>q \<in> set (quotas db). backed_by db q t"
proof -
  show "unique_rows session_conflict (sessions (close_sessions sid org f db))"
    using ok by (auto simp: ledger_ok_def close_sessions_def intro!: unique_map close_frame(1) [OF f])
  have u: "unique_rows session_conflict (sessions db)" using ok by (simp add: ledger_ok_def)
  have same: "t = s" if "t \<in> set (sessions db)" "open_session sid org t" for t
    by (rule unique_rows_eq [OF u that(1) s(1)]) (use that(2) s(2) open_session_conflict in auto)
  then show "\<forall>t \<in> set (sessions (close_sessions sid org f db)). session_ok t"
    using ok f by (auto simp: close_sessions_def ledger_ok_def closes_def)
  show "\<forall>t \<in> set (sessions (close_sessions sid org f db)). \<exists>q \<in> set (quotas db). backed_by db q t"
    using ok by (auto simp: close_sessions_def ledger_ok_def close_frame(2) [OF f])
qed

lemma refund_row_ok:
  assumes "quota_row_ok q" "0 \<le> r" "grid r" "r \<le> q_used q"
  shows "quota_row_ok (refund_row now r q)" "q_used (refund_row now r q) = q_used q - r"
    "q_balance (refund_row now r q) = q_balance q + r"
  using assms
  by (auto simp: quota_row_ok_def refund_row_def grid_dec6 grid_add grid_diff max_def)

lemma release_shape:
  assumes "refund_reserved_quota_tx env (bs_user s) (bs_org s) r (close_sessions sid org f db) = Inr tx"
  shows "tx = close_sessions sid org f db\<lparr>quotas := List.map (\<lambda>q. if 0 < r \<and> backed_by db q s
           then refund_row (e_now env) r q else q) (quotas db)\<rparr>"
proof -
  have draws: "draws_on (close_sessions sid org f db) (bs_user s) (bs_org s) q = backed_by db q s" for q
    by (simp add: close_sessions_def backed_by_def)
  show ?thesis
    using refund_reserved_quota_tx_Inr [OF assms] by (simp add: draws) (simp add: close_sessions_def)
qed

lemma release_enough:
  assumes ok: "ledger_ok db" and s: "s \<in> set (sessions db)" and f: "closes s f r"
    and q: "q \<in> set (quotas db)" "backed_by db q s"
  shows "r \<le> q_used q"
proof -
  have "held s \<le> q_used q"
    using held_le_used_total [OF ok s q(2)] ok q(1) by (simp add: ledger_ok_def)
  moreover have "0 \<le> held s - r" using f held_nonneg [of "f s"] by (simp add: closes_def)
  ultimately show ?thesis by simp
qed

lemma release_ok:
  assumes ok: "ledger_ok db" and s: "s \<in> set (sessions db)" "open_session sid org s"
    and f: "closes s f r"
    and tx: "refund_reserved_quota_tx env (bs_user s) (bs_org s) r (close_sessions sid org f db) = Inr tx"
  shows "ledger_ok tx"
proof -
  let ?db1 = "close_sessions sid org f db"
  let ?P = "\<lambda>q. 0 < r \<and> backed_by db q s"
  let ?f = "\<lambda>q. if ?P q then refund_row (e_now env) r q else q"
  have tx': "tx = ?db1\<lparr>quotas := List.map ?f (quotas db)\<rparr>" by (rule release_shape [OF tx])
  have keys: "quota_conflict (?f x) (?f y) = quota_conflict x y" for x y
    by (simp add: refund_row_def)
  have backed: "backed_by ?db1 (?f q) t = backed_by db q t" for q t
    by (simp add: refund_row_def close_sessions_def)
  note enough = release_enough [OF ok s(1) f]
  have row: "quota_row_ok (?f q) \<and> q_used (?f q) = used_total ?db1 (?f q)"
    if q: "q \<in> set (quotas db)" for q
  proof -
    have "used_total ?db1 (?f q) = used_total ?db1 q" by (simp add: refund_row_def)
    moreover have "used_total ?db1 q = q_used q - (if backed_by db q s then r else 0)"
      using close_used_total [OF ok s f] ok q by (simp add: ledger_ok_def)
    ultimately show ?thesis
      using ok q f enough [OF q] by (auto simp: ledger_ok_def closes_def refund_row_ok)
  qed
  let ?tx = "?db1\<lparr>quotas := List.map ?f (quotas db)\<rparr>"
  show ?thesis unfolding tx'
  proof (rule ledger_okI)
    show "unique_rows quota_conflict (quotas ?tx)"
      using ok unique_map [where C = quota_conflict and f = ?f, OF _ keys]
      by (simp add: ledger_ok_def)
    show "unique_rows session_conflict (sessions ?tx)" "\<forall>t \<in> set (sessions ?tx). session_ok t"
      using close_sessions_ok(1,2) [OF ok s f] by simp_all
    have "\<forall>q \<in> set (List.map ?f (quotas db)). quota_row_ok q \<and> q_used q = used_total ?db1 q"
      by (rule ball_set_mapI) (erule row)
    then show "\<forall>q \<in> set (quotas ?tx). quota_row_ok q \<and> q_used q = used_total ?tx q" by simp
    show "\<forall>t \<in> set (sessions ?tx). \<exists>q \<in> set (quotas ?tx). backed_by ?tx q t"
    proof
      fix t assume "t \<in> set (sessions ?tx)"
      then obtain q where "q \<in> set (quotas db)" "backed_by ?db1 (?f q) t"
        using close_sessions_ok(3) [OF ok s f] backed by auto
      then have "\<exists>q \<in> set (List.map ?f (quotas db)). backed_by ?db1 q t" by (rule bex_set_mapI)
      then show "\<exists>q \<in> set (quotas ?tx). backed_by ?tx q t" by simp
    qed
  qed
qed

subsection \<open>Settlement, refund and top-up preserve the invariant\<close>

lemma settle_cases:
  assumes "settle_billing_session env sid org amt db = (db', r)"
  shows "(r \<noteq> None \<and> db' = db) \<or>
    (r = None \<and> (\<exists>s. sql_select (session_key sid org) (sessions db) = Some s
      \<and> bs_status s = ''preauthorized'' \<and> 0 \<le> amt \<and> amt \<le> bs_preauth s
      \<and> refund_reserved_quota_tx env (bs_user s) (bs_org s) (bs_preauth s - amt)
           (close_sessions sid org (settle_update (e_now env) amt) db) = Inr db'))"
  using assms
  by (auto simp: settle_billing_session_def Let_def close_sessions_def
        sql_update_rows split: if_splits option.splits sum.splits)

lemma refund_cases:
  assumes "refund_billing_session env sid org db = (db', r)"
  shows "(r \<noteq> None \<and> db' = db) \<or>
    (r = None \<and> (\<exists>s. sql_select (session_key sid org) (sessions db) = Some s
      \<and> (bs_status s = ''refunded'' \<and> db' = db
         \<or> bs_status s = ''preauthorized''
           \<and> refund_reserved_quota_tx env (bs_user s) (bs_org s) (bs_preauth s)
               (close_sessions sid org (refund_update (e_now env)) db) = Inr db')))"
  using assms
  by (auto simp: refund_billing_session_def Let_def close_sessions_def
        sql_update_rows split: if_splits option.splits sum.splits)

lemma settle_closes:
  assumes "session_ok s" "bs_status s = ''preauthorized''" "0 \<le> amt" "amt \<le> bs_preauth s" "grid amt"
  shows "closes s (settle_update now amt) (bs_preauth s - amt)"
  using assms by (auto simp: closes_def settle_update_def session_ok_def held_def grid_dec6 grid_diff)

lemma refund_closes:
  assumes "session_ok s" "bs_status s = ''preauthorized''"
  shows "closes s (refund_update now) (bs_preauth s)"
  using assms by (auto simp: closes_def refund_update_def session_ok_def held_def)

lemma found_open:
  assumes "sql_select (session_key sid org) (sessions db) = Some s" "bs_status s = ''preauthorized''"
  shows "s \<in> set (sessions db)" "open_session sid org s"
  using sql_select_Some [OF assms(1)] assms(2) by (simp_all add: open_session_def)

lemma settle_ok:
  assumes ok: "ledger_ok db" and "grid amt"
    and settle: "settle_billing_session env sid org amt db = (db', r)"
  shows "ledger_ok db'"
  using settle_cases [OF settle]
proof (elim disjE conjE exE)
  fix s
  assume s: "sql_select (session_key sid org) (sessions db) = Some s" "bs_status s = ''preauthorized''"
    and amt: "0 \<le> amt" "amt \<le> bs_preauth s"
    and tx: "refund_reserved_quota_tx env (bs_user s) (bs_org s) (bs_preauth s - amt)
               (close_sessions sid org (settle_update (e_now env) amt) db) = Inr db'"
  have "session_ok s" using ok found_open(1) [OF s] by (simp add: ledger_ok_def)
  then show ?thesis
    using release_ok [OF ok found_open [OF s] settle_closes tx] s(2) amt \<open>grid amt\<close> by blast
qed (use ok in simp)

lemma refund_ok:
  assumes ok: "ledger_ok db" and refund: "refund_billing_session env sid org db = (db', r)"
  shows "ledger_ok db'"
  using refund_cases [OF refund]
proof (elim disjE conjE exE)
  fix s
  assume s: "sql_select (session_key sid org) (sessions db) = Some s" "bs_status s = ''preauthorized''"
    and tx: "refund_reserved_quota_tx env (bs_user s) (bs_org s) (bs_preauth s)
               (close_sessions sid org (refund_update (e_now env)) db) = Inr db'"
  have "session_ok s" using ok found_open(1) [OF s] by (simp add: ledger_ok_def)
  then show ?thesis
    using release_ok [OF ok found_open [OF s] refund_closes tx] s(2) by blast
qed (use ok in simp_all)

text \<open>Rewriting rows without touching keys or \<open>used\<close>.\<close>

lemma rows_map_ok:
  assumes ok: "ledger_ok db"
    and keys: "\<And>q. q_id (f q) = q_id q \<and> q_org (f q) = q_org q \<and> q_user (f q) = q_user q
                 \<and> q_scope (f q) = q_scope q"
    and rows: "\<And>q. q \<in> set (quotas db) \<Longrightarrow> quota_row_ok (f q) \<and> q_used (f q) = q_used q"
  shows "ledger_ok (db\<lparr>quotas := List.map f (quotas db)\<rparr>)"
proof (rule ledger_okI)
  let ?db' = "db\<lparr>quotas := List.map f (quotas db)\<rparr>"
  have conflict: "quota_conflict (f x) (f y) = quota_conflict x y" for x y
    using keys [of x] keys [of y] by (simp add: quota_conflict_def)
  have backed: "backed_by db (f q) = backed_by db q" for q
    using keys [of q] by (simp add: fun_eq_iff backed_by_def draws_on_def quota_match_def)
  then have total: "used_total db (f q) = used_total db q" for q
    by (simp add: used_total_def held_on_def [abs_def])
  show "unique_rows quota_conflict (quotas ?db')"
    using ok unique_map [where C = quota_conflict and f = f, OF _ conflict]
    by (simp add: ledger_ok_def)
  show "\<forall>q \<in> set (quotas ?db'). quota_row_ok q \<and> q_used q = used_total ?db' q"
    using ok rows total by (auto simp: ledger_ok_def)
  show "\<forall>s \<in> set (sessions ?db'). \<exists>q \<in> set (quotas ?db'). backed_by ?db' q s"
    using ok backed by (auto simp: ledger_ok_def)
qed (use ok in \<open>simp_all add: ledger_ok_def\<close>)

lemma update_quota_balance_cases:
  assumes "update_quota_balance env user org d db = (db', r)"
  shows "(r \<noteq> None \<and> db' = db) \<or>
    (r = None \<and> db' = db\<lparr>quotas := List.map (\<lambda>q. if draws_on db user org q then
        q\<lparr>q_balance := dec6 (q_balance q + d),
          q_used := (if 0 < d then q_used q else dec6 (q_used q - d)), q_updated := e_now env\<rparr>
        else q) (quotas db)\<rparr>)"
  using assms
  by (auto simp: update_quota_balance_def sql_update_rows draws_on_def
      dest!: quota_balance_scope_Inr split: sum.splits if_splits intro!: quota_db.fold_congs)

lemma credit_ok:
  assumes ok: "ledger_ok db" and d: "0 \<le> d" "grid d"
    and upd: "update_quota_balance env user org d db = (db', r)"
  shows "ledger_ok db'"
  using update_quota_balance_cases [OF upd]
proof (elim disjE conjE)
  assume "db' = db\<lparr>quotas := List.map (\<lambda>q. if draws_on db user org q then
        q\<lparr>q_balance := dec6 (q_balance q + d),
          q_used := (if 0 < d then q_used q else dec6 (q_used q - d)), q_updated := e_now env\<rparr>
        else q) (quotas db)\<rparr>"
  then show ?thesis
    using d by (simp only:) (rule rows_map_ok [OF ok],
      use ok in \<open>auto simp: ledger_ok_def quota_row_ok_def grid_dec6 grid_add\<close>)
qed (use ok in simp)

lemma preauthorize_ok:
  assumes ok: "ledger_ok db" and s: "grid (bs_preauth s)" "bs_status s = ''preauthorized''"
    and pre: "preauthorize_billing_session env (Some s) db = (db', r)"
  shows "ledger_ok db'"
  using preauthorize_cases [OF pre]
proof (elim disjE conjE exE)
  fix sid
  let ?s = "default_session env sid s"
  assume pos: "0 < bs_preauth s" and res: "preauthorize_reserve env ?s db = (db', r)"
  obtain db1 r1 where goc: "get_or_create_quota env (bs_user ?s) (bs_org ?s) db = (db1, r1)"
    and cases: "db' = db1 \<or> (db' = reserved_db env ?s (scope_of db1 (bs_user ?s) (bs_org ?s)) db1
           \<and> can_reserve ?s (scope_of db1 (bs_user ?s) (bs_org ?s)) db1)"
    using preauthorize_reserve_cases [OF res] by blast
  have ok1: "ledger_ok db1" using get_or_create_quota_ok [OF ok goc] .
  have "bs_status ?s = ''preauthorized''" using s by (simp add: default_session_def)
  then show ?thesis
    using cases ok1 reserved_ok [of db1 ?s "scope_of db1 (bs_user ?s) (bs_org ?s)"] pos s by auto
qed (use ok in simp)

end
