(* ===== verification/Ledger_Properties.thy ===== *)
theory Ledger_Properties
  imports Ledger_Invariant
begin

text \<open>
  What the quota service promises, over arbitrary sequences of its operations and with any
  driver call failing: the accounting invariant, conservation of money, exact reservation and
  settlement, idempotent replay and refund, atomic failure; and the behaviours that break the
  promise (a scope that changes while a session is open, an amount off the six-decimal grid,
  the fallback path of \<open>PreConsume\<close>).
\<close>

subsection \<open>Operations and runs\<close>

datatype ledger_op =
    OpPreConsume string string usd string string string string
  | OpSettle string string usd
  | OpRefund string string
  | OpTopup string string usd

fun ledger_exec :: "quota_env \<Rightarrow> ledger_op \<Rightarrow> quota_db \<Rightarrow> quota_db \<times> quota_error option" where
  "ledger_exec env (OpPreConsume user org amt idem channel model api_type) db =
     (case pre_consume True env user org amt idem channel model api_type db of
        (db', Inl e) \<Rightarrow> (db', Some e) | (db', Inr _) \<Rightarrow> (db', None))"
| "ledger_exec env (OpSettle org sid amt) db = quota_settle env org sid amt db"
| "ledger_exec env (OpRefund org sid) db = quota_refund env org sid db"
| "ledger_exec env (OpTopup user org amt) db = quota_topup env user org amt db"

fun ledger_run :: "(quota_env \<times> ledger_op) list \<Rightarrow> quota_db \<Rightarrow> quota_db" where
  "ledger_run [] db = db"
| "ledger_run ((env, op) # rest) db = ledger_run rest (fst (ledger_exec env op db))"

text \<open>Amounts on the six-decimal grid, and no negative top-up.\<close>

fun op_on_grid :: "ledger_op \<Rightarrow> bool" where
  "op_on_grid (OpPreConsume user org amt idem channel model api_type) = grid amt"
| "op_on_grid (OpSettle org sid amt) = grid amt"
| "op_on_grid (OpRefund org sid) = True"
| "op_on_grid (OpTopup user org amt) = (0 \<le> amt \<and> grid amt)"

fun is_topup :: "ledger_op \<Rightarrow> bool" where
  "is_topup (OpTopup user org amt) = True"
| "is_topup _ = False"

lemma new_session_simps [simp]:
  "bs_id (new_session env sid user org amt idem channel model api) = sid"
  "bs_org (new_session env sid user org amt idem channel model api) = org"
  "bs_user (new_session env sid user org amt idem channel model api) = user"
  "bs_idem (new_session env sid user org amt idem channel model api) = idem"
  "bs_preauth (new_session env sid user org amt idem channel model api) = amt"
  "bs_status (new_session env sid user org amt idem channel model api) = ''preauthorized''"
  by (simp_all add: new_session_def)

lemma pre_consume_cases:
  assumes "pre_consume True env user org amt idem channel model api db = (db', r)"
  shows "(db' = db \<and> (\<exists>e. r = Inl e)) \<or> (\<exists>sid. org \<noteq> [] \<and> 0 < amt \<and> e_new_id env ''bill'' = Some sid
     \<and> preauthorize_billing_session env
         (Some (new_session env sid user org amt idem channel model api)) db = (db', r))"
  using assms by (auto simp: pre_consume_def split: if_splits option.splits)

lemma pre_consume_ok:
  assumes "ledger_ok db" "grid amt"
    and "pre_consume True env user org amt idem channel model api db = (db', r)"
  shows "ledger_ok db'"
  using pre_consume_cases [OF assms(3)] assms(1,2)
  by (elim disjE) (auto elim!: preauthorize_ok [rotated 3])

lemma quota_topup_ok:
  assumes ok: "ledger_ok db" and amt: "0 \<le> amt" "grid amt"
  shows "ledger_ok (fst (quota_topup env user org amt db))"
proof (cases "org = []")
  case False
  obtain db1 r where goc: "get_or_create_quota env user org db = (db1, r)" by fastforce
  have ok1: "ledger_ok db1" using get_or_create_quota_ok [OF ok goc] .
  have "ledger_ok (fst (update_quota_balance env user org amt db1))"
    using credit_ok [OF ok1 amt] by (metis prod.collapse)
  with False goc ok1 show ?thesis by (auto simp: quota_topup_def split: sum.splits)
qed (simp add: quota_topup_def ok)

lemma ledger_exec_ok:
  assumes "ledger_ok db" "op_on_grid op"
  shows "ledger_ok (fst (ledger_exec env op db))"
proof (cases op)
  case (OpPreConsume user org amt idem channel model api)
  obtain db' r where "pre_consume True env user org amt idem channel model api db = (db', r)"
    by fastforce
  with OpPreConsume assms show ?thesis by (auto dest: pre_consume_ok split: sum.splits)
next
  case (OpSettle org sid amt)
  with assms show ?thesis
    by (simp add: quota_settle_def) (metis settle_ok prod.collapse)
next
  case (OpRefund org sid)
  with assms show ?thesis
    by (simp add: quota_refund_def) (metis refund_ok prod.collapse)
next
  case (OpTopup user org amt)
  with assms show ?thesis by (simp add: quota_topup_ok)
qed

text \<open>
  C1. From a consistent ledger, whatever sequence of \<open>PreConsume\<close>, \<open>Settle\<close>, \<open>Refund\<close> and \<open>Topup\<close> runs,
  with any driver faults, with all amounts on the six-decimal grid and no top-up negative (the code
  checks neither): no balance goes negative, every session is backed by a quota row, and each row's
  \<open>used\<close> is what its sessions hold.
\<close>

theorem ledger_run_keeps_accounts:
  assumes "ledger_ok db" "\<forall>step \<in> set trace. op_on_grid (snd step)"
  shows "ledger_ok (ledger_run trace db)"
  using assms
proof (induction trace arbitrary: db)
  case (Cons step trace)
  obtain env op where step: "step = (env, op)" by fastforce
  with Cons.prems have "ledger_ok (fst (ledger_exec env op db))" by (auto intro: ledger_exec_ok)
  with Cons step show ?case by auto
qed simp

subsection \<open>A sample ledger for the witnesses\<close>

definition sample_env :: quota_env where
  "sample_env = \<lparr>e_now = 100, e_new_id = (\<lambda>p. Some (p @ ''-1'')), e_fault = (\<lambda>_. False)\<rparr>"

definition sample_row :: quota_row where
  "sample_row = \<lparr>q_id = ''q1'', q_org = ''org'', q_user = ''u1'', q_scope = ''organization'',
     q_balance = 10, q_used = 0, q_created = 1, q_updated = 1\<rparr>"

definition sample_db :: quota_db where
  "sample_db = \<lparr>quotas = [sample_row], sessions = [], packages = [], subscriptions = [],
     topups = [], conc_limits = [], token_limits = []\<rparr>"

lemma grid_of_int [simp, grid_intros]: "grid (of_int k)"
  unfolding grid_iff by (rule exI [of _ "k * 1000000"]) simp

lemma grid_numeral [simp, grid_intros]: "grid (numeral k)" "grid 1"
  using grid_of_int [of "numeral k"] grid_of_int [of 1] by simp_all

lemma sample_ok: "ledger_ok sample_db"
  by (simp add: ledger_ok_def sample_db_def sample_row_def quota_row_ok_def used_total_def
      unique_rows_def)

theorem ledger_run_keeps_accounts_witness:
  "ledger_ok (ledger_run [(sample_env, OpTopup ''u1'' ''org'' 5),
     (sample_env, OpPreConsume ''u1'' ''org'' 3 ''k1'' [] [] []),
     (sample_env, OpSettle ''org'' ''bill-1'' 2)] sample_db)"
  by (rule ledger_run_keeps_accounts [OF sample_ok]) simp

subsection \<open>Money is only moved between \<open>balance\<close> and \<open>used\<close>\<close>

definition same_funds :: "quota_row \<Rightarrow> quota_row \<Rightarrow> bool" where
  "same_funds q q' \<longleftrightarrow> q_id q' = q_id q \<and> q_balance q' + q_used q' = q_balance q + q_used q"

definition keeps_funds :: "quota_db \<Rightarrow> quota_db \<Rightarrow> bool" where
  "keeps_funds db db' \<longleftrightarrow> (\<forall>q \<in> set (quotas db). \<exists>q' \<in> set (quotas db'). same_funds q q')"

lemma keeps_funds_refl [simp]: "keeps_funds db db"
  by (auto simp: keeps_funds_def same_funds_def)

lemma keeps_funds_map:
  assumes "\<And>q. q \<in> set (quotas db) \<Longrightarrow> same_funds q (f q)" "quotas db' = List.map f (quotas db)"
  shows "keeps_funds db db'"
  using assms by (auto simp: keeps_funds_def)

lemma goc_keeps_funds:
  assumes "get_or_create_quota env user org db = (db1, r)" "keeps_funds db1 db'"
  shows "keeps_funds db db'"
  using assms get_or_create_quota_frame [OF assms(1)] by (auto simp: keeps_funds_def)

lemma reserved_keeps_funds:
  assumes "ledger_ok db" "grid (bs_preauth s)"
  shows "keeps_funds db (reserved_db env s scope db)"
  by (rule keeps_funds_map [where f = "\<lambda>q. if reserve_match (bs_org s) scope (bs_user s) (bs_preauth s) q
        then reserve_row (e_now env) (bs_preauth s) q else q"])
    (use assms in \<open>auto simp: same_funds_def reserve_row_def reserved_db_def ledger_ok_def
        quota_row_ok_def grid_dec6 grid_add grid_diff\<close>)

lemma release_keeps_funds:
  assumes ok: "ledger_ok db" and s: "s \<in> set (sessions db)" and f: "closes s f r"
    and tx: "refund_reserved_quota_tx env (bs_user s) (bs_org s) r (close_sessions sid org f db) = Inr tx"
  shows "keeps_funds db tx"
proof (rule keeps_funds_map)
  show "quotas tx = List.map (\<lambda>q. if 0 < r \<and> backed_by db q s
           then refund_row (e_now env) r q else q) (quotas db)"
    by (simp add: release_shape [OF tx])
  fix q assume q: "q \<in> set (quotas db)"
  then have "quota_row_ok q" using ok by (simp add: ledger_ok_def)
  then show "same_funds q (if 0 < r \<and> backed_by db q s then refund_row (e_now env) r q else q)"
    using release_enough [OF ok s f q] f refund_row_ok(2,3)
    by (auto simp: same_funds_def closes_def) (simp add: refund_row_def)
qed

lemma pre_consume_keeps_funds:
  assumes ok: "ledger_ok db" and "grid amt"
    and pre: "pre_consume True env user org amt idem channel model api db = (db', r)"
  shows "keeps_funds db db'"
proof -
  consider "db' = db"
    | s where "grid (bs_preauth s)" "preauthorize_billing_session env (Some s) db = (db', r)"
    using pre_consume_cases [OF pre] \<open>grid amt\<close> new_session_simps(5) by metis
  then show ?thesis
  proof cases
    case 2
    from preauthorize_cases [OF 2(2)] show ?thesis
    proof (elim disjE conjE exE)
      fix sid
      assume "preauthorize_reserve env (default_session env sid s) db = (db', r)"
      from preauthorize_reserve_cases [OF this] show ?thesis
        using 2(1) get_or_create_quota_ok [OF ok] goc_keeps_funds reserved_keeps_funds
        by (metis default_session_simps(4) keeps_funds_refl)
    qed simp
  qed simp
qed

lemma settle_keeps_funds:
  assumes ok: "ledger_ok db" and "grid amt"
    and settle: "settle_billing_session env sid org amt db = (db', r)"
  shows "keeps_funds db db'"
  using settle_cases [OF settle]
proof (elim disjE conjE exE)
  fix s
  assume s: "sql_select (session_key sid org) (sessions db) = Some s" "bs_status s = ''preauthorized''"
    and amt: "0 \<le> amt" "amt \<le> bs_preauth s"
    and tx: "refund_reserved_quota_tx env (bs_user s) (bs_org s) (bs_preauth s - amt)
               (close_sessions sid org (settle_update (e_now env) amt) db) = Inr db'"
  have "session_ok s" using ok found_open(1) [OF s] by (simp add: ledger_ok_def)
  then show ?thesis
    using release_keeps_funds [OF ok found_open(1) [OF s] settle_closes tx] s(2) amt \<open>grid amt\<close> by blast
qed simp

lemma refund_keeps_funds:
  assumes ok: "ledger_ok db" and refund: "refund_billing_session env sid org db = (db', r)"
  shows "keeps_funds db db'"
  using refund_cases [OF refund]
proof (elim disjE conjE exE)
  fix s
  assume s: "sql_select (session_key sid org) (sessions db) = Some s" "bs_status s = ''preauthorized''"
    and tx: "refund_reserved_quota_tx env (bs_user s) (bs_org s) (bs_preauth s)
               (close_sessions sid org (refund_update (e_now env)) db) = Inr db'"
  have "session_ok s" using ok found_open(1) [OF s] by (simp add: ledger_ok_def)
  then show ?thesis
    using release_keeps_funds [OF ok found_open(1) [OF s] refund_closes tx] s(2) by blast
qed simp_all

text \<open>
  C5. In a consistent ledger, a reservation or a settlement of an amount on the six-decimal grid, or a
  refund, successful or not and whatever driver call fails, leaves \<open>balance + used\<close> of every quota row
  as it was: only a top-up brings money in. (Off the grid the rounding of the columns does, too.)
\<close>

theorem ledger_ops_conserve_money:
  assumes "ledger_ok db" "op_on_grid op" "\<not> is_topup op" "q \<in> set (quotas db)"
  shows "\<exists>q' \<in> set (quotas (fst (ledger_exec env op db))).
           q_id q' = q_id q \<and> q_balance q' + q_used q' = q_balance q + q_used q"
proof -
  have "keeps_funds db (fst (ledger_exec env op db))"
  proof (cases op)
    case (OpPreConsume user org amt idem channel model api)
    obtain db' r where "pre_consume True env user org amt idem channel model api db = (db', r)"
      by fastforce
    with OpPreConsume assms show ?thesis by (auto dest: pre_consume_keeps_funds split: sum.splits)
  next
    case (OpSettle org sid amt)
    with assms show ?thesis by (simp add: quota_settle_def) (metis settle_keeps_funds prod.collapse)
  next
    case (OpRefund org sid)
    with assms show ?thesis by (simp add: quota_refund_def) (metis refund_keeps_funds prod.collapse)
  qed (use assms in simp)
  with assms(4) show ?thesis by (auto simp: keeps_funds_def same_funds_def)
qed

theorem ledger_ops_conserve_money_witness:
  "\<exists>q' \<in> set (quotas (fst (ledger_exec sample_env (OpPreConsume ''u1'' ''org'' 3 ''k1'' [] [] []) sample_db))).
     q_id q' = ''q1'' \<and> q_balance q' + q_used q' = 10"
  using ledger_ops_conserve_money [OF sample_ok, where q = sample_row and env = sample_env
      and op = "OpPreConsume ''u1'' ''org'' 3 ''k1'' [] [] []"]
  by (simp add: sample_db_def sample_row_def)

subsection \<open>Failure leaves no trace\<close>

definition only_empty_rows_added :: "quota_db \<Rightarrow> quota_db \<Rightarrow> bool" where
  "only_empty_rows_added db db' \<longleftrightarrow>
     sessions db' = sessions db \<and> topups db' = topups db \<and> set (quotas db) \<subseteq> set (quotas db')
   \<and> (\<forall>q \<in> set (quotas db'). q \<in> set (quotas db) \<or> q_balance q = 0 \<and> q_used q = 0)"

lemma only_empty_rows_added_refl [simp]: "only_empty_rows_added db db"
  by (simp add: only_empty_rows_added_def)

lemma goc_only_empty_rows:
  assumes "get_or_create_quota env user org db = (db', r)"
  shows "only_empty_rows_added db db'"
  using get_or_create_quota_db [OF assms]
  by (auto simp: only_empty_rows_added_def insert_quota_def split: if_splits)

lemma quota_topup_atomic:
  assumes "quota_topup env user org amt db = (db', Some e)"
  shows "only_empty_rows_added db db'"
proof (cases "org = []")
  case False
  obtain db1 r where goc: "get_or_create_quota env user org db = (db1, r)" by fastforce
  have "db' = db1"
    using assms goc False update_quota_balance_cases [of env user org amt db1]
    by (auto simp: quota_topup_def split: sum.splits)
  with goc_only_empty_rows [OF goc] show ?thesis by simp
qed (use assms in \<open>simp add: quota_topup_def\<close>)

lemma preauthorize_atomic:
  assumes "preauthorize_billing_session env (Some s) db = (db', Inl e)"
  shows "only_empty_rows_added db db'"
  using preauthorize_cases [OF assms]
proof (elim disjE exE conjE)
  fix sid assume "preauthorize_reserve env (default_session env sid s) db = (db', Inl e)"
  from preauthorize_reserve_cases [OF this] obtain r1 where
    "get_or_create_quota env (bs_user s) (bs_org s) db = (db', r1)" by auto
  then show ?thesis by (rule goc_only_empty_rows)
qed simp

lemma pre_consume_atomic:
  assumes "pre_consume True env user org amt idem channel model api db = (db', Inl e)"
  shows "only_empty_rows_added db db'"
  using pre_consume_cases [OF assms] preauthorize_atomic by auto

lemma failed_op_is_atomic_core:
  assumes "ledger_exec env op db = (db', Some e)"
  shows "only_empty_rows_added db db'"
proof (cases op)
  case (OpPreConsume user org amt idem channel model api)
  with assms show ?thesis by (auto dest: pre_consume_atomic split: sum.splits prod.splits)
next
  case (OpSettle org sid amt)
  with assms settle_cases [of env sid org amt db db'] show ?thesis
    by (auto simp: quota_settle_def split: if_splits)
next
  case (OpRefund org sid)
  with assms refund_cases [of env sid org db db'] show ?thesis
    by (auto simp: quota_refund_def split: if_splits)
next
  case (OpTopup user org amt)
  with assms quota_topup_atomic show ?thesis by simp
qed

text \<open>
  C6. An operation that reports an error, whichever driver call failed, has not touched a
  session, a top-up order or an existing quota row; a row it added to \<open>quotas\<close> is empty.
\<close>

theorem failed_op_is_atomic:
  assumes "ledger_exec env op db = (db', Some e)"
  shows "only_empty_rows_added db db'"
  using failed_op_is_atomic_core [OF assms] .

theorem failed_op_is_atomic_witness:
  "only_empty_rows_added sample_db
     (fst (ledger_exec sample_env (OpPreConsume ''u1'' ''org'' 30 [] [] [] []) sample_db))"
  (is "only_empty_rows_added _ (fst ?run)")
proof (rule failed_op_is_atomic)
  show "ledger_exec sample_env (OpPreConsume ''u1'' ''org'' 30 [] [] [] []) sample_db
      = (fst ?run, Some (InsufficientBalance 10 30))"
    by (rule prod_eqI) (simp, code_simp)
qed

subsection \<open>A closed session is final\<close>

lemma closed_kept_by_close:
  assumes "s \<in> set (sessions db)" "bs_status s \<noteq> ''preauthorized''"
  shows "s \<in> set (sessions (close_sessions sid org f db))"
  using assms by (force simp: close_sessions_def open_session_def)

lemma release_sessions:
  "refund_reserved_quota_tx env user org r db = Inr tx \<Longrightarrow> sessions tx = sessions db"
  by (auto dest!: refund_reserved_quota_tx_Inr)

lemma closed_kept_by_exec:
  assumes s: "s \<in> set (sessions db)" "bs_status s \<noteq> ''preauthorized''"
  shows "s \<in> set (sessions (fst (ledger_exec env op db)))"
proof (cases "snd (ledger_exec env op db)")
  case (Some e)
  then have "only_empty_rows_added db (fst (ledger_exec env op db))"
    by (metis failed_op_is_atomic_core prod.collapse)
  then show ?thesis using s by (simp add: only_empty_rows_added_def)
next
  case None
  show ?thesis
  proof (cases op)
    case (OpPreConsume user org amt idem channel model api)
    obtain db' r where pre: "pre_consume True env user org amt idem channel model api db = (db', r)"
      by fastforce
    have "set (sessions db) \<subseteq> set (sessions db')"
      using pre_consume_cases [OF pre]
    proof (elim disjE exE conjE)
      fix sid assume "preauthorize_billing_session env
        (Some (new_session env sid user org amt idem channel model api)) db = (db', r)"
      from preauthorize_cases [OF this] show ?thesis
        using preauthorize_reserve_cases get_or_create_quota_frame
        by (fastforce simp: reserved_db_def)
    qed simp
    with pre s OpPreConsume show ?thesis by (auto split: sum.splits)
  next
    case (OpSettle org sid amt)
    obtain db' r where st: "settle_billing_session env sid org amt db = (db', r)" by fastforce
    with settle_cases [OF st] closed_kept_by_close [OF s] s OpSettle show ?thesis
      by (auto simp: quota_settle_def dest!: release_sessions)
  next
    case (OpRefund org sid)
    obtain db' r where rf: "refund_billing_session env sid org db = (db', r)" by fastforce
    with refund_cases [OF rf] closed_kept_by_close [OF s] s OpRefund show ?thesis
      by (auto simp: quota_refund_def dest!: release_sessions)
  next
    case (OpTopup user org amt)
    obtain db1 r where goc: "get_or_create_quota env user org db = (db1, r)" by fastforce
    obtain db2 r2 where upd: "update_quota_balance env user org amt db1 = (db2, r2)" by fastforce
    have "sessions db2 = sessions db1" using update_quota_balance_cases [OF upd] by auto
    with goc upd get_or_create_quota_frame [OF goc] s OpTopup show ?thesis
      by (auto simp: quota_topup_def split: sum.splits)
  qed
qed

text \<open>
  Once a session is settled or refunded, no sequence of operations changes its row again:
  neither its status, nor the settled amount, nor the closing time.
\<close>

theorem closed_session_is_final:
  assumes "s \<in> set (sessions db)" "bs_status s \<noteq> ''preauthorized''"
  shows "s \<in> set (sessions (ledger_run trace db))"
  using assms
proof (induction trace arbitrary: db)
  case (Cons step trace)
  then show ?case by (cases step) (simp add: closed_kept_by_exec)
qed simp

theorem closed_session_is_final_witness:
  "let db = ledger_run [(sample_env, OpPreConsume ''u1'' ''org'' 3 ''k1'' [] [] []),
                        (sample_env, OpSettle ''org'' ''bill-1'' 2)] sample_db
   in sessions db \<noteq> [] \<and> hd (sessions db) \<in> set (sessions (ledger_run [(sample_env, OpRefund ''org'' ''bill-1'')] db))"
proof -
  let ?db = "ledger_run [(sample_env, OpPreConsume ''u1'' ''org'' 3 ''k1'' [] [] []),
                        (sample_env, OpSettle ''org'' ''bill-1'' 2)] sample_db"
  have "sessions ?db \<noteq> []" "bs_status (hd (sessions ?db)) \<noteq> ''preauthorized''" by code_simp+
  then show ?thesis
    using closed_session_is_final [of "hd (sessions ?db)" ?db "[(sample_env, OpRefund ''org'' ''bill-1'')]"]
    by (simp add: Let_def)
qed

subsection \<open>Exact amounts when nothing fails\<close>

definition no_faults :: "quota_env \<Rightarrow> bool" where
  "no_faults env \<longleftrightarrow> (\<forall>call. \<not> e_fault env call)"

lemma sample_env_no_faults [simp]: "no_faults sample_env"
  by (simp add: no_faults_def sample_env_def)

lemma scope_no_faults [simp]:
  assumes "no_faults env"
  shows "quota_balance_scope env call db user org = Inr (scope_of db user org)"
    and "quota_balance_scope_tx env db user org = Inr (scope_of db user org)"
  using assms by (simp_all add: no_faults_def quota_balance_scope_def quota_balance_scope_tx_def scope_of_def)

lemma goc_present:
  assumes "no_faults env" "q \<in> set (quotas db)" "draws_on db user org q"
  shows "\<exists>r. get_or_create_quota env user org db = (db, Inr r) \<and> r \<in> set (quotas db)
          \<and> draws_on db user org r"
proof -
  have "sql_select (quota_match org (scope_of db user org) user) (quotas db) \<noteq> None"
    using assms by (auto simp: sql_select_None draws_on_def)
  then obtain r where r: "sql_select (quota_match org (scope_of db user org) user) (quotas db) = Some r"
    by auto
  with sql_select_Some [OF r] assms(1) show ?thesis
    by (auto simp: get_or_create_quota_def no_faults_def draws_on_def)
qed

text \<open>A row that was just created is empty, so a reservation only succeeds on an older row.\<close>

lemma reserved_on_old_row:
  assumes goc: "get_or_create_quota env (bs_user s) (bs_org s) db = (db1, r1)"
    and can: "can_reserve s (scope_of db1 (bs_user s) (bs_org s)) db1" and pos: "0 < bs_preauth s"
  shows "\<exists>q \<in> set (quotas db). draws_on db (bs_user s) (bs_org s) q \<and> bs_preauth s \<le> q_balance q"
proof -
  from can obtain q where q: "q \<in> set (quotas db1)" "bs_preauth s \<le> q_balance q"
    "quota_match (bs_org s) (scope_of db1 (bs_user s) (bs_org s)) (bs_user s) q"
    by (auto simp: can_reserve_def list_ex_iff reserve_match_def)
  moreover have "q \<in> set (quotas db)"
    using q(1,2) pos goc_only_empty_rows [OF goc] by (auto simp: only_empty_rows_added_def)
  ultimately show ?thesis
    using get_or_create_quota_frame [OF goc] by (auto simp: draws_on_def)
qed

lemma goc_present_same:
  assumes "q \<in> set (quotas db)" "draws_on db user org q"
    and "get_or_create_quota env user org db = (db', r)"
  shows "db' = db"
proof -
  have "sql_select (quota_match org (scope_of db user org) user) (quotas db) \<noteq> None"
    using assms by (auto simp: sql_select_None draws_on_def)
  with assms(3) show ?thesis
    by (auto simp: get_or_create_quota_def dest!: quota_balance_scope_Inr
        split: sum.splits if_splits option.splits)
qed

text \<open>A fresh idempotency key: empty, or not stored for the organization.\<close>

definition fresh_key :: "string \<Rightarrow> string \<Rightarrow> quota_db \<Rightarrow> bool" where
  "fresh_key idem org db \<longleftrightarrow> idem = [] \<or> \<not> list_ex (\<lambda>t. bs_idem t = idem \<and> bs_org t = org) (sessions db)"

lemma fresh_not_replayed:
  assumes "fresh_key (bs_idem s) (bs_org s) db"
  shows "\<not> replayed s db (Inr x)"
proof
  assume "replayed s db (Inr x)"
  then have "bs_idem s \<noteq> []"
    and "sql_select (\<lambda>t. bs_idem t = bs_idem s \<and> bs_org t = bs_org s) (sessions db) = Some x"
    by (simp_all add: replayed_def)
  from this(1) sql_select_Some [OF this(2)] assms show False
    by (auto simp: fresh_key_def list_ex_iff)
qed

lemma preauthorize_success:
  assumes pre: "preauthorize_billing_session env (Some s0) db = (db', Inr x)"
    and fresh: "fresh_key (bs_idem s0) (bs_org s0) db"
  shows "\<exists>sid q. x = default_session env sid s0 \<and> q \<in> set (quotas db)
     \<and> draws_on db (bs_user s0) (bs_org s0) q \<and> bs_preauth s0 \<le> q_balance q
     \<and> db' = reserved_db env x (scope_of db (bs_user s0) (bs_org s0)) db
     \<and> can_reserve x (scope_of db (bs_user s0) (bs_org s0)) db"
proof -
  from preauthorize_cases [OF pre] fresh_not_replayed [OF fresh] obtain sid where
    pos: "0 < bs_preauth s0"
    and res: "preauthorize_reserve env (default_session env sid s0) db = (db', Inr x)" by auto
  let ?s = "default_session env sid s0"
  have "\<not> replayed ?s db (Inr x)" using fresh fresh_not_replayed [of ?s] by simp
  with preauthorize_reserve_cases [OF res] obtain db1 r1 where
    goc: "get_or_create_quota env (bs_user ?s) (bs_org ?s) db = (db1, r1)"
    and x: "x = ?s" and db': "db' = reserved_db env ?s (scope_of db1 (bs_user ?s) (bs_org ?s)) db1"
    and can: "can_reserve ?s (scope_of db1 (bs_user ?s) (bs_org ?s)) db1" by auto
  from reserved_on_old_row [OF goc can] pos obtain q where
    q: "q \<in> set (quotas db)" "draws_on db (bs_user ?s) (bs_org ?s) q" "bs_preauth ?s \<le> q_balance q"
    by auto
  have "db1 = db" by (rule goc_present_same [OF q(1,2) goc])
  with x db' can q show ?thesis by auto
qed

lemma reserve_row_exact:
  "quota_row_ok q \<Longrightarrow> grid amt \<Longrightarrow>
     reserve_row now amt q = q\<lparr>q_balance := q_balance q - amt, q_used := q_used q + amt, q_updated := now\<rparr>"
  by (simp add: reserve_row_def quota_row_ok_def grid_dec6 grid_add grid_diff)

lemma reserved_rows:
  assumes ok: "ledger_ok db" and q: "q \<in> set (quotas db)" "draws_on db (bs_user s) (bs_org s) q"
    and amt: "grid (bs_preauth s)" "bs_preauth s \<le> q_balance q" and r: "r \<in> set (quotas db)"
  shows "(if reserve_match (bs_org s) (scope_of db (bs_user s) (bs_org s)) (bs_user s) (bs_preauth s) r
          then reserve_row now (bs_preauth s) r else r)
       = (if r = q then q\<lparr>q_balance := q_balance q - bs_preauth s,
              q_used := q_used q + bs_preauth s, q_updated := now\<rparr> else r)"
proof -
  have "reserve_match (bs_org s) (scope_of db (bs_user s) (bs_org s)) (bs_user s) (bs_preauth s) r
      \<longleftrightarrow> r = q"
    using draws_on_unique [OF ok r q(1) _ q(2)] q amt by (auto simp: reserve_match_def draws_on_def)
  moreover have "quota_row_ok q" using ok q by (simp add: ledger_ok_def)
  ultimately show ?thesis using reserve_row_exact amt(1) by simp
qed

lemma pre_consume_reserves_exactly_core:
  assumes ok: "ledger_ok db" and "grid amt" and fresh: "fresh_key idem org db"
    and pre: "pre_consume True env user org amt idem channel model api db = (db', Inr s)"
  shows "bs_preauth s = amt \<and> bs_status s = ''preauthorized'' \<and> sessions db' = sessions db @ [s]
     \<and> (\<exists>q \<in> set (quotas db). draws_on db user org q \<and> amt \<le> q_balance q
          \<and> quotas db' = List.map (\<lambda>r. if r = q then q\<lparr>q_balance := q_balance q - amt,
                 q_used := q_used q + amt, q_updated := e_now env\<rparr> else r) (quotas db))"
proof -
  from pre_consume_cases [OF pre] obtain sid0 where
    "preauthorize_billing_session env
       (Some (new_session env sid0 user org amt idem channel model api)) db = (db', Inr s)" by auto
  from preauthorize_success [OF this] fresh obtain sid q where
    s: "s = default_session env sid (new_session env sid0 user org amt idem channel model api)"
    and q: "q \<in> set (quotas db)" "draws_on db user org q" "amt \<le> q_balance q"
    and db': "db' = reserved_db env s (scope_of db user org) db" by auto
  have keys: "bs_user s = user" "bs_org s = org" "bs_preauth s = amt" by (simp_all add: s)
  have stored: "stored_session s = s"
    using \<open>grid amt\<close> by (simp add: stored_session_def grid_dec6 s default_session_def new_session_def)
  have "quotas db' = List.map (\<lambda>r. if r = q then q\<lparr>q_balance := q_balance q - amt,
                 q_used := q_used q + amt, q_updated := e_now env\<rparr> else r) (quotas db)"
    using reserved_rows [OF ok q(1), of s] q(2,3) \<open>grid amt\<close> keys by (simp add: db' reserved_db_def)
  then show ?thesis using q stored keys db' by (auto simp: reserved_db_def s default_session_def)
qed

text \<open>
  C2. In a consistent ledger, a successful \<open>PreConsume\<close> through the transactional store, of an amount on
  the six-decimal grid and with an empty key or one the organization has not used, found a row of the
  user with at least the amount on it, moved exactly the amount from \<open>balance\<close> to \<open>used\<close> of that row
  alone, and stored one new preauthorized session for it. (Off the grid the columns round.)
\<close>

theorem pre_consume_reserves_exactly:
  assumes ok: "ledger_ok db" and "grid amt" and fresh: "fresh_key idem org db"
    and pre: "pre_consume True env user org amt idem channel model api db = (db', Inr s)"
  shows "bs_preauth s = amt \<and> bs_status s = ''preauthorized'' \<and> sessions db' = sessions db @ [s]
     \<and> (\<exists>q \<in> set (quotas db). draws_on db user org q \<and> amt \<le> q_balance q
          \<and> quotas db' = List.map (\<lambda>r. if r = q then q\<lparr>q_balance := q_balance q - amt,
                 q_used := q_used q + amt, q_updated := e_now env\<rparr> else r) (quotas db))"
  using pre_consume_reserves_exactly_core [OF assms] .

theorem pre_consume_reserves_exactly_witness:
  "\<exists>db' s. pre_consume True sample_env ''u1'' ''org'' 3 ''k1'' [] [] [] sample_db = (db', Inr s)
     \<and> bs_preauth s = 3 \<and> sessions db' = [s]"
proof -
  let ?run = "pre_consume True sample_env ''u1'' ''org'' 3 ''k1'' [] [] [] sample_db"
  have "case snd ?run of Inl _ \<Rightarrow> False | Inr _ \<Rightarrow> True" by code_simp
  then obtain s where run: "?run = (fst ?run, Inr s)" by (cases "snd ?run") (auto simp: prod_eq_iff)
  have "fresh_key ''k1'' ''org'' sample_db" by code_simp
  from pre_consume_reserves_exactly [OF sample_ok _ this run] run show ?thesis
    by (auto simp: sample_db_def)
qed

lemma preauthorize_replays:
  assumes env: "\<not> e_fault env CallIdemLookup" "e_new_id env ''bill'' = Some sid" "sid \<noteq> []"
    and args: "org \<noteq> []" "0 < amt" "idem \<noteq> []"
    and found: "sql_select (\<lambda>t. bs_idem t = idem \<and> bs_org t = org) (sessions db) = Some x"
  shows "pre_consume True env user org amt idem channel model api db = (db, Inr x)"
  using assms
  by (simp add: pre_consume_def preauthorize_billing_session_def get_session_by_idempotency_key_def
      Let_def)

lemma key_found:
  assumes "fresh_key idem org db" "bs_idem s = idem" "bs_org s = org"
    and "sessions db' = sessions db @ [s]" "idem \<noteq> []"
  shows "sql_select (\<lambda>t. bs_idem t = idem \<and> bs_org t = org) (sessions db') = Some s"
proof -
  have "sql_select (\<lambda>t. bs_idem t = idem \<and> bs_org t = org) (sessions db) = None"
    using assms(1,5) by (auto simp: sql_select_None fresh_key_def list_ex_iff)
  with assms show ?thesis by (simp add: sql_select_append) (simp add: sql_select_def)
qed

text \<open>
  A request repeated under the same organization and idempotency key, with whatever user,
  amount and model, charges nothing: it leaves the ledger as the first one left it and
  returns the session the first one stored.
\<close>

theorem pre_consume_charges_a_key_once:
  assumes ok: "ledger_ok db" "grid amt" and fresh: "fresh_key idem org db" and key: "idem \<noteq> []"
    and pre: "pre_consume True env user org amt idem channel model api db = (db', Inr s)"
    and env': "no_faults env'" "e_new_id env' ''bill'' = Some sid'" "sid' \<noteq> []" and "0 < amt'"
  shows "pre_consume True env' user' org amt' idem channel' model' api' db' = (db', Inr s)"
proof -
  from pre_consume_cases [OF pre] obtain sid0 where org: "org \<noteq> []" and
    pa: "preauthorize_billing_session env
       (Some (new_session env sid0 user org amt idem channel model api)) db = (db', Inr s)" by auto
  from preauthorize_success [OF pa] fresh obtain sid where
    "s = default_session env sid (new_session env sid0 user org amt idem channel model api)" by auto
  then have keys: "bs_idem s = idem" "bs_org s = org" by simp_all
  have "sessions db' = sessions db @ [s]"
    using pre_consume_reserves_exactly_core [OF ok fresh pre] by simp
  from key_found [OF fresh keys this key]
  have "sql_select (\<lambda>t. bs_idem t = idem \<and> bs_org t = org) (sessions db') = Some s" .
  then show ?thesis
    using env' org \<open>0 < amt'\<close> key by (intro preauthorize_replays) (auto simp: no_faults_def)
qed

theorem pre_consume_charges_a_key_once_witness:
  "\<exists>db' s. pre_consume True sample_env ''u1'' ''org'' 3 ''k1'' [] [] [] sample_db = (db', Inr s)
     \<and> pre_consume True sample_env ''u2'' ''org'' 7 ''k1'' [] [] [] db' = (db', Inr s)"
proof -
  let ?run = "pre_consume True sample_env ''u1'' ''org'' 3 ''k1'' [] [] [] sample_db"
  have "case snd ?run of Inl _ \<Rightarrow> False | Inr _ \<Rightarrow> True" by code_simp
  then obtain s where run: "?run = (fst ?run, Inr s)" by (cases "snd ?run") (auto simp: prod_eq_iff)
  have fresh: "fresh_key ''k1'' ''org'' sample_db" by code_simp
  have "pre_consume True sample_env ''u2'' ''org'' 7 ''k1'' [] [] [] (fst ?run) = (fst ?run, Inr s)"
    by (rule pre_consume_charges_a_key_once [OF sample_ok _ fresh _ run, where sid' = "''bill-1''"])
      (simp_all add: sample_env_def no_faults_def)
  with run show ?thesis by blast
qed

text \<open>
  When the balance does not cover the amount, and nothing fails, \<open>PreConsume\<close> with a new
  key reports the balance and the amount, and the ledger is unchanged.
\<close>

theorem pre_consume_rejects_overdraft:
  assumes ok: "ledger_ok db" and env: "no_faults env" "e_new_id env ''bill'' = Some sid" "sid \<noteq> []"
    and args: "org \<noteq> []" "0 < amt" "fresh_key idem org db"
    and id: "\<not> list_ex (\<lambda>t. bs_id t = sid) (sessions db)"
    and q: "q \<in> set (quotas db)" "draws_on db user org q" "q_balance q < amt"
  shows "pre_consume True env user org amt idem channel model api db
           = (db, Inl (InsufficientBalance (q_balance q) amt))"
proof -
  let ?s = "default_session env sid (new_session env sid user org amt idem channel model api)"
  obtain r where goc: "get_or_create_quota env user org db = (db, Inr r)" by (metis env(1) goc_present q(1,2))
  have only: "r = q" if "r \<in> set (quotas db)" "quota_match org (scope_of db user org) user r" for r
    using draws_on_unique [OF ok that(1) q(1) _ q(2)] that(2) by (simp add: draws_on_def)
  have "sql_select (quota_match org (scope_of db user org) user) (quotas db) \<noteq> None"
    using q by (auto simp: sql_select_None draws_on_def)
  then have sel: "sql_select (quota_match org (scope_of db user org) user) (quotas db) = Some q"
    using only sql_select_Some by fastforce
  have "\<forall>r \<in> set (quotas db). \<not> reserve_match org (scope_of db user org) user amt r"
    using only q(3) by (auto simp: reserve_match_def)
  then have none: "snd (sql_update (reserve_match org (scope_of db user org) user amt) f (quotas db)) = 0" for f
    by (auto simp: sql_simps)
  have idfree: "bs_id ?s = sid" by (simp add: default_session_def)
  have free: "\<not> list_ex (session_conflict ?s) (sessions db)"
    using id args(3) by (auto simp: session_conflict_def fresh_key_def list_ex_iff idfree)
  have "preauthorize_tx env ?s (scope_of db user org) r db
      = (db, Inl (InsufficientBalance (q_balance q) amt))"
    using env(1) free none sel by (simp add: preauthorize_tx_def Let_def no_faults_def)
  then have "preauthorize_reserve env ?s db = (db, Inl (InsufficientBalance (q_balance q) amt))"
    using env(1) goc by (simp add: preauthorize_reserve_def)
  moreover have "idem \<noteq> [] \<Longrightarrow> sql_select (\<lambda>t. bs_idem t = idem \<and> bs_org t = org) (sessions db) = None"
    using args(3) by (auto simp: sql_select_None fresh_key_def list_ex_iff)
  ultimately show ?thesis
    using env args(1,2)
    by (cases "idem = []") (simp_all add: pre_consume_def preauthorize_billing_session_def Let_def
        no_faults_def get_session_by_idempotency_key_def)
qed

theorem pre_consume_rejects_overdraft_witness:
  "pre_consume True sample_env ''u1'' ''org'' 30 ''k1'' [] [] [] sample_db
     = (sample_db, Inl (InsufficientBalance 10 30))"
  using pre_consume_rejects_overdraft [OF sample_ok, of sample_env "''bill-1''" "''org''" 30 "''k1''"
      sample_row "''u1''" "[]" "[]" "[]"]
  by (simp add: sample_env_def no_faults_def sample_db_def sample_row_def fresh_key_def draws_on_def
      quota_match_def scope_of_def has_user_limits_def)

subsection \<open>Settlement and refund\<close>

text \<open>What closing a session does to the ledger: \<open>r\<close> goes back to the backing row.\<close>

definition released :: "gotime \<Rightarrow> billing_session \<Rightarrow> usd \<Rightarrow> quota_db \<Rightarrow> quota_db \<Rightarrow> bool" where
  "released now s r db db' \<longleftrightarrow>
     (\<exists>q \<in> set (quotas db). backed_by db q s \<and> r \<le> q_used q
        \<and> quotas db' = List.map (\<lambda>x. if 0 < r \<and> x = q then q\<lparr>q_balance := q_balance q + r,
               q_used := q_used q - r, q_updated := now\<rparr> else x) (quotas db))"

lemma refund_row_exact:
  "quota_row_ok q \<Longrightarrow> grid r \<Longrightarrow> r \<le> q_used q \<Longrightarrow>
     refund_row now r q = q\<lparr>q_balance := q_balance q + r, q_used := q_used q - r, q_updated := now\<rparr>"
  by (simp add: refund_row_def quota_row_ok_def grid_dec6 grid_add grid_diff)

lemma release_total:
  assumes env: "no_faults env" and ok: "ledger_ok db" and s: "s \<in> set (sessions db)"
    and f: "closes s f r"
  shows "\<exists>tx. refund_reserved_quota_tx env (bs_user s) (bs_org s) r (close_sessions sid org f db) = Inr tx
     \<and> sessions tx = sessions (close_sessions sid org f db) \<and> released (e_now env) s r db tx"
proof -
  from ok s obtain q where q: "q \<in> set (quotas db)" "backed_by db q s" by (auto simp: ledger_ok_def)
  have qok: "quota_row_ok q" using ok q by (simp add: ledger_ok_def)
  have enough: "r \<le> q_used q" by (rule release_enough [OF ok s f q])
  have only: "backed_by db x s \<longleftrightarrow> x = q" if "x \<in> set (quotas db)" for x
    using draws_on_unique [OF ok that q(1)] q(2) by (auto simp: backed_by_def)
  have "\<exists>tx. refund_reserved_quota_tx env (bs_user s) (bs_org s) r (close_sessions sid org f db) = Inr tx"
    using env q by (auto simp: refund_reserved_quota_tx_def Let_def no_faults_def sql_simps
        close_sessions_def backed_by_def draws_on_def)
  then obtain tx where
    tx: "refund_reserved_quota_tx env (bs_user s) (bs_org s) r (close_sessions sid org f db) = Inr tx" ..
  have "quotas tx = List.map (\<lambda>x. if 0 < r \<and> x = q then q\<lparr>q_balance := q_balance q + r,
               q_used := q_used q - r, q_updated := e_now env\<rparr> else x) (quotas db)"
    using refund_row_exact [OF qok _ enough] f only
    by (auto simp: release_shape [OF tx] closes_def)
  then show ?thesis using tx release_sessions [OF tx] q enough by (auto simp: released_def)
qed

text \<open>The row of an open session found by its key.\<close>

lemma open_session_selected:
  assumes "ledger_ok db" "s \<in> set (sessions db)" "open_session sid org s"
  shows "sql_select (session_key sid org) (sessions db) = Some s" "bs_status s = ''preauthorized''"
proof -
  have "sql_select (session_key sid org) (sessions db) \<noteq> None"
    using assms by (auto simp: sql_select_None open_session_def)
  then obtain t where t: "sql_select (session_key sid org) (sessions db) = Some t" by auto
  from sql_select_Some [OF t] have rows: "t \<in> set (sessions db)" "session_conflict s t" "session_conflict t s"
    using assms(3) by (auto simp: open_session_def session_key_def session_conflict_def)
  have "unique_rows session_conflict (sessions db)" using assms(1) by (simp add: ledger_ok_def)
  then have "t = s" using unique_rows_eq rows assms(2) by metis
  with t show "sql_select (session_key sid org) (sessions db) = Some s" by simp
  show "bs_status s = ''preauthorized''" using assms(3) by (simp add: open_session_def)
qed

lemma settle_total:
  assumes "no_faults env" "sql_select (session_key sid org) (sessions db) = Some s"
    "bs_status s = ''preauthorized''" "0 \<le> amt" "amt \<le> bs_preauth s"
    and "refund_reserved_quota_tx env (bs_user s) (bs_org s) (bs_preauth s - amt)
           (close_sessions sid org (settle_update (e_now env) amt) db) = Inr tx"
  shows "settle_billing_session env sid org amt db = (tx, None)"
  using assms found_open [OF assms(2,3)]
  by (auto simp: settle_billing_session_def Let_def no_faults_def sql_simps close_sessions_def)

lemma refund_total:
  assumes "no_faults env" "sql_select (session_key sid org) (sessions db) = Some s"
    "bs_status s = ''preauthorized''"
    and "refund_reserved_quota_tx env (bs_user s) (bs_org s) (bs_preauth s)
           (close_sessions sid org (refund_update (e_now env)) db) = Inr tx"
  shows "refund_billing_session env sid org db = (tx, None)"
  using assms found_open [OF assms(2,3)]
  by (auto simp: refund_billing_session_def Let_def no_faults_def sql_simps close_sessions_def)

text \<open>
  C3. In a consistent ledger, when no driver call fails, settling an open session of a named
  organization for an amount on the six-decimal grid, between zero and its reservation, succeeds: the
  session alone becomes settled for the amount, and the row it draws on, alone, gets back exactly the
  difference. (A consistent ledger has that row; \<open>user_limit_strands_open_session\<close> is how it gets lost,
  \<open>off_grid_settlement_rejected\<close> what happens off the grid.)
\<close>

theorem settle_returns_the_difference:
  assumes "ledger_ok db" "no_faults env" "org \<noteq> []"
    and "s \<in> set (sessions db)" "open_session sid org s"
    and "0 \<le> amt" "amt \<le> bs_preauth s" "grid amt"
  shows "\<exists>db'. quota_settle env org sid amt db = (db', None)
     \<and> sessions db' = List.map (\<lambda>t. if open_session sid org t
                        then settle_update (e_now env) amt t else t) (sessions db)
     \<and> released (e_now env) s (bs_preauth s - amt) db db'"
proof -
  note sel = open_session_selected [OF assms(1,4,5)]
  have sok: "session_ok s" using assms by (simp add: ledger_ok_def)
  from release_total [OF assms(2,1,4) settle_closes [OF sok sel(2) assms(6-8)]]
  obtain tx where tx: "refund_reserved_quota_tx env (bs_user s) (bs_org s) (bs_preauth s - amt)
      (close_sessions sid org (settle_update (e_now env) amt) db) = Inr tx"
    "sessions tx = sessions (close_sessions sid org (settle_update (e_now env) amt) db)"
    "released (e_now env) s (bs_preauth s - amt) db tx" by blast
  from settle_total [OF assms(2) sel assms(6,7) tx(1)] tx assms(3) show ?thesis
    by (simp add: quota_settle_def close_sessions_def)
qed

lemma refund_reservation_core:
  assumes "ledger_ok db" "no_faults env" "no_faults env'" "org \<noteq> []"
    and "s \<in> set (sessions db)" "open_session sid org s"
  shows "\<exists>db'. quota_refund env org sid db = (db', None)
     \<and> sessions db' = List.map (\<lambda>t. if open_session sid org t
                        then refund_update (e_now env) t else t) (sessions db)
     \<and> released (e_now env) s (bs_preauth s) db db'
     \<and> quota_refund env' org sid db' = (db', None)"
proof -
  note sel = open_session_selected [OF assms(1,5,6)]
  have sok: "session_ok s" using assms by (simp add: ledger_ok_def)
  from release_total [OF assms(2,1,5) refund_closes [OF sok sel(2)]]
  obtain tx where tx: "refund_reserved_quota_tx env (bs_user s) (bs_org s) (bs_preauth s)
      (close_sessions sid org (refund_update (e_now env)) db) = Inr tx"
    "sessions tx = sessions (close_sessions sid org (refund_update (e_now env)) db)"
    "released (e_now env) s (bs_preauth s) db tx" by blast
  let ?close = "\<lambda>t. if open_session sid org t then refund_update (e_now env) t else t"
  have keys: "session_key sid org (?close t) = session_key sid org t" for t
    by (simp add: refund_update_def session_key_def)
  have "sql_select (session_key sid org) (sessions tx) = Some (?close s)"
    using tx(2) sel(1) by (simp add: close_sessions_def sql_select_map keys)
  then have "sql_select (session_key sid org) (sessions tx) = Some (refund_update (e_now env) s)"
    using assms(6) by simp
  then have "quota_refund env' org sid tx = (tx, None)"
    using assms(3,4) by (simp add: quota_refund_def refund_billing_session_def no_faults_def
        refund_update_def)
  with refund_total [OF assms(2) sel tx(1)] tx assms(4) show ?thesis
    by (simp add: quota_refund_def close_sessions_def)
qed

text \<open>
  C4. In a consistent ledger, when no driver call fails, refunding an open session of a named
  organization succeeds: the session becomes refunded, the row it draws on gets the whole reservation
  back, and a second refund succeeds without changing anything. (A consistent ledger has that row;
  \<open>user_limit_strands_open_session\<close> is how it gets lost.)
\<close>

theorem refund_returns_the_reservation_once:
  assumes "ledger_ok db" "no_faults env" "no_faults env'" "org \<noteq> []"
    and "s \<in> set (sessions db)" "open_session sid org s"
  shows "\<exists>db'. quota_refund env org sid db = (db', None)
     \<and> sessions db' = List.map (\<lambda>t. if open_session sid org t
                        then refund_update (e_now env) t else t) (sessions db)
     \<and> released (e_now env) s (bs_preauth s) db db'
     \<and> quota_refund env' org sid db' = (db', None)"
  using refund_reservation_core [OF assms] .

text \<open>A ledger with one open session of 3, for the witnesses.\<close>

definition sample_open :: billing_session where
  "sample_open = \<lparr>bs_id = ''bill-1'', bs_org = ''org'', bs_user = ''u1'', bs_channel = [], bs_model = [],
     bs_api_type = [], bs_idem = ''k1'', bs_preauth = 3, bs_settled = 0,
     bs_status = ''preauthorized'', bs_created = 100, bs_settled_at = None\<rparr>"

definition sample_open_db :: quota_db where
  "sample_open_db = sample_db\<lparr>quotas := [sample_row\<lparr>q_balance := 7, q_used := 3\<rparr>],
     sessions := [sample_open]\<rparr>"

lemma sample_open_ok:
  "ledger_ok sample_open_db" "sample_open \<in> set (sessions sample_open_db)"
  "open_session ''bill-1'' ''org'' sample_open" "bs_preauth sample_open = 3"
  by (simp_all add: ledger_ok_def sample_open_db_def sample_db_def sample_row_def sample_open_def
      quota_row_ok_def session_ok_def unique_rows_def used_total_def held_on_def held_def backed_by_def
      draws_on_def quota_match_def scope_of_def has_user_limits_def open_session_def session_key_def)

theorem settle_returns_the_difference_witness:
  "\<exists>db'. quota_settle sample_env ''org'' ''bill-1'' 2 sample_open_db = (db', None)
     \<and> released 100 sample_open 1 sample_open_db db'"
  using settle_returns_the_difference [OF sample_open_ok(1) sample_env_no_faults _ sample_open_ok(2,3), of 2]
  by (simp add: sample_open_ok(4)) (auto simp: sample_env_def)

theorem refund_returns_the_reservation_once_witness:
  "\<exists>db'. quota_refund sample_env ''org'' ''bill-1'' sample_open_db = (db', None)
     \<and> quota_refund sample_env ''org'' ''bill-1'' db' = (db', None)"
  using refund_returns_the_reservation_once [OF sample_open_ok(1) sample_env_no_faults
      sample_env_no_faults _ sample_open_ok(2,3)]
  by auto

subsection \<open>Where the promise breaks\<close>

text \<open>
  The scope of a balance is decided anew at every statement. If a user-level limit is
  added while a session of that user is open and the user has no row of their own, neither
  settlement nor refund can succeed: both report \<open>NoRows\<close> and the reservation stays taken.
\<close>

theorem user_limit_strands_open_session:
  assumes "ledger_ok db" "no_faults env" "org \<noteq> []"
    and s: "s \<in> set (sessions db)" "open_session sid org s" "0 < bs_preauth s" "bs_user s \<noteq> []"
    and own: "\<not> list_ex (\<lambda>q. q_org q = org \<and> q_scope q = ''user'' \<and> q_user q = bs_user s) (quotas db)"
    and amt: "0 \<le> amt" "amt < bs_preauth s"
    and limit: "cl_org row = org" "cl_user row = Some (bs_user s)"
    and db1: "db1 = db\<lparr>conc_limits := conc_limits db @ [row]\<rparr>"
  shows "quota_settle env org sid amt db1 = (db1, Some NoRows)
       \<and> quota_refund env org sid db1 = (db1, Some NoRows)"
proof -
  have sel: "sql_select (session_key sid org) (sessions db1) = Some s" "bs_status s = ''preauthorized''"
    using open_session_selected [OF assms(1) s(1,2)] by (simp_all add: db1)
  have org: "bs_org s = org" using s(2) by (simp add: open_session_def session_key_def)
  have scope: "scope_of (db1\<lparr>sessions := ss\<rparr>) (bs_user s) org = ''user''" for ss
    using s(4) limit by (simp add: scope_of_def has_user_limits_def db1)
  have none: "refund_reserved_quota_tx env (bs_user s) org r (db1\<lparr>sessions := ss\<rparr>) = Inl NoRows"
    if "0 < r" for r ss
    using that own assms(2) scope [of ss]
    by (auto simp: refund_reserved_quota_tx_def Let_def no_faults_def sql_simps list_ex_iff
        quota_match_def db1)
  have "quota_settle env org sid amt db1 = (db1, Some NoRows)"
    using assms(2,3) sel org amt none found_open [OF sel]
    by (auto simp: quota_settle_def settle_billing_session_def Let_def no_faults_def sql_simps)
  moreover have "quota_refund env org sid db1 = (db1, Some NoRows)"
    using assms(2,3) sel org s(3) none found_open [OF sel]
    by (auto simp: quota_refund_def refund_billing_session_def Let_def no_faults_def sql_simps)
  ultimately show ?thesis by simp
qed

definition sample_limited_db :: quota_db where
  "sample_limited_db = sample_open_db\<lparr>conc_limits := conc_limits sample_open_db @
     [\<lparr>cl_org = ''org'', cl_user = Some ''u1'', cl_max = 5, cl_updated = 0\<rparr>]\<rparr>"

theorem user_limit_strands_open_session_witness:
  "quota_settle sample_env ''org'' ''bill-1'' 2 sample_limited_db = (sample_limited_db, Some NoRows)
 \<and> quota_refund sample_env ''org'' ''bill-1'' sample_limited_db = (sample_limited_db, Some NoRows)"
  by (rule user_limit_strands_open_session [OF sample_open_ok(1) sample_env_no_faults _ sample_open_ok(2,3)
        _ _ _ _ _ _ _ sample_limited_db_def])
    (simp_all add: sample_open_def sample_open_db_def sample_db_def sample_row_def)

lemma stored_at_end:
  assumes "can_reserve x scope db"
  shows "sql_select (session_key (bs_id x) (bs_org x)) (sessions (reserved_db env x scope db))
       = Some (stored_session x)"
proof -
  have "sql_select (session_key (bs_id x) (bs_org x)) (sessions db) = None"
    using assms by (auto simp: can_reserve_def list_ex_iff session_conflict_def session_key_def
        sql_select_None)
  then show ?thesis
    by (simp add: reserved_db_def sql_select_append) (simp add: sql_select_def session_key_def)
qed

text \<open>
  \<open>PreConsume\<close> does not round the amount, the column does. When the rounded amount is
  lower, a settlement of the very amount that was preauthorized is rejected and the session
  stays open.
\<close>

theorem off_grid_settlement_rejected:
  assumes "dec6 amt < amt" "fresh_key idem org db" "no_faults env'"
    and pre: "pre_consume True env user org amt idem channel model api db = (db', Inr s)"
  shows "quota_settle env' org (bs_id s) amt db' = (db', Some (SettledExceedsPreauth amt (dec6 amt)))"
proof -
  from pre_consume_cases [OF pre] obtain sid0 where org: "org \<noteq> []" "0 < amt" and
    pa: "preauthorize_billing_session env
       (Some (new_session env sid0 user org amt idem channel model api)) db = (db', Inr s)" by auto
  from preauthorize_success [OF pa] assms(2) obtain sid where
    s: "s = default_session env sid (new_session env sid0 user org amt idem channel model api)"
    and can: "can_reserve s (scope_of db user org) db"
    and db': "db' = reserved_db env s (scope_of db user org) db" by auto
  have keys: "bs_org s = org" "bs_preauth s = amt" "bs_status s = ''preauthorized''"
    by (simp_all add: s default_session_def)
  have "sql_select (session_key (bs_id s) org) (sessions db') = Some (stored_session s)"
    using stored_at_end [OF can] keys(1) by (simp add: db')
  then show ?thesis using assms(1,3) keys org
    by (simp add: quota_settle_def settle_billing_session_def no_faults_def)
qed

theorem off_grid_settlement_rejected_witness:
  "\<exists>db' s. pre_consume True sample_env ''u1'' ''org'' (1/3) ''k1'' [] [] [] sample_db = (db', Inr s)
     \<and> quota_settle sample_env ''org'' (bs_id s) (1/3) db'
         = (db', Some (SettledExceedsPreauth (1/3) (333333/1000000)))"
proof -
  let ?run = "pre_consume True sample_env ''u1'' ''org'' (1/3) ''k1'' [] [] [] sample_db"
  have "case snd ?run of Inl _ \<Rightarrow> False | Inr _ \<Rightarrow> True" by code_simp
  then obtain s where run: "?run = (fst ?run, Inr s)" by (cases "snd ?run") (auto simp: prod_eq_iff)
  have fresh: "fresh_key ''k1'' ''org'' sample_db" by code_simp
  have amt: "dec6 (1/3) = 333333/1000000" by code_simp
  have "dec6 (1/3) < (1/3 :: usd)" unfolding amt by simp
  from off_grid_settlement_rejected [OF this fresh sample_env_no_faults run] run
  show ?thesis unfolding amt by blast
qed

definition sample_dup_db :: quota_db where
  "sample_dup_db = sample_db\<lparr>sessions := [sample_open\<lparr>bs_idem := [], bs_status := ''refunded''\<rparr>]\<rparr>"

text \<open>
  On the path for a store without an atomic preauthorization, a session that cannot be
  inserted is compensated on \<open>balance\<close> only: the call fails with the balance restored and
  \<open>used\<close> still raised by the amount.
\<close>

theorem fallback_compensates_balance_only:
  "snd (pre_consume False sample_env ''u1'' ''org'' 4 [] [] [] [] sample_dup_db) = Inl UniqueViolation
 \<and> List.map (\<lambda>q. (q_balance q, q_used q)) (quotas sample_dup_db) = [(10, 0)]
 \<and> List.map (\<lambda>q. (q_balance q, q_used q))
     (quotas (fst (pre_consume False sample_env ''u1'' ''org'' 4 [] [] [] [] sample_dup_db))) = [(10, 4)]"
  by code_simp

end
