(* ===== verification/Rate_Limiter.thy ===== *)
theory Rate_Limiter
  imports Prelude "HOL-Library.Sublist"
begin

text \<open>
  The relay rate limiter, \<open>src/server/internal/relay/ratelimit/limiter.go\<close>: the
  \<open>InMemoryRateLimiter\<close> with its three counters (a sliding window of request times, a fixed
  window of tokens, the requests in flight), each keyed by the joined key. A method takes the
  limiter and the clock reading \<open>now\<close>; its mutex makes a call one step.

  The interface \<open>slot_counter\<close> is what a caller of \<open>Begin\<close> and \<open>End\<close> relies on; it is
  interpreted on the limiter here, and the bound on the requests in flight is proved once
  from it.
\<close>

subsection \<open>Keys, limits, decisions\<close>

datatype dimension = DimNone | DimRPM | DimTPM | DimConcurrent | DimRequestTokens

record rate_key =
  rk_channel :: string
  rk_model :: string
  rk_token :: string

record rate_limits =
  lim_rpm :: int
  lim_tpm :: int
  lim_concurrent :: int
  lim_request :: int

record rate_usage =
  us_tokens :: int
  us_request :: int

record decision =
  d_allowed :: bool
  d_dim :: dimension
  d_limit :: int
  d_current :: int
  d_remaining :: int
  d_retry :: duration

record limit_error =
  le_decision :: decision
  le_key :: rate_key

record fixed_window =
  fw_start :: gotime
  fw_total :: int

record mem_limiter =
  rpm_events :: "string \<Rightarrow> gotime list option"
  tpm_windows :: "string \<Rightarrow> fixed_window option"
  concurrent :: "string \<Rightarrow> int option"

definition default_window :: duration where "default_window = go_minute"

definition new_in_memory_rate_limiter :: mem_limiter where
  "new_in_memory_rate_limiter =
     \<lparr>rpm_events = Map.empty, tpm_windows = Map.empty, concurrent = Map.empty\<rparr>"

subsection \<open>Helpers\<close>

definition counter_key :: "string \<Rightarrow> rate_key \<Rightarrow> string" where
  "counter_key kind key = join_with '':'' [kind, rk_channel key, rk_model key, rk_token key]"

definition request_tokens_from_usage :: "rate_usage \<Rightarrow> int" where
  "request_tokens_from_usage u =
     (let tokens = (if us_request u = 0 then us_tokens u else us_request u)
      in if tokens < 0 then 0 else tokens)"

text \<open>\<open>pruneEvents\<close>: the loop skips the leading events that are not after the cutoff.\<close>

definition prune_events :: "gotime list \<Rightarrow> gotime \<Rightarrow> duration \<Rightarrow> gotime list" where
  "prune_events events now window = dropWhile (\<lambda>e. e \<le> now - window) events"

fun retry_after :: "gotime list \<Rightarrow> gotime \<Rightarrow> duration \<Rightarrow> duration" where
  "retry_after [] now window = 0"
| "retry_after (e # es) now window = (let retry = e + window - now in if retry < 0 then 0 else retry)"

definition limit_error_of ::
  "rate_key \<Rightarrow> dimension \<Rightarrow> int \<Rightarrow> int \<Rightarrow> int \<Rightarrow> duration \<Rightarrow> limit_error" where
  "limit_error_of key dm limit current remaining retry =
     \<lparr>le_decision = \<lparr>d_allowed = False, d_dim = dm, d_limit = limit, d_current = current,
                     d_remaining = remaining, d_retry = retry\<rparr>, le_key = key\<rparr>"

definition no_decision :: decision where
  "no_decision = \<lparr>d_allowed = False, d_dim = DimNone, d_limit = 0, d_current = 0,
                  d_remaining = 0, d_retry = 0\<rparr>"

definition zero_window :: fixed_window where
  "zero_window = \<lparr>fw_start = zero_time, fw_total = 0\<rparr>"

definition window_expired :: "fixed_window \<Rightarrow> gotime \<Rightarrow> bool" where
  "window_expired w now \<longleftrightarrow> fw_start w = zero_time \<or> \<not> now < fw_start w + default_window"

subsection \<open>The operations\<close>

text \<open>The two counting stages of \<open>Allow\<close>, in its order.\<close>

definition allow_rpm ::
  "rate_key \<Rightarrow> rate_limits \<Rightarrow> gotime \<Rightarrow> mem_limiter \<Rightarrow> mem_limiter \<times> limit_error option" where
  "allow_rpm key limits now l =
     (if 0 < lim_rpm limits then
        (let k = counter_key ''rpm'' key;
             events = prune_events (go_get (rpm_events l) [] k) now default_window
         in if lim_rpm limits < int (length events) + 1
            then (l\<lparr>rpm_events := (rpm_events l)(k \<mapsto> events)\<rparr>,
                  Some (limit_error_of key DimRPM (lim_rpm limits) (int (length events)) 0
                          (retry_after events now default_window)))
            else (l\<lparr>rpm_events := (rpm_events l)(k \<mapsto> events @ [now])\<rparr>, None))
      else (l, None))"

definition allow_tpm ::
  "rate_key \<Rightarrow> rate_limits \<Rightarrow> int \<Rightarrow> gotime \<Rightarrow> mem_limiter \<Rightarrow> mem_limiter \<times> limit_error option" where
  "allow_tpm key limits tokens now l =
     (if 0 < lim_tpm limits \<and> 0 < tokens then
        (let k = counter_key ''tpm'' key;
             w0 = go_get (tpm_windows l) zero_window k;
             w = (if window_expired w0 now then \<lparr>fw_start = now, fw_total = 0\<rparr> else w0)
         in if lim_tpm limits < int64 (fw_total w + tokens)
            then (l\<lparr>tpm_windows := (tpm_windows l)(k \<mapsto> w)\<rparr>,
                  Some (limit_error_of key DimTPM (lim_tpm limits) (fw_total w)
                          (max 0 (int64 (lim_tpm limits - fw_total w))) (fw_start w + default_window - now)))
            else (l\<lparr>tpm_windows := (tpm_windows l)(k \<mapsto> w\<lparr>fw_total := int64 (fw_total w + tokens)\<rparr>)\<rparr>, None))
      else (l, None))"

definition rl_allow ::
  "rate_key \<Rightarrow> rate_limits \<Rightarrow> rate_usage \<Rightarrow> gotime \<Rightarrow> mem_limiter \<Rightarrow> mem_limiter \<times> limit_error option" where
  "rl_allow key limits usage now l =
     (let requested = request_tokens_from_usage usage
      in if 0 < lim_request limits \<and> lim_request limits < requested
         then (l, Some (limit_error_of key DimRequestTokens (lim_request limits) requested 0 0))
         else case allow_rpm key limits now l of
                (l1, Some e) \<Rightarrow> (l1, Some e)
              | (l1, None) \<Rightarrow> allow_tpm key limits (if us_tokens usage < 0 then 0 else us_tokens usage) now l1)"

definition rl_begin :: "rate_key \<Rightarrow> rate_limits \<Rightarrow> mem_limiter \<Rightarrow> mem_limiter \<times> limit_error option" where
  "rl_begin key limits l =
     (if lim_concurrent limits \<le> 0 then (l, None)
      else
        (let k = counter_key ''concurrent'' key; current = go_get (concurrent l) 0 k
         in if lim_concurrent limits < current + 1
            then (l, Some (limit_error_of key DimConcurrent (lim_concurrent limits) current 0 0))
            else (l\<lparr>concurrent := (concurrent l)(k \<mapsto> current + 1)\<rparr>, None)))"

definition rl_end :: "rate_key \<Rightarrow> mem_limiter \<Rightarrow> mem_limiter" where
  "rl_end key l =
     (let k = counter_key ''concurrent'' key
      in if go_get (concurrent l) 0 k \<le> 1
         then l\<lparr>concurrent := (concurrent l)(k := None)\<rparr>
         else l\<lparr>concurrent := (concurrent l)(k \<mapsto> go_get (concurrent l) 0 k - 1)\<rparr>)"

definition highest_projected_usage :: "decision \<Rightarrow> decision \<Rightarrow> int \<Rightarrow> decision" where
  "highest_projected_usage current candidate increment =
     (if d_limit candidate \<le> 0 then current
      else if d_limit current \<le> 0 then candidate
      else
        (let current_projected =
               (case d_dim current of
                  DimRPM \<Rightarrow> int64 (d_current current + 1)
                | DimTPM \<Rightarrow> int64 (d_current current + increment)
                | _ \<Rightarrow> d_current current);
             candidate_projected = int64 (d_current candidate + increment)
         in if int64 (current_projected * d_limit candidate)
                 < int64 (candidate_projected * d_limit current)
            then candidate else current))"

definition check_rpm ::
  "rate_key \<Rightarrow> rate_limits \<Rightarrow> gotime \<Rightarrow> mem_limiter \<Rightarrow> decision \<Rightarrow> decision" where
  "check_rpm key limits now l best =
     (if 0 < lim_rpm limits then
        (let events = prune_events (go_get (rpm_events l) [] (counter_key ''rpm'' key)) now default_window
         in if lim_rpm limits < int (length events) + 1
            then no_decision\<lparr>d_dim := DimRPM, d_limit := lim_rpm limits, d_current := int (length events),
                             d_retry := retry_after events now default_window\<rparr>
            else highest_projected_usage best
                   \<lparr>d_allowed = True, d_dim = DimRPM, d_limit = lim_rpm limits,
                    d_current = int (length events),
                    d_remaining = max 0 (lim_rpm limits - int (length events)), d_retry = 0\<rparr> 1)
      else best)"

definition check_tpm ::
  "rate_key \<Rightarrow> rate_limits \<Rightarrow> int \<Rightarrow> gotime \<Rightarrow> mem_limiter \<Rightarrow> decision \<Rightarrow> decision" where
  "check_tpm key limits tokens now l best =
     (if 0 < lim_tpm limits \<and> 0 < tokens then
        (let w = go_get (tpm_windows l) zero_window (counter_key ''tpm'' key);
             current = (if window_expired w now then 0 else fw_total w);
             retry = (if window_expired w now then 0 else fw_start w + default_window - now)
         in if lim_tpm limits < int64 (current + tokens)
            then no_decision\<lparr>d_dim := DimTPM, d_limit := lim_tpm limits, d_current := current,
                             d_remaining := max 0 (int64 (lim_tpm limits - current)), d_retry := retry\<rparr>
            else highest_projected_usage best
                   \<lparr>d_allowed = True, d_dim = DimTPM, d_limit = lim_tpm limits, d_current = current,
                    d_remaining = max 0 (int64 (lim_tpm limits - current)), d_retry = retry\<rparr> tokens)
      else best)"

definition check_concurrent :: "rate_key \<Rightarrow> rate_limits \<Rightarrow> mem_limiter \<Rightarrow> decision \<Rightarrow> decision" where
  "check_concurrent key limits l best =
     (if 0 < lim_concurrent limits then
        (let current = go_get (concurrent l) 0 (counter_key ''concurrent'' key)
         in if lim_concurrent limits < current + 1
            then no_decision\<lparr>d_dim := DimConcurrent, d_limit := lim_concurrent limits,
                             d_current := current\<rparr>
            else best)
      else best)"

text \<open>\<open>Check\<close>: a stage that refuses returns its decision.\<close>

definition rl_check :: "rate_key \<Rightarrow> rate_limits \<Rightarrow> rate_usage \<Rightarrow> gotime \<Rightarrow> mem_limiter \<Rightarrow> decision" where
  "rl_check key limits usage now l =
     (let requested = request_tokens_from_usage usage
      in if 0 < lim_request limits \<and> lim_request limits < requested
         then no_decision\<lparr>d_dim := DimRequestTokens, d_limit := lim_request limits, d_current := requested\<rparr>
         else
           (let rpm = check_rpm key limits now l (no_decision\<lparr>d_allowed := True\<rparr>)
            in if \<not> d_allowed rpm then rpm
               else
                 (let tpm = check_tpm key limits (us_tokens usage) now l rpm
                  in if \<not> d_allowed tpm then tpm
                     else check_concurrent key limits l tpm)))"

lemma counter_key_simp:
  "counter_key kind key = kind @ '':'' @ rk_channel key @ '':'' @ rk_model key @ '':'' @ rk_token key"
  by (simp add: counter_key_def)

subsection \<open>Which calls touch which counter\<close>

lemma retry_after_nonneg: "0 \<le> retry_after es now window"
  by (cases es) (auto simp: Let_def)

lemma allow_tpm_frame [simp]:
  "rpm_events (fst (allow_tpm key limits tokens now l)) = rpm_events l"
  "concurrent (fst (allow_tpm key limits tokens now l)) = concurrent l"
  by (simp_all add: allow_tpm_def Let_def)

lemma allow_rpm_frame [simp]:
  "tpm_windows (fst (allow_rpm key limits now l)) = tpm_windows l"
  "concurrent (fst (allow_rpm key limits now l)) = concurrent l"
  by (simp_all add: allow_rpm_def Let_def)

lemma rl_end_frame [simp]:
  "rpm_events (rl_end key l) = rpm_events l" "tpm_windows (rl_end key l) = tpm_windows l"
  by (simp_all add: rl_end_def Let_def)

lemma rl_begin_frame [simp]:
  "rpm_events (fst (rl_begin key limits l)) = rpm_events l"
  "tpm_windows (fst (rl_begin key limits l)) = tpm_windows l"
  by (simp_all add: rl_begin_def Let_def)

lemma rl_allow_concurrent [simp]: "concurrent (fst (rl_allow key limits usage now l)) = concurrent l"
proof -
  obtain l1 r1 where r: "allow_rpm key limits now l = (l1, r1)" by fastforce
  with allow_rpm_frame(2) [of key limits now l] show ?thesis
    by (auto simp: rl_allow_def Let_def split: option.splits)
qed

subsection \<open>Traces of calls\<close>

datatype rl_op =
    RAllow rate_key rate_limits rate_usage
  | RBegin rate_key rate_limits
  | REnd rate_key
  | RCheck rate_key rate_limits rate_usage

fun rl_exec :: "gotime \<Rightarrow> rl_op \<Rightarrow> mem_limiter \<Rightarrow> mem_limiter \<times> limit_error option" where
  "rl_exec now (RAllow key limits usage) l = rl_allow key limits usage now l"
| "rl_exec now (RBegin key limits) l = rl_begin key limits l"
| "rl_exec now (REnd key) l = (rl_end key l, None)"
| "rl_exec now (RCheck key limits usage) l = (l, None)"

text \<open>The times at which \<open>Allow\<close> let a request with counter key \<open>k\<close> through.\<close>

fun is_allow_of :: "string \<Rightarrow> rl_op \<Rightarrow> bool" where
  "is_allow_of k (RAllow key limits usage) = (counter_key ''rpm'' key = k)"
| "is_allow_of k _ = False"

fun allowed_times :: "string \<Rightarrow> (gotime \<times> rl_op) list \<Rightarrow> mem_limiter \<Rightarrow> gotime list" where
  "allowed_times k [] l = []"
| "allowed_times k ((now, op) # ops) l =
     (case rl_exec now op l of
        (l', e) \<Rightarrow> (if is_allow_of k op \<and> e = None then [now] else []) @ allowed_times k ops l')"

text \<open>Every call under \<open>k\<close> uses the limit \<open>n\<close>, and the clock does not go back.\<close>

fun rpm_limit_is :: "int \<Rightarrow> string \<Rightarrow> rl_op \<Rightarrow> bool" where
  "rpm_limit_is n k (RAllow key limits usage) = (counter_key ''rpm'' key = k \<longrightarrow> lim_rpm limits = n)"
| "rpm_limit_is n k _ = True"

definition in_window :: "gotime \<Rightarrow> gotime list \<Rightarrow> gotime list" where
  "in_window t ts = filter (\<lambda>x. t - default_window < x \<and> x \<le> t) ts"

text \<open>
  The state of one sliding window: \<open>H\<close> lists every recorded time so far, the stored events
  are \<open>H\<close> without what had expired at some cutoff, and no minute holds more than \<open>n\<close>.
\<close>

definition rpm_inv :: "int \<Rightarrow> string \<Rightarrow> gotime \<Rightarrow> gotime list \<Rightarrow> mem_limiter \<Rightarrow> bool" where
  "rpm_inv n k now H l \<longleftrightarrow>
     sorted H \<and> (\<forall>x \<in> set H. x \<le> now)
   \<and> (\<exists>c \<le> now - default_window. go_get (rpm_events l) [] k = dropWhile (\<lambda>e. e \<le> c) H)
   \<and> (\<forall>t. int (length (in_window t H)) \<le> n)"

lemma dropWhile_le_le:
  "sorted H \<Longrightarrow> c \<le> (d::int) \<Longrightarrow> dropWhile (\<lambda>e. e \<le> d) (dropWhile (\<lambda>e. e \<le> c) H) = dropWhile (\<lambda>e. e \<le> d) H"
  by (induction H) auto

lemma dropWhile_le_filter: "sorted H \<Longrightarrow> dropWhile (\<lambda>e. e \<le> (c::int)) H = filter (\<lambda>e. c < e) H"
proof (induction H)
  case (Cons x H)
  show ?case
  proof (cases "x \<le> c")
    case False
    then have "\<forall>y \<in> set (x # H). c < y" using Cons.prems by auto
    then show ?thesis using False by (simp add: filter_id_conv)
  qed (use Cons in auto)
qed simp

lemma in_window_append: "in_window t (xs @ ys) = in_window t xs @ in_window t ys"
  by (simp add: in_window_def)

text \<open>Recording \<open>now\<close> when fewer than \<open>n\<close> unexpired events are stored keeps the bound.\<close>

lemma in_window_record:
  assumes "sorted H" "\<forall>x \<in> set H. x \<le> now" "\<forall>t. int (length (in_window t H)) \<le> n"
    and "int (length (filter (\<lambda>e. now - default_window < e) H)) + 1 \<le> n"
  shows "int (length (in_window t (H @ [now]))) \<le> n"
proof (cases "t - default_window < now \<and> now \<le> t")
  case True
  have "in_window t H = filter (\<lambda>e. t - default_window < e) (filter (\<lambda>e. now - default_window < e) H)"
    using True assms(2) by (auto simp: in_window_def intro!: filter_cong)
  then have "length (in_window t H) \<le> length (filter (\<lambda>e. now - default_window < e) H)"
    using length_filter_le by metis
  with True assms(4) show ?thesis by (simp add: in_window_append) (simp add: in_window_def)
next
  case False
  then have "in_window t [now] = []" by (auto simp: in_window_def)
  then show ?thesis using assms(3) by (simp add: in_window_append)
qed

lemma allow_rpm_inv:
  assumes inv: "rpm_inv n k t0 H l" and now: "t0 \<le> now" and n: "0 < n" "lim_rpm limits = n"
    and k: "counter_key ''rpm'' key = k" and step: "allow_rpm key limits now l = (l', e)"
  shows "rpm_inv n k now (if e = None then H @ [now] else H) l'"
proof -
  from inv obtain c where c: "c \<le> t0 - default_window" "go_get (rpm_events l) [] k = dropWhile (\<lambda>e. e \<le> c) H"
    and H0: "sorted H" "\<forall>x \<in> set H. x \<le> t0" "\<forall>t. int (length (in_window t H)) \<le> n"
    unfolding rpm_inv_def by blast
  have H: "sorted H" "\<forall>x \<in> set H. x \<le> now" "\<forall>t. int (length (in_window t H)) \<le> n"
    using H0 now by auto
  define E where "E = prune_events (go_get (rpm_events l) [] k) now default_window"
  have E: "E = dropWhile (\<lambda>e. e \<le> now - default_window) H"
    using c now dropWhile_le_le [OF H(1)] by (simp add: E_def prune_events_def)
  then have len: "length E = length (filter (\<lambda>e. now - default_window < e) H)"
    by (simp add: dropWhile_le_filter [OF H(1)])
  have append: "dropWhile (\<lambda>e. e \<le> now - default_window) (H @ [now]) = E @ [now]"
    unfolding E by (subst dropWhile_le_filter, use H in \<open>simp add: sorted_append\<close>)
      (simp add: dropWhile_le_filter [OF H(1)] default_window_def)
  show ?thesis
  proof (cases "e = None")
    case True
    then have "int (length E) + 1 \<le> n" "go_get (rpm_events l') [] k = E @ [now]"
      using step n k by (auto simp: allow_rpm_def Let_def E_def split: if_splits)
    then show ?thesis using True H in_window_record [OF H] len append
      by (auto simp: rpm_inv_def sorted_append intro!: exI [of _ "now - default_window"])
  next
    case False
    then have "go_get (rpm_events l') [] k = E"
      using step n k by (auto simp: allow_rpm_def Let_def E_def split: if_splits)
    then show ?thesis using False H E by (auto simp: rpm_inv_def intro!: exI [of _ "now - default_window"])
  qed
qed

lemma rpm_inv_cong:
  assumes "rpm_inv n k t0 H l" "t0 \<le> now" "go_get (rpm_events l') [] k = go_get (rpm_events l) [] k"
  shows "rpm_inv n k now H l'"
proof -
  from assms(1) obtain c where "c \<le> t0 - default_window"
    "go_get (rpm_events l) [] k = dropWhile (\<lambda>e. e \<le> c) H" unfolding rpm_inv_def by blast
  then have "\<exists>c \<le> now - default_window. go_get (rpm_events l') [] k = dropWhile (\<lambda>e. e \<le> c) H"
    using assms(2,3) by (intro exI [of _ c]) simp
  with assms show ?thesis by (auto simp: rpm_inv_def)
qed

lemma rl_allow_rpm_events:
  "rpm_events (fst (rl_allow key limits usage now l)) =
     (if 0 < lim_request limits \<and> lim_request limits < request_tokens_from_usage usage
      then rpm_events l else rpm_events (fst (allow_rpm key limits now l)))"
  by (auto simp: rl_allow_def Let_def split: prod.splits option.splits)

lemma rl_exec_rpm_inv:
  assumes inv: "rpm_inv n k t0 H l" and now: "t0 \<le> now" and n: "0 < n" "rpm_limit_is n k op"
    and step: "rl_exec now op l = (l', e)"
  shows "\<exists>H'. rpm_inv n k now (H @ H') l' \<and> subseq (if is_allow_of k op \<and> e = None then [now] else []) H'"
proof (cases "is_allow_of k op")
  case True
  then obtain key limits usage where op: "op = RAllow key limits usage" "counter_key ''rpm'' key = k"
    by (cases op) auto
  show ?thesis
  proof (cases "0 < lim_request limits \<and> lim_request limits < request_tokens_from_usage usage")
    case blocked: True
    with op step have "l' = l" "e \<noteq> None" by (auto simp: rl_allow_def Let_def)
    then show ?thesis using rpm_inv_cong [OF inv now] by (intro exI [of _ "[]"]) auto
  next
    case False
    obtain l1 e1 where rpm: "allow_rpm key limits now l = (l1, e1)" by fastforce
    have "rpm_inv n k now (if e1 = None then H @ [now] else H) l1"
      using allow_rpm_inv [OF inv now n(1) _ op(2) rpm] n op by simp
    moreover have "rpm_events l' = rpm_events l1"
      using rl_allow_rpm_events [of key limits usage now l] False step op rpm by simp
    moreover have "e = None \<Longrightarrow> e1 = None"
      using step op False rpm by (auto simp: rl_allow_def Let_def split: option.splits)
    ultimately show ?thesis
      by (intro exI [of _ "if e1 = None then [now] else []"])
        (auto intro: rpm_inv_cong split: if_splits)
  qed
next
  case False
  have "go_get (rpm_events l') [] k = go_get (rpm_events l) [] k"
  proof (cases op)
    case (RAllow key limits usage)
    with False step rl_allow_rpm_events [of key limits usage now l] show ?thesis
      by (auto simp: allow_rpm_def Let_def)
  qed (use step in \<open>auto dest: arg_cong [where f = fst] simp: rl_begin_def Let_def split: if_splits\<close>)
  then show ?thesis using False rpm_inv_cong [OF inv now] by (intro exI [of _ "[]"]) auto
qed

lemma allowed_times_bounded:
  assumes "rpm_inv n k t0 H l" "0 < n" "\<forall>c \<in> set calls. rpm_limit_is n k (snd c)"
    and "sorted (t0 # List.map fst calls)" "subseq A H"
  shows "int (length (in_window t (A @ allowed_times k calls l))) \<le> n"
  using assms
proof (induction calls arbitrary: t0 H l A)
  case Nil
  then have "length (in_window t A) \<le> length (in_window t H)"
    unfolding in_window_def by (metis list_emb_length subseq_filter)
  with Nil show ?case by (auto simp: rpm_inv_def intro: order_trans [rotated])
next
  case (Cons call calls)
  obtain now op where call: "call = (now, op)" by fastforce
  obtain l' e where step: "rl_exec now op l = (l', e)" by fastforce
  from rl_exec_rpm_inv [OF Cons.prems(1) _ Cons.prems(2) _ step] Cons.prems call obtain H' where
    H': "rpm_inv n k now (H @ H') l'" "subseq (if is_allow_of k op \<and> e = None then [now] else []) H'"
    by auto
  have "subseq (A @ (if is_allow_of k op \<and> e = None then [now] else [])) (H @ H')"
    using Cons.prems(5) H'(2) by (rule list_emb_append_mono)
  from Cons.IH [OF H'(1) Cons.prems(2) _ _ this] Cons.prems call step show ?case by auto
qed

text \<open>
  C8. Whatever calls a fresh limiter serves, as long as the clock does not go back and the
  requests of a counter share one limit \<open>n\<close>, no minute, wherever it starts, sees more than
  \<open>n\<close> of that counter's requests allowed.
\<close>

theorem rpm_never_exceeds_limit:
  assumes "0 < n" "\<forall>c \<in> set calls. rpm_limit_is n k (snd c)" "sorted (List.map fst calls)"
  shows "int (length (in_window t (allowed_times k calls new_in_memory_rate_limiter))) \<le> n"
proof -
  define t0 where "t0 = (case calls of [] \<Rightarrow> 0 | c # _ \<Rightarrow> fst c)"
  have "rpm_inv n k t0 [] new_in_memory_rate_limiter"
    using assms(1) by (auto simp: rpm_inv_def new_in_memory_rate_limiter_def in_window_def)
  moreover have "sorted (t0 # List.map fst calls)"
    using assms(3) by (cases calls) (auto simp: t0_def)
  ultimately show ?thesis
    using allowed_times_bounded [OF _ assms(1,2), where H = "[]" and A = "[]"] by simp
qed

definition sample_key :: rate_key where
  "sample_key = \<lparr>rk_channel = ''c'', rk_model = ''m'', rk_token = ''t''\<rparr>"

definition sample_calls :: "(gotime \<times> rl_op) list" where
  "sample_calls =
     (let lim = \<lparr>lim_rpm = 2, lim_tpm = 0, lim_concurrent = 0, lim_request = 0\<rparr>;
          call = RAllow sample_key lim \<lparr>us_tokens = 1, us_request = 1\<rparr>
      in [(1, call), (2, call), (3, call)])"

theorem rpm_never_exceeds_limit_witness:
  "int (length (in_window 3 (allowed_times ''rpm:c:m:t'' sample_calls new_in_memory_rate_limiter))) \<le> 2
 \<and> allowed_times ''rpm:c:m:t'' sample_calls new_in_memory_rate_limiter = [1, 2]"
proof
  show "int (length (in_window 3 (allowed_times ''rpm:c:m:t'' sample_calls new_in_memory_rate_limiter))) \<le> 2"
    by (rule rpm_never_exceeds_limit) (simp_all add: sample_calls_def Let_def)
  show "allowed_times ''rpm:c:m:t'' sample_calls new_in_memory_rate_limiter = [1, 2]" by code_simp
qed

subsection \<open>A refused request knows when to come back\<close>

fun rl_run :: "(gotime \<times> rl_op) list \<Rightarrow> mem_limiter \<Rightarrow> mem_limiter" where
  "rl_run [] l = l"
| "rl_run ((now, op) # ops) l = rl_run ops (fst (rl_exec now op l))"

lemma rl_run_rpm_inv:
  assumes "rpm_inv n k t0 H l" "0 < n" "\<forall>c \<in> set calls. rpm_limit_is n k (snd c)"
    and "sorted (t0 # List.map fst calls @ [now])"
  shows "\<exists>t1 H'. t1 \<le> now \<and> rpm_inv n k t1 H' (rl_run calls l)"
  using assms
proof (induction calls arbitrary: t0 H l)
  case (Cons call calls)
  obtain t op where call: "call = (t, op)" by fastforce
  obtain l' e where step: "rl_exec t op l = (l', e)" by fastforce
  from rl_exec_rpm_inv [OF Cons.prems(1) _ Cons.prems(2) _ step] Cons.prems call obtain H' where
    "rpm_inv n k t (H @ H') l'" by auto
  from Cons.IH [OF this Cons.prems(2)] Cons.prems call step show ?case by auto
qed auto

lemma rpm_refusal_recovers:
  assumes inv: "rpm_inv n (counter_key ''rpm'' key) t1 H l" and now: "t1 \<le> now" and n: "lim_rpm limits = n"
    and refused: "allow_rpm key limits now l = (l1, Some e)"
    and later: "now + d_retry (le_decision e) \<le> now'"
  shows "snd (allow_rpm key limits now' l1) = None"
proof -
  let ?k = "counter_key ''rpm'' key"
  from inv obtain c where c: "c \<le> t1 - default_window" "go_get (rpm_events l) [] ?k = dropWhile (\<lambda>e. e \<le> c) H"
    and H: "sorted H" "\<forall>x \<in> set H. x \<le> t1" "int (length (in_window now H)) \<le> n"
    unfolding rpm_inv_def by blast
  define E where "E = prune_events (go_get (rpm_events l) [] ?k) now default_window"
  have "E = filter (\<lambda>e. now - default_window < e) H"
    using c now dropWhile_le_le [OF H(1)] dropWhile_le_filter [OF H(1)] by (simp add: E_def prune_events_def)
  also have "\<dots> = in_window now H" using H(2) now by (auto simp: in_window_def intro!: filter_cong)
  finally have len: "int (length E) \<le> n" using H(3) by simp
  have pos: "0 < n" and full: "n < int (length E) + 1" and l1: "go_get (rpm_events l1) [] ?k = E"
    and retry: "d_retry (le_decision e) = retry_after E now default_window"
    using refused n by (auto simp: allow_rpm_def Let_def E_def limit_error_of_def split: if_splits)
  from full pos obtain x xs where x: "E = x # xs" by (cases E) auto
  then have "x \<le> now' - default_window"
    using retry later by (auto simp: Let_def split: if_splits)
  then have "length (prune_events E now' default_window) \<le> length xs"
    using x by (simp add: prune_events_def length_dropWhile_le)
  with len x n show ?thesis by (simp add: allow_rpm_def Let_def l1)
qed

lemma rl_allow_rpm_refusal:
  assumes "rl_allow key limits usage now l = (l1, Some e)" "d_dim (le_decision e) = DimRPM"
  shows "allow_rpm key limits now l = (l1, Some e)"
  using assms
  by (auto simp: rl_allow_def allow_tpm_def Let_def limit_error_of_def split: if_splits option.splits prod.splits)

lemma rl_allow_rpm_passed:
  assumes "rl_allow key limits usage now l = (l1, Some e)" "snd (allow_rpm key limits now l) = None"
  shows "d_dim (le_decision e) \<noteq> DimRPM"
  using assms
  by (auto simp: rl_allow_def allow_tpm_def Let_def limit_error_of_def split: if_splits option.splits prod.splits)

text \<open>
  A request refused for its rate, after any calls on a fresh limiter under one limit, only
  has to wait for the reported \<open>RetryAfter\<close>: repeated then or later, it is not refused for
  its rate.
\<close>

theorem retry_after_is_enough:
  assumes "0 < n" "\<forall>c \<in> set calls. rpm_limit_is n (counter_key ''rpm'' key) (snd c)"
    and "lim_rpm limits = n" "sorted (List.map fst calls @ [now])"
    and refused: "rl_allow key limits usage now (rl_run calls new_in_memory_rate_limiter) = (l1, Some e)"
      "d_dim (le_decision e) = DimRPM"
    and later: "now + d_retry (le_decision e) \<le> now'"
    and again: "rl_allow key limits usage now' l1 = (l2, Some e')"
  shows "d_dim (le_decision e') \<noteq> DimRPM"
proof -
  define t0 where "t0 = hd (List.map fst calls @ [now])"
  have "rpm_inv n (counter_key ''rpm'' key) t0 [] new_in_memory_rate_limiter"
    using assms(1) by (auto simp: rpm_inv_def new_in_memory_rate_limiter_def in_window_def)
  moreover have "sorted (t0 # List.map fst calls @ [now])"
    using assms(4) by (cases calls) (auto simp: t0_def)
  ultimately obtain t1 H where "t1 \<le> now"
    "rpm_inv n (counter_key ''rpm'' key) t1 H (rl_run calls new_in_memory_rate_limiter)"
    using rl_run_rpm_inv [OF _ assms(1,2)] by blast
  from rpm_refusal_recovers [OF this(2,1) assms(3) rl_allow_rpm_refusal [OF refused] later]
  show ?thesis using rl_allow_rpm_passed [OF again] by simp
qed

definition sample_tight :: rate_limits where
  "sample_tight = \<lparr>lim_rpm = 1, lim_tpm = 5, lim_concurrent = 0, lim_request = 0\<rparr>"

definition sample_big :: rate_usage where
  "sample_big = \<lparr>us_tokens = 9, us_request = 9\<rparr>"

definition sample_refused :: "mem_limiter \<times> limit_error option" where
  "sample_refused = rl_allow sample_key sample_tight sample_big 2
     (rl_run [(1, RAllow sample_key sample_tight sample_big)] new_in_memory_rate_limiter)"

theorem retry_after_is_enough_witness:
  "case rl_allow sample_key sample_tight sample_big (1 + go_minute) (fst sample_refused) of
     (l2, Some e') \<Rightarrow> d_dim (le_decision e') \<noteq> DimRPM | (l2, None) \<Rightarrow> False"
proof -
  have "map_option (\<lambda>e. (d_dim (le_decision e), d_retry (le_decision e))) (snd sample_refused)
      = Some (DimRPM, go_minute - 1)" by code_simp
  then obtain e where r: "snd sample_refused = Some e" and e: "d_dim (le_decision e) = DimRPM"
    "d_retry (le_decision e) = go_minute - 1" by auto
  have run: "sample_refused = (fst sample_refused, Some e)" by (simp add: prod_eq_iff r)
  obtain l2 r2 where again: "rl_allow sample_key sample_tight sample_big (1 + go_minute) (fst sample_refused)
      = (l2, r2)" by fastforce
  have "snd (rl_allow sample_key sample_tight sample_big (1 + go_minute) (fst sample_refused)) \<noteq> None"
    by code_simp
  with again obtain e' where e': "r2 = Some e'" by auto
  have "d_dim (le_decision e') \<noteq> DimRPM"
    by (rule retry_after_is_enough [OF _ _ _ _ run [unfolded sample_refused_def] e(1), where n = 1])
      (use e(2) e' again in \<open>auto simp: sample_tight_def sample_refused_def\<close>)
  with again e' show ?thesis by simp
qed

subsection \<open>The token window\<close>

text \<open>The times and tokens of the requests under counter key \<open>k\<close> that \<open>Allow\<close> let through.\<close>

fun allowed_tokens :: "string \<Rightarrow> (gotime \<times> rl_op) list \<Rightarrow> mem_limiter \<Rightarrow> (gotime \<times> int) list" where
  "allowed_tokens k [] l = []"
| "allowed_tokens k ((now, op) # ops) l =
     (case rl_exec now op l of
        (l', e) \<Rightarrow>
          (case op of
             RAllow key limits usage \<Rightarrow>
               if counter_key ''tpm'' key = k \<and> e = None \<and> 0 < us_tokens usage
               then [(now, us_tokens usage)] else []
           | _ \<Rightarrow> []) @ allowed_tokens k ops l')"

definition tok_sum :: "(gotime \<Rightarrow> bool) \<Rightarrow> (gotime \<times> int) list \<Rightarrow> int" where
  "tok_sum P H = sum_list (List.map snd (filter (\<lambda>x. P (fst x)) H))"

lemma tok_sum_append [simp]: "tok_sum P (H @ H') = tok_sum P H + tok_sum P H'"
  by (simp add: tok_sum_def)

lemma tok_sum_single [simp]: "tok_sum P [(t, n)] = (if P t then n else 0)" "tok_sum P [] = 0"
  by (simp_all add: tok_sum_def)

lemma tok_sum_mono:
  assumes "\<forall>x \<in> set H. 0 \<le> snd x" "\<And>t. t \<in> fst ` set H \<Longrightarrow> P t \<Longrightarrow> Q t"
  shows "tok_sum P H \<le> tok_sum Q H"
  using assms
proof (induction H)
  case (Cons x H)
  from Cons.IH [OF _ Cons.prems(2)] Cons.prems show ?case by (auto simp: tok_sum_def)
qed (simp add: tok_sum_def)

lemma tok_sum_split: "tok_sum P H = tok_sum (\<lambda>t. P t \<and> t < s) H + tok_sum (\<lambda>t. P t \<and> s \<le> t) H"
  by (induction H) (auto simp: tok_sum_def)

lemma tok_sum_none: "(\<And>t. t \<in> fst ` set H \<Longrightarrow> \<not> P t) \<Longrightarrow> tok_sum P H = 0"
  by (induction H) (auto simp: tok_sum_def)

text \<open>
  The current window holds exactly the tokens let through since it started, and the minute
  before it at most one window's worth.
\<close>

definition tpm_inv :: "int \<Rightarrow> gotime \<Rightarrow> (gotime \<times> int) list \<Rightarrow> fixed_window \<Rightarrow> bool" where
  "tpm_inv n now H w \<longleftrightarrow>
     (\<forall>x \<in> set H. 0 \<le> snd x \<and> fst x \<le> now \<and> fst x < fw_start w + default_window)
   \<and> fw_start w \<le> now \<and> 0 \<le> fw_total w \<and> fw_total w \<le> n
   \<and> tok_sum (\<lambda>x. fw_start w \<le> x) H = fw_total w
   \<and> tok_sum (\<lambda>x. fw_start w - default_window < x \<and> x < fw_start w) H \<le> n
   \<and> (\<forall>t. tok_sum (\<lambda>x. t - default_window < x \<and> x \<le> t) H \<le> 2 * n)"

lemma tpm_inv_later: "tpm_inv n t0 H w \<Longrightarrow> t0 \<le> now \<Longrightarrow> tpm_inv n now H w"
  by (auto simp: tpm_inv_def)

lemma tpm_inv_new_window:
  assumes "tpm_inv n t0 H w" "fw_start w + default_window \<le> now"
  shows "tpm_inv n now H \<lparr>fw_start = now, fw_total = 0\<rparr>"
proof -
  have pos: "\<forall>x \<in> set H. 0 \<le> snd x" "\<forall>x \<in> set H. fst x < now" "0 \<le> n"
    using assms by (auto simp: tpm_inv_def)
  have "tok_sum (\<lambda>x. now \<le> x) H = 0" using pos(2) by (intro tok_sum_none) auto
  moreover have "tok_sum (\<lambda>x. now - default_window < x \<and> x < now) H \<le> tok_sum (\<lambda>x. fw_start w \<le> x) H"
    using assms(2) by (intro tok_sum_mono [OF pos(1)]) auto
  moreover have "fst x \<le> now \<and> fst x < now + default_window" if "x \<in> set H" for x
  proof -
    have "fst x < now" using pos(2) that by blast
    moreover have "0 < default_window" by (simp add: default_window_def)
    ultimately show ?thesis by linarith
  qed
  ultimately show ?thesis using assms pos by (auto simp: tpm_inv_def)
qed

lemma tpm_inv_record:
  assumes inv: "tpm_inv n now H w" and live: "now < fw_start w + default_window"
    and tokens: "0 < tokens" "fw_total w + tokens \<le> n"
  shows "tpm_inv n now (H @ [(now, tokens)]) (w\<lparr>fw_total := fw_total w + tokens\<rparr>)"
proof -
  have pos: "\<forall>x \<in> set (H @ [(now, tokens)]). 0 \<le> snd x" and start: "fw_start w \<le> now"
    and cur: "tok_sum (\<lambda>x. fw_start w \<le> x) H = fw_total w"
    and prev: "tok_sum (\<lambda>x. fw_start w - default_window < x \<and> x < fw_start w) H \<le> n"
    and all: "tok_sum (\<lambda>x. t - default_window < x \<and> x \<le> t) H \<le> 2 * n" for t
    using inv tokens by (auto simp: tpm_inv_def)
  have "tok_sum (\<lambda>x. t - default_window < x \<and> x \<le> t) (H @ [(now, tokens)]) \<le> 2 * n" for t
  proof (cases "now \<le> t")
    case True
    have "tok_sum (\<lambda>x. t - default_window < x \<and> x \<le> t) (H @ [(now, tokens)]) =
        tok_sum (\<lambda>x. (t - default_window < x \<and> x \<le> t) \<and> x < fw_start w) (H @ [(now, tokens)]) +
        tok_sum (\<lambda>x. (t - default_window < x \<and> x \<le> t) \<and> fw_start w \<le> x) (H @ [(now, tokens)])"
      by (rule tok_sum_split)
    also have "\<dots> \<le> tok_sum (\<lambda>x. fw_start w - default_window < x \<and> x < fw_start w) (H @ [(now, tokens)]) +
        tok_sum (\<lambda>x. fw_start w \<le> x) (H @ [(now, tokens)])"
      using True start by (intro add_mono tok_sum_mono [OF pos]) auto
    also have "\<dots> \<le> n + n"
      using prev cur tokens start by (intro add_mono) auto
    finally show ?thesis by simp
  next
    case False
    then show ?thesis using all [of t] by simp
  qed
  with inv live tokens start cur prev show ?thesis by (auto simp: tpm_inv_def)
qed

definition tpm_state :: "int \<Rightarrow> string \<Rightarrow> gotime \<Rightarrow> (gotime \<times> int) list \<Rightarrow> mem_limiter \<Rightarrow> bool" where
  "tpm_state n k now H l \<longleftrightarrow>
     (case tpm_windows l k of None \<Rightarrow> H = [] | Some w \<Rightarrow> fw_start w \<noteq> zero_time \<and> tpm_inv n now H w)"

lemma allow_tpm_state:
  assumes st: "tpm_state n k t0 H l" and now: "0 < now" "t0 \<le> now" and n: "0 < n" "n < 2 ^ 62" "lim_tpm limits = n"
    and k: "counter_key ''tpm'' key = k" and tokens: "tokens < 2 ^ 62"
    and step: "allow_tpm key limits tokens now l = (l', e)"
  shows "tpm_state n k now (H @ (if e = None \<and> 0 < tokens then [(now, tokens)] else [])) l'"
proof (cases "0 < tokens")
  case False
  then show ?thesis using step st now
    by (auto simp: allow_tpm_def tpm_state_def split: option.splits intro: tpm_inv_later)
next
  case True
  define w0 where "w0 = go_get (tpm_windows l) zero_window k"
  define w where "w = (if window_expired w0 now then \<lparr>fw_start = now, fw_total = 0\<rparr> else w0)"
  have "fw_start w \<noteq> zero_time \<and> tpm_inv n now H w \<and> now < fw_start w + default_window"
  proof (cases "tpm_windows l k")
    case None
    then have "H = []" "w = \<lparr>fw_start = now, fw_total = 0\<rparr>"
      using st by (auto simp: tpm_state_def w_def w0_def go_get_def window_expired_def zero_window_def)
    then show ?thesis using now n by (simp add: tpm_inv_def zero_time_def default_window_def)
  next
    case (Some w1)
    then have w1: "w0 = w1" "fw_start w1 \<noteq> zero_time" "tpm_inv n t0 H w1"
      using st by (auto simp: tpm_state_def w0_def go_get_def)
    show ?thesis
    proof (cases "window_expired w0 now")
      case True
      then have "fw_start w1 + default_window \<le> now" using w1 by (simp add: window_expired_def)
      from tpm_inv_new_window [OF w1(3) this] show ?thesis
        using True now by (simp add: w_def zero_time_def default_window_def)
    next
      case False
      then show ?thesis using w1 tpm_inv_later [OF w1(3) now(2)] by (simp add: w_def window_expired_def)
    qed
  qed
  then have w: "fw_start w \<noteq> zero_time" "tpm_inv n now H w" "now < fw_start w + default_window" by auto
  have sum: "int64 (fw_total w + tokens) = fw_total w + tokens"
    using w(2) tokens n True by (intro int64_id) (auto simp: tpm_inv_def)
  have "l' = l\<lparr>tpm_windows := (tpm_windows l)(k \<mapsto> (if e = None then w\<lparr>fw_total := fw_total w + tokens\<rparr> else w))\<rparr>
      \<and> (e = None \<longrightarrow> fw_total w + tokens \<le> n)"
    using step n True sum k
    by (auto simp: allow_tpm_def Let_def w_def w0_def split: if_splits)
  then show ?thesis using w True tpm_inv_record [OF w(2,3) True]
    by (auto simp: tpm_state_def)
qed

fun tpm_limit_is :: "int \<Rightarrow> string \<Rightarrow> rl_op \<Rightarrow> bool" where
  "tpm_limit_is n k (RAllow key limits usage) =
     (us_tokens usage < 2 ^ 62 \<and> (counter_key ''tpm'' key = k \<longrightarrow> lim_tpm limits = n))"
| "tpm_limit_is n k _ = True"

lemma tpm_state_cong:
  "tpm_state n k t0 H l \<Longrightarrow> t0 \<le> now \<Longrightarrow> tpm_windows l' k = tpm_windows l k \<Longrightarrow> tpm_state n k now H l'"
  by (auto simp: tpm_state_def split: option.splits intro: tpm_inv_later)

lemma rl_exec_tpm_state:
  assumes st: "tpm_state n k t0 H l" and now: "0 < now" "t0 \<le> now" and n: "0 < n" "n < 2 ^ 62" "tpm_limit_is n k op"
  shows "tpm_state n k now (H @ allowed_tokens k [(now, op)] l) (fst (rl_exec now op l))"
proof (cases op)
  case (RAllow key limits usage)
  obtain l1 e1 where rpm: "allow_rpm key limits now l = (l1, e1)" by fastforce
  have frame: "tpm_windows l1 = tpm_windows l" using allow_rpm_frame(1) [of key limits now l] rpm by simp
  have same: ?thesis if "rl_exec now op l = (l', Some e)" "tpm_windows l' = tpm_windows l" for l' e
    using that RAllow tpm_state_cong [OF st now(2)] by simp
  consider (request) "0 < lim_request limits \<and> lim_request limits < request_tokens_from_usage usage"
    | (rpm) e where "\<not> (0 < lim_request limits \<and> lim_request limits < request_tokens_from_usage usage)" "e1 = Some e"
    | (tpm) "\<not> (0 < lim_request limits \<and> lim_request limits < request_tokens_from_usage usage)" "e1 = None"
    by (cases e1) auto
  then show ?thesis
  proof cases
    case tpm
    obtain l2 e2 where step: "allow_tpm key limits (if us_tokens usage < 0 then 0 else us_tokens usage) now l1 = (l2, e2)"
      by fastforce
    have exec: "rl_exec now op l = (l2, e2)" using tpm rpm step RAllow by (auto simp: rl_allow_def Let_def)
    have st1: "tpm_state n k now H l1" by (rule tpm_state_cong [OF st now(2)]) (simp add: frame)
    show ?thesis
    proof (cases "counter_key ''tpm'' key = k")
      case True
      then have "lim_tpm limits = n" "(if us_tokens usage < 0 then 0 else us_tokens usage) < 2 ^ 62"
        using n RAllow by auto
      from allow_tpm_state [OF st1 now(1) order_refl n(1,2) this(1) True this(2) step]
      show ?thesis using exec RAllow True by (auto split: if_splits)
    next
      case False
      then have "tpm_windows l2 k = tpm_windows l1 k"
        using step by (auto simp: allow_tpm_def Let_def split: if_splits)
      then show ?thesis using exec RAllow False tpm_state_cong [OF st1] by simp
    qed
  next
    case request
    then show ?thesis using same RAllow by (simp add: rl_allow_def Let_def)
  next
    case (rpm e)
    then show ?thesis using same [of l1 e] RAllow frame \<open>allow_rpm key limits now l = (l1, e1)\<close>
      by (auto simp: rl_allow_def Let_def)
  qed
qed (use tpm_state_cong [OF st now(2)] in auto)

lemma allowed_tokens_bounded:
  assumes "tpm_state n k t0 H l" "0 < n" "n < 2 ^ 62" "0 < t0"
    and "\<forall>c \<in> set calls. tpm_limit_is n k (snd c)" "sorted (t0 # List.map fst calls)"
  shows "tok_sum (\<lambda>x. t - default_window < x \<and> x \<le> t) (H @ allowed_tokens k calls l) \<le> 2 * n"
  using assms
proof (induction calls arbitrary: t0 H l)
  case Nil
  then show ?case by (auto simp: tpm_state_def tpm_inv_def split: option.splits)
next
  case (Cons call calls)
  obtain now op where call: "call = (now, op)" by fastforce
  have "tpm_state n k now (H @ allowed_tokens k [(now, op)] l) (fst (rl_exec now op l))"
    using rl_exec_tpm_state [OF Cons.prems(1) _ _ Cons.prems(2,3)] Cons.prems call by auto
  from Cons.IH [OF this Cons.prems(2,3)] Cons.prems call show ?case
    by (auto split: prod.splits)
qed

text \<open>
  The fixed token window, seen from any minute: whatever calls a fresh limiter serves
  under one limit \<open>n\<close> per counter, as long as the clock does not go back, no minute lets
  through more than \<open>2 * n\<close> tokens. (The bound is reached at the border of two windows.)
\<close>

theorem tpm_at_most_two_windows:
  assumes "0 < n" "n < 2 ^ 62" "\<forall>c \<in> set calls. tpm_limit_is n k (snd c)"
    and "sorted (List.map fst calls)" "\<forall>c \<in> set calls. 0 < fst c"
  shows "tok_sum (\<lambda>x. t - default_window < x \<and> x \<le> t)
           (allowed_tokens k calls new_in_memory_rate_limiter) \<le> 2 * n"
proof -
  define t0 where "t0 = (case calls of [] \<Rightarrow> 1 | c # _ \<Rightarrow> fst c)"
  have "sorted (t0 # List.map fst calls)" "0 < t0"
    using assms(4,5) by (cases calls; auto simp: t0_def)+
  moreover have "tpm_state n k t0 [] new_in_memory_rate_limiter"
    by (simp add: tpm_state_def new_in_memory_rate_limiter_def)
  ultimately show ?thesis using allowed_tokens_bounded [OF _ assms(1,2) _ assms(3), where H = "[]"] by simp
qed

definition sample_border :: "(gotime \<times> rl_op) list" where
  "sample_border =
     (let lim = \<lparr>lim_rpm = 0, lim_tpm = 5, lim_concurrent = 0, lim_request = 0\<rparr>;
          call = (\<lambda>n. RAllow sample_key lim \<lparr>us_tokens = n, us_request = n\<rparr>)
      in [(1, call 1), (go_minute, call 4), (go_minute + 1, call 5), (go_minute + 2, call 1)])"

theorem tpm_at_most_two_windows_witness:
  "tok_sum (\<lambda>x. go_minute + 1 - default_window < x \<and> x \<le> go_minute + 1)
     (allowed_tokens ''tpm:c:m:t'' sample_border new_in_memory_rate_limiter) \<le> 10
 \<and> allowed_tokens ''tpm:c:m:t'' sample_border new_in_memory_rate_limiter
     = [(1, 1), (go_minute, 4), (go_minute + 1, 5)]"
proof
  show "tok_sum (\<lambda>x. go_minute + 1 - default_window < x \<and> x \<le> go_minute + 1)
     (allowed_tokens ''tpm:c:m:t'' sample_border new_in_memory_rate_limiter) \<le> 10"
    using tpm_at_most_two_windows [of 5 sample_border "''tpm:c:m:t''" "go_minute + 1"]
    by (simp add: sample_border_def Let_def go_minute_def go_second_def)
  show "allowed_tokens ''tpm:c:m:t'' sample_border new_in_memory_rate_limiter
     = [(1, 1), (go_minute, 4), (go_minute + 1, 5)]" by code_simp
qed

subsection \<open>Requests in flight\<close>

text \<open>Calls on a slot counter: take a slot under a limit, or give one back.\<close>

datatype 'k slot_op = Acquire 'k int | Release 'k

text \<open>
  Runs calls, and counts for slot \<open>c\<close> the acquisitions that succeeded less the releases.
\<close>

fun slot_run ::
  "('k \<Rightarrow> int \<Rightarrow> 's \<Rightarrow> 's \<times> bool) \<Rightarrow> ('k \<Rightarrow> 's \<Rightarrow> 's) \<Rightarrow> ('k \<Rightarrow> 'c) \<Rightarrow> 'c \<Rightarrow> 'k slot_op list \<Rightarrow> 's \<times> int \<Rightarrow> 's \<times> int"
where
  "slot_run acquire release slot c [] (s, n) = (s, n)"
| "slot_run acquire release slot c (Acquire k m # ops) (s, n) =
     (case acquire k m s of
        (s', ok) \<Rightarrow> slot_run acquire release slot c ops (s', if ok \<and> slot k = c then n + 1 else n))"
| "slot_run acquire release slot c (Release k # ops) (s, n) =
     slot_run acquire release slot c ops (release k s, if slot k = c then n - 1 else n)"

fun slot_limit_is :: "int \<Rightarrow> ('k \<Rightarrow> 'c) \<Rightarrow> 'c \<Rightarrow> 'k slot_op \<Rightarrow> bool" where
  "slot_limit_is m slot c (Acquire k m') = (slot k = c \<longrightarrow> m' = m)"
| "slot_limit_is m slot c (Release k) = True"

locale slot_counter =
  fixes acquire :: "'k \<Rightarrow> int \<Rightarrow> 's \<Rightarrow> 's \<times> bool"
    and release :: "'k \<Rightarrow> 's \<Rightarrow> 's"
    and slot :: "'k \<Rightarrow> 'c"
    and in_use :: "'s \<Rightarrow> 'c \<Rightarrow> int"
  assumes acquired: "0 < m \<Longrightarrow> acquire k m s = (s', True) \<Longrightarrow>
      in_use s (slot k) < m \<and> in_use s' (slot k) = in_use s (slot k) + 1"
    and refused: "0 < m \<Longrightarrow> acquire k m s = (s', False) \<Longrightarrow> m \<le> in_use s (slot k) \<and> s' = s"
    and released: "in_use (release k s) (slot k) = max 0 (in_use s (slot k) - 1)"
    and acquire_frame: "c \<noteq> slot k \<Longrightarrow> in_use (fst (acquire k m s)) c = in_use s c"
    and release_frame: "c \<noteq> slot k \<Longrightarrow> in_use (release k s) c = in_use s c"
begin

lemma slot_run_bounded:
  assumes "0 < m" "\<forall>op \<in> set ops. slot_limit_is m slot c op"
    and "in_use s c \<le> m" "n \<le> in_use s c"
    and "slot_run acquire release slot c ops (s, n) = (s', n')"
  shows "n' \<le> in_use s' c \<and> in_use s' c \<le> m"
  using assms
proof (induction ops arbitrary: s n)
  case (Cons op ops)
  show ?case
  proof (cases op)
    case (Acquire k m')
    obtain s1 ok where step: "acquire k m' s = (s1, ok)" by fastforce
    have "in_use s1 c \<le> m \<and> (if ok \<and> slot k = c then n + 1 else n) \<le> in_use s1 c"
    proof (cases "slot k = c")
      case True
      then have "m' = m" using Cons.prems(2) Acquire by simp
      with True step acquired [of m k s s1] refused [of m k s s1] Cons.prems(1,3,4) show ?thesis
        by (cases ok) auto
    next
      case False
      with acquire_frame [of c k m' s] step Cons.prems(3,4) show ?thesis by auto
    qed
    with Cons.IH [of s1 "if ok \<and> slot k = c then n + 1 else n"] Cons.prems Acquire step show ?thesis
      by (simp split: prod.splits)
  next
    case (Release k)
    have "in_use (release k s) c \<le> m \<and> (if slot k = c then n - 1 else n) \<le> in_use (release k s) c"
      using released [of k s] release_frame [of c k s] Cons.prems(1,3,4) by (cases "slot k = c") auto
    with Cons.IH [of "release k s" "if slot k = c then n - 1 else n"] Cons.prems Release show ?thesis
      by simp
  qed
qed simp

text \<open>The next request gets a slot exactly while fewer than \<open>m\<close> are in use.\<close>

lemma acquire_iff:
  assumes "0 < m"
  shows "snd (acquire k m s) \<longleftrightarrow> in_use s (slot k) < m"
  using acquired [OF assms, of k s] refused [OF assms, of k s]
  by (cases "acquire k m s"; cases "snd (acquire k m s)") auto

lemma acquire_after_release:
  assumes "0 < m" "in_use s (slot k) \<le> m"
  shows "snd (acquire k m (release k s))"
  using acquire_iff [OF assms(1)] released [of k s] assms by simp

end

text \<open>\<open>Begin\<close> and \<open>End\<close> of the limiter, as a slot counter.\<close>

definition rl_acquire :: "rate_key \<Rightarrow> int \<Rightarrow> mem_limiter \<Rightarrow> mem_limiter \<times> bool" where
  "rl_acquire key m l =
     (case rl_begin key \<lparr>lim_rpm = 0, lim_tpm = 0, lim_concurrent = m, lim_request = 0\<rparr> l of
        (l', e) \<Rightarrow> (l', e = None))"

definition rl_in_use :: "mem_limiter \<Rightarrow> string \<Rightarrow> int" where
  "rl_in_use l k = go_get (concurrent l) 0 k"

interpretation rl_slots: slot_counter rl_acquire rl_end "counter_key ''concurrent''" rl_in_use
  by unfold_locales
    (auto simp: rl_acquire_def rl_begin_def rl_end_def rl_in_use_def Let_def split: if_splits)

text \<open>
  From a fresh limiter, any interleaving of \<open>Begin\<close> and \<open>End\<close> under one positive limit
  \<open>m\<close> of a counter: the begun requests that have not ended are never more than \<open>m\<close>.
\<close>

theorem concurrent_requests_bounded:
  assumes "0 < m" "\<forall>op \<in> set ops. slot_limit_is m (counter_key ''concurrent'') c op"
  shows "snd (slot_run rl_acquire rl_end (counter_key ''concurrent'') c ops (new_in_memory_rate_limiter, 0)) \<le> m"
  using rl_slots.slot_run_bounded [OF assms, of new_in_memory_rate_limiter 0] assms(1)
  by (cases "slot_run rl_acquire rl_end (counter_key ''concurrent'') c ops (new_in_memory_rate_limiter, 0)")
    (fastforce simp: rl_in_use_def new_in_memory_rate_limiter_def)

theorem concurrent_requests_bounded_witness:
  "snd (slot_run rl_acquire rl_end (counter_key ''concurrent'') ''concurrent:c:m:t''
      [Acquire sample_key 2, Acquire sample_key 2, Acquire sample_key 2] (new_in_memory_rate_limiter, 0)) \<le> 2"
  by (rule concurrent_requests_bounded) simp_all

subsection \<open>\<open>Check\<close> foretells \<open>Allow\<close>\<close>

lemma highest_projected_allowed [simp]:
  "d_allowed a \<Longrightarrow> d_allowed b \<Longrightarrow> d_allowed (highest_projected_usage a b n)"
  by (simp add: highest_projected_usage_def Let_def)

lemma check_concurrent_other:
  "d_dim (check_concurrent key limits l best) \<noteq> DimConcurrent \<Longrightarrow> check_concurrent key limits l best = best"
  by (auto simp: check_concurrent_def Let_def split: if_splits)

lemma check_rpm_agrees:
  assumes "d_allowed best" "allow_rpm key limits now l = (l1, e)"
  shows "case e of None \<Rightarrow> d_allowed (check_rpm key limits now l best)
         | Some err \<Rightarrow> check_rpm key limits now l best = le_decision err \<and> \<not> d_allowed (le_decision err)"
  using assms
  by (auto simp: allow_rpm_def check_rpm_def Let_def limit_error_of_def no_decision_def split: if_splits)

lemma check_tpm_agrees:
  assumes "d_allowed best" "tpm_windows l1 = tpm_windows l"
    and "allow_tpm key limits (if tokens < 0 then 0 else tokens) now l1 = (l2, e)"
  shows "case e of None \<Rightarrow> d_allowed (check_tpm key limits tokens now l best)
         | Some err \<Rightarrow> check_tpm key limits tokens now l best =
               (if window_expired (go_get (tpm_windows l) zero_window (counter_key ''tpm'' key)) now
                then (le_decision err)\<lparr>d_retry := 0\<rparr> else le_decision err)
             \<and> \<not> d_allowed (le_decision err)"
  using assms
  by (auto simp: allow_tpm_def check_tpm_def Let_def limit_error_of_def no_decision_def split: if_splits)

text \<open>
  \<open>Check\<close>, which changes nothing, foretells \<open>Allow\<close> at the same instant, unless it refuses
  for concurrency, which \<open>Allow\<close> does not look at: \<open>Allow\<close> lets the request through exactly
  when \<open>Check\<close> does, and refuses it with \<open>Check\<close>'s decision, except that for a token count
  above the limit of an expired window \<open>Check\<close> reports a \<open>RetryAfter\<close> of zero.
\<close>

theorem check_foretells_allow:
  assumes "d_dim (rl_check key limits usage now l) \<noteq> DimConcurrent"
  shows "case snd (rl_allow key limits usage now l) of
           None \<Rightarrow> d_allowed (rl_check key limits usage now l)
         | Some err \<Rightarrow> \<not> d_allowed (rl_check key limits usage now l)
             \<and> (rl_check key limits usage now l = le_decision err
                \<or> d_dim (le_decision err) = DimTPM
                  \<and> rl_check key limits usage now l = (le_decision err)\<lparr>d_retry := 0\<rparr>)"
proof (cases "0 < lim_request limits \<and> lim_request limits < request_tokens_from_usage usage")
  case True
  then show ?thesis by (simp add: rl_allow_def rl_check_def Let_def limit_error_of_def no_decision_def)
next
  case False
  let ?rpm = "check_rpm key limits now l (no_decision\<lparr>d_allowed := True\<rparr>)"
  let ?tpm = "check_tpm key limits (us_tokens usage) now l ?rpm"
  obtain l1 e1 where rpm: "allow_rpm key limits now l = (l1, e1)" by fastforce
  obtain l2 e2 where
    tpm: "allow_tpm key limits (if us_tokens usage < 0 then 0 else us_tokens usage) now l1 = (l2, e2)"
    by fastforce
  have frame: "tpm_windows l1 = tpm_windows l" using allow_rpm_frame(1) [of key limits now l] rpm by simp
  have dim: "\<forall>err. e2 = Some err \<longrightarrow> d_dim (le_decision err) = DimTPM"
    using tpm by (auto simp: allow_tpm_def Let_def limit_error_of_def split: if_splits)
  note agree = check_rpm_agrees [OF _ rpm, of "no_decision\<lparr>d_allowed := True\<rparr>"]
    check_tpm_agrees [OF _ frame tpm, of ?rpm]
  have check: "rl_check key limits usage now l =
      (if \<not> d_allowed ?rpm then ?rpm else if \<not> d_allowed ?tpm then ?tpm
       else check_concurrent key limits l ?tpm)"
    using False by (auto simp: rl_check_def Let_def)
  have allow: "snd (rl_allow key limits usage now l) = (case e1 of Some e \<Rightarrow> Some e | None \<Rightarrow> e2)"
    using False rpm tpm by (auto simp: rl_allow_def Let_def split: option.splits)
  show ?thesis
  proof (cases e1)
    case (Some err)
    then show ?thesis using agree(1) check allow by (simp add: no_decision_def)
  next
    case None
    then have ok: "d_allowed ?rpm" using agree(1) by simp
    show ?thesis
    proof (cases e2)
      case (Some err)
      then show ?thesis using agree(2) [OF ok] ok check allow None dim by (simp split: if_splits)
    next
      case allowed: None
      then have tpm_ok: "d_allowed ?tpm" using agree(2) [OF ok] by simp
      then have "rl_check key limits usage now l = check_concurrent key limits l ?tpm"
        using check ok by simp
      then have "rl_check key limits usage now l = ?tpm"
        using assms check_concurrent_other [of key limits l ?tpm] by simp
      with tpm_ok allow None allowed show ?thesis by simp
    qed
  qed
qed

theorem check_foretells_allow_witness:
  "snd (rl_allow sample_key sample_tight sample_big 7 new_in_memory_rate_limiter) \<noteq> None
 \<and> \<not> d_allowed (rl_check sample_key sample_tight sample_big 7 new_in_memory_rate_limiter)"
proof -
  have "d_dim (rl_check sample_key sample_tight sample_big 7 new_in_memory_rate_limiter) = DimTPM"
    "snd (rl_allow sample_key sample_tight sample_big 7 new_in_memory_rate_limiter) \<noteq> None" by code_simp+
  with check_foretells_allow [of sample_key sample_tight sample_big 7 new_in_memory_rate_limiter]
  show ?thesis by auto
qed

subsection \<open>Counters that coincide\<close>

text \<open>
  Two keys share a counter only if they agree, as long as their channel and model hold no
  colon; a colon in a model name makes keys of different channels or tokens share one.
\<close>

theorem counter_keys_distinct:
  assumes "CHR '':'' \<notin> set (rk_channel a)" "CHR '':'' \<notin> set (rk_model a)"
    and "CHR '':'' \<notin> set (rk_channel b)" "CHR '':'' \<notin> set (rk_model b)"
  shows "counter_key kind a = counter_key kind b \<longleftrightarrow>
           rk_channel a = rk_channel b \<and> rk_model a = rk_model b \<and> rk_token a = rk_token b"
proof -
  have "counter_key kind a = counter_key kind b \<longleftrightarrow>
      rk_channel a @ [CHR '':''] @ rk_model a @ [CHR '':''] @ rk_token a
    = rk_channel b @ [CHR '':''] @ rk_model b @ [CHR '':''] @ rk_token b"
    by (simp add: counter_key_simp)
  then show ?thesis
    by (simp only: append_colon_inj [OF assms(1,3)] append_colon_inj [OF assms(2,4)])
qed

theorem counter_keys_distinct_witness:
  "counter_key ''rpm'' sample_key \<noteq> counter_key ''rpm'' (sample_key\<lparr>rk_token := ''u''\<rparr>)
 \<and> counter_key ''rpm'' \<lparr>rk_channel = ''c'', rk_model = ''ft:gpt'', rk_token = ''t''\<rparr>
     = counter_key ''rpm'' \<lparr>rk_channel = ''c'', rk_model = ''ft'', rk_token = ''gpt:t''\<rparr>"
  using counter_keys_distinct [of sample_key "sample_key\<lparr>rk_token := ''u''\<rparr>" "''rpm''"]
  by (simp add: sample_key_def counter_key_simp)

end
