(* ===== verification/Usage_Limits.thy ===== *)
theory Usage_Limits
  imports Ledger_Properties Rate_Limiter
begin

text \<open>
  Usage limits in \<open>src/server/internal/quota/service.go\<close>: the limit settings of an
  organization or a user (\<open>concurrency_limits\<close> and \<open>token_rate_limits\<close>), the packages and
  subscriptions that raise a request's token cap, and the leases and token reservations that
  the service takes from its rate limiter, an interface given here as a record of functions.

  Strings are ordered by bytes; the ordering of rows by the database may use another
  collation, which only changes the order of the user rows in a listing.
\<close>

subsection \<open>Types\<close>

datatype usage_dimension = UsageConcurrent | UsageTokens | UsageRequestTokens

record usage_limit =
  ul_org :: string
  ul_user :: string
  ul_concurrent :: int
  ul_window :: int
  ul_request :: int

record usage_settings =
  se_org :: string
  se_user :: string
  se_mode :: string
  se_concurrent :: int
  se_window_seconds :: int
  se_window_tokens :: int
  se_request_tokens :: int
  se_updated :: gotime

record usage_lease =
  ll_org :: string
  ll_user :: string

record usage_limit_error =
  ue_dim :: usage_dimension
  ue_limit :: int
  ue_current :: int
  ue_remaining :: int
  ue_retry :: duration

text \<open>What the \<open>RateLimiter\<close> interface can return, and what the service makes of it.\<close>

datatype limiter_error = LimitErr limit_error | RateLimitedErr | OtherErr string

datatype service_error = UsageErr usage_limit_error | LimiterFailed limiter_error | QuotaErr quota_error

record 'l rate_limiter =
  do_allow :: "rate_key \<Rightarrow> rate_limits \<Rightarrow> rate_usage \<Rightarrow> gotime \<Rightarrow> 'l \<Rightarrow> 'l \<times> limiter_error option"
  do_begin :: "rate_key \<Rightarrow> rate_limits \<Rightarrow> 'l \<Rightarrow> 'l \<times> limiter_error option"
  do_end :: "rate_key \<Rightarrow> 'l \<Rightarrow> 'l \<times> limiter_error option"

definition in_memory :: "mem_limiter rate_limiter" where
  "in_memory =
     \<lparr>do_allow = (\<lambda>key limits usage now l. apsnd (map_option LimitErr) (rl_allow key limits usage now l)),
      do_begin = (\<lambda>key limits l. apsnd (map_option LimitErr) (rl_begin key limits l)),
      do_end = (\<lambda>key l. (rl_end key l, None))\<rparr>"

subsection \<open>Leases and token reservations\<close>

definition validate_identity :: "usage_limit \<Rightarrow> quota_error option" where
  "validate_identity limit = (if ul_org limit = [] then Some OrganizationRequired else None)"

definition usage_limit_rate_key :: "usage_limit \<Rightarrow> rate_key" where
  "usage_limit_rate_key limit =
     \<lparr>rk_channel = ''quota'', rk_model = ul_org limit,
      rk_token = (if ul_user limit = [] then ul_org limit else ul_user limit)\<rparr>"

definition usage_limit_error_of :: "limiter_error \<Rightarrow> usage_dimension \<Rightarrow> service_error" where
  "usage_limit_error_of err dm =
     (case err of
        LimitErr e \<Rightarrow>
          UsageErr \<lparr>ue_dim = dm, ue_limit = d_limit (le_decision e), ue_current = d_current (le_decision e),
                    ue_remaining = d_remaining (le_decision e), ue_retry = d_retry (le_decision e)\<rparr>
      | RateLimitedErr \<Rightarrow>
          UsageErr \<lparr>ue_dim = dm, ue_limit = 0, ue_current = 0, ue_remaining = 0, ue_retry = 0\<rparr>
      | OtherErr s \<Rightarrow> LimiterFailed err)"

definition usage_dimension_of :: "limiter_error \<Rightarrow> usage_dimension \<Rightarrow> usage_dimension" where
  "usage_dimension_of err fallback =
     (case err of
        LimitErr e \<Rightarrow> if d_dim (le_decision e) = DimRequestTokens then UsageRequestTokens else fallback
      | _ \<Rightarrow> fallback)"

definition lease_of :: "usage_limit \<Rightarrow> usage_lease" where
  "lease_of limit = \<lparr>ll_org = ul_org limit, ll_user = ul_user limit\<rparr>"

definition begin_usage ::
  "'l rate_limiter option \<Rightarrow> usage_limit \<Rightarrow> 'l \<Rightarrow> 'l \<times> (service_error + usage_lease)" where
  "begin_usage limiter limit l =
     (case validate_identity limit of
        Some e \<Rightarrow> (l, Inl (QuotaErr e))
      | None \<Rightarrow>
          (case limiter of
             None \<Rightarrow> (l, Inr (lease_of limit))
           | Some rl \<Rightarrow>
               if ul_concurrent limit \<le> 0 then (l, Inr (lease_of limit))
               else
                 (case do_begin rl (usage_limit_rate_key limit)
                         \<lparr>lim_rpm = 0, lim_tpm = 0, lim_concurrent = ul_concurrent limit, lim_request = 0\<rparr> l of
                    (l', Some err) \<Rightarrow> (l', Inl (usage_limit_error_of err UsageConcurrent))
                  | (l', None) \<Rightarrow> (l', Inr (lease_of limit)))))"

definition end_usage ::
  "'l rate_limiter option \<Rightarrow> usage_lease option \<Rightarrow> 'l \<Rightarrow> 'l \<times> limiter_error option" where
  "end_usage limiter lease l =
     (case lease of
        None \<Rightarrow> (l, None)
      | Some ll \<Rightarrow>
          (case limiter of
             None \<Rightarrow> (l, None)
           | Some rl \<Rightarrow>
               do_end rl (usage_limit_rate_key \<lparr>ul_org = ll_org ll, ul_user = ll_user ll,
                  ul_concurrent = 0, ul_window = 0, ul_request = 0\<rparr>) l))"

definition reserve_usage_tokens ::
  "'l rate_limiter option \<Rightarrow> usage_limit \<Rightarrow> int \<Rightarrow> gotime \<Rightarrow> 'l \<Rightarrow> 'l \<times> service_error option" where
  "reserve_usage_tokens limiter limit tokens now l =
     (case validate_identity limit of
        Some e \<Rightarrow> (l, Some (QuotaErr e))
      | None \<Rightarrow>
          (case limiter of
             None \<Rightarrow> (l, None)
           | Some rl \<Rightarrow>
               if tokens \<le> 0 \<or> (ul_window limit \<le> 0 \<and> ul_request limit \<le> 0) then (l, None)
               else
                 (case do_allow rl (usage_limit_rate_key limit)
                         \<lparr>lim_rpm = 0, lim_tpm = ul_window limit, lim_concurrent = 0,
                          lim_request = ul_request limit\<rparr>
                         \<lparr>us_tokens = tokens, us_request = tokens\<rparr> now l of
                    (l', Some err) \<Rightarrow> (l', Some (usage_limit_error_of err (usage_dimension_of err UsageTokens)))
                  | (l', None) \<Rightarrow> (l', None))))"

subsection \<open>Settings\<close>

definition usage_limit_quota_mode :: "string \<Rightarrow> string" where
  "usage_limit_quota_mode user = (if user = [] then ''organization'' else ''user'')"

definition normalize_usage_settings :: "usage_settings \<Rightarrow> quota_error + usage_settings" where
  "normalize_usage_settings s =
     (if se_org s = [] then Inl OrganizationRequired
      else if se_concurrent s < 0 then Inl NegativeConcurrent
      else if se_window_tokens s < 0 then Inl NegativeWindowTokens
      else if se_request_tokens s < 0 then Inl NegativeRequestTokens
      else if se_concurrent s = 0 \<and> se_window_tokens s = 0 \<and> se_request_tokens s = 0 then Inl NoLimitSet
      else if se_window_seconds s < 0 then Inl NegativeWindowSeconds
      else
        (let s1 = (if se_window_seconds s = 0 then s\<lparr>se_window_seconds := 60\<rparr> else s)
         in if se_mode s = [] then Inr (s1\<lparr>se_mode := usage_limit_quota_mode (se_user s)\<rparr>)
            else if se_mode s = ''organization'' then
              (if se_user s \<noteq> [] then Inl UserMustBeEmpty else Inr s1)
            else if se_mode s = ''user'' then
              (if se_user s = [] then Inl UserRequired else Inr s1)
            else Inl BadQuotaMode))"

text \<open>
  \<open>INSERT ... ON CONFLICT DO UPDATE\<close> on the unique index of the table: the organization for
  a NULL user, the organization and the user otherwise.
\<close>

definition upsert_concurrency_limit ::
  "quota_env \<Rightarrow> usage_settings \<Rightarrow> gotime \<Rightarrow> quota_db \<Rightarrow> quota_error + quota_db" where
  "upsert_concurrency_limit env s now tx =
     (case e_new_id env ''clim'' of
        None \<Rightarrow> Inl IdFailure
      | Some nid \<Rightarrow>
          if e_fault env CallUpsertConcurrency then Inl (DbFault CallUpsertConcurrency)
          else
            (let user = nullif_empty (se_user s);
                 res = sql_update (\<lambda>r. cl_org r = se_org s \<and> cl_user r = user)
                         (\<lambda>r. r\<lparr>cl_max := se_concurrent s, cl_updated := db_time now\<rparr>) (conc_limits tx)
             in if 0 < snd res then Inr (tx\<lparr>conc_limits := fst res\<rparr>)
                else Inr (tx\<lparr>conc_limits := conc_limits tx @
                       [\<lparr>cl_org = se_org s, cl_user = user, cl_max = se_concurrent s, cl_updated = db_time now\<rparr>]\<rparr>)))"

definition token_row_of :: "usage_settings \<Rightarrow> int \<Rightarrow> gotime \<Rightarrow> token_rate_row \<Rightarrow> token_rate_row" where
  "token_row_of s window now r =
     r\<lparr>tl_window := window, tl_max_window := se_window_tokens s,
       tl_max_request := se_request_tokens s, tl_updated := db_time now\<rparr>"

definition upsert_token_rate_limit ::
  "quota_env \<Rightarrow> usage_settings \<Rightarrow> gotime \<Rightarrow> quota_db \<Rightarrow> quota_error + quota_db" where
  "upsert_token_rate_limit env s now tx =
     (case e_new_id env ''tlim'' of
        None \<Rightarrow> Inl IdFailure
      | Some nid \<Rightarrow>
          (let window = (if (0 < se_window_tokens s \<or> 0 < se_request_tokens s) \<and> se_window_seconds s \<le> 0
                         then 60 else se_window_seconds s);
               user = nullif_empty (se_user s);
               res = sql_update (\<lambda>r. tl_org r = se_org s \<and> tl_user r = user)
                       (token_row_of s window now) (token_limits tx)
           in if e_fault env CallUpsertTokens then Inl (DbFault CallUpsertTokens)
              else if 0 < snd res then Inr (tx\<lparr>token_limits := fst res\<rparr>)
              else Inr (tx\<lparr>token_limits := token_limits tx @
                     [token_row_of s window now \<lparr>tl_org = se_org s, tl_user = user, tl_window = 0,
                        tl_max_window = 0, tl_max_request = 0, tl_updated = db_time now\<rparr>]\<rparr>)))"

definition store_save_usage_settings ::
  "quota_env \<Rightarrow> usage_settings \<Rightarrow> quota_db \<Rightarrow> quota_db \<times> (quota_error + usage_settings)" where
  "store_save_usage_settings env s db =
     (case normalize_usage_settings s of
        Inl e \<Rightarrow> (db, Inl e)
      | Inr n0 \<Rightarrow>
          (let n = n0\<lparr>se_updated := e_now env\<rparr>
           in if e_fault env CallBegin then (db, Inl (DbFault CallBegin))
              else case upsert_concurrency_limit env n (e_now env) db of
                Inl e \<Rightarrow> (db, Inl e)
              | Inr tx \<Rightarrow>
                  (case upsert_token_rate_limit env n (e_now env) tx of
                     Inl e \<Rightarrow> (db, Inl e)
                   | Inr tx2 \<Rightarrow>
                       if e_fault env CallCommit then (db, Inl (DbFault CallCommit)) else (tx2, Inr n))))"

definition save_usage_settings ::
  "quota_env \<Rightarrow> usage_settings \<Rightarrow> quota_db \<Rightarrow> quota_db \<times> (quota_error + usage_settings)" where
  "save_usage_settings env s db =
     (case normalize_usage_settings s of
        Inl e \<Rightarrow> (db, Inl e)
      | Inr n \<Rightarrow> store_save_usage_settings env n db)"

text \<open>A row of the full outer join of the two tables, and its columns.\<close>

definition join_matches :: "concurrency_row \<Rightarrow> token_rate_row \<Rightarrow> bool" where
  "join_matches c t \<longleftrightarrow> cl_org c = tl_org t \<and> coalesce_empty (cl_user c) = coalesce_empty (tl_user t)"

definition limit_join ::
  "concurrency_row list \<Rightarrow> token_rate_row list \<Rightarrow> (concurrency_row option \<times> token_rate_row option) list" where
  "limit_join cs ts =
     concat (List.map (\<lambda>c. let m = filter (join_matches c) ts in
        if m = [] then [(Some c, None)] else List.map (\<lambda>t. (Some c, Some t)) m) cs)
   @ List.map (\<lambda>t. (None, Some t)) (filter (\<lambda>t. \<not> list_ex (\<lambda>c. join_matches c t) cs) ts)"

fun settings_of_join :: "concurrency_row option \<times> token_rate_row option \<Rightarrow> usage_settings" where
  "settings_of_join (Some c, Some t) =
     \<lparr>se_org = cl_org c, se_user = coalesce_empty (if cl_user c = None then tl_user t else cl_user c),
      se_mode = usage_limit_quota_mode (coalesce_empty (if cl_user c = None then tl_user t else cl_user c)),
      se_concurrent = cl_max c, se_window_seconds = tl_window t, se_window_tokens = tl_max_window t,
      se_request_tokens = tl_max_request t, se_updated = max (cl_updated c) (tl_updated t)\<rparr>"
| "settings_of_join (Some c, None) =
     \<lparr>se_org = cl_org c, se_user = coalesce_empty (cl_user c),
      se_mode = usage_limit_quota_mode (coalesce_empty (cl_user c)),
      se_concurrent = cl_max c, se_window_seconds = 0, se_window_tokens = 0,
      se_request_tokens = 0, se_updated = cl_updated c\<rparr>"
| "settings_of_join (None, Some t) =
     \<lparr>se_org = tl_org t, se_user = coalesce_empty (tl_user t),
      se_mode = usage_limit_quota_mode (coalesce_empty (tl_user t)),
      se_concurrent = 0, se_window_seconds = tl_window t, se_window_tokens = tl_max_window t,
      se_request_tokens = tl_max_request t, se_updated = tl_updated t\<rparr>"
| "settings_of_join (None, None) =
     \<lparr>se_org = [], se_user = [], se_mode = [], se_concurrent = 0, se_window_seconds = 0,
      se_window_tokens = 0, se_request_tokens = 0, se_updated = 0\<rparr>"

text \<open>
  The empty user sorts before every other, so the sort by user puts the organization's row
  first, as the \<open>CASE\<close> of the query does.
\<close>

definition list_usage_settings ::
  "quota_env \<Rightarrow> string \<Rightarrow> quota_db \<Rightarrow> quota_error + usage_settings list" where
  "list_usage_settings env org db =
     (if e_fault env CallListLimits then Inl (DbFault CallListLimits)
      else Inr (sort_key se_user (filter (\<lambda>s. se_org s = org)
          (List.map settings_of_join (limit_join (conc_limits db) (token_limits db))))))"

definition service_list_usage_settings ::
  "quota_env \<Rightarrow> string \<Rightarrow> quota_db \<Rightarrow> quota_error + usage_settings list" where
  "service_list_usage_settings env org db =
     (if org = [] then Inl OrganizationRequired else list_usage_settings env org db)"

text \<open>\<open>ResolveUsageLimitSettings\<close>: the loop returns at the user's row, and remembers the last row without a user.\<close>

fun resolve_loop :: "string \<Rightarrow> usage_settings list \<Rightarrow> usage_settings option \<Rightarrow> usage_settings option" where
  "resolve_loop user [] organization = organization"
| "resolve_loop user (s # ss) organization =
     (if se_user s = user \<and> user \<noteq> [] then Some s
      else resolve_loop user ss (if se_user s = [] then Some s else organization))"

definition resolve_usage_settings ::
  "quota_env \<Rightarrow> string \<Rightarrow> string \<Rightarrow> quota_db \<Rightarrow> quota_error + usage_settings" where
  "resolve_usage_settings env org user db =
     (case list_usage_settings env org db of
        Inl e \<Rightarrow> Inl e
      | Inr ss \<Rightarrow>
          (case resolve_loop user ss None of
             Some s \<Rightarrow> Inr s
           | None \<Rightarrow> Inr \<lparr>se_org = org, se_user = user, se_mode = usage_limit_quota_mode user,
               se_concurrent = 0, se_window_seconds = 0, se_window_tokens = 0,
               se_request_tokens = 0, se_updated = zero_time\<rparr>))"

subsection \<open>Packages and subscriptions\<close>

text \<open>\<open>ORDER BY sort_order ASC, created_at DESC\<close>.\<close>

definition list_packages :: "bool \<Rightarrow> quota_db \<Rightarrow> quota_package list" where
  "list_packages active_only db =
     sort_key pk_sort_order (sort_key (\<lambda>p. - pk_created p)
       (filter (\<lambda>p. active_only \<longrightarrow> pk_is_active p \<and> pk_is_public p) (packages db)))"

definition get_package :: "quota_env \<Rightarrow> string \<Rightarrow> quota_db \<Rightarrow> quota_error + quota_package option" where
  "get_package env pid db =
     (if e_fault env CallGetPackage then Inl (DbFault CallGetPackage)
      else Inr (sql_select (\<lambda>p. pk_id p = pid) (packages db)))"

definition create_subscription :: "quota_subscription \<Rightarrow> quota_db \<Rightarrow> quota_db" where
  "create_subscription sub db = db\<lparr>subscriptions := subscriptions db @ [sub]\<rparr>"

definition list_active_subscriptions ::
  "quota_env \<Rightarrow> string \<Rightarrow> string \<Rightarrow> quota_db \<Rightarrow> quota_error + quota_subscription list" where
  "list_active_subscriptions env user org db =
     (if e_fault env CallListSubscriptions then Inl (DbFault CallListSubscriptions)
      else Inr (sort_key (\<lambda>s. - su_created s)
        (filter (\<lambda>s. su_user s = user \<and> su_org s = org \<and> su_status s = ''active'') (subscriptions db))))"

text \<open>The loop of \<open>resolveSubscriptionRequestTokenCap\<close>: one subscription.\<close>

definition raise_cap :: "quota_env \<Rightarrow> quota_db \<Rightarrow> quota_subscription \<Rightarrow> int \<Rightarrow> int" where
  "raise_cap env db sub cap =
     (if su_package sub = [] then cap
      else case get_package env (su_package sub) db of
        Inl e \<Rightarrow> cap
      | Inr None \<Rightarrow> cap
      | Inr (Some pkg) \<Rightarrow>
          if \<not> pk_is_active pkg then cap
          else if cap < pk_max_tokens_per_request pkg then pk_max_tokens_per_request pkg else cap)"

definition subscription_request_cap ::
  "quota_env \<Rightarrow> string \<Rightarrow> string \<Rightarrow> int \<Rightarrow> quota_db \<Rightarrow> int" where
  "subscription_request_cap env org user configured db =
     (if 0 < configured \<or> user = [] then configured
      else case list_active_subscriptions env user org db of
        Inl e \<Rightarrow> configured
      | Inr subs \<Rightarrow> fold (raise_cap env db) subs configured)"

definition resolve_usage_limit ::
  "quota_env \<Rightarrow> string \<Rightarrow> string \<Rightarrow> quota_db \<Rightarrow> quota_error + usage_limit" where
  "resolve_usage_limit env org user db =
     (if org = [] then Inl OrganizationRequired
      else case resolve_usage_settings env org user db of
        Inl e \<Rightarrow> Inl e
      | Inr s \<Rightarrow> Inr \<lparr>ul_org = org, ul_user = se_user s, ul_concurrent = se_concurrent s,
          ul_window = se_window_tokens s,
          ul_request = subscription_request_cap env org user (se_request_tokens s) db\<rparr>)"

subsection \<open>Saved settings are the ones that resolve\<close>

text \<open>The unique indexes of the two tables; a stored user is never the empty string.\<close>

definition limit_tables_ok :: "quota_db \<Rightarrow> bool" where
  "limit_tables_ok db \<longleftrightarrow>
     distinct (List.map (\<lambda>c. (cl_org c, cl_user c)) (conc_limits db))
   \<and> distinct (List.map (\<lambda>t. (tl_org t, tl_user t)) (token_limits db))
   \<and> (\<forall>c \<in> set (conc_limits db). cl_user c \<noteq> Some [])
   \<and> (\<forall>t \<in> set (token_limits db). tl_user t \<noteq> Some [])"

text \<open>
  Every setting of a listing comes from the rows of its key: with a concurrency and a token
  row for a user there is exactly one, made from both.
\<close>

lemma limit_join_key:
  assumes ok: "limit_tables_ok db"
    and c: "c \<in> set (conc_limits db)" and t: "t \<in> set (token_limits db)"
    and key: "tl_org t = cl_org c" "tl_user t = cl_user c"
    and j: "j \<in> set (limit_join (conc_limits db) (token_limits db))"
    and s: "se_org (settings_of_join j) = cl_org c" "se_user (settings_of_join j) = coalesce_empty (cl_user c)"
  shows "j = (Some c, Some t)"
proof -
  have ci: "c' = c" if "c' \<in> set (conc_limits db)" "cl_org c' = cl_org c"
      "coalesce_empty (cl_user c') = coalesce_empty (cl_user c)" for c'
  proof -
    have "cl_user c' = cl_user c"
      using coalesce_inj ok that c unfolding limit_tables_ok_def by metis
    with ok that c show ?thesis
      unfolding limit_tables_ok_def by (auto simp: distinct_map dest: inj_onD)
  qed
  have ti: "t' = t" if "t' \<in> set (token_limits db)" "tl_org t' = cl_org c"
      "coalesce_empty (tl_user t') = coalesce_empty (cl_user c)" for t'
  proof -
    have "tl_user t' = tl_user t"
      using coalesce_inj ok that t key unfolding limit_tables_ok_def by metis
    with that key have "(tl_org t', tl_user t') = (tl_org t, tl_user t)" by simp
    with ok that(1) t show ?thesis
      unfolding limit_tables_ok_def distinct_map by (metis (no_types, lifting) inj_onD)
  qed
  have match: "join_matches c t" by (simp add: join_matches_def key)
  from j consider (both) c' t' where "j = (Some c', Some t')" "c' \<in> set (conc_limits db)"
      "t' \<in> set (token_limits db)" "join_matches c' t'"
    | (left) c' where "j = (Some c', None)" "c' \<in> set (conc_limits db)"
      "filter (join_matches c') (token_limits db) = []"
    | (right) t' where "j = (None, Some t')" "t' \<in> set (token_limits db)"
      "\<not> list_ex (\<lambda>c. join_matches c t') (conc_limits db)"
    by (auto simp: limit_join_def Let_def split: if_splits)
  then show ?thesis
  proof cases
    case both
    then have "coalesce_empty (cl_user c') = coalesce_empty (cl_user c)"
      using s by (cases "cl_user c'") (auto simp: join_matches_def coalesce_empty_def split: option.splits)
    then have "c' = c" using ci both s by simp
    moreover then have "t' = t" using ti both by (simp add: join_matches_def)
    ultimately show ?thesis using both by simp
  next
    case left
    then have "c' = c" using ci s by simp
    with left match t show ?thesis by (auto simp: filter_empty_conv)
  next
    case right
    then have "t' = t" using ti s by simp
    with right match c show ?thesis by (auto simp: list_ex_iff)
  qed
qed

lemma limit_join_has:
  assumes "c \<in> set (conc_limits db)" "t \<in> set (token_limits db)" "tl_org t = cl_org c" "tl_user t = cl_user c"
  shows "(Some c, Some t) \<in> set (limit_join (conc_limits db) (token_limits db))"
proof -
  have "t \<in> set (filter (join_matches c) (token_limits db))"
    using assms by (simp add: join_matches_def)
  then have "filter (join_matches c) (token_limits db) \<noteq> []" "t \<in> set (filter (join_matches c) (token_limits db))"
    by force+
  then show ?thesis using assms(1) by (fastforce simp: limit_join_def Let_def)
qed

lemma resolve_loop_user:
  "user \<noteq> [] \<Longrightarrow> (\<exists>x \<in> set ss. se_user x = user \<and> resolve_loop user ss o' = Some x)
     \<or> (\<forall>x \<in> set ss. se_user x \<noteq> user)"
  by (induction ss arbitrary: o') auto

lemma resolve_loop_org:
  "(\<exists>x \<in> set ss. se_user x = [] \<and> resolve_loop [] ss o' = Some x)
     \<or> ((\<forall>x \<in> set ss. se_user x \<noteq> []) \<and> resolve_loop [] ss o' = o')"
proof (induction ss arbitrary: o')
  case (Cons s ss)
  show ?case using Cons.IH [of "if se_user s = [] then Some s else o'"] by auto
qed simp

lemma resolve_loop_only:
  assumes "s \<in> set ss" "se_user s = user" "\<And>x. x \<in> set ss \<Longrightarrow> se_user x = user \<Longrightarrow> x = s"
  shows "resolve_loop user ss None = Some s"
proof -
  have "\<exists>x \<in> set ss. se_user x = user \<and> resolve_loop user ss None = Some x"
    using resolve_loop_user [of user ss None] resolve_loop_org [of ss None] assms(1,2)
    by (cases "user = []") blast+
  with assms(3) show ?thesis by blast
qed

lemma resolve_finds:
  assumes ok: "limit_tables_ok db" and "\<not> e_fault env CallListLimits"
    and c: "c \<in> set (conc_limits db)" and t: "t \<in> set (token_limits db)"
    and key: "cl_org c = org" "cl_user c = nullif_empty user" "tl_org t = org" "tl_user t = nullif_empty user"
  shows "resolve_usage_settings env org user db = Inr (settings_of_join (Some c, Some t))"
proof -
  define s where "s = settings_of_join (Some c, Some t)"
  define ss where "ss = filter (\<lambda>s. se_org s = org)
    (List.map settings_of_join (limit_join (conc_limits db) (token_limits db)))"
  have s: "se_org s = org" "se_user s = user"
    using key by (simp_all add: s_def coalesce_empty_def nullif_empty_def)
  have "(Some c, Some t) \<in> set (limit_join (conc_limits db) (token_limits db))"
    using limit_join_has [OF c t] key by simp
  then have mem: "s \<in> set ss" using s(1) by (force simp: ss_def s_def)
  have only: "x = s" if x: "x \<in> set ss" "se_user x = user" for x
  proof -
    from x(1) obtain j where j: "j \<in> set (limit_join (conc_limits db) (token_limits db))"
      "x = settings_of_join j" "se_org x = org" by (auto simp: ss_def)
    have "j = (Some c, Some t)"
    proof (rule limit_join_key [OF ok c t _ _ j(1)])
      show "tl_org t = cl_org c" "tl_user t = cl_user c" using key by metis+
      show "se_org (settings_of_join j) = cl_org c" using j(2,3) key(1) by metis
      show "se_user (settings_of_join j) = coalesce_empty (cl_user c)"
        using j(2) x(2) key(2) coalesce_nullif by metis
    qed
    then show ?thesis using j(2) by (simp only: s_def)
  qed
  have "resolve_loop user (sort_key se_user ss) None = Some s"
    by (rule resolve_loop_only) (simp_all only: set_sort, rule mem, rule s(2), rule only)
  with assms(2) show ?thesis
    by (simp add: resolve_usage_settings_def list_usage_settings_def ss_def s_def)
qed

lemma normalize_shape:
  assumes "normalize_usage_settings s = Inr n"
  shows "n = s\<lparr>se_window_seconds := (if se_window_seconds s = 0 then 60 else se_window_seconds s),
               se_mode := usage_limit_quota_mode (se_user s)\<rparr>"
    and "se_org s \<noteq> []" "0 \<le> se_concurrent s" "0 \<le> se_window_tokens s" "0 \<le> se_request_tokens s"
    and "\<not> (se_concurrent s = 0 \<and> se_window_tokens s = 0 \<and> se_request_tokens s = 0)" "0 \<le> se_window_seconds s"
proof -
  have guards: "se_org s \<noteq> [] \<and> 0 \<le> se_concurrent s \<and> 0 \<le> se_window_tokens s \<and> 0 \<le> se_request_tokens s
      \<and> \<not> (se_concurrent s = 0 \<and> se_window_tokens s = 0 \<and> se_request_tokens s = 0) \<and> 0 \<le> se_window_seconds s"
  proof (rule ccontr)
    assume "\<not> ?thesis"
    then have "\<exists>e. normalize_usage_settings s = Inl e"
      by (simp add: normalize_usage_settings_def) linarith
    with assms show False by auto
  qed
  then show "se_org s \<noteq> []" "0 \<le> se_concurrent s" "0 \<le> se_window_tokens s" "0 \<le> se_request_tokens s"
    "\<not> (se_concurrent s = 0 \<and> se_window_tokens s = 0 \<and> se_request_tokens s = 0)" "0 \<le> se_window_seconds s" by auto
  define s1 where "s1 = (if se_window_seconds s = 0 then s\<lparr>se_window_seconds := 60\<rparr> else s)"
  have s1: "s1 = s\<lparr>se_window_seconds := (if se_window_seconds s = 0 then 60 else se_window_seconds s)\<rparr>"
    by (simp add: s1_def)
  have keep: "s1 = s1\<lparr>se_mode := m\<rparr>" if "se_mode s = m" for m using that by (simp add: s1)
  have "n = s1\<lparr>se_mode := usage_limit_quota_mode (se_user s)\<rparr>"
  proof -
    have "normalize_usage_settings s = (if se_mode s = [] then Inr (s1\<lparr>se_mode := usage_limit_quota_mode (se_user s)\<rparr>)
            else if se_mode s = ''organization'' then
              (if se_user s \<noteq> [] then Inl UserMustBeEmpty else Inr s1)
            else if se_mode s = ''user'' then
              (if se_user s = [] then Inl UserRequired else Inr s1)
            else Inl BadQuotaMode)"
      using guards by (simp add: normalize_usage_settings_def Let_def s1_def not_less)
    then show ?thesis
      using assms keep [of "''organization''"] keep [of "''user''"]
      by (simp add: usage_limit_quota_mode_def split: if_splits)
  qed
  then show "n = s\<lparr>se_window_seconds := (if se_window_seconds s = 0 then 60 else se_window_seconds s),
               se_mode := usage_limit_quota_mode (se_user s)\<rparr>" by (simp add: s1)
qed

lemma normalize_Inr:
  assumes "normalize_usage_settings s = Inr n"
  shows "se_org n = se_org s" "se_user n = se_user s" "se_mode n = usage_limit_quota_mode (se_user s)"
    and "0 < se_window_seconds n" "normalize_usage_settings n = Inr n"
proof -
  note shape = normalize_shape [OF assms]
  show "se_org n = se_org s" "se_user n = se_user s" "se_mode n = usage_limit_quota_mode (se_user s)"
    "0 < se_window_seconds n" using shape(1,7) by (simp_all split: if_splits)
  show "normalize_usage_settings n = Inr n"
    using shape(2-) by (simp add: shape(1) normalize_usage_settings_def usage_limit_quota_mode_def)
qed

lemma sql_update_keys:
  "(\<And>r. key (f r) = key r) \<Longrightarrow> List.map key (fst (sql_update P f rs)) = List.map key rs"
  by (induction rs) (auto simp: sql_simps)

lemma upsert_concurrency_ok:
  assumes ok: "limit_tables_ok tx" and up: "upsert_concurrency_limit env s now tx = Inr tx'"
  shows "limit_tables_ok tx' \<and> token_limits tx' = token_limits tx
     \<and> (\<exists>c \<in> set (conc_limits tx'). cl_org c = se_org s \<and> cl_user c = nullif_empty (se_user s)
          \<and> cl_max c = se_concurrent s \<and> cl_updated c = db_time now)"
proof -
  let ?P = "\<lambda>r. cl_org r = se_org s \<and> cl_user r = nullif_empty (se_user s)"
  let ?f = "\<lambda>r. r\<lparr>cl_max := se_concurrent s, cl_updated := db_time now\<rparr>"
  let ?res = "sql_update ?P ?f (conc_limits tx)"
  let ?new = "\<lparr>cl_org = se_org s, cl_user = nullif_empty (se_user s), cl_max = se_concurrent s, cl_updated = db_time now\<rparr>"
  have tx': "tx' = (if 0 < snd ?res then tx\<lparr>conc_limits := fst ?res\<rparr>
                     else tx\<lparr>conc_limits := conc_limits tx @ [?new]\<rparr>)"
    using up by (auto simp: upsert_concurrency_limit_def Let_def split: option.splits if_splits)
  have keys: "List.map (\<lambda>c. (cl_org c, cl_user c)) (fst ?res) = List.map (\<lambda>c. (cl_org c, cl_user c)) (conc_limits tx)"
    by (rule sql_update_keys) simp
  show ?thesis
  proof (cases "0 < snd ?res")
    case True
    then obtain r where "r \<in> set (conc_limits tx)" "?P r" by (auto simp: sql_simps)
    then have "\<exists>c \<in> set (fst ?res). cl_org c = se_org s \<and> cl_user c = nullif_empty (se_user s)
          \<and> cl_max c = se_concurrent s \<and> cl_updated c = db_time now"
      by (auto simp: sql_simps intro!: bexI [of _ "?f r"] image_eqI [of _ _ r])
    moreover have "\<forall>c \<in> set (fst ?res). cl_user c \<noteq> Some []"
      using ok by (auto simp: sql_simps limit_tables_ok_def)
    ultimately show ?thesis using ok True keys by (auto simp: tx' limit_tables_ok_def)
  next
    case False
    then have "\<forall>r \<in> set (conc_limits tx). \<not> ?P r" by (auto simp: sql_simps)
    then show ?thesis using ok False by (auto simp: tx' limit_tables_ok_def)
  qed
qed

lemma upsert_token_ok:
  assumes ok: "limit_tables_ok tx" and up: "upsert_token_rate_limit env s now tx = Inr tx'"
    and window: "0 < se_window_seconds s"
  shows "limit_tables_ok tx' \<and> conc_limits tx' = conc_limits tx
     \<and> (\<exists>t \<in> set (token_limits tx'). tl_org t = se_org s \<and> tl_user t = nullif_empty (se_user s)
          \<and> tl_window t = se_window_seconds s \<and> tl_max_window t = se_window_tokens s
          \<and> tl_max_request t = se_request_tokens s \<and> tl_updated t = db_time now)"
proof -
  let ?P = "\<lambda>r. tl_org r = se_org s \<and> tl_user r = nullif_empty (se_user s)"
  let ?f = "token_row_of s (se_window_seconds s) now"
  let ?res = "sql_update ?P ?f (token_limits tx)"
  let ?new = "?f \<lparr>tl_org = se_org s, tl_user = nullif_empty (se_user s), tl_window = 0,
                        tl_max_window = 0, tl_max_request = 0, tl_updated = db_time now\<rparr>"
  have tx': "tx' = (if 0 < snd ?res then tx\<lparr>token_limits := fst ?res\<rparr>
                     else tx\<lparr>token_limits := token_limits tx @ [?new]\<rparr>)"
    using up window by (auto simp: upsert_token_rate_limit_def Let_def split: option.splits if_splits)
  have keys: "List.map (\<lambda>c. (tl_org c, tl_user c)) (fst ?res) = List.map (\<lambda>c. (tl_org c, tl_user c)) (token_limits tx)"
    by (rule sql_update_keys) (simp add: token_row_of_def)
  show ?thesis
  proof (cases "0 < snd ?res")
    case True
    then obtain r where "r \<in> set (token_limits tx)" "?P r" by (auto simp: sql_simps)
    then have "\<exists>t \<in> set (fst ?res). tl_org t = se_org s \<and> tl_user t = nullif_empty (se_user s)
          \<and> tl_window t = se_window_seconds s \<and> tl_max_window t = se_window_tokens s
          \<and> tl_max_request t = se_request_tokens s \<and> tl_updated t = db_time now"
      by (auto simp: sql_simps token_row_of_def intro!: bexI [of _ "?f r"] image_eqI [of _ _ r])
    moreover have "\<forall>t \<in> set (fst ?res). tl_user t \<noteq> Some []"
      using ok by (auto simp: sql_simps limit_tables_ok_def token_row_of_def)
    ultimately show ?thesis using ok True keys by (auto simp: tx' limit_tables_ok_def)
  next
    case False
    then have "\<forall>r \<in> set (token_limits tx). \<not> ?P r" by (auto simp: sql_simps)
    then show ?thesis using ok False by (auto simp: tx' limit_tables_ok_def token_row_of_def)
  qed
qed

text \<open>
  C7. A round trip through the two tables: limits that were saved for an organization or a
  user are, normalised, exactly the ones that resolve for it afterwards (the time of the change to
  the microseconds that its columns keep), and the tables keep one row per key.
\<close>

theorem saved_limits_resolve:
  assumes ok: "limit_tables_ok db" and save: "save_usage_settings env s db = (db', Inr n)"
    and env': "\<not> e_fault env' CallListLimits"
  shows "limit_tables_ok db' \<and> resolve_usage_settings env' (se_org s) (se_user s) db' = Inr (n\<lparr>se_updated := db_time (se_updated n)\<rparr>)"
proof -
  from save obtain n0 where n0: "normalize_usage_settings s = Inr n0"
    and st: "store_save_usage_settings env n0 db = (db', Inr n)"
    by (auto simp: save_usage_settings_def split: sum.splits)
  note norm = normalize_Inr [OF n0]
  from st norm(5) obtain tx where n: "n = n0\<lparr>se_updated := e_now env\<rparr>"
    and conc: "upsert_concurrency_limit env n (e_now env) db = Inr tx"
    and tok: "upsert_token_rate_limit env n (e_now env) tx = Inr db'"
    by (auto simp: store_save_usage_settings_def Let_def split: sum.splits if_splits)
  from upsert_concurrency_ok [OF ok conc] obtain c where
    tx: "limit_tables_ok tx" "c \<in> set (conc_limits tx)" and c: "cl_org c = se_org n"
      "cl_user c = nullif_empty (se_user n)" "cl_max c = se_concurrent n" "cl_updated c = db_time (e_now env)" by blast
  have "0 < se_window_seconds n" using norm(4) n by simp
  from upsert_token_ok [OF tx(1) tok this] obtain t where
    db': "limit_tables_ok db'" "conc_limits db' = conc_limits tx" "t \<in> set (token_limits db')"
    and t: "tl_org t = se_org n" "tl_user t = nullif_empty (se_user n)" "tl_window t = se_window_seconds n"
      "tl_max_window t = se_window_tokens n" "tl_max_request t = se_request_tokens n" "tl_updated t = db_time (e_now env)"
    by blast
  have user: "coalesce_empty (if cl_user c = None then tl_user t else cl_user c) = se_user n"
    using c(2) t(2) by (simp add: coalesce_empty_def nullif_empty_def)
  have "settings_of_join (Some c, Some t) = n\<lparr>se_updated := db_time (se_updated n)\<rparr>"
    using c t norm user by (simp add: n)
  moreover have "c \<in> set (conc_limits db')" using tx db' by simp
  ultimately show ?thesis
    using resolve_finds [OF db'(1) env' _ db'(3), of c "se_org s" "se_user s"] db'(1) c t norm(1,2) n by simp
qed

definition sample_settings :: usage_settings where
  "sample_settings = \<lparr>se_org = ''org'', se_user = ''u1'', se_mode = [], se_concurrent = 2,
     se_window_seconds = 0, se_window_tokens = 100, se_request_tokens = 0, se_updated = 0\<rparr>"

theorem saved_limits_resolve_witness:
  "\<exists>db' n. save_usage_settings sample_env sample_settings sample_db = (db', Inr n)
     \<and> resolve_usage_settings sample_env ''org'' ''u1'' db' = Inr (n\<lparr>se_updated := db_time (se_updated n)\<rparr>)"
proof -
  let ?run = "save_usage_settings sample_env sample_settings sample_db"
  have "case snd ?run of Inl _ \<Rightarrow> False | Inr _ \<Rightarrow> True" by code_simp
  then obtain n where run: "?run = (fst ?run, Inr n)" by (cases "snd ?run") (auto simp: prod_eq_iff)
  have "limit_tables_ok sample_db" by (simp add: limit_tables_ok_def sample_db_def)
  from saved_limits_resolve [OF this run, of sample_env] have
    "resolve_usage_settings sample_env ''org'' ''u1'' (fst ?run) = Inr (n\<lparr>se_updated := db_time (se_updated n)\<rparr>)"
    by (simp add: sample_settings_def) (simp add: sample_env_def)
  with run show ?thesis by blast
qed

subsection \<open>Leases\<close>

text \<open>
  \<open>BeginUsage\<close> and \<open>EndUsage\<close> of a service with the in-memory limiter are again a slot
  counter, on the counter keys of the limits.
\<close>

definition usage_acquire :: "usage_limit \<Rightarrow> int \<Rightarrow> mem_limiter \<Rightarrow> mem_limiter \<times> bool" where
  "usage_acquire limit m l =
     (case begin_usage (Some in_memory) (limit\<lparr>ul_concurrent := m\<rparr>) l of
        (l', Inl _) \<Rightarrow> (l', False) | (l', Inr _) \<Rightarrow> (l', True))"

definition usage_release :: "usage_limit \<Rightarrow> mem_limiter \<Rightarrow> mem_limiter" where
  "usage_release limit l = fst (end_usage (Some in_memory) (Some (lease_of limit)) l)"

definition usage_slot :: "usage_limit \<Rightarrow> string" where
  "usage_slot limit = counter_key ''concurrent'' (usage_limit_rate_key limit)"

text \<open>A limit names an organization; without one the service refuses to begin.\<close>

lemma usage_acquire_rl:
  "ul_org limit \<noteq> [] \<Longrightarrow> 0 < m \<Longrightarrow>
     usage_acquire limit m l = rl_acquire (usage_limit_rate_key limit) m l"
  by (auto simp: usage_acquire_def begin_usage_def validate_identity_def in_memory_def rl_acquire_def
      usage_limit_rate_key_def split: prod.splits option.splits)

lemma usage_release_rl: "usage_release limit l = rl_end (usage_limit_rate_key limit) l"
  by (simp add: usage_release_def end_usage_def in_memory_def lease_of_def usage_limit_rate_key_def)

text \<open>The calls that a use of leases amounts to on the limiter.\<close>

fun limits_named :: "usage_limit slot_op \<Rightarrow> bool" where
  "limits_named (Acquire k m) = (ul_org k \<noteq> [] \<and> 0 < m)"
| "limits_named (Release k) = True"

lemma usage_slot_run:
  "\<forall>op \<in> set ops. limits_named op \<Longrightarrow>
   slot_run usage_acquire usage_release usage_slot c ops (l, n) =
     slot_run rl_acquire rl_end (counter_key ''concurrent'') c
       (List.map (map_slot_op usage_limit_rate_key) ops) (l, n)"
proof (induction ops arbitrary: l n)
  case (Cons op ops)
  then show ?case
    by (cases op) (simp_all add: usage_acquire_rl usage_release_rl usage_slot_def split: prod.splits)
qed simp

lemma usage_limit_is:
  "slot_limit_is m usage_slot c op \<Longrightarrow>
     slot_limit_is m (counter_key ''concurrent'') c (map_slot_op usage_limit_rate_key op)"
  by (cases op) (simp_all add: usage_slot_def)

text \<open>
  Leases of the quota service over the in-memory limiter: any interleaving of
  \<open>BeginUsage\<close> and \<open>EndUsage\<close> under positive limits, all \<open>m\<close> for the counter \<open>c\<close>, never
  has more than \<open>m\<close> leases of \<open>c\<close> open.
\<close>

theorem open_leases_bounded:
  assumes "0 < m" "\<forall>op \<in> set ops. limits_named op \<and> slot_limit_is m usage_slot c op"
  shows "snd (slot_run usage_acquire usage_release usage_slot c ops (new_in_memory_rate_limiter, 0)) \<le> m"
proof -
  let ?ops = "List.map (map_slot_op usage_limit_rate_key) ops"
  obtain l n where run: "slot_run rl_acquire rl_end (counter_key ''concurrent'') c ?ops
      (new_in_memory_rate_limiter, 0) = (l, n)" by fastforce
  have "\<forall>op \<in> set ?ops. slot_limit_is m (counter_key ''concurrent'') c op"
    using assms(2) usage_limit_is by auto
  from rl_slots.slot_run_bounded [OF assms(1) this _ _ run] assms(1) have "n \<le> m"
    by (simp add: rl_in_use_def new_in_memory_rate_limiter_def)
  with run assms(2) show ?thesis by (simp add: usage_slot_run)
qed

definition sample_limit :: usage_limit where
  "sample_limit = \<lparr>ul_org = ''org'', ul_user = ''u1'', ul_concurrent = 1, ul_window = 0, ul_request = 0\<rparr>"

theorem open_leases_bounded_witness:
  "snd (slot_run usage_acquire usage_release usage_slot ''concurrent:quota:org:u1''
     [Acquire sample_limit 1, Acquire sample_limit 1] (new_in_memory_rate_limiter, 0)) \<le> 1"
  by (rule open_leases_bounded) (simp_all add: sample_limit_def)

text \<open>
  A lease that was given without a limit takes no slot, but ending it frees one: with one
  lease held under a limit of one, an unlimited lease of the same user that begins and ends
  lets a second limited lease in beside the first.
\<close>

theorem unlimited_lease_frees_a_slot:
  "let unlimited = sample_limit\<lparr>ul_concurrent := 0\<rparr>;
       l1 = fst (begin_usage (Some in_memory) sample_limit new_in_memory_rate_limiter);
       l2 = fst (begin_usage (Some in_memory) unlimited l1);
       l3 = fst (end_usage (Some in_memory) (Some (lease_of unlimited)) l2)
   in snd (begin_usage (Some in_memory) sample_limit l1)
        = Inl (UsageErr \<lparr>ue_dim = UsageConcurrent, ue_limit = 1, ue_current = 1, ue_remaining = 0, ue_retry = 0\<rparr>)
    \<and> snd (begin_usage (Some in_memory) unlimited l1) = Inr (lease_of sample_limit)
    \<and> snd (begin_usage (Some in_memory) sample_limit l3) = Inr (lease_of sample_limit)"
  by code_simp

end
