(* ===== verification/Circuit_Breakers.thy ===== *)
theory Circuit_Breakers
  imports Prelude
begin

text \<open>
  The two circuit breakers: the relay's per-provider breaker
  (\<open>src/server/internal/relay/circuitbreaker.go\<close>) and the gateway's per-target breaker
  (\<open>src/server/internal/gateway/circuit_breaker.go\<close>). A method takes the breaker and, where
  it reads the clock, the time \<open>now\<close>; the mutex makes a call one step. The unlocked read of
  the state in the gateway's \<open>Allow\<close> is taken as part of the call.
\<close>

subsection \<open>The relay breaker\<close>

datatype circuit_state = StateClosed | StateOpen | StateHalfOpen

fun circuit_state_string :: "circuit_state \<Rightarrow> string" where
  "circuit_state_string StateClosed = ''closed''"
| "circuit_state_string StateOpen = ''open''"
| "circuit_state_string StateHalfOpen = ''half-open''"

record relay_breaker =
  cb_provider :: string
  cb_failure_limit :: int
  cb_success_limit :: int
  cb_failures :: int
  cb_successes :: int
  cb_state :: circuit_state
  cb_opened_at :: gotime
  cb_probe_at :: gotime
  cb_interval :: duration
  cb_max_interval :: duration

definition new_circuit_breaker :: "string \<Rightarrow> int \<Rightarrow> duration \<Rightarrow> duration \<Rightarrow> relay_breaker" where
  "new_circuit_breaker provider limit interval max_interval =
     \<lparr>cb_provider = provider, cb_failure_limit = limit, cb_success_limit = 3, cb_failures = 0,
      cb_successes = 0, cb_state = StateClosed, cb_opened_at = zero_time, cb_probe_at = zero_time,
      cb_interval = interval, cb_max_interval = max_interval\<rparr>"

definition min_duration :: "duration \<Rightarrow> duration \<Rightarrow> duration" where
  "min_duration a b = (if a < b then a else b)"

definition recompute :: "gotime \<Rightarrow> relay_breaker \<Rightarrow> relay_breaker" where
  "recompute now b =
     (case cb_state b of
        StateClosed \<Rightarrow>
          if cb_failure_limit b \<le> cb_failures b
          then b\<lparr>cb_state := StateOpen, cb_opened_at := now, cb_probe_at := now + cb_interval b\<rparr>
          else b
      | StateOpen \<Rightarrow>
          if cb_probe_at b < now then b\<lparr>cb_state := StateHalfOpen, cb_successes := 0\<rparr> else b
      | StateHalfOpen \<Rightarrow>
          if cb_success_limit b \<le> cb_successes b
          then b\<lparr>cb_state := StateClosed, cb_failures := 0, cb_successes := 0,
                 cb_interval := go_div (cb_interval b) 2\<rparr>
          else b)"

definition breaker_state :: "gotime \<Rightarrow> relay_breaker \<Rightarrow> relay_breaker \<times> circuit_state" where
  "breaker_state now b = (let b' = recompute now b in (b', cb_state b'))"

definition record_failure :: "gotime \<Rightarrow> relay_breaker \<Rightarrow> relay_breaker" where
  "record_failure now b =
     (let b1 = b\<lparr>cb_failures := cb_failures b + 1\<rparr>;
          b2 = (if cb_failure_limit b1 < cb_failures b1
                then b1\<lparr>cb_interval := min_duration (int64 (cb_interval b1 * 2)) (cb_max_interval b1)\<rparr>
                else b1)
      in if cb_state b2 = StateHalfOpen
         then b2\<lparr>cb_state := StateOpen, cb_probe_at := now + cb_interval b2\<rparr> else b2)"

definition record_success :: "relay_breaker \<Rightarrow> relay_breaker" where
  "record_success b =
     (if cb_state b = StateHalfOpen
      then b\<lparr>cb_successes := cb_successes b + 1, cb_failures := 0\<rparr>
      else b\<lparr>cb_failures := 0\<rparr>)"

definition can_try :: "relay_breaker \<Rightarrow> bool" where
  "can_try b \<longleftrightarrow> cb_state b = StateOpen \<or> cb_state b = StateHalfOpen"

subsection \<open>Runs of the relay breaker\<close>

datatype breaker_event = AskState | Failure | Success

text \<open>One call, as a step relation and as a function.\<close>

inductive breaker_step :: "relay_breaker \<Rightarrow> gotime \<times> breaker_event \<Rightarrow> relay_breaker \<Rightarrow> bool" where
  ask: "breaker_step b (now, AskState) (recompute now b)"
| failure: "breaker_step b (now, Failure) (record_failure now b)"
| success: "breaker_step b (now, Success) (record_success b)"

inductive_cases breaker_stepE: "breaker_step b e b'"
inductive_simps breaker_step_simps:
  "breaker_step b (t, AskState) b'" "breaker_step b (t, Failure) b'" "breaker_step b (t, Success) b'"

inductive breaker_steps :: "relay_breaker \<Rightarrow> (gotime \<times> breaker_event) list \<Rightarrow> relay_breaker \<Rightarrow> bool" where
  steps_done: "breaker_steps b [] b"
| steps_more: "breaker_step b e b' \<Longrightarrow> breaker_steps b' es b'' \<Longrightarrow> breaker_steps b (e # es) b''"

inductive_simps breaker_steps_simps: "breaker_steps b [] b'" "breaker_steps b (e # es) b'"

code_pred (modes: i \<Rightarrow> i \<Rightarrow> o \<Rightarrow> bool) breaker_step .
code_pred (modes: i \<Rightarrow> i \<Rightarrow> o \<Rightarrow> bool) breaker_steps .

lemmas breaker_defs = recompute_def record_failure_def record_success_def Let_def

lemma breaker_steps_snoc_induct [consumes 1, case_names steps_done steps_snoc]:
  assumes "breaker_steps b es b'"
    and "P [] b" "\<And>es e b1 b2. breaker_steps b es b1 \<Longrightarrow> P es b1 \<Longrightarrow> breaker_step b1 e b2 \<Longrightarrow> P (es @ [e]) b2"
  shows "P es b'"
  using assms
proof (induction arbitrary: P)
  case (steps_more b e b1 es b')
  have "P ([e] @ es) b'"
  proof (rule steps_more.IH [where P = "\<lambda>fs. P ([e] @ fs)"])
    show "P ([e] @ []) b1"
      using steps_more.prems(2) [OF steps_done steps_more.prems(1) steps_more.hyps(1)] by simp
    fix fs f b2 b3
    assume "breaker_steps b1 fs b2" "P ([e] @ fs) b2" "breaker_step b2 f b3"
    then show "P ([e] @ (fs @ [f])) b3"
      using steps_more.prems(2) [of "[e] @ fs" b2 f b3] breaker_steps.steps_more [OF steps_more.hyps(1)]
      by simp
  qed
  then show ?case by simp
qed simp

text \<open>The failures since the last success, and the longest such run so far.\<close>

fun failure_run :: "(gotime \<times> breaker_event) list \<Rightarrow> int \<Rightarrow> int" where
  "failure_run [] n = n"
| "failure_run ((t, Failure) # es) n = failure_run es (n + 1)"
| "failure_run ((t, Success) # es) n = failure_run es 0"
| "failure_run ((t, AskState) # es) n = failure_run es n"

lemma failure_run_append: "failure_run (es @ fs) n = failure_run fs (failure_run es n)"
  by (induction es n rule: failure_run.induct) simp_all

lemma closed_until_run:
  assumes "breaker_steps (new_circuit_breaker p limit i mx) es b" "0 < limit"
    and "\<forall>k \<le> length es. failure_run (take k es) 0 < limit"
  shows "cb_state b = StateClosed \<and> cb_failures b = failure_run es 0 \<and> cb_failure_limit b = limit"
  using assms
proof (induction rule: breaker_steps_snoc_induct)
  case steps_done
  then show ?case by (simp add: new_circuit_breaker_def)
next
  case (steps_snoc es e b1 b2)
  have "\<forall>k \<le> length es. failure_run (take k es) 0 < limit"
  proof (intro allI impI)
    fix k assume "k \<le> length es"
    then show "failure_run (take k es) 0 < limit"
      using steps_snoc.prems(2) [rule_format, of k] by simp
  qed
  with steps_snoc.IH steps_snoc.prems(1) have b1: "cb_state b1 = StateClosed"
    "cb_failures b1 = failure_run es 0" "cb_failure_limit b1 = limit" by auto
  have "failure_run es 0 < limit" using steps_snoc.prems(2) [rule_format, of "length es"] by simp
  with steps_snoc.hyps b1 show ?case
    by (auto elim!: breaker_stepE simp: breaker_defs failure_run_append)
qed

text \<open>
  C9. A new breaker is only ever found open after \<open>failureLimit\<close> failures with no success in
  between: in a history where no such run occurs, in whatever order states are asked for, it
  stays closed.
\<close>

theorem breaker_opens_only_after_failure_run:
  assumes "breaker_steps (new_circuit_breaker p limit i mx) es b" "0 < limit"
    and "cb_state b \<noteq> StateClosed"
  shows "\<exists>k \<le> length es. limit \<le> failure_run (take k es) 0"
  using closed_until_run [OF assms(1,2)] assms(3) by (auto simp: not_less [symmetric])

definition sample_breaker :: relay_breaker where
  "sample_breaker = new_circuit_breaker ''p'' 2 10 100"

definition sample_opened :: relay_breaker where
  "sample_opened = recompute 5 (record_failure 4 (record_failure 3 sample_breaker))"

lemma sample_opened_steps:
  "breaker_steps sample_breaker [(3, Failure), (4, Failure), (5, AskState)] sample_opened"
  unfolding sample_opened_def by (simp add: breaker_steps_simps breaker_step_simps)

theorem breaker_opens_only_after_failure_run_witness:
  "\<exists>k \<le> length [(3 :: gotime, Failure), (4, Failure), (5, AskState)].
     2 \<le> failure_run (take k [(3, Failure), (4, Failure), (5, AskState)]) 0"
  by (rule breaker_opens_only_after_failure_run [OF sample_opened_steps [unfolded sample_breaker_def]])
    (simp, code_simp)

text \<open>How many successes the breaker still asks for before it closes.\<close>

definition needed :: "relay_breaker \<Rightarrow> int" where
  "needed b =
     (case cb_state b of
        StateClosed \<Rightarrow> 0 | StateOpen \<Rightarrow> cb_success_limit b
      | StateHalfOpen \<Rightarrow> cb_success_limit b - cb_successes b)"

fun successes :: "(gotime \<times> breaker_event) list \<Rightarrow> int" where
  "successes [] = 0"
| "successes ((t, e) # es) = (if e = Success then 1 else 0) + successes es"

definition breaker_sane :: "relay_breaker \<Rightarrow> bool" where
  "breaker_sane b \<longleftrightarrow> 0 \<le> cb_success_limit b \<and> 0 \<le> cb_successes b"

lemma step_sane: "breaker_step b e b' \<Longrightarrow> breaker_sane b \<Longrightarrow> breaker_sane b'"
  by (auto elim!: breaker_stepE simp: breaker_defs breaker_sane_def split: circuit_state.splits)

lemma step_needed:
  "breaker_step b (t, e) b' \<Longrightarrow> breaker_sane b \<Longrightarrow>
     needed b \<le> needed b' + (if e = Success then 1 else 0) \<or> (cb_state b' = StateClosed \<and> needed b \<le> 0)"
  by (cases "cb_state b")
    (auto elim!: breaker_stepE simp: breaker_defs breaker_sane_def needed_def split: if_splits)

lemma steps_needed:
  "breaker_steps b es b' \<Longrightarrow> breaker_sane b \<Longrightarrow> needed b \<le> max 0 (needed b') + successes es"
proof (induction rule: breaker_steps.induct)
  case (steps_more b e b1 es b2)
  obtain t ev where e: "e = (t, ev)" by fastforce
  have pos: "0 \<le> successes es" by (induction es rule: successes.induct) auto
  from steps_more step_sane have "needed b1 \<le> max 0 (needed b2) + successes es" by blast
  with step_needed [OF steps_more.hyps(1) [unfolded e] steps_more.prems] pos e show ?case by auto
qed simp

lemma steps_open_until_probe:
  "breaker_steps b es b' \<Longrightarrow> cb_state b = StateOpen \<Longrightarrow> \<forall>e \<in> set es. fst e \<le> cb_probe_at b \<Longrightarrow>
     cb_state b' = StateOpen"
proof (induction rule: breaker_steps.induct)
  case (steps_more b e b1 es b2)
  have "cb_state b1 = StateOpen \<and> cb_probe_at b1 = cb_probe_at b"
    using steps_more.hyps(1) steps_more.prems
    by (auto elim!: breaker_stepE simp: breaker_defs)
  with steps_more show ?case by simp
qed simp

text \<open>
  An open breaker does not close before its probe time has passed and \<open>successLimit\<close>
  successes have been recorded.
\<close>

theorem breaker_closes_only_after_successes:
  assumes "breaker_steps b es b'" "cb_state b = StateOpen" "cb_state b' = StateClosed"
    and "0 \<le> cb_success_limit b" "0 \<le> cb_successes b"
  shows "cb_success_limit b \<le> successes es \<and> (\<exists>e \<in> set es. cb_probe_at b < fst e)"
proof
  show "cb_success_limit b \<le> successes es"
    using steps_needed [OF assms(1)] assms(2-) by (simp add: breaker_sane_def needed_def)
  show "\<exists>e \<in> set es. cb_probe_at b < fst e"
    using steps_open_until_probe [OF assms(1,2)] assms(3) by (auto simp: not_le [symmetric])
qed

definition sample_recovery :: "(gotime \<times> breaker_event) list" where
  "sample_recovery = [(16, AskState), (17, Success), (18, Success), (19, Success), (20, AskState)]"

definition sample_recovered :: relay_breaker where
  "sample_recovered = recompute 20 (record_success (record_success (record_success (recompute 16 sample_opened))))"

lemma sample_recovery_steps: "breaker_steps sample_opened sample_recovery sample_recovered"
  unfolding sample_recovery_def sample_recovered_def
  by (simp add: breaker_steps_simps breaker_step_simps)

theorem breaker_closes_only_after_successes_witness:
  "cb_success_limit sample_opened \<le> successes sample_recovery
 \<and> (\<exists>e \<in> set sample_recovery. cb_probe_at sample_opened < fst e)"
  by (rule breaker_closes_only_after_successes [OF sample_recovery_steps]) code_simp+

text \<open>
  What the relay breaker does not do: \<open>CanTry\<close> refuses exactly while the breaker is
  closed, so it allows calls to a provider that has just been cut off; and a recovery halves
  the probe interval instead of restoring the configured one, even when it had not been
  raised.
\<close>

theorem breaker_can_try_and_reset:
  "(can_try b \<longleftrightarrow> cb_state b \<noteq> StateClosed)
 \<and> can_try sample_breaker = False \<and> can_try sample_opened = True
 \<and> cb_interval sample_opened = cb_interval sample_breaker
 \<and> cb_state sample_recovered = StateClosed \<and> cb_interval sample_recovered = 5
 \<and> cb_interval sample_breaker = 10"
proof (intro conjI)
  show "can_try b \<longleftrightarrow> cb_state b \<noteq> StateClosed"
    by (cases "cb_state b") (simp_all add: can_try_def)
qed code_simp+

subsection \<open>The gateway breaker\<close>

type_synonym service_target = string

record circuit_target =
  ct_state :: circuit_state
  ct_failures :: int
  ct_successes :: int
  ct_total :: int
  ct_opened_at :: gotime

record gateway_breaker =
  gb_targets :: "service_target \<Rightarrow> circuit_target option"
  gb_threshold :: rat
  gb_open_duration :: duration
  gb_min_requests :: int

definition new_gateway_breaker :: "rat \<Rightarrow> duration \<Rightarrow> gateway_breaker" where
  "new_gateway_breaker threshold open_duration =
     \<lparr>gb_targets = Map.empty,
      gb_threshold = (if threshold \<le> 0 \<or> 100 < threshold then 50 else threshold),
      gb_open_duration = (if open_duration \<le> 0 then 30 * go_second else open_duration),
      gb_min_requests = 10\<rparr>"

definition get_or_create_target :: "gateway_breaker \<Rightarrow> service_target \<Rightarrow> circuit_target" where
  "get_or_create_target g target =
     (case gb_targets g target of
        None \<Rightarrow> \<lparr>ct_state = StateClosed, ct_failures = 0, ct_successes = 0, ct_total = 0,
                 ct_opened_at = zero_time\<rparr>
      | Some t \<Rightarrow> t)"

definition put_target :: "service_target \<Rightarrow> circuit_target \<Rightarrow> gateway_breaker \<Rightarrow> gateway_breaker" where
  "put_target target t g = g\<lparr>gb_targets := (gb_targets g)(target \<mapsto> t)\<rparr>"

definition gateway_allow :: "gotime \<Rightarrow> service_target \<Rightarrow> gateway_breaker \<Rightarrow> gateway_breaker \<times> bool" where
  "gateway_allow now target g =
     (case gb_targets g target of
        None \<Rightarrow> (g, True)
      | Some t \<Rightarrow>
          (case ct_state t of
             StateClosed \<Rightarrow> (g, True)
           | StateOpen \<Rightarrow>
               if gb_open_duration g \<le> now - ct_opened_at t
               then (put_target target (t\<lparr>ct_state := StateHalfOpen\<rparr>) g, True)
               else (g, False)
           | StateHalfOpen \<Rightarrow> (g, True)))"

definition gateway_success :: "service_target \<Rightarrow> gateway_breaker \<Rightarrow> gateway_breaker" where
  "gateway_success target g =
     (let t0 = get_or_create_target g target;
          t = t0\<lparr>ct_successes := ct_successes t0 + 1, ct_total := ct_total t0 + 1\<rparr>
      in put_target target
           (case ct_state t of
              StateHalfOpen \<Rightarrow> t\<lparr>ct_state := StateClosed, ct_failures := 0, ct_successes := 0, ct_total := 0\<rparr>
            | StateClosed \<Rightarrow>
                if gb_min_requests g * 10 < ct_total t
                then t\<lparr>ct_failures := 0, ct_successes := 0, ct_total := 0\<rparr> else t
            | StateOpen \<Rightarrow> t) g)"

definition gateway_failure :: "gotime \<Rightarrow> service_target \<Rightarrow> gateway_breaker \<Rightarrow> gateway_breaker" where
  "gateway_failure now target g =
     (let t0 = get_or_create_target g target;
          t = t0\<lparr>ct_failures := ct_failures t0 + 1, ct_total := ct_total t0 + 1\<rparr>
      in put_target target
           (case ct_state t of
              StateClosed \<Rightarrow>
                if gb_min_requests g \<le> ct_total t
                   \<and> gb_threshold g \<le> of_int (ct_failures t) / of_int (ct_total t) * 100
                then t\<lparr>ct_state := StateOpen, ct_opened_at := now\<rparr> else t
            | StateHalfOpen \<Rightarrow>
                t\<lparr>ct_state := StateOpen, ct_opened_at := now, ct_failures := 0, ct_successes := 0, ct_total := 0\<rparr>
            | StateOpen \<Rightarrow> t) g)"

definition gateway_state :: "service_target \<Rightarrow> gateway_breaker \<Rightarrow> circuit_state" where
  "gateway_state target g =
     (case gb_targets g target of None \<Rightarrow> StateClosed | Some t \<Rightarrow> ct_state t)"

fun gateway_allows :: "gotime list \<Rightarrow> service_target \<Rightarrow> gateway_breaker \<Rightarrow> bool list" where
  "gateway_allows [] target g = []"
| "gateway_allows (now # ts) target g =
     (case gateway_allow now target g of (g', ok) \<Rightarrow> ok # gateway_allows ts target g')"

lemma gateway_allows_half_open:
  "gateway_state target g = StateHalfOpen \<Longrightarrow> gb_targets g target \<noteq> None \<Longrightarrow>
     gateway_allows ts target g = replicate (length ts) True"
  by (induction ts) (auto simp: gateway_allow_def gateway_state_def split: option.splits)

lemma gateway_allows_early:
  assumes "gb_targets g target = Some t" "ct_state t = StateOpen"
    and "\<forall>now \<in> set ts. now - ct_opened_at t < gb_open_duration g"
  shows "gateway_allows ts target g = replicate (length ts) False"
  using assms(3) by (induction ts) (simp_all add: gateway_allow_def assms(1,2))

text \<open>
  An open circuit of the gateway refuses every request until its open time has passed;
  from then on, and until a result is recorded, it lets through every request, not one probe.
\<close>

theorem gateway_open_then_all_probes:
  assumes "gb_targets g target = Some t" "ct_state t = StateOpen"
    and "\<forall>now \<in> set early. now - ct_opened_at t < gb_open_duration g"
    and "gb_open_duration g \<le> first - ct_opened_at t"
  shows "gateway_allows (early @ first # later) target g
           = replicate (length early) False @ replicate (Suc (length later)) True"
proof -
  have split: "gateway_allows (early @ ts) target g
      = replicate (length early) False @ gateway_allows ts target g" for ts
    using assms(3) by (induction early) (simp_all add: gateway_allow_def assms(1,2))
  let ?g = "put_target target (t\<lparr>ct_state := StateHalfOpen\<rparr>) g"
  have "gateway_allows later target ?g = replicate (length later) True"
    by (rule gateway_allows_half_open) (simp_all add: put_target_def gateway_state_def)
  then show ?thesis using assms by (simp add: split gateway_allow_def)
qed

definition sample_tripped :: gateway_breaker where
  "sample_tripped = fold (\<lambda>i. gateway_failure i ''api'') [1..10] (new_gateway_breaker 50 100)"

theorem gateway_open_then_all_probes_witness:
  "gateway_allows [50, 120, 121, 122] ''api'' sample_tripped = [False, True, True, True]"
proof -
  have "map_option (\<lambda>t. (ct_state t, ct_opened_at t)) (gb_targets sample_tripped ''api'') = Some (StateOpen, 10)"
    "gb_open_duration sample_tripped = 100"
    by code_simp+
  then obtain t where "gb_targets sample_tripped ''api'' = Some t" "ct_state t = StateOpen"
    "ct_opened_at t = 10" "gb_open_duration sample_tripped = 100" by auto
  from gateway_open_then_all_probes [OF this(1,2), of "[50]" 120 "[121, 122]"] this(3,4)
  show ?thesis by simp
qed

end
