(* ===== verification/Pricing.thy ===== *)
theory Pricing
  imports Prelude "HOL-Library.AList"
begin

text \<open>
  The pricing catalog of the relay (\<open>src/server/internal/relay/pricing.go\<close>), the billing hook
  on top of it (\<open>src/server/internal/relay/billing.go\<close>), and the API types and usage they
  share (\<open>src/server/internal/relay/types/types.go\<close>).

  The three nested maps of a \<open>PricingStore\<close> are one association list keyed by model, API type
  and dimension: a missing inner map and a missing entry are the same to every reader.
  Multipliers given as a Go map are association lists with distinct keys; no result depends
  on their order. The store's lock makes a call one step.
\<close>

subsection \<open>API types and usage\<close>

datatype api_type =
    APIUnknown | APIChat | APIResponses | APIRealtime | APIAssistants | APIThreads | APIRuns
  | APIBatch | APIBatchFiles | APIFineTuning | APIFiles | APIEmbeddings | APIImageGen
  | APIImageEdit | APIImageVar | APIVideos | APIAudioSpeech | APIAudioSTT | APIAudioTranslate
  | APIModeration | APICompletions | APIModels

fun api_type_string :: "api_type \<Rightarrow> string" where
  "api_type_string APIUnknown = ''unknown''"
| "api_type_string APIChat = ''chat''"
| "api_type_string APIResponses = ''responses''"
| "api_type_string APIRealtime = ''realtime''"
| "api_type_string APIAssistants = ''assistants''"
| "api_type_string APIThreads = ''threads''"
| "api_type_string APIRuns = ''runs''"
| "api_type_string APIBatch = ''batch''"
| "api_type_string APIBatchFiles = ''batch_files''"
| "api_type_string APIFineTuning = ''fine_tuning''"
| "api_type_string APIFiles = ''files''"
| "api_type_string APIEmbeddings = ''embeddings''"
| "api_type_string APIImageGen = ''images_generations''"
| "api_type_string APIImageEdit = ''images_edits''"
| "api_type_string APIImageVar = ''images_variations''"
| "api_type_string APIVideos = ''videos''"
| "api_type_string APIAudioSpeech = ''audio_speech''"
| "api_type_string APIAudioSTT = ''audio_transcriptions''"
| "api_type_string APIAudioTranslate = ''audio_translations''"
| "api_type_string APIModeration = ''moderations''"
| "api_type_string APICompletions = ''completions''"
| "api_type_string APIModels = ''models''"

definition priced_api_types :: "api_type list" where
  "priced_api_types =
     [APIChat, APIResponses, APIRealtime, APIAssistants, APIThreads, APIRuns, APIBatch, APIBatchFiles,
      APIFineTuning, APIFiles, APIEmbeddings, APIImageGen, APIImageEdit, APIImageVar, APIVideos,
      APIAudioSpeech, APIAudioSTT, APIAudioTranslate, APIModeration, APICompletions, APIModels]"

definition parse_pricing_api_type :: "string \<Rightarrow> api_type \<times> bool" where
  "parse_pricing_api_type value =
     (case find (\<lambda>a. api_type_string a = value) priced_api_types of
        Some a \<Rightarrow> (a, True) | None \<Rightarrow> (APIUnknown, False))"

text \<open>A \<open>UsageDimension\<close> is a string; \<open>DimOther\<close> stands for one that is none of the constants.\<close>

datatype usage_dim =
    DimPromptTokens | DimCompletionTokens | DimTotalTokens | DimImageCount | DimVideoCount
  | DimAudioSeconds | DimStorageBytes | DimTrainingTokens | DimOther string

fun valid_usage_dimension :: "usage_dim \<Rightarrow> bool" where
  "valid_usage_dimension (DimOther s) = False"
| "valid_usage_dimension _ = True"

record relay_usage =
  u_prompt :: int
  u_completion :: int
  u_total :: int
  u_images :: int
  u_videos :: int
  u_audio :: rat
  u_storage :: int
  u_training :: int

subsection \<open>The catalog\<close>

record catalog_entry =
  ce_id :: string
  ce_api :: api_type
  ce_currency :: string
  ce_dim :: usage_dim
  ce_effective :: "gotime option"
  ce_markup :: rat
  ce_model :: string
  ce_source :: string
  ce_unit_cost :: rat
  ce_unit_price :: rat

type_synonym price_key = "string \<times> api_type \<times> usage_dim"

record pricing_store =
  ps_prices :: "(price_key \<times> catalog_entry) list"
  ps_groups :: "(string \<times> rat) list"

record quote_dim =
  qd_entry :: string
  qd_model :: string
  qd_api :: string
  qd_dim :: usage_dim
  qd_unit_cost :: rat
  qd_markup :: rat
  qd_unit_price :: rat
  qd_quantity :: rat
  qd_amount :: rat
  qd_currency :: string
  qd_source :: string
  qd_effective :: "gotime option"

record pricing_quote =
  pq_model :: string
  pq_api :: string
  pq_currency :: string
  pq_source :: string
  pq_effective :: "gotime option"
  pq_subtotal :: rat
  pq_group_mult :: rat
  pq_channel_mult :: rat
  pq_total :: rat
  pq_dims :: "quote_dim list"

datatype pricing_error =
    PriceNotConfigured string api_type usage_dim
  | EntryMissingModel | EntryBadDimension | EntryBadApiType | EntryBadCost
  | CatalogQueryFailed | CatalogBadApiType string | CatalogBadDimension | CatalogEmpty

definition new_pricing_store :: pricing_store where
  "new_pricing_store = \<lparr>ps_prices = [], ps_groups = []\<rparr>"

definition set_price_entry :: "catalog_entry \<Rightarrow> pricing_store \<Rightarrow> pricing_store" where
  "set_price_entry e s =
     s\<lparr>ps_prices := AList.update (ce_model e, ce_api e, ce_dim e) e (ps_prices s)\<rparr>"

definition set_price :: "string \<Rightarrow> api_type \<Rightarrow> usage_dim \<Rightarrow> rat \<Rightarrow> pricing_store \<Rightarrow> pricing_store" where
  "set_price model api dm price s =
     set_price_entry \<lparr>ce_id = [], ce_api = api, ce_currency = ''quota'', ce_dim = dm, ce_effective = None,
       ce_markup = 1, ce_model = model, ce_source = ''runtime'', ce_unit_cost = price,
       ce_unit_price = price\<rparr> s"

definition default_prices :: "(api_type \<times> usage_dim \<times> rat) list" where
  "default_prices =
     [(APIChat, DimPromptTokens, 2/1000), (APIChat, DimCompletionTokens, 8/1000), (APIChat, DimTotalTokens, 8/1000),
      (APICompletions, DimPromptTokens, 2/1000), (APICompletions, DimCompletionTokens, 8/1000),
      (APICompletions, DimTotalTokens, 8/1000), (APIEmbeddings, DimPromptTokens, 1/10000),
      (APIImageGen, DimImageCount, 4/1000), (APIAudioSpeech, DimAudioSeconds, 15/1000000),
      (APIAudioSTT, DimAudioSeconds, 1/10000), (APIAudioTranslate, DimAudioSeconds, 1/10000),
      (APIModeration, DimPromptTokens, 1/10000), (APIModeration, DimTotalTokens, 1/10000)]"

definition pricing_store_with_defaults :: pricing_store where
  "pricing_store_with_defaults =
     set_price [] APIFiles DimStorageBytes (1/1000000000)
       (fold (\<lambda>(api, dm, price) s.
          set_price ''gpt-4o-mini'' api dm (price * (1/10)) (set_price ''gpt-4o'' api dm price s))
          default_prices new_pricing_store)"

definition scale_model :: "string \<Rightarrow> rat \<Rightarrow> price_key \<times> catalog_entry \<Rightarrow> price_key \<times> catalog_entry" where
  "scale_model model multiplier row =
     (if fst (fst row) = model
      then (fst row, (snd row)\<lparr>ce_unit_price := ce_unit_price (snd row) * multiplier\<rparr>) else row)"

definition apply_multipliers ::
  "(string \<times> rat) list \<Rightarrow> (string \<times> rat) list \<Rightarrow> pricing_store \<Rightarrow> pricing_store" where
  "apply_multipliers model_mults group_mults s =
     s\<lparr>ps_prices := fold (\<lambda>(model, m) rows. if m < 0 then rows else List.map (scale_model model m) rows)
          model_mults (ps_prices s),
       ps_groups := filter (\<lambda>g. \<not> snd g < 0) group_mults\<rparr>"

definition price_entry ::
  "string \<Rightarrow> api_type \<Rightarrow> usage_dim \<Rightarrow> pricing_store \<Rightarrow> pricing_error + catalog_entry" where
  "price_entry model api dm s =
     (case map_of (ps_prices s) (model, api, dm) of
        None \<Rightarrow> Inl (PriceNotConfigured model api dm)
      | Some e \<Rightarrow> if ce_unit_price e \<le> 0 then Inl (PriceNotConfigured model api dm) else Inr e)"

definition get_price :: "string \<Rightarrow> api_type \<Rightarrow> usage_dim \<Rightarrow> pricing_store \<Rightarrow> pricing_error + rat" where
  "get_price model api dm s =
     (case price_entry model api dm s of Inl e \<Rightarrow> Inl e | Inr e \<Rightarrow> Inr (ce_unit_price e))"

definition pricing_is_empty :: "pricing_store option \<Rightarrow> bool" where
  "pricing_is_empty store =
     (case store of None \<Rightarrow> True | Some s \<Rightarrow> list_all (\<lambda>row. \<not> 0 < ce_unit_price (snd row)) (ps_prices s))"

subsection \<open>Quotes\<close>

definition add_dimension ::
  "pricing_store \<Rightarrow> string \<Rightarrow> api_type \<Rightarrow> usage_dim \<Rightarrow> rat \<Rightarrow> pricing_quote \<Rightarrow> pricing_error + pricing_quote"
where
  "add_dimension s model api dm quantity q =
     (case price_entry model api dm s of
        Inl e \<Rightarrow> Inl e
      | Inr e \<Rightarrow>
          (let amount = ce_unit_price e * quantity
           in Inr (q\<lparr>pq_subtotal := pq_subtotal q + amount,
                     pq_dims := pq_dims q @
                       [\<lparr>qd_entry = ce_id e, qd_model = ce_model e, qd_api = api_type_string (ce_api e),
                         qd_dim = ce_dim e, qd_unit_cost = ce_unit_cost e, qd_markup = ce_markup e,
                         qd_unit_price = ce_unit_price e, qd_quantity = quantity, qd_amount = amount,
                         qd_currency = ce_currency e, qd_source = ce_source e,
                         qd_effective = ce_effective e\<rparr>]\<rparr>)))"

text \<open>\<open>if usage.X > 0 { if err := addDimension(...); err != nil { return nil, err } }\<close>\<close>

definition add_when ::
  "bool \<Rightarrow> pricing_store \<Rightarrow> string \<Rightarrow> api_type \<Rightarrow> usage_dim \<Rightarrow> rat \<Rightarrow> pricing_error + pricing_quote
     \<Rightarrow> pricing_error + pricing_quote" where
  "add_when c s model api dm quantity r =
     (case r of Inl e \<Rightarrow> Inl e | Inr q \<Rightarrow> if c then add_dimension s model api dm quantity q else Inr q)"

fun summarize_step :: "quote_dim list \<Rightarrow> pricing_quote \<Rightarrow> pricing_quote" where
  "summarize_step [] q = q"
| "summarize_step (d # ds) q =
     (let q1 = (if qd_currency d \<noteq> pq_currency q then q\<lparr>pq_currency := ''mixed''\<rparr> else q);
          q2 = (if qd_source d \<noteq> pq_source q1 then q1\<lparr>pq_source := ''mixed''\<rparr> else q1);
          q3 = (case qd_effective d of
                  None \<Rightarrow> q2
                | Some t \<Rightarrow>
                    if (case pq_effective q2 of None \<Rightarrow> True | Some u \<Rightarrow> u < t)
                    then q2\<lparr>pq_effective := Some t\<rparr> else q2)
      in summarize_step ds q3)"

definition summarize_catalog_fields :: "pricing_quote \<Rightarrow> pricing_quote" where
  "summarize_catalog_fields q =
     (case pq_dims q of
        [] \<Rightarrow> q
      | d # ds \<Rightarrow>
          summarize_step ds (q\<lparr>pq_currency := qd_currency d, pq_source := qd_source d,
                               pq_effective := qd_effective d\<rparr>))"

definition empty_quote :: "string \<Rightarrow> api_type \<Rightarrow> pricing_quote" where
  "empty_quote model api =
     \<lparr>pq_model = model, pq_api = api_type_string api, pq_currency = [], pq_source = [], pq_effective = None,
      pq_subtotal = 0, pq_group_mult = 1, pq_channel_mult = 1, pq_total = 0, pq_dims = []\<rparr>"

definition group_multiplier :: "pricing_store \<Rightarrow> string \<Rightarrow> rat" where
  "group_multiplier s ugroup =
     (if ugroup = [] then 1
      else case map_of (ps_groups s) ugroup of
        None \<Rightarrow> 1 | Some m \<Rightarrow> if 0 \<le> m then m else 1)"

definition quote_usage ::
  "pricing_store option \<Rightarrow> string \<Rightarrow> api_type \<Rightarrow> relay_usage option \<Rightarrow> string \<Rightarrow> pricing_error + pricing_quote"
where
  "quote_usage store model api usage ugroup =
     (case (store, usage) of
        (Some s, Some u) \<Rightarrow>
          (let r0 = Inr (empty_quote model api);
               r1 = add_when (0 < u_prompt u) s model api DimPromptTokens (of_int (u_prompt u)) r0;
               r2 = add_when (0 < u_completion u) s model api DimCompletionTokens (of_int (u_completion u)) r1;
               priced = 0 < u_prompt u \<or> 0 < u_completion u;
               r3 = add_when (\<not> priced \<and> 0 < u_total u) s model api DimTotalTokens (of_int (u_total u)) r2;
               r4 = add_when (0 < u_images u) s model api DimImageCount (of_int (u_images u)) r3;
               r5 = add_when (0 < u_videos u) s model api DimVideoCount (of_int (u_videos u)) r4;
               r6 = add_when (0 < u_audio u) s model api DimAudioSeconds (u_audio u) r5;
               r7 = add_when (0 < u_storage u) s model api DimStorageBytes (of_int (u_storage u)) r6;
               r8 = add_when (0 < u_training u) s model api DimTrainingTokens (of_int (u_training u)) r7
           in case r8 of
                Inl e \<Rightarrow> Inl e
              | Inr q \<Rightarrow>
                  (let q1 = q\<lparr>pq_group_mult := group_multiplier s ugroup\<rparr>
                   in Inr (summarize_catalog_fields (q1\<lparr>pq_total := pq_subtotal q1 * pq_group_mult q1\<rparr>))))
      | _ \<Rightarrow> Inr (empty_quote model api))"

definition calculate_cost_for_group_strict ::
  "pricing_store option \<Rightarrow> string \<Rightarrow> api_type \<Rightarrow> relay_usage option \<Rightarrow> string \<Rightarrow> pricing_error + rat" where
  "calculate_cost_for_group_strict store model api usage ugroup =
     (case quote_usage store model api usage ugroup of Inl e \<Rightarrow> Inl e | Inr q \<Rightarrow> Inr (pq_total q))"

definition calculate_cost_for_group ::
  "pricing_store option \<Rightarrow> string \<Rightarrow> api_type \<Rightarrow> relay_usage option \<Rightarrow> string \<Rightarrow> rat" where
  "calculate_cost_for_group store model api usage ugroup =
     (case calculate_cost_for_group_strict store model api usage ugroup of Inl _ \<Rightarrow> 0 | Inr c \<Rightarrow> c)"

definition calculate_cost_strict ::
  "pricing_store option \<Rightarrow> string \<Rightarrow> api_type \<Rightarrow> relay_usage option \<Rightarrow> pricing_error + rat" where
  "calculate_cost_strict store model api usage =
     (case quote_usage store model api usage [] of Inl e \<Rightarrow> Inl e | Inr q \<Rightarrow> Inr (pq_total q))"

definition calculate_cost :: "pricing_store option \<Rightarrow> string \<Rightarrow> api_type \<Rightarrow> relay_usage option \<Rightarrow> rat" where
  "calculate_cost store model api usage =
     (case calculate_cost_strict store model api usage of Inl _ \<Rightarrow> 0 | Inr c \<Rightarrow> c)"

definition apply_group_multiplier :: "pricing_store option \<Rightarrow> rat \<Rightarrow> string \<Rightarrow> rat" where
  "apply_group_multiplier store cost ugroup =
     (case store of
        None \<Rightarrow> cost
      | Some s \<Rightarrow>
          if ugroup = [] then cost
          else case map_of (ps_groups s) ugroup of
            None \<Rightarrow> cost | Some m \<Rightarrow> if m < 0 then cost else cost * m)"

subsection \<open>Loading a catalog\<close>

record pricing_entry =
  pe_api :: api_type
  pe_currency :: string
  pe_dim :: usage_dim
  pe_effective :: "gotime option"
  pe_id :: string
  pe_markup :: rat
  pe_model :: string
  pe_source :: string
  pe_unit_cost :: rat

definition allows_model_agnostic_pricing :: "api_type \<Rightarrow> bool" where
  "allows_model_agnostic_pricing api \<longleftrightarrow> api = APIFiles"

definition catalog_entry_of :: "pricing_entry \<Rightarrow> catalog_entry" where
  "catalog_entry_of e =
     (let markup = (if pe_markup e \<le> 0 then 1 else pe_markup e)
      in \<lparr>ce_id = pe_id e, ce_api = pe_api e,
          ce_currency = (if pe_currency e = [] then ''quota'' else pe_currency e), ce_dim = pe_dim e,
          ce_effective = pe_effective e, ce_markup = markup, ce_model = pe_model e,
          ce_source = (if pe_source e = [] then ''operator'' else pe_source e),
          ce_unit_cost = pe_unit_cost e, ce_unit_price = pe_unit_cost e * markup\<rparr>)"

fun add_entries :: "pricing_entry list \<Rightarrow> pricing_store \<Rightarrow> pricing_error + pricing_store" where
  "add_entries [] s = Inr s"
| "add_entries (e # es) s =
     (if pe_model e = [] \<and> \<not> allows_model_agnostic_pricing (pe_api e) then Inl EntryMissingModel
      else if \<not> valid_usage_dimension (pe_dim e) then Inl EntryBadDimension
      else if pe_api e = APIUnknown then Inl EntryBadApiType
      else if pe_unit_cost e \<le> 0 then Inl EntryBadCost
      else add_entries es (set_price_entry (catalog_entry_of e) s))"

definition new_pricing_store_from_entries :: "pricing_entry list \<Rightarrow> pricing_error + pricing_store" where
  "new_pricing_store_from_entries es = add_entries es new_pricing_store"

text \<open>
  \<open>LoadPricingStoreFromSQL\<close> on the active rows, in the order of the query; \<open>None\<close> is a query
  that failed. A row has its API type still as text.
\<close>

fun read_rows :: "(string \<times> pricing_entry) list \<Rightarrow> pricing_error + pricing_entry list" where
  "read_rows [] = Inr []"
| "read_rows ((raw, e) # rows) =
     (case parse_pricing_api_type raw of
        (api, ok) \<Rightarrow>
          if \<not> ok then Inl (CatalogBadApiType raw)
          else if \<not> valid_usage_dimension (pe_dim e) then Inl CatalogBadDimension
          else case read_rows rows of
            Inl err \<Rightarrow> Inl err | Inr es \<Rightarrow> Inr (e\<lparr>pe_api := api\<rparr> # es))"

definition load_pricing_store :: "(string \<times> pricing_entry) list option \<Rightarrow> pricing_error + pricing_store" where
  "load_pricing_store rows =
     (case rows of
        None \<Rightarrow> Inl CatalogQueryFailed
      | Some rs \<Rightarrow>
          (case read_rows rs of
             Inl e \<Rightarrow> Inl e
           | Inr es \<Rightarrow>
               (case new_pricing_store_from_entries es of
                  Inl e \<Rightarrow> Inl e
                | Inr s \<Rightarrow> if pricing_is_empty (Some s) then Inl CatalogEmpty else Inr s)))"

subsection \<open>The billing hook\<close>

datatype billing_status = BillingAuthorized | BillingSettled | BillingRefunded | BillingFailed

record hook_session =
  hs_channel :: string
  hs_api :: api_type
  hs_model :: string
  hs_group :: string
  hs_idem :: string
  hs_request :: string
  hs_attempt :: int
  hs_preauth :: rat
  hs_settled :: rat
  hs_status :: billing_status
  hs_created :: gotime

record billing_hook =
  bh_pricing :: "pricing_store option"
  bh_seen :: "string list option"

definition pre_bill ::
  "gotime \<Rightarrow> hook_session \<Rightarrow> relay_usage option \<Rightarrow> billing_hook
     \<Rightarrow> billing_hook \<times> hook_session \<times> (pricing_error + rat)" where
  "pre_bill now session usage h =
     (case bh_seen h of
        Some seen \<Rightarrow>
          if hs_idem session \<in> set seen then (h, session, Inr (hs_preauth session))
          else
            (let h1 = h\<lparr>bh_seen := Some (hs_idem session # seen)\<rparr>
             in case calculate_cost_for_group_strict (bh_pricing h) (hs_model session) (hs_api session)
                       usage (hs_group session) of
                  Inl e \<Rightarrow> (h1, session, Inl e)
                | Inr cost \<Rightarrow>
                    (h1, session\<lparr>hs_preauth := cost * (12/10), hs_status := BillingAuthorized, hs_created := now\<rparr>,
                     Inr (cost * (12/10))))
      | None \<Rightarrow>
          (case calculate_cost_for_group_strict (bh_pricing h) (hs_model session) (hs_api session)
                  usage (hs_group session) of
             Inl e \<Rightarrow> (h, session, Inl e)
           | Inr cost \<Rightarrow>
               (h, session\<lparr>hs_preauth := cost * (12/10), hs_status := BillingAuthorized, hs_created := now\<rparr>,
                Inr (cost * (12/10)))))"

definition settle_key :: "hook_session \<Rightarrow> string" where
  "settle_key session = hs_idem session @ '':settled''"

definition post_bill ::
  "hook_session \<Rightarrow> relay_usage option \<Rightarrow> billing_hook
     \<Rightarrow> billing_hook \<times> hook_session \<times> (pricing_error + rat)" where
  "post_bill session usage h =
     (let done = (\<lambda>h'. case calculate_cost_for_group_strict (bh_pricing h) (hs_model session) (hs_api session)
                       usage (hs_group session) of
                  Inl e \<Rightarrow> (h', session, Inl e)
                | Inr cost \<Rightarrow> (h', session\<lparr>hs_settled := cost, hs_status := BillingSettled\<rparr>, Inr cost))
      in case bh_seen h of
           Some seen \<Rightarrow>
             if settle_key session \<in> set seen then (h, session, Inr (hs_settled session))
             else done (h\<lparr>bh_seen := Some (settle_key session # seen)\<rparr>)
         | None \<Rightarrow> done h)"

definition hook_refund :: "hook_session \<Rightarrow> hook_session \<times> rat" where
  "hook_refund session =
     (let refund = hs_preauth session - hs_settled session
      in (session\<lparr>hs_status := BillingRefunded\<rparr>, if refund < 0 then 0 else refund))"

definition build_billing_session ::
  "gotime \<Rightarrow> string \<Rightarrow> string \<Rightarrow> api_type \<Rightarrow> string \<Rightarrow> hook_session" where
  "build_billing_session now channel model api idem =
     \<lparr>hs_channel = channel, hs_api = api, hs_model = model, hs_group = [], hs_idem = idem,
      hs_request = [], hs_attempt = 0, hs_preauth = 0, hs_settled = 0,
      hs_status = BillingAuthorized, hs_created = now\<rparr>"

subsection \<open>What a quote charges\<close>

text \<open>The reference: the dimensions of a usage that are charged, with their quantities.\<close>

definition charged :: "relay_usage \<Rightarrow> (usage_dim \<times> rat) list" where
  "charged u =
     filter (\<lambda>c. 0 < snd c)
       ((DimPromptTokens, of_int (u_prompt u)) # (DimCompletionTokens, of_int (u_completion u))
        # (if 0 < u_prompt u \<or> 0 < u_completion u then [] else [(DimTotalTokens, of_int (u_total u))])
        @ [(DimImageCount, of_int (u_images u)), (DimVideoCount, of_int (u_videos u)),
           (DimAudioSeconds, u_audio u), (DimStorageBytes, of_int (u_storage u)),
           (DimTrainingTokens, of_int (u_training u))])"

definition unit_price :: "pricing_store \<Rightarrow> string \<Rightarrow> api_type \<Rightarrow> usage_dim \<Rightarrow> rat" where
  "unit_price s model api dm =
     (case map_of (ps_prices s) (model, api, dm) of None \<Rightarrow> 0 | Some e \<Rightarrow> ce_unit_price e)"

fun add_all ::
  "pricing_store \<Rightarrow> string \<Rightarrow> api_type \<Rightarrow> (usage_dim \<times> rat) list \<Rightarrow> pricing_quote \<Rightarrow> pricing_error + pricing_quote"
where
  "add_all s model api [] q = Inr q"
| "add_all s model api ((d, n) # cs) q =
     (case add_dimension s model api d n q of Inl e \<Rightarrow> Inl e | Inr q' \<Rightarrow> add_all s model api cs q')"

definition bind_all where
  "bind_all s model api cs r = (case r of Inl e \<Rightarrow> Inl e | Inr q \<Rightarrow> add_all s model api cs q)"

lemma bind_all_append: "bind_all s model api (cs @ ds) r = bind_all s model api ds (bind_all s model api cs r)"
proof -
  have "add_all s model api (cs @ ds) q = bind_all s model api ds (add_all s model api cs q)" for q
    by (induction s model api cs q rule: add_all.induct) (auto simp: bind_all_def split: sum.splits)
  then show ?thesis by (auto simp: bind_all_def split: sum.splits)
qed

lemma add_when_bind:
  "add_when c s model api dm n r = bind_all s model api (if c then [(dm, n)] else []) r"
  by (auto simp: add_when_def bind_all_def split: sum.splits)

lemma quote_usage_charged:
  "quote_usage (Some s) model api (Some u) ugroup =
     (case add_all s model api (charged u) (empty_quote model api) of
        Inl e \<Rightarrow> Inl e
      | Inr q \<Rightarrow>
          (let q1 = q\<lparr>pq_group_mult := group_multiplier s ugroup\<rparr>
           in Inr (summarize_catalog_fields (q1\<lparr>pq_total := pq_subtotal q1 * pq_group_mult q1\<rparr>))))"
proof -
  have "charged u =
      (if 0 < u_prompt u then [(DimPromptTokens, of_int (u_prompt u))] else [])
    @ (if 0 < u_completion u then [(DimCompletionTokens, of_int (u_completion u))] else [])
    @ (if \<not> (0 < u_prompt u \<or> 0 < u_completion u) \<and> 0 < u_total u
       then [(DimTotalTokens, of_int (u_total u))] else [])
    @ (if 0 < u_images u then [(DimImageCount, of_int (u_images u))] else [])
    @ (if 0 < u_videos u then [(DimVideoCount, of_int (u_videos u))] else [])
    @ (if 0 < u_audio u then [(DimAudioSeconds, u_audio u)] else [])
    @ (if 0 < u_storage u then [(DimStorageBytes, of_int (u_storage u))] else [])
    @ (if 0 < u_training u then [(DimTrainingTokens, of_int (u_training u))] else [])"
    by (simp add: charged_def)
  then have "bind_all s model api (charged u) (Inr (empty_quote model api)) =
      add_when (0 < u_training u) s model api DimTrainingTokens (of_int (u_training u))
     (add_when (0 < u_storage u) s model api DimStorageBytes (of_int (u_storage u))
     (add_when (0 < u_audio u) s model api DimAudioSeconds (u_audio u)
     (add_when (0 < u_videos u) s model api DimVideoCount (of_int (u_videos u))
     (add_when (0 < u_images u) s model api DimImageCount (of_int (u_images u))
     (add_when (\<not> (0 < u_prompt u \<or> 0 < u_completion u) \<and> 0 < u_total u) s model api DimTotalTokens (of_int (u_total u))
     (add_when (0 < u_completion u) s model api DimCompletionTokens (of_int (u_completion u))
     (add_when (0 < u_prompt u) s model api DimPromptTokens (of_int (u_prompt u))
       (Inr (empty_quote model api)))))))))"
    by (simp only: add_when_bind bind_all_append)
  then show ?thesis
    by (simp only: quote_usage_def Let_def prod.case option.case) (simp add: bind_all_def)
qed

lemma add_all_result:
  "case add_all s model api cs q of
     Inl e \<Rightarrow> \<exists>c \<in> set cs. unit_price s model api (fst c) \<le> 0 \<and> e = PriceNotConfigured model api (fst c)
   | Inr q' \<Rightarrow> (\<forall>c \<in> set cs. 0 < unit_price s model api (fst c))
       \<and> pq_subtotal q' = pq_subtotal q + sum_list (List.map (\<lambda>c. unit_price s model api (fst c) * snd c) cs)
       \<and> List.map qd_quantity (pq_dims q') = List.map qd_quantity (pq_dims q) @ List.map snd cs"
proof (induction s model api cs q rule: add_all.induct)
  case (2 s model api d n cs q)
  show ?case
  proof (cases "add_dimension s model api d n q")
    case (Inl e)
    then have "unit_price s model api d \<le> 0 \<and> e = PriceNotConfigured model api d"
      by (auto simp: add_dimension_def price_entry_def unit_price_def Let_def split: option.splits if_splits)
    with Inl show ?thesis by simp
  next
    case (Inr q1)
    then have "0 < unit_price s model api d \<and> pq_subtotal q1 = pq_subtotal q + unit_price s model api d * n
        \<and> List.map qd_quantity (pq_dims q1) = List.map qd_quantity (pq_dims q) @ [n]"
      by (auto simp: add_dimension_def price_entry_def unit_price_def Let_def split: option.splits if_splits)
    with Inr 2 [OF Inr] show ?thesis by (simp split: sum.splits)
  qed
qed simp

lemma summarize_step_amounts:
  "pq_total (summarize_step ds q) = pq_total q \<and> pq_dims (summarize_step ds q) = pq_dims q
     \<and> pq_group_mult (summarize_step ds q) = pq_group_mult q"
  by (induction ds q rule: summarize_step.induct) (simp_all add: Let_def split: option.splits)

lemma summarize_amounts [simp]:
  "pq_total (summarize_catalog_fields q) = pq_total q" "pq_dims (summarize_catalog_fields q) = pq_dims q"
  by (simp_all add: summarize_catalog_fields_def summarize_step_amounts split: list.splits)

lemma charged_pos: "c \<in> set (charged u) \<Longrightarrow> 0 < snd c"
  by (auto simp: charged_def split: if_splits)

lemma group_multiplier_nonneg: "0 \<le> group_multiplier s ugroup"
  by (auto simp: group_multiplier_def split: option.splits)

text \<open>
  C10. A quote charges each used dimension once (the total tokens only when neither prompt nor
  completion tokens are given), at its catalog price, times the group's multiplier: nothing is
  charged at a missing or non-positive price, which is an error that names the dimension, and
  no cost is negative.
\<close>

theorem quote_is_the_priced_usage:
  "case quote_usage (Some s) model api (Some u) ugroup of
     Inl e \<Rightarrow> \<exists>c \<in> set (charged u). unit_price s model api (fst c) \<le> 0 \<and> e = PriceNotConfigured model api (fst c)
   | Inr q \<Rightarrow> (\<forall>c \<in> set (charged u). 0 < unit_price s model api (fst c))
       \<and> pq_total q = group_multiplier s ugroup *
            sum_list (List.map (\<lambda>c. unit_price s model api (fst c) * snd c) (charged u))
       \<and> List.map qd_quantity (pq_dims q) = List.map snd (charged u) \<and> 0 \<le> pq_total q"
proof (cases "add_all s model api (charged u) (empty_quote model api)")
  case (Inl e)
  then show ?thesis
    using add_all_result [where s = s and model = model and api = api and cs = "charged u" and q = "empty_quote model api"] by (simp add: quote_usage_charged)
next
  case (Inr q)
  let ?sum = "sum_list (List.map (\<lambda>c. unit_price s model api (fst c) * snd c) (charged u))"
  have q: "\<forall>c \<in> set (charged u). 0 < unit_price s model api (fst c)" "pq_subtotal q = ?sum"
    "List.map qd_quantity (pq_dims q) = List.map snd (charged u)"
    using add_all_result [where s = s and model = model and api = api and cs = "charged u" and q = "empty_quote model api"] Inr
    by (simp_all add: empty_quote_def)
  have "0 \<le> ?sum"
    by (intro sum_list_nonneg) (use q(1) charged_pos in \<open>fastforce intro!: mult_nonneg_nonneg less_imp_le\<close>)
  then have "0 \<le> group_multiplier s ugroup * ?sum"
    using group_multiplier_nonneg by (intro mult_nonneg_nonneg)
  with q Inr show ?thesis by (simp add: quote_usage_charged Let_def mult.commute)
qed

definition sample_usage :: relay_usage where
  "sample_usage = \<lparr>u_prompt = 1000, u_completion = 500, u_total = 1500, u_images = 0, u_videos = 0,
     u_audio = 0, u_storage = 0, u_training = 0\<rparr>"

theorem quote_is_the_priced_usage_witness:
  "(\<exists>q. quote_usage (Some pricing_store_with_defaults) ''gpt-4o'' APIChat (Some sample_usage) [] = Inr q
      \<and> pq_total q = 6)
 \<and> quote_usage (Some pricing_store_with_defaults) ''gpt-4o'' APIEmbeddings (Some sample_usage) []
     = Inl (PriceNotConfigured ''gpt-4o'' APIEmbeddings DimCompletionTokens)"
proof
  let ?r = "quote_usage (Some pricing_store_with_defaults) ''gpt-4o'' APIChat (Some sample_usage) []"
  have "case ?r of Inl _ \<Rightarrow> False | Inr _ \<Rightarrow> True" by code_simp
  then obtain q where q: "?r = Inr q" by (cases ?r) auto
  have "group_multiplier pricing_store_with_defaults [] *
      sum_list (List.map (\<lambda>c. unit_price pricing_store_with_defaults ''gpt-4o'' APIChat (fst c) * snd c)
        (charged sample_usage)) = 6" by code_simp
  with quote_is_the_priced_usage [where s = pricing_store_with_defaults and model = "''gpt-4o''"
      and api = APIChat and u = sample_usage and ugroup = "[]"] q
  show "\<exists>q. ?r = Inr q \<and> pq_total q = 6" by simp
  show "quote_usage (Some pricing_store_with_defaults) ''gpt-4o'' APIEmbeddings (Some sample_usage) []
     = Inl (PriceNotConfigured ''gpt-4o'' APIEmbeddings DimCompletionTokens)" by code_simp
qed

subsection \<open>A loaded catalog\<close>

lemma api_type_string_inj: "api_type_string a = api_type_string b \<longleftrightarrow> a = b"
  by (cases a; cases b) simp_all

lemma priced_api_types_all: "a \<in> set priced_api_types \<longleftrightarrow> a \<noteq> APIUnknown"
  by (cases a) (simp_all add: priced_api_types_def)

lemma parse_string: "a \<noteq> APIUnknown \<Longrightarrow> parse_pricing_api_type (api_type_string a) = (a, True)"
proof -
  assume a: "a \<noteq> APIUnknown"
  have "find (\<lambda>b. api_type_string b = api_type_string a) priced_api_types \<noteq> None"
    using a priced_api_types_all by (auto simp: find_None_iff)
  then obtain b where b: "find (\<lambda>b. api_type_string b = api_type_string a) priced_api_types = Some b" by auto
  then have "api_type_string b = api_type_string a" by (auto simp: find_Some_iff)
  with b show ?thesis by (simp add: parse_pricing_api_type_def api_type_string_inj)
qed

lemma parse_unknown: "parse_pricing_api_type ''unknown'' = (APIUnknown, False)"
  by code_simp

lemma read_rows_written:
  assumes "read_rows (List.map (\<lambda>e. (api_type_string (pe_api e), e)) es) = Inr es'"
  shows "es' = es"
  using assms
proof (induction es arbitrary: es')
  case (Cons e es)
  show ?case
  proof (cases "pe_api e = APIUnknown")
    case True
    with Cons.prems show ?thesis by (simp add: parse_unknown)
  next
    case False
    with Cons show ?thesis by (simp add: parse_string split: sum.splits if_splits)
  qed
qed simp

definition entry_key :: "pricing_entry \<Rightarrow> price_key" where
  "entry_key e = (pe_model e, pe_api e, pe_dim e)"

lemma add_entries_lookup:
  assumes "add_entries es s = Inr s'"
  shows "map_of (ps_prices s') k =
    (case find (\<lambda>e. entry_key e = k) (rev es) of
       Some e \<Rightarrow> Some (catalog_entry_of e) | None \<Rightarrow> map_of (ps_prices s) k)
    \<and> (\<forall>e \<in> set es. 0 < pe_unit_cost e)"
  using assms
proof (induction es s rule: add_entries.induct)
  case (2 e es s)
  have find_append: "find P (xs @ [x]) = (case find P xs of Some y \<Rightarrow> Some y | None \<Rightarrow> if P x then Some x else None)"
    for P :: "pricing_entry \<Rightarrow> bool" and xs x by (induction xs) auto
  from 2(2) have step: "add_entries es (set_price_entry (catalog_entry_of e) s) = Inr s'" "0 < pe_unit_cost e"
    by (auto split: if_splits)
  have "map_of (ps_prices (set_price_entry (catalog_entry_of e) s)) k =
      (if entry_key e = k then Some (catalog_entry_of e) else map_of (ps_prices s) k)"
    by (auto simp: set_price_entry_def update_conv' catalog_entry_of_def entry_key_def Let_def)
  with 2(1) [OF _ _ _ _ step(1)] 2(2) step show ?case
    by (auto simp: find_append split: option.splits if_splits)
qed simp

text \<open>
  A catalog that loads prices every model, API type and dimension by the last active row
  for it, at its cost times its markup (one when the markup is not positive), whatever names
  the API types are stored under; with no row for it the price is reported as missing.
\<close>

theorem loaded_catalog_prices:
  assumes "load_pricing_store (Some (List.map (\<lambda>e. (api_type_string (pe_api e), e)) es)) = Inr s"
  shows "get_price model api dm s =
    (case find (\<lambda>e. entry_key e = (model, api, dm)) (rev es) of
       None \<Rightarrow> Inl (PriceNotConfigured model api dm)
     | Some e \<Rightarrow> Inr (pe_unit_cost e * (if pe_markup e \<le> 0 then 1 else pe_markup e)))"
proof -
  from assms obtain es' where "read_rows (List.map (\<lambda>e. (api_type_string (pe_api e), e)) es) = Inr es'"
    and es': "add_entries es' new_pricing_store = Inr s"
    by (auto simp: load_pricing_store_def new_pricing_store_from_entries_def split: sum.splits if_splits)
  then have add: "add_entries es new_pricing_store = Inr s" using read_rows_written by blast
  note look = add_entries_lookup [OF add, of "(model, api, dm)"]
  show ?thesis
  proof (cases "find (\<lambda>e. entry_key e = (model, api, dm)) (rev es)")
    case None
    then show ?thesis using look by (simp add: get_price_def price_entry_def new_pricing_store_def)
  next
    case (Some e)
    then have "e \<in> set es" by (metis find_Some_iff nth_mem set_rev)
    then have "0 < pe_unit_cost e * (if pe_markup e \<le> 0 then 1 else pe_markup e)"
      using look by simp
    then show ?thesis using Some look
      by (simp add: get_price_def price_entry_def catalog_entry_of_def Let_def)
  qed
qed

definition sample_entries :: "pricing_entry list" where
  "sample_entries =
     (let e = \<lparr>pe_api = APIChat, pe_currency = [], pe_dim = DimPromptTokens, pe_effective = None, pe_id = ''e'',
               pe_markup = 0, pe_model = ''m'', pe_source = [], pe_unit_cost = 2\<rparr>
      in [e, e\<lparr>pe_markup := 3\<rparr>])"

theorem loaded_catalog_prices_witness:
  "\<exists>s. load_pricing_store (Some (List.map (\<lambda>e. (api_type_string (pe_api e), e)) sample_entries)) = Inr s
     \<and> get_price ''m'' APIChat DimPromptTokens s = Inr 6"
proof -
  let ?r = "load_pricing_store (Some (List.map (\<lambda>e. (api_type_string (pe_api e), e)) sample_entries))"
  have "case ?r of Inl _ \<Rightarrow> False | Inr _ \<Rightarrow> True" by code_simp
  then obtain s where s: "?r = Inr s" by (cases ?r) auto
  from loaded_catalog_prices [OF this, of "''m''" APIChat DimPromptTokens] s show ?thesis
    by (simp add: sample_entries_def entry_key_def Let_def)
qed

subsection \<open>The billing hook remembers a failure as done\<close>

text \<open>
  \<open>PreBill\<close> marks the idempotency key before it prices the request. Once pricing has
  failed, every repetition of the request under that key succeeds with the amount the session
  carries, zero for a new session, and nothing is authorized.
\<close>

theorem failed_pre_bill_then_free:
  assumes "bh_seen h = Some seen" "pre_bill now session usage h = (h', session', Inl e)"
    and "hs_idem retry = hs_idem session"
  shows "pre_bill now' retry usage' h' = (h', retry, Inr (hs_preauth retry))"
  using assms by (auto simp: pre_bill_def Let_def split: if_splits sum.splits)

theorem failed_pre_bill_then_free_witness:
  "let h = \<lparr>bh_pricing = Some pricing_store_with_defaults, bh_seen = Some []\<rparr>;
       s = build_billing_session 1 ''c'' ''unpriced'' APIChat ''k'';
       h' = fst (pre_bill 2 s (Some sample_usage) h)
   in pre_bill 3 s (Some sample_usage) h' = (h', s, Inr 0)"
proof -
  let ?h = "\<lparr>bh_pricing = Some pricing_store_with_defaults, bh_seen = Some []\<rparr>"
  let ?s = "build_billing_session 1 ''c'' ''unpriced'' APIChat ''k''"
  let ?r = "pre_bill 2 ?s (Some sample_usage) ?h"
  have "snd (snd ?r) = Inl (PriceNotConfigured ''unpriced'' APIChat DimPromptTokens)" by code_simp
  then have "?r = (fst ?r, fst (snd ?r), Inl (PriceNotConfigured ''unpriced'' APIChat DimPromptTokens))"
    by (simp add: prod_eq_iff)
  from failed_pre_bill_then_free [OF _ this, of "[]" ?s 3 "Some sample_usage"] show ?thesis
    by (simp add: Let_def) (simp add: build_billing_session_def)
qed

end
