(* ===== verification/Load_Balancer.thy ===== *)
theory Load_Balancer
  imports Prelude "HOL-Library.AList" "HOL-Library.Multiset"
begin

text \<open>
  Channel selection: the channel pool (\<open>src/server/internal/relay/pool.go\<close>) and the load
  balancer over it (\<open>src/server/internal/relay/loadbalancer.go\<close>), with the key function of
  \<open>router.go\<close>.

  A nil pointer is \<open>None\<close>. The pool's maps are association lists whose order stands for Go's
  iteration order. A selection takes the clock \<open>now\<close>, one random draw in \<open>[0, 1)\<close>, and the
  logarithm of \<open>math.Log2\<close> as a function on the rationals that stand for floats. Counts and
  weights are taken below the width of \<open>int\<close>.
\<close>

subsection \<open>Channels, routes, statistics\<close>

record channel =
  ch_id :: string
  ch_org :: string
  ch_provider :: string
  ch_priority :: int
  ch_weight :: int
  ch_cost :: rat
  ch_cost_mult :: rat
  ch_enabled :: bool

record route_channel =
  rc_channel :: "channel option"
  rc_id :: string
  rc_weight :: int
  rc_priority :: int
  rc_enabled :: bool
  rc_healthy :: bool
  rc_cost :: rat
  rc_cost_mult :: rat

record model_route =
  mr_model :: string
  mr_strategy :: string
  mr_channels :: "route_channel list"

record runtime_sample =
  sm_at :: gotime
  sm_success :: bool
  sm_latency :: int

record channel_stats =
  cs_success :: int
  cs_failure :: int
  cs_latency_sum :: int
  cs_latency_count :: int
  cs_invalid :: bool
  cs_forbidden :: bool
  cs_limited_until :: gotime
  cs_samples :: "runtime_sample list"

record channel_pool =
  cp_channels :: "(string \<times> channel) list"
  cp_routes :: "(string \<times> model_route) list"
  cp_stats :: "(string \<times> channel_stats) list"

record load_balancer =
  lb_pool :: channel_pool
  lb_strategy :: string
  lb_cursor :: int

definition route_channel_id :: "route_channel \<Rightarrow> string" where
  "route_channel_id rc =
     (if rc_id rc \<noteq> [] then rc_id rc
      else case rc_channel rc of None \<Rightarrow> [] | Some ch \<Rightarrow> ch_id ch)"

subsection \<open>The pool\<close>

definition new_channel_pool :: channel_pool where
  "new_channel_pool = \<lparr>cp_channels = [], cp_routes = [], cp_stats = []\<rparr>"

definition fresh_stats :: channel_stats where
  "fresh_stats = \<lparr>cs_success = 0, cs_failure = 0, cs_latency_sum = 0, cs_latency_count = 0,
     cs_invalid = False, cs_forbidden = False, cs_limited_until = zero_time, cs_samples = []\<rparr>"

definition channel_matches_organization :: "channel option \<Rightarrow> string \<Rightarrow> bool" where
  "channel_matches_organization ch org0 =
     (let org = trim_space org0
      in if org = [] then True
         else case ch of
           None \<Rightarrow> False
         | Some c \<Rightarrow> trim_space (ch_org c) = [] \<or> trim_space (ch_org c) = org)"

definition get_channel :: "string \<Rightarrow> channel_pool \<Rightarrow> channel option" where
  "get_channel cid p = map_of (cp_channels p) cid"

definition get_channel_for_organization :: "string \<Rightarrow> string \<Rightarrow> channel_pool \<Rightarrow> channel option" where
  "get_channel_for_organization cid org p =
     (case map_of (cp_channels p) cid of
        None \<Rightarrow> None
      | Some ch \<Rightarrow> if channel_matches_organization (Some ch) org then Some ch else None)"

text \<open>\<open>None\<close> is the nil slice of a model without a route.\<close>

definition get_channels_by_model :: "string \<Rightarrow> channel_pool \<Rightarrow> route_channel list option" where
  "get_channels_by_model model p = map_option mr_channels (map_of (cp_routes p) model)"

definition get_stats :: "string \<Rightarrow> channel_pool \<Rightarrow> channel_stats option" where
  "get_stats cid p = map_of (cp_stats p) cid"

definition ensure_stats :: "string \<Rightarrow> channel_pool \<Rightarrow> channel_pool" where
  "ensure_stats cid p =
     (if map_of (cp_stats p) cid = None then p\<lparr>cp_stats := AList.update cid fresh_stats (cp_stats p)\<rparr> else p)"

definition update_channel :: "channel \<Rightarrow> channel_pool \<Rightarrow> channel_pool" where
  "update_channel ch p = ensure_stats (ch_id ch) (p\<lparr>cp_channels := AList.update (ch_id ch) ch (cp_channels p)\<rparr>)"

definition update_route :: "model_route \<Rightarrow> channel_pool \<Rightarrow> channel_pool" where
  "update_route r p = p\<lparr>cp_routes := AList.update (mr_model r) r (cp_routes p)\<rparr>"

definition replace_config :: "channel option list \<Rightarrow> model_route option list \<Rightarrow> channel_pool" where
  "replace_config chans routes =
     fold (\<lambda>r p. case r of None \<Rightarrow> p | Some route \<Rightarrow> update_route route p) routes
       (fold (\<lambda>c p. case c of
          None \<Rightarrow> p
        | Some ch \<Rightarrow>
            if ch_id ch = [] then p
            else p\<lparr>cp_channels := AList.update (ch_id ch) ch (cp_channels p),
                   cp_stats := AList.update (ch_id ch) fresh_stats (cp_stats p)\<rparr>)
          chans new_channel_pool)"

definition list_channels_for_organization :: "string \<Rightarrow> channel_pool \<Rightarrow> channel list" where
  "list_channels_for_organization org p =
     filter (\<lambda>ch. channel_matches_organization (Some ch) org) (List.map snd (cp_channels p))"

definition set_channel_healthy :: "string \<Rightarrow> bool \<Rightarrow> channel_pool \<Rightarrow> channel_pool" where
  "set_channel_healthy cid healthy p =
     p\<lparr>cp_routes := List.map (\<lambda>(m, r). (m, r\<lparr>mr_channels :=
         List.map (\<lambda>rc. if rc_id rc = cid then rc\<lparr>rc_healthy := healthy\<rparr> else rc) (mr_channels r)\<rparr>))
       (cp_routes p)\<rparr>"

definition add_channel :: "channel \<Rightarrow> int \<Rightarrow> channel_pool \<Rightarrow> channel_pool" where
  "add_channel ch weight p0 =
     (let p = update_channel ch p0;
          r = (case map_of (cp_routes p) [] of
                 Some r \<Rightarrow> r | None \<Rightarrow> \<lparr>mr_model = [], mr_strategy = ''weighted'', mr_channels = []\<rparr>)
      in p\<lparr>cp_routes := AList.update [] (r\<lparr>mr_channels := mr_channels r @
           [\<lparr>rc_channel = Some ch, rc_id = ch_id ch, rc_weight = weight, rc_priority = 0,
             rc_enabled = ch_enabled ch, rc_healthy = ch_enabled ch, rc_cost = ch_cost ch,
             rc_cost_mult = ch_cost_mult ch\<rparr>]\<rparr>) (cp_routes p)\<rparr>)"

subsection \<open>Candidates\<close>

definition default_route_channel_weight :: "channel \<Rightarrow> int" where
  "default_route_channel_weight ch = (if ch_weight ch \<le> 0 then 100 else ch_weight ch)"

text \<open>One route channel of \<open>modelRouteChannelsForOrganization\<close>: kept, with its channel refreshed, or dropped.\<close>

definition route_channel_for :: "channel_pool \<Rightarrow> string \<Rightarrow> route_channel \<Rightarrow> route_channel option" where
  "route_channel_for p org rc0 =
     (let rc = (case rc_channel rc0 of
                  Some ch \<Rightarrow> if rc_id rc0 = [] then rc0\<lparr>rc_id := ch_id ch\<rparr> else rc0
                | None \<Rightarrow> rc0)
      in case (if rc_id rc = [] then None else get_channel (rc_id rc) p) of
           Some ch \<Rightarrow>
             if channel_matches_organization (Some ch) org then Some (rc\<lparr>rc_channel := Some ch\<rparr>) else None
         | None \<Rightarrow> if channel_matches_organization (rc_channel rc) org then Some rc else None)"

definition model_route_channels :: "channel_pool \<Rightarrow> string \<Rightarrow> string \<Rightarrow> route_channel list \<times> bool" where
  "model_route_channels p model org =
     (case get_channels_by_model model p of
        None \<Rightarrow> ([], False)
      | Some rcs \<Rightarrow> (List.map_filter (route_channel_for p org) rcs, True))"

definition route_of_channel :: "channel \<Rightarrow> route_channel" where
  "route_of_channel ch =
     \<lparr>rc_channel = Some ch, rc_id = ch_id ch, rc_weight = default_route_channel_weight ch,
      rc_priority = ch_priority ch, rc_enabled = ch_enabled ch, rc_healthy = ch_enabled ch,
      rc_cost = ch_cost ch, rc_cost_mult = ch_cost_mult ch\<rparr>"

definition usable_now :: "channel_pool \<Rightarrow> gotime \<Rightarrow> route_channel \<Rightarrow> bool" where
  "usable_now p now rc \<longleftrightarrow>
     (case get_stats (route_channel_id rc) p of
        None \<Rightarrow> True
      | Some st \<Rightarrow> \<not> (cs_limited_until st \<noteq> zero_time \<and> now < cs_limited_until st)
          \<and> \<not> cs_invalid st \<and> \<not> cs_forbidden st)
   \<and> rc_healthy rc"

definition filter_healthy :: "channel_pool \<Rightarrow> gotime \<Rightarrow> string \<Rightarrow> string \<Rightarrow> route_channel list" where
  "filter_healthy p now model org =
     (let (rcs1, has1) = model_route_channels p model org;
          (rcs2, has2) = (if rcs1 = [] \<and> model \<noteq> [] \<and> \<not> has1 then model_route_channels p [] org else (rcs1, has1));
          rcs3 = (if rcs2 = [] \<and> \<not> has2
                  then List.map route_of_channel (filter ch_enabled (list_channels_for_organization org p))
                  else rcs2)
      in filter (usable_now p now) rcs3)"

subsection \<open>Selectors\<close>

text \<open>A selection: nil, a channel, or the panic of a nil dereference.\<close>

datatype pick = NoChannel | Picked route_channel | Panicked

definition total_weight :: "route_channel list \<Rightarrow> int" where
  "total_weight rcs = sum_list (List.map rc_weight (filter (\<lambda>rc. 0 < rc_weight rc) rcs))"

text \<open>The loop over the cumulative weights; the last channel when none is reached.\<close>

fun weighted_at :: "route_channel list \<Rightarrow> int \<Rightarrow> int \<Rightarrow> route_channel option" where
  "weighted_at [] position cumulative = None"
| "weighted_at (rc # rcs) position cumulative =
     (if rc_weight rc \<le> 0 then weighted_at rcs position cumulative
      else if position < cumulative + rc_weight rc then Some rc
      else weighted_at rcs position (cumulative + rc_weight rc))"

definition weighted_select :: "route_channel list \<Rightarrow> int \<Rightarrow> int \<times> pick" where
  "weighted_select rcs cursor =
     (if total_weight rcs \<le> 0 then
        (let c = (if int (length rcs) \<le> cursor then 0 else cursor) in (c + 1, Picked (rcs ! nat c)))
      else
        (cursor + 1,
         Picked (case weighted_at rcs (cursor mod total_weight rcs) 0 of
                   Some rc \<Rightarrow> rc | None \<Rightarrow> last rcs)))"

fun priority_loop :: "route_channel list \<Rightarrow> route_channel \<Rightarrow> pick" where
  "priority_loop [] best = Picked best"
| "priority_loop (rc # rcs) best =
     (case (rc_channel rc, rc_channel best) of
        (Some a, Some b) \<Rightarrow> priority_loop rcs (if ch_priority a < ch_priority b then rc else best)
      | _ \<Rightarrow> Panicked)"

definition priority_select :: "route_channel list \<Rightarrow> pick" where
  "priority_select rcs = priority_loop rcs (hd rcs)"

text \<open>The loop that both random selectors share: the first channel whose cumulated weight exceeds \<open>r\<close>.\<close>

fun random_at :: "(route_channel \<times> rat) list \<Rightarrow> rat \<Rightarrow> rat \<Rightarrow> route_channel option" where
  "random_at [] r cumulative = None"
| "random_at ((rc, w) # ws) r cumulative =
     (if r < cumulative + w then Some rc else random_at ws r (cumulative + w))"

definition random_select :: "(route_channel \<Rightarrow> rat) \<Rightarrow> route_channel list \<Rightarrow> rat \<Rightarrow> pick" where
  "random_select weight rcs draw =
     Picked (case random_at (List.map (\<lambda>rc. (rc, weight rc)) rcs) (draw * sum_list (List.map weight rcs)) 0 of
               Some rc \<Rightarrow> rc | None \<Rightarrow> last rcs)"

definition cost_weight :: "route_channel \<Rightarrow> rat" where
  "cost_weight rc = 1 / (if rc_cost rc \<le> 0 then 1 else rc_cost rc)"

definition cost_aware_select :: "route_channel list \<Rightarrow> rat \<Rightarrow> pick" where
  "cost_aware_select rcs draw = random_select cost_weight rcs draw"

definition adaptive_runtime_window :: duration where
  "adaptive_runtime_window = 5 * go_minute"

definition adaptive_window_stats :: "channel_stats \<Rightarrow> gotime \<Rightarrow> int \<times> int \<times> int" where
  "adaptive_window_stats st now =
     (let live = filter (\<lambda>s. sm_at s \<noteq> zero_time \<and> now - adaptive_runtime_window < sm_at s) (cs_samples st)
      in (int (length live), int (length (filter (\<lambda>s. \<not> sm_success s) live)),
          sum_list (List.map (\<lambda>s. if 0 \<le> sm_latency s then sm_latency s else 0) live)))"

text \<open>The error rate, health score and mean latency that \<open>adaptiveWeight\<close> starts from.\<close>

definition adaptive_figures :: "channel_stats option \<Rightarrow> gotime \<Rightarrow> rat \<times> rat \<times> rat" where
  "adaptive_figures st now =
     (case st of
        None \<Rightarrow> (0, 100, 100)
      | Some s \<Rightarrow>
          (case adaptive_window_stats s now of
             (tot, failures, latency) \<Rightarrow>
               (let (err, health, lat) =
                      (if 0 < tot then
                         (let e = of_int failures / of_int tot
                          in (e, 100 * (1 - e), of_int latency / of_int tot / 1000))
                       else
                         (let n = cs_success s + cs_failure s;
                              e = (if 0 < n then of_int (cs_failure s) / of_int n else 0);
                              h = (if 0 < n then 100 * (1 - e) else 100);
                              l = (if 0 < cs_latency_count s
                                   then of_int (cs_latency_sum s) / of_int (cs_latency_count s) / 1000 else 100)
                          in (e, h, l)))
                in (err, if 0 < lat then health * min 1 (200 / lat) else health, lat))))"

definition adaptive_weight :: "(rat \<Rightarrow> rat) \<Rightarrow> channel_pool \<Rightarrow> gotime \<Rightarrow> route_channel \<Rightarrow> rat" where
  "adaptive_weight lg p now rc =
     (let static = (if rc_weight rc \<le> 0 then 1 else rc_weight rc);
          (err, health, lat) = adaptive_figures (get_stats (route_channel_id rc) p) now;
          log_latency = (if lg (lat + 1) \<le> 0 then 1 else lg (lat + 1));
          weight = of_int static * (health / 100) * (1 - err) / log_latency
      in if weight < 0 then 0 else weight)"

definition adaptive_select ::
  "(rat \<Rightarrow> rat) \<Rightarrow> channel_pool \<Rightarrow> gotime \<Rightarrow> route_channel list \<Rightarrow> rat \<Rightarrow> int \<Rightarrow> int \<times> pick" where
  "adaptive_select lg p now rcs draw cursor =
     (if sum_list (List.map (adaptive_weight lg p now) rcs) \<le> 0 then weighted_select rcs cursor
      else (cursor, random_select (adaptive_weight lg p now) rcs draw))"

definition select_from_candidates ::
  "(rat \<Rightarrow> rat) \<Rightarrow> gotime \<Rightarrow> rat \<Rightarrow> load_balancer \<Rightarrow> route_channel list \<Rightarrow> load_balancer \<times> pick" where
  "select_from_candidates lg now draw lb rcs =
     (case (if lb_strategy lb = ''priority'' then (lb_cursor lb, priority_select rcs)
            else if lb_strategy lb = ''cost_aware'' then (lb_cursor lb, cost_aware_select rcs draw)
            else if lb_strategy lb = ''adaptive''
              then adaptive_select lg (lb_pool lb) now rcs draw (lb_cursor lb)
            else weighted_select rcs (lb_cursor lb)) of
        (cursor, p) \<Rightarrow> (lb\<lparr>lb_cursor := cursor\<rparr>, p))"

definition adjusted_candidate_weights ::
  "(route_channel \<Rightarrow> int) option \<Rightarrow> route_channel list \<Rightarrow> route_channel list" where
  "adjusted_candidate_weights adjuster rcs =
     (case adjuster of
        None \<Rightarrow> rcs | Some f \<Rightarrow> List.map (\<lambda>rc. rc\<lparr>rc_weight := f rc\<rparr>) rcs)"

definition select_model_for_organization ::
  "(rat \<Rightarrow> rat) \<Rightarrow> gotime \<Rightarrow> rat \<Rightarrow> string \<Rightarrow> string \<Rightarrow> load_balancer \<Rightarrow> load_balancer \<times> pick" where
  "select_model_for_organization lg now draw model org lb =
     (let rcs = filter_healthy (lb_pool lb) now model org
      in if rcs = [] then (lb, NoChannel) else select_from_candidates lg now draw lb rcs)"

text \<open>The usable candidates that are not excluded; an empty exclusion excludes nothing.\<close>

definition remaining_candidates ::
  "gotime \<Rightarrow> string \<Rightarrow> string \<Rightarrow> string list \<Rightarrow> load_balancer \<Rightarrow> route_channel list" where
  "remaining_candidates now model org excluded lb =
     filter (\<lambda>rc. route_channel_id rc \<notin> set excluded) (filter_healthy (lb_pool lb) now model org)"

definition select_model_excluding ::
  "(rat \<Rightarrow> rat) \<Rightarrow> gotime \<Rightarrow> rat \<Rightarrow> string \<Rightarrow> string \<Rightarrow> string list \<Rightarrow> load_balancer \<Rightarrow> load_balancer \<times> pick" where
  "select_model_excluding lg now draw model org excluded lb =
     (let rcs = remaining_candidates now model org excluded lb
      in if rcs = [] then (lb, NoChannel) else select_from_candidates lg now draw lb rcs)"

definition select_model_excluding_with_weights ::
  "(rat \<Rightarrow> rat) \<Rightarrow> gotime \<Rightarrow> rat \<Rightarrow> string \<Rightarrow> string \<Rightarrow> string list \<Rightarrow> (route_channel \<Rightarrow> int) option
     \<Rightarrow> load_balancer \<Rightarrow> load_balancer \<times> pick" where
  "select_model_excluding_with_weights lg now draw model org excluded adjuster lb =
     (let rcs = remaining_candidates now model org excluded lb
      in if rcs = [] then (lb, NoChannel)
         else select_from_candidates lg now draw lb (adjusted_candidate_weights adjuster rcs))"

definition select_model_channel_by_id ::
  "gotime \<Rightarrow> string \<Rightarrow> string \<Rightarrow> string \<Rightarrow> load_balancer \<Rightarrow> pick" where
  "select_model_channel_by_id now model cid org lb =
     (case find (\<lambda>rc. route_channel_id rc = cid) (filter_healthy (lb_pool lb) now model org) of
        None \<Rightarrow> NoChannel | Some rc \<Rightarrow> Picked rc)"

subsection \<open>Every selector picks a candidate\<close>

text \<open>
  What the balancer relies on in a selection strategy: it picks one of the candidates, and it
  picks one whenever the candidates carry what it reads (\<open>able\<close>).
\<close>

locale channel_selector =
  fixes pick_from :: "int \<Rightarrow> route_channel list \<Rightarrow> int \<times> pick"
    and able :: "route_channel \<Rightarrow> bool"
  assumes picks_member: "rcs \<noteq> [] \<Longrightarrow> snd (pick_from cursor rcs) = Picked rc \<Longrightarrow> rc \<in> set rcs"
    and picks_one: "rcs \<noteq> [] \<Longrightarrow> \<forall>rc \<in> set rcs. able rc \<Longrightarrow> \<exists>rc. snd (pick_from cursor rcs) = Picked rc"
    and never_none: "rcs \<noteq> [] \<Longrightarrow> snd (pick_from cursor rcs) \<noteq> NoChannel"
begin

lemma picks_with:
  assumes "rcs \<noteq> []" "\<forall>rc \<in> set rcs. P rc" "snd (pick_from cursor rcs) = Picked rc"
  shows "P rc"
  using picks_member [OF assms(1,3)] assms(2) by blast

lemma picks_able:
  assumes "rcs \<noteq> []" "\<forall>rc \<in> set rcs. able rc"
  shows "\<exists>rc \<in> set rcs. snd (pick_from cursor rcs) = Picked rc"
  using picks_one [OF assms, of cursor] picks_member [OF assms(1)] by blast

end

lemma weighted_at_member: "weighted_at rcs position cumulative = Some rc \<Longrightarrow> rc \<in> set rcs"
  by (induction rcs position cumulative rule: weighted_at.induct) (auto split: if_splits)

lemma random_at_member: "random_at ws r cumulative = Some rc \<Longrightarrow> rc \<in> fst ` set ws"
  by (induction ws r cumulative rule: random_at.induct) (auto split: if_splits)

lemma random_select_member: "rcs \<noteq> [] \<Longrightarrow> random_select weight rcs draw = Picked rc \<Longrightarrow> rc \<in> set rcs"
  by (auto simp: random_select_def split: option.splits dest!: random_at_member)

lemma weighted_select_member: "rcs \<noteq> [] \<Longrightarrow> snd (weighted_select rcs cursor) = Picked rc \<Longrightarrow> rc \<in> set rcs"
proof (cases "total_weight rcs \<le> 0")
  case True
  assume rcs: "rcs \<noteq> []" "snd (weighted_select rcs cursor) = Picked rc"
  then have "nat (if int (length rcs) \<le> cursor then 0 else cursor) < length rcs"
    by (cases "cursor < 0") auto
  with True rcs show ?thesis by (auto simp: weighted_select_def Let_def)
next
  case False
  assume "rcs \<noteq> []" "snd (weighted_select rcs cursor) = Picked rc"
  with False show ?thesis
    by (auto simp: weighted_select_def split: option.splits dest: weighted_at_member)
qed

lemma priority_loop_member:
  "priority_loop rcs best = Picked rc \<Longrightarrow> rc \<in> set rcs \<or> rc = best"
  by (induction rcs best rule: priority_loop.induct) (auto split: option.splits if_splits)

lemma priority_loop_total:
  "\<forall>rc \<in> set rcs. rc_channel rc \<noteq> None \<Longrightarrow> rc_channel best \<noteq> None \<Longrightarrow> \<exists>rc. priority_loop rcs best = Picked rc"
  by (induction rcs best rule: priority_loop.induct) auto

lemma priority_loop_not_none: "priority_loop rcs best \<noteq> NoChannel"
  by (induction rcs best rule: priority_loop.induct) (auto split: option.splits)

lemma weighted_select_picks: "\<exists>rc. snd (weighted_select rcs cursor) = Picked rc"
  by (simp add: weighted_select_def Let_def)

interpretation weighted: channel_selector "\<lambda>cursor rcs. weighted_select rcs cursor" "\<lambda>_. True"
  by unfold_locales
    (auto intro: weighted_select_member simp: weighted_select_def Let_def)

interpretation by_priority: channel_selector "\<lambda>cursor rcs. (cursor, priority_select rcs)" "\<lambda>rc. rc_channel rc \<noteq> None"
  by unfold_locales
    (auto simp: priority_select_def priority_loop_not_none dest!: priority_loop_member intro: priority_loop_total)

interpretation cost_aware: channel_selector "\<lambda>cursor rcs. (cursor, cost_aware_select rcs draw)" "\<lambda>_. True"
  by unfold_locales (auto simp: cost_aware_select_def random_select_member, auto simp: random_select_def)

interpretation adaptive: channel_selector "\<lambda>cursor rcs. adaptive_select lg p now rcs draw cursor" "\<lambda>_. True"
  by unfold_locales
    (auto simp: adaptive_select_def intro: random_select_member weighted.picks_member split: if_splits,
     auto simp: random_select_def weighted_select_picks dest: weighted.never_none)

text \<open>The balancer's choice is a selector itself, whichever strategy is configured.\<close>

interpretation balancer: channel_selector
  "\<lambda>cursor rcs. apfst lb_cursor (select_from_candidates lg now draw (lb\<lparr>lb_cursor := cursor\<rparr>) rcs)"
  "\<lambda>rc. lb_strategy lb = ''priority'' \<longrightarrow> rc_channel rc \<noteq> None"
proof
  fix rcs :: "route_channel list" and cursor rc
  assume rcs: "rcs \<noteq> []"
  let ?r = "snd (apfst lb_cursor (select_from_candidates lg now draw (lb\<lparr>lb_cursor := cursor\<rparr>) rcs))"
  have r: "?r =
      (if lb_strategy lb = ''priority'' then snd (cursor, priority_select rcs)
       else if lb_strategy lb = ''cost_aware'' then snd (cursor, cost_aware_select rcs draw)
       else if lb_strategy lb = ''adaptive'' then snd (adaptive_select lg (lb_pool lb) now rcs draw cursor)
       else snd (weighted_select rcs cursor))"
    by (simp add: select_from_candidates_def split: prod.splits)
  show "rc \<in> set rcs" if "?r = Picked rc"
    using that rcs unfolding r
    by (auto split: if_splits dest: by_priority.picks_member cost_aware.picks_member
        adaptive.picks_member weighted.picks_member)
  show "?r \<noteq> NoChannel"
    using rcs unfolding r
    by (auto split: if_splits dest: by_priority.never_none cost_aware.never_none
        adaptive.never_none weighted.never_none)
  show "\<exists>rc. ?r = Picked rc" if "\<forall>rc \<in> set rcs. lb_strategy lb = ''priority'' \<longrightarrow> rc_channel rc \<noteq> None"
  proof -
    have prio: "\<exists>rc. priority_select rcs = Picked rc" if "\<forall>rc \<in> set rcs. rc_channel rc \<noteq> None"
      using by_priority.picks_one [OF rcs that] by simp
    have cost: "\<exists>rc. cost_aware_select rcs draw = Picked rc"
      using cost_aware.picks_one [OF rcs] by simp
    show ?thesis
      using that prio cost adaptive.picks_one [OF rcs] weighted_select_picks unfolding r by auto
  qed
qed

subsection \<open>What a selected channel satisfies\<close>

lemma select_from_member:
  assumes "rcs \<noteq> []" "snd (select_from_candidates lg now draw lb rcs) = Picked rc"
  shows "rc \<in> set rcs"
  using balancer.picks_member [OF assms(1), where cursor = "lb_cursor lb" and lb = lb and lg = lg
      and now = now and draw = draw and rc = rc] assms(2) by simp

lemma select_from_pool [simp]:
  "lb_pool (fst (select_from_candidates lg now draw lb rcs)) = lb_pool lb"
  "lb_strategy (fst (select_from_candidates lg now draw lb rcs)) = lb_strategy lb"
  by (simp_all add: select_from_candidates_def split: prod.splits)

text \<open>The organization of a candidate's channel, for a request of \<open>org\<close>.\<close>

definition serves :: "string \<Rightarrow> route_channel \<Rightarrow> bool" where
  "serves org rc \<longleftrightarrow>
     trim_space org = []
   \<or> (\<exists>ch. rc_channel rc = Some ch \<and> (trim_space (ch_org ch) = [] \<or> trim_space (ch_org ch) = trim_space org))"

lemma matches_serves: "channel_matches_organization (rc_channel rc) org \<Longrightarrow> serves org rc"
  by (auto simp: channel_matches_organization_def serves_def Let_def split: if_splits option.splits)

lemma route_channel_for_serves: "route_channel_for p org rc0 = Some rc \<Longrightarrow> serves org rc"
  by (auto simp: route_channel_for_def Let_def intro!: matches_serves split: option.splits if_splits)

lemma model_route_serves: "rc \<in> set (fst (model_route_channels p model org)) \<Longrightarrow> serves org rc"
  by (auto simp: model_route_channels_def map_filter_def split: option.splits dest: route_channel_for_serves)

lemma filter_healthy_member:
  assumes "rc \<in> set (filter_healthy p now model org)"
  shows "usable_now p now rc \<and> serves org rc"
proof -
  have "serves org rc" if "rc \<in> route_of_channel ` set (filter ch_enabled (list_channels_for_organization org p))"
    using that by (auto simp: list_channels_for_organization_def route_of_channel_def intro!: matches_serves)
  with assms model_route_serves [of rc p model org] model_route_serves [of rc p "[]" org] show ?thesis
    by (auto simp: filter_healthy_def Let_def case_prod_beta' split: if_splits)
qed

text \<open>
  C38. Whatever the strategy, the random draw and the state of the balancer: a channel selected
  for an organization is healthy, not rate-limited, invalid or forbidden at that moment, is
  none of the excluded ones, and belongs to that organization or to none.
\<close>

theorem selected_channel_is_usable:
  assumes "snd (select_model_excluding lg now draw model org excluded lb) = Picked rc"
  shows "rc_healthy rc \<and> route_channel_id rc \<notin> set excluded \<and> serves org rc
    \<and> (\<forall>st. get_stats (route_channel_id rc) (lb_pool lb) = Some st \<longrightarrow>
          \<not> cs_invalid st \<and> \<not> cs_forbidden st \<and> (cs_limited_until st = zero_time \<or> cs_limited_until st \<le> now))"
proof -
  let ?rcs = "remaining_candidates now model org excluded lb"
  have "?rcs \<noteq> []" "snd (select_from_candidates lg now draw lb ?rcs) = Picked rc"
    using assms by (auto simp: select_model_excluding_def Let_def split: if_splits)
  from select_from_member [OF this] filter_healthy_member
  have "usable_now (lb_pool lb) now rc \<and> route_channel_id rc \<notin> set excluded \<and> serves org rc"
    by (auto simp: remaining_candidates_def)
  then show ?thesis by (auto simp: usable_now_def)
qed

definition sample_channel :: "string \<Rightarrow> string \<Rightarrow> channel" where
  "sample_channel cid org = \<lparr>ch_id = cid, ch_org = org, ch_provider = ''openai'', ch_priority = 1, ch_weight = 0,
     ch_cost = 1, ch_cost_mult = 1, ch_enabled = True\<rparr>"

definition sample_balancer :: load_balancer where
  "sample_balancer = \<lparr>lb_pool = add_channel (sample_channel ''a'' ''org1'') 2
       (add_channel (sample_channel ''b'' ''org2'') 5 (add_channel (sample_channel ''c'' []) 1 new_channel_pool)),
     lb_strategy = ''weighted'', lb_cursor = 0\<rparr>"

theorem selected_channel_is_usable_witness:
  "case snd (select_model_excluding (\<lambda>x. x) 100 0 ''m'' ''org1'' [''c''] sample_balancer) of
     Picked rc \<Rightarrow> rc_healthy rc \<and> serves ''org1'' rc \<and> route_channel_id rc = ''a''
   | _ \<Rightarrow> False"
proof -
  let ?r = "snd (select_model_excluding (\<lambda>x. x) 100 0 ''m'' ''org1'' [''c''] sample_balancer)"
  have "case ?r of Picked rc \<Rightarrow> route_channel_id rc = ''a'' | _ \<Rightarrow> False" by code_simp
  then obtain rc where rc: "?r = Picked rc" "route_channel_id rc = ''a''" by (cases ?r) auto
  from selected_channel_is_usable [OF rc(1)] rc show ?thesis by simp
qed

text \<open>
  A selection fails only when it must: with no usable channel left it returns none, and
  with one left it returns a channel, unless the priority strategy meets a route without a
  channel, where it panics.
\<close>

theorem selection_is_total:
  "case snd (select_model_excluding lg now draw model org excluded lb) of
      NoChannel \<Rightarrow> remaining_candidates now model org excluded lb = []
    | Picked rc \<Rightarrow> rc \<in> set (remaining_candidates now model org excluded lb)
    | Panicked \<Rightarrow> lb_strategy lb = ''priority''
        \<and> (\<exists>rc \<in> set (remaining_candidates now model org excluded lb). rc_channel rc = None)"
proof (cases "remaining_candidates now model org excluded lb = []")
  case True
  then show ?thesis by (simp add: select_model_excluding_def)
next
  case False
  let ?rcs = "remaining_candidates now model org excluded lb"
  have sel: "snd (select_model_excluding lg now draw model org excluded lb)
      = snd (select_from_candidates lg now draw lb ?rcs)"
    using False by (simp add: select_model_excluding_def)
  have "snd (select_from_candidates lg now draw lb ?rcs) \<noteq> NoChannel"
    using balancer.never_none [OF False, where cursor = "lb_cursor lb" and lb = lb and lg = lg
      and now = now and draw = draw] by simp
  moreover have "\<exists>rc \<in> set ?rcs. snd (select_from_candidates lg now draw lb ?rcs) = Picked rc"
    if "\<forall>rc \<in> set ?rcs. lb_strategy lb = ''priority'' \<longrightarrow> rc_channel rc \<noteq> None"
    using balancer.picks_able [OF False that, where cursor = "lb_cursor lb" and lg = lg
      and now = now and draw = draw] by simp
  ultimately show ?thesis
    using select_from_member [OF False] by (fastforce simp: sel split: pick.splits)
qed

subsection \<open>Weighted selection is fair\<close>

text \<open>\<open>n\<close> selections in a row over the same candidates.\<close>

fun weighted_picks :: "nat \<Rightarrow> route_channel list \<Rightarrow> int \<Rightarrow> pick list" where
  "weighted_picks 0 rcs cursor = []"
| "weighted_picks (Suc n) rcs cursor =
     (case weighted_select rcs cursor of (cursor', p) \<Rightarrow> p # weighted_picks n rcs cursor')"

text \<open>Every channel as often as its weight says.\<close>

definition expanded :: "route_channel list \<Rightarrow> route_channel list" where
  "expanded rcs = concat (List.map (\<lambda>rc. replicate (nat (rc_weight rc)) rc) rcs)"

lemma expanded_Cons: "expanded (rc # rcs) = replicate (nat (rc_weight rc)) rc @ expanded rcs"
  by (simp add: expanded_def)

lemma length_expanded: "int (length (expanded rcs)) = total_weight rcs"
  by (induction rcs) (auto simp: expanded_def total_weight_def)

lemma weighted_at_expanded:
  assumes "cumulative \<le> position" "position - cumulative < int (length (expanded rcs))"
  shows "weighted_at rcs position cumulative = Some (expanded rcs ! nat (position - cumulative))"
  using assms
proof (induction rcs position cumulative rule: weighted_at.induct)
  case (2 rc rcs position cumulative)
  show ?case
  proof (cases "rc_weight rc \<le> 0 \<or> position < cumulative + rc_weight rc")
    case True
    then show ?thesis
    proof (cases "rc_weight rc \<le> 0")
      case True
      then have "expanded (rc # rcs) = expanded rcs" by (simp add: expanded_Cons)
      then show ?thesis using 2 True by simp
    next
      case False
      then show ?thesis using True 2(3) by (simp add: expanded_Cons nth_append)
    qed
  next
    case False
    then have "weighted_at rcs position (cumulative + rc_weight rc)
        = Some (expanded rcs ! nat (position - (cumulative + rc_weight rc)))"
      using 2 by (auto simp: expanded_Cons)
    moreover have "nat (position - (cumulative + rc_weight rc)) = nat (position - cumulative) - nat (rc_weight rc)"
      using False by linarith
    ultimately show ?thesis using False 2(3) by (simp add: expanded_Cons nth_append)
  qed
qed (simp add: expanded_def)

lemma weighted_select_at:
  assumes "0 < total_weight rcs" "0 \<le> cursor"
  shows "weighted_select rcs cursor =
     (cursor + 1, Picked (expanded rcs ! (nat cursor mod length (expanded rcs))))"
proof -
  have "nat (cursor mod total_weight rcs) = nat cursor mod length (expanded rcs)"
    using assms by (metis length_expanded nat_int nat_mod_distrib of_nat_0_le_iff)
  moreover have "weighted_at rcs (cursor mod total_weight rcs) 0
      = Some (expanded rcs ! nat (cursor mod total_weight rcs))"
    using weighted_at_expanded [of 0 "cursor mod total_weight rcs" rcs] assms
    by (simp add: length_expanded)
  ultimately show ?thesis using assms(1) by (simp add: weighted_select_def)
qed

lemma weighted_picks_rotate:
  assumes "0 < total_weight rcs" "0 \<le> cursor"
  shows "weighted_picks n rcs cursor =
     List.map (\<lambda>i. Picked (expanded rcs ! ((nat cursor + i) mod length (expanded rcs)))) [0..<n]"
  using assms(2)
proof (induction n arbitrary: cursor)
  case (Suc n)
  have "weighted_picks (Suc n) rcs cursor =
      Picked (expanded rcs ! (nat cursor mod length (expanded rcs))) # weighted_picks n rcs (cursor + 1)"
    by (simp add: weighted_select_at [OF assms(1) Suc.prems])
  also have "weighted_picks n rcs (cursor + 1) =
      List.map (\<lambda>i. Picked (expanded rcs ! ((nat cursor + Suc i) mod length (expanded rcs)))) [0..<n]"
    using Suc.IH [of "cursor + 1"] Suc.prems by (simp add: nat_add_distrib)
  finally show ?case
    by (simp add: upt_conv_Cons map_Suc_upt [symmetric] o_def del: upt_Suc)
qed simp

text \<open>
  Weighted selection is fair: over as many selections as the positive weights sum up to,
  wherever the cursor stands, every candidate is picked exactly as often as its weight, and
  the ones of weight zero or less never.
\<close>

theorem weighted_cycle_is_fair:
  assumes "0 < total_weight rcs" "0 \<le> cursor"
  shows "mset (weighted_picks (nat (total_weight rcs)) rcs cursor)
           = image_mset Picked (mset (concat (List.map (\<lambda>rc. replicate (nat (rc_weight rc)) rc) rcs)))"
proof -
  let ?e = "expanded rcs"
  have len: "nat (total_weight rcs) = length ?e" by (metis length_expanded nat_int)
  have "weighted_picks (nat (total_weight rcs)) rcs cursor = List.map Picked (rotate (nat cursor) ?e)"
    unfolding weighted_picks_rotate [OF assms] len
    by (rule nth_equalityI) (simp_all add: nth_rotate add.commute)
  then have "mset (weighted_picks (nat (total_weight rcs)) rcs cursor) = image_mset Picked (mset (rotate (nat cursor) ?e))"
    by simp
  also have "mset (rotate (nat cursor) ?e) = mset ?e"
    unfolding rotate_drop_take by (metis append_take_drop_id mset_append union_commute)
  finally show ?thesis by (simp add: expanded_def)
qed

definition sample_routes :: "route_channel list" where
  "sample_routes = List.map (\<lambda>(i, w). (route_of_channel (sample_channel i []))\<lparr>rc_weight := w\<rparr>)
     [(''a'', 2), (''b'', 0), (''c'', 1)]"

theorem weighted_cycle_is_fair_witness:
  "mset (weighted_picks 3 sample_routes 4)
     = image_mset Picked (mset (concat (List.map (\<lambda>rc. replicate (nat (rc_weight rc)) rc) sample_routes)))"
proof -
  have "total_weight sample_routes = 3" by code_simp
  with weighted_cycle_is_fair [of sample_routes 4] show ?thesis by simp
qed

end
