(* ===== verification/Api_Token.thy ===== *)
theory Api_Token
  imports Prelude
begin

text \<open>
  Relay API tokens, \<open>src/server/internal/relay/api_token.go\<close>: authentication, the token
  table with its quota column, and the refund receipts that make a compensation idempotent.

  The SHA-256 digest of a token and the random token are parameters. A driver call that fails
  is a \<open>token_fault\<close>; a failed statement changes nothing. \<open>used_quota\<close>, \<open>quota_limit\<close> and the
  amounts of receipts are columns with six decimals.
\<close>

subsection \<open>Rows\<close>

record token_row =
  tk_id :: string
  tk_user :: string
  tk_org :: string
  tk_group :: string
  tk_name :: string
  tk_hash :: string
  tk_prefix :: string
  tk_status :: string
  tk_limits_enabled :: bool
  tk_models :: "string list"
  tk_quota :: "usd option"
  tk_used :: usd
  tk_expires :: "gotime option"
  tk_last_used :: "gotime option"
  tk_created :: gotime
  tk_updated :: gotime
  tk_revoked :: "gotime option"

record token_receipt =
  rr_scope :: string
  rr_token :: string
  rr_amount :: usd
  rr_created :: gotime

record token_db =
  tokens :: "token_row list"
  receipts :: "token_receipt list"

record token_input =
  ti_user :: string
  ti_org :: string
  ti_group :: string
  ti_name :: string
  ti_limits_enabled :: bool
  ti_models :: "string list"
  ti_quota :: "usd option"
  ti_expires :: "gotime option"

record token_identity =
  id_token :: string
  id_user :: string
  id_org :: string
  id_group :: string

datatype token_call =
    TokInsert | TokList | TokRevoke | TokRevokeRows | TokGet | TokTouch | TokPre | TokPreRows | TokSettle
  | TokRefund | TokBegin | TokReceipt | TokReadReceipt | TokOnce | TokCommit

datatype token_error =
    TokenInvalid | TokenRevoked | TokenExpired | TokenModelDenied | TokenQuotaExceeded
  | TokenFault token_call | TokenNoRows | TokenConflict | TokenCheckViolation
  | InvalidRequest | ReceiptMismatch

type_synonym token_fault = "token_call \<Rightarrow> bool"

subsection \<open>Models a token may use\<close>

definition contains_wildcard :: "string \<Rightarrow> bool" where
  "contains_wildcard pattern \<longleftrightarrow> CHR ''*'' \<in> set pattern"

text \<open>
  The anchored regular expression that is built from a pattern: every \<open>*\<close> is \<open>.*\<close>, which
  does not match a newline, and everything else is literal.
\<close>

fun wildcard_regex :: "string \<Rightarrow> string \<Rightarrow> bool" where
  "wildcard_regex [] s = (s = [])"
| "wildcard_regex (p # ps) [] = (p = CHR ''*'' \<and> wildcard_regex ps [])"
| "wildcard_regex (p # ps) (c # cs) =
     (if p = CHR ''*''
      then wildcard_regex ps (c # cs) \<or> (c \<noteq> CHR 0x0A \<and> wildcard_regex (p # ps) cs)
      else p = c \<and> wildcard_regex ps cs)"

definition wildcard_match :: "string \<Rightarrow> string \<Rightarrow> bool" where
  "wildcard_match pattern model =
     (if pattern = [] \<or> model = [] then False
      else if pattern = ''*'' then True
      else if \<not> contains_wildcard pattern then pattern = model
      else wildcard_regex pattern model)"

definition token_allows_model :: "string list \<Rightarrow> string \<Rightarrow> bool" where
  "token_allows_model limits model =
     list_ex (\<lambda>a. a = ''*'' \<or> a = model \<or> wildcard_match a model) limits"

subsection \<open>The store\<close>

definition create_token ::
  "(string \<Rightarrow> string) \<Rightarrow> token_fault \<Rightarrow> gotime \<Rightarrow> string option \<Rightarrow> string \<Rightarrow> token_input \<Rightarrow> token_db
     \<Rightarrow> token_db \<times> (token_error + string \<times> token_row)" where
  "create_token hash fault now random_token new_id i db =
     (case random_token of
        None \<Rightarrow> (db, Inl TokenInvalid)
      | Some raw \<Rightarrow>
          (let row = \<lparr>tk_id = new_id, tk_user = ti_user i, tk_org = ti_org i,
                      tk_group = trim_space (ti_group i), tk_name = ti_name i, tk_hash = hash raw,
                      tk_prefix = take 12 raw, tk_status = ''active'',
                      tk_limits_enabled = ti_limits_enabled i, tk_models = ti_models i,
                      tk_quota = map_option dec6 (ti_quota i), tk_used = 0, tk_expires = ti_expires i,
                      tk_last_used = None, tk_created = now, tk_updated = now, tk_revoked = None\<rparr>
           in if fault TokInsert then (db, Inl (TokenFault TokInsert))
              else if list_ex (\<lambda>t. tk_id t = new_id \<or> tk_hash t = hash raw) (tokens db)
                then (db, Inl TokenConflict)
              else (db\<lparr>tokens := tokens db @ [row]\<rparr>, Inr (raw, row\<lparr>tk_quota := ti_quota i\<rparr>))))"

definition list_tokens :: "token_fault \<Rightarrow> string \<Rightarrow> string \<Rightarrow> token_db \<Rightarrow> token_error + token_row list" where
  "list_tokens fault org user db =
     (if fault TokList then Inl (TokenFault TokList)
      else Inr (sort_key (\<lambda>t. - tk_created t) (filter (\<lambda>t. tk_org t = org \<and> tk_user t = user) (tokens db))))"

definition revoke_token ::
  "token_fault \<Rightarrow> gotime \<Rightarrow> string \<Rightarrow> string \<Rightarrow> string \<Rightarrow> token_db \<Rightarrow> token_db \<times> token_error option" where
  "revoke_token fault now org user tid db =
     (let res = sql_update (\<lambda>t. tk_id t = tid \<and> tk_org t = org \<and> tk_user t = user \<and> tk_status t = ''active'')
            (\<lambda>t. t\<lparr>tk_status := ''revoked'', tk_revoked := Some now, tk_updated := now\<rparr>) (tokens db)
      in if fault TokRevoke then (db, Some (TokenFault TokRevoke))
         else if fault TokRevokeRows then (db\<lparr>tokens := fst res\<rparr>, Some (TokenFault TokRevokeRows))
         else if snd res = 0 then (db, Some TokenNoRows)
         else (db\<lparr>tokens := fst res\<rparr>, None))"

definition get_token_by_hash :: "token_fault \<Rightarrow> string \<Rightarrow> token_db \<Rightarrow> token_error + token_row" where
  "get_token_by_hash fault h db =
     (if fault TokGet then Inl (TokenFault TokGet)
      else case sql_select (\<lambda>t. tk_hash t = h) (tokens db) of
        None \<Rightarrow> Inl TokenNoRows | Some t \<Rightarrow> Inr t)"

definition touch_token :: "token_fault \<Rightarrow> gotime \<Rightarrow> string \<Rightarrow> token_db \<Rightarrow> token_db" where
  "touch_token fault now tid db =
     (if fault TokTouch then db
      else db\<lparr>tokens := fst (sql_update (\<lambda>t. tk_id t = tid)
             (\<lambda>t. t\<lparr>tk_last_used := Some now, tk_updated := now\<rparr>) (tokens db))\<rparr>)"

definition pre_match :: "string \<Rightarrow> usd \<Rightarrow> token_row \<Rightarrow> bool" where
  "pre_match tid amt t \<longleftrightarrow>
     tk_id t = tid \<and> tk_status t = ''active''
   \<and> (case tk_quota t of None \<Rightarrow> True | Some limit \<Rightarrow> tk_used t + amt \<le> limit)"

definition pre_authorize_token ::
  "token_fault \<Rightarrow> gotime \<Rightarrow> string \<Rightarrow> usd \<Rightarrow> token_db \<Rightarrow> token_db \<times> token_error option" where
  "pre_authorize_token fault now tid amt db =
     (if amt \<le> 0 then (db, None)
      else
        (let res = sql_update (pre_match tid amt)
               (\<lambda>t. t\<lparr>tk_used := dec6 (tk_used t + amt), tk_updated := now\<rparr>) (tokens db)
         in if fault TokPre then (db, Some (TokenFault TokPre))
            else if fault TokPreRows then (db\<lparr>tokens := fst res\<rparr>, Some (TokenFault TokPreRows))
            else if snd res = 0 then (db, Some TokenQuotaExceeded)
            else (db\<lparr>tokens := fst res\<rparr>, None)))"

definition settle_token ::
  "token_fault \<Rightarrow> gotime \<Rightarrow> string \<Rightarrow> usd \<Rightarrow> usd \<Rightarrow> token_db \<Rightarrow> token_db \<times> token_error option" where
  "settle_token fault now tid pre actual db =
     (let delta = actual - pre
      in if delta = 0 then (db, None)
         else if fault TokSettle then (db, Some (TokenFault TokSettle))
         else (db\<lparr>tokens := fst (sql_update (\<lambda>t. tk_id t = tid)
                 (\<lambda>t. t\<lparr>tk_used := dec6 (max (tk_used t + delta) 0), tk_updated := now\<rparr>) (tokens db))\<rparr>, None))"

definition refund_update_token :: "gotime \<Rightarrow> usd \<Rightarrow> token_row \<Rightarrow> token_row" where
  "refund_update_token now amt t = t\<lparr>tk_used := dec6 (max (tk_used t - amt) 0), tk_updated := now\<rparr>"

definition refund_token ::
  "token_fault \<Rightarrow> gotime \<Rightarrow> string \<Rightarrow> usd \<Rightarrow> token_db \<Rightarrow> token_db \<times> token_error option" where
  "refund_token fault now tid amt db =
     (if amt \<le> 0 then (db, None)
      else if fault TokRefund then (db, Some (TokenFault TokRefund))
      else (db\<lparr>tokens := fst (sql_update (\<lambda>t. tk_id t = tid) (refund_update_token now amt) (tokens db))\<rparr>, None))"

text \<open>
  \<open>RefundRelayAPITokenQuotaOnce\<close>: insert the receipt or read the one that is there, compare
  it with the request, and decrement only when it was inserted. \<open>RETURNING\<close> and the select
  give the stored, rounded amount.
\<close>

definition refund_token_once ::
  "token_fault \<Rightarrow> gotime \<Rightarrow> string \<Rightarrow> usd \<Rightarrow> string \<Rightarrow> token_db \<Rightarrow> token_db \<times> token_error option" where
  "refund_token_once fault now tid amt scope db =
     (if amt \<le> 0 \<or> scope = [] \<or> tid = [] then (db, Some InvalidRequest)
      else if fault TokBegin then (db, Some (TokenFault TokBegin))
      else if fault TokReceipt then (db, Some (TokenFault TokReceipt))
      else
        (let finish = (\<lambda>inserted stored tx.
               if rr_token stored \<noteq> tid \<or> rr_amount stored \<noteq> amt then (db, Some ReceiptMismatch)
               else if inserted \<and> fault TokOnce then (db, Some (TokenFault TokOnce))
               else if fault TokCommit then (db, Some (TokenFault TokCommit))
               else (if inserted
                     then tx\<lparr>tokens := fst (sql_update (\<lambda>t. tk_id t = tid) (refund_update_token now amt) (tokens tx))\<rparr>
                     else tx, None));
             row = \<lparr>rr_scope = scope, rr_token = tid, rr_amount = dec6 amt, rr_created = now\<rparr>
         in case sql_select (\<lambda>r. rr_scope r = scope) (receipts db) of
              None \<Rightarrow>
                if dec6 amt \<le> 0 then (db, Some TokenCheckViolation)
                else finish True row (db\<lparr>receipts := receipts db @ [row]\<rparr>)
            | Some r \<Rightarrow>
                if fault TokReadReceipt then (db, Some (TokenFault TokReadReceipt)) else finish False r db))"

subsection \<open>Authentication\<close>

definition authenticate_token ::
  "(string \<Rightarrow> string) \<Rightarrow> token_fault \<Rightarrow> gotime \<Rightarrow> string \<Rightarrow> string \<Rightarrow> token_db
     \<Rightarrow> token_db \<times> (token_error + token_identity)" where
  "authenticate_token hash fault now raw model db =
     (if raw = [] then (db, Inl TokenInvalid)
      else case get_token_by_hash fault (hash raw) db of
        Inl e \<Rightarrow> (db, Inl (if e = TokenNoRows then TokenInvalid else e))
      | Inr t \<Rightarrow>
          if tk_id t = [] \<or> tk_user t = [] \<or> tk_org t = [] then (db, Inl TokenInvalid)
          else if tk_status t \<noteq> ''active'' then (db, Inl TokenRevoked)
          else if (case tk_expires t of None \<Rightarrow> False | Some x \<Rightarrow> \<not> now < x) then (db, Inl TokenExpired)
          else if tk_limits_enabled t \<and> \<not> token_allows_model (tk_models t) model then (db, Inl TokenModelDenied)
          else if (case tk_quota t of None \<Rightarrow> False | Some limit \<Rightarrow> limit \<le> tk_used t)
            then (db, Inl TokenQuotaExceeded)
          else (touch_token fault now (tk_id t) db,
                Inr \<lparr>id_token = tk_id t, id_user = tk_user t, id_org = tk_org t, id_group = tk_group t\<rparr>))"

subsection \<open>The quota of a token is kept\<close>

datatype token_op =
    TokOpPre string usd | TokOpSettle string usd usd | TokOpRefund string usd | TokOpOnce string usd string
  | TokOpRevoke string string string

fun token_exec :: "token_fault \<Rightarrow> gotime \<Rightarrow> token_op \<Rightarrow> token_db \<Rightarrow> token_db \<times> token_error option" where
  "token_exec fault now (TokOpPre tid amt) db = pre_authorize_token fault now tid amt db"
| "token_exec fault now (TokOpSettle tid pre actual) db = settle_token fault now tid pre actual db"
| "token_exec fault now (TokOpRefund tid amt) db = refund_token fault now tid amt db"
| "token_exec fault now (TokOpOnce tid amt scope) db = refund_token_once fault now tid amt scope db"
| "token_exec fault now (TokOpRevoke org user tid) db = revoke_token fault now org user tid db"

fun token_run :: "(token_fault \<times> gotime \<times> token_op) list \<Rightarrow> token_db \<Rightarrow> token_db" where
  "token_run [] db = db"
| "token_run ((fault, now, op) # ops) db = token_run ops (fst (token_exec fault now op db))"

text \<open>A settlement never charges more than was authorized.\<close>

fun settles_within :: "token_op \<Rightarrow> bool" where
  "settles_within (TokOpSettle tid pre actual) = (actual \<le> pre)"
| "settles_within _ = True"

definition within_quota :: "token_row \<Rightarrow> bool" where
  "within_quota t \<longleftrightarrow> 0 \<le> tk_used t
     \<and> (case tk_quota t of None \<Rightarrow> True | Some limit \<Rightarrow> grid limit \<and> tk_used t \<le> limit)"

lemma dec6_le_grid: "0 \<le> x \<Longrightarrow> x \<le> y \<Longrightarrow> grid y \<Longrightarrow> dec6 x \<le> y"
  by (metis dec6_mono grid_dec6)

lemma within_quota_lower:
  assumes "within_quota t" "0 \<le> u" "u \<le> tk_used t"
  shows "within_quota (t\<lparr>tk_used := dec6 u, tk_updated := now\<rparr>)"
  using assms dec6_nonneg dec6_le_grid by (fastforce simp: within_quota_def split: option.splits)

lemma within_quota_pre:
  assumes "within_quota t" "pre_match tid amt t" "0 < amt"
  shows "within_quota (t\<lparr>tk_used := dec6 (tk_used t + amt), tk_updated := now\<rparr>)"
  using assms dec6_nonneg dec6_le_grid
  by (fastforce simp: within_quota_def pre_match_def split: option.splits)

lemma within_quota_refund: "within_quota t \<Longrightarrow> 0 < amt \<Longrightarrow> within_quota (refund_update_token now amt t)"
  unfolding refund_update_token_def by (rule within_quota_lower) (auto simp: within_quota_def)

lemma within_quota_revoked [simp]:
  "within_quota (t\<lparr>tk_status := s, tk_revoked := r, tk_updated := now\<rparr>) = within_quota t"
  by (simp add: within_quota_def cong: option.case_cong)

lemma sql_update_all:
  "\<forall>r \<in> set rs. Q r \<Longrightarrow> (\<And>r. r \<in> set rs \<Longrightarrow> P r \<Longrightarrow> Q (f r)) \<Longrightarrow> \<forall>r \<in> set (fst (sql_update P f rs)). Q r"
  by (auto simp: sql_simps)

lemma token_exec_within:
  assumes ok: "\<forall>t \<in> set (tokens db). within_quota t" and "settles_within op"
  shows "\<forall>t \<in> set (tokens (fst (token_exec fault now op db))). within_quota t"
proof (cases op)
  case (TokOpPre tid amt)
  have "\<forall>t \<in> set (fst (sql_update (pre_match tid amt)
      (\<lambda>t. t\<lparr>tk_used := dec6 (tk_used t + amt), tk_updated := now\<rparr>) (tokens db))). within_quota t" if "0 < amt"
    using ok within_quota_pre that by (intro sql_update_all) auto
  with TokOpPre ok show ?thesis by (simp add: pre_authorize_token_def Let_def)
next
  case (TokOpSettle tid pre actual)
  have "\<forall>t \<in> set (fst (sql_update (\<lambda>t. tk_id t = tid)
      (\<lambda>t. t\<lparr>tk_used := dec6 (max (tk_used t + (actual - pre)) 0), tk_updated := now\<rparr>) (tokens db))). within_quota t"
    using ok assms(2) TokOpSettle
    by (intro sql_update_all within_quota_lower) (auto simp: within_quota_def)
  with TokOpSettle ok show ?thesis by (simp add: settle_token_def Let_def)
next
  case (TokOpRefund tid amt)
  have "\<forall>t \<in> set (fst (sql_update (\<lambda>t. tk_id t = tid) (refund_update_token now amt) (tokens db))). within_quota t"
    if "0 < amt" using ok within_quota_refund that by (intro sql_update_all) auto
  with TokOpRefund ok show ?thesis by (simp add: refund_token_def)
next
  case (TokOpOnce tid amt scope)
  have "\<forall>t \<in> set (fst (sql_update (\<lambda>t. tk_id t = tid) (refund_update_token now amt) (tokens db))). within_quota t"
    if "0 < amt" using ok within_quota_refund that by (intro sql_update_all) auto
  with TokOpOnce ok show ?thesis
    by (auto simp: refund_token_once_def Let_def split: option.splits)
next
  case (TokOpRevoke org user tid)
  have "\<forall>t \<in> set (fst (sql_update (\<lambda>t. tk_id t = tid \<and> tk_org t = org \<and> tk_user t = user \<and> tk_status t = ''active'')
      (\<lambda>t. t\<lparr>tk_status := ''revoked'', tk_revoked := Some now, tk_updated := now\<rparr>) (tokens db))). within_quota t"
    using ok by (intro sql_update_all) auto
  with TokOpRevoke ok show ?thesis by (simp add: revoke_token_def Let_def)
qed

text \<open>
  C11. When at the start the used quota of every token is between zero and its limit, and the limits are
  on the six-decimal grid: over any sequence of authorizations, refunds, refunds under a scope key and
  revocations, of any amounts, and of settlements for at most what was authorized (which the code of
  \<open>Settle\<close> leaves to its caller), with any driver faults, it stays so.
\<close>

theorem token_quota_never_exceeded:
  assumes "\<forall>t \<in> set (tokens db). within_quota t" "\<forall>step \<in> set trace. settles_within (snd (snd step))"
  shows "\<forall>t \<in> set (tokens (token_run trace db)). within_quota t"
  using assms
proof (induction trace arbitrary: db)
  case (Cons step trace)
  obtain fault now op where step: "step = (fault, now, op)" by (cases step) auto
  with Cons.prems have "\<forall>t \<in> set (tokens (fst (token_exec fault now op db))). within_quota t"
    by (intro token_exec_within) auto
  with Cons step show ?case by auto
qed simp

definition sample_token :: token_row where
  "sample_token = \<lparr>tk_id = ''t1'', tk_user = ''u1'', tk_org = ''org'', tk_group = [], tk_name = [], tk_hash = ''h'',
     tk_prefix = [], tk_status = ''active'', tk_limits_enabled = False, tk_models = [], tk_quota = Some 10,
     tk_used = 4, tk_expires = None, tk_last_used = None, tk_created = 1, tk_updated = 1, tk_revoked = None\<rparr>"

definition sample_token_db :: token_db where
  "sample_token_db = \<lparr>tokens = [sample_token], receipts = []\<rparr>"

lemma grid_ten: "grid (10 :: usd)"
  unfolding grid_iff by (rule exI [of _ 10000000]) simp

theorem token_quota_never_exceeded_witness:
  "list_all within_quota (tokens (token_run [(\<lambda>_. False, 5, TokOpPre ''t1'' 6), (\<lambda>_. False, 6, TokOpSettle ''t1'' 6 (5/2))]
     sample_token_db))"
  unfolding list_all_iff
  by (rule token_quota_never_exceeded)
    (simp_all add: sample_token_db_def sample_token_def within_quota_def grid_ten)

text \<open>
  A token authenticates only as what its row says: whoever is let in presented a token
  whose digest is stored, on an active, unexpired row that allows the model and has quota
  left, and acts as that row's user and organization.
\<close>

theorem authenticated_identity_is_genuine:
  assumes "authenticate_token hash fault now raw model db = (db', Inr ident)"
  shows "\<exists>t \<in> set (tokens db). tk_hash t = hash raw \<and> tk_status t = ''active''
     \<and> (\<forall>x. tk_expires t = Some x \<longrightarrow> now < x)
     \<and> (tk_limits_enabled t \<longrightarrow> token_allows_model (tk_models t) model)
     \<and> (\<forall>limit. tk_quota t = Some limit \<longrightarrow> tk_used t < limit)
     \<and> ident = \<lparr>id_token = tk_id t, id_user = tk_user t, id_org = tk_org t, id_group = tk_group t\<rparr>
     \<and> id_user ident \<noteq> [] \<and> id_org ident \<noteq> []"
proof -
  from assms obtain t where t: "get_token_by_hash fault (hash raw) db = Inr t"
    by (auto simp: authenticate_token_def split: sum.splits if_splits)
  then have "t \<in> set (tokens db)" "tk_hash t = hash raw"
    by (auto simp: get_token_by_hash_def dest: sql_select_Some split: option.splits if_splits)
  moreover have "tk_status t = ''active'' \<and> (\<forall>x. tk_expires t = Some x \<longrightarrow> now < x)
     \<and> (tk_limits_enabled t \<longrightarrow> token_allows_model (tk_models t) model)
     \<and> (\<forall>limit. tk_quota t = Some limit \<longrightarrow> tk_used t < limit)
     \<and> ident = \<lparr>id_token = tk_id t, id_user = tk_user t, id_org = tk_org t, id_group = tk_group t\<rparr>
     \<and> id_user ident \<noteq> [] \<and> id_org ident \<noteq> []"
    using assms t by (auto simp: authenticate_token_def split: if_splits option.splits)
  ultimately show ?thesis by blast
qed

theorem authenticated_identity_is_genuine_witness:
  "\<exists>t \<in> set (tokens sample_token_db). tk_hash t = ''h'' \<and> tk_status t = ''active''"
proof -
  let ?r = "authenticate_token (\<lambda>_. ''h'') (\<lambda>_. False) 5 ''obv_x'' ''m'' sample_token_db"
  have "snd ?r = Inr \<lparr>id_token = ''t1'', id_user = ''u1'', id_org = ''org'', id_group = []\<rparr>" by code_simp
  then have "?r = (fst ?r, Inr \<lparr>id_token = ''t1'', id_user = ''u1'', id_org = ''org'', id_group = []\<rparr>)"
    by (simp add: prod_eq_iff)
  from authenticated_identity_is_genuine [OF this] show ?thesis by blast
qed

subsection \<open>A refund happens once\<close>

lemma once_again:
  assumes "sql_select (\<lambda>r. rr_scope r = scope) (receipts db) = Some r" "rr_token r = tid" "rr_amount r = amt"
    and "0 < amt" "scope \<noteq> []" "tid \<noteq> []"
  shows "fst (refund_token_once fault now tid amt scope db) = db"
  using assms by (simp add: refund_token_once_def Let_def)

lemma once_first:
  assumes "sql_select (\<lambda>r. rr_scope r = scope) (receipts db) = None" "0 < amt" "grid amt" "scope \<noteq> []" "tid \<noteq> []"
    and "\<And>c. \<not> fault c"
  shows "refund_token_once fault now tid amt scope db =
    (\<lparr>tokens = fst (sql_update (\<lambda>t. tk_id t = tid) (refund_update_token now amt) (tokens db)),
      receipts = receipts db @ [\<lparr>rr_scope = scope, rr_token = tid, rr_amount = amt, rr_created = now\<rparr>]\<rparr>, None)"
  using assms by (simp add: refund_token_once_def Let_def grid_dec6)

text \<open>
  A compensating refund takes effect exactly once: the first call under a scope key
  decrements the token's used quota, and any number of repetitions under that key, whatever
  driver calls fail in them, leave the store as the first call left it.
\<close>

theorem refund_once_is_idempotent:
  assumes "\<not> list_ex (\<lambda>r. rr_scope r = scope) (receipts db)" "0 < amt" "grid amt" "scope \<noteq> []" "tid \<noteq> []"
    and "\<And>c. \<not> fault c"
    and first: "refund_token_once fault now tid amt scope db = (db', r)"
  shows "r = None \<and> tokens db' = List.map (\<lambda>t. if tk_id t = tid then refund_update_token now amt t else t) (tokens db)
     \<and> token_run (List.map (\<lambda>(f, t). (f, t, TokOpOnce tid amt scope)) again) db' = db'"
proof -
  have none: "sql_select (\<lambda>r. rr_scope r = scope) (receipts db) = None"
    using assms(1) by (auto simp: sql_select_None list_ex_iff)
  from once_first [OF none assms(2-5)] assms(6) first have db': "r = None"
    "tokens db' = fst (sql_update (\<lambda>t. tk_id t = tid) (refund_update_token now amt) (tokens db))"
    "receipts db' = receipts db @ [\<lparr>rr_scope = scope, rr_token = tid, rr_amount = amt, rr_created = now\<rparr>]"
    by auto
  have "sql_select (\<lambda>r. rr_scope r = scope) (receipts db')
      = Some \<lparr>rr_scope = scope, rr_token = tid, rr_amount = amt, rr_created = now\<rparr>"
    using none by (simp add: db'(3) sql_select_append) (simp add: sql_select_def)
  then have "fst (refund_token_once f t tid amt scope db') = db'" for f t
    by (rule once_again) (use assms in simp_all)
  then have "token_run (List.map (\<lambda>(f, t). (f, t, TokOpOnce tid amt scope)) again) db' = db'"
    by (induction again) auto
  with db' show ?thesis by (simp add: sql_simps)
qed

theorem refund_once_is_idempotent_witness:
  "let db' = fst (refund_token_once (\<lambda>_. False) 5 ''t1'' 1 ''k'' sample_token_db)
   in token_run [(\<lambda>_. False, 6, TokOpOnce ''t1'' 1 ''k''), (\<lambda>_. True, 7, TokOpOnce ''t1'' 1 ''k'')] db' = db'"
proof -
  let ?r = "refund_token_once (\<lambda>_. False) 5 ''t1'' 1 ''k'' sample_token_db"
  have one: "grid (1 :: usd)" unfolding grid_iff by (rule exI [of _ 1000000]) simp
  from refund_once_is_idempotent [of "''k''" sample_token_db 1 "''t1''" "\<lambda>_. False" 5 "fst ?r" "snd ?r"
      "[(\<lambda>_. False, 6), (\<lambda>_. True, 7)]"] one
  show ?thesis by (simp add: sample_token_db_def)
qed

text \<open>
  An amount that is not on the six-decimal grid of the receipt column is never refunded:
  the rounded amount that the new receipt returns differs from the request, which is reported
  as a mismatch, and the transaction is rolled back, on every retry.
\<close>

theorem off_grid_refund_never_happens:
  assumes "\<not> list_ex (\<lambda>r. rr_scope r = scope) (receipts db)" "\<not> grid amt" "0 < dec6 amt" "0 < amt"
    and "scope \<noteq> []" "tid \<noteq> []" "\<And>c. \<not> fault c"
  shows "refund_token_once fault now tid amt scope db = (db, Some ReceiptMismatch)"
proof -
  have "sql_select (\<lambda>r. rr_scope r = scope) (receipts db) = None"
    using assms(1) by (auto simp: sql_select_None list_ex_iff)
  moreover have "dec6 amt \<noteq> amt" using assms(2) by (simp add: grid_def)
  ultimately show ?thesis using assms by (simp add: refund_token_once_def Let_def)
qed

theorem off_grid_refund_never_happens_witness:
  "refund_token_once (\<lambda>_. False) 5 ''t1'' (1/3) ''k'' sample_token_db = (sample_token_db, Some ReceiptMismatch)"
proof -
  have d: "dec6 (1/3) = 333333/1000000" by code_simp
  show ?thesis
    by (rule off_grid_refund_never_happens) (simp_all add: sample_token_db_def grid_def d)
qed

end
