(* ===== verification/Sql_Names.thy ===== *)
theory Sql_Names
  imports Prelude
begin

text \<open>
  How PostgreSQL finds the columns that a statement names, before it runs the statement: a column
  named with a relation has to be one column of that relation, a column named alone has to be one
  column of all the relations in scope, and an output column without an alias goes by the name of
  its column or of the function it calls. A statement that names a column that is not there, or
  that several relations have, is rejected, and nothing of it takes place.
\<close>

datatype sql_expr =
    Column string
  | ColumnOf string string
  | CallOf string sql_expr

type_synonym sql_scope = "(string \<times> string list) list"

fun resolves :: "sql_scope \<Rightarrow> sql_expr \<Rightarrow> bool" where
  "resolves scope (Column c) = (sum_list (List.map (\<lambda>(rel, cs). count_list cs c) scope) = 1)"
| "resolves scope (ColumnOf r c) = (sum_list (List.map (\<lambda>(rel, cs). if rel = r then count_list cs c else 0) scope) = 1)"
| "resolves scope (CallOf f e) = resolves scope e"

fun output_name :: "sql_expr \<Rightarrow> string" where
  "output_name (Column c) = c"
| "output_name (ColumnOf r c) = c"
| "output_name (CallOf f e) = f"

text \<open>The outputs of one part of a statement (a common table expression), for the parts after it.\<close>

definition output_names :: "sql_expr list \<Rightarrow> string list" where
  "output_names es = List.map output_name es"

text \<open>A column named alone that two relations have is ambiguous.\<close>

lemma ambiguous_column:
  assumes "c \<in> set cs" "c \<in> set ds"
  shows "\<not> resolves ((r, cs) # (s, ds) # scope) (Column c)"
proof -
  have "1 \<le> count_list cs c" "1 \<le> count_list ds c"
    using assms by (simp_all add: Suc_le_eq count_list_0_iff neq0_conv [symmetric] del: neq0_conv)
  then show ?thesis by simp
qed

text \<open>A column named alone that no relation has does not exist.\<close>

lemma missing_column: "c \<notin> set cs \<Longrightarrow> \<not> resolves [(r, cs)] (Column c)"
  by (simp add: count_list_0_iff [THEN iffD2])

end
