(* ===== verification/Compensation.thy ===== *)
theory Compensation
  imports Ledger_Properties Api_Token Sql_Names
begin

text \<open>
  Compensation of quota reservations after a late readiness denial,
  \<open>src/server/internal/relay/quota_compensation.go\<close>: the digests that identify a job, the
  durable job store, the coordinator that refunds at once, and the worker that is to retry. The
  statement with which a worker claims jobs names a column that two of its relations have; the
  database rejects it, so no worker ever gets a job.

  SHA-256 is a parameter on the hashed bytes, the random route attempt ID is not modelled. A
  store call that fails is a \<open>comp_fault\<close>; a failed call changes nothing. The quota manager and
  the API token manager are interfaces, records of functions here; what the compensation
  relies on in them is stated by the locales \<open>quota_refunder\<close> and \<open>once_refunder\<close>, which are
  interpreted on the models of the quota service and of the token store.
\<close>

subsection \<open>Requests and keys\<close>

record comp_request =
  cr_attempt :: string
  cr_stage :: string
  cr_org :: string
  cr_session :: string
  cr_token :: string
  cr_amount :: usd
  cr_idem :: string

record comp_keys =
  ck_job :: string
  ck_org_scope :: string
  ck_token_scope :: string

record comp_job =
  cj_key :: string
  cj_org_scope :: string
  cj_token_scope :: string
  cj_org :: string
  cj_session :: string
  cj_token :: string
  cj_amount :: usd
  cj_org_required :: bool
  cj_org_completed :: bool
  cj_token_required :: bool
  cj_token_completed :: bool
  cj_org_error :: string
  cj_token_error :: string
  cj_status :: string
  cj_attempts :: int
  cj_locked_at :: "gotime option"
  cj_locked_by :: string
  cj_available :: gotime
  cj_completed_at :: "gotime option"
  cj_created :: gotime
  cj_updated :: gotime

datatype comp_scope = ScopeOrganization | ScopeApiToken

datatype comp_call =
    CompArm | CompArmCommit | CompClaim | CompClaimCommit | CompMarkOk string comp_scope
  | CompMarkFailed string comp_scope | CompReceipt | CompReceiptCommit

datatype comp_error =
    AttemptRequired | CompInvalid | CompMismatch | CompUnavailable | CompFault comp_call | CompNoRows
  | CompUnique | CompCheck | CompAmbiguousName

type_synonym comp_fault = "comp_call \<Rightarrow> bool"

text \<open>Normalisation; an amount is a rational, so it is neither a NaN nor an infinity.\<close>

definition trim_request :: "comp_request \<Rightarrow> comp_request" where
  "trim_request r =
     \<lparr>cr_attempt = trim_space (cr_attempt r), cr_stage = trim_space (cr_stage r),
      cr_org = trim_space (cr_org r), cr_session = trim_space (cr_session r),
      cr_token = trim_space (cr_token r), cr_amount = cr_amount r, cr_idem = trim_space (cr_idem r)\<rparr>"

definition normalize_request :: "comp_request \<Rightarrow> comp_error + comp_request" where
  "normalize_request r0 =
     (let r = trim_request r0
      in if cr_attempt r = [] then Inl AttemptRequired
         else if cr_stage r \<noteq> ''late-model-readiness'' \<and> cr_stage r \<noteq> ''late-provider-readiness''
           then Inl CompInvalid
         else if (cr_org r = []) \<noteq> (cr_session r = []) then Inl CompInvalid
         else if cr_org r = [] \<and> cr_token r = [] then Inl CompInvalid
         else if cr_token r \<noteq> [] \<and> cr_amount r \<le> 0 then Inl CompInvalid
         else if cr_amount r < 0 then Inl CompInvalid
         else Inr r)"

text \<open>\<open>FormatFloat(amount, 'f', 6, 64)\<close> of a non-negative amount: rounded to six places, half to even.\<close>

definition round_half_even :: "rat \<Rightarrow> int" where
  "round_half_even x =
     (let f = \<lfloor>x\<rfloor>; d = x - of_int f
      in if d < 1/2 then f else if 1/2 < d then f + 1 else if even f then f else f + 1)"

definition pad6 :: "string \<Rightarrow> string" where
  "pad6 s = replicate (6 - length s) (CHR ''0'') @ s"

definition compensation_amount :: "usd \<Rightarrow> string" where
  "compensation_amount amt =
     (let k = round_half_even (amt * 1000000)
      in digits (k div 1000000) @ ''.'' @ pad6 (digits (k mod 1000000)))"

text \<open>The bytes that are hashed: each part with its length before it and a bar behind it.\<close>

fun digest_input :: "string list \<Rightarrow> string" where
  "digest_input [] = []"
| "digest_input (p # ps) = digits (int (length p)) @ '':'' @ p @ ''|'' @ digest_input ps"

definition compensation_digest :: "(string \<Rightarrow> string) \<Rightarrow> string list \<Rightarrow> string" where
  "compensation_digest sha parts = sha (digest_input parts)"

definition job_key_parts :: "comp_request \<Rightarrow> string list" where
  "job_key_parts r =
     [''relay-quota-compensation-job-v1'', cr_attempt r, cr_stage r, cr_session r, cr_token r,
      compensation_amount (cr_amount r), cr_idem r]"

definition build_keys :: "(string \<Rightarrow> string) \<Rightarrow> comp_request \<Rightarrow> comp_error + comp_keys" where
  "build_keys sha r0 =
     (case normalize_request r0 of
        Inl e \<Rightarrow> Inl e
      | Inr r \<Rightarrow>
          (let job = compensation_digest sha (job_key_parts r);
               scope = (\<lambda>s. compensation_digest sha [''relay-quota-compensation-scope-v1'', job, s])
           in Inr \<lparr>ck_job = job,
                   ck_org_scope = (if cr_org r \<noteq> [] then scope ''organization-quota'' else []),
                   ck_token_scope = (if cr_token r \<noteq> [] then scope ''api-token-quota'' else [])\<rparr>))"

definition is_digest :: "string \<Rightarrow> bool" where
  "is_digest v \<longleftrightarrow> length v = 64 \<and> list_all (\<lambda>c. c \<in> set ''0123456789abcdef'') v"

definition normalize_error_code :: "string \<Rightarrow> string" where
  "normalize_error_code code =
     (let c = trim_space code
      in if c \<in> {''refund_failed'', ''mark_failed'', ''retry_failed'', ''persistence_failed''} then c
         else ''unknown'')"

subsection \<open>The job store\<close>

definition job_conflict :: "comp_job \<Rightarrow> comp_job \<Rightarrow> bool" where
  "job_conflict j r \<longleftrightarrow>
     (cj_org_scope j \<noteq> [] \<and> cj_org_scope r = cj_org_scope j)
   \<or> (cj_token_scope j \<noteq> [] \<and> cj_token_scope r = cj_token_scope j)"

definition new_job :: "gotime \<Rightarrow> comp_keys \<Rightarrow> comp_request \<Rightarrow> comp_job" where
  "new_job now k r =
     \<lparr>cj_key = ck_job k, cj_org_scope = ck_org_scope k, cj_token_scope = ck_token_scope k,
      cj_org = cr_org r, cj_session = cr_session r, cj_token = cr_token r, cj_amount = dec6 (cr_amount r),
      cj_org_required = (cr_org r \<noteq> []), cj_org_completed = False,
      cj_token_required = (cr_token r \<noteq> []), cj_token_completed = False,
      cj_org_error = [], cj_token_error = [], cj_status = ''pending'', cj_attempts = 0,
      cj_locked_at = None, cj_locked_by = [], cj_available = now, cj_completed_at = None,
      cj_created = now, cj_updated = now\<rparr>"

definition arm_compensation ::
  "(string \<Rightarrow> string) \<Rightarrow> comp_fault \<Rightarrow> gotime \<Rightarrow> comp_request \<Rightarrow> comp_job list
     \<Rightarrow> comp_job list \<times> (comp_error + comp_job)" where
  "arm_compensation sha fault now r0 jobs =
     (case normalize_request r0 of
        Inl e \<Rightarrow> (jobs, Inl e)
      | Inr r \<Rightarrow>
          (case build_keys sha r of
             Inl e \<Rightarrow> (jobs, Inl e)
           | Inr k \<Rightarrow>
               if fault CompArm then (jobs, Inl (CompFault CompArm))
               else
                 (case sql_select (\<lambda>j. cj_key j = ck_job k) jobs of
                    Some j \<Rightarrow> if fault CompArmCommit then (jobs, Inl (CompFault CompArmCommit)) else (jobs, Inr j)
                  | None \<Rightarrow>
                      (let j = new_job now k r
                       in if cj_org_required j \<and> cj_org_scope j = [] \<or> cj_token_required j \<and> cj_token_scope j = []
                          then (jobs, Inl CompCheck)
                          else if list_ex (job_conflict j) jobs then (jobs, Inl CompUnique)
                          else if fault CompArmCommit then (jobs, Inl (CompFault CompArmCommit))
                          else (jobs @ [j], Inr j)))))"

definition job_due :: "gotime \<Rightarrow> comp_job \<Rightarrow> bool" where
  "job_due now j \<longleftrightarrow> cj_status j \<in> {''pending'', ''failed'', ''processing''} \<and> cj_available j \<le> now"

definition claim_row :: "gotime \<Rightarrow> string \<Rightarrow> comp_job \<Rightarrow> comp_job" where
  "claim_row now worker j =
     j\<lparr>cj_status := ''processing'', cj_attempts := cj_attempts j + 1, cj_locked_at := Some now,
       cj_locked_by := worker, cj_available := now + 5 * go_minute, cj_completed_at := None,
       cj_updated := now\<rparr>"

text \<open>\<open>ORDER BY available_at, created_at, job_key_digest\<close>, as a sort by each key, the last one first.\<close>

definition by_due_order :: "comp_job list \<Rightarrow> comp_job list" where
  "by_due_order jobs = sort_key cj_available (sort_key cj_created (sort_key cj_key jobs))"

text \<open>
  The columns of the job table, which \<open>quotaCompensationJobColumns\<close> lists, and the names in the claim
  statement: \<open>RETURNING\<close> of the update sees the table as \<open>job\<close> and the due keys as \<open>due\<close>, the last
  \<open>SELECT\<close> sees what the update returned.
\<close>

definition compensation_job_columns :: "string list" where
  "compensation_job_columns =
     [''job_key_digest'', ''organization_scope_key_digest'', ''api_token_scope_key_digest'', ''organization_id'',
      ''billing_session_id'', ''api_token_id'', ''amount'', ''organization_required'', ''organization_completed'',
      ''api_token_required'', ''api_token_completed'', ''organization_error_code'', ''api_token_error_code'', ''status'',
      ''attempts'', ''locked_at'', ''locked_by'', ''available_at'', ''completed_at'', ''created_at'', ''updated_at'']"

definition claim_names_resolve :: bool where
  "claim_names_resolve \<longleftrightarrow>
     (let cols = List.map Column compensation_job_columns
      in list_all (resolves [(''job'', compensation_job_columns), (''due'', output_names [Column ''job_key_digest''])]) cols
       \<and> list_all (resolves [(''updated'', output_names cols)]) cols)"

text \<open>A statement whose names do not resolve fails; otherwise it updates the due rows and returns them.\<close>

definition claim_jobs ::
  "comp_fault \<Rightarrow> gotime \<Rightarrow> int \<Rightarrow> string \<Rightarrow> comp_job list \<Rightarrow> comp_job list \<times> (comp_error + comp_job list)" where
  "claim_jobs fault now limit0 worker0 jobs =
     (let limit = (if limit0 \<le> 0 then 10 else limit0); worker = trim_space worker0
      in if worker = [] then (jobs, Inl CompInvalid)
         else if fault CompClaim then (jobs, Inl (CompFault CompClaim))
         else if \<not> claim_names_resolve then (jobs, Inl CompAmbiguousName)
         else
           (let due = take (nat limit) (by_due_order (filter (job_due now) jobs));
                keys = List.map cj_key due;
                res = sql_update (\<lambda>j. cj_key j \<in> set keys) (claim_row now worker) jobs
            in if fault CompClaimCommit then (jobs, Inl (CompFault CompClaimCommit))
               else (fst res, Inr (by_due_order (List.map (claim_row now worker)
                      (filter (\<lambda>j. cj_key j \<in> set keys) jobs))))))"

lemma claim_names_ambiguous: "\<not> claim_names_resolve"
proof
  let ?scope = "[(''job'', compensation_job_columns), (''due'', output_names [Column ''job_key_digest''])]"
  have key: "''job_key_digest'' \<in> set compensation_job_columns" by (simp add: compensation_job_columns_def)
  assume claim_names_resolve
  then have "list_all (resolves ?scope) (List.map Column compensation_job_columns)"
    unfolding claim_names_resolve_def Let_def by (rule conjunct1)
  then have "resolves ?scope (Column ''job_key_digest'')"
    using key unfolding list_all_iff set_map by (rule bspec [OF _ imageI])
  moreover have "\<not> resolves ?scope (Column ''job_key_digest'')"
    by (intro ambiguous_column key) (simp add: output_names_def)
  ultimately show False by blast
qed

lemma claim_always_fails: "\<exists>e. claim_jobs fault now limit worker jobs = (jobs, Inl e)"
  by (simp add: claim_jobs_def Let_def claim_names_ambiguous)

definition org_succeeded :: "gotime \<Rightarrow> comp_job \<Rightarrow> comp_job" where
  "org_succeeded stamp j =
     (let all = (\<not> cj_token_required j \<or> cj_token_completed j)
      in j\<lparr>cj_org_completed := True, cj_org_error := [],
           cj_status := (if all then ''succeeded'' else ''pending''),
           cj_locked_at := (if all then None else cj_locked_at j),
           cj_locked_by := (if all then [] else cj_locked_by j),
           cj_available := stamp, cj_completed_at := (if all then Some stamp else None), cj_updated := stamp\<rparr>)"

definition token_succeeded :: "gotime \<Rightarrow> comp_job \<Rightarrow> comp_job" where
  "token_succeeded stamp j =
     (let all = (\<not> cj_org_required j \<or> cj_org_completed j)
      in j\<lparr>cj_token_completed := True, cj_token_error := [],
           cj_status := (if all then ''succeeded'' else ''pending''),
           cj_locked_at := (if all then None else cj_locked_at j),
           cj_locked_by := (if all then [] else cj_locked_by j),
           cj_available := stamp, cj_completed_at := (if all then Some stamp else None), cj_updated := stamp\<rparr>)"

text \<open>A statement on the job table, then the check of the affected rows.\<close>

definition update_jobs ::
  "comp_fault \<Rightarrow> comp_call \<Rightarrow> (comp_job \<Rightarrow> bool) \<Rightarrow> (comp_job \<Rightarrow> comp_job) \<Rightarrow> comp_job list
     \<Rightarrow> comp_job list \<times> comp_error option" where
  "update_jobs fault call P f jobs =
     (let res = sql_update P f jobs
      in if fault call then (jobs, Some (CompFault call))
         else if snd res = 0 then (jobs, Some CompNoRows) else (fst res, None))"

definition mark_succeeded ::
  "comp_fault \<Rightarrow> string \<Rightarrow> comp_scope \<Rightarrow> string \<Rightarrow> gotime \<Rightarrow> comp_job list \<Rightarrow> comp_job list \<times> comp_error option" where
  "mark_succeeded fault key scope locked0 stamp jobs =
     (if \<not> is_digest key then (jobs, Some CompInvalid)
      else
        (let locked = trim_space locked0;
             mine = (\<lambda>j. cj_key j = key \<and> (locked = [] \<or> cj_locked_by j = locked))
         in case scope of
              ScopeOrganization \<Rightarrow>
                update_jobs fault (CompMarkOk key scope) (\<lambda>j. mine j \<and> cj_org_required j) (org_succeeded stamp) jobs
            | ScopeApiToken \<Rightarrow>
                update_jobs fault (CompMarkOk key scope) (\<lambda>j. mine j \<and> cj_token_required j) (token_succeeded stamp) jobs))"

definition org_failed :: "string \<Rightarrow> gotime \<Rightarrow> gotime \<Rightarrow> comp_job \<Rightarrow> comp_job" where
  "org_failed code stamp now j =
     j\<lparr>cj_org_error := code, cj_status := ''failed'', cj_locked_at := None, cj_locked_by := [],
       cj_available := stamp, cj_completed_at := None, cj_updated := now\<rparr>"

definition token_failed :: "string \<Rightarrow> gotime \<Rightarrow> gotime \<Rightarrow> comp_job \<Rightarrow> comp_job" where
  "token_failed code stamp now j =
     j\<lparr>cj_token_error := code, cj_status := ''failed'', cj_locked_at := None, cj_locked_by := [],
       cj_available := stamp, cj_completed_at := None, cj_updated := now\<rparr>"

definition mark_failed ::
  "comp_fault \<Rightarrow> gotime \<Rightarrow> string \<Rightarrow> comp_scope \<Rightarrow> string \<Rightarrow> string \<Rightarrow> gotime \<Rightarrow> comp_job list
     \<Rightarrow> comp_job list \<times> comp_error option" where
  "mark_failed fault now key scope locked0 code0 stamp jobs =
     (if \<not> is_digest key then (jobs, Some CompInvalid)
      else
        (let locked = trim_space locked0; code = normalize_error_code code0;
             mine = (\<lambda>j. cj_key j = key \<and> (locked = [] \<or> cj_locked_by j = locked))
         in case scope of
              ScopeOrganization \<Rightarrow>
                update_jobs fault (CompMarkFailed key scope)
                  (\<lambda>j. mine j \<and> cj_org_required j \<and> \<not> cj_org_completed j) (org_failed code stamp now) jobs
            | ScopeApiToken \<Rightarrow>
                update_jobs fault (CompMarkFailed key scope)
                  (\<lambda>j. mine j \<and> cj_token_required j \<and> \<not> cj_token_completed j) (token_failed code stamp now) jobs))"

definition record_receipt ::
  "comp_fault \<Rightarrow> string \<Rightarrow> string \<Rightarrow> usd \<Rightarrow> gotime \<Rightarrow> token_receipt list
     \<Rightarrow> token_receipt list \<times> (comp_error + bool)" where
  "record_receipt fault scope0 token0 amt stamp rs =
     (let scope = trim_space scope0; token = trim_space token0
      in if \<not> is_digest scope \<or> token = [] \<or> amt \<le> 0 then (rs, Inl CompInvalid)
         else if fault CompReceipt then (rs, Inl (CompFault CompReceipt))
         else
           (let row = \<lparr>rr_scope = scope, rr_token = token, rr_amount = dec6 amt, rr_created = stamp\<rparr>;
                finish = (\<lambda>inserted stored rs'.
                  if rr_token stored \<noteq> token \<or> rr_amount stored \<noteq> amt then (rs, Inl CompMismatch)
                  else if fault CompReceiptCommit then (rs, Inl (CompFault CompReceiptCommit))
                  else (rs', Inr inserted))
            in case sql_select (\<lambda>r. rr_scope r = scope) rs of
                 None \<Rightarrow> if dec6 amt \<le> 0 then (rs, Inl CompCheck) else finish True row (rs @ [row])
               | Some r \<Rightarrow> finish False r rs))"

subsection \<open>The coordinator\<close>

text \<open>What a manager's error is, as far as the coordinator looks.\<close>

datatype cause = CauseMismatch | CauseUnavailable | CauseOther

record 'q quota_manager =
  qm_refund :: "string \<Rightarrow> string \<Rightarrow> 'q \<Rightarrow> 'q \<times> cause option"

record 't token_manager =
  tm_refund :: "string \<Rightarrow> usd \<Rightarrow> 't \<Rightarrow> 't \<times> cause option"
  tm_refund_once :: "string \<Rightarrow> usd \<Rightarrow> string \<Rightarrow> 't \<Rightarrow> 't \<times> cause option"

record ('q, 't) comp_world =
  cw_jobs :: "comp_job list"
  cw_quota :: 'q
  cw_token :: 't

record scope_error =
  sc_scope :: string
  sc_code :: string

definition scope_err :: "string \<Rightarrow> cause \<Rightarrow> scope_error" where
  "scope_err scope c =
     \<lparr>sc_scope = scope,
      sc_code = (case c of CauseUnavailable \<Rightarrow> ''persistence_failed'' | _ \<Rightarrow> ''refund_failed'')\<rparr>"

text \<open>The joined error: the readiness error, if any, and the scope errors in order.\<close>

type_synonym 'e comp_result = "'e option \<times> scope_error list"

definition direct_fallback ::
  "'q quota_manager option \<Rightarrow> 't token_manager option \<Rightarrow> 'e option \<Rightarrow> comp_request
     \<Rightarrow> ('q, 't) comp_world \<Rightarrow> ('q, 't) comp_world \<times> 'e comp_result" where
  "direct_fallback qm tm readiness r w =
     (let (w1, errs1) =
            (case qm of
               Some m \<Rightarrow>
                 if cr_session r \<noteq> [] then
                   (case qm_refund m (cr_org r) (cr_session r) (cw_quota w) of
                      (q, None) \<Rightarrow> (w\<lparr>cw_quota := q\<rparr>, [])
                    | (q, Some c) \<Rightarrow> (w\<lparr>cw_quota := q\<rparr>, [scope_err ''organization-quota'' c]))
                 else (w, [])
             | None \<Rightarrow> (w, []));
          (w2, errs2) =
            (case tm of
               Some m \<Rightarrow>
                 if cr_token r \<noteq> [] \<and> 0 < cr_amount r then
                   (case tm_refund m (cr_token r) (cr_amount r) (cw_token w1) of
                      (t, None) \<Rightarrow> (w1\<lparr>cw_token := t\<rparr>, errs1)
                    | (t, Some c) \<Rightarrow> (w1\<lparr>cw_token := t\<rparr>, errs1 @ [scope_err ''api-token-quota'' c]))
                 else (w1, errs1)
             | None \<Rightarrow> (w1, errs1))
      in (w2, (readiness, errs2)))"

definition compensate_org ::
  "comp_fault \<Rightarrow> gotime \<Rightarrow> 'q quota_manager option \<Rightarrow> comp_request \<Rightarrow> comp_job
     \<Rightarrow> ('q, 't) comp_world \<Rightarrow> ('q, 't) comp_world \<times> scope_error list" where
  "compensate_org fault now qm r job w =
     (case qm of
        None \<Rightarrow> (w, [])
      | Some m \<Rightarrow>
          if cj_org_required job \<and> \<not> cj_org_completed job then
            (case qm_refund m (cr_org r) (cr_session r) (cw_quota w) of
               (q, Some c) \<Rightarrow>
                 (case mark_failed fault now (cj_key job) ScopeOrganization [] ''refund_failed''
                         (now + go_minute) (cw_jobs w) of
                    (js, Some _) \<Rightarrow>
                      (w\<lparr>cw_jobs := js, cw_quota := q\<rparr>,
                       [\<lparr>sc_scope = ''organization-quota'', sc_code = ''mark_failed''\<rparr>])
                  | (js, None) \<Rightarrow>
                      (w\<lparr>cw_jobs := js, cw_quota := q\<rparr>, [scope_err ''organization-quota'' c]))
             | (q, None) \<Rightarrow>
                 (w\<lparr>cw_jobs := fst (mark_succeeded fault (cj_key job) ScopeOrganization [] now (cw_jobs w)),
                    cw_quota := q\<rparr>, []))
          else (w, []))"

definition compensate_token ::
  "comp_fault \<Rightarrow> gotime \<Rightarrow> 't token_manager option \<Rightarrow> comp_request \<Rightarrow> comp_job
     \<Rightarrow> ('q, 't) comp_world \<Rightarrow> ('q, 't) comp_world \<times> scope_error list" where
  "compensate_token fault now tm r job w =
     (case tm of
        None \<Rightarrow> (w, [])
      | Some m \<Rightarrow>
          if cj_token_required job \<and> \<not> cj_token_completed job \<and> cr_token r \<noteq> [] then
            (case (if 0 < cr_amount r
                   then tm_refund_once m (cr_token r) (cr_amount r) (cj_token_scope job) (cw_token w)
                   else (cw_token w, None)) of
               (t, Some c) \<Rightarrow>
                 (case mark_failed fault now (cj_key job) ScopeApiToken [] ''refund_failed''
                         (now + go_minute) (cw_jobs w) of
                    (js, Some _) \<Rightarrow>
                      (w\<lparr>cw_jobs := js, cw_token := t\<rparr>,
                       [\<lparr>sc_scope = ''api-token-quota'', sc_code = ''mark_failed''\<rparr>])
                  | (js, None) \<Rightarrow>
                      (w\<lparr>cw_jobs := js, cw_token := t\<rparr>, [scope_err ''api-token-quota'' c]))
             | (t, None) \<Rightarrow>
                 (if 0 < cr_amount r
                  then w\<lparr>cw_jobs := fst (mark_succeeded fault (cj_key job) ScopeApiToken [] now (cw_jobs w)),
                         cw_token := t\<rparr>
                  else w\<lparr>cw_token := t\<rparr>, []))
          else (w, []))"

text \<open>\<open>CompensateLateReadiness\<close>; \<open>durable\<close> tells whether a store is configured.\<close>

definition compensate_late_readiness ::
  "(string \<Rightarrow> string) \<Rightarrow> comp_fault \<Rightarrow> gotime \<Rightarrow> bool \<Rightarrow> 'q quota_manager option \<Rightarrow> 't token_manager option
     \<Rightarrow> 'e option \<Rightarrow> comp_request \<Rightarrow> ('q, 't) comp_world \<Rightarrow> ('q, 't) comp_world \<times> 'e comp_result" where
  "compensate_late_readiness sha fault now durable qm tm readiness r w =
     (if \<not> durable then direct_fallback qm tm readiness r w
      else case arm_compensation sha fault now r (cw_jobs w) of
        (js, Inl _) \<Rightarrow>
          (case direct_fallback qm tm (None :: 'e option) r (w\<lparr>cw_jobs := js\<rparr>) of
             (w1, (_, errs)) \<Rightarrow>
               (w1, (readiness,
                  \<lparr>sc_scope = ''compensation-persistence'', sc_code = ''persistence_failed''\<rparr> # errs)))
      | (js, Inr job) \<Rightarrow>
          (case compensate_org fault now qm r job (w\<lparr>cw_jobs := js\<rparr>) of
             (w1, errs1) \<Rightarrow>
               (case compensate_token fault now tm r job w1 of
                  (w2, errs2) \<Rightarrow> (w2, (readiness, errs1 @ errs2)))))"

subsection \<open>The worker\<close>

definition process_org ::
  "comp_fault \<Rightarrow> gotime \<Rightarrow> string \<Rightarrow> 'q quota_manager option \<Rightarrow> comp_job \<Rightarrow> ('q, 't) comp_world \<Rightarrow> ('q, 't) comp_world"
where
  "process_org fault now worker qm job w =
     (case qm of
        None \<Rightarrow> w
      | Some m \<Rightarrow>
          if cj_org_required job \<and> \<not> cj_org_completed job then
            (case qm_refund m (cj_org job) (cj_session job) (cw_quota w) of
               (q, Some _) \<Rightarrow>
                 w\<lparr>cw_jobs := fst (mark_failed fault now (cj_key job) ScopeOrganization worker ''retry_failed''
                       (now + go_minute) (cw_jobs w)), cw_quota := q\<rparr>
             | (q, None) \<Rightarrow>
                 w\<lparr>cw_jobs := fst (mark_succeeded fault (cj_key job) ScopeOrganization worker now (cw_jobs w)),
                   cw_quota := q\<rparr>)
          else w)"

definition process_token ::
  "comp_fault \<Rightarrow> gotime \<Rightarrow> string \<Rightarrow> 't token_manager option \<Rightarrow> comp_job \<Rightarrow> ('q, 't) comp_world \<Rightarrow> ('q, 't) comp_world"
where
  "process_token fault now worker tm job w =
     (case tm of
        None \<Rightarrow> w
      | Some m \<Rightarrow>
          if cj_token_required job \<and> \<not> cj_token_completed job \<and> 0 < cj_amount job then
            (case tm_refund_once m (cj_token job) (cj_amount job) (cj_token_scope job) (cw_token w) of
               (t, Some _) \<Rightarrow>
                 w\<lparr>cw_jobs := fst (mark_failed fault now (cj_key job) ScopeApiToken worker ''retry_failed''
                       (now + go_minute) (cw_jobs w)), cw_token := t\<rparr>
             | (t, None) \<Rightarrow>
                 w\<lparr>cw_jobs := fst (mark_succeeded fault (cj_key job) ScopeApiToken worker now (cw_jobs w)),
                   cw_token := t\<rparr>)
          else w)"

definition process_job ::
  "comp_fault \<Rightarrow> gotime \<Rightarrow> string \<Rightarrow> 'q quota_manager option \<Rightarrow> 't token_manager option \<Rightarrow> comp_job
     \<Rightarrow> ('q, 't) comp_world \<Rightarrow> ('q, 't) comp_world" where
  "process_job fault now worker qm tm job w =
     process_token fault now worker tm job (process_org fault now worker qm job w)"

definition process_once ::
  "comp_fault \<Rightarrow> gotime \<Rightarrow> int \<Rightarrow> string \<Rightarrow> 'q quota_manager option \<Rightarrow> 't token_manager option
     \<Rightarrow> ('q, 't) comp_world \<Rightarrow> ('q, 't) comp_world \<times> comp_error option" where
  "process_once fault now limit worker qm tm w =
     (case claim_jobs fault now limit worker (cw_jobs w) of
        (js, Inl e) \<Rightarrow> (w\<lparr>cw_jobs := js\<rparr>, Some e)
      | (js, Inr claimed) \<Rightarrow>
          (fold (process_job fault now worker qm tm) claimed (w\<lparr>cw_jobs := js\<rparr>), None))"

lemma pass_always_fails: "\<exists>e. process_once fault now limit worker qm tm w = (w, Some e)"
  using claim_always_fails [of fault now limit worker "cw_jobs w"] by (auto simp: process_once_def)

subsection \<open>The digests\<close>

lemma digest_input_inj: "digest_input ps = digest_input qs \<longleftrightarrow> ps = qs"
proof (induction ps arbitrary: qs)
  case Nil
  then show ?case by (cases qs) auto
next
  case (Cons p ps)
  show ?case
  proof (cases qs)
    case (Cons q qs')
    have "digest_input (p # ps) = digest_input (q # qs') \<longleftrightarrow>
        digits (int (length p)) = digits (int (length q))
        \<and> p @ ''|'' @ digest_input ps = q @ ''|'' @ digest_input qs'"
      using append_colon_inj [of "CHR '':''", OF digits_no_colon digits_no_colon, OF of_nat_0_le_iff of_nat_0_le_iff,
          of "length p" "p @ ''|'' @ digest_input ps" "length q" "q @ ''|'' @ digest_input qs'"] by simp
    also have "\<dots> \<longleftrightarrow> p = q \<and> digest_input ps = digest_input qs'"
      by (auto simp: digits_inj)
    finally show ?thesis using Cons.IH Cons by simp
  qed simp
qed

lemma trim_request_idem [simp]: "trim_request (trim_request r) = trim_request r"
  by (simp add: trim_request_def)

lemma normalize_request_trims: "normalize_request r0 = Inr r \<Longrightarrow> r = trim_request r0"
  unfolding normalize_request_def Let_def
  by (simp only: sum.inject sum.distinct simp_thms split: if_split_asm)

lemma normalize_idem:
  assumes "normalize_request r0 = Inr r"
  shows "normalize_request r = Inr r"
proof -
  have "r = trim_request r0" using assms by (rule normalize_request_trims)
  then have "normalize_request r = normalize_request r0"
    by (simp only: normalize_request_def trim_request_idem)
  with assms show ?thesis by (simp only:)
qed

text \<open>
  The bytes hashed into a job key determine what they were built from: two valid requests
  with the same bytes have the same route attempt, stage, billing session, API token, amount
  text and caller key. So no two different compensations share a key, short of a collision of
  SHA-256 itself.
\<close>

theorem job_key_preimage_unique:
  "digest_input (job_key_parts r1) = digest_input (job_key_parts r2) \<longleftrightarrow>
     cr_attempt r1 = cr_attempt r2 \<and> cr_stage r1 = cr_stage r2 \<and> cr_session r1 = cr_session r2
   \<and> cr_token r1 = cr_token r2 \<and> cr_idem r1 = cr_idem r2
   \<and> compensation_amount (cr_amount r1) = compensation_amount (cr_amount r2)"
  unfolding digest_input_inj job_key_parts_def by (simp only: list.inject simp_thms) (rule iffI; elim conjE; intro conjI; assumption)

subsection \<open>What the compensation relies on\<close>

text \<open>
  A manager succeeds only when the effect has taken place, and no call takes an effect back.
\<close>

locale quota_refunder =
  fixes qmgr :: "'qe \<Rightarrow> 'q quota_manager"
    and refunded :: "string \<Rightarrow> 'q \<Rightarrow> bool"
  assumes refund_done: "qm_refund (qmgr e) org sid q = (q', None) \<Longrightarrow> refunded sid q'"
    and refund_keeps: "refunded s q \<Longrightarrow> refunded s (fst (qm_refund (qmgr e) org sid q))"

locale once_refunder =
  fixes tmgr :: "'te \<Rightarrow> 't token_manager"
    and receipted :: "string \<Rightarrow> string \<Rightarrow> 't \<Rightarrow> bool"
  assumes once_done: "tm_refund_once (tmgr e) tid amt scope t = (t', None) \<Longrightarrow> receipted scope tid t'"
    and once_keeps: "receipted s i t \<Longrightarrow> receipted s i (fst (tm_refund_once (tmgr e) tid amt scope t))"
    and direct_keeps: "receipted s i t \<Longrightarrow> receipted s i (fst (tm_refund (tmgr e) tid amt t))"

text \<open>The columns that no statement changes after the insert.\<close>

definition job_static :: "comp_job \<Rightarrow> string \<times> string \<times> string \<times> string \<times> bool \<times> bool" where
  "job_static j = (cj_key j, cj_session j, cj_token_scope j, cj_token j, cj_org_required j, cj_token_required j)"

definition status_ok :: "comp_job \<Rightarrow> bool" where
  "status_ok j \<longleftrightarrow>
     (cj_status j = ''succeeded'' \<longleftrightarrow>
        (cj_org_required j \<longrightarrow> cj_org_completed j) \<and> (cj_token_required j \<longrightarrow> cj_token_completed j))
   \<and> (cj_org_required j \<or> cj_token_required j)"

definition store_ok :: "comp_job list \<Rightarrow> bool" where
  "store_ok jobs \<longleftrightarrow> distinct (List.map cj_key jobs) \<and> (\<forall>j \<in> set jobs. status_ok j)"

text \<open>The key and the two identities of a job are those of a request.\<close>

definition from_request :: "(string \<Rightarrow> string) \<Rightarrow> comp_request \<Rightarrow> comp_job \<Rightarrow> bool" where
  "from_request sha r j \<longleftrightarrow>
     (\<exists>k. build_keys sha r = Inr k \<and> cj_key j = ck_job k \<and> cj_session j = trim_space (cr_session r)
        \<and> cj_token j = trim_space (cr_token r))"

definition job_input :: "comp_request \<Rightarrow> string" where
  "job_input r = digest_input (job_key_parts (trim_request r))"

lemma build_keys_job: "build_keys sha r = Inr k \<Longrightarrow> ck_job k = sha (job_input r)"
  by (cases "normalize_request r")
    (auto simp: build_keys_def Let_def compensation_digest_def job_input_def dest: normalize_request_trims)

lemma from_request_same:
  assumes "inj_on sha (job_input ` R)" "r \<in> R" "r' \<in> R" "from_request sha r' j" "build_keys sha r = Inr k"
    "ck_job k = cj_key j"
  shows "cj_session j = trim_space (cr_session r)" "cj_token j = trim_space (cr_token r)"
proof -
  have "sha (job_input r) = sha (job_input r')" using assms(4-6) build_keys_job unfolding from_request_def by metis
  with assms(1-3) have "job_input r = job_input r'" by (auto dest: inj_onD)
  then have "job_key_parts (trim_request r) = job_key_parts (trim_request r')"
    by (simp only: job_input_def digest_input_inj)
  then have "cr_session (trim_request r) = cr_session (trim_request r')"
    "cr_token (trim_request r) = cr_token (trim_request r')"
    by (simp_all only: job_key_parts_def list.inject)
  with assms(4) show "cj_session j = trim_space (cr_session r)" "cj_token j = trim_space (cr_token r)"
    by (auto simp: from_request_def trim_request_def)
qed

lemma update_jobs_cases:
  "fst (update_jobs fault call P f jobs) = jobs
   \<or> fst (update_jobs fault call P f jobs) = List.map (\<lambda>j. if P j then f j else j) jobs"
  by (simp add: update_jobs_def Let_def sql_simps)

lemma update_jobs_all:
  assumes "\<forall>j \<in> set jobs. Q j" "\<And>j. j \<in> set jobs \<Longrightarrow> P j \<Longrightarrow> Q (f j)"
  shows "\<forall>j \<in> set (fst (update_jobs fault call P f jobs)). Q j"
  using update_jobs_cases [of fault call P f jobs] assms by auto

lemma update_jobs_static:
  assumes "\<And>j. job_static (f j) = job_static j"
  shows "List.map job_static (fst (update_jobs fault call P f jobs)) = List.map job_static jobs"
  using update_jobs_cases [of fault call P f jobs] assms by auto

text \<open>A mark updates rows of its key whose scope is required, and of a failed scope only open ones.\<close>

lemma mark_succeeded_all:
  assumes "\<forall>j \<in> set jobs. Q j"
    "\<And>j. scope = ScopeOrganization \<Longrightarrow> j \<in> set jobs \<Longrightarrow> cj_key j = key \<Longrightarrow> cj_org_required j \<Longrightarrow> Q (org_succeeded stamp j)"
    "\<And>j. scope = ScopeApiToken \<Longrightarrow> j \<in> set jobs \<Longrightarrow> cj_key j = key \<Longrightarrow> cj_token_required j \<Longrightarrow> Q (token_succeeded stamp j)"
  shows "\<forall>j \<in> set (fst (mark_succeeded fault key scope locked stamp jobs)). Q j"
proof (cases "is_digest key")
  case True
  then show ?thesis using assms
    by (cases scope) (simp_all only: mark_succeeded_def Let_def comp_scope.case if_False not_True_eq_False,
        (rule update_jobs_all; blast)+)
next
  case False
  then show ?thesis using assms(1) by (simp add: mark_succeeded_def)
qed

lemma mark_failed_all:
  assumes "\<forall>j \<in> set jobs. Q j"
    "\<And>j c. scope = ScopeOrganization \<Longrightarrow> j \<in> set jobs \<Longrightarrow> cj_key j = key \<Longrightarrow> cj_org_required j
       \<Longrightarrow> \<not> cj_org_completed j \<Longrightarrow> Q (org_failed c stamp now j)"
    "\<And>j c. scope = ScopeApiToken \<Longrightarrow> j \<in> set jobs \<Longrightarrow> cj_key j = key \<Longrightarrow> cj_token_required j
       \<Longrightarrow> \<not> cj_token_completed j \<Longrightarrow> Q (token_failed c stamp now j)"
  shows "\<forall>j \<in> set (fst (mark_failed fault now key scope locked code stamp jobs)). Q j"
proof (cases "is_digest key")
  case True
  then show ?thesis using assms
    by (cases scope) (simp_all only: mark_failed_def Let_def comp_scope.case if_False not_True_eq_False,
        (rule update_jobs_all; blast)+)
next
  case False
  then show ?thesis using assms(1) by (simp add: mark_failed_def)
qed

lemma static_marks [simp]:
  "job_static (org_succeeded stamp j) = job_static j" "job_static (token_succeeded stamp j) = job_static j"
  "job_static (org_failed c stamp now j) = job_static j" "job_static (token_failed c stamp now j) = job_static j"
  "job_static (claim_row now worker j) = job_static j"
  by (simp_all add: job_static_def org_succeeded_def token_succeeded_def org_failed_def token_failed_def
      claim_row_def Let_def)

lemma mark_succeeded_static [simp]:
  "List.map job_static (fst (mark_succeeded fault key scope locked stamp jobs)) = List.map job_static jobs"
  by (cases scope; cases "is_digest key")
    (simp_all only: mark_succeeded_def Let_def comp_scope.case if_False if_True not_True_eq_False not_False_eq_True
      fst_conv update_jobs_static static_marks)

lemma mark_failed_static [simp]:
  "List.map job_static (fst (mark_failed fault now key scope locked code stamp jobs)) = List.map job_static jobs"
  by (cases scope; cases "is_digest key")
    (simp_all only: mark_failed_def Let_def comp_scope.case if_False if_True not_True_eq_False not_False_eq_True
      fst_conv update_jobs_static static_marks)

lemma status_ok_marks:
  "status_ok j \<Longrightarrow> cj_org_required j \<Longrightarrow> status_ok (org_succeeded stamp j)"
  "status_ok j \<Longrightarrow> cj_token_required j \<Longrightarrow> status_ok (token_succeeded stamp j)"
  "status_ok j \<Longrightarrow> cj_org_required j \<Longrightarrow> \<not> cj_org_completed j \<Longrightarrow> status_ok (org_failed c stamp now j)"
  "status_ok j \<Longrightarrow> cj_token_required j \<Longrightarrow> \<not> cj_token_completed j \<Longrightarrow> status_ok (token_failed c stamp now j)"
  by (simp_all add: status_ok_def org_succeeded_def token_succeeded_def org_failed_def token_failed_def Let_def)

lemma status_ok_claim: "status_ok j \<Longrightarrow> cj_status j \<noteq> ''succeeded'' \<Longrightarrow> status_ok (claim_row now worker j)"
  by (simp add: status_ok_def claim_row_def)

lemma job_due_not_succeeded: "job_due now j \<Longrightarrow> cj_status j \<noteq> ''succeeded''"
  by (auto simp: job_due_def)

lemma keys_of_static: "List.map cj_key jobs = List.map fst (List.map job_static jobs)"
  by (simp add: job_static_def comp_def)

lemma same_key_static:
  assumes "distinct (List.map cj_key jobs)" "job_static job \<in> set (List.map job_static jobs)" "j \<in> set jobs"
    "cj_key j = cj_key job"
  shows "job_static j = job_static job"
proof -
  obtain j' where j': "j' \<in> set jobs" "job_static j' = job_static job" using assms(2) by auto
  then have "cj_key j' = cj_key j" using assms(4) by (simp add: job_static_def)
  with assms(1,3) j' show ?thesis by (metis distinct_map inj_onD)
qed

lemma from_request_static: "job_static j = job_static j' \<Longrightarrow> from_request sha r j = from_request sha r j'"
  by (simp add: job_static_def from_request_def)

locale compensation = quota_refunder qmgr refunded + once_refunder tmgr receipted
  for qmgr :: "'qe \<Rightarrow> 'q quota_manager" and refunded :: "string \<Rightarrow> 'q \<Rightarrow> bool"
    and tmgr :: "'te \<Rightarrow> 't token_manager" and receipted :: "string \<Rightarrow> string \<Rightarrow> 't \<Rightarrow> bool"
begin

definition effects_ok :: "'q \<Rightarrow> 't \<Rightarrow> comp_job \<Rightarrow> bool" where
  "effects_ok q t j \<longleftrightarrow>
     (cj_org_completed j \<longrightarrow> refunded (cj_session j) q)
   \<and> (cj_token_completed j \<longrightarrow> receipted (cj_token_scope j) (cj_token j) t)"

definition comp_ok :: "(string \<Rightarrow> string) \<Rightarrow> comp_request set \<Rightarrow> ('q, 't) comp_world \<Rightarrow> bool" where
  "comp_ok sha R w \<longleftrightarrow>
     distinct (List.map cj_key (cw_jobs w))
   \<and> (\<forall>j \<in> set (cw_jobs w). status_ok j \<and> effects_ok (cw_quota w) (cw_token w) j \<and> (\<exists>r \<in> R. from_request sha r j))"

lemma comp_ok_update:
  assumes "comp_ok sha R w" "List.map job_static js = List.map job_static (cw_jobs w)"
    "\<forall>j \<in> set js. status_ok j \<and> effects_ok q t j"
  shows "comp_ok sha R (w\<lparr>cw_jobs := js, cw_quota := q, cw_token := t\<rparr>)"
proof -
  have "distinct (List.map cj_key js)" using assms(1,2) by (simp only: comp_ok_def keys_of_static)
  moreover have "\<exists>r \<in> R. from_request sha r j" if "j \<in> set js" for j
  proof -
    from that have "job_static j \<in> set (List.map job_static (cw_jobs w))" using assms(2) by (metis image_eqI list.set_map)
    then obtain j' where "j' \<in> set (cw_jobs w)" "job_static j = job_static j'" by auto
    moreover from this assms(1) obtain r where "r \<in> R" "from_request sha r j'" unfolding comp_ok_def by blast
    ultimately show ?thesis using from_request_static [of j j' sha r] by blast
  qed
  ultimately show ?thesis using assms(3) by (simp add: comp_ok_def)
qed

lemma effects_mono:
  assumes "effects_ok q t j" "\<And>s. refunded s q \<Longrightarrow> refunded s q'" "\<And>s i. receipted s i t \<Longrightarrow> receipted s i t'"
  shows "effects_ok q' t' j"
  using assms by (auto simp: effects_ok_def)

lemma effects_marks:
  "effects_ok q t (org_succeeded stamp j) \<longleftrightarrow>
     refunded (cj_session j) q \<and> (cj_token_completed j \<longrightarrow> receipted (cj_token_scope j) (cj_token j) t)"
  "effects_ok q t (token_succeeded stamp j) \<longleftrightarrow>
     (cj_org_completed j \<longrightarrow> refunded (cj_session j) q) \<and> receipted (cj_token_scope j) (cj_token j) t"
  "effects_ok q t (org_failed c stamp now j) = effects_ok q t j"
  "effects_ok q t (token_failed c stamp now j) = effects_ok q t j"
  "effects_ok q t (claim_row now worker j) = effects_ok q t j"
  by (simp_all add: effects_ok_def org_succeeded_def token_succeeded_def org_failed_def token_failed_def
      claim_row_def Let_def)

lemma org_marked:
  assumes ok: "comp_ok sha R w" and job: "job_static job \<in> set (List.map job_static (cw_jobs w))"
    and refunded: "refunded (cj_session job) q" "\<And>s. refunded s (cw_quota w) \<Longrightarrow> refunded s q"
  shows "comp_ok sha R (w\<lparr>cw_jobs := fst (mark_succeeded fault (cj_key job) ScopeOrganization locked stamp (cw_jobs w)),
     cw_quota := q\<rparr>)" (is "comp_ok sha R (w\<lparr>cw_jobs := ?js, cw_quota := q\<rparr>)")
proof -
  have all: "status_ok j \<and> effects_ok q (cw_token w) j" if "j \<in> set (cw_jobs w)" for j
    using that ok refunded(2) effects_mono [of "cw_quota w" "cw_token w" j q "cw_token w"] by (auto simp: comp_ok_def)
  have own: "cj_session j = cj_session job" if "j \<in> set (cw_jobs w)" "cj_key j = cj_key job" for j
    using that same_key_static [OF _ job, of j] ok by (simp add: comp_ok_def job_static_def)
  have "\<forall>j \<in> set ?js. status_ok j \<and> effects_ok q (cw_token w) j"
  proof (rule mark_succeeded_all)
    fix j assume "j \<in> set (cw_jobs w)" "cj_key j = cj_key job" "cj_org_required j"
    with all [of j] own [of j] refunded(1)
    show "status_ok (org_succeeded stamp j) \<and> effects_ok q (cw_token w) (org_succeeded stamp j)"
      by (simp add: status_ok_marks effects_marks) (simp add: effects_ok_def)
  qed (use all in auto)
  then show ?thesis using comp_ok_update [of sha R w ?js q "cw_token w"] ok by simp
qed

lemma token_marked:
  assumes ok: "comp_ok sha R w" and job: "job_static job \<in> set (List.map job_static (cw_jobs w))"
    and receipt: "receipted (cj_token_scope job) (cj_token job) t" "\<And>s i. receipted s i (cw_token w) \<Longrightarrow> receipted s i t"
  shows "comp_ok sha R (w\<lparr>cw_jobs := fst (mark_succeeded fault (cj_key job) ScopeApiToken locked stamp (cw_jobs w)),
     cw_token := t\<rparr>)" (is "comp_ok sha R (w\<lparr>cw_jobs := ?js, cw_token := t\<rparr>)")
proof -
  have all: "status_ok j \<and> effects_ok (cw_quota w) t j" if "j \<in> set (cw_jobs w)" for j
    using that ok receipt(2) effects_mono [of "cw_quota w" "cw_token w" j "cw_quota w" t] by (auto simp: comp_ok_def)
  have own: "cj_token_scope j = cj_token_scope job" "cj_token j = cj_token job"
    if "j \<in> set (cw_jobs w)" "cj_key j = cj_key job" for j
    using that same_key_static [OF _ job, of j] ok by (simp_all add: comp_ok_def job_static_def)
  have "\<forall>j \<in> set ?js. status_ok j \<and> effects_ok (cw_quota w) t j"
  proof (rule mark_succeeded_all)
    fix j assume "j \<in> set (cw_jobs w)" "cj_key j = cj_key job" "cj_token_required j"
    with all [of j] own [of j] receipt(1)
    show "status_ok (token_succeeded stamp j) \<and> effects_ok (cw_quota w) t (token_succeeded stamp j)"
      by (simp add: status_ok_marks effects_marks) (simp add: effects_ok_def)
  qed (use all in auto)
  then show ?thesis using comp_ok_update [of sha R w ?js "cw_quota w" t] ok by simp
qed

lemma failed_marked:
  assumes ok: "comp_ok sha R w" and "\<And>s. refunded s (cw_quota w) \<Longrightarrow> refunded s q"
    "\<And>s i. receipted s i (cw_token w) \<Longrightarrow> receipted s i t"
  shows "comp_ok sha R (w\<lparr>cw_jobs := fst (mark_failed fault now key scope locked code stamp (cw_jobs w)),
     cw_quota := q, cw_token := t\<rparr>)" (is "comp_ok sha R (w\<lparr>cw_jobs := ?js, cw_quota := q, cw_token := t\<rparr>)")
proof -
  have all: "\<forall>j \<in> set (cw_jobs w). status_ok j \<and> effects_ok q t j"
    using assms effects_mono [of "cw_quota w" "cw_token w" _ q t] by (auto simp: comp_ok_def)
  then have "\<forall>j \<in> set ?js. status_ok j \<and> effects_ok q t j"
    by (rule mark_failed_all) (use all in \<open>simp_all add: status_ok_marks effects_marks\<close>)
  then show ?thesis using comp_ok_update [of sha R w ?js q t] ok by simp
qed

lemma effects_only: "comp_ok sha R w \<Longrightarrow> (\<And>s. refunded s (cw_quota w) \<Longrightarrow> refunded s q)
    \<Longrightarrow> (\<And>s i. receipted s i (cw_token w) \<Longrightarrow> receipted s i t) \<Longrightarrow> comp_ok sha R (w\<lparr>cw_quota := q, cw_token := t\<rparr>)"
  using comp_ok_update [of sha R w "cw_jobs w" q t] effects_mono [of "cw_quota w" "cw_token w" _ q t]
  by (auto simp: comp_ok_def)

lemma claim_ok:
  assumes ok: "comp_ok sha R w" and claim: "claim_jobs fault now limit worker (cw_jobs w) = (js, res)"
  shows "comp_ok sha R (w\<lparr>cw_jobs := js\<rparr>)"
    "res = Inr claimed \<Longrightarrow> set (List.map job_static claimed) \<subseteq> set (List.map job_static js)"
proof -
  let ?wk = "trim_space worker"
  let ?due = "take (nat (if limit \<le> 0 then 10 else limit)) (by_due_order (filter (job_due now) (cw_jobs w)))"
  let ?P = "\<lambda>j. cj_key j \<in> set (List.map cj_key ?due)"
  let ?js = "List.map (\<lambda>j. if ?P j then claim_row now ?wk j else j) (cw_jobs w)"
  have cases: "js = cw_jobs w \<and> (\<exists>e. res = Inl e)
      \<or> js = ?js \<and> res = Inr (by_due_order (List.map (claim_row now ?wk) (filter ?P (cw_jobs w))))"
    using claim unfolding claim_jobs_def Let_def sql_update_rows
    by (cases "?wk = []"; cases "fault CompClaim"; cases claim_names_resolve; cases "fault CompClaimCommit")
      (simp_all only: if_True if_False prod.inject simp_thms, blast+)
  have due: "cj_status j \<noteq> ''succeeded''" if j: "j \<in> set (cw_jobs w)" "?P j" for j
  proof -
    from j(2) obtain d where d: "d \<in> set ?due" "cj_key d = cj_key j" by auto
    then have "d \<in> set (by_due_order (filter (job_due now) (cw_jobs w)))" by (meson in_set_takeD)
    then have "d \<in> set (cw_jobs w)" "job_due now d" by (auto simp: by_due_order_def)
    moreover from this d(2) j(1) ok have "d = j" unfolding comp_ok_def by (metis distinct_map inj_onD)
    ultimately show ?thesis using job_due_not_succeeded by blast
  qed
  have static: "List.map job_static ?js = List.map job_static (cw_jobs w)" by simp
  have "\<forall>j \<in> set ?js. status_ok j \<and> effects_ok (cw_quota w) (cw_token w) j"
  proof (rule ball_set_mapI)
    fix j assume j: "j \<in> set (cw_jobs w)"
    then have "status_ok j" "effects_ok (cw_quota w) (cw_token w) j" using ok by (auto simp: comp_ok_def)
    then show "status_ok (if ?P j then claim_row now ?wk j else j)
        \<and> effects_ok (cw_quota w) (cw_token w) (if ?P j then claim_row now ?wk j else j)"
      using due [OF j] status_ok_claim effects_marks(5) by presburger
  qed
  then have new: "comp_ok sha R (w\<lparr>cw_jobs := ?js\<rparr>)"
    using comp_ok_update [of sha R w ?js "cw_quota w" "cw_token w"] static ok by simp
  show "comp_ok sha R (w\<lparr>cw_jobs := js\<rparr>)" using cases
  proof
    assume "js = cw_jobs w \<and> (\<exists>e. res = Inl e)"
    with ok show ?thesis by simp
  next
    assume "js = ?js \<and> res = Inr (by_due_order (List.map (claim_row now ?wk) (filter ?P (cw_jobs w))))"
    with new show ?thesis by (simp only:)
  qed
  assume "res = Inr claimed"
  with cases have js: "js = ?js" and cl: "claimed = by_due_order (List.map (claim_row now ?wk) (filter ?P (cw_jobs w)))"
    by (simp_all only: sum.distinct sum.inject simp_thms)
  have "set (List.map job_static claimed) \<subseteq> job_static ` set (cw_jobs w)"
    unfolding cl by (auto simp: by_due_order_def)
  then show "set (List.map job_static claimed) \<subseteq> set (List.map job_static js)" using static js by (metis list.set_map)
qed

lemma arm_ok:
  assumes ok: "comp_ok sha R w" and inj: "inj_on sha (job_input ` R)" and r: "r \<in> R"
    and arm: "arm_compensation sha fault now r (cw_jobs w) = (js, res)"
  shows "comp_ok sha R (w\<lparr>cw_jobs := js\<rparr>)"
    "res = Inr job \<Longrightarrow> job \<in> set js \<and> cj_session job = trim_space (cr_session r) \<and> cj_token job = trim_space (cr_token r)"
proof -
  consider (same) e where "js = cw_jobs w" "res = Inl e"
    | (found) k j where "build_keys sha (trim_request r) = Inr k" "normalize_request r = Inr (trim_request r)"
        "js = cw_jobs w" "res = Inr j" "j \<in> set js" "cj_key j = ck_job k"
    | (new) k where "build_keys sha (trim_request r) = Inr k" "normalize_request r = Inr (trim_request r)"
        "sql_select (\<lambda>j. cj_key j = ck_job k) (cw_jobs w) = None"
        "js = cw_jobs w @ [new_job now k (trim_request r)]" "res = Inr (new_job now k (trim_request r))"
    using arm unfolding arm_compensation_def Let_def
    by (fastforce split: sum.splits option.splits if_splits dest: normalize_request_trims sql_select_Some)
  note cases = this
  have keys: "build_keys sha (trim_request r) = build_keys sha r" if "normalize_request r = Inr (trim_request r)"
    using that normalize_idem [OF that] by (simp add: build_keys_def)
  show "comp_ok sha R (w\<lparr>cw_jobs := js\<rparr>)" using cases
  proof cases
    case (new k)
    let ?j = "new_job now k (trim_request r)"
    have "cj_key ?j \<notin> cj_key ` set (cw_jobs w)" using new(3) by (auto simp: sql_simps new_job_def)
    moreover have "from_request sha r ?j"
      unfolding from_request_def using new(1) keys [OF new(2)]
      by (intro exI [of _ k]) (simp add: new_job_def trim_request_def)
    moreover have "cr_org (trim_request r) \<noteq> [] \<or> cr_token (trim_request r) \<noteq> []"
      using new(2) unfolding normalize_request_def Let_def by (simp only: sum.distinct split: if_split_asm) blast
    then have "status_ok ?j" by (auto simp: status_ok_def new_job_def)
    moreover have "effects_ok q t ?j" for q t by (simp add: effects_ok_def new_job_def)
    ultimately show ?thesis using ok r new(4) by (auto simp: comp_ok_def)
  qed (use ok in simp_all)
  assume res: "res = Inr job"
  show "job \<in> set js \<and> cj_session job = trim_space (cr_session r) \<and> cj_token job = trim_space (cr_token r)"
    using cases
  proof cases
    case (found k j)
    then obtain r' where "r' \<in> R" "from_request sha r' j" using ok by (auto simp: comp_ok_def)
    with found res inj r keys show ?thesis using from_request_same [of sha R r r' j k] by simp
  qed (use res in \<open>auto simp: new_job_def trim_request_def\<close>)
qed

text \<open>What one call may do to the world: keep the invariant and every job that is there.\<close>

definition keeps_jobs :: "('q, 't) comp_world \<Rightarrow> ('q, 't) comp_world \<Rightarrow> bool" where
  "keeps_jobs w w' \<longleftrightarrow> List.map job_static (cw_jobs w') = List.map job_static (cw_jobs w)"

lemma keeps_jobs_trans: "keeps_jobs u v \<Longrightarrow> keeps_jobs v w \<Longrightarrow> keeps_jobs u w"
  by (simp add: keeps_jobs_def)

lemma org_failed_marked:
  "comp_ok sha R w \<Longrightarrow> (\<And>s. refunded s (cw_quota w) \<Longrightarrow> refunded s q)
   \<Longrightarrow> comp_ok sha R (w\<lparr>cw_jobs := fst (mark_failed fault now key scope locked code stamp (cw_jobs w)), cw_quota := q\<rparr>)"
  using failed_marked [of sha R w q "cw_token w" fault now key scope locked code stamp] by simp

lemma token_failed_marked:
  "comp_ok sha R w \<Longrightarrow> (\<And>s i. receipted s i (cw_token w) \<Longrightarrow> receipted s i t)
   \<Longrightarrow> comp_ok sha R (w\<lparr>cw_jobs := fst (mark_failed fault now key scope locked code stamp (cw_jobs w)), cw_token := t\<rparr>)"
  using failed_marked [of sha R w "cw_quota w" t fault now key scope locked code stamp] by simp

lemma effects_quota: "comp_ok sha R w \<Longrightarrow> (\<And>s. refunded s (cw_quota w) \<Longrightarrow> refunded s q) \<Longrightarrow> comp_ok sha R (w\<lparr>cw_quota := q\<rparr>)"
  using effects_only [of sha R w q "cw_token w"] by simp

lemma effects_token: "comp_ok sha R w \<Longrightarrow> (\<And>s i. receipted s i (cw_token w) \<Longrightarrow> receipted s i t) \<Longrightarrow> comp_ok sha R (w\<lparr>cw_token := t\<rparr>)"
  using effects_only [of sha R w "cw_quota w" t] by simp

lemma compensate_org_ok:
  assumes ok: "comp_ok sha R w" and job: "job_static job \<in> set (List.map job_static (cw_jobs w))"
    and session: "cr_session r = cj_session job"
  shows "comp_ok sha R (fst (compensate_org fault now (map_option qmgr e) r job w))
    \<and> keeps_jobs w (fst (compensate_org fault now (map_option qmgr e) r job w))"
proof (cases "e = None \<or> \<not> (cj_org_required job \<and> \<not> cj_org_completed job)")
  case True
  then show ?thesis using ok by (cases e) (auto simp: compensate_org_def keeps_jobs_def)
next
  case False
  then obtain a where e: "e = Some a" and due: "cj_org_required job" "\<not> cj_org_completed job" by auto
  obtain q c where call: "qm_refund (qmgr a) (cr_org r) (cr_session r) (cw_quota w) = (q, c)" by (cases "qm_refund (qmgr a) (cr_org r) (cr_session r) (cw_quota w)")
  have mono: "\<And>s. refunded s (cw_quota w) \<Longrightarrow> refunded s q" using refund_keeps call by (metis fst_conv)
  show ?thesis
  proof (cases c)
    case None
    then have "refunded (cj_session job) q" using refund_done call session by metis
    from org_marked [OF ok job this mono] show ?thesis
      using e due call None by (simp add: compensate_org_def keeps_jobs_def)
  next
    case (Some c')
    obtain js m where mark: "mark_failed fault now (cj_key job) ScopeOrganization [] ''refund_failed'' (now + go_minute) (cw_jobs w) = (js, m)"
      by (cases "mark_failed fault now (cj_key job) ScopeOrganization [] ''refund_failed'' (now + go_minute) (cw_jobs w)")
    then have "List.map job_static js = List.map job_static (cw_jobs w)" by (metis fst_conv mark_failed_static)
    with org_failed_marked [OF ok mono, of fault now "cj_key job" ScopeOrganization "[]" "''refund_failed''" "now + go_minute"]
      mark e due call Some show ?thesis
      by (auto simp: compensate_org_def keeps_jobs_def split: option.split)
  qed
qed

lemma compensate_token_ok:
  assumes ok: "comp_ok sha R w" and job: "job_static job \<in> set (List.map job_static (cw_jobs w))"
    and token: "cr_token r = cj_token job"
  shows "comp_ok sha R (fst (compensate_token fault now (map_option tmgr e) r job w))
    \<and> keeps_jobs w (fst (compensate_token fault now (map_option tmgr e) r job w))"
proof (cases "e = None \<or> \<not> (cj_token_required job \<and> \<not> cj_token_completed job \<and> cr_token r \<noteq> [] \<and> 0 < cr_amount r)")
  case True
  then show ?thesis using ok by (cases e) (auto simp: compensate_token_def keeps_jobs_def)
next
  case False
  then obtain a where e: "e = Some a"
    and due: "cj_token_required job" "\<not> cj_token_completed job" "cr_token r \<noteq> []" "0 < cr_amount r" by auto
  obtain t c where call: "tm_refund_once (tmgr a) (cr_token r) (cr_amount r) (cj_token_scope job) (cw_token w) = (t, c)"
    by (cases "tm_refund_once (tmgr a) (cr_token r) (cr_amount r) (cj_token_scope job) (cw_token w)")
  have mono: "\<And>s i. receipted s i (cw_token w) \<Longrightarrow> receipted s i t" using once_keeps call by (metis fst_conv)
  show ?thesis
  proof (cases c)
    case None
    then have "receipted (cj_token_scope job) (cj_token job) t" using once_done call token by metis
    from token_marked [OF ok job this mono] show ?thesis
      using e due call None by (simp add: compensate_token_def keeps_jobs_def)
  next
    case (Some c')
    obtain js m where mark: "mark_failed fault now (cj_key job) ScopeApiToken [] ''refund_failed'' (now + go_minute) (cw_jobs w) = (js, m)"
      by (cases "mark_failed fault now (cj_key job) ScopeApiToken [] ''refund_failed'' (now + go_minute) (cw_jobs w)")
    then have "List.map job_static js = List.map job_static (cw_jobs w)" by (metis fst_conv mark_failed_static)
    with token_failed_marked [OF ok mono, of fault now "cj_key job" ScopeApiToken "[]" "''refund_failed''" "now + go_minute"]
      mark e due call Some show ?thesis
      by (auto simp: compensate_token_def keeps_jobs_def split: option.split)
  qed
qed

lemma process_org_ok:
  assumes ok: "comp_ok sha R w" and job: "job_static job \<in> set (List.map job_static (cw_jobs w))"
  shows "comp_ok sha R (process_org fault now worker (map_option qmgr e) job w)
    \<and> keeps_jobs w (process_org fault now worker (map_option qmgr e) job w)"
proof (cases e)
  case None
  then show ?thesis using ok by (simp add: process_org_def keeps_jobs_def)
next
  case (Some a)
  obtain q c where call: "qm_refund (qmgr a) (cj_org job) (cj_session job) (cw_quota w) = (q, c)"
    by (cases "qm_refund (qmgr a) (cj_org job) (cj_session job) (cw_quota w)")
  have mono: "\<And>s. refunded s (cw_quota w) \<Longrightarrow> refunded s q" using refund_keeps call by (metis fst_conv)
  show ?thesis
  proof (cases c)
    case None
    then have "refunded (cj_session job) q" using refund_done call by metis
    from org_marked [OF ok job this mono] show ?thesis
      using ok Some call None by (simp add: process_org_def keeps_jobs_def)
  next
    case c: (Some c')
    show ?thesis
      using org_failed_marked [OF ok mono] ok Some call c by (simp add: process_org_def keeps_jobs_def)
  qed
qed

lemma process_token_ok:
  assumes ok: "comp_ok sha R w" and job: "job_static job \<in> set (List.map job_static (cw_jobs w))"
  shows "comp_ok sha R (process_token fault now worker (map_option tmgr e) job w)
    \<and> keeps_jobs w (process_token fault now worker (map_option tmgr e) job w)"
proof (cases e)
  case None
  then show ?thesis using ok by (simp add: process_token_def keeps_jobs_def)
next
  case (Some a)
  obtain t c where call: "tm_refund_once (tmgr a) (cj_token job) (cj_amount job) (cj_token_scope job) (cw_token w) = (t, c)"
    by (cases "tm_refund_once (tmgr a) (cj_token job) (cj_amount job) (cj_token_scope job) (cw_token w)")
  have mono: "\<And>s i. receipted s i (cw_token w) \<Longrightarrow> receipted s i t" using once_keeps call by (metis fst_conv)
  show ?thesis
  proof (cases c)
    case None
    then have "receipted (cj_token_scope job) (cj_token job) t" using once_done call by metis
    from token_marked [OF ok job this mono] show ?thesis
      using ok Some call None by (simp add: process_token_def keeps_jobs_def)
  next
    case c: (Some c')
    show ?thesis
      using token_failed_marked [OF ok mono] ok Some call c by (simp add: process_token_def keeps_jobs_def)
  qed
qed

lemma process_job_ok:
  assumes "comp_ok sha R w" "job_static job \<in> set (List.map job_static (cw_jobs w))"
  shows "comp_ok sha R (process_job fault now worker (map_option qmgr e) (map_option tmgr f) job w)
    \<and> keeps_jobs w (process_job fault now worker (map_option qmgr e) (map_option tmgr f) job w)"
proof -
  let ?v = "process_org fault now worker (map_option qmgr e) job w"
  have v: "comp_ok sha R ?v \<and> keeps_jobs w ?v" by (rule process_org_ok) (use assms in auto)
  moreover from this assms(2) have "job_static job \<in> set (List.map job_static (cw_jobs ?v))"
    by (simp only: keeps_jobs_def)
  ultimately show ?thesis
    using process_token_ok [of sha R ?v job fault now worker f] keeps_jobs_trans [of w ?v]
    by (simp add: process_job_def)
qed

lemma fold_jobs_ok:
  "comp_ok sha R w \<Longrightarrow> set (List.map job_static claimed) \<subseteq> set (List.map job_static (cw_jobs w))
   \<Longrightarrow> comp_ok sha R (fold (process_job fault now worker (map_option qmgr e) (map_option tmgr f)) claimed w)"
proof (induction claimed arbitrary: w)
  case (Cons job claimed)
  let ?v = "process_job fault now worker (map_option qmgr e) (map_option tmgr f) job w"
  have v: "comp_ok sha R ?v \<and> keeps_jobs w ?v" by (rule process_job_ok) (use Cons.prems in auto)
  then have "set (List.map job_static claimed) \<subseteq> set (List.map job_static (cw_jobs ?v))"
    using Cons.prems(2) by (simp add: keeps_jobs_def del: set_map)
  with v Cons.IH show ?case by simp
qed simp

lemma process_once_ok:
  assumes ok: "comp_ok sha R w"
  shows "comp_ok sha R (fst (process_once fault now limit worker (map_option qmgr e) (map_option tmgr f) w))"
proof -
  obtain js res where claim: "claim_jobs fault now limit worker (cw_jobs w) = (js, res)"
    by (cases "claim_jobs fault now limit worker (cw_jobs w)")
  note c = claim_ok [OF ok claim]
  show ?thesis
  proof (cases res)
    case (Inl err)
    with claim c(1) show ?thesis by (simp add: process_once_def)
  next
    case (Inr claimed)
    from fold_jobs_ok [OF c(1), of claimed fault now worker e f] c(2) [OF Inr] claim Inr
    show ?thesis by (simp add: process_once_def del: set_map)
  qed
qed

lemma direct_fallback_ok:
  assumes "comp_ok sha R w"
  shows "comp_ok sha R (fst (direct_fallback (map_option qmgr e) (map_option tmgr f) readiness r w))"
proof -
  have q: "comp_ok sha R (u\<lparr>cw_quota := fst (qm_refund (qmgr a) org sid (cw_quota u))\<rparr>)" if "comp_ok sha R u" for u a org sid
    using that refund_keeps by (rule effects_quota)
  have t: "comp_ok sha R (u\<lparr>cw_token := fst (tm_refund (tmgr a) tid amt (cw_token u))\<rparr>)" if "comp_ok sha R u" for u a tid amt
    using that direct_keeps by (rule effects_token)
  define wq where "wq = (case map_option qmgr e of
               Some m \<Rightarrow>
                 if cr_session r \<noteq> [] then
                   (case qm_refund m (cr_org r) (cr_session r) (cw_quota w) of
                      (q, None) \<Rightarrow> (w\<lparr>cw_quota := q\<rparr>, [])
                    | (q, Some c) \<Rightarrow> (w\<lparr>cw_quota := q\<rparr>, [scope_err ''organization-quota'' c]))
                 else (w, [])
             | None \<Rightarrow> (w, []))"
  have w1: "comp_ok sha R (fst wq)"
    using assms q [OF assms] by (cases e) (auto simp: wq_def split: prod.split option.split, (metis fst_conv)+)
  obtain v errs where v: "wq = (v, errs)" by (cases wq)
  show ?thesis
    using w1 t [of v] unfolding direct_fallback_def wq_def [symmetric] v
    by (cases f) (auto split: prod.split option.split, (metis fst_conv)+)
qed

lemma compensate_ok:
  assumes ok: "comp_ok sha R w" and inj: "inj_on sha (job_input ` R)" and r: "r \<in> R"
    and clean: "trim_space (cr_session r) = cr_session r" "trim_space (cr_token r) = cr_token r"
  shows "comp_ok sha R (fst (compensate_late_readiness sha fault now durable (map_option qmgr e) (map_option tmgr f)
     readiness r w))"
proof (cases durable)
  case False
  then show ?thesis using direct_fallback_ok [OF ok] by (simp add: compensate_late_readiness_def)
next
  case True
  obtain js res where arm: "arm_compensation sha fault now r (cw_jobs w) = (js, res)"
    by (cases "arm_compensation sha fault now r (cw_jobs w)")
  note a = arm_ok [OF ok inj r arm]
  show ?thesis
  proof (cases res)
    case (Inl err)
    with True arm direct_fallback_ok [OF a(1), of e f None r] show ?thesis
      by (cases "direct_fallback (map_option qmgr e) (map_option tmgr f) None r (w\<lparr>cw_jobs := js\<rparr>)")
        (simp add: compensate_late_readiness_def split_beta)
  next
    case (Inr job)
    let ?w = "w\<lparr>cw_jobs := js\<rparr>"
    let ?v = "fst (compensate_org fault now (map_option qmgr e) r job ?w)"
    have j: "job_static job \<in> set (List.map job_static (cw_jobs ?w))" using a(2) [OF Inr] by simp
    have v: "comp_ok sha R ?v \<and> keeps_jobs ?w ?v"
      by (rule compensate_org_ok [OF a(1) j]) (use a(2) [OF Inr] clean in simp)
    with j have jv: "job_static job \<in> set (List.map job_static (cw_jobs ?v))" by (simp only: keeps_jobs_def)
    have "comp_ok sha R (fst (compensate_token fault now (map_option tmgr f) r job ?v))"
      using compensate_token_ok [OF conjunct1 [OF v] jv, of r fault now f] a(2) [OF Inr] clean by simp
    with True arm Inr show ?thesis by (simp add: compensate_late_readiness_def split_beta)
  qed
qed

end

subsection \<open>The managers of the repository\<close>

definition ledger_manager :: "quota_env \<Rightarrow> quota_db quota_manager" where
  "ledger_manager env =
     \<lparr>qm_refund = (\<lambda>org sid db. case quota_refund env org sid db of
        (db', r) \<Rightarrow> (db', map_option (\<lambda>_. CauseOther) r))\<rparr>"

fun token_cause :: "token_error \<Rightarrow> cause" where
  "token_cause ReceiptMismatch = CauseMismatch"
| "token_cause _ = CauseOther"

definition store_manager :: "token_fault \<times> gotime \<Rightarrow> token_db token_manager" where
  "store_manager e =
     \<lparr>tm_refund = (\<lambda>tid amt db. case refund_token (fst e) (snd e) tid amt db of
        (db', r) \<Rightarrow> (db', map_option token_cause r)),
      tm_refund_once = (\<lambda>tid amt scope db. case refund_token_once (fst e) (snd e) tid amt scope db of
        (db', r) \<Rightarrow> (db', map_option token_cause r))\<rparr>"

definition refunded_session :: "string \<Rightarrow> quota_db \<Rightarrow> bool" where
  "refunded_session sid db \<longleftrightarrow> (\<exists>s \<in> set (sessions db). bs_id s = sid \<and> bs_status s = ''refunded'')"

definition receipt_for :: "string \<Rightarrow> string \<Rightarrow> token_db \<Rightarrow> bool" where
  "receipt_for scope tid db \<longleftrightarrow> (\<exists>r \<in> set (receipts db). rr_scope r = scope \<and> rr_token r = tid)"

lemma refunded_session_kept: "refunded_session sid db \<Longrightarrow> refunded_session sid (fst (ledger_exec env op db))"
  using closed_kept_by_exec by (fastforce simp: refunded_session_def)

lemma quota_refund_done:
  assumes "quota_refund env org sid db = (db', None)"
  shows "refunded_session sid db'"
proof -
  have refund: "refund_billing_session env sid org db = (db', None)"
    using assms by (simp add: quota_refund_def split: if_splits)
  then obtain s where s: "sql_select (session_key sid org) (sessions db) = Some s"
    and "bs_status s = ''refunded'' \<and> db' = db
         \<or> bs_status s = ''preauthorized''
           \<and> refund_reserved_quota_tx env (bs_user s) (bs_org s) (bs_preauth s)
               (close_sessions sid org (refund_update (e_now env)) db) = Inr db'"
    using refund_cases [OF refund] by blast
  from this(2) show ?thesis
  proof
    assume "bs_status s = ''refunded'' \<and> db' = db"
    with sql_select_Some [OF s] show ?thesis by (auto simp: refunded_session_def session_key_def)
  next
    assume tx: "bs_status s = ''preauthorized''
           \<and> refund_reserved_quota_tx env (bs_user s) (bs_org s) (bs_preauth s)
               (close_sessions sid org (refund_update (e_now env)) db) = Inr db'"
    then have "refund_update (e_now env) s \<in> set (sessions db')"
      using sql_select_Some [OF s] release_sessions by (force simp: close_sessions_def open_session_def)
    moreover have "bs_id (refund_update (e_now env) s) = sid" "bs_status (refund_update (e_now env) s) = ''refunded''"
      using sql_select_Some [OF s] by (simp_all add: refund_update_def session_key_def)
    ultimately show ?thesis unfolding refunded_session_def by blast
  qed
qed

lemma receipt_kept: "receipt_for s i db \<Longrightarrow> receipt_for s i (fst (token_exec fault now op db))"
  by (cases op)
    (auto simp: receipt_for_def pre_authorize_token_def settle_token_def refund_token_def revoke_token_def
      refund_token_once_def Let_def split: option.splits)

lemma refund_once_receipt:
  assumes "refund_token_once fault now tid amt scope db = (db', None)"
  shows "receipt_for scope tid db'"
  using assms unfolding refund_token_once_def Let_def receipt_for_def
  by (fastforce split: if_splits option.splits dest: sql_select_Some)

interpretation comp: compensation ledger_manager refunded_session store_manager receipt_for
proof unfold_locales
  fix e :: quota_env and org sid q q' s
  show "qm_refund (ledger_manager e) org sid q = (q', None) \<Longrightarrow> refunded_session sid q'"
    using quota_refund_done [of e org sid q q'] by (auto simp: ledger_manager_def split: prod.splits)
  show "refunded_session s q \<Longrightarrow> refunded_session s (fst (qm_refund (ledger_manager e) org sid q))"
    using refunded_session_kept [of s q e "OpRefund org sid"]
    by (simp add: ledger_manager_def split_beta)
next
  fix e :: "token_fault \<times> gotime" and tid amt scope t t' s i
  show "tm_refund_once (store_manager e) tid amt scope t = (t', None) \<Longrightarrow> receipt_for scope tid t'"
    using refund_once_receipt [of "fst e" "snd e" tid amt scope t t'] by (auto simp: store_manager_def split: prod.splits)
  show "receipt_for s i t \<Longrightarrow> receipt_for s i (fst (tm_refund_once (store_manager e) tid amt scope t))"
    using receipt_kept [of s i t "fst e" "snd e" "TokOpOnce tid amt scope"] by (simp add: store_manager_def split_beta)
  show "receipt_for s i t \<Longrightarrow> receipt_for s i (fst (tm_refund (store_manager e) tid amt t))"
    using receipt_kept [of s i t "fst e" "snd e" "TokOpRefund tid amt"] by (simp add: store_manager_def split_beta)
qed

subsection \<open>Runs\<close>

text \<open>Coordinator calls, worker passes, and whatever else happens to the ledger and the tokens.\<close>

datatype comp_event =
    CompCoordinate comp_fault gotime bool "quota_env option" "(token_fault \<times> gotime) option" comp_request
  | CompWork comp_fault gotime int string "quota_env option" "(token_fault \<times> gotime) option"
  | CompLedger quota_env ledger_op
  | CompTokens token_fault gotime token_op

type_synonym real_world = "(quota_db, token_db) comp_world"

fun comp_exec :: "(string \<Rightarrow> string) \<Rightarrow> comp_event \<Rightarrow> real_world \<Rightarrow> real_world" where
  "comp_exec sha (CompCoordinate fault now durable e f r) w =
     fst (compensate_late_readiness sha fault now durable (map_option ledger_manager e) (map_option store_manager f)
       (Some ()) r w)"
| "comp_exec sha (CompWork fault now limit worker e f) w =
     fst (process_once fault now limit worker (map_option ledger_manager e) (map_option store_manager f) w)"
| "comp_exec sha (CompLedger env op) w = w\<lparr>cw_quota := fst (ledger_exec env op (cw_quota w))\<rparr>"
| "comp_exec sha (CompTokens fault now op) w = w\<lparr>cw_token := fst (token_exec fault now op (cw_token w))\<rparr>"

fun comp_run :: "(string \<Rightarrow> string) \<Rightarrow> comp_event list \<Rightarrow> real_world \<Rightarrow> real_world" where
  "comp_run sha [] w = w"
| "comp_run sha (ev # evs) w = comp_run sha evs (comp_exec sha ev w)"

fun event_requests :: "comp_event \<Rightarrow> comp_request list" where
  "event_requests (CompCoordinate fault now durable e f r) = [r]"
| "event_requests _ = []"





definition sample_sha :: "string \<Rightarrow> string" where
  "sample_sha s = replicate 64 (CHR ''0'')"

definition sample_request :: comp_request where
  "sample_request = \<lparr>cr_attempt = ''a'', cr_stage = ''late-model-readiness'', cr_org = ''org'', cr_session = ''bill-1'',
     cr_token = ''t1'', cr_amount = 1, cr_idem = []\<rparr>"

definition sample_world :: real_world where
  "sample_world = \<lparr>cw_jobs = [], cw_quota = sample_open_db, cw_token = sample_token_db\<rparr>"

text \<open>The coordinator's refund of the token fails, a worker pass changes nothing, a second call completes the job.\<close>

definition sample_comp_run :: "comp_event list" where
  "sample_comp_run =
     [CompCoordinate (\<lambda>_. False) 1000 True (Some sample_env) (Some (\<lambda>c. c = TokCommit, 5)) sample_request,
      CompWork (\<lambda>_. False) (1000 + go_minute) 10 ''w'' (Some sample_env) (Some (\<lambda>_. False, 6)),
      CompCoordinate (\<lambda>_. False) 2000 True (Some sample_env) (Some (\<lambda>_. False, 7)) sample_request]"


subsection \<open>Marks that do not fail\<close>

lemma quiet_marks:
  assumes "is_digest key"
  shows "fst (mark_succeeded (\<lambda>_. False) key ScopeOrganization locked stamp jobs) =
      List.map (\<lambda>j. if (cj_key j = key \<and> (trim_space locked = [] \<or> cj_locked_by j = trim_space locked))
         \<and> cj_org_required j then org_succeeded stamp j else j) jobs"
    "fst (mark_succeeded (\<lambda>_. False) key ScopeApiToken locked stamp jobs) =
      List.map (\<lambda>j. if (cj_key j = key \<and> (trim_space locked = [] \<or> cj_locked_by j = trim_space locked))
         \<and> cj_token_required j then token_succeeded stamp j else j) jobs"
proof -
  have upd: "fst (update_jobs (\<lambda>_. False) call P f jobs) = List.map (\<lambda>j. if P j then f j else j) jobs" for call P f
    using sql_update_none [of jobs P f] by (auto simp: update_jobs_def Let_def sql_simps)
  show "fst (mark_succeeded (\<lambda>_. False) key ScopeOrganization locked stamp jobs) =
      List.map (\<lambda>j. if (cj_key j = key \<and> (trim_space locked = [] \<or> cj_locked_by j = trim_space locked))
         \<and> cj_org_required j then org_succeeded stamp j else j) jobs"
    using assms by (simp add: mark_succeeded_def Let_def upd)
  show "fst (mark_succeeded (\<lambda>_. False) key ScopeApiToken locked stamp jobs) =
      List.map (\<lambda>j. if (cj_key j = key \<and> (trim_space locked = [] \<or> cj_locked_by j = trim_space locked))
         \<and> cj_token_required j then token_succeeded stamp j else j) jobs"
    using assms by (simp add: mark_succeeded_def Let_def upd)
qed

subsection \<open>What workers recover\<close>

text \<open>The request has no key, or not the key \<open>key\<close>.\<close>

definition other_key :: "(string \<Rightarrow> string) \<Rightarrow> string \<Rightarrow> comp_request \<Rightarrow> bool" where
  "other_key sha key r \<longleftrightarrow> (case build_keys sha (trim_request r) of Inl _ \<Rightarrow> True | Inr k \<Rightarrow> ck_job k \<noteq> key)"

lemma mark_other_key:
  assumes "j \<in> set js" "cj_key j \<noteq> key"
  shows "j \<in> set (fst (mark_succeeded fault key scope locked stamp js))"
    "j \<in> set (fst (mark_failed fault now key scope locked code stamp js))"
proof -
  have upd: "j \<in> set (fst (update_jobs fault call P f js))" if "\<not> P j" for call P f
    using update_jobs_cases [of fault call P f js] assms(1) that by (auto intro: image_eqI [of _ _ j])
  show "j \<in> set (fst (mark_succeeded fault key scope locked stamp js))"
    using assms upd by (cases scope) (simp_all add: mark_succeeded_def Let_def)
  show "j \<in> set (fst (mark_failed fault now key scope locked code stamp js))"
    using assms upd by (cases scope) (simp_all add: mark_failed_def Let_def)
qed

lemma arm_keeps:
  assumes "j \<in> set js" "other_key sha (cj_key j) r" "arm_compensation sha fault now r js = (js', x)"
  shows "j \<in> set js' \<and> (\<forall>job. x = Inr job \<longrightarrow> cj_key job \<noteq> cj_key j)"
proof (cases "normalize_request r")
  case (Inl e)
  then show ?thesis using assms by (auto simp: arm_compensation_def)
next
  case (Inr r1)
  then have r1: "r1 = trim_request r" by (rule normalize_request_trims)
  show ?thesis
  proof (cases "build_keys sha r1")
    case (Inl e)
    then show ?thesis using assms Inr by (auto simp: arm_compensation_def)
  next
    case keys: (Inr k)
    then have k: "ck_job k \<noteq> cj_key j" using assms(2) r1 by (simp add: other_key_def)
    show ?thesis
      using assms(1,3) Inr keys k unfolding arm_compensation_def Let_def
      by (auto simp: new_job_def split: if_splits option.splits dest: sql_select_Some)
  qed
qed

lemma fallback_jobs [simp]: "cw_jobs (fst (direct_fallback qm tm readiness r w)) = cw_jobs w"
  by (auto simp: direct_fallback_def split: option.splits prod.splits if_splits)

lemma compensate_org_keeps:
  assumes "j \<in> set (cw_jobs w)" "cj_key job \<noteq> cj_key j"
  shows "j \<in> set (cw_jobs (fst (compensate_org fault now qm r job w)))"
proof -
  note marks = mark_other_key [OF assms(1) not_sym [OF assms(2)]]
  show ?thesis
    using assms(1) marks by (auto simp: compensate_org_def split: option.split prod.split) (metis fst_conv)+
qed

lemma compensate_token_keeps:
  assumes "j \<in> set (cw_jobs w)" "cj_key job \<noteq> cj_key j"
  shows "j \<in> set (cw_jobs (fst (compensate_token fault now tm r job w)))"
proof -
  note marks = mark_other_key [OF assms(1) not_sym [OF assms(2)]]
  show ?thesis
    using assms(1) marks by (auto simp: compensate_token_def split: option.split prod.split) (metis fst_conv)+
qed

lemma compensate_keeps:
  assumes "j \<in> set (cw_jobs w)" "other_key sha (cj_key j) r"
  shows "j \<in> set (cw_jobs (fst (compensate_late_readiness sha fault now durable qm tm readiness r w)))"
proof (cases durable)
  case True
  obtain js x where arm: "arm_compensation sha fault now r (cw_jobs w) = (js, x)" by fastforce
  note keeps = arm_keeps [OF assms arm]
  show ?thesis
  proof (cases x)
    case (Inl e)
    with True arm keeps show ?thesis by (simp add: compensate_late_readiness_def split_beta)
  next
    case (Inr job)
    let ?v = "fst (compensate_org fault now qm r job (w\<lparr>cw_jobs := js\<rparr>))"
    have "j \<in> set (cw_jobs ?v)" using keeps Inr by (intro compensate_org_keeps) auto
    then have "j \<in> set (cw_jobs (fst (compensate_token fault now tm r job ?v)))"
      using keeps Inr by (intro compensate_token_keeps) auto
    with True arm Inr show ?thesis by (simp add: compensate_late_readiness_def split_beta)
  qed
qed (use assms in \<open>simp add: compensate_late_readiness_def\<close>)

lemma comp_exec_keeps:
  assumes "j \<in> set (cw_jobs w)" "list_all (other_key sha (cj_key j)) (event_requests ev)"
  shows "j \<in> set (cw_jobs (comp_exec sha ev w))"
proof (cases ev)
  case (CompCoordinate fault now durable e f r)
  then show ?thesis using compensate_keeps [OF assms(1)] assms(2) by simp
next
  case (CompWork fault now limit worker e f)
  then show ?thesis
    using assms(1) pass_always_fails [of fault now limit worker "map_option ledger_manager e" "map_option store_manager f" w] by auto
qed (use assms in simp_all)

lemma comp_run_keeps:
  "j \<in> set (cw_jobs w) \<Longrightarrow> list_all (\<lambda>ev. list_all (other_key sha (cj_key j)) (event_requests ev)) evs
   \<Longrightarrow> j \<in> set (cw_jobs (comp_run sha evs w))"
  by (induction evs arbitrary: w) (simp_all add: comp_exec_keeps del: comp_exec.simps)

text \<open>
  C13. Workers recover nothing. The statement with which a worker claims due jobs returns
  \<open>job_key_digest\<close>, a column of both the job table and the due keys, so the database rejects it: every
  worker pass ends in an error, and a job stays as the coordinator left it, with all that is left open
  in it, through every sequence of worker passes, ledger and token operations and compensations of
  requests with another key, whatever fails in them. Only a compensation of a request with the same key
  can still complete it.
\<close>

theorem workers_recover_nothing:
  assumes "j \<in> set (cw_jobs w)"
    and "list_all (\<lambda>ev. list_all (other_key sha (cj_key j)) (event_requests ev)) evs"
  shows "j \<in> set (cw_jobs (comp_run sha evs w))
    \<and> (\<exists>e. process_once fault now limit worker qm tm (comp_run sha evs w) = (comp_run sha evs w, Some e))"
  using comp_run_keeps [OF assms] pass_always_fails by blast

text \<open>The job the first call of the sample run leaves behind.\<close>

definition sample_left :: real_world where
  "sample_left = comp_exec sample_sha (hd sample_comp_run) sample_world"

definition sample_passes :: "comp_event list" where
  "sample_passes = List.map (\<lambda>t. CompWork (\<lambda>_. False) (1000 + t * go_minute) 10 ''w'' (Some sample_env) (Some (\<lambda>_. False, 6))) [1, 2, 60]"

theorem workers_recover_nothing_witness:
  "case cw_jobs sample_left of
     [j] \<Rightarrow> job_due (1000 + go_minute) j \<and> cj_token_required j \<and> \<not> cj_token_completed j
       \<and> j \<in> set (cw_jobs (comp_run sample_sha sample_passes sample_left))
   | _ \<Rightarrow> False"
proof -
  have "case cw_jobs sample_left of [j] \<Rightarrow> job_due (1000 + go_minute) j \<and> cj_token_required j \<and> \<not> cj_token_completed j | _ \<Rightarrow> False"
    by code_simp
  then obtain j where j: "cw_jobs sample_left = [j]" "job_due (1000 + go_minute) j" "cj_token_required j" "\<not> cj_token_completed j"
    by (auto split: list.splits)
  have "list_all (\<lambda>ev. list_all (other_key sample_sha (cj_key j)) (event_requests ev)) sample_passes"
    by (simp add: sample_passes_def)
  then have "j \<in> set (cw_jobs (comp_run sample_sha sample_passes sample_left))"
    using workers_recover_nothing [of j sample_left sample_sha sample_passes] j(1) by simp
  with j show ?thesis by simp
qed

subsection \<open>A mark that is lost\<close>

definition sample_token_manager :: "unit token_manager" where
  "sample_token_manager = \<lparr>tm_refund = (\<lambda>_ _ t. (t, None)), tm_refund_once = (\<lambda>_ _ _ t. (t, None))\<rparr>"

text \<open>
  Were a worker handed a job, an organization failure would lose the token's success: when the organization refund
  fails and the token refund succeeds in one pass, the failure mark clears the lease, so the
  token's success mark finds no row. The receipt exists, the scope stays open, and the pass
  reports no error.
\<close>

theorem failed_organization_drops_token_mark:
  assumes "is_digest (cj_key j)" "cj_org_required j" "\<not> cj_org_completed j"
    "cj_token_required j" "\<not> cj_token_completed j" "0 < cj_amount j"
    "cj_locked_by j = trim_space worker" "trim_space worker \<noteq> []"
    and "qm_refund qm (cj_org j) (cj_session j) (cw_quota w) = (q, Some c)"
    and "tm_refund_once tm (cj_token j) (cj_amount j) (cj_token_scope j) (cw_token w) = (t, None)"
    and "cw_jobs w = [j]"
  shows "process_job (\<lambda>_. False) now worker (Some qm) (Some tm) j w =
    \<lparr>cw_jobs = [org_failed ''retry_failed'' (now + go_minute) now j], cw_quota = q, cw_token = t\<rparr>"
proof -
  let ?j = "org_failed ''retry_failed'' (now + go_minute) now j"
  have code: "normalize_error_code ''retry_failed'' = ''retry_failed''" by code_simp
  have failed: "mark_failed (\<lambda>_. False) now (cj_key j) ScopeOrganization worker ''retry_failed'' (now + go_minute) [j] =
      ([?j], None)"
    using assms(1-3,7) by (simp add: mark_failed_def Let_def update_jobs_def sql_update_def code)
  have fields: "cj_key ?j = cj_key j" "cj_locked_by ?j = []" by (simp_all add: org_failed_def)
  have "fst (mark_succeeded (\<lambda>_. False) (cj_key j) ScopeApiToken worker now [?j]) = [?j]"
    using assms(1,8) fields by (simp add: quiet_marks)
  with failed assms(2-6,9-11) show ?thesis
    by (simp add: process_job_def process_org_def process_token_def)
qed

definition sample_claimed :: comp_job where
  "sample_claimed = claim_row 2000 ''w'' (new_job 1000
     \<lparr>ck_job = sample_sha [], ck_org_scope = sample_sha [], ck_token_scope = sample_sha []\<rparr> sample_request)"

definition sample_failing_manager :: "unit quota_manager" where
  "sample_failing_manager = \<lparr>qm_refund = (\<lambda>_ _ q. (q, Some CauseOther))\<rparr>"

theorem failed_organization_drops_token_mark_witness:
  "process_job (\<lambda>_. False) 2000 ''w'' (Some sample_failing_manager) (Some sample_token_manager) sample_claimed
     \<lparr>cw_jobs = [sample_claimed], cw_quota = (), cw_token = ()\<rparr> =
   \<lparr>cw_jobs = [org_failed ''retry_failed'' (2000 + go_minute) 2000 sample_claimed], cw_quota = (), cw_token = ()\<rparr>"
proof (rule failed_organization_drops_token_mark)
  show "is_digest (cj_key sample_claimed)" by code_simp
  show "0 < cj_amount sample_claimed" by code_simp
  show "cj_locked_by sample_claimed = trim_space ''w''" by code_simp
  show "trim_space ''w'' \<noteq> []" by code_simp
qed (simp_all add: sample_claimed_def claim_row_def new_job_def sample_request_def sample_failing_manager_def
    sample_token_manager_def)

end
