(* ===== verification/Workflow_Graph.thy ===== *)
theory Workflow_Graph
  imports Prelude "HOL-Library.Multiset"
begin

text \<open>
  The graph of a workflow, \<open>src/server/internal/workflow/executor/dag.go\<close>: construction,
  Kahn's topological sort, the depth-first search for cycles, the parallel groups, and the
  analysis made of them.

  \<open>Nodes\<close> is an association list with distinct keys; wherever the code ranges over the map it
  sorts what it collected, so the order of the list does not matter. The map of in-degrees is a
  function: reading a missing key gives 0. A graph is one that \<open>NewDAG\<close> returned, so that every
  name in it has a node; a nil graph has no nodes.
\<close>

subsection \<open>Sorting\<close>

text \<open>
  \<open>sortStrings\<close>: for each position \<open>i\<close> one pass over the rest, which swaps a smaller element
  into place. The pass returns the element that ends at \<open>i\<close> and the rest behind it.
\<close>

fun sort_pass :: "'a :: linorder \<Rightarrow> 'a list \<Rightarrow> 'a \<times> 'a list" where
  "sort_pass x [] = (x, [])"
| "sort_pass x (y # ys) =
     (if y < x then (case sort_pass y ys of (m, zs) \<Rightarrow> (m, x # zs))
      else (case sort_pass x ys of (m, zs) \<Rightarrow> (m, y # zs)))"

lemma sort_pass_length: "length (snd (sort_pass x ys)) = length ys"
  by (induction x ys rule: sort_pass.induct) (auto split: prod.splits)

function sort_strings :: "'a :: linorder list \<Rightarrow> 'a list" where
  "sort_strings [] = []"
| "sort_strings (x # xs) = fst (sort_pass x xs) # sort_strings (snd (sort_pass x xs))"
  by pat_completeness auto

termination by (relation "measure length") (auto simp: sort_pass_length)

lemma sort_pass_mset: "add_mset (fst (sort_pass x ys)) (mset (snd (sort_pass x ys))) = add_mset x (mset ys)"
  by (induction x ys rule: sort_pass.induct) (auto split: prod.splits)

lemma sort_pass_min: "z \<in> set (x # ys) \<Longrightarrow> fst (sort_pass x ys) \<le> z"
proof (induction x ys arbitrary: z rule: sort_pass.induct)
  case (2 x y ys)
  show ?case
  proof (cases "y < x")
    case True
    have "fst (sort_pass y ys) \<le> y" using 2(1) [OF True, of y] by simp
    then have "fst (sort_pass y ys) \<le> z" using 2(1) [OF True, of z] 2(3) True by auto
    with True show ?thesis by (simp add: split_beta)
  next
    case False
    have "fst (sort_pass x ys) \<le> x" using 2(2) [OF False, of x] by simp
    then have "fst (sort_pass x ys) \<le> z" using 2(2) [OF False, of z] 2(3) False by auto
    with False show ?thesis by (simp add: split_beta)
  qed
qed simp

lemma sort_strings_mset: "mset (sort_strings xs) = mset xs"
  by (induction xs rule: sort_strings.induct) (simp_all add: sort_pass_mset)

lemma sort_strings_sorted: "sorted (sort_strings xs)"
proof (induction xs rule: sort_strings.induct)
  case (2 x xs)
  have "fst (sort_pass x xs) \<le> z" if "z \<in> set (sort_strings (snd (sort_pass x xs)))" for z
  proof -
    from that have "z \<in># add_mset (fst (sort_pass x xs)) (mset (snd (sort_pass x xs)))"
      by (metis mset_eq_setD set_mset_mset sort_strings_mset insert_iff set_mset_add_mset_insert)
    then have "z \<in> set (x # xs)" unfolding sort_pass_mset by simp
    then show ?thesis by (rule sort_pass_min)
  qed
  with 2 show ?case by simp
qed simp

lemma sort_strings_is_sort: "sort_strings xs = sort xs"
  by (metis properties_for_sort sort_strings_mset sort_strings_sorted)

lemma set_sort_strings [simp]: "set (sort_strings xs) = set xs"
  by (simp add: sort_strings_is_sort)

lemma distinct_sort_strings [simp]: "distinct (sort_strings xs) = distinct xs"
  by (simp add: sort_strings_is_sort)

lemma length_sort_strings [simp]: "length (sort_strings xs) = length xs"
  by (simp add: sort_strings_is_sort)

lemma sort_strings_Nil [simp]: "sort_strings xs = [] \<longleftrightarrow> xs = []"
  by (metis length_0_conv length_sort_strings)

lemma count_sort_strings [simp]: "count_list (sort_strings xs) x = count_list xs x"
  by (metis count_mset sort_strings_mset)

subsection \<open>Graphs\<close>

record dag_node =
  dn_id :: string
  dn_type :: string
  dn_children :: "string list"
  dn_parents :: "string list"

record dag =
  dg_nodes :: "(string \<times> dag_node) list"
  dg_edges :: "(string \<times> string) list"

datatype dag_error = DagEmpty | DagUnknownSource string | DagUnknownTarget string | DagCycle "string list" | DagNoRoot

definition node_keys :: "dag \<Rightarrow> string list" where
  "node_keys d = List.map fst (dg_nodes d)"

definition children_of :: "dag \<Rightarrow> string \<Rightarrow> string list" where
  "children_of d x = (case map_of (dg_nodes d) x of None \<Rightarrow> [] | Some n \<Rightarrow> dn_children n)"

definition parents_of :: "dag \<Rightarrow> string \<Rightarrow> string list" where
  "parents_of d x = (case map_of (dg_nodes d) x of None \<Rightarrow> [] | Some n \<Rightarrow> dn_parents n)"

definition new_node :: "string \<Rightarrow> dag_node" where
  "new_node x = \<lparr>dn_id = x, dn_type = [], dn_children = [], dn_parents = []\<rparr>"

fun add_nodes :: "string list \<Rightarrow> (string \<times> dag_node) list \<Rightarrow> (string \<times> dag_node) list" where
  "add_nodes [] nodes = nodes"
| "add_nodes (raw # ids) nodes =
     (let x = trim_space raw
      in add_nodes ids (if x = [] then nodes else AList.update x (new_node x) nodes))"

text \<open>One edge: the edge list, then the child on the source, then the parent on the target.\<close>

definition add_edge :: "string \<Rightarrow> string \<Rightarrow> dag \<Rightarrow> dag" where
  "add_edge u v d =
     d\<lparr>dg_edges := dg_edges d @ [(u, v)],
       dg_nodes := AList.map_entry v (\<lambda>n. n\<lparr>dn_parents := dn_parents n @ [u]\<rparr>)
                     (AList.map_entry u (\<lambda>n. n\<lparr>dn_children := dn_children n @ [v]\<rparr>) (dg_nodes d))\<rparr>"

fun add_edge_list :: "(string \<times> string) list \<Rightarrow> dag \<Rightarrow> dag_error + dag" where
  "add_edge_list [] d = Inr d"
| "add_edge_list ((from0, to0) # es) d =
     (let u = trim_space from0; v = trim_space to0
      in if u = [] \<or> v = [] then add_edge_list es d
         else if map_of (dg_nodes d) u = None then Inl (DagUnknownSource u)
         else if map_of (dg_nodes d) v = None then Inl (DagUnknownTarget v)
         else add_edge_list es (add_edge u v d))"

definition new_dag :: "string list \<Rightarrow> (string \<times> string) list \<Rightarrow> dag_error + dag" where
  "new_dag ids es =
     (if ids = [] then Inl DagEmpty
      else add_edge_list es \<lparr>dg_nodes = add_nodes ids [], dg_edges = []\<rparr>)"

subsection \<open>Topological sort\<close>

fun count_degrees :: "(string \<times> string) list \<Rightarrow> (string \<Rightarrow> int) \<Rightarrow> string \<Rightarrow> int" where
  "count_degrees [] deg = deg"
| "count_degrees ((u, v) # es) deg = count_degrees es (deg(v := deg v + 1))"

definition in_degrees :: "dag \<Rightarrow> string \<Rightarrow> int" where
  "in_degrees d = count_degrees (dg_edges d) (\<lambda>_. 0)"

fun release_children :: "string list \<Rightarrow> (string \<Rightarrow> int) \<Rightarrow> string list \<Rightarrow> (string \<Rightarrow> int) \<times> string list" where
  "release_children [] deg queue = (deg, queue)"
| "release_children (c # cs) deg queue =
     release_children cs (deg(c := deg c - 1)) (if deg c - 1 = 0 then queue @ [c] else queue)"

definition all_children :: "dag \<Rightarrow> string set" where
  "all_children d = (\<Union>n \<in> set (dg_nodes d). set (dn_children (snd n)))"

lemma finite_all_children [simp]: "finite (all_children d)"
  by (simp add: all_children_def)

lemma children_of_all: "set (children_of d x) \<subseteq> all_children d"
proof (cases "map_of (dg_nodes d) x")
  case (Some n)
  then have "(x, n) \<in> set (dg_nodes d)" by (rule map_of_SomeD)
  then show ?thesis using Some unfolding children_of_def all_children_def by fastforce
qed (simp add: children_of_def)

text \<open>What is queued has left the positive in-degrees: the sum never grows.\<close>

lemma release_children_measure:
  assumes "set cs \<subseteq> A" "finite A"
  shows "card {x \<in> A. 0 < fst (release_children cs deg queue) x} + length (snd (release_children cs deg queue))
       = card {x \<in> A. 0 < deg x} + length queue"
  using assms(1)
proof (induction cs arbitrary: deg queue)
  case (Cons c cs)
  define deg' where "deg' = deg(c := deg c - 1)"
  have "card {x \<in> A. 0 < deg' x} + (if deg c - 1 = 0 then 1 else 0) = card {x \<in> A. 0 < deg x}"
  proof (cases "deg c = 1")
    case True
    then have "{x \<in> A. 0 < deg x} = insert c {x \<in> A. 0 < deg' x}" using Cons.prems by (auto simp: deg'_def)
    with True assms(2) show ?thesis by (simp add: deg'_def)
  next
    case False
    then have "{x \<in> A. 0 < deg' x} = {x \<in> A. 0 < deg x}" by (auto simp: deg'_def)
    with False show ?thesis by simp
  qed
  with Cons.IH [of deg' "if deg c - 1 = 0 then queue @ [c] else queue"] Cons.prems show ?case
    unfolding release_children.simps deg'_def [symmetric] by (simp split: if_splits)
qed simp

function kahn :: "dag \<Rightarrow> (string \<Rightarrow> int) \<Rightarrow> string list \<Rightarrow> string list \<Rightarrow> string list" where
  "kahn d deg [] order = order"
| "kahn d deg (n # queue) order =
     (case release_children (sort_strings (children_of d n)) deg queue of
        (deg', queue') \<Rightarrow> kahn d deg' queue' (order @ [n]))"
  by pat_completeness auto

termination
proof (relation "measure (\<lambda>(d, deg, queue, order). card {x \<in> all_children d. 0 < deg x} + length queue)")
  fix d deg n queue order deg' queue'
  assume r: "(deg', queue') = release_children (sort_strings (children_of d n)) deg queue"
  have "card {x \<in> all_children d. 0 < deg' x} + length queue' = card {x \<in> all_children d. 0 < deg x} + length queue"
    using release_children_measure [of "sort_strings (children_of d n)" "all_children d" deg queue]
    unfolding r [symmetric] using children_of_all by simp
  then show "((d, deg', queue', order @ [n]), d, deg, n # queue, order)
      \<in> measure (\<lambda>(d, deg, queue, order). card {x \<in> all_children d. 0 < deg x} + length queue)" by simp
qed simp

subsection \<open>Cycles\<close>

datatype colour = White | Gray | Black

definition whites :: "dag \<Rightarrow> (string \<Rightarrow> colour) \<Rightarrow> string list \<Rightarrow> string set" where
  "whites d c ks = {x \<in> all_children d \<union> set ks. c x = White}"

lemma finite_whites [simp]: "finite (whites d c ks)"
  by (simp add: whites_def)

text \<open>
  The closure \<open>visit\<close> with the children still to be looked at: \<open>visit(n)\<close> colours \<open>n\<close> gray and
  runs this on its children. The path is \<open>None\<close> where \<open>visit\<close> returns false.
\<close>

function visit_children ::
  "dag \<Rightarrow> (string \<Rightarrow> colour) \<Rightarrow> string \<Rightarrow> string list \<Rightarrow> (string \<Rightarrow> colour) \<times> string list option" where
  "visit_children d c n [] = (c(n := Black), None)"
| "visit_children d c n (k # ks) =
     (case c k of
        Gray \<Rightarrow> (c, Some [k, n])
      | White \<Rightarrow>
          (case visit_children d (c(k := Gray)) k (children_of d k) of
             (c', Some path) \<Rightarrow> (c', Some (if path \<noteq> [] \<and> last path \<noteq> n then path @ [n] else path))
           | (c', None) \<Rightarrow> visit_children d c' n ks)
      | Black \<Rightarrow> visit_children d c n ks)"
  by pat_completeness auto

lemma visit_children_whites:
  "visit_children_dom (d, c, n, ks) \<Longrightarrow> fst (visit_children d c n ks) x = White \<Longrightarrow> c x = White"
proof (induction d c n ks rule: visit_children.pinduct)
  case (1 d c n)
  then show ?case by (simp add: visit_children.psimps split: if_splits)
next
  case (2 d c n k ks)
  then show ?case
    by (auto simp: visit_children.psimps fun_upd_def split: colour.splits prod.splits option.splits if_splits)
qed

termination visit_children
proof (relation "inv_image (less_than <*lex*> less_than) (\<lambda>(d, c, n, ks). (card (whites d c ks), length ks))")
  show "wf (inv_image (less_than <*lex*> less_than)
      (\<lambda>(d, c :: string \<Rightarrow> colour, n :: string, ks :: string list). (card (whites d c ks), length ks)))" by auto
next
  fix d :: dag and c :: "string \<Rightarrow> colour" and n k :: string and ks
  assume "c k = White"
  then have "whites d (c(k := Gray)) (children_of d k) \<subset> whites d c (k # ks)"
    using children_of_all [of d k] by (auto simp: whites_def split: if_splits)
  then show "((d, c(k := Gray), k, children_of d k), d, c, n, k # ks)
      \<in> inv_image (less_than <*lex*> less_than) (\<lambda>(d, c, n, ks). (card (whites d c ks), length ks))"
    by (simp add: psubset_card_mono)
next
  fix d :: dag and c c' :: "string \<Rightarrow> colour" and n k :: string and ks p
  assume "c k = White" and r: "(c', p) = visit_children d (c(k := Gray)) k (children_of d k)" and "p = None"
    and dom: "visit_children_dom (d, c(k := Gray), k, children_of d k)"
  then have "c' x = White \<Longrightarrow> c x = White" for x
    using visit_children_whites [OF dom, of x] by (metis colour.distinct(1) fst_conv fun_upd_apply)
  then have "whites d c' ks \<subseteq> whites d c (k # ks)" by (auto simp: whites_def)
  then have "card (whites d c' ks) \<le> card (whites d c (k # ks))" by (simp add: card_mono)
  then show "((d, c', n, ks), d, c, n, k # ks)
      \<in> inv_image (less_than <*lex*> less_than) (\<lambda>(d, c, n, ks). (card (whites d c ks), length ks))" by auto
next
  fix d :: dag and c :: "string \<Rightarrow> colour" and n k :: string and ks
  have "whites d c ks \<subseteq> whites d c (k # ks)" by (auto simp: whites_def)
  then have "card (whites d c ks) \<le> card (whites d c (k # ks))" by (simp add: card_mono)
  then show "((d, c, n, ks), d, c, n, k # ks)
      \<in> inv_image (less_than <*lex*> less_than) (\<lambda>(d, c, n, ks). (card (whites d c ks), length ks))" by auto
qed

fun search_from :: "dag \<Rightarrow> (string \<Rightarrow> colour) \<Rightarrow> string list \<Rightarrow> bool \<times> string list" where
  "search_from d c [] = (False, [])"
| "search_from d c (x # xs) =
     (if c x = White
      then (case visit_children d (c(x := Gray)) x (children_of d x) of
              (c', Some path) \<Rightarrow> (True, path)
            | (c', None) \<Rightarrow> search_from d c' xs)
      else search_from d c xs)"

definition detect_cycles :: "dag \<Rightarrow> bool \<times> string list" where
  "detect_cycles d =
     (if dg_nodes d = [] then (False, [])
      else search_from d (\<lambda>_. White) (sort_strings (node_keys d)))"

definition find_cycle_nodes :: "dag \<Rightarrow> string list" where
  "find_cycle_nodes d = (case detect_cycles d of (True, nodes) \<Rightarrow> nodes | (False, _) \<Rightarrow> [])"

definition topological_sort :: "dag \<Rightarrow> string list \<times> dag_error option" where
  "topological_sort d =
     (if dg_nodes d = [] then ([], Some DagEmpty)
      else
        (let deg = in_degrees d;
             order = kahn d deg (sort_strings (filter (\<lambda>x. deg x = 0) (node_keys d))) []
         in if length order \<noteq> length (dg_nodes d) then (order, Some (DagCycle (find_cycle_nodes d)))
            else (order, None)))"

subsection \<open>Parallel groups and analysis\<close>

fun decrement_all :: "string list \<Rightarrow> (string \<Rightarrow> int) \<Rightarrow> string \<Rightarrow> int" where
  "decrement_all [] deg = deg"
| "decrement_all (c # cs) deg = decrement_all cs (deg(c := deg c - 1))"

function groups_from :: "dag \<Rightarrow> (string \<Rightarrow> int) \<Rightarrow> string list \<Rightarrow> string list list" where
  "groups_from d deg remaining =
     (if remaining = [] then []
      else
        (let grp = sort_strings (filter (\<lambda>x. deg x = 0) remaining)
         in if grp = [] then []
            else grp # groups_from d (decrement_all (concat (List.map (children_of d) grp)) deg)
                         (filter (\<lambda>x. x \<notin> set grp) remaining)))"
  by pat_completeness auto

termination
proof (relation "measure (\<lambda>(d, deg, remaining). length remaining)")
  fix d :: dag and deg :: "string \<Rightarrow> int" and remaining grp
  assume "remaining \<noteq> []" "grp = sort_strings (filter (\<lambda>x. deg x = 0) remaining)" "grp \<noteq> []"
  then have "length (filter (\<lambda>x. x \<notin> set grp) remaining) < length remaining"
    by (auto simp: length_filter_less filter_empty_conv)
  then show "((d, decrement_all (concat (List.map (children_of d) grp)) deg, filter (\<lambda>x. x \<notin> set grp) remaining),
      d, deg, remaining) \<in> measure (\<lambda>(d, deg, remaining). length remaining)" by simp
qed simp

declare groups_from.simps [simp del]

definition detect_parallel_groups :: "dag \<Rightarrow> string list list" where
  "detect_parallel_groups d =
     (if dg_nodes d = [] then [] else groups_from d (in_degrees d) (node_keys d))"

definition root_nodes :: "dag \<Rightarrow> string list" where
  "root_nodes d = sort_strings (List.map fst (filter (\<lambda>(x, n). dn_parents n = []) (dg_nodes d)))"

definition leaf_nodes :: "dag \<Rightarrow> string list" where
  "leaf_nodes d = sort_strings (List.map fst (filter (\<lambda>(x, n). dn_children n = []) (dg_nodes d)))"

definition validate_dag :: "dag \<Rightarrow> dag_error option" where
  "validate_dag d =
     (if dg_nodes d = [] then Some DagEmpty
      else case detect_cycles d of
        (True, nodes) \<Rightarrow> Some (DagCycle nodes)
      | (False, _) \<Rightarrow> if root_nodes d = [] then Some DagNoRoot else None)"

record dag_analysis =
  an_order :: "string list"
  an_groups :: "string list list"
  an_roots :: "string list"
  an_leaves :: "string list"
  an_cycle :: bool
  an_cycle_nodes :: "string list"

definition analyze_dag :: "dag \<Rightarrow> dag_analysis" where
  "analyze_dag d =
     (if dg_nodes d = []
      then \<lparr>an_order = [], an_groups = [], an_roots = [], an_leaves = [], an_cycle = False, an_cycle_nodes = []\<rparr>
      else
        (let (cyc, nodes) = detect_cycles d
         in \<lparr>an_order = (if cyc then [] else case topological_sort d of (order, None) \<Rightarrow> order | (_, Some _) \<Rightarrow> []),
             an_groups = detect_parallel_groups d, an_roots = root_nodes d, an_leaves = leaf_nodes d,
             an_cycle = cyc, an_cycle_nodes = nodes\<rparr>))"

subsection \<open>Well-formed graphs\<close>

definition edge_rel :: "dag \<Rightarrow> (string \<times> string) set" where
  "edge_rel d = set (dg_edges d)"

text \<open>
  Nodes have one key each; the children and the parents of every node agree, with multiplicity,
  with the edge list; and every edge joins two nodes.
\<close>

definition wf_dag :: "dag \<Rightarrow> bool" where
  "wf_dag d \<longleftrightarrow>
     distinct (node_keys d)
   \<and> (\<forall>u v. count_list (children_of d u) v = count_list (dg_edges d) (u, v))
   \<and> (\<forall>u v. count_list (parents_of d v) u = count_list (dg_edges d) (u, v))
   \<and> edge_rel d \<subseteq> set (node_keys d) \<times> set (node_keys d)"

lemma count_list_pos: "0 < count_list xs x \<longleftrightarrow> x \<in> set xs"
  using count_list_0_iff [of xs x] by auto

lemma wf_children: "wf_dag d \<Longrightarrow> v \<in> set (children_of d u) \<longleftrightarrow> (u, v) \<in> edge_rel d"
  unfolding wf_dag_def edge_rel_def by (metis count_list_pos)

lemma wf_parents: "wf_dag d \<Longrightarrow> u \<in> set (parents_of d v) \<longleftrightarrow> (u, v) \<in> edge_rel d"
  unfolding wf_dag_def edge_rel_def by (metis count_list_pos)

lemma wf_ends: "wf_dag d \<Longrightarrow> (u, v) \<in> edge_rel d \<Longrightarrow> u \<in> set (node_keys d) \<and> v \<in> set (node_keys d)"
  by (auto simp: wf_dag_def)

lemma finite_edge_rel [simp]: "finite (edge_rel d)"
  by (simp add: edge_rel_def)

lemma map_entry_keys: "List.map fst (AList.map_entry k f xs) = List.map fst xs"
  by (induction xs) auto

lemma node_keys_dom: "map_of (dg_nodes d) x \<noteq> None \<longleftrightarrow> x \<in> set (node_keys d)"
  by (simp add: node_keys_def map_of_eq_None_iff)

lemma add_edge_keys [simp]: "node_keys (add_edge u v d) = node_keys d"
  by (simp add: node_keys_def add_edge_def map_entry_keys)

lemma add_edge_children:
  "u \<in> set (node_keys d) \<Longrightarrow> children_of (add_edge u v d) x = children_of d x @ (if x = u then [v] else [])"
  using node_keys_dom [of d u]
  by (auto simp: children_of_def add_edge_def map_of_map_entry split: option.splits)

lemma add_edge_parents:
  "v \<in> set (node_keys d) \<Longrightarrow> parents_of (add_edge u v d) x = parents_of d x @ (if x = v then [u] else [])"
  using node_keys_dom [of d v]
  by (auto simp: parents_of_def add_edge_def map_of_map_entry split: option.splits)

lemma wf_add_edge:
  assumes "wf_dag d" "u \<in> set (node_keys d)" "v \<in> set (node_keys d)"
  shows "wf_dag (add_edge u v d)"
proof -
  have edges: "dg_edges (add_edge u v d) = dg_edges d @ [(u, v)]" by (simp add: add_edge_def)
  show ?thesis using assms
    by (auto simp: wf_dag_def add_edge_children add_edge_parents edges edge_rel_def)
qed

lemma add_nodes_ok:
  assumes "\<forall>(x, n) \<in> set nodes. n = new_node x" "distinct (List.map fst nodes)"
  shows "(\<forall>(x, n) \<in> set (add_nodes ids nodes). n = new_node x) \<and> distinct (List.map fst (add_nodes ids nodes))
    \<and> set (List.map fst (add_nodes ids nodes)) = set (List.map fst nodes) \<union> (trim_space ` set ids - {[]})"
  using assms
proof (induction ids nodes rule: add_nodes.induct)
  case (2 raw ids nodes)
  let ?x = "trim_space raw"
  show ?case
  proof (cases "?x = []")
    case True
    with 2 show ?thesis by auto
  next
    case False
    have "set (AList.update ?x (new_node ?x) nodes) \<subseteq> insert (?x, new_node ?x) (set nodes)"
      by (induction nodes) auto
    then have "\<forall>(x, n) \<in> set (AList.update ?x (new_node ?x) nodes). n = new_node x" using 2(2) by auto
    moreover have "distinct (List.map fst (AList.update ?x (new_node ?x) nodes))"
      using 2(3) by (rule distinct_update)
    moreover have "set (List.map fst (AList.update ?x (new_node ?x) nodes)) = insert ?x (set (List.map fst nodes))"
      by (auto simp: update_keys)
    ultimately show ?thesis using 2(1) [of ?x] False by (auto simp: Let_def)
  qed
qed simp

lemma wf_start: "wf_dag \<lparr>dg_nodes = add_nodes ids [], dg_edges = []\<rparr>"
proof -
  let ?d = "\<lparr>dg_nodes = add_nodes ids [], dg_edges = []\<rparr>"
  note ok = add_nodes_ok [of "[]" ids]
  have "children_of ?d x = [] \<and> parents_of ?d x = []" for x
  proof (cases "map_of (add_nodes ids []) x")
    case (Some n)
    then have "n = new_node x" using ok by (auto dest: map_of_SomeD)
    with Some show ?thesis by (simp add: children_of_def parents_of_def new_node_def)
  qed (simp add: children_of_def parents_of_def)
  then show ?thesis using ok by (simp add: wf_dag_def node_keys_def edge_rel_def)
qed

lemma add_edge_list_ok:
  "wf_dag d0 \<Longrightarrow> add_edge_list es d0 = Inr d \<Longrightarrow> wf_dag d \<and> node_keys d = node_keys d0"
proof (induction es d0 rule: add_edge_list.induct)
  case (2 from0 to0 es d0)
  then show ?case
    using wf_add_edge [of d0 "trim_space from0" "trim_space to0"] node_keys_dom
    by (auto simp: Let_def split: if_splits)
qed simp

lemma new_dag_wf: "new_dag ids es = Inr d \<Longrightarrow> wf_dag d"
  using add_edge_list_ok [OF wf_start] by (auto simp: new_dag_def split: if_splits)

lemma new_dag_keys:
  assumes "new_dag ids es = Inr d"
  shows "set (node_keys d) = trim_space ` set ids - {[]}"
proof -
  from assms have "add_edge_list es \<lparr>dg_nodes = add_nodes ids [], dg_edges = []\<rparr> = Inr d"
    by (simp add: new_dag_def split: if_splits)
  then have "node_keys d = node_keys \<lparr>dg_nodes = add_nodes ids [], dg_edges = []\<rparr>"
    using add_edge_list_ok [OF wf_start] by blast
  then show ?thesis using add_nodes_ok [of "[]" ids] by (simp add: node_keys_def)
qed

subsection \<open>In-degrees\<close>

text \<open>The edges into \<open>x\<close> whose source is not in \<open>D\<close>.\<close>

definition pending :: "dag \<Rightarrow> string set \<Rightarrow> string \<Rightarrow> nat" where
  "pending d D x = length (filter (\<lambda>(u, v). v = x \<and> u \<notin> D) (dg_edges d))"

lemma count_degrees_pending: "count_degrees es deg x = deg x + int (length (filter (\<lambda>(u, v). v = x) es))"
  by (induction es arbitrary: deg) auto

lemma in_degrees_pending: "in_degrees d x = int (pending d {} x)"
  by (simp add: in_degrees_def count_degrees_pending pending_def)

lemma pending_split:
  assumes "u \<notin> D"
  shows "pending d D x = pending d (insert u D) x + count_list (dg_edges d) (u, x)"
proof -
  have "length (filter (\<lambda>(s, v). v = x \<and> s \<notin> D) es) =
      length (filter (\<lambda>(s, v). v = x \<and> s \<notin> insert u D) es) + count_list es (u, x)" for es
    using assms by (induction es) auto
  then show ?thesis by (simp add: pending_def)
qed

lemma pending_insert:
  "wf_dag d \<Longrightarrow> u \<notin> D \<Longrightarrow> pending d D x = pending d (insert u D) x + count_list (children_of d u) x"
  using pending_split [of u D d x] by (simp add: wf_dag_def)

lemma pending_pos: "0 < pending d D x \<longleftrightarrow> (\<exists>u. (u, x) \<in> edge_rel d \<and> u \<notin> D)"
  by (auto simp: pending_def edge_rel_def filter_empty_conv)

lemma pending_zero: "pending d D x = 0 \<longleftrightarrow> (\<forall>u. (u, x) \<in> edge_rel d \<longrightarrow> u \<in> D)"
  using pending_pos [of d D x] by auto

lemma release_children_degrees: "fst (release_children cs deg queue) x = deg x - int (count_list cs x)"
  by (induction cs arbitrary: deg queue) auto

lemma release_children_queue:
  assumes "\<forall>x. int (count_list cs x) \<le> deg x"
  shows "\<exists>new. snd (release_children cs deg queue) = queue @ new \<and> distinct new
    \<and> set new = {x \<in> set cs. deg x = int (count_list cs x)}"
  using assms
proof (induction cs arbitrary: deg queue)
  case (Cons c cs)
  define deg' where "deg' = deg(c := deg c - 1)"
  have bound: "\<forall>x. int (count_list cs x) \<le> deg' x"
  proof
    fix x show "int (count_list cs x) \<le> deg' x"
      using spec [OF Cons.prems, of x] by (auto simp: deg'_def split: if_splits)
  qed
  obtain new where new: "snd (release_children cs deg' (if deg c - 1 = 0 then queue @ [c] else queue))
      = (if deg c - 1 = 0 then queue @ [c] else queue) @ new" "distinct new"
      "set new = {x \<in> set cs. deg' x = int (count_list cs x)}"
    using Cons.IH [OF bound] by blast
  show ?case
  proof (cases "deg c = 1")
    case True
    then have "count_list cs c = 0" using spec [OF bound, of c] by (simp add: deg'_def)
    then have "c \<notin> set cs" by (simp add: count_list_0_iff)
    then have "distinct (c # new)" "set (c # new) = {x \<in> set (c # cs). deg x = int (count_list (c # cs) x)}"
      using new(2,3) True by (auto simp: deg'_def)
    moreover have "snd (release_children (c # cs) deg queue) = queue @ c # new"
      using new(1) True unfolding release_children.simps deg'_def [symmetric] by simp
    ultimately show ?thesis by blast
  next
    case False
    have "c \<in> set cs" if "deg c = int (count_list (c # cs) c)"
    proof -
      have "0 < count_list cs c" using that False by simp
      then show ?thesis by (simp add: count_list_pos)
    qed
    then have "set new = {x \<in> set (c # cs). deg x = int (count_list (c # cs) x)}"
      using new(3) by (auto simp: deg'_def)
    moreover have "snd (release_children (c # cs) deg queue) = queue @ new"
      using new(1) False unfolding release_children.simps deg'_def [symmetric] by simp
    ultimately show ?thesis using new(2) by blast
  qed
qed simp

subsection \<open>The topological order\<close>

text \<open>Every node comes after the sources of its edges.\<close>

definition edge_ordered :: "(string \<times> string) set \<Rightarrow> string list \<Rightarrow> bool" where
  "edge_ordered E xs \<longleftrightarrow> (\<forall>ys v zs. xs = ys @ v # zs \<longrightarrow> (\<forall>u. (u, v) \<in> E \<longrightarrow> u \<in> set ys))"

lemma edge_ordered_Nil [simp]: "edge_ordered E []"
  by (simp add: edge_ordered_def)

lemma edge_ordered_snoc:
  "edge_ordered E (xs @ [n]) \<longleftrightarrow> edge_ordered E xs \<and> (\<forall>u. (u, n) \<in> E \<longrightarrow> u \<in> set xs)"
proof
  assume all: "edge_ordered E (xs @ [n])"
  have "edge_ordered E xs"
    unfolding edge_ordered_def
  proof (intro allI impI)
    fix ys v zs u assume "xs = ys @ v # zs" "(u, v) \<in> E"
    then have "xs @ [n] = ys @ v # (zs @ [n])" by simp
    with all \<open>(u, v) \<in> E\<close> show "u \<in> set ys" unfolding edge_ordered_def by blast
  qed
  with all show "edge_ordered E xs \<and> (\<forall>u. (u, n) \<in> E \<longrightarrow> u \<in> set xs)" by (auto simp: edge_ordered_def)
next
  assume part: "edge_ordered E xs \<and> (\<forall>u. (u, n) \<in> E \<longrightarrow> u \<in> set xs)"
  show "edge_ordered E (xs @ [n])"
    unfolding edge_ordered_def
  proof (intro allI impI)
    fix ys v zs u assume split: "xs @ [n] = ys @ v # zs" and e: "(u, v) \<in> E"
    show "u \<in> set ys"
    proof (cases zs rule: rev_cases)
      case Nil
      with split part e show ?thesis by auto
    next
      case (snoc zs' z)
      with split have "xs = ys @ v # zs'" by simp
      with part e show ?thesis unfolding edge_ordered_def by blast
    qed
  qed
qed

lemma edge_ordered_acyclic:
  assumes "edge_ordered E xs" "snd ` E \<subseteq> set xs" "distinct xs"
  shows "acyclic E"
proof -
  let ?pos = "\<lambda>x. length (takeWhile (\<lambda>y. y \<noteq> x) xs)"
  have "E \<subseteq> measure ?pos"
  proof (rule subrelI)
    fix u v assume e: "(u, v) \<in> E"
    then have "v \<in> set xs" using assms(2) by force
    then obtain ys zs where xs: "xs = ys @ v # zs" by (meson split_list)
    with assms(1) e have u: "u \<in> set ys" unfolding edge_ordered_def by blast
    have v: "v \<notin> set ys" using assms(3) xs by simp
    have "takeWhile (\<lambda>y. y \<noteq> v) xs = ys" using v unfolding xs by (subst takeWhile_append2) auto
    then have "?pos v = length ys" by simp
    moreover have "?pos u < length ys"
    proof -
      obtain as bs where ys: "ys = as @ u # bs" "u \<notin> set as" using u by (meson split_list_first)
      then have "takeWhile (\<lambda>y. y \<noteq> u) xs = as" unfolding xs by (simp, subst takeWhile_append2) auto
      with ys show ?thesis by simp
    qed
    ultimately show "(u, v) \<in> measure ?pos" by simp
  qed
  then have "wf E" by (rule wf_subset [rotated]) simp
  then show ?thesis by (rule wf_acyclic)
qed

lemma acyclic_has_source:
  assumes "acyclic E" "finite E" "x \<in> R" "\<forall>x \<in> R. \<exists>u \<in> R. (u, x) \<in> E"
  shows False
proof -
  have "wf E" using assms(1,2) by (simp add: finite_acyclic_wf)
  with assms(3) obtain z where "z \<in> R" "\<forall>y. (y, z) \<in> E \<longrightarrow> y \<notin> R" by (meson wf_eq_minimal)
  with assms(4) show False by blast
qed

definition kahn_inv :: "dag \<Rightarrow> (string \<Rightarrow> int) \<Rightarrow> string list \<Rightarrow> string list \<Rightarrow> bool" where
  "kahn_inv d deg queue order \<longleftrightarrow>
     distinct (order @ queue) \<and> set (order @ queue) \<subseteq> set (node_keys d)
   \<and> edge_ordered (edge_rel d) order
   \<and> (\<forall>x. deg x = int (pending d (set order) x))
   \<and> (\<forall>x \<in> set (node_keys d). deg x = 0 \<longleftrightarrow> x \<in> set (order @ queue))"

lemma kahn_inv_start:
  assumes "wf_dag d"
  shows "kahn_inv d (in_degrees d) (sort_strings (filter (\<lambda>x. in_degrees d x = 0) (node_keys d))) []"
  using assms by (auto simp: kahn_inv_def wf_dag_def in_degrees_pending)

lemma kahn_inv_step:
  assumes wf: "wf_dag d" and inv: "kahn_inv d deg (n # queue) order"
    and step: "release_children (sort_strings (children_of d n)) deg queue = (deg', queue')"
  shows "kahn_inv d deg' queue' (order @ [n])"
proof -
  let ?cs = "sort_strings (children_of d n)"
  let ?D = "set (order @ [n])"
  have n: "n \<notin> set order" "n \<in> set (node_keys d)" using inv by (auto simp: kahn_inv_def)
  have deg: "deg x = int (pending d (set order) x)" for x using inv by (simp add: kahn_inv_def)
  have split: "deg x = int (pending d ?D x) + int (count_list (children_of d n) x)" for x
    using pending_insert [OF wf n(1), of x] deg by simp
  then have deg': "deg' x = int (pending d ?D x)" for x
    using release_children_degrees [of ?cs deg queue x] step by simp
  have bound: "\<forall>x. int (count_list ?cs x) \<le> deg x" using split by simp
  from release_children_queue [OF bound, of queue] step obtain new where new: "queue' = queue @ new" "distinct new"
    and set_new: "set new = {x \<in> set (children_of d n). deg x = int (count_list (children_of d n) x)}" by auto
  have zero: "deg x = 0 \<longleftrightarrow> x \<in> set (order @ n # queue)" if "x \<in> set (node_keys d)" for x
    using inv that unfolding kahn_inv_def by blast
  have child: "x \<in> set (node_keys d)" if "x \<in> set new" for x
    using that set_new wf_children [OF wf] wf_ends [OF wf] by blast
  have pos: "0 < deg x" if "x \<in> set new" for x
  proof -
    from that have "0 < count_list (children_of d n) x" using set_new by (simp add: count_list_pos)
    with that show ?thesis using set_new by simp
  qed
  have fresh: "x \<notin> set (order @ n # queue)" if "x \<in> set new" for x
    using pos [OF that] zero [OF child [OF that]] by simp
  have "edge_ordered (edge_rel d) (order @ [n])"
  proof -
    have "pending d (set order) n = 0" using zero [OF n(2)] deg [of n] by simp
    then show ?thesis using inv by (simp add: edge_ordered_snoc kahn_inv_def pending_zero)
  qed
  moreover have "deg' x = 0 \<longleftrightarrow> x \<in> set ((order @ [n]) @ queue')" if x: "x \<in> set (node_keys d)" for x
  proof (cases "x \<in> set (children_of d n)")
    case True
    then have "0 < count_list (children_of d n) x" by (simp add: count_list_pos)
    then show ?thesis using split [of x] deg' [of x] zero [OF x] set_new True new(1) by auto
  next
    case False
    then have "count_list (children_of d n) x = 0" by (simp add: count_list_0_iff)
    then show ?thesis using split [of x] deg' [of x] zero [OF x] set_new False new(1) by auto
  qed
  moreover have "distinct ((order @ [n]) @ queue')" "set ((order @ [n]) @ queue') \<subseteq> set (node_keys d)"
    using inv new fresh child by (auto simp: kahn_inv_def)
  ultimately show ?thesis using deg' by (simp add: kahn_inv_def)
qed

lemma kahn_ends:
  assumes "wf_dag d" "kahn_inv d deg queue order"
  shows "\<exists>deg'. kahn_inv d deg' [] (kahn d deg queue order)"
  using assms(2)
proof (induction "length queue + card {x \<in> all_children d. 0 < deg x}" arbitrary: deg queue order rule: less_induct)
  case less
  show ?case
  proof (cases queue)
    case Nil
    with less.prems show ?thesis by auto
  next
    case (Cons n rest)
    obtain deg' queue' where step: "release_children (sort_strings (children_of d n)) deg rest = (deg', queue')" by fastforce
    have inv: "kahn_inv d deg' queue' (order @ [n])" using kahn_inv_step [OF assms(1) _ step] less.prems Cons by simp
    have "card {x \<in> all_children d. 0 < deg' x} + length queue' = card {x \<in> all_children d. 0 < deg x} + length rest"
      using release_children_measure [of "sort_strings (children_of d n)" "all_children d" deg rest] children_of_all
      by (simp add: step)
    then have "length queue' + card {x \<in> all_children d. 0 < deg' x} < length queue + card {x \<in> all_children d. 0 < deg x}"
      using Cons by simp
    from less.hyps [OF this inv] show ?thesis using Cons step by simp
  qed
qed

lemma topological_sort_core:
  assumes wf: "wf_dag d" and nodes: "dg_nodes d \<noteq> []" and sorted: "topological_sort d = (order, err)"
  shows "distinct order \<and> set order \<subseteq> set (node_keys d) \<and> edge_ordered (edge_rel d) order
    \<and> (err = None \<longleftrightarrow> acyclic (edge_rel d)) \<and> (err = None \<longrightarrow> set order = set (node_keys d))"
proof -
  have order: "order = kahn d (in_degrees d) (sort_strings (filter (\<lambda>x. in_degrees d x = 0) (node_keys d))) []"
    and err: "err = None \<longleftrightarrow> length order = length (node_keys d)"
    using sorted nodes by (auto simp: topological_sort_def Let_def node_keys_def split: if_splits)
  from kahn_ends [OF wf kahn_inv_start [OF wf]] obtain deg where inv: "kahn_inv d deg [] order" unfolding order by blast
  then have base: "distinct order" "set order \<subseteq> set (node_keys d)" "edge_ordered (edge_rel d) order"
    by (simp_all add: kahn_inv_def)
  have keys: "distinct (node_keys d)" using wf by (simp add: wf_dag_def)
  have full: "err = None \<longleftrightarrow> set order = set (node_keys d)"
    using err base(1,2) keys by (metis card_subset_eq distinct_card finite_set)
  have "acyclic (edge_rel d)" if "set order = set (node_keys d)"
  proof (rule edge_ordered_acyclic [OF base(3) _ base(1)])
    show "snd ` edge_rel d \<subseteq> set order" using that wf_ends [OF wf] by auto
  qed
  moreover have "set order = set (node_keys d)" if acyclic: "acyclic (edge_rel d)"
  proof (rule ccontr)
    assume "set order \<noteq> set (node_keys d)"
    then obtain x where x: "x \<in> set (node_keys d) - set order" using base(2) by blast
    have "\<exists>u \<in> set (node_keys d) - set order. (u, y) \<in> edge_rel d" if y: "y \<in> set (node_keys d) - set order" for y
    proof -
      have "pending d (set order) y \<noteq> 0" using inv y by (auto simp: kahn_inv_def)
      then obtain u where "(u, y) \<in> edge_rel d" "u \<notin> set order" by (auto simp: pending_pos)
      with wf_ends [OF wf] show ?thesis by blast
    qed
    then show False using acyclic_has_source [OF acyclic finite_edge_rel x] by blast
  qed
  ultimately show ?thesis using full base by blast
qed

subsection \<open>The search for cycles\<close>

text \<open>
  Black nodes are closed under edges and lie on no cycle; every gray node reaches the node the
  search is at.
\<close>

definition blacks :: "(string \<Rightarrow> colour) \<Rightarrow> string set" where
  "blacks c = {x. c x = Black}"

definition search_inv :: "(string \<times> string) set \<Rightarrow> (string \<Rightarrow> colour) \<Rightarrow> bool" where
  "search_inv E c \<longleftrightarrow> E `` blacks c \<subseteq> blacks c \<and> acyclic (E \<inter> blacks c \<times> UNIV)"

lemma closed_reach:
  assumes "E `` B \<subseteq> B" "(x, y) \<in> E\<^sup>*" "x \<in> B"
  shows "y \<in> B"
  using assms(2,3) by (induction rule: rtrancl_induct) (use assms(1) in auto)

lemma acyclic_insert_source:
  assumes closed: "E `` B \<subseteq> B" and old: "acyclic (E \<inter> B \<times> UNIV)" and n: "n \<notin> B" "E `` {n} \<subseteq> B"
  shows "acyclic (E \<inter> insert n B \<times> UNIV)"
proof (rule ccontr)
  let ?E = "E \<inter> insert n B \<times> UNIV"
  assume "\<not> acyclic ?E"
  then obtain x where x: "(x, x) \<in> ?E\<^sup>+" by (auto simp: acyclic_def)
  then have "x \<in> insert n B" by (auto dest: tranclD)
  have in_B: "y \<in> B \<and> (x', y) \<in> (E \<inter> B \<times> UNIV)\<^sup>+" if "(x', y) \<in> ?E\<^sup>+" "x' \<in> B" for x' y
    using that
  proof (induction rule: trancl_induct)
    case (base y)
    then show ?case using closed by auto
  next
    case (step y z)
    then have y: "y \<in> B" "(x', y) \<in> (E \<inter> B \<times> UNIV)\<^sup>+" by auto
    with step(2) closed have "z \<in> B" "(y, z) \<in> E \<inter> B \<times> UNIV" by auto
    with y show ?case by (auto intro: trancl.trancl_into_trancl)
  qed
  show False
  proof (cases "x \<in> B")
    case True
    with in_B [OF x] old show False by (auto simp: acyclic_def)
  next
    case False
    with \<open>x \<in> insert n B\<close> have "x = n" by simp
    with x obtain y where y: "(n, y) \<in> ?E" "(y, n) \<in> ?E\<^sup>*" by (auto dest: tranclD)
    then have "y \<in> B" using n(2) by auto
    then have "y \<noteq> n" using n(1) by auto
    with y(2) have "(y, n) \<in> ?E\<^sup>+" by (auto simp: rtrancl_eq_or_trancl)
    with in_B \<open>y \<in> B\<close> n(1) show False by blast
  qed
qed

lemma search_inv_black:
  assumes "search_inv E c" "c n \<noteq> Black" "E `` {n} \<subseteq> blacks c"
  shows "search_inv E (c(n := Black))"
proof -
  have eq: "blacks (c(n := Black)) = insert n (blacks c)" by (auto simp: blacks_def)
  have "n \<notin> blacks c" using assms(2) by (simp add: blacks_def)
  with assms show ?thesis
    using acyclic_insert_source [of E "blacks c" n] by (auto simp: search_inv_def eq)
qed

text \<open>
  One call: the children not in the list are black already. Without a path, the node ends black,
  nothing turns from black or gray to another colour than it had (but for the node), and the
  invariant holds; with a path there is a cycle.
\<close>

definition visit_ok :: "dag \<Rightarrow> (string \<Rightarrow> colour) \<Rightarrow> string \<Rightarrow> (string \<Rightarrow> colour) \<times> string list option \<Rightarrow> bool" where
  "visit_ok d c n res \<longleftrightarrow>
     (case snd res of
        Some path \<Rightarrow> \<not> acyclic (edge_rel d)
      | None \<Rightarrow> search_inv (edge_rel d) (fst res) \<and> fst res n = Black
          \<and> (\<forall>x. x \<noteq> n \<longrightarrow> c x = Gray \<longleftrightarrow> fst res x = Gray) \<and> blacks c \<subseteq> blacks (fst res))"

definition visit_pre :: "dag \<Rightarrow> (string \<Rightarrow> colour) \<Rightarrow> string \<Rightarrow> string list \<Rightarrow> bool" where
  "visit_pre d c n ks \<longleftrightarrow>
     wf_dag d \<and> search_inv (edge_rel d) c \<and> c n = Gray \<and> (\<forall>g. c g = Gray \<longrightarrow> (g, n) \<in> (edge_rel d)\<^sup>*)
   \<and> set ks \<subseteq> set (children_of d n) \<and> set (children_of d n) - set ks \<subseteq> blacks c"

lemma visit_pre_child:
  assumes pre: "visit_pre d c n (k # ks)" and white: "c k = White"
  shows "visit_pre d (c(k := Gray)) k (children_of d k)"
proof -
  have same: "blacks (c(k := Gray)) = blacks c" using white by (auto simp: blacks_def)
  have edge: "(n, k) \<in> edge_rel d" using pre wf_children [of d k n] by (auto simp: visit_pre_def)
  have "(g, k) \<in> (edge_rel d)\<^sup>*" if "(c(k := Gray)) g = Gray" for g
  proof (cases "g = k")
    case False
    with that pre have "(g, n) \<in> (edge_rel d)\<^sup>*" by (auto simp: visit_pre_def)
    then show ?thesis using edge by (rule rtrancl_into_rtrancl)
  qed simp
  with pre show ?thesis by (simp add: visit_pre_def search_inv_def same)
qed

lemma visit_children_spec: "visit_pre d c n ks \<Longrightarrow> visit_ok d c n (visit_children d c n ks)"
proof (induction d c n ks rule: visit_children.induct)
  case (1 d c n)
  then have "edge_rel d `` {n} \<subseteq> blacks c" using wf_children [of d _ n] by (auto simp: visit_pre_def)
  moreover have "c n \<noteq> Black" "search_inv (edge_rel d) c" using 1 by (simp_all add: visit_pre_def)
  ultimately have "search_inv (edge_rel d) (c(n := Black))" by (intro search_inv_black)
  then show ?case by (simp add: visit_ok_def) (auto simp: blacks_def)
next
  case (2 d c n k ks)
  note pre = 2(4)
  have edge: "(n, k) \<in> edge_rel d" using pre wf_children [of d k n] by (auto simp: visit_pre_def)
  show ?case
  proof (cases "c k")
    case Gray
    then have "(k, n) \<in> (edge_rel d)\<^sup>*" using pre by (simp add: visit_pre_def)
    with edge have "(n, n) \<in> (edge_rel d)\<^sup>+" by (rule rtrancl_into_trancl2)
    then have "\<not> acyclic (edge_rel d)" by (auto simp: acyclic_def)
    with Gray show ?thesis by (simp add: visit_ok_def)
  next
    case Black
    then have "visit_pre d c n ks" using pre by (auto simp: visit_pre_def blacks_def)
    with 2(3) Black show ?thesis by simp
  next
    case White
    obtain c' path where call: "visit_children d (c(k := Gray)) k (children_of d k) = (c', path)"
      by (cases "visit_children d (c(k := Gray)) k (children_of d k)")
    have child: "visit_ok d (c(k := Gray)) k (c', path)"
      using 2(1) [OF White visit_pre_child [OF pre White]] unfolding call .
    show ?thesis
    proof (cases path)
      case (Some p)
      with child White call show ?thesis by (simp add: visit_ok_def)
    next
      case None
      have kn: "k \<noteq> n" using White pre by (auto simp: visit_pre_def)
      have ok: "search_inv (edge_rel d) c'" "c' k = Black" "blacks (c(k := Gray)) \<subseteq> blacks c'"
        and gray: "\<And>x. x \<noteq> k \<Longrightarrow> (c(k := Gray)) x = Gray \<longleftrightarrow> c' x = Gray"
        using child None by (auto simp: visit_ok_def)
      have same: "blacks (c(k := Gray)) = blacks c" using White by (auto simp: blacks_def)
      have grays: "c' x = Gray \<longleftrightarrow> c x = Gray" for x
        using gray [of x] ok(2) White by (cases "x = k") auto
      have "visit_pre d c' n ks"
        using pre ok grays same kn unfolding visit_pre_def by (auto simp: blacks_def)
      then have "visit_ok d c' n (visit_children d c' n ks)" using 2(2) [OF White _ None, of c'] call None by simp
      then have "visit_ok d c n (visit_children d c' n ks)"
        using grays ok(3) same by (auto simp: visit_ok_def split: option.splits)
      with White call None show ?thesis by simp
    qed
  qed
qed

lemma search_from_spec:
  assumes wf: "wf_dag d"
  shows "search_inv (edge_rel d) c \<Longrightarrow> (\<forall>x. c x \<noteq> Gray) \<Longrightarrow> set (node_keys d) - set xs \<subseteq> blacks c
    \<Longrightarrow> fst (search_from d c xs) \<longleftrightarrow> \<not> acyclic (edge_rel d)"
proof (induction xs arbitrary: c)
  case Nil
  then have "edge_rel d \<inter> blacks c \<times> UNIV = edge_rel d" using wf_ends [OF wf] by auto
  with Nil show ?case by (simp add: search_inv_def)
next
  case (Cons x xs)
  show ?case
  proof (cases "c x = White")
    case True
    have "blacks (c(x := Gray)) = blacks c" using True by (auto simp: blacks_def)
    then have "visit_pre d (c(x := Gray)) x (children_of d x)"
      using Cons.prems wf by (simp add: visit_pre_def search_inv_def)
    from visit_children_spec [OF this] obtain c' path where
      call: "visit_children d (c(x := Gray)) x (children_of d x) = (c', path)"
      and ok: "visit_ok d (c(x := Gray)) x (c', path)" by (metis prod.collapse)
    show ?thesis
    proof (cases path)
      case (Some p)
      with ok call True show ?thesis by (simp add: visit_ok_def)
    next
      case None
      have res: "search_inv (edge_rel d) c'" "c' x = Black" "blacks (c(x := Gray)) \<subseteq> blacks c'"
        and gray: "\<And>y. y \<noteq> x \<Longrightarrow> (c(x := Gray)) y = Gray \<longleftrightarrow> c' y = Gray"
        using ok None by (auto simp: visit_ok_def)
      have "c' y \<noteq> Gray" for y using gray [of y] res(2) Cons.prems(2) by (cases "y = x") auto
      moreover have "set (node_keys d) - set xs \<subseteq> blacks c'"
        using Cons.prems(3) res(2,3) \<open>blacks (c(x := Gray)) = blacks c\<close> by (auto simp: blacks_def)
      ultimately show ?thesis using Cons.IH [of c'] res(1) True call None by simp
    qed
  next
    case False
    then have "c x = Black" using Cons.prems(2) by (cases "c x") auto
    then have "set (node_keys d) - set xs \<subseteq> blacks c" using Cons.prems(3) by (auto simp: blacks_def)
    with Cons False show ?thesis by simp
  qed
qed

lemma detect_cycles_core:
  assumes "wf_dag d"
  shows "fst (detect_cycles d) \<longleftrightarrow> \<not> acyclic (edge_rel d)"
proof (cases "dg_nodes d = []")
  case True
  then have "edge_rel d = {}" using wf_ends [OF assms] by (auto simp: node_keys_def)
  with True show ?thesis by (simp add: detect_cycles_def acyclic_def)
next
  case False
  have "search_inv (edge_rel d) (\<lambda>_. White)" by (simp add: search_inv_def blacks_def acyclic_def)
  with search_from_spec [OF assms, of "\<lambda>_. White"] False show ?thesis by (simp add: detect_cycles_def)
qed

subsection \<open>Levels\<close>

text \<open>The nodes at the end of some path of \<open>i\<close> edges.\<close>

definition level :: "dag \<Rightarrow> nat \<Rightarrow> string set" where
  "level d i = {x \<in> set (node_keys d). \<exists>u. (u, x) \<in> edge_rel d ^^ i}"

lemma level_0: "level d 0 = set (node_keys d)"
  by (auto simp: level_def)

lemma level_Suc:
  assumes "wf_dag d"
  shows "level d (Suc i) = edge_rel d `` level d i"
  using wf_ends [OF assms] by (auto simp: level_def)

lemma level_nodes: "level d i \<subseteq> set (node_keys d)"
  by (auto simp: level_def)

lemma level_decreasing: "wf_dag d \<Longrightarrow> level d (Suc i) \<subseteq> level d i"
proof (induction i)
  case 0
  then show ?case using wf_ends [OF 0] by (auto simp: level_0 level_Suc)
next
  case (Suc i)
  then have "edge_rel d `` level d (Suc i) \<subseteq> edge_rel d `` level d i" by blast
  with Suc show ?case by (simp add: level_Suc)
qed

lemma cycle_in_levels:
  assumes wf: "wf_dag d"
  shows "(x, x) \<in> (edge_rel d)\<^sup>+ \<Longrightarrow> x \<in> level d i"
proof (induction i arbitrary: x)
  case 0
  then obtain y where "(x, y) \<in> edge_rel d" by (auto dest: tranclD)
  then show ?case using wf_ends [OF wf] by (auto simp: level_0)
next
  case (Suc i)
  from Suc.prems obtain y where y: "(x, y) \<in> (edge_rel d)\<^sup>*" "(y, x) \<in> edge_rel d" by (auto dest: tranclD2)
  then have "(y, y) \<in> (edge_rel d)\<^sup>+" by (meson rtrancl_into_trancl2)
  then have "y \<in> level d i" by (rule Suc.IH)
  with y(2) show ?case by (auto simp: level_Suc [OF wf])
qed

lemma decrement_all_count: "decrement_all cs deg x = deg x - int (count_list cs x)"
  by (induction cs arbitrary: deg) auto

lemma pending_group:
  assumes "wf_dag d"
  shows "distinct grp \<Longrightarrow> set grp \<inter> D = {} \<Longrightarrow>
    pending d D x = pending d (D \<union> set grp) x + count_list (concat (List.map (children_of d) grp)) x"
proof (induction grp arbitrary: D)
  case (Cons n grp)
  then have "pending d (insert n D) x = pending d (insert n D \<union> set grp) x + count_list (concat (List.map (children_of d) grp)) x"
    by (intro Cons.IH) auto
  with pending_insert [OF assms, of n D x] Cons.prems show ?case by simp
qed simp

lemma pending_zero_level:
  assumes wf: "wf_dag d" and x: "x \<in> level d i"
  shows "pending d (set (node_keys d) - level d i) x = 0 \<longleftrightarrow> x \<notin> level d (Suc i)"
  using wf_ends [OF wf] by (auto simp: pending_zero level_Suc [OF wf])

lemma groups_from_levels:
  assumes wf: "wf_dag d"
  shows "distinct remaining \<Longrightarrow> set remaining = level d i
    \<Longrightarrow> (\<forall>x. deg x = int (pending d (set (node_keys d) - level d i) x))
    \<Longrightarrow> (\<forall>j < length (groups_from d deg remaining).
           sorted (groups_from d deg remaining ! j) \<and> distinct (groups_from d deg remaining ! j)
         \<and> set (groups_from d deg remaining ! j) = level d (i + j) - level d (Suc (i + j)))
      \<and> (acyclic (edge_rel d) \<longrightarrow> (\<Union>g \<in> set (groups_from d deg remaining). set g) = level d i)"
proof (induction "length remaining" arbitrary: remaining deg i rule: less_induct)
  case less
  let ?grp = "sort_strings (filter (\<lambda>x. deg x = 0) remaining)"
  let ?rest = "filter (\<lambda>x. x \<notin> set ?grp) remaining"
  define deg' where "deg' = decrement_all (concat (List.map (children_of d) ?grp)) deg"
  have grp: "set ?grp = level d i - level d (Suc i)" "distinct ?grp" "sorted ?grp"
    using less.prems pending_zero_level [OF wf, of _ i] by (auto simp: sort_strings_sorted)
  have rest: "set ?rest = level d (Suc i)" using less.prems(2) grp(1) level_decreasing [OF wf, of i] by auto
  consider (stop) "remaining = []" | (stuck) "remaining \<noteq> []" "?grp = []" | (more) "remaining \<noteq> []" "?grp \<noteq> []" by blast
  then show ?case
  proof cases
    case stop
    with less.prems show ?thesis by (simp add: groups_from.simps)
  next
    case stuck
    have "\<not> acyclic (edge_rel d)"
    proof
      assume a: "acyclic (edge_rel d)"
      obtain x where x: "x \<in> level d i" using stuck(1) less.prems(2) by (cases remaining) auto
      have "\<forall>y \<in> level d i. \<exists>u \<in> level d i. (u, y) \<in> edge_rel d"
      proof
        fix y assume "y \<in> level d i"
        with stuck(2) grp(1) have "y \<in> level d (Suc i)" by auto
        then show "\<exists>u \<in> level d i. (u, y) \<in> edge_rel d" by (auto simp: level_Suc [OF wf])
      qed
      with acyclic_has_source [OF a finite_edge_rel x] show False .
    qed
    with stuck show ?thesis by (simp add: groups_from.simps)
  next
    case more
    have gs: "groups_from d deg remaining = ?grp # groups_from d deg' ?rest"
      using more by (subst groups_from.simps) (simp add: Let_def deg'_def)
    have shorter: "length ?rest < length remaining"
      using more(2) by (auto simp: length_filter_less filter_empty_conv)
    have layer: "G \<inter> (N - A) = {} \<and> N - A \<union> G = N - A'" if "A' \<subseteq> A" "A \<subseteq> N" "G = A - A'" for G N A A' :: "string set"
      using that by blast
    note lay = layer [OF level_decreasing [OF wf] level_nodes grp(1)]
    have "deg' x = int (pending d (set (node_keys d) - level d (Suc i)) x)" for x
      using less.prems(3) pending_group [OF wf grp(2) conjunct1 [OF lay], of x]
      unfolding deg'_def decrement_all_count conjunct2 [OF lay] by simp
    with less.hyps [OF shorter, of "Suc i" deg'] less.prems(1) rest
    have ih: "(\<forall>j < length (groups_from d deg' ?rest).
           sorted (groups_from d deg' ?rest ! j) \<and> distinct (groups_from d deg' ?rest ! j)
         \<and> set (groups_from d deg' ?rest ! j) = level d (Suc i + j) - level d (Suc (Suc i + j)))
      \<and> (acyclic (edge_rel d) \<longrightarrow> (\<Union>g \<in> set (groups_from d deg' ?rest). set g) = level d (Suc i))" by simp
    show ?thesis unfolding gs
    proof (intro conjI allI impI)
      fix j assume j: "j < length (?grp # groups_from d deg' ?rest)"
      show "sorted ((?grp # groups_from d deg' ?rest) ! j)" "distinct ((?grp # groups_from d deg' ?rest) ! j)"
        "set ((?grp # groups_from d deg' ?rest) ! j) = level d (i + j) - level d (Suc (i + j))"
        using j ih grp by (cases j; simp)+
    next
      assume "acyclic (edge_rel d)"
      with ih have "(\<Union>g \<in> set (groups_from d deg' ?rest). set g) = level d (Suc i)" by blast
      with grp(1) level_decreasing [OF wf, of i]
      show "(\<Union>g \<in> set (?grp # groups_from d deg' ?rest). set g) = level d i" by auto
    qed
  qed
qed

lemma parallel_groups_core:
  assumes wf: "wf_dag d"
  shows "(\<forall>j < length (detect_parallel_groups d).
           sorted (detect_parallel_groups d ! j) \<and> distinct (detect_parallel_groups d ! j)
         \<and> set (detect_parallel_groups d ! j) = level d j - level d (Suc j))
      \<and> (acyclic (edge_rel d) \<longleftrightarrow> (\<Union>g \<in> set (detect_parallel_groups d). set g) = set (node_keys d))"
proof (cases "dg_nodes d = []")
  case True
  then have "edge_rel d = {}" "node_keys d = []" using wf_ends [OF wf] by (auto simp: node_keys_def)
  with True show ?thesis by (simp add: detect_parallel_groups_def acyclic_def)
next
  case False
  then have gs: "detect_parallel_groups d = groups_from d (in_degrees d) (node_keys d)"
    by (simp add: detect_parallel_groups_def)
  have levels: "(\<forall>j < length (detect_parallel_groups d).
           sorted (detect_parallel_groups d ! j) \<and> distinct (detect_parallel_groups d ! j)
         \<and> set (detect_parallel_groups d ! j) = level d j - level d (Suc j))
      \<and> (acyclic (edge_rel d) \<longrightarrow> (\<Union>g \<in> set (detect_parallel_groups d). set g) = set (node_keys d))"
    using groups_from_levels [OF wf, of "node_keys d" 0 "in_degrees d"] wf
    by (simp add: gs level_0 in_degrees_pending wf_dag_def)
  have "acyclic (edge_rel d)" if all: "(\<Union>g \<in> set (detect_parallel_groups d). set g) = set (node_keys d)"
  proof (rule ccontr)
    assume "\<not> acyclic (edge_rel d)"
    then obtain x where x: "(x, x) \<in> (edge_rel d)\<^sup>+" by (auto simp: acyclic_def)
    then have "x \<in> set (node_keys d)" using cycle_in_levels [OF wf, of x 0] by (simp add: level_0)
    with all obtain g where "g \<in> set (detect_parallel_groups d)" "x \<in> set g" by blast
    then obtain j where "j < length (detect_parallel_groups d)" "x \<in> set (detect_parallel_groups d ! j)"
      by (metis in_set_conv_nth)
    with levels have "x \<notin> level d (Suc j)" by blast
    with cycle_in_levels [OF wf x] show False by blast
  qed
  with levels show ?thesis by blast
qed

subsection \<open>Properties\<close>

text \<open>
  C15. \<open>TopologicalSort\<close> of a graph with nodes returns no error exactly when the graph has no
  cycle, and then its order lists every node once, each after the sources of its edges. With a
  cycle it still returns nodes in such an order, but not all of them.
\<close>

theorem topological_sort_correct:
  assumes "new_dag ids es = Inr d" "dg_nodes d \<noteq> []" "topological_sort d = (order, err)"
  shows "(err = None \<longleftrightarrow> acyclic (edge_rel d)) \<and> distinct order \<and> edge_ordered (edge_rel d) order
    \<and> set order \<subseteq> set (node_keys d) \<and> (err = None \<longrightarrow> set order = set (node_keys d))"
  using topological_sort_core [OF new_dag_wf [OF assms(1)] assms(2,3)] by blast

definition sample_dag :: dag where
  "sample_dag = (case new_dag [''b'', '' a'', ''c''] [(''a'', ''b''), (''b'', ''c''), (''a'', ''c'')] of
     Inr d \<Rightarrow> d | Inl _ \<Rightarrow> \<lparr>dg_nodes = [], dg_edges = []\<rparr>)"

lemma sample_dag_new:
  "new_dag [''b'', '' a'', ''c''] [(''a'', ''b''), (''b'', ''c''), (''a'', ''c'')] = Inr sample_dag"
  by code_simp

theorem topological_sort_correct_witness:
  "topological_sort sample_dag = ([''a'', ''b'', ''c''], None) \<and> acyclic (edge_rel sample_dag)
   \<and> edge_ordered (edge_rel sample_dag) [''a'', ''b'', ''c'']"
proof -
  have "dg_nodes sample_dag \<noteq> []" by code_simp
  moreover have run: "topological_sort sample_dag = ([''a'', ''b'', ''c''], None)" by code_simp
  ultimately show ?thesis using topological_sort_correct [OF sample_dag_new _ run] run by blast
qed

text \<open>
  C16. \<open>DetectCycles\<close> and \<open>Validate\<close> decide acyclicity: the depth-first search reports a cycle
  exactly when an edge path returns to its start, and a graph with nodes is valid exactly when
  there is none. (The missing-root error of \<open>Validate\<close> cannot occur.)
\<close>

theorem cycle_detection_correct:
  assumes "new_dag ids es = Inr d"
  shows "(fst (detect_cycles d) \<longleftrightarrow> \<not> acyclic (edge_rel d))
    \<and> (validate_dag d = None \<longleftrightarrow> dg_nodes d \<noteq> [] \<and> acyclic (edge_rel d)) \<and> validate_dag d \<noteq> Some DagNoRoot"
proof -
  have wf: "wf_dag d" using assms by (rule new_dag_wf)
  note cyc = detect_cycles_core [OF wf]
  have "root_nodes d \<noteq> []" if nodes: "dg_nodes d \<noteq> []" and a: "acyclic (edge_rel d)"
  proof
    assume none: "root_nodes d = []"
    obtain x where x: "x \<in> set (node_keys d)" using nodes by (cases "dg_nodes d") (auto simp: node_keys_def)
    have "\<exists>u \<in> set (node_keys d). (u, y) \<in> edge_rel d" if y: "y \<in> set (node_keys d)" for y
    proof -
      from y obtain n where n: "map_of (dg_nodes d) y = Some n" using node_keys_dom [of d y] by auto
      then have "(y, n) \<in> set (dg_nodes d)" by (rule map_of_SomeD)
      with none have "dn_parents n \<noteq> []" by (auto simp: root_nodes_def filter_empty_conv)
      with n have "parents_of d y \<noteq> []" by (simp add: parents_of_def)
      then obtain u where "u \<in> set (parents_of d y)" by (cases "parents_of d y") auto
      with wf_parents [OF wf] wf_ends [OF wf] show ?thesis by blast
    qed
    then show False using acyclic_has_source [OF a finite_edge_rel x] by blast
  qed
  with cyc show ?thesis by (auto simp: validate_dag_def split: prod.splits bool.splits)
qed

definition sample_loop :: dag where
  "sample_loop = (case new_dag [''a'', ''b'', ''c''] [(''a'', ''b''), (''b'', ''c''), (''c'', ''b'')] of
     Inr d \<Rightarrow> d | Inl _ \<Rightarrow> \<lparr>dg_nodes = [], dg_edges = []\<rparr>)"

theorem cycle_detection_correct_witness:
  "detect_cycles sample_loop = (True, [''b'', ''c'', ''b'', ''a'']) \<and> \<not> acyclic (edge_rel sample_loop)"
proof -
  have new: "new_dag [''a'', ''b'', ''c''] [(''a'', ''b''), (''b'', ''c''), (''c'', ''b'')] = Inr sample_loop" by code_simp
  have run: "detect_cycles sample_loop = (True, [''b'', ''c'', ''b'', ''a''])" by code_simp
  from cycle_detection_correct [OF new] run show ?thesis by simp
qed

text \<open>
  \<open>DetectParallelGroups\<close> puts a node in the group of its longest incoming path: the group
  at index \<open>j\<close> is, sorted and without repetition, the nodes that end some path of \<open>j\<close> edges and
  none of \<open>j + 1\<close>. The groups cover the nodes exactly when the graph has no cycle.
\<close>

theorem parallel_groups_are_levels:
  assumes "new_dag ids es = Inr d"
  shows "(\<forall>j < length (detect_parallel_groups d).
           sorted (detect_parallel_groups d ! j) \<and> distinct (detect_parallel_groups d ! j)
         \<and> set (detect_parallel_groups d ! j) = level d j - level d (Suc j))
      \<and> (acyclic (edge_rel d) \<longleftrightarrow> (\<Union>g \<in> set (detect_parallel_groups d). set g) = set (node_keys d))"
  using parallel_groups_core [OF new_dag_wf [OF assms]] .

theorem parallel_groups_are_levels_witness:
  "detect_parallel_groups sample_dag = [[''a''], [''b''], [''c'']]
   \<and> {''b''} = level sample_dag 1 - level sample_dag 2"
proof -
  have run: "detect_parallel_groups sample_dag = [[''a''], [''b''], [''c'']]" by code_simp
  then have "1 < length (detect_parallel_groups sample_dag)" by simp
  with parallel_groups_are_levels [OF sample_dag_new]
  have "set (detect_parallel_groups sample_dag ! 1) = level sample_dag 1 - level sample_dag (Suc 1)" by blast
  with run show ?thesis by (simp add: numeral_2_eq_2)
qed

text \<open>
  The exchange sort \<open>sortStrings\<close> is sorting: on every list it computes what the library's
  stable sort does, so the results of the graph functions do not depend on the iteration order
  of the maps they read.
\<close>

theorem sort_strings_equals_sort: "sort_strings (xs :: string list) = sort xs"
  by (rule sort_strings_is_sort)

end
