(* ===== verification/Workflow_States.thy ===== *)
theory Workflow_States
  imports Prelude
begin

text \<open>
  The execution status of a workflow, \<open>src/server/internal/workflow/executor/state_machine.go\<close>,
  and the decision after a node has failed, \<open>src/server/internal/workflow/failure/handler.go\<close>.

  The transition table is an association list with distinct keys. The sink is what it answers
  to one call: no sink, success, or an error. The messages of errors and decisions are not
  modelled. A backoff factor is a rational, its power exact.
\<close>

subsection \<open>The state machine\<close>

record transition_record =
  tr_from :: string
  tr_to :: string
  tr_event :: string
  tr_time :: gotime

record state_machine =
  sm_status :: string
  sm_transitions :: "((string \<times> string) \<times> string) list"
  sm_history :: "transition_record list"
  sm_locked :: bool

datatype sm_error = SmInvalid string string | SmLocked string | SmSink

text \<open>What the sink answers: \<open>NoSink\<close>, recorded, or an error.\<close>

datatype sink_answer = NoSink | SinkOk | SinkFails

definition normalize_status :: "string \<Rightarrow> string" where
  "normalize_status s = to_lower (trim_space s)"

definition normalize_event :: "string \<Rightarrow> string" where
  "normalize_event s = to_lower (trim_space s)"

definition default_transitions :: "((string \<times> string) \<times> string) list" where
  "default_transitions =
    [((''draft'', ''start''), ''running''),
     ((''running'', ''pause''), ''paused''),
     ((''running'', ''complete''), ''succeeded''),
     ((''running'', ''fail''), ''failed''),
     ((''running'', ''partial_success''), ''partial_success''),
     ((''running'', ''timeout''), ''timeout''),
     ((''running'', ''max_iterations''), ''max_iterations''),
     ((''running'', ''cancel''), ''cancelled''),
     ((''paused'', ''resume''), ''running''),
     ((''paused'', ''fail''), ''failed''),
     ((''paused'', ''cancel''), ''cancelled''),
     ((''queued'', ''start''), ''running''),
     ((''queued'', ''cancel''), ''cancelled''),
     ((''partial_success'', ''start''), ''running''),
     ((''partial_success'', ''partial_success''), ''partial_success''),
     ((''partial_success'', ''complete''), ''succeeded''),
     ((''partial_success'', ''max_iterations''), ''max_iterations''),
     ((''partial_success'', ''cancel''), ''cancelled'')]"

definition new_state_machine :: state_machine where
  "new_state_machine =
     \<lparr>sm_status = ''draft'', sm_transitions = default_transitions, sm_history = [], sm_locked = False\<rparr>"

definition new_state_machine_with_status :: "string \<Rightarrow> state_machine" where
  "new_state_machine_with_status status = new_state_machine\<lparr>sm_status := normalize_status status\<rparr>"

definition can_transition :: "string \<Rightarrow> state_machine \<Rightarrow> bool" where
  "can_transition event sm =
     (if sm_locked sm then False
      else map_of (sm_transitions sm) (sm_status sm, normalize_event event) \<noteq> None)"

definition transition ::
  "gotime \<Rightarrow> sink_answer \<Rightarrow> string \<Rightarrow> state_machine \<Rightarrow> state_machine \<times> string \<times> sm_error option" where
  "transition now sink event0 sm =
     (if sm_locked sm then (sm, sm_status sm, Some (SmLocked (sm_status sm)))
      else
        (let event = normalize_event event0
         in case map_of (sm_transitions sm) (sm_status sm, event) of
              None \<Rightarrow> (sm, sm_status sm, Some (SmInvalid event (sm_status sm)))
            | Some new_status \<Rightarrow>
                if sink = SinkFails then (sm, sm_status sm, Some SmSink)
                else (sm\<lparr>sm_history := sm_history sm @
                           [\<lparr>tr_from = sm_status sm, tr_to = new_status, tr_event = event, tr_time = now\<rparr>],
                         sm_status := new_status\<rparr>, new_status, None)))"

definition is_terminal_status :: "string \<Rightarrow> bool" where
  "is_terminal_status status \<longleftrightarrow>
     normalize_status status \<in>
       {''succeeded'', ''completed'', ''failed'', ''cancelled'', ''timeout'', ''max_iterations''}"

definition is_terminal :: "state_machine \<Rightarrow> bool" where
  "is_terminal sm = is_terminal_status (sm_status sm)"

text \<open>The events in the order of the table; Go gives them in any order.\<close>

definition available_events :: "state_machine \<Rightarrow> string list" where
  "available_events sm =
     List.map (snd \<circ> fst) (filter (\<lambda>((from, _), _). from = sm_status sm) (sm_transitions sm))"

definition sm_lock :: "state_machine \<Rightarrow> state_machine" where
  "sm_lock sm = sm\<lparr>sm_locked := True\<rparr>"

definition sm_unlock :: "state_machine \<Rightarrow> state_machine" where
  "sm_unlock sm = sm\<lparr>sm_locked := False\<rparr>"

subsection \<open>Runs of a machine\<close>

inductive sm_step :: "state_machine \<Rightarrow> state_machine \<Rightarrow> bool" where
  step_transition: "transition now sink event sm = (sm', status, err) \<Longrightarrow> sm_step sm sm'"
| step_lock: "sm_step sm (sm_lock sm)"
| step_unlock: "sm_step sm (sm_unlock sm)"

inductive_cases sm_stepE: "sm_step sm sm'"

inductive sm_reach :: "state_machine \<Rightarrow> state_machine \<Rightarrow> bool" for sm0 where
  reach_refl: "sm_reach sm0 sm0"
| reach_step: "sm_reach sm0 sm \<Longrightarrow> sm_step sm sm' \<Longrightarrow> sm_reach sm0 sm'"

text \<open>A history is a path through the table from one status to another.\<close>

fun sm_path :: "((string \<times> string) \<times> string) list \<Rightarrow> string \<Rightarrow> transition_record list \<Rightarrow> string \<Rightarrow> bool" where
  "sm_path tbl s [] t = (s = t)"
| "sm_path tbl s (r # rs) t =
     (tr_from r = s \<and> map_of tbl (s, tr_event r) = Some (tr_to r) \<and> sm_path tbl (tr_to r) rs t)"

lemma sm_path_snoc:
  "sm_path tbl s (rs @ [r]) t \<longleftrightarrow>
     sm_path tbl s rs (tr_from r) \<and> map_of tbl (tr_from r, tr_event r) = Some (tr_to r) \<and> tr_to r = t"
  by (induction rs arbitrary: s) auto

lemma transition_cases:
  assumes "transition now sink event sm = (sm', status, err)"
  shows "(err \<noteq> None \<and> sm' = sm \<and> status = sm_status sm) \<or>
    (err = None \<and> \<not> sm_locked sm \<and> sink \<noteq> SinkFails
      \<and> map_of (sm_transitions sm) (sm_status sm, normalize_event event) = Some status
      \<and> sm' = sm\<lparr>sm_history := sm_history sm @
          [\<lparr>tr_from = sm_status sm, tr_to = status, tr_event = normalize_event event, tr_time = now\<rparr>],
          sm_status := status\<rparr>)"
  using assms by (auto simp: transition_def Let_def split: if_splits option.splits)

lemma step_history:
  assumes "sm_step sm sm'" "sm_path (sm_transitions sm) s (sm_history sm) (sm_status sm)"
  shows "sm_transitions sm' = sm_transitions sm \<and> (\<exists>rs. sm_history sm' = sm_history sm @ rs)
    \<and> sm_path (sm_transitions sm') s (sm_history sm') (sm_status sm')"
  using assms(1)
proof (cases rule: sm_step.cases)
  case (step_transition now sink event status err)
  from transition_cases [OF this] assms(2) show ?thesis by (auto simp: sm_path_snoc)
qed (use assms(2) in \<open>simp_all add: sm_lock_def sm_unlock_def\<close>)

lemma reach_history:
  "sm_reach sm0 sm \<Longrightarrow> sm_path tbl s (sm_history sm0) (sm_status sm0) \<Longrightarrow> sm_transitions sm0 = tbl \<Longrightarrow>
     sm_transitions sm = tbl \<and> (\<exists>rs. sm_history sm = sm_history sm0 @ rs) \<and> sm_path tbl s (sm_history sm) (sm_status sm)"
proof (induction rule: sm_reach.induct)
  case (reach_step sm sm')
  then show ?case using step_history [of sm sm' s] by fastforce
qed auto

lemma terminal_no_exit:
  assumes "map_of default_transitions (s, e) = Some t"
  shows "\<not> is_terminal_status s"
proof -
  have "list_all (\<lambda>((f, _), _). \<not> is_terminal_status f) default_transitions" by code_simp
  moreover have "((s, e), t) \<in> set default_transitions" using assms by (rule map_of_SomeD)
  ultimately show ?thesis by (fastforce simp: list_all_iff)
qed

lemma path_leaves_no_terminal: "sm_path default_transitions s rs t \<Longrightarrow> r \<in> set rs \<Longrightarrow> \<not> is_terminal_status (tr_from r)"
  by (induction rs arbitrary: s) (auto dest: terminal_no_exit)

lemma step_terminal:
  assumes "sm_step sm sm'" "sm_transitions sm = default_transitions" "is_terminal_status (sm_status sm)"
  shows "sm_status sm' = sm_status sm \<and> sm_history sm' = sm_history sm \<and> sm_transitions sm' = default_transitions"
  using assms(1)
proof (cases rule: sm_step.cases)
  case (step_transition now sink event status err)
  from transition_cases [OF this] assms(2,3) terminal_no_exit show ?thesis by metis
qed (use assms(2) in \<open>simp_all add: sm_lock_def sm_unlock_def\<close>)

text \<open>
  The history of a workflow is its run: whatever events, sink failures, locks and unlocks a
  machine sees, its recorded transitions form a path through the transition table from its
  first status to its current one, and no transition leaves a terminal status.
\<close>

theorem history_is_the_run:
  assumes "sm_reach (new_state_machine_with_status s) sm"
  shows "sm_path default_transitions (normalize_status s) (sm_history sm) (sm_status sm)
    \<and> (\<forall>r \<in> set (sm_history sm). \<not> is_terminal_status (tr_from r))"
proof -
  have "sm_path default_transitions (normalize_status s) (sm_history sm) (sm_status sm)"
    using reach_history [OF assms, of default_transitions "normalize_status s"]
    by (simp add: new_state_machine_with_status_def new_state_machine_def)
  then show ?thesis using path_leaves_no_terminal by blast
qed

definition sample_machine :: state_machine where
  "sample_machine = fst (transition 2 SinkOk ''Complete'' (fst (transition 1 NoSink ''start'' (new_state_machine_with_status '' Queued''))))"

lemma sample_machine_reach: "sm_reach (new_state_machine_with_status '' Queued'') sample_machine"
proof -
  let ?m = "new_state_machine_with_status '' Queued''"
  let ?n = "fst (transition 1 NoSink ''start'' ?m)"
  have step: "sm_step m (fst (transition now sink event m))" for m now sink event
    by (cases "transition now sink event m") (auto intro: step_transition)
  show ?thesis unfolding sample_machine_def
    using reach_step [OF reach_step [OF reach_refl step] step] .
qed

theorem history_is_the_run_witness:
  "sm_path default_transitions ''queued'' (sm_history sample_machine) ''succeeded''
   \<and> List.map tr_event (sm_history sample_machine) = [''start'', ''complete'']"
proof -
  have "normalize_status '' Queued'' = ''queued''" "sm_status sample_machine = ''succeeded''"
    "List.map tr_event (sm_history sample_machine) = [''start'', ''complete'']" by code_simp+
  with history_is_the_run [OF sample_machine_reach] show ?thesis by simp
qed

text \<open>
  C17. A terminal status is final: once a machine is in one, no event, lock or unlock changes its
  status or its history, and every event reports an error.
\<close>

theorem terminal_status_is_final:
  assumes "sm_reach (new_state_machine_with_status s) sm" "is_terminal sm" "sm_reach sm sm'"
  shows "sm_status sm' = sm_status sm \<and> sm_history sm' = sm_history sm \<and> \<not> can_transition event sm'
    \<and> snd (snd (transition now sink event sm')) \<noteq> None"
proof -
  have tbl: "sm_transitions sm = default_transitions"
    using reach_history [OF assms(1), of default_transitions "normalize_status s"]
    by (simp add: new_state_machine_with_status_def new_state_machine_def)
  have "sm_status sm' = sm_status sm \<and> sm_history sm' = sm_history sm \<and> sm_transitions sm' = default_transitions"
    using assms(3) assms(2)
  proof (induction rule: sm_reach.induct)
    case (reach_step sm1 sm2)
    then show ?case using step_terminal [of sm1 sm2] by (simp add: is_terminal_def)
  qed (simp add: tbl)
  moreover have "map_of default_transitions (sm_status sm, e) = None" for e
    using terminal_no_exit [of "sm_status sm" e] assms(2) by (cases "map_of default_transitions (sm_status sm, e)") (auto simp: is_terminal_def)
  ultimately show ?thesis by (auto simp: can_transition_def transition_def Let_def)
qed

theorem terminal_status_is_final_witness:
  "\<not> can_transition ''start'' sample_machine \<and> snd (snd (transition 3 NoSink ''start'' sample_machine)) \<noteq> None"
proof -
  have "is_terminal sample_machine" by code_simp
  from terminal_status_is_final [OF sample_machine_reach this reach_refl] show ?thesis by blast
qed

subsection \<open>The failure handler\<close>

record failure_handler =
  fh_strategy :: string
  fh_retries :: int
  fh_initial :: duration
  fh_max :: duration
  fh_factor :: rat
  fh_retryable :: "string list"

datatype handler_option =
    WithDefaultStrategy string | WithDefaultRetries int | WithBackoff duration duration rat | WithRetryableErrors "string list"

record node_failure =
  nf_attempt :: int
  nf_max_retries :: int
  nf_error :: "string option"

datatype failure_action = ActionRetry | ActionPause | ActionSkip | ActionBranch | ActionFail

record failure_decision =
  fd_action :: failure_action
  fd_next :: string
  fd_retry_at :: "gotime option"
  fd_backoff :: duration
  fd_skipped :: bool

datatype handler_error = MaxRetriesExceeded

fun apply_option :: "handler_option \<Rightarrow> failure_handler \<Rightarrow> failure_handler" where
  "apply_option (WithDefaultStrategy s) h = h\<lparr>fh_strategy := s\<rparr>"
| "apply_option (WithDefaultRetries n) h = (if 0 < n then h\<lparr>fh_retries := n\<rparr> else h)"
| "apply_option (WithBackoff i m f) h =
     (let h1 = (if 0 < i then h\<lparr>fh_initial := i\<rparr> else h);
          h2 = (if 0 < m then h1\<lparr>fh_max := m\<rparr> else h1)
      in if 1 < f then h2\<lparr>fh_factor := f\<rparr> else h2)"
| "apply_option (WithRetryableErrors ps) h = h\<lparr>fh_retryable := filter (\<lambda>p. p \<noteq> []) (List.map trim_space ps)\<rparr>"

definition new_failure_handler :: "handler_option list \<Rightarrow> failure_handler" where
  "new_failure_handler opts =
     fold apply_option opts
       \<lparr>fh_strategy = ''pause_on_failure'', fh_retries = 3, fh_initial = go_second, fh_max = 5 * go_minute,
        fh_factor = 2, fh_retryable = []\<rparr>"

definition normalize_strategy :: "string \<Rightarrow> string \<Rightarrow> string" where
  "normalize_strategy raw fallback =
     (let s = to_lower (trim_space raw)
      in if s \<in> {''auto_retry'', ''autoretry''} then ''auto_retry''
         else if s \<in> {''skip_on_failure'', ''skiponfailure'', ''skip''} then ''skip_on_failure''
         else if s \<in> {''failure_branch'', ''failurebranch'', ''branch''} then ''failure_branch''
         else if s \<in> {''pause_on_failure'', ''pauseonfailure'', ''pause''} then ''pause_on_failure''
         else fallback)"

definition handle_pause :: failure_decision where
  "handle_pause = \<lparr>fd_action = ActionPause, fd_next = [], fd_retry_at = None, fd_backoff = 0, fd_skipped = False\<rparr>"

definition handle_skip :: failure_decision where
  "handle_skip = \<lparr>fd_action = ActionSkip, fd_next = [], fd_retry_at = None, fd_backoff = 0, fd_skipped = True\<rparr>"

definition handle_branch :: "string \<Rightarrow> failure_decision" where
  "handle_branch branch0 =
     (let branch = trim_space branch0
      in if branch = [] then handle_pause
         else \<lparr>fd_action = ActionBranch, fd_next = branch, fd_retry_at = None, fd_backoff = 0, fd_skipped = False\<rparr>)"

text \<open>The conversion to a duration drops the fraction; the delay is not negative.\<close>

definition calculate_backoff :: "failure_handler \<Rightarrow> int \<Rightarrow> duration" where
  "calculate_backoff h attempt =
     (if attempt \<le> 0 then fh_initial h
      else
        (let factor = (if fh_factor h \<le> 1 then 2 else fh_factor h);
             delay = of_int (fh_initial h) * factor ^ nat attempt;
             max_delay = (if fh_max h \<le> 0 then of_int (5 * go_minute) else of_int (fh_max h) :: rat)
         in \<lfloor>if max_delay < delay then max_delay else delay\<rfloor>))"

definition is_retryable :: "failure_handler \<Rightarrow> string option \<Rightarrow> bool" where
  "is_retryable h err =
     (case err of
        None \<Rightarrow> True
      | Some e \<Rightarrow> fh_retryable h = [] \<or> list_ex (\<lambda>p. contains_str (to_lower e) (to_lower p)) (fh_retryable h))"

definition handle_auto_retry :: "gotime \<Rightarrow> failure_handler \<Rightarrow> node_failure \<Rightarrow> handler_error + failure_decision" where
  "handle_auto_retry now h ctx =
     (let max_retries = (if nf_max_retries ctx \<le> 0 then fh_retries h else nf_max_retries ctx)
      in if max_retries \<le> nf_attempt ctx then Inl MaxRetriesExceeded
         else if \<not> is_retryable h (nf_error ctx)
           then Inr \<lparr>fd_action = ActionFail, fd_next = [], fd_retry_at = None, fd_backoff = 0, fd_skipped = False\<rparr>
         else
           (let backoff = calculate_backoff h (nf_attempt ctx)
            in Inr \<lparr>fd_action = ActionRetry, fd_next = [], fd_retry_at = Some (now + backoff), fd_backoff = backoff,
                    fd_skipped = False\<rparr>))"

definition handle_failure ::
  "gotime \<Rightarrow> failure_handler \<Rightarrow> node_failure \<Rightarrow> string \<Rightarrow> string \<Rightarrow> handler_error + failure_decision" where
  "handle_failure now h ctx strategy0 branch =
     (let strategy = normalize_strategy strategy0 (fh_strategy h)
      in if strategy = ''auto_retry'' then handle_auto_retry now h ctx
         else if strategy = ''skip_on_failure'' then Inr handle_skip
         else if strategy = ''failure_branch'' then Inr (handle_branch branch)
         else Inr handle_pause)"

definition handler_ok :: "failure_handler \<Rightarrow> bool" where
  "handler_ok h \<longleftrightarrow> 0 < fh_retries h \<and> 0 < fh_initial h \<and> 0 < fh_max h \<and> 1 < fh_factor h"

lemma apply_option_ok: "handler_ok h \<Longrightarrow> handler_ok (apply_option opt h)"
  by (cases opt) (simp_all add: handler_ok_def Let_def)

lemma fold_option_ok: "handler_ok h \<Longrightarrow> handler_ok (fold apply_option opts h)"
  by (induction opts arbitrary: h) (simp_all add: apply_option_ok)

lemma new_failure_handler_ok: "handler_ok (new_failure_handler opts)"
  unfolding new_failure_handler_def by (rule fold_option_ok) (simp add: handler_ok_def)

lemma backoff_capped:
  assumes "handler_ok h" "0 < a"
  shows "calculate_backoff h a = \<lfloor>min (of_int (fh_max h)) (of_int (fh_initial h) * fh_factor h ^ nat a)\<rfloor>"
proof -
  have "(if of_int (fh_max h) < x then of_int (fh_max h) else x) = min (of_int (fh_max h)) x" for x :: rat
    by (simp add: min_def)
  with assms show ?thesis by (simp add: calculate_backoff_def handler_ok_def Let_def)
qed

lemma backoff_bounds:
  assumes "handler_ok h" "0 < a"
  shows "0 < calculate_backoff h a" "calculate_backoff h a \<le> fh_max h"
proof -
  have factor: "1 \<le> fh_factor h ^ nat a" using assms by (simp add: handler_ok_def)
  have "(1 :: rat) \<le> of_int (fh_initial h)" "(1 :: rat) \<le> of_int (fh_max h)" using assms(1) by (auto simp: handler_ok_def)
  moreover from this(1) factor have "1 * 1 \<le> of_int (fh_initial h) * fh_factor h ^ nat a" by (intro mult_mono) auto
  ultimately have "1 \<le> min (of_int (fh_max h)) (of_int (fh_initial h) * fh_factor h ^ nat a)" by simp
  then show "0 < calculate_backoff h a" by (simp add: backoff_capped [OF assms])
  show "calculate_backoff h a \<le> fh_max h"
    unfolding backoff_capped [OF assms] by (metis floor_mono floor_of_int min.cobounded1)
qed

lemma backoff_mono:
  assumes "handler_ok h" "0 < a" "a \<le> b"
  shows "calculate_backoff h a \<le> calculate_backoff h b"
proof -
  have "fh_factor h ^ nat a \<le> fh_factor h ^ nat b" using assms by (intro power_increasing) (auto simp: handler_ok_def)
  then have "of_int (fh_initial h) * fh_factor h ^ nat a \<le> of_int (fh_initial h) * fh_factor h ^ nat b"
    using assms(1) by (intro mult_left_mono) (auto simp: handler_ok_def)
  then show ?thesis
    using assms by (simp add: backoff_capped) (intro floor_mono min.mono; simp)
qed

text \<open>
  C39. Retries are bounded and paced: with any options, the handler decides on a retry only below
  the retry limit, for an error it may retry, after a positive delay; from the second attempt on
  the delays never shrink and never exceed the maximum. (The first delay is the initial one,
  which is not compared with the maximum.)
\<close>

theorem retries_bounded_and_paced:
  assumes h: "h = new_failure_handler opts" and dec: "handle_failure now h ctx strategy branch = Inr d"
    and retry: "fd_action d = ActionRetry"
  shows "nf_attempt ctx < (if nf_max_retries ctx \<le> 0 then fh_retries h else nf_max_retries ctx)
    \<and> is_retryable h (nf_error ctx) \<and> fd_retry_at d = Some (now + fd_backoff d) \<and> 0 < fd_backoff d
    \<and> (if 0 < nf_attempt ctx
       then fd_backoff d \<le> fh_max h \<and> (\<forall>a. 0 < a \<and> a \<le> nf_attempt ctx \<longrightarrow> calculate_backoff h a \<le> fd_backoff d)
       else fd_backoff d = fh_initial h)"
proof -
  have ok: "handler_ok h" by (simp add: h new_failure_handler_ok)
  have auto: "handle_auto_retry now h ctx = Inr d"
    using dec retry by (auto simp: handle_failure_def Let_def handle_skip_def handle_pause_def handle_branch_def split: if_splits)
  then have d: "fd_backoff d = calculate_backoff h (nf_attempt ctx)" "fd_retry_at d = Some (now + fd_backoff d)"
    and limit: "nf_attempt ctx < (if nf_max_retries ctx \<le> 0 then fh_retries h else nf_max_retries ctx)"
    and can: "is_retryable h (nf_error ctx)"
    using retry by (auto simp: handle_auto_retry_def Let_def split: if_splits)
  show ?thesis
  proof (cases "0 < nf_attempt ctx")
    case True
    then show ?thesis using d limit can backoff_bounds [OF ok True] backoff_mono [OF ok] by auto
  next
    case False
    then have "calculate_backoff h (nf_attempt ctx) = fh_initial h" by (simp add: calculate_backoff_def)
    with False d limit can ok show ?thesis by (simp add: handler_ok_def)
  qed
qed

definition sample_failure :: node_failure where
  "sample_failure = \<lparr>nf_attempt = 2, nf_max_retries = 0, nf_error = Some ''Timeout''\<rparr>"

theorem retries_bounded_and_paced_witness:
  "\<exists>d. handle_failure 100 (new_failure_handler []) sample_failure ''AutoRetry'' [] = Inr d
     \<and> fd_backoff d = 4 * go_second \<and> fd_retry_at d = Some (100 + 4 * go_second)"
proof -
  let ?run = "handle_failure 100 (new_failure_handler []) sample_failure ''AutoRetry'' []"
  have "case ?run of Inr d \<Rightarrow> fd_action d = ActionRetry \<and> fd_backoff d = 4 * go_second | Inl _ \<Rightarrow> False" by code_simp
  then obtain d where d: "?run = Inr d" "fd_action d = ActionRetry" "fd_backoff d = 4 * go_second"
    by (auto split: sum.splits)
  from retries_bounded_and_paced [OF refl d(1,2)] d show ?thesis by auto
qed

end
