(* ===== verification/Workflow_Versions.thy ===== *)
theory Workflow_Versions
  imports Prelude
begin

text \<open>
  The version manager of workflows, \<open>src/server/internal/workflow/version/manager.go\<close>.

  The map from workflow IDs to version lists is a function, a missing key the empty list; the
  entries it points to are values, since callers only get clones. Definitions and variables are
  of any type (\<open>'d\<close>): \<open>cloneMap\<close> copies one level, and no modelled code changes what is below
  it. Version numbers are unbounded. The clock is an argument.
\<close>

subsection \<open>Entries and the manager\<close>

record 'd version_entry =
  ve_workflow :: string
  ve_version :: int
  ve_name :: string
  ve_description :: string
  ve_status :: string
  ve_branch :: string
  ve_definition :: 'd
  ve_variables :: 'd
  ve_changelog :: string
  ve_published :: bool
  ve_created :: gotime
  ve_updated :: gotime

record 'd version_isolation =
  vi_execution :: string
  vi_workflow :: string
  vi_version :: int
  vi_snapshot :: 'd
  vi_bound :: gotime

type_synonym 'd version_manager = "string \<Rightarrow> 'd version_entry list"

datatype version_error = WorkflowRequired | NameRequired | BranchRequired | VersionNotFound | CannotDeleteCurrent | NoPublished

definition find_version :: "'d version_manager \<Rightarrow> string \<Rightarrow> int \<Rightarrow> 'd version_entry option" where
  "find_version m wid v = List.find (\<lambda>e. ve_version e = v) (m (trim_space wid))"

definition next_version :: "'d version_entry list \<Rightarrow> int" where
  "next_version vs = (if vs = [] then 1 else ve_version (last vs) + 1)"

definition next_version_number :: "'d version_manager \<Rightarrow> string \<Rightarrow> int" where
  "next_version_number m wid = next_version (m (trim_space wid))"

definition append_version :: "string \<Rightarrow> 'd version_entry \<Rightarrow> 'd version_manager \<Rightarrow> 'd version_manager" where
  "append_version wid e m = m(wid := m wid @ [e])"

definition create_version ::
  "gotime \<Rightarrow> string \<Rightarrow> string \<Rightarrow> string \<Rightarrow> 'd \<Rightarrow> 'd \<Rightarrow> 'd version_manager
     \<Rightarrow> 'd version_manager \<times> (version_error + 'd version_entry)" where
  "create_version now wid0 name0 description definition variables m =
     (let wid = trim_space wid0; name = trim_space name0
      in if wid = [] then (m, Inl WorkflowRequired)
         else if name = [] then (m, Inl NameRequired)
         else
           (let e = \<lparr>ve_workflow = wid, ve_version = next_version (m wid), ve_name = name,
                     ve_description = trim_space description, ve_status = ''draft'', ve_branch = [],
                     ve_definition = definition, ve_variables = variables, ve_changelog = [],
                     ve_published = False, ve_created = now, ve_updated = now\<rparr>
            in (append_version wid e m, Inr e)))"

definition get_version :: "'d version_manager \<Rightarrow> string \<Rightarrow> int \<Rightarrow> version_error + 'd version_entry" where
  "get_version m wid v = (case find_version m wid v of None \<Rightarrow> Inl VersionNotFound | Some e \<Rightarrow> Inr e)"

definition list_versions :: "'d version_manager \<Rightarrow> string \<Rightarrow> 'd version_entry list" where
  "list_versions m wid = m (trim_space wid)"

definition get_latest_version :: "'d version_manager \<Rightarrow> string \<Rightarrow> version_error + 'd version_entry" where
  "get_latest_version m wid =
     (let vs = m (trim_space wid) in if vs = [] then Inl VersionNotFound else Inr (last vs))"

text \<open>The loop keeps the last entry that is published.\<close>

definition get_published_version :: "'d version_manager \<Rightarrow> string \<Rightarrow> version_error + 'd version_entry" where
  "get_published_version m wid =
     (case fold (\<lambda>e found. if ve_published e then Some e else found) (m (trim_space wid)) None of
        None \<Rightarrow> Inl NoPublished | Some e \<Rightarrow> Inr e)"

text \<open>The pointer that \<open>findVersion\<close> returned: the first entry with the number.\<close>

fun update_first :: "('a \<Rightarrow> bool) \<Rightarrow> ('a \<Rightarrow> 'a) \<Rightarrow> 'a list \<Rightarrow> 'a list" where
  "update_first P f [] = []"
| "update_first P f (x # xs) = (if P x then f x # xs else x # update_first P f xs)"

definition withdraw_entry :: "gotime \<Rightarrow> int \<Rightarrow> 'd version_entry \<Rightarrow> 'd version_entry" where
  "withdraw_entry now v e =
     (if ve_version e \<noteq> v \<and> ve_published e
      then e\<lparr>ve_published := False, ve_status := ''draft'', ve_updated := now\<rparr> else e)"

definition publish_entry :: "gotime \<Rightarrow> 'd version_entry \<Rightarrow> 'd version_entry" where
  "publish_entry now e = e\<lparr>ve_published := True, ve_status := ''published'', ve_updated := now\<rparr>"

definition publish_version ::
  "gotime \<Rightarrow> string \<Rightarrow> int \<Rightarrow> 'd version_manager \<Rightarrow> 'd version_manager \<times> (version_error + 'd version_entry)" where
  "publish_version now wid0 v m =
     (let wid = trim_space wid0
      in case find_version m wid0 v of
           None \<Rightarrow> (m, Inl VersionNotFound)
         | Some e \<Rightarrow>
             (m(wid := update_first (\<lambda>x. ve_version x = v) (publish_entry now)
                         (List.map (withdraw_entry now v) (m wid))), Inr (publish_entry now e)))"

definition rollback_version ::
  "gotime \<Rightarrow> string \<Rightarrow> int \<Rightarrow> 'd version_manager \<Rightarrow> 'd version_manager \<times> (version_error + 'd version_entry)" where
  "rollback_version now wid0 v m =
     (let wid = trim_space wid0
      in case find_version m wid0 v of
           None \<Rightarrow> (m, Inl VersionNotFound)
         | Some target \<Rightarrow>
             (let e = \<lparr>ve_workflow = wid, ve_version = next_version (m wid), ve_name = ve_name target,
                       ve_description = ve_description target, ve_status = ''draft'', ve_branch = [],
                       ve_definition = ve_definition target, ve_variables = ve_variables target,
                       ve_changelog = ''Rolled back from version '' @ digits v,
                       ve_published = False, ve_created = now, ve_updated = now\<rparr>
              in (append_version wid e m, Inr e)))"

definition create_branch ::
  "gotime \<Rightarrow> string \<Rightarrow> int \<Rightarrow> string \<Rightarrow> string \<Rightarrow> 'd version_manager
     \<Rightarrow> 'd version_manager \<times> (version_error + 'd version_entry)" where
  "create_branch now wid0 v branch0 description m =
     (let wid = trim_space wid0; branch = trim_space branch0; desc = trim_space description
      in if branch = [] then (m, Inl BranchRequired)
         else case find_version m wid0 v of
           None \<Rightarrow> (m, Inl VersionNotFound)
         | Some source \<Rightarrow>
             (let e = \<lparr>ve_workflow = wid, ve_version = next_version (m wid),
                       ve_name = ve_name source @ '' ('' @ branch @ '')'',
                       ve_description =
                         (if desc = [] then ''Branch '' @ [CHR 39] @ branch @ [CHR 39] @ '' from version '' @ digits v
                          else desc),
                       ve_status = ''draft'', ve_branch = branch,
                       ve_definition = ve_definition source, ve_variables = ve_variables source,
                       ve_changelog = ''Branched from version '' @ digits v @ '' as '' @ [CHR 39] @ branch @ [CHR 39],
                       ve_published = False, ve_created = now, ve_updated = now\<rparr>
              in (append_version wid e m, Inr e)))"

fun remove_first :: "('a \<Rightarrow> bool) \<Rightarrow> 'a list \<Rightarrow> 'a list" where
  "remove_first P [] = []"
| "remove_first P (x # xs) = (if P x then xs else x # remove_first P xs)"

definition delete_version ::
  "string \<Rightarrow> int \<Rightarrow> 'd version_manager \<Rightarrow> 'd version_manager \<times> version_error option" where
  "delete_version wid0 v m =
     (let wid = trim_space wid0
      in case find_version m wid0 v of
           None \<Rightarrow> (m, Some VersionNotFound)
         | Some e \<Rightarrow>
             if ve_published e then (m, Some CannotDeleteCurrent)
             else (m(wid := remove_first (\<lambda>x. ve_version x = v) (m wid)), None))"

definition bind_execution ::
  "gotime \<Rightarrow> string \<Rightarrow> string \<Rightarrow> int \<Rightarrow> 'd version_manager \<Rightarrow> version_error + 'd version_isolation" where
  "bind_execution now ex wid v m =
     (case find_version m wid v of
        None \<Rightarrow> Inl VersionNotFound
      | Some e \<Rightarrow> Inr \<lparr>vi_execution = ex, vi_workflow = trim_space wid, vi_version = v,
                     vi_snapshot = ve_definition e, vi_bound = now\<rparr>)"

subsection \<open>Operations and runs\<close>

datatype 'd version_op =
    OpCreate string string string 'd 'd | OpPublish string int | OpRollback string int
  | OpBranch string int string string | OpDelete string int

fun version_exec :: "gotime \<Rightarrow> 'd version_op \<Rightarrow> 'd version_manager \<Rightarrow> 'd version_manager" where
  "version_exec now (OpCreate wid name desc definition variables) m =
     fst (create_version now wid name desc definition variables m)"
| "version_exec now (OpPublish wid v) m = fst (publish_version now wid v m)"
| "version_exec now (OpRollback wid v) m = fst (rollback_version now wid v m)"
| "version_exec now (OpBranch wid v branch desc) m = fst (create_branch now wid v branch desc m)"
| "version_exec now (OpDelete wid v) m = fst (delete_version wid v m)"

fun version_run :: "(gotime \<times> 'd version_op) list \<Rightarrow> 'd version_manager \<Rightarrow> 'd version_manager" where
  "version_run [] m = m"
| "version_run ((now, op) # ops) m = version_run ops (version_exec now op m)"

text \<open>
  A workflow's versions: numbers positive and increasing, the status tells what is published,
  and at most one is.
\<close>

definition versions_ok :: "string \<Rightarrow> 'd version_entry list \<Rightarrow> bool" where
  "versions_ok wid vs \<longleftrightarrow>
     sorted_wrt (<) (List.map ve_version vs)
   \<and> (\<forall>e \<in> set vs. 0 < ve_version e \<and> ve_workflow e = wid
        \<and> ve_status e = (if ve_published e then ''published'' else ''draft''))
   \<and> length (filter ve_published vs) \<le> 1"

definition manager_ok :: "'d version_manager \<Rightarrow> bool" where
  "manager_ok m \<longleftrightarrow> (\<forall>wid. versions_ok wid (m wid))"

subsection \<open>Lists of versions\<close>

lemma find_split:
  "List.find P xs = Some x \<Longrightarrow> \<exists>ys zs. xs = ys @ x # zs \<and> P x \<and> (\<forall>y \<in> set ys. \<not> P y)"
proof (induction xs)
  case (Cons a xs)
  show ?case
  proof (cases "P a")
    case True
    with Cons.prems show ?thesis by (intro exI [of _ "[]"] exI [of _ xs]) simp
  next
    case False
    with Cons obtain ys zs where "xs = ys @ x # zs" "P x" "\<forall>y \<in> set ys. \<not> P y" by auto
    with False show ?thesis by (intro exI [of _ "a # ys"] exI [of _ zs]) simp
  qed
qed simp

lemma update_first_split: "P x \<Longrightarrow> \<forall>y \<in> set ys. \<not> P y \<Longrightarrow> update_first P f (ys @ x # zs) = ys @ f x # zs"
  by (induction ys) auto

lemma remove_first_split: "P x \<Longrightarrow> \<forall>y \<in> set ys. \<not> P y \<Longrightarrow> remove_first P (ys @ x # zs) = ys @ zs"
  by (induction ys) auto

lemma found_version:
  assumes ok: "versions_ok wid (m (trim_space wid0))" and find: "find_version m wid0 v = Some e"
  shows "\<exists>as bs. m (trim_space wid0) = as @ e # bs \<and> ve_version e = v
    \<and> (\<forall>x \<in> set as. ve_version x < v) \<and> (\<forall>x \<in> set bs. v < ve_version x)"
proof -
  from find obtain as bs where split: "m (trim_space wid0) = as @ e # bs" "ve_version e = v"
    unfolding find_version_def by (blast dest: find_split)
  with ok show ?thesis
    by (intro exI [of _ as] exI [of _ bs]) (auto simp: versions_ok_def sorted_wrt_append)
qed

lemma next_version_above:
  assumes "versions_ok wid vs" "e \<in> set vs"
  shows "ve_version e < next_version vs"
proof -
  from assms(2) obtain ys y where vs: "vs = ys @ [y]" by (cases vs rule: rev_cases) auto
  with assms show ?thesis by (auto simp: versions_ok_def sorted_wrt_append next_version_def)
qed

lemma next_version_pos: "versions_ok wid vs \<Longrightarrow> 0 < next_version vs"
  by (cases vs rule: rev_cases) (auto simp: versions_ok_def next_version_def)

lemma versions_append:
  assumes "versions_ok wid vs" "ve_version e = next_version vs" "\<not> ve_published e" "ve_status e = ''draft''"
    "ve_workflow e = wid"
  shows "versions_ok wid (vs @ [e])"
proof -
  have "\<forall>x \<in> set vs. ve_version x < ve_version e" using next_version_above [OF assms(1)] assms(2) by auto
  moreover have "0 < ve_version e" using next_version_pos [OF assms(1)] assms(2) by simp
  ultimately show ?thesis using assms by (auto simp: versions_ok_def sorted_wrt_append)
qed

lemma manager_append:
  assumes "manager_ok m" "ve_version e = next_version (m wid)" "\<not> ve_published e" "ve_status e = ''draft''"
    "ve_workflow e = wid"
  shows "manager_ok (append_version wid e m)"
  using assms versions_append [of wid "m wid" e] by (simp add: manager_ok_def append_version_def)

lemma withdraw_simps [simp]:
  "ve_version (withdraw_entry now v e) = ve_version e" "ve_workflow (withdraw_entry now v e) = ve_workflow e"
  "ve_definition (withdraw_entry now v e) = ve_definition e"
  "ve_version e \<noteq> v \<Longrightarrow> \<not> ve_published (withdraw_entry now v e)"
  "ve_version e = v \<Longrightarrow> withdraw_entry now v e = e"
  by (simp_all add: withdraw_entry_def)

lemma withdraw_status:
  "ve_status e = (if ve_published e then ''published'' else ''draft'') \<Longrightarrow> ve_version e \<noteq> v \<Longrightarrow>
     ve_status (withdraw_entry now v e) = ''draft''"
  by (simp add: withdraw_entry_def)

lemma publish_simps [simp]:
  "ve_version (publish_entry now e) = ve_version e" "ve_workflow (publish_entry now e) = ve_workflow e"
  "ve_definition (publish_entry now e) = ve_definition e" "ve_published (publish_entry now e)"
  "ve_status (publish_entry now e) = ''published''"
  by (simp_all add: publish_entry_def)

text \<open>The list after a publication: every other entry withdrawn.\<close>

lemma publish_shape:
  assumes ok: "manager_ok m" and pub: "publish_version now wid0 v m = (m', Inr e')"
  shows "\<exists>as e bs. m (trim_space wid0) = as @ e # bs \<and> ve_version e = v \<and> e' = publish_entry now e
    \<and> (\<forall>x \<in> set (as @ bs). ve_version x \<noteq> v)
    \<and> m' = m(trim_space wid0 := List.map (withdraw_entry now v) as @ publish_entry now e # List.map (withdraw_entry now v) bs)"
proof -
  from pub obtain e where e: "find_version m wid0 v = Some e" "e' = publish_entry now e"
    and m': "m' = m(trim_space wid0 := update_first (\<lambda>x. ve_version x = v) (publish_entry now)
                         (List.map (withdraw_entry now v) (m (trim_space wid0))))"
    by (auto simp: publish_version_def Let_def split: option.splits)
  from found_version [OF _ e(1)] ok obtain as bs where split: "m (trim_space wid0) = as @ e # bs" "ve_version e = v"
    "\<forall>x \<in> set as. ve_version x < v" "\<forall>x \<in> set bs. v < ve_version x" unfolding manager_ok_def by blast
  have "update_first (\<lambda>x. ve_version x = v) (publish_entry now)
      (List.map (withdraw_entry now v) as @ e # List.map (withdraw_entry now v) bs)
      = List.map (withdraw_entry now v) as @ publish_entry now e # List.map (withdraw_entry now v) bs"
    using split by (intro update_first_split) auto
  with split e(2) m' show ?thesis by (intro exI [of _ as] exI [of _ e] exI [of _ bs]) auto
qed

lemma filter_published_empty: "\<forall>x \<in> set xs. ve_version x \<noteq> v \<Longrightarrow> filter ve_published (List.map (withdraw_entry now v) xs) = []"
  by (induction xs) auto

lemma publish_ok:
  assumes ok: "manager_ok m" and pub: "publish_version now wid0 v m = (m', Inr e')"
  shows "manager_ok m'"
proof -
  let ?w = "withdraw_entry now v"
  from publish_shape [OF assms] obtain as e bs where
    split: "m (trim_space wid0) = as @ e # bs" "ve_version e = v" "\<forall>x \<in> set (as @ bs). ve_version x \<noteq> v"
    and m': "m' = m(trim_space wid0 := List.map ?w as @ publish_entry now e # List.map ?w bs)" by blast
  have old: "versions_ok (trim_space wid0) (as @ e # bs)" using ok split(1) by (metis manager_ok_def)
  have "List.map ve_version (List.map ?w as @ publish_entry now e # List.map ?w bs) = List.map ve_version (as @ e # bs)" by simp
  moreover have "length (filter ve_published (List.map ?w as @ publish_entry now e # List.map ?w bs)) \<le> 1"
    using filter_published_empty [of as v now] filter_published_empty [of bs v now] split(3) by simp
  moreover have "\<forall>x \<in> set (List.map ?w as @ publish_entry now e # List.map ?w bs). 0 < ve_version x \<and> ve_workflow x = trim_space wid0
        \<and> ve_status x = (if ve_published x then ''published'' else ''draft'')"
    using old split(3) withdraw_status [of _ v now] by (auto simp: versions_ok_def)
  ultimately have "versions_ok (trim_space wid0) (List.map ?w as @ publish_entry now e # List.map ?w bs)"
    using old by (simp only: versions_ok_def)
  with ok show ?thesis by (simp add: m' manager_ok_def)
qed

lemma delete_ok:
  assumes ok: "manager_ok m" and del: "delete_version wid0 v m = (m', r)"
  shows "manager_ok m'"
proof (cases r)
  case (Some err)
  with del ok show ?thesis by (auto simp: delete_version_def Let_def split: option.splits if_splits)
next
  case None
  with del obtain e where e: "find_version m wid0 v = Some e"
    and m': "m' = m(trim_space wid0 := remove_first (\<lambda>x. ve_version x = v) (m (trim_space wid0)))"
    by (auto simp: delete_version_def Let_def split: option.splits if_splits)
  from found_version [OF _ e] ok obtain as bs where split: "m (trim_space wid0) = as @ e # bs" "ve_version e = v"
    "\<forall>x \<in> set as. ve_version x < v" unfolding manager_ok_def by blast
  have old: "versions_ok (trim_space wid0) (as @ e # bs)" using ok split(1) by (metis manager_ok_def)
  have "remove_first (\<lambda>x. ve_version x = v) (as @ e # bs) = as @ bs" using split by (intro remove_first_split) auto
  moreover have "versions_ok (trim_space wid0) (as @ bs)" using old
    by (cases "ve_published e") (auto simp: versions_ok_def sorted_wrt_append)
  ultimately show ?thesis using ok split(1) by (simp add: m' manager_ok_def)
qed

lemma version_exec_ok: "manager_ok m \<Longrightarrow> manager_ok (version_exec now op m)"
proof (cases op)
  case (OpPublish wid v)
  assume ok: "manager_ok m"
  obtain m' r where pub: "publish_version now wid v m = (m', r)" by fastforce
  show ?thesis
  proof (cases r)
    case (Inl err)
    with pub ok OpPublish show ?thesis by (auto simp: publish_version_def Let_def split: option.splits)
  next
    case (Inr e)
    with pub publish_ok [OF ok] OpPublish show ?thesis by simp
  qed
next
  case (OpDelete wid v)
  assume "manager_ok m"
  with delete_ok OpDelete show ?thesis by (metis prod.collapse version_exec.simps(5))
qed (auto simp: create_version_def rollback_version_def create_branch_def Let_def intro!: manager_append split: option.splits)

subsection \<open>The abstract catalogue\<close>

text \<open>
  What a client sees of one workflow: a definition for each version number, and the number that is
  published. \<open>spec_exec\<close> says what each operation does to it.
\<close>

type_synonym 'd catalogue = "(int \<rightharpoonup> 'd) \<times> int option"

definition catalogue_of :: "'d version_entry list \<Rightarrow> 'd catalogue" where
  "catalogue_of vs =
     ((\<lambda>v. map_option ve_definition (List.find (\<lambda>e. ve_version e = v) vs)),
      map_option ve_version (List.find ve_published vs))"

definition version_abs :: "'d version_manager \<Rightarrow> string \<Rightarrow> 'd catalogue" where
  "version_abs m wid = catalogue_of (m wid)"

definition fresh_number :: "(int \<rightharpoonup> 'd) \<Rightarrow> int" where
  "fresh_number es = (if dom es = {} then 1 else Max (dom es) + 1)"

definition add_draft :: "'d \<Rightarrow> 'd catalogue \<Rightarrow> 'd catalogue" where
  "add_draft d c = ((fst c)(fresh_number (fst c) \<mapsto> d), snd c)"

fun spec_exec :: "'d version_op \<Rightarrow> (string \<Rightarrow> 'd catalogue) \<Rightarrow> string \<Rightarrow> 'd catalogue" where
  "spec_exec (OpCreate wid name desc definition variables) c =
     (if trim_space wid = [] \<or> trim_space name = [] then c
      else c(trim_space wid := add_draft definition (c (trim_space wid))))"
| "spec_exec (OpPublish wid v) c =
     (case fst (c (trim_space wid)) v of None \<Rightarrow> c
      | Some d \<Rightarrow> c(trim_space wid := (fst (c (trim_space wid)), Some v)))"
| "spec_exec (OpRollback wid v) c =
     (case fst (c (trim_space wid)) v of None \<Rightarrow> c
      | Some d \<Rightarrow> c(trim_space wid := add_draft d (c (trim_space wid))))"
| "spec_exec (OpBranch wid v branch desc) c =
     (if trim_space branch = [] then c else case fst (c (trim_space wid)) v of None \<Rightarrow> c
      | Some d \<Rightarrow> c(trim_space wid := add_draft d (c (trim_space wid))))"
| "spec_exec (OpDelete wid v) c =
     (if fst (c (trim_space wid)) v = None \<or> snd (c (trim_space wid)) = Some v then c
      else c(trim_space wid := ((fst (c (trim_space wid)))(v := None), snd (c (trim_space wid)))))"

lemma find_append: "List.find P (xs @ ys) = (case List.find P xs of None \<Rightarrow> List.find P ys | Some x \<Rightarrow> Some x)"
  by (induction xs) auto

lemma find_none: "List.find P xs = None \<longleftrightarrow> (\<forall>x \<in> set xs. \<not> P x)"
  by (induction xs) auto

lemma catalogue_dom: "dom (fst (catalogue_of vs)) = ve_version ` set vs"
proof (rule set_eqI)
  show "v \<in> dom (fst (catalogue_of vs)) \<longleftrightarrow> v \<in> ve_version ` set vs" for v
    using find_none [of "\<lambda>e. ve_version e = v" vs]
    by (cases "List.find (\<lambda>e. ve_version e = v) vs") (auto simp: catalogue_of_def)
qed

lemma fresh_is_next:
  assumes "versions_ok wid vs"
  shows "fresh_number (fst (catalogue_of vs)) = next_version vs"
proof (cases vs rule: rev_cases)
  case Nil
  thus ?thesis using catalogue_dom [of vs] by (simp add: fresh_number_def next_version_def)
next
  case (snoc ys y)
  have "Max (ve_version ` set vs) = ve_version y"
  proof (rule Max_eqI)
    show "\<And>w. w \<in> ve_version ` set vs \<Longrightarrow> w \<le> ve_version y"
      using assms snoc by (auto simp: versions_ok_def sorted_wrt_append)
  qed (simp_all add: snoc)
  with snoc show ?thesis using catalogue_dom [of vs] by (simp add: fresh_number_def next_version_def)
qed

lemma catalogue_append:
  assumes ok: "versions_ok wid vs" and e: "ve_version e = next_version vs" "\<not> ve_published e"
  shows "catalogue_of (vs @ [e]) = add_draft (ve_definition e) (catalogue_of vs)"
proof -
  have none: "List.find (\<lambda>x. ve_version x = next_version vs) vs = None"
    using next_version_above [OF ok] by (force simp: find_none)
  have "map_option ve_definition (List.find (\<lambda>x. ve_version x = v) (vs @ [e]))
      = ((fst (catalogue_of vs))(next_version vs \<mapsto> ve_definition e)) v" for v
    using none e(1) by (cases "v = next_version vs") (auto simp: find_append catalogue_of_def split: option.splits)
  moreover have "List.find ve_published (vs @ [e]) = List.find ve_published vs"
    using e(2) by (simp add: find_append split: option.splits)
  ultimately show ?thesis
    by (simp add: add_draft_def fresh_is_next [OF ok]) (simp add: catalogue_of_def fun_eq_iff)
qed

lemma abs_append:
  assumes "manager_ok m" "ve_version e = next_version (m wid)" "\<not> ve_published e"
  shows "version_abs (append_version wid e m) = (version_abs m)(wid := add_draft (ve_definition e) (version_abs m wid))"
  using assms catalogue_append [of wid "m wid" e]
  by (auto simp: version_abs_def append_version_def manager_ok_def)

lemma abs_lookup: "fst (version_abs m (trim_space wid)) v = map_option ve_definition (find_version m wid v)"
  by (simp add: version_abs_def catalogue_of_def find_version_def)

lemma find_map_version:
  "List.find (\<lambda>e. ve_version e = w) (List.map (withdraw_entry now v) xs)
     = map_option (withdraw_entry now v) (List.find (\<lambda>e. ve_version e = w) xs)"
  by (induction xs) auto

lemma abs_publish:
  assumes ok: "manager_ok m" and pub: "publish_version now wid0 v m = (m', Inr e')"
  shows "version_abs m' = (version_abs m)(trim_space wid0 := (fst (version_abs m (trim_space wid0)), Some v))"
proof -
  let ?w = "withdraw_entry now v"
  from publish_shape [OF assms] obtain as e bs where
    split: "m (trim_space wid0) = as @ e # bs" "ve_version e = v" "\<forall>x \<in> set (as @ bs). ve_version x \<noteq> v"
    and m': "m' = m(trim_space wid0 := List.map ?w as @ publish_entry now e # List.map ?w bs)" by blast
  have "map_option ve_definition (List.find (\<lambda>x. ve_version x = w) (List.map ?w as @ publish_entry now e # List.map ?w bs))
      = map_option ve_definition (List.find (\<lambda>x. ve_version x = w) (as @ e # bs))" for w
    by (auto simp: find_append find_map_version option.map_comp comp_def split: option.splits)
  moreover have "List.find ve_published (List.map ?w as) = None" using split(3) by (auto simp: find_none)
  hence "List.find ve_published (List.map ?w as @ publish_entry now e # List.map ?w bs) = Some (publish_entry now e)"
    by (simp add: find_append)
  ultimately have "catalogue_of (List.map ?w as @ publish_entry now e # List.map ?w bs)
      = (fst (catalogue_of (as @ e # bs)), Some v)"
    using split(2) by (simp add: catalogue_of_def)
  with split(1) m' show ?thesis by (auto simp: version_abs_def)
qed

lemma versions_apart:
  assumes "versions_ok wid (as @ e # bs)"
  shows "\<forall>x \<in> set (as @ bs). ve_version x \<noteq> ve_version e"
proof -
  have "sorted_wrt (<) (List.map ve_version as @ ve_version e # List.map ve_version bs)"
    using assms by (simp add: versions_ok_def)
  thus ?thesis by (auto simp: sorted_wrt_append)
qed

lemma catalogue_remove:
  assumes ok: "versions_ok wid (as @ e # bs)" and e: "\<not> ve_published e"
  shows "catalogue_of (as @ bs)
    = ((fst (catalogue_of (as @ e # bs)))(ve_version e := None), snd (catalogue_of (as @ e # bs)))"
proof -
  note apart = versions_apart [OF ok]
  have gone: "List.find (\<lambda>x. ve_version x = ve_version e) (as @ bs) = None"
    using apart by (simp only: find_none)
  have "map_option ve_definition (List.find (\<lambda>x. ve_version x = w) (as @ bs))
      = ((fst (catalogue_of (as @ e # bs)))(ve_version e := None)) w" for w
  proof (cases "w = ve_version e")
    case True
    with gone show ?thesis by (simp del: find_None_iff)
  next
    case False
    thus ?thesis by (cases "List.find (\<lambda>x. ve_version x = w) as") (simp_all add: catalogue_of_def find_append)
  qed
  moreover have "List.find ve_published (as @ bs) = List.find ve_published (as @ e # bs)"
    using e by (cases "List.find ve_published as") (simp_all add: find_append)
  ultimately show ?thesis by (simp add: catalogue_of_def fun_eq_iff)
qed

lemma published_current:
  assumes ok: "versions_ok wid (as @ e # bs)"
  shows "ve_published e \<longleftrightarrow> snd (catalogue_of (as @ e # bs)) = Some (ve_version e)"
proof -
  have few: "length (filter ve_published (as @ e # bs)) \<le> 1" using ok by (simp add: versions_ok_def)
  note apart = versions_apart [OF ok]
  show ?thesis
  proof
    assume p: "ve_published e"
    with few have "filter ve_published as = []" by (simp add: filter_append)
    hence "List.find ve_published as = None" by (auto simp: filter_empty_conv find_none)
    with p show "snd (catalogue_of (as @ e # bs)) = Some (ve_version e)" by (simp add: catalogue_of_def find_append)
  next
    assume "snd (catalogue_of (as @ e # bs)) = Some (ve_version e)"
    then obtain x where "List.find ve_published (as @ e # bs) = Some x" "ve_version x = ve_version e"
      by (auto simp: catalogue_of_def)
    from find_split [OF this(1)] obtain ys zs where "as @ e # bs = ys @ x # zs" and "ve_published x" by blast
    moreover from this(1) have "x \<in> set (as @ e # bs)" by (simp only: set_append list.set) simp
    ultimately have "ve_published x" "x \<in> set (as @ e # bs)" by (simp_all only:)
    with apart \<open>ve_version x = ve_version e\<close> show "ve_published e" by (cases "x = e") auto
  qed
qed

lemma abs_delete:
  assumes ok: "manager_ok m"
  shows "version_abs (fst (delete_version wid0 v m)) = spec_exec (OpDelete wid0 v) (version_abs m)"
proof (cases "find_version m wid0 v")
  case None
  thus ?thesis by (simp add: delete_version_def Let_def abs_lookup)
next
  case (Some e)
  from found_version [OF _ Some] ok obtain as bs where split: "m (trim_space wid0) = as @ e # bs" "ve_version e = v"
    "\<forall>x \<in> set as. ve_version x < v" unfolding manager_ok_def by blast
  have old: "versions_ok (trim_space wid0) (as @ e # bs)" using ok split(1) by (metis manager_ok_def)
  have cur: "snd (version_abs m (trim_space wid0)) = Some v \<longleftrightarrow> ve_published e"
    using published_current [OF old] split by (simp add: version_abs_def)
  have there: "fst (version_abs m (trim_space wid0)) v \<noteq> None" using Some by (simp add: abs_lookup)
  have "remove_first (\<lambda>x. ve_version x = v) (as @ e # bs) = as @ bs" using split by (intro remove_first_split) auto
  moreover have "\<not> ve_published e \<Longrightarrow> catalogue_of (as @ bs)
      = ((fst (version_abs m (trim_space wid0)))(v := None), snd (version_abs m (trim_space wid0)))"
    using catalogue_remove [OF old] split by (simp add: version_abs_def)
  ultimately show ?thesis using Some split(1) cur there
    by (cases "ve_published e") (auto simp: delete_version_def Let_def version_abs_def fun_upd_def fun_eq_iff)
qed

lemma abs_published:
  assumes "manager_ok m"
  shows "version_abs (fst (publish_version now wid0 v m)) = spec_exec (OpPublish wid0 v) (version_abs m)"
proof (cases "find_version m wid0 v")
  case None
  thus ?thesis by (simp add: publish_version_def Let_def abs_lookup)
next
  case (Some e)
  obtain m' r where pub: "publish_version now wid0 v m = (m', r)" by fastforce
  with Some obtain e' where "r = Inr e'" by (auto simp: publish_version_def Let_def)
  with abs_publish [OF assms] pub Some show ?thesis by (simp add: abs_lookup)
qed

text \<open>The simulation of one operation.\<close>

lemma version_exec_abs:
  assumes "manager_ok m"
  shows "version_abs (version_exec now op m) = spec_exec op (version_abs m)"
  using assms
  by (cases op)
    (auto simp: abs_delete abs_published create_version_def rollback_version_def create_branch_def Let_def
       abs_lookup abs_append simp del: spec_exec.simps(2,5) split: option.splits)

lemma version_run_ok: "manager_ok m \<Longrightarrow> manager_ok (version_run ops m)"
  by (induction ops arbitrary: m) (auto simp: version_exec_ok)

lemma empty_manager_ok: "manager_ok (\<lambda>_. [])"
  by (simp add: manager_ok_def versions_ok_def)

subsection \<open>Properties\<close>

text \<open>
  Whatever sequence of operations runs, the versions of every workflow keep increasing positive
  numbers, their status says whether they are published, and at most one of them is.
\<close>

theorem versions_stay_ordered: "manager_ok (version_run ops (\<lambda>_. []))"
  by (simp add: version_run_ok empty_manager_ok)

lemma version_run_abs:
  "manager_ok m \<Longrightarrow> version_abs (version_run ops m) = fold (\<lambda>(now, op). spec_exec op) ops (version_abs m)"
  by (induction ops arbitrary: m) (auto simp: version_exec_abs version_exec_ok)

text \<open>
  C18. The manager refines the catalogue: after any run from the empty manager, what a client sees
  (the definition under each number, and the published number) is what the catalogue's own steps
  give, failing calls changing nothing.
\<close>

theorem manager_refines_catalogue:
  "version_abs (version_run ops (\<lambda>_. [])) = fold (\<lambda>(now, op). spec_exec op) ops (\<lambda>_. (Map.empty, None))"
  using version_run_abs [OF empty_manager_ok, of ops]
  by (simp add: version_abs_def [abs_def] catalogue_of_def)

lemma last_published:
  "\<forall>x \<in> set (as @ bs). \<not> ve_published x \<Longrightarrow> ve_published e \<Longrightarrow>
     fold (\<lambda>e found. if ve_published e then Some e else found) (as @ e # bs) None = Some e"
proof -
  have skip: "\<forall>x \<in> set xs. \<not> ve_published x \<Longrightarrow>
      fold (\<lambda>e found. if ve_published e then Some e else found) xs f = f" for xs f
    by (induction xs) auto
  assume "\<forall>x \<in> set (as @ bs). \<not> ve_published x" "ve_published e"
  thus ?thesis by (simp add: skip)
qed

lemma publish_version_core:
  assumes ok: "manager_ok m" and pub: "publish_version now wid v m = (m', Inr e)"
  shows "get_published_version m' wid = Inr e \<and> ve_version e = v
    \<and> list_all (\<lambda>x. ve_published x = (ve_version x = v)) (list_versions m' wid)
    \<and> List.map (\<lambda>x. (ve_version x, ve_definition x)) (list_versions m' wid)
      = List.map (\<lambda>x. (ve_version x, ve_definition x)) (list_versions m wid)
    \<and> m'(trim_space wid := m (trim_space wid)) = m"
proof -
  let ?w = "withdraw_entry now v"
  from publish_shape [OF assms] obtain as x bs where
    split: "m (trim_space wid) = as @ x # bs" "ve_version x = v" "e = publish_entry now x"
      "\<forall>x \<in> set (as @ bs). ve_version x \<noteq> v"
    and m': "m' = m(trim_space wid := List.map ?w as @ publish_entry now x # List.map ?w bs)" by blast
  have none: "\<forall>y \<in> set (List.map ?w as @ List.map ?w bs). \<not> ve_published y" using split(4) by auto
  have "get_published_version m' wid = Inr e"
    using last_published [OF none, of "publish_entry now x"] split(3) by (simp add: get_published_version_def m')
  moreover have "list_all (\<lambda>x. ve_published x = (ve_version x = v)) (list_versions m' wid)"
    using none split(2,4) by (auto simp: list_versions_def m' list_all_iff)
  ultimately show ?thesis using split by (auto simp: list_versions_def m')
qed

text \<open>
  A publication that succeeds makes its version the one \<open>GetPublishedVersion\<close> returns and
  the only published one; no number, no definition and no other workflow changes.
\<close>

theorem publish_is_exclusive:
  assumes "manager_ok m" "publish_version now wid v m = (m', Inr e)"
  shows "get_published_version m' wid = Inr e \<and> ve_version e = v
    \<and> list_all (\<lambda>x. ve_published x = (ve_version x = v)) (list_versions m' wid)
    \<and> List.map (\<lambda>x. (ve_version x, ve_definition x)) (list_versions m' wid)
      = List.map (\<lambda>x. (ve_version x, ve_definition x)) (list_versions m wid)
    \<and> m'(trim_space wid := m (trim_space wid)) = m"
  using assms by (rule publish_version_core)

definition demo_versions :: "int version_manager" where
  "demo_versions = version_run
     [(1, OpCreate ''w'' ''one'' [] 10 0), (2, OpCreate ''w'' ''two'' [] 20 0), (3, OpPublish ''w'' 2)] (\<lambda>_. [])"

lemma demo_versions_ok: "manager_ok demo_versions"
  unfolding demo_versions_def by (rule version_run_ok [OF empty_manager_ok])

lemma demo_publish: "\<exists>m' e. publish_version 4 '' w '' 1 demo_versions = (m', Inr e) \<and> ve_definition e = 10"
  by (simp add: demo_versions_def create_version_def append_version_def publish_version_def find_version_def
      next_version_def publish_entry_def withdraw_entry_def trim_space_def is_space_def Let_def)

theorem publish_is_exclusive_witness:
  "\<exists>m' e. publish_version 4 '' w '' 1 demo_versions = (m', Inr e) \<and> ve_definition e = 10
    \<and> get_published_version m' '' w '' = Inr e \<and> ve_version e = 1"
proof -
  obtain m' e where pub: "publish_version 4 '' w '' 1 demo_versions = (m', Inr e)" "ve_definition e = 10"
    using demo_publish by blast
  from publish_is_exclusive [OF demo_versions_ok pub(1)] pub show ?thesis by blast
qed

text \<open>
  Rolling back to a version and publishing the new number puts that version's definition and
  variables in force again, under a number above all earlier ones; the target itself is still there.
\<close>

theorem rollback_then_publish:
  assumes ok: "manager_ok m" and there: "find_version m wid v = Some t"
  shows "\<exists>m1 e1 m2 e2. rollback_version now wid v m = (m1, Inr e1) \<and> list_versions m1 wid = list_versions m wid @ [e1]
    \<and> list_all (\<lambda>x. ve_version x < ve_version e1) (list_versions m wid)
    \<and> publish_version now' wid (ve_version e1) m1 = (m2, Inr e2) \<and> get_published_version m2 wid = Inr e2
    \<and> ve_definition e2 = ve_definition t \<and> ve_variables e2 = ve_variables t
    \<and> fst (version_abs m2 (trim_space wid)) v = Some (ve_definition t)"
proof -
  define e1 where "e1 = \<lparr>ve_workflow = trim_space wid, ve_version = next_version (m (trim_space wid)),
    ve_name = ve_name t, ve_description = ve_description t, ve_status = ''draft'', ve_branch = [],
    ve_definition = ve_definition t, ve_variables = ve_variables t,
    ve_changelog = ''Rolled back from version '' @ digits v, ve_published = False, ve_created = now, ve_updated = now\<rparr>"
  define m1 where "m1 = append_version (trim_space wid) e1 m"
  have vs: "versions_ok (trim_space wid) (m (trim_space wid))" using ok by (simp add: manager_ok_def)
  have e1: "ve_version e1 = next_version (m (trim_space wid))" "\<not> ve_published e1" "ve_status e1 = ''draft''"
    "ve_workflow e1 = trim_space wid" "ve_definition e1 = ve_definition t" "ve_variables e1 = ve_variables t"
    by (simp_all add: e1_def)
  have above: "\<forall>x \<in> set (m (trim_space wid)). ve_version x < ve_version e1"
    using next_version_above [OF vs] e1 by auto
  have roll: "rollback_version now wid v m = (m1, Inr e1)"
    using there by (simp add: rollback_version_def Let_def m1_def e1_def)
  have ok1: "manager_ok m1" using ok e1 unfolding m1_def by (intro manager_append)
  have new: "find_version m1 wid (ve_version e1) = Some e1"
    using above by (auto simp: find_version_def m1_def append_version_def find_append find_none split: option.splits dest!: find_split)
  obtain m2 r where pub: "publish_version now' wid (ve_version e1) m1 = (m2, r)" by fastforce
  with new have e2: "r = Inr (publish_entry now' e1)" by (simp add: publish_version_def Let_def)
  have "ve_variables (publish_entry now' e1) = ve_variables t" using e1 by (simp add: publish_entry_def)
  moreover have "fst (version_abs m1 (trim_space wid)) v = Some (ve_definition t)"
    using there above e1 abs_lookup [of m1 wid v]
    by (simp add: find_version_def m1_def append_version_def find_append)
  hence "fst (version_abs m2 (trim_space wid)) v = Some (ve_definition t)"
    using abs_publish [OF ok1 pub [unfolded e2]] by simp
  moreover have "list_versions m1 wid = list_versions m wid @ [e1]" by (simp add: list_versions_def m1_def append_version_def)
  moreover have "list_all (\<lambda>x. ve_version x < ve_version e1) (list_versions m wid)"
    using above by (simp add: list_all_iff list_versions_def)
  ultimately show ?thesis using roll pub e1(5) publish_version_core [OF ok1 pub [unfolded e2]] unfolding e2
    by (intro exI [of _ m1] exI [of _ e1] exI [of _ m2] exI [of _ "publish_entry now' e1"]) simp
qed

theorem rollback_then_publish_witness:
  "\<exists>m2 e2. get_published_version m2 ''w'' = Inr e2 \<and> ve_definition e2 = 10
    \<and> fst (version_abs m2 (trim_space ''w'')) 1 = Some (10 :: int)"
proof -
  have "\<exists>t. find_version demo_versions ''w'' 1 = Some t \<and> ve_definition t = 10"
    by (simp add: demo_versions_def create_version_def append_version_def publish_version_def find_version_def
        next_version_def publish_entry_def withdraw_entry_def trim_space_def is_space_def Let_def)
  then obtain t where "find_version demo_versions ''w'' 1 = Some t" "ve_definition t = 10" by blast
  with rollback_then_publish [OF demo_versions_ok this(1), of 5 6] show ?thesis by metis
qed

lemma deleted_number_comes_again:
  "\<exists>m1 m2 e. delete_version ''w'' 2 (version_run [(1, OpCreate ''w'' ''one'' [] a b), (2, OpCreate ''w'' ''two'' [] c d)] (\<lambda>_. [])) = (m1, None)
     \<and> create_version 3 ''w'' ''three'' [] f g m1 = (m2, Inr e) \<and> ve_version e = 2 \<and> ve_definition e = f"
  by (simp add: create_version_def append_version_def delete_version_def find_version_def
      next_version_def trim_space_def is_space_def Let_def)

end
