(* ===== verification/Marketplace_Fees.thy ===== *)
theory Marketplace_Fees
  imports Prelude
begin

text \<open>
  What a marketplace sale pays to whom: the fee tiers and the split of an order's amount of
  \<open>src/server/internal/marketplace/settlement.go\<close>, and the tier disclosure of
  \<open>revenue_tiers.go\<close> beside it.

  Amounts are rationals, the operations on \<open>float64\<close> exact; \<open>round_amount\<close> is \<open>math.Round\<close> to
  cents. The upper end of the last tier, \<open>math.Inf(1)\<close>, is the missing successor of the list.
\<close>

subsection \<open>Cents\<close>

definition round_amount :: "usd \<Rightarrow> usd" where
  "round_amount x = dec2 x"

definition cents :: "usd \<Rightarrow> bool" where
  "cents x \<longleftrightarrow> (\<exists>k. x = of_int k / 100)"

lemma round_of_cents: "round_amount (of_int k / 100) = of_int k / 100"
proof (cases "0 \<le> k")
  case True
  then show ?thesis by (simp add: round_amount_def dec2_def floor_int_half)
next
  case False
  have "- (of_int k / 100) * 100 + 1 / 2 = (of_int (- k) + 1 / 2 :: rat)" by simp
  then have "\<lfloor>- (of_int k / 100) * 100 + 1 / 2 :: rat\<rfloor> = - k" by (simp only: floor_int_half)
  with False show ?thesis by (simp add: round_amount_def dec2_def)
qed

lemma round_cents [simp]: "cents x \<Longrightarrow> round_amount x = x"
proof -
  assume "cents x"
  then obtain k where "x = of_int k / 100" by (auto simp: cents_def)
  then show ?thesis by (simp only: round_of_cents)
qed

lemma cents_round [simp]: "cents (round_amount x)"
proof (cases "0 \<le> x")
  case True
  then show ?thesis by (auto simp: cents_def round_amount_def dec2_def)
next
  case False
  then have "round_amount x = of_int (- \<lfloor>- x * 100 + 1 / 2\<rfloor>) / 100" by (simp add: round_amount_def dec2_def)
  then show ?thesis unfolding cents_def by blast
qed

lemma cents_0 [simp]: "cents 0"
  unfolding cents_def by (rule exI [of _ 0]) simp

lemma cents_numeral [simp]: "cents (numeral n)"
  unfolding cents_def by (rule exI [of _ "numeral n * 100"]) simp

lemma cents_add: "cents x \<Longrightarrow> cents y \<Longrightarrow> cents (x + y)"
  unfolding cents_def by (metis add_divide_distrib of_int_add)

lemma cents_diff: "cents x \<Longrightarrow> cents y \<Longrightarrow> cents (x - y)"
  unfolding cents_def by (metis diff_divide_distrib of_int_diff)

lemma cents_max: "cents x \<Longrightarrow> cents y \<Longrightarrow> cents (max x y)"
  by (simp add: max_def)

lemma cents_grid: "cents x \<Longrightarrow> grid x"
proof -
  assume "cents x"
  then obtain k where "x = of_int (k * 10000) / 1000000" by (auto simp: cents_def)
  then show ?thesis unfolding grid_iff by blast
qed

lemma round_mono: "0 \<le> x \<Longrightarrow> x \<le> y \<Longrightarrow> round_amount x \<le> round_amount y"
proof -
  assume x: "0 \<le> x" and xy: "x \<le> y"
  then have "\<lfloor>x * 100 + 1 / 2\<rfloor> \<le> \<lfloor>y * 100 + 1 / 2\<rfloor>" by (intro floor_mono) simp
  with x xy show ?thesis by (simp add: round_amount_def dec2_def divide_right_mono)
qed

lemma round_nonneg [simp]: "0 \<le> x \<Longrightarrow> 0 \<le> round_amount x"
  by (simp add: round_amount_def dec2_def)

subsection \<open>Tiers\<close>

record fee_tier =
  ft_min :: usd
  ft_bps :: int

text \<open>\<open>sort.SliceStable\<close> by the minimum amount.\<close>

definition normalize_platform_fee_tiers :: "fee_tier list \<Rightarrow> fee_tier list" where
  "normalize_platform_fee_tiers tiers = sort_key ft_min tiers"

definition standard_tiers :: "fee_tier list" where
  "standard_tiers = [\<lparr>ft_min = 0, ft_bps = 2000\<rparr>]"

datatype fee_error = TierMinimumNegative | TierBpsOutOfRange | UnsupportedBasis string | OrderAmountNotPositive

text \<open>The checks are made tier by tier: the first tier that fails one decides the error.\<close>

fun tiers_error :: "fee_tier list \<Rightarrow> fee_error option" where
  "tiers_error [] = None"
| "tiers_error (t # ts) =
     (if ft_min t < 0 then Some TierMinimumNegative
      else if ft_bps t < 0 \<or> 10000 < ft_bps t then Some TierBpsOutOfRange
      else tiers_error ts)"

text \<open>The loop over the tiers: what the interval from \<open>s\<close> to \<open>e\<close> of the sales is charged.\<close>

fun segment_end :: "usd \<Rightarrow> fee_tier list \<Rightarrow> usd" where
  "segment_end e [] = e"
| "segment_end e (u # us) = min e (ft_min u)"

fun tier_total :: "usd \<Rightarrow> usd \<Rightarrow> fee_tier list \<Rightarrow> usd" where
  "tier_total s e [] = 0"
| "tier_total s e (t # ts) =
     (let segment_start = max s (ft_min t); stop = segment_end e ts
      in (if stop \<le> segment_start then 0 else (stop - segment_start) * of_int (ft_bps t) / 10000)
         + tier_total s e ts)"

definition start_amount :: "string \<Rightarrow> usd \<Rightarrow> fee_error + usd" where
  "start_amount basis cumulative =
     (if basis \<in> {''current_order_amount'', ''order_amount'', []} then Inr 0
      else if basis = ''publisher_cumulative_sales'' then Inr (round_amount (max cumulative 0))
      else Inl (UnsupportedBasis basis))"

definition calculate_segmented_platform_fee :: "string \<Rightarrow> fee_tier list \<Rightarrow> usd \<Rightarrow> usd \<Rightarrow> fee_error + usd" where
  "calculate_segmented_platform_fee basis tiers0 order_amount cumulative =
     (let tiers = (case normalize_platform_fee_tiers tiers0 of [] \<Rightarrow> standard_tiers | ts \<Rightarrow> ts)
      in case tiers_error tiers of Some e \<Rightarrow> Inl e | None \<Rightarrow>
         (case start_amount basis cumulative of Inl e \<Rightarrow> Inl e | Inr s \<Rightarrow>
            (let e = round_amount (s + order_amount)
             in if e \<le> s then Inr 0 else Inr (round_amount (tier_total s e tiers)))))"

record order_amounts =
  oa_gross :: usd
  oa_fee :: usd
  oa_net :: usd

definition calculate_order_amounts :: "string \<Rightarrow> fee_tier list \<Rightarrow> usd \<Rightarrow> usd \<Rightarrow> fee_error + order_amounts" where
  "calculate_order_amounts basis tiers order_amount cumulative =
     (let gross = round_amount order_amount
      in if gross \<le> 0 then Inl OrderAmountNotPositive
         else case calculate_segmented_platform_fee basis tiers gross cumulative of
                Inl e \<Rightarrow> Inl e
              | Inr fee \<Rightarrow> Inr \<lparr>oa_gross = gross, oa_fee = fee, oa_net = round_amount (gross - fee)\<rparr>)"

subsection \<open>The disclosed tiers\<close>

record tier_segment =
  rt_name :: string
  rt_label :: string
  rt_min :: usd
  rt_percent :: usd

definition revenue_tier_segments :: "tier_segment list" where
  "revenue_tier_segments =
     [\<lparr>rt_name = ''tier_1'', rt_label = ''Tier 1'', rt_min = 0, rt_percent = 30\<rparr>,
      \<lparr>rt_name = ''tier_2'', rt_label = ''Tier 2'', rt_min = 1000, rt_percent = 20\<rparr>,
      \<lparr>rt_name = ''tier_3'', rt_label = ''Tier 3'', rt_min = 10000, rt_percent = 15\<rparr>,
      \<lparr>rt_name = ''tier_4'', rt_label = ''Tier 4'', rt_min = 100000, rt_percent = 10\<rparr>]"

text \<open>The loop with its two early exits.\<close>

fun segmented_total :: "usd \<Rightarrow> tier_segment list \<Rightarrow> usd" where
  "segmented_total amount [] = 0"
| "segmented_total amount (t # ts) =
     (if amount \<le> rt_min t then 0
      else
        (let segment = (case ts of [] \<Rightarrow> amount | u # us \<Rightarrow> min amount (rt_min u)) - rt_min t;
             charged = (if 0 < segment then segment * rt_percent t / 100 else 0)
         in if (case ts of [] \<Rightarrow> True | u # us \<Rightarrow> amount < rt_min u) then charged
            else charged + segmented_total amount ts))"

definition segmented_marketplace_platform_fee :: "usd \<Rightarrow> usd" where
  "segmented_marketplace_platform_fee amount =
     (if amount \<le> 0 then 0 else round_amount (segmented_total amount revenue_tier_segments))"

definition effective_fee_percent :: "usd \<Rightarrow> usd \<Rightarrow> usd" where
  "effective_fee_percent fee sales = (if sales \<le> 0 then 0 else round_amount (fee * 100 / sales))"

record tier_disclosure =
  td_current :: string
  td_label :: string
  td_sales :: usd
  td_fee :: usd
  td_net :: usd
  td_fee_percent :: usd
  td_share_percent :: usd
  td_effective :: usd
  td_next_at :: usd
  td_to_next :: usd
  td_net_at_next :: usd
  td_increase :: usd

text \<open>The last tier reached, with the tiers after it; the first tier is where the scan starts.\<close>

fun current_tier :: "usd \<Rightarrow> tier_segment \<times> tier_segment list \<Rightarrow> tier_segment list \<Rightarrow> tier_segment \<times> tier_segment list" where
  "current_tier sales c [] = c"
| "current_tier sales c (t # ts) = current_tier sales (if rt_min t \<le> sales then (t, ts) else c) ts"

definition revenue_tier_disclosure :: "usd \<Rightarrow> tier_disclosure" where
  "revenue_tier_disclosure monthly =
     (let sales = round_amount (max monthly 0);
          (current, later) = current_tier sales (hd revenue_tier_segments, tl revenue_tier_segments) revenue_tier_segments;
          fee = segmented_marketplace_platform_fee sales;
          net = round_amount (sales - fee);
          d = \<lparr>td_current = rt_name current, td_label = rt_label current, td_sales = sales, td_fee = fee, td_net = net,
               td_fee_percent = rt_percent current, td_share_percent = 100 - rt_percent current,
               td_effective = effective_fee_percent fee sales,
               td_next_at = 0, td_to_next = 0, td_net_at_next = 0, td_increase = 0\<rparr>
      in case later of
           [] \<Rightarrow> d
         | u # us \<Rightarrow>
             (let net_at_next = round_amount (rt_min u - segmented_marketplace_platform_fee (rt_min u))
              in d\<lparr>td_next_at := rt_min u, td_to_next := max 0 (round_amount (rt_min u - sales)),
                   td_net_at_next := net_at_next, td_increase := max 0 (round_amount (net_at_next - net))\<rparr>))"

subsection \<open>The fee of an interval\<close>

text \<open>What a tier takes of an interval is additive: the clipped length of the interval.\<close>

lemma clip_additive:
  fixes s m e lo hi :: usd
  assumes "s \<le> m" "m \<le> e"
  shows "max 0 (min e hi - max s lo) = max 0 (min m hi - max s lo) + max 0 (min e hi - max m lo)"
  using assms by (simp add: min_def max_def)

lemma tier_total_Cons:
  "tier_total s e (t # ts) = max 0 (segment_end e ts - max s (ft_min t)) * of_int (ft_bps t) / 10000 + tier_total s e ts"
  by (simp add: Let_def max_def)

lemma segment_clip:
  assumes "s \<le> m" "m \<le> e"
  shows "max 0 (segment_end e ts - max s lo) = max 0 (segment_end m ts - max s lo) + max 0 (segment_end e ts - max m lo)"
proof (cases ts)
  case Nil
  with assms show ?thesis by (simp add: min_def max_def)
next
  case (Cons u us)
  with clip_additive [OF assms] show ?thesis by simp
qed

lemma tier_total_additive:
  assumes "s \<le> m" "m \<le> e"
  shows "tier_total s e ts = tier_total s m ts + tier_total m e ts"
proof (induction ts)
  case (Cons t ts)
  have "max 0 (segment_end e ts - max s (ft_min t)) * of_int (ft_bps t) / 10000
      = max 0 (segment_end m ts - max s (ft_min t)) * of_int (ft_bps t) / 10000
        + max 0 (segment_end e ts - max m (ft_min t)) * of_int (ft_bps t) / (10000 :: rat)"
    unfolding segment_clip [OF assms] by (simp add: algebra_simps add_divide_distrib)
  with Cons show ?case by (simp only: tier_total_Cons)
qed simp

lemma tiers_error_None:
  "tiers_error ts = None \<longleftrightarrow> (\<forall>t \<in> set ts. 0 \<le> ft_min t \<and> 0 \<le> ft_bps t \<and> ft_bps t \<le> 10000)"
  by (induction ts) auto

lemma tier_total_nonneg:
  "tiers_error ts = None \<Longrightarrow> 0 \<le> tier_total s e ts"
  by (induction ts)
    (auto simp: tier_total_Cons simp del: tier_total.simps(2) split: if_splits
      intro!: add_nonneg_nonneg divide_nonneg_nonneg mult_nonneg_nonneg)

lemma part_le:
  fixes x :: usd
  assumes "0 \<le> b" "b \<le> 10000" "0 \<le> x"
  shows "x * of_int b / 10000 \<le> x"
proof -
  have "x * of_int b \<le> x * 10000" using assms by (intro mult_left_mono) auto
  then show ?thesis by simp
qed

text \<open>Sorted tiers charge disjoint parts of the interval, so never more than the interval.\<close>

lemma tier_total_le:
  assumes "sorted (List.map ft_min (t # ts))" "tiers_error (t # ts) = None" "s \<le> e"
  shows "tier_total s e (t # ts) \<le> max 0 (e - max s (ft_min t))"
  using assms
proof (induction ts arbitrary: t)
  case Nil
  then show ?case using part_le [of "ft_bps t" "e - max s (ft_min t)"] by (simp add: Let_def split: if_splits)
next
  case (Cons u us)
  have rest: "tier_total s e (u # us) \<le> max 0 (e - max s (ft_min u))"
    using Cons.prems by (intro Cons.IH) (auto split: if_splits)
  have "0 \<le> ft_bps t" "ft_bps t \<le> 10000" using Cons.prems by (auto split: if_splits)
  then have first: "max 0 (min e (ft_min u) - max s (ft_min t)) * of_int (ft_bps t) / 10000
      \<le> max 0 (min e (ft_min u) - max s (ft_min t))"
    by (intro part_le) auto
  have "ft_min t \<le> ft_min u" using Cons.prems by simp
  then have "max 0 (min e (ft_min u) - max s (ft_min t)) + max 0 (e - max s (ft_min u)) \<le> max 0 (e - max s (ft_min t))"
    using Cons.prems(3) by (simp add: min_def max_def)
  with rest first show ?case unfolding tier_total_Cons [of s e t] segment_end.simps by linarith
qed

lemma normalized_sorted: "sorted (List.map ft_min (normalize_platform_fee_tiers ts))"
  by (simp add: normalize_platform_fee_tiers_def)

lemma fee_within:
  assumes fee: "calculate_segmented_platform_fee basis tiers x cumulative = Inr fee" and x: "cents x" "0 \<le> x"
  shows "0 \<le> fee \<and> fee \<le> x \<and> cents fee"
proof -
  let ?ts = "case normalize_platform_fee_tiers tiers of [] \<Rightarrow> standard_tiers | ts \<Rightarrow> ts"
  from fee obtain s where ok: "tiers_error ?ts = None" and s: "start_amount basis cumulative = Inr s"
    and def: "fee = (if round_amount (s + x) \<le> s then 0 else round_amount (tier_total s (round_amount (s + x)) ?ts))"
    by (auto simp: calculate_segmented_platform_fee_def Let_def split: option.splits sum.splits if_splits)
  have sc: "cents s" using s by (auto simp: start_amount_def split: if_splits)
  then have e: "round_amount (s + x) = s + x" using x(1) by (simp add: cents_add)
  have sorted: "sorted (List.map ft_min ?ts)"
    using normalized_sorted [of tiers] by (auto simp: standard_tiers_def split: list.splits)
  obtain t ts where ts: "?ts = t # ts" by (cases "normalize_platform_fee_tiers tiers") (auto simp: standard_tiers_def)
  have "tier_total s (s + x) ?ts \<le> max 0 (s + x - max s (ft_min t))"
    using tier_total_le [of t ts s "s + x"] ok sorted x(2) unfolding ts by simp
  also have "\<dots> \<le> x" using x(2) by (simp add: max_def)
  finally have "round_amount (tier_total s (s + x) ?ts) \<le> round_amount x"
    using tier_total_nonneg [OF ok, of s "s + x"] by (intro round_mono)
  with tier_total_nonneg [OF ok, of s "s + x"] x show ?thesis unfolding def e by simp
qed

lemma order_amounts_core:
  assumes "calculate_order_amounts basis tiers x cumulative = Inr a"
  shows "oa_gross a = round_amount x \<and> 0 < oa_gross a \<and> 0 \<le> oa_fee a \<and> 0 \<le> oa_net a
    \<and> oa_fee a + oa_net a = oa_gross a \<and> cents (oa_gross a) \<and> cents (oa_fee a) \<and> cents (oa_net a)"
proof -
  from assms obtain fee where pos: "0 < round_amount x" and a: "a = \<lparr>oa_gross = round_amount x, oa_fee = fee, oa_net = round_amount (round_amount x - fee)\<rparr>"
    and fee: "calculate_segmented_platform_fee basis tiers (round_amount x) cumulative = Inr fee"
    by (auto simp: calculate_order_amounts_def Let_def split: sum.splits if_splits)
  from fee_within [OF fee] pos have "0 \<le> fee" "fee \<le> round_amount x" "cents fee" by simp_all
  with pos show ?thesis by (simp add: a cents_diff)
qed

subsection \<open>The disclosure against the charge\<close>

text \<open>The disclosed tiers as fee tiers of the settlement service.\<close>

definition disclosed_fee_tiers :: "fee_tier list" where
  "disclosed_fee_tiers =
     [\<lparr>ft_min = 0, ft_bps = 3000\<rparr>, \<lparr>ft_min = 1000, ft_bps = 2000\<rparr>,
      \<lparr>ft_min = 10000, ft_bps = 1500\<rparr>, \<lparr>ft_min = 100000, ft_bps = 1000\<rparr>]"

lemma disclosed_total: "0 < x \<Longrightarrow> segmented_total x revenue_tier_segments = tier_total 0 x disclosed_fee_tiers"
  by (simp add: revenue_tier_segments_def disclosed_fee_tiers_def Let_def min_def max_def)

lemma disclosed_valid: "normalize_platform_fee_tiers disclosed_fee_tiers = disclosed_fee_tiers" "tiers_error disclosed_fee_tiers = None"
  by (simp_all add: normalize_platform_fee_tiers_def disclosed_fee_tiers_def)

subsection \<open>Properties\<close>

text \<open>
  An accepted order splits without loss: the platform fee and the publisher's part are whole
  cents between zero and the gross amount and add up to it, for every basis, tiers and sales.
\<close>

theorem order_amounts_balance:
  assumes "calculate_order_amounts basis tiers x cumulative = Inr a"
  shows "oa_gross a = round_amount x \<and> 0 < oa_gross a \<and> 0 \<le> oa_fee a \<and> 0 \<le> oa_net a
    \<and> oa_fee a + oa_net a = oa_gross a \<and> cents (oa_gross a) \<and> cents (oa_fee a) \<and> cents (oa_net a)"
  using assms by (rule order_amounts_core)

lemma sample_order_amounts:
  "calculate_order_amounts ''publisher_cumulative_sales'' disclosed_fee_tiers 250 900
    = Inr \<lparr>oa_gross = 250, oa_fee = 60, oa_net = 190\<rparr>"
  by (simp add: calculate_order_amounts_def calculate_segmented_platform_fee_def start_amount_def disclosed_fee_tiers_def
      normalize_platform_fee_tiers_def Let_def)

theorem order_amounts_balance_witness:
  "oa_fee \<lparr>oa_gross = 250, oa_fee = 60, oa_net = 190\<rparr> + oa_net \<lparr>oa_gross = 250, oa_fee = 60, oa_net = 190\<rparr> = 250"
  using order_amounts_balance [OF sample_order_amounts] by simp

text \<open>
  The fee of an interval of sales does not depend on how the sales are cut into orders: what
  the tiers take between two amounts is the sum over the parts, whatever the tiers are.
\<close>

theorem fee_is_path_independent:
  assumes "sorted (s # cuts @ [e])"
  shows "tier_total s e ts = sum_list (List.map (\<lambda>(a, b). tier_total a b ts) (zip (s # cuts) (cuts @ [e])))"
  using assms
proof (induction cuts arbitrary: s)
  case (Cons m cuts)
  then have "tier_total m e ts = sum_list (List.map (\<lambda>(a, b). tier_total a b ts) (zip (m # cuts) (cuts @ [e])))" by simp
  moreover have "s \<le> m" "m \<le> e" using Cons.prems by auto
  ultimately show ?case using tier_total_additive [of s m e ts] by simp
qed simp

theorem fee_is_path_independent_witness:
  "tier_total 0 12000 disclosed_fee_tiers = tier_total 0 500 disclosed_fee_tiers + tier_total 500 12000 disclosed_fee_tiers"
  using fee_is_path_independent [of 0 "[500]" 12000 disclosed_fee_tiers] by simp

text \<open>
  The two fee computations agree: what a publisher is shown for an amount of sales is what the
  settlement service, given the disclosed tiers, charges an order of that amount. The service as
  it is constructed has other tiers: it charges 100.00 on sales of 500.00 where 150.00 is shown.
\<close>

theorem disclosed_fee_is_the_configured_one:
  assumes "cents x"
  shows "calculate_segmented_platform_fee ''order_amount'' disclosed_fee_tiers x c = Inr (segmented_marketplace_platform_fee x)
    \<and> calculate_segmented_platform_fee ''order_amount'' standard_tiers 500 c = Inr 100
    \<and> segmented_marketplace_platform_fee 500 = 150"
proof -
  have disclosed: "disclosed_fee_tiers \<noteq> []" by (simp add: disclosed_fee_tiers_def)
  have e: "round_amount (0 + x) = x" using assms by simp
  have "calculate_segmented_platform_fee ''order_amount'' disclosed_fee_tiers x c = Inr (segmented_marketplace_platform_fee x)"
    using e disclosed disclosed_total [of x]
    by (cases "x \<le> 0")
      (simp_all add: calculate_segmented_platform_fee_def segmented_marketplace_platform_fee_def start_amount_def
        disclosed_valid list.case_eq_if)
  moreover have "calculate_segmented_platform_fee ''order_amount'' standard_tiers 500 c = Inr 100"
    by (simp add: calculate_segmented_platform_fee_def start_amount_def standard_tiers_def normalize_platform_fee_tiers_def Let_def)
  moreover have "segmented_marketplace_platform_fee 500 = 150"
    by (simp add: segmented_marketplace_platform_fee_def revenue_tier_segments_def Let_def)
  ultimately show ?thesis by blast
qed

theorem disclosed_fee_is_the_configured_one_witness:
  "calculate_segmented_platform_fee ''order_amount'' disclosed_fee_tiers 12000 0 = Inr (segmented_marketplace_platform_fee 12000)"
  using disclosed_fee_is_the_configured_one [of 12000 0] by simp

end
