(* ===== verification/Marketplace_Settlement.thy ===== *)
theory Marketplace_Settlement
  imports Marketplace_Fees "HOL-Library.Product_Lexorder"
begin

text \<open>
  Marketplace settlement: \<open>src/server/internal/marketplace/settlement.go\<close>. A paid install is an
  order with a payment intent; the provider's events complete it (install, settlement of the
  publisher) or refund it; settlements are collected into payouts that a payout provider executes.

  The tables are lists of rows in one record, their unique indexes the ones the statements name
  (\<open>agent_installs\<close> on organization, agent and user, as the \<open>ON CONFLICT\<close> clause and the test
  schema have it). A method takes an environment: the clock, the generator of identifiers (a kind
  and a running number), the driver calls that fail, the answers of the readiness guard at the
  points where it is asked, and the answer of the payout provider to a request. A transaction
  works on a copy of the tables; \<open>mp_tx\<close> is \<open>BeginTx\<close>, the deferred \<open>Rollback\<close> and \<open>Commit\<close>.
  Foreign keys are left out but for the version of an order, which is the caller's. Metrics,
  spans and the prefixes of error messages are left out.
\<close>

subsection \<open>Rows\<close>

record mp_agent =
  ag_id :: string
  ag_org :: string
  ag_owner :: string
  ag_visibility :: string
  ag_status :: string
  ag_pricing :: string
  ag_amount :: "usd option"
  ag_installs :: int

record mp_version =
  av_id :: string
  av_agent :: string
  av_status :: string
  av_created :: gotime

datatype meta_value = MetaNull | MetaText string | MetaTime gotime

type_synonym metadata = "string \<rightharpoonup> meta_value"

record mp_intent =
  pi_id :: string
  pi_provider :: string
  pi_org :: string
  pi_user :: string
  pi_kind :: string
  pi_amount :: usd
  pi_currency :: string
  pi_status :: string
  pi_checkout :: "string option"
  pi_payment :: "string option"
  pi_refunded :: usd
  pi_meta :: metadata
  pi_created :: gotime
  pi_updated :: gotime
  pi_package :: "string option"
  pi_subscription :: "string option"
  pi_invoice :: "string option"

record mp_order =
  mo_id :: string
  mo_buyer_org :: string
  mo_buyer :: string
  mo_publisher_org :: string
  mo_publisher :: string
  mo_agent :: string
  mo_version :: "string option"
  mo_intent :: string
  mo_checkout :: "string option"
  mo_payment :: "string option"
  mo_install :: "string option"
  mo_gross :: usd
  mo_fee :: usd
  mo_net :: usd
  mo_refunded :: usd
  mo_currency :: string
  mo_status :: string
  mo_paid_at :: "gotime option"
  mo_created :: gotime
  mo_updated :: gotime

record mp_settlement =
  ms_id :: string
  ms_order :: string
  ms_publisher_org :: string
  ms_publisher :: string
  ms_agent :: string
  ms_gross :: usd
  ms_fee :: usd
  ms_net :: usd
  ms_refunded :: usd
  ms_payout :: "string option"
  ms_status :: string
  ms_hold :: "gotime option"
  ms_created :: gotime
  ms_updated :: gotime

record mp_payout =
  po_id :: string
  po_org :: string
  po_user :: string
  po_amount :: usd
  po_currency :: string
  po_provider :: string
  po_ref :: "string option"
  po_status :: string
  po_meta :: metadata
  po_created :: gotime
  po_updated :: gotime

record mp_install =
  in_id :: string
  in_agent :: string
  in_user :: string
  in_org :: string
  in_version :: "string option"
  in_at :: gotime

record lifecycle_event =
  le_key :: string
  le_provider :: string
  le_event :: string
  le_type :: string
  le_org :: string
  le_user :: string
  le_intent :: "string option"
  le_entity_type :: string
  le_entity :: string
  le_state :: string
  le_created :: gotime

record mp_db =
  md_agents :: "mp_agent list"
  md_versions :: "mp_version list"
  md_intents :: "mp_intent list"
  md_orders :: "mp_order list"
  md_settlements :: "mp_settlement list"
  md_payouts :: "mp_payout list"
  md_installs :: "mp_install list"
  md_events :: "lifecycle_event list"

subsection \<open>Requests, service, environment\<close>

record paid_checkout =
  pc_buyer_org :: string
  pc_buyer :: string
  pc_agent :: string
  pc_version :: string
  pc_provider :: string
  pc_currency :: string

record checkout_completed =
  cc_event :: string
  cc_order :: string
  cc_intent :: string
  cc_checkout :: string
  cc_payment :: string

record mp_refund =
  mr_event :: string
  mr_refund :: string
  mr_intent :: string
  mr_payment :: string
  mr_amount :: usd

record payout_request =
  pr_payout :: string
  pr_org :: string
  pr_user :: string
  pr_amount :: usd
  pr_currency :: string
  pr_settlements :: "string list"

record payout_event =
  pv_provider :: string
  pv_event :: string
  pv_type :: string
  pv_payout :: string
  pv_ref :: string
  pv_status :: string
  pv_reason :: string

record mp_service =
  sv_basis :: string
  sv_tiers :: "fee_tier list"
  sv_min_amount :: usd
  sv_min_cycle :: duration
  sv_provider :: "string option"

datatype mp_call =
    MpBegin | MpCommit | MpLoadAgent | MpSales | MpInsertIntent | MpInsertOrder | MpLoadOrder
  | MpInsertEvent | MpUpdateIntent | MpInsertInstall | MpInstallRows | MpFindInstall | MpInstallCount
  | MpUpdateOrder | MpInsertSettlement | MpLoadSettlement | MpUpdateSettlement | MpInsertPayout
  | MpLoadPayout | MpUpdatePayout | MpListQueued | MpQueryDue | MpReadOrder | MpReadSettlement
  | MpReadPayout string | MpIntentSettlements string | MpRecord string

datatype guard_point = GuardEntry | GuardGroup nat | GuardDispatch string

record mp_env =
  me_now :: gotime
  me_id :: "string \<Rightarrow> nat \<Rightarrow> string"
  me_fault :: "mp_call \<Rightarrow> bool"
  me_settlement_ready :: bool
  me_payout_ready :: "guard_point \<Rightarrow> bool"
  me_answer :: "payout_request \<Rightarrow> string option"

datatype mp_error =
    ReadinessDenied | FieldsRequired | AgentNotFound | AgentNotInstallable | AgentNotPaid | NullColumn
  | BadAmounts fee_error | MpFault mp_call | DuplicateRow | MissingVersion | RowNotFound
  | PayoutProviderRequired | ProviderNameRequired | MinimumNotMet | BadTransition string string
  | UnsupportedEvent string | WrongProvider | WrongProviderPayout | ProviderRefused | ProviderRefRequired

subsection \<open>Steps that may fail\<close>

definition db_call :: "mp_env \<Rightarrow> mp_call \<Rightarrow> mp_error + unit" where
  "db_call env c = fail_if (me_fault env c) (MpFault c)"

definition mp_tx :: "mp_env \<Rightarrow> (mp_db \<Rightarrow> mp_error + (mp_db \<times> 'a)) \<Rightarrow> mp_db \<Rightarrow> mp_db \<times> (mp_error + 'a)" where
  "mp_tx env body db =
     (if me_fault env MpBegin then (db, Inl (MpFault MpBegin))
      else case body db of
             Inl e \<Rightarrow> (db, Inl e)
           | Inr (tx, x) \<Rightarrow> if me_fault env MpCommit then (db, Inl (MpFault MpCommit)) else (tx, Inr x))"

definition normalize_marketplace_currency :: "string \<Rightarrow> string" where
  "normalize_marketplace_currency s = lower_or ''usd'' s"

datatype settlement_option =
    OptTiers string "fee_tier list" | OptMinimum usd duration | OptProvider string

fun apply_settlement_option :: "settlement_option \<Rightarrow> mp_service \<Rightarrow> mp_service" where
  "apply_settlement_option (OptTiers basis tiers) sv = sv\<lparr>sv_basis := basis, sv_tiers := normalize_platform_fee_tiers tiers\<rparr>"
| "apply_settlement_option (OptMinimum amount cycle) sv = sv\<lparr>sv_min_amount := round_amount amount, sv_min_cycle := cycle\<rparr>"
| "apply_settlement_option (OptProvider name) sv = sv\<lparr>sv_provider := Some name\<rparr>"

definition new_settlement_service :: "settlement_option list \<Rightarrow> mp_service" where
  "new_settlement_service opts =
     (let sv = fold apply_settlement_option opts
                 \<lparr>sv_basis = ''current_order_amount'', sv_tiers = standard_tiers,
                  sv_min_amount = 0, sv_min_cycle = 0, sv_provider = None\<rparr>
      in if sv_tiers sv = [] then sv\<lparr>sv_tiers := standard_tiers\<rparr> else sv)"

subsection \<open>Reads\<close>

text \<open>\<open>marketplace_orders mo JOIN payment_intents pi ON pi.id = mo.payment_intent_id\<close>.\<close>

definition order_join :: "mp_db \<Rightarrow> (mp_order \<times> mp_intent) list" where
  "order_join db =
     concat (List.map (\<lambda>mo. case sql_select (\<lambda>p. pi_id p = mo_intent mo) (md_intents db) of
                            None \<Rightarrow> [] | Some p \<Rightarrow> [(mo, p)]) (md_orders db))"

definition load_order :: "mp_env \<Rightarrow> mp_db \<Rightarrow> string \<Rightarrow> mp_error + (mp_order \<times> mp_intent)" where
  "load_order env db oid =
     try_step (db_call env MpReadOrder) (\<lambda>_. or_error RowNotFound (sql_select (\<lambda>(mo, p). mo_id mo = oid) (order_join db)))"

definition load_order_for_update :: "mp_env \<Rightarrow> mp_db \<Rightarrow> string \<Rightarrow> string \<Rightarrow> mp_error + (mp_order \<times> mp_intent)" where
  "load_order_for_update env tx oid intent =
     try_step (db_call env MpLoadOrder)
       (\<lambda>_. or_error RowNotFound
          (sql_select (\<lambda>(mo, p). mo_intent mo = intent \<and> (oid = [] \<or> mo_id mo = oid)) (order_join tx)))"

definition load_order_for_refund :: "mp_env \<Rightarrow> mp_db \<Rightarrow> string \<Rightarrow> string \<Rightarrow> mp_error + (mp_order \<times> mp_intent)" where
  "load_order_for_refund env tx intent payment =
     try_step (db_call env MpLoadOrder)
       (\<lambda>_. or_error RowNotFound
          (sql_select (\<lambda>(mo, p). (intent \<noteq> [] \<and> mo_intent mo = intent)
                        \<or> (payment \<noteq> [] \<and> pi_payment p = Some payment)) (order_join tx)))"

definition load_settlement_by_order :: "mp_env \<Rightarrow> mp_db \<Rightarrow> string \<Rightarrow> mp_error + mp_settlement" where
  "load_settlement_by_order env db oid =
     try_step (db_call env MpReadSettlement) (\<lambda>_. or_error RowNotFound (sql_select (\<lambda>s. ms_order s = oid) (md_settlements db)))"

definition load_payout :: "mp_env \<Rightarrow> mp_db \<Rightarrow> string \<Rightarrow> mp_error + mp_payout" where
  "load_payout env db pid =
     try_step (db_call env (MpReadPayout pid)) (\<lambda>_. or_error RowNotFound (sql_select (\<lambda>p. po_id p = pid) (md_payouts db)))"

text \<open>The query prefers the payout whose own identifier was given.\<close>

definition load_payout_for_lifecycle :: "mp_env \<Rightarrow> mp_db \<Rightarrow> string \<Rightarrow> string \<Rightarrow> string \<Rightarrow> mp_error + mp_payout" where
  "load_payout_for_lifecycle env tx pid ref provider =
     try_step (db_call env MpLoadPayout)
       (\<lambda>_. or_error RowNotFound
          (case sql_select (\<lambda>p. pid \<noteq> [] \<and> po_id p = pid) (md_payouts tx) of
             Some p \<Rightarrow> Some p
           | None \<Rightarrow> sql_select (\<lambda>p. ref \<noteq> [] \<and> po_ref p = Some ref \<and> (provider = [] \<or> po_provider p = provider))
                       (md_payouts tx)))"

definition publisher_cumulative_sales :: "mp_db \<Rightarrow> string \<Rightarrow> string \<Rightarrow> usd" where
  "publisher_cumulative_sales tx org user =
     round_amount (sum_list (List.map mo_gross
       (filter (\<lambda>mo. mo_publisher_org mo = org \<and> mo_publisher mo = user
                  \<and> mo_status mo \<in> {''paid'', ''partially_refunded'', ''refunded''}) (md_orders tx))))"

subsection \<open>Lifecycle events\<close>

definition transition_key :: "string \<Rightarrow> string \<Rightarrow> string \<Rightarrow> string \<Rightarrow> string" where
  "transition_key provider event kind entity =
     join_with '':'' [lower_or ''stripe'' provider, event, kind, entity]"

type_synonym row_id = string

definition lifecycle_event_of ::
  "mp_env \<Rightarrow> string \<Rightarrow> string \<Rightarrow> string \<Rightarrow> string \<Rightarrow> row_id \<Rightarrow> row_id \<Rightarrow> row_id \<Rightarrow> string \<Rightarrow> row_id \<Rightarrow> string \<Rightarrow> lifecycle_event" where
  "lifecycle_event_of env provider key event type org user intent entity_type entity state =
     \<lparr>le_key = key, le_provider = lower_or ''stripe'' provider, le_event = event, le_type = type,
      le_org = org, le_user = user, le_intent = nullif_empty intent, le_entity_type = entity_type,
      le_entity = entity, le_state = state, le_created = me_now env\<rparr>"

text \<open>\<open>ON CONFLICT (transition_key) DO NOTHING\<close>: the flag says whether the row was inserted.\<close>

definition insert_transition :: "mp_env \<Rightarrow> lifecycle_event \<Rightarrow> mp_db \<Rightarrow> mp_error + (mp_db \<times> bool)" where
  "insert_transition env e tx =
     try_step (db_call env MpInsertEvent)
       (\<lambda>_. Inr (if list_ex (\<lambda>x. le_key x = le_key e) (md_events tx) then (tx, False)
                 else (tx\<lparr>md_events := md_events tx @ [e]\<rparr>, True)))"

subsection \<open>Checkout\<close>

definition latest_approved_version :: "mp_db \<Rightarrow> string \<Rightarrow> mp_version option" where
  "latest_approved_version db aid =
     fold (\<lambda>v best. case best of None \<Rightarrow> Some v | Some b \<Rightarrow> if av_created b < av_created v then Some v else best)
       (filter (\<lambda>v. av_agent v = aid \<and> av_status v = ''approved'') (md_versions db)) None"

definition checkout_version :: "mp_db \<Rightarrow> paid_checkout \<Rightarrow> string option" where
  "checkout_version db r =
     (if pc_version r \<noteq> [] then Some (pc_version r) else map_option av_id (latest_approved_version db (pc_agent r)))"

definition load_agent :: "mp_env \<Rightarrow> mp_db \<Rightarrow> string \<Rightarrow> mp_error + (mp_agent \<times> usd)" where
  "load_agent env tx aid =
     try_step (db_call env MpLoadAgent)
       (\<lambda>_. try_step (or_error AgentNotFound (sql_select (\<lambda>a. ag_id a = aid) (md_agents tx)))
         (\<lambda>a. try_step (or_error NullColumn (ag_amount a)) (\<lambda>price. Inr (a, price))))"

definition checkout_sales :: "mp_env \<Rightarrow> mp_service \<Rightarrow> mp_agent \<Rightarrow> mp_db \<Rightarrow> mp_error + usd" where
  "checkout_sales env sv a tx =
     (if sv_basis sv = ''publisher_cumulative_sales''
      then try_step (db_call env MpSales) (\<lambda>_. Inr (publisher_cumulative_sales tx (ag_org a) (ag_owner a)))
      else Inr 0)"

definition amounts_step :: "mp_service \<Rightarrow> usd \<Rightarrow> usd \<Rightarrow> mp_error + order_amounts" where
  "amounts_step sv price sales =
     (case calculate_order_amounts (sv_basis sv) (sv_tiers sv) price sales of Inl e \<Rightarrow> Inl (BadAmounts e) | Inr amt \<Rightarrow> Inr amt)"

definition insert_intent :: "mp_env \<Rightarrow> mp_intent \<Rightarrow> mp_db \<Rightarrow> mp_error + mp_db" where
  "insert_intent env p tx =
     try_step (db_call env MpInsertIntent)
       (\<lambda>_. try_step (fail_if (list_ex (\<lambda>q. pi_id q = pi_id p) (md_intents tx)) DuplicateRow)
         (\<lambda>_. Inr (tx\<lparr>md_intents := md_intents tx @ [p]\<rparr>)))"

definition insert_order :: "mp_env \<Rightarrow> mp_order \<Rightarrow> mp_db \<Rightarrow> mp_error + mp_db" where
  "insert_order env mo tx =
     try_step (db_call env MpInsertOrder)
       (\<lambda>_. try_step (fail_if (list_ex (\<lambda>x. mo_id x = mo_id mo \<or> mo_intent x = mo_intent mo) (md_orders tx)) DuplicateRow)
         (\<lambda>_. try_step (fail_if (mo_version mo \<noteq> None \<and> \<not> list_ex (\<lambda>v. Some (av_id v) = mo_version mo) (md_versions tx)) MissingVersion)
           (\<lambda>_. Inr (tx\<lparr>md_orders := md_orders tx @ [mo]\<rparr>))))"

definition checkout_intent :: "mp_env \<Rightarrow> paid_checkout \<Rightarrow> mp_agent \<Rightarrow> string \<Rightarrow> usd \<Rightarrow> mp_intent" where
  "checkout_intent env r a version gross =
     \<lparr>pi_id = me_id env ''intent'' 0, pi_provider = lower_or ''stripe'' (pc_provider r), pi_org = pc_buyer_org r, pi_user = pc_buyer r,
      pi_kind = ''marketplace_install'', pi_amount = dec6 gross, pi_currency = normalize_marketplace_currency (pc_currency r),
      pi_status = ''pending'', pi_checkout = None, pi_payment = None, pi_refunded = 0,
      pi_meta = [''checkout_kind'' \<mapsto> MetaText ''marketplace_install'', ''marketplace_order_id'' \<mapsto> MetaText (me_id env ''order'' 0),
                 ''agent_id'' \<mapsto> MetaText (ag_id a), ''version_id'' \<mapsto> MetaText version,
                 ''publisher_user_id'' \<mapsto> MetaText (ag_owner a), ''publisher_organization_id'' \<mapsto> MetaText (ag_org a)],
      pi_created = me_now env, pi_updated = me_now env, pi_package = None, pi_subscription = None, pi_invoice = None\<rparr>"

definition checkout_order :: "mp_env \<Rightarrow> paid_checkout \<Rightarrow> mp_agent \<Rightarrow> string \<Rightarrow> order_amounts \<Rightarrow> mp_order" where
  "checkout_order env r a version amt =
     \<lparr>mo_id = me_id env ''order'' 0, mo_buyer_org = pc_buyer_org r, mo_buyer = pc_buyer r,
      mo_publisher_org = ag_org a, mo_publisher = ag_owner a, mo_agent = ag_id a, mo_version = nullif_empty version,
      mo_intent = me_id env ''intent'' 0, mo_checkout = None, mo_payment = None, mo_install = None,
      mo_gross = dec6 (oa_gross amt), mo_fee = dec6 (oa_fee amt), mo_net = dec6 (oa_net amt), mo_refunded = 0,
      mo_currency = normalize_marketplace_currency (pc_currency r), mo_status = ''pending_payment'', mo_paid_at = None,
      mo_created = me_now env, mo_updated = me_now env\<rparr>"

definition create_checkout_tx :: "mp_env \<Rightarrow> mp_service \<Rightarrow> paid_checkout \<Rightarrow> mp_db \<Rightarrow> mp_error + (mp_db \<times> string)" where
  "create_checkout_tx env sv r tx =
     try_step (load_agent env tx (pc_agent r)) (\<lambda>(a, price).
     try_step (fail_if (ag_status a \<noteq> ''approved'' \<or> ag_visibility a \<noteq> ''public'') AgentNotInstallable) (\<lambda>_.
     try_step (fail_if (ag_pricing a = ''free'' \<or> price \<le> 0) AgentNotPaid) (\<lambda>_.
     try_step (checkout_sales env sv a tx) (\<lambda>sales.
     try_step (amounts_step sv price sales) (\<lambda>amt.
     (let version = coalesce_empty (checkout_version tx r)
      in try_step (insert_intent env (checkout_intent env r a version (oa_gross amt)) tx) (\<lambda>tx1.
         try_step (insert_order env (checkout_order env r a version amt) tx1) (\<lambda>tx2.
         Inr (tx2, me_id env ''order'' 0)))))))))"

definition create_paid_install_checkout ::
  "mp_env \<Rightarrow> mp_service \<Rightarrow> paid_checkout \<Rightarrow> mp_db \<Rightarrow> mp_db \<times> (mp_error + (mp_order \<times> mp_intent))" where
  "create_paid_install_checkout env sv r db =
     (if \<not> me_settlement_ready env then (db, Inl ReadinessDenied)
      else if pc_buyer_org r = [] \<or> pc_buyer r = [] \<or> pc_agent r = [] then (db, Inl FieldsRequired)
      else case mp_tx env (create_checkout_tx env sv r) db of
             (db', Inl e) \<Rightarrow> (db', Inl e)
           | (db', Inr oid) \<Rightarrow> (db', load_order env db' oid))"

text \<open>An update of \<open>provider_checkout_session_id\<close> is subject to the column's unique index.\<close>

definition session_taken :: "string \<Rightarrow> string \<Rightarrow> mp_db \<Rightarrow> bool" where
  "session_taken intent session tx =
     (session \<noteq> [] \<and> list_ex (\<lambda>p. pi_id p = intent) (md_intents tx)
      \<and> list_ex (\<lambda>p. pi_id p \<noteq> intent \<and> pi_checkout p = Some session) (md_intents tx))"

definition set_session_tx :: "mp_env \<Rightarrow> string \<Rightarrow> string \<Rightarrow> string \<Rightarrow> mp_db \<Rightarrow> mp_error + (mp_db \<times> unit)" where
  "set_session_tx env oid intent session tx =
     try_step (db_call env MpUpdateOrder) (\<lambda>_.
     (let (os, n) = sql_update (\<lambda>mo. mo_id mo = oid \<and> mo_intent mo = intent)
                      (\<lambda>mo. mo\<lparr>mo_checkout := Some session, mo_updated := me_now env\<rparr>) (md_orders tx)
      in try_step (fail_if (n = 0) RowNotFound) (\<lambda>_.
         try_step (db_call env MpUpdateIntent) (\<lambda>_.
         try_step (fail_if (session_taken intent session tx) DuplicateRow) (\<lambda>_.
         Inr (tx\<lparr>md_orders := os,
                 md_intents := fst (sql_update (\<lambda>p. pi_id p = intent)
                   (\<lambda>p. p\<lparr>pi_checkout := Some session, pi_meta := (pi_meta p)(''checkout_session_id'' \<mapsto> MetaText session),
                          pi_updated := me_now env\<rparr>) (md_intents tx))\<rparr>, ()))))))"

definition set_checkout_session :: "mp_env \<Rightarrow> string \<Rightarrow> string \<Rightarrow> string \<Rightarrow> mp_db \<Rightarrow> mp_db \<times> (mp_error + unit)" where
  "set_checkout_session env oid intent session db =
     (if oid = [] \<or> intent = [] \<or> session = [] then (db, Inl FieldsRequired)
      else mp_tx env (set_session_tx env oid intent session) db)"

definition checkout_failed_tx :: "mp_env \<Rightarrow> string \<Rightarrow> string \<Rightarrow> string \<Rightarrow> mp_db \<Rightarrow> mp_error + (mp_db \<times> unit)" where
  "checkout_failed_tx env oid intent reason tx =
     try_step (db_call env MpUpdateOrder) (\<lambda>_.
     (let (os, n) = sql_update (\<lambda>mo. mo_id mo = oid \<and> mo_intent mo = intent \<and> mo_status mo = ''pending_payment'')
                      (\<lambda>mo. mo\<lparr>mo_status := ''failed'', mo_updated := me_now env\<rparr>) (md_orders tx)
      in try_step (fail_if (n = 0) RowNotFound) (\<lambda>_.
         try_step (db_call env MpUpdateIntent) (\<lambda>_.
         (let (ps, k) = sql_update (\<lambda>p. pi_id p = intent \<and> pi_status p = ''pending'')
                          (\<lambda>p. p\<lparr>pi_status := ''failed'',
                                 pi_meta := (if reason = [] then pi_meta p
                                             else (pi_meta p)(''checkout_failure_reason'' \<mapsto> MetaText reason)),
                                 pi_updated := me_now env\<rparr>) (md_intents tx)
          in try_step (fail_if (k = 0) RowNotFound) (\<lambda>_.
             Inr (tx\<lparr>md_orders := os, md_intents := ps\<rparr>, ())))))))"

definition mark_checkout_failed :: "mp_env \<Rightarrow> string \<Rightarrow> string \<Rightarrow> string \<Rightarrow> mp_db \<Rightarrow> mp_db \<times> (mp_error + unit)" where
  "mark_checkout_failed env oid intent reason db =
     (if oid = [] \<or> intent = [] then (db, Inl FieldsRequired)
      else mp_tx env (checkout_failed_tx env oid intent reason) db)"

subsection \<open>Completed checkouts\<close>

definition complete_intent :: "mp_env \<Rightarrow> string \<Rightarrow> checkout_completed \<Rightarrow> mp_db \<Rightarrow> mp_error + mp_db" where
  "complete_intent env intent c tx =
     try_step (db_call env MpUpdateIntent) (\<lambda>_.
     try_step (fail_if (session_taken intent (cc_checkout c) tx) DuplicateRow) (\<lambda>_.
     Inr (tx\<lparr>md_intents := fst (sql_update (\<lambda>p. pi_id p = intent)
            (\<lambda>p. p\<lparr>pi_status := ''completed'', pi_checkout := set_unless_empty (cc_checkout c) (pi_checkout p),
                   pi_payment := set_unless_empty (cc_payment c) (pi_payment p), pi_updated := me_now env\<rparr>)
            (md_intents tx))\<rparr>)))"

text \<open>The install of an order: inserted, or the buyer's existing one.\<close>

definition record_install :: "mp_env \<Rightarrow> mp_order \<Rightarrow> mp_db \<Rightarrow> mp_error + (mp_db \<times> string)" where
  "record_install env w tx =
     (let new = \<lparr>in_id = me_id env ''install'' 0, in_agent = mo_agent w, in_user = mo_buyer w, in_org = mo_buyer_org w,
                 in_version = nullif_empty (coalesce_empty (mo_version w)), in_at = me_now env\<rparr>;
          mine = (\<lambda>i. in_org i = mo_buyer_org w \<and> in_agent i = mo_agent w \<and> in_user i = mo_buyer w)
      in try_step (db_call env MpInsertInstall) (\<lambda>_.
         (if list_ex mine (md_installs tx)
          then try_step (db_call env MpInstallRows) (\<lambda>_.
               try_step (db_call env MpFindInstall) (\<lambda>_.
               try_step (or_error RowNotFound (sql_select mine (md_installs tx))) (\<lambda>i. Inr (tx, in_id i))))
          else try_step (fail_if (list_ex (\<lambda>i. in_id i = in_id new) (md_installs tx)) DuplicateRow) (\<lambda>_.
               try_step (db_call env MpInstallRows) (\<lambda>_.
               try_step (db_call env MpInstallCount) (\<lambda>_.
               Inr (tx\<lparr>md_installs := md_installs tx @ [new],
                       md_agents := fst (sql_update (\<lambda>a. ag_id a = mo_agent w)
                                          (\<lambda>a. a\<lparr>ag_installs := ag_installs a + 1\<rparr>) (md_agents tx))\<rparr>, in_id new)))))))"

definition paid_order :: "mp_env \<Rightarrow> checkout_completed \<Rightarrow> string \<Rightarrow> mp_order \<Rightarrow> mp_order" where
  "paid_order env c install x =
     x\<lparr>mo_status := ''paid'', mo_checkout := set_unless_empty (cc_checkout c) (mo_checkout x),
       mo_payment := set_unless_empty (cc_payment c) (mo_payment x), mo_install := Some install,
       mo_paid_at := (case mo_paid_at x of None \<Rightarrow> Some (me_now env) | Some t \<Rightarrow> Some t), mo_updated := me_now env\<rparr>"

definition mark_order_paid :: "mp_env \<Rightarrow> checkout_completed \<Rightarrow> mp_order \<Rightarrow> string \<Rightarrow> mp_db \<Rightarrow> mp_error + mp_db" where
  "mark_order_paid env c w install tx =
     try_step (db_call env MpUpdateOrder)
       (\<lambda>_. Inr (tx\<lparr>md_orders := fst (sql_update (\<lambda>x. mo_id x = mo_id w) (paid_order env c install) (md_orders tx))\<rparr>))"

definition settlement_of :: "mp_env \<Rightarrow> mp_order \<Rightarrow> mp_settlement" where
  "settlement_of env w =
     \<lparr>ms_id = me_id env ''settlement'' 0, ms_order = mo_id w, ms_publisher_org = mo_publisher_org w,
      ms_publisher = mo_publisher w, ms_agent = mo_agent w, ms_gross = mo_gross w, ms_fee = mo_fee w, ms_net = mo_net w,
      ms_refunded = 0, ms_payout = None, ms_status = ''pending'', ms_hold = Some (me_now env + 7 * 24 * 60 * go_minute),
      ms_created = me_now env, ms_updated = me_now env\<rparr>"

definition insert_settlement :: "mp_env \<Rightarrow> mp_order \<Rightarrow> mp_db \<Rightarrow> mp_error + mp_db" where
  "insert_settlement env w tx =
     try_step (db_call env MpInsertSettlement) (\<lambda>_.
     (if list_ex (\<lambda>s. ms_order s = mo_id w) (md_settlements tx) then Inr tx
      else try_step (fail_if (list_ex (\<lambda>s. ms_id s = me_id env ''settlement'' 0) (md_settlements tx)) DuplicateRow)
             (\<lambda>_. Inr (tx\<lparr>md_settlements := md_settlements tx @ [settlement_of env w]\<rparr>))))"

definition checkout_event :: "mp_env \<Rightarrow> checkout_completed \<Rightarrow> mp_order \<Rightarrow> mp_intent \<Rightarrow> lifecycle_event" where
  "checkout_event env c w p =
     lifecycle_event_of env (pi_provider p) (transition_key (pi_provider p) (cc_event c) ''marketplace_checkout'' (mo_intent w))
       (cc_event c) ''checkout.session.completed'' (mo_buyer_org w) (mo_buyer w) (mo_intent w) ''marketplace_order'' (mo_id w) ''paid''"

definition fulfil_order :: "mp_env \<Rightarrow> checkout_completed \<Rightarrow> mp_order \<Rightarrow> mp_db \<Rightarrow> mp_error + mp_db" where
  "fulfil_order env c w tx1 =
     try_step (complete_intent env (mo_intent w) c tx1) (\<lambda>tx2.
     try_step (record_install env w tx2) (\<lambda>(tx3, install).
     try_step (mark_order_paid env c w install tx3) (\<lambda>tx4.
     insert_settlement env w tx4)))"

definition completed_tx :: "mp_env \<Rightarrow> checkout_completed \<Rightarrow> mp_db \<Rightarrow> mp_error + (mp_db \<times> string)" where
  "completed_tx env c tx =
     try_step (load_order_for_update env tx (cc_order c) (cc_intent c)) (\<lambda>(w, p).
     try_step (insert_transition env (checkout_event env c w p) tx) (\<lambda>(tx1, inserted).
     (if \<not> inserted then Inr (tx1, mo_id w)
      else try_step (fulfil_order env c w tx1) (\<lambda>tx2. Inr (tx2, mo_id w)))))"

definition apply_checkout_completed :: "mp_env \<Rightarrow> checkout_completed \<Rightarrow> mp_db \<Rightarrow> mp_db \<times> (mp_error + mp_settlement)" where
  "apply_checkout_completed env c db =
     (if cc_event c = [] \<or> cc_intent c = [] then (db, Inl FieldsRequired)
      else case mp_tx env (completed_tx env c) db of
             (db', Inl e) \<Rightarrow> (db', Inl e)
           | (db', Inr oid) \<Rightarrow> (db', load_settlement_by_order env db' oid))"

subsection \<open>Refunds\<close>

definition refund_event :: "mp_env \<Rightarrow> mp_refund \<Rightarrow> mp_order \<Rightarrow> mp_intent \<Rightarrow> lifecycle_event" where
  "refund_event env r w p =
     lifecycle_event_of env (pi_provider p) (transition_key (pi_provider p) (mr_event r) ''marketplace_refund'' (mr_refund r))
       (mr_event r) ''refund.created'' (mo_buyer_org w) (mo_buyer w) (mo_intent w) ''marketplace_refund'' (mr_refund r) ''succeeded''"

definition refunded_total :: "mp_refund \<Rightarrow> mp_order \<Rightarrow> usd" where
  "refunded_total r w = (if mo_gross w < mo_refunded w + mr_amount r then mo_gross w else mo_refunded w + mr_amount r)"

definition refund_order_status :: "usd \<Rightarrow> mp_order \<Rightarrow> string" where
  "refund_order_status amt w = (if mo_gross w \<le> amt then ''refunded'' else ''partially_refunded'')"

definition refund_settlement_status :: "usd \<Rightarrow> mp_order \<Rightarrow> string" where
  "refund_settlement_status amt w = (if mo_gross w \<le> amt then ''reversed'' else ''partially_refunded'')"

definition refund_rows :: "mp_env \<Rightarrow> mp_order \<Rightarrow> usd \<Rightarrow> mp_db \<Rightarrow> mp_db" where
  "refund_rows env w amt tx =
     tx\<lparr>md_intents := fst (sql_update (\<lambda>p. pi_id p = mo_intent w)
          (\<lambda>p. p\<lparr>pi_status := refund_order_status amt w, pi_refunded := dec6 amt, pi_updated := me_now env\<rparr>) (md_intents tx)),
        md_orders := fst (sql_update (\<lambda>x. mo_id x = mo_id w)
          (\<lambda>x. x\<lparr>mo_status := refund_order_status amt w, mo_refunded := dec6 amt, mo_updated := me_now env\<rparr>) (md_orders tx)),
        md_settlements := fst (sql_update (\<lambda>s. ms_order s = mo_id w)
          (\<lambda>s. s\<lparr>ms_status := refund_settlement_status amt w, ms_refunded := dec6 amt, ms_updated := me_now env\<rparr>) (md_settlements tx))\<rparr>"

definition refund_tx :: "mp_env \<Rightarrow> mp_refund \<Rightarrow> mp_db \<Rightarrow> mp_error + (mp_db \<times> unit)" where
  "refund_tx env r tx =
     try_step (load_order_for_refund env tx (mr_intent r) (mr_payment r)) (\<lambda>(w, p).
     try_step (insert_transition env (refund_event env r w p) tx) (\<lambda>(tx1, inserted).
     (if \<not> inserted then Inr (tx1, ())
      else try_step (db_call env MpUpdateIntent) (\<lambda>_.
           try_step (db_call env MpUpdateOrder) (\<lambda>_.
           try_step (db_call env MpUpdateSettlement) (\<lambda>_. Inr (refund_rows env w (refunded_total r w) tx1, ())))))))"

definition apply_marketplace_refund :: "mp_env \<Rightarrow> mp_refund \<Rightarrow> mp_db \<Rightarrow> mp_db \<times> (mp_error + unit)" where
  "apply_marketplace_refund env r db =
     (if mr_event r = [] \<or> mr_refund r = [] \<or> mr_amount r \<le> 0 then (db, Inl FieldsRequired)
      else mp_tx env (refund_tx env r) db)"

subsection \<open>Dispatching payouts\<close>

text \<open>The world outside the database: the requests the payout provider has been sent.\<close>

record mp_world =
  mw_db :: mp_db
  mw_sent :: "payout_request list"

definition payout_provider_name :: "mp_service \<Rightarrow> mp_error + string" where
  "payout_provider_name sv =
     (case sv_provider sv of None \<Rightarrow> Inl PayoutProviderRequired
      | Some name \<Rightarrow> (let n = to_lower (trim_space name) in if n = [] then Inl ProviderNameRequired else Inr n))"

definition record_dispatch_success :: "mp_env \<Rightarrow> string \<Rightarrow> string \<Rightarrow> string \<Rightarrow> mp_db \<Rightarrow> mp_db \<times> mp_error option" where
  "record_dispatch_success env pid name ref db =
     (if me_fault env (MpRecord pid) then (db, Some (MpFault (MpRecord pid)))
      else
        (let (ps, n) = sql_update (\<lambda>p. po_id p = pid \<and> po_status p \<in> {''payout_pending'', ''paid_out''})
           (\<lambda>p. p\<lparr>po_provider := name, po_ref := nullif_empty ref,
                  po_meta := (po_meta p)(''dispatch_status'' \<mapsto> MetaText ''dispatched'', ''provider_dispatched_at'' \<mapsto> MetaTime (me_now env)),
                  po_updated := me_now env\<rparr>) (md_payouts db)
         in if n = 0 then (db, Some RowNotFound) else (db\<lparr>md_payouts := ps\<rparr>, None)))"

text \<open>The text of the error that is stored is left out: the field only records that there was one.\<close>

definition record_dispatch_failure :: "mp_env \<Rightarrow> string \<Rightarrow> mp_db \<Rightarrow> mp_db \<times> mp_error option" where
  "record_dispatch_failure env pid db =
     (if me_fault env (MpRecord pid) then (db, Some (MpFault (MpRecord pid)))
      else
        (let (ps, n) = sql_update (\<lambda>p. po_id p = pid \<and> po_status p = ''payout_pending'')
           (\<lambda>p. p\<lparr>po_meta := (po_meta p)(''dispatch_status'' \<mapsto> MetaText ''failed'', ''provider_dispatch_failed_at'' \<mapsto> MetaTime (me_now env)),
                  po_updated := me_now env\<rparr>) (md_payouts db)
         in if n = 0 then (db, Some RowNotFound) else (db\<lparr>md_payouts := ps\<rparr>, None)))"

definition load_dispatch_intent :: "mp_env \<Rightarrow> mp_db \<Rightarrow> string \<Rightarrow> mp_error + (mp_payout \<times> string list)" where
  "load_dispatch_intent env db pid0 =
     try_step (load_payout env db (trim_space pid0)) (\<lambda>p.
     try_step (db_call env (MpIntentSettlements (po_id p))) (\<lambda>_.
     Inr (p, List.map ms_id (sort_key (\<lambda>s. (ms_created s, ms_id s))
                (filter (\<lambda>s. ms_payout s = Some (po_id p)) (md_settlements db))))))"

definition dispatch_request :: "mp_payout \<Rightarrow> string list \<Rightarrow> payout_request" where
  "dispatch_request p ids =
     \<lparr>pr_payout = po_id p, pr_org = po_org p, pr_user = po_user p, pr_amount = round_amount (po_amount p),
      pr_currency = normalize_marketplace_currency (po_currency p), pr_settlements = ids\<rparr>"

text \<open>
  \<open>dispatchPayout\<close>: the request as it is sent, if the provider is asked at all, and the outcome.
\<close>

definition dispatch_payout :: "mp_env \<Rightarrow> mp_service \<Rightarrow> payout_request \<Rightarrow> payout_request list \<times> (mp_error + (string \<times> string))" where
  "dispatch_payout env sv r =
     (case payout_provider_name sv of
        Inl e \<Rightarrow> ([], Inl e)
      | Inr name \<Rightarrow>
          ([r], case me_answer env r of
                  None \<Rightarrow> Inl ProviderRefused
                | Some ref \<Rightarrow> if trim_space ref = [] then Inl ProviderRefRequired else Inr (name, trim_space ref)))"

definition dispatch_persisted_payout :: "mp_env \<Rightarrow> mp_service \<Rightarrow> string \<Rightarrow> mp_world \<Rightarrow> mp_world \<times> (mp_error + mp_payout)" where
  "dispatch_persisted_payout env sv pid w =
     (case load_dispatch_intent env (mw_db w) pid of
        Inl e \<Rightarrow> (w, Inl e)
      | Inr (p, ids) \<Rightarrow>
          if trim_space (coalesce_empty (po_ref p)) \<noteq> [] then (w, Inr p)
          else if \<not> me_payout_ready env (GuardDispatch (po_id p)) then (w, Inl ReadinessDenied)
          else
            (case dispatch_payout env sv (dispatch_request p ids) of
               (sent, Inl e) \<Rightarrow>
                 (case record_dispatch_failure env (po_id p) (mw_db w) of
                    (db, Some e') \<Rightarrow> (\<lparr>mw_db = db, mw_sent = mw_sent w @ sent\<rparr>, Inl e')
                  | (db, None) \<Rightarrow> (\<lparr>mw_db = db, mw_sent = mw_sent w @ sent\<rparr>, Inl e))
             | (sent, Inr (name, ref)) \<Rightarrow>
                 (case record_dispatch_success env (po_id p) name ref (mw_db w) of
                    (db, Some e') \<Rightarrow> (\<lparr>mw_db = db, mw_sent = mw_sent w @ sent\<rparr>, Inl e')
                  | (db, None) \<Rightarrow> (\<lparr>mw_db = db, mw_sent = mw_sent w @ sent\<rparr>, load_payout env db (po_id p)))))"

fun dispatch_persisted_payouts :: "mp_env \<Rightarrow> mp_service \<Rightarrow> string list \<Rightarrow> mp_world \<Rightarrow> mp_world \<times> (mp_error + mp_payout list)" where
  "dispatch_persisted_payouts env sv [] w = (w, Inr [])"
| "dispatch_persisted_payouts env sv (pid # pids) w =
     (case dispatch_persisted_payout env sv pid w of
        (w', Inl e) \<Rightarrow> (w', Inl e)
      | (w', Inr p) \<Rightarrow>
          (case dispatch_persisted_payouts env sv pids w' of
             (w2, Inl e) \<Rightarrow> (w2, Inl e)
           | (w2, Inr ps) \<Rightarrow> (w2, Inr (p # ps))))"

subsection \<open>One settlement's payout\<close>

definition calculate_payout_amount :: "mp_service \<Rightarrow> mp_settlement \<Rightarrow> gotime \<Rightarrow> mp_error + usd" where
  "calculate_payout_amount sv s now =
     (let amt = max 0 (round_amount (ms_net s - ms_refunded s))
      in if sv_min_amount sv \<le> 0 \<or> sv_min_amount sv \<le> amt then Inr amt
         else if 0 < sv_min_cycle sv \<and> ms_created s \<noteq> zero_time \<and> ms_created s + sv_min_cycle sv \<le> now then Inr amt
         else Inl MinimumNotMet)"

definition queued_payout :: "mp_env \<Rightarrow> string \<Rightarrow> string \<Rightarrow> string \<Rightarrow> usd \<Rightarrow> string \<Rightarrow> string \<Rightarrow> metadata \<Rightarrow> gotime \<Rightarrow> mp_payout" where
  "queued_payout env pid org user amt currency name extra now =
     \<lparr>po_id = pid, po_org = org, po_user = user, po_amount = dec6 amt, po_currency = currency, po_provider = name,
      po_ref = None, po_status = ''payout_pending'',
      po_meta = [''dispatch_status'' \<mapsto> MetaText ''queued'', ''dispatch_queued_at'' \<mapsto> MetaTime now] ++ extra,
      po_created = now, po_updated = now\<rparr>"

definition insert_payout :: "mp_env \<Rightarrow> mp_payout \<Rightarrow> mp_db \<Rightarrow> mp_error + mp_db" where
  "insert_payout env p tx =
     try_step (db_call env MpInsertPayout) (\<lambda>_.
     try_step (fail_if (list_ex (\<lambda>q. po_id q = po_id p) (md_payouts tx)) DuplicateRow)
       (\<lambda>_. Inr (tx\<lparr>md_payouts := md_payouts tx @ [p]\<rparr>)))"

definition linked_to :: "gotime \<Rightarrow> string \<Rightarrow> mp_settlement \<Rightarrow> mp_settlement" where
  "linked_to now pid s = s\<lparr>ms_payout := Some pid, ms_status := ''payout_pending'', ms_updated := now\<rparr>"

definition operator_metadata :: "string \<Rightarrow> metadata" where
  "operator_metadata ref =
     [''operator_provider_payout_id'' \<mapsto> (if trim_space ref = [] then MetaNull else MetaText (trim_space ref))]"

definition payout_pending_tx :: "mp_env \<Rightarrow> mp_service \<Rightarrow> string \<Rightarrow> string \<Rightarrow> string \<Rightarrow> mp_db \<Rightarrow> mp_error + (mp_db \<times> string)" where
  "payout_pending_tx env sv name sid ref tx =
     try_step (db_call env MpLoadSettlement) (\<lambda>_.
     try_step (or_error RowNotFound (sql_select (\<lambda>s. ms_id s = sid) (md_settlements tx))) (\<lambda>s.
     try_step (calculate_payout_amount sv s (me_now env)) (\<lambda>amt.
     try_step (insert_payout env (queued_payout env (me_id env ''payout'' 0) (ms_publisher_org s) (ms_publisher s) amt ''usd'' name
                 (operator_metadata ref) (me_now env)) tx) (\<lambda>tx1.
     try_step (db_call env MpUpdateSettlement) (\<lambda>_.
     Inr (tx1\<lparr>md_settlements := fst (sql_update (\<lambda>x. ms_id x = ms_id s) (linked_to (me_now env) (me_id env ''payout'' 0))
                (md_settlements tx1))\<rparr>, me_id env ''payout'' 0))))))"

definition mark_settlement_payout_pending ::
  "mp_env \<Rightarrow> mp_service \<Rightarrow> string \<Rightarrow> string \<Rightarrow> mp_world \<Rightarrow> mp_world \<times> (mp_error + mp_payout)" where
  "mark_settlement_payout_pending env sv sid ref w =
     (if sid = [] then (w, Inl FieldsRequired)
      else if \<not> me_settlement_ready env then (w, Inl ReadinessDenied)
      else if \<not> me_payout_ready env GuardEntry then (w, Inl ReadinessDenied)
      else case payout_provider_name sv of Inl e \<Rightarrow> (w, Inl e)
      | Inr name \<Rightarrow>
          (case mp_tx env (payout_pending_tx env sv name sid ref) (mw_db w) of
             (db, Inl e) \<Rightarrow> (w\<lparr>mw_db := db\<rparr>, Inl e)
           | (db, Inr pid) \<Rightarrow> dispatch_persisted_payout env sv pid (w\<lparr>mw_db := db\<rparr>)))"

subsection \<open>The end of a payout\<close>

text \<open>\<open>UPDATE marketplace_settlements\<close> of the settlements a payout pays, or gives up.\<close>

definition settlements_paid_out :: "mp_env \<Rightarrow> string \<Rightarrow> mp_settlement list \<Rightarrow> mp_settlement list" where
  "settlements_paid_out env pid ss =
     fst (sql_update (\<lambda>s. ms_payout s = Some pid \<and> ms_status s \<in> {''payout_pending'', ''paid_out''})
            (\<lambda>s. s\<lparr>ms_status := ''paid_out'', ms_updated := me_now env\<rparr>) ss)"

definition settlements_released :: "mp_env \<Rightarrow> string \<Rightarrow> mp_settlement list \<Rightarrow> mp_settlement list" where
  "settlements_released env pid ss =
     fst (sql_update (\<lambda>s. ms_payout s = Some pid \<and> ms_status s = ''payout_pending'')
            (\<lambda>s. s\<lparr>ms_payout := None, ms_status := ''available'', ms_updated := me_now env\<rparr>) ss)"

definition payout_paid_tx :: "mp_env \<Rightarrow> string \<Rightarrow> string \<Rightarrow> mp_db \<Rightarrow> mp_error + (mp_db \<times> unit)" where
  "payout_paid_tx env pid ref tx =
     try_step (db_call env MpLoadPayout) (\<lambda>_.
     try_step (or_error RowNotFound (sql_select (\<lambda>p. po_id p = pid) (md_payouts tx))) (\<lambda>p.
     try_step (fail_if (po_status p \<noteq> ''payout_pending'' \<and> po_status p \<noteq> ''paid_out'') (BadTransition (po_status p) ''paid_out'')) (\<lambda>_.
     try_step (db_call env MpUpdatePayout) (\<lambda>_.
     try_step (db_call env MpUpdateSettlement) (\<lambda>_.
     Inr (tx\<lparr>md_payouts := fst (sql_update (\<lambda>q. po_id q = pid)
                (\<lambda>q. q\<lparr>po_status := ''paid_out'', po_ref := Some (trim_space ref), po_updated := me_now env\<rparr>) (md_payouts tx)),
             md_settlements := settlements_paid_out env pid (md_settlements tx)\<rparr>, ()))))))"

definition mark_payout_paid :: "mp_env \<Rightarrow> string \<Rightarrow> string \<Rightarrow> mp_db \<Rightarrow> mp_db \<times> (mp_error + mp_payout)" where
  "mark_payout_paid env pid ref db =
     (if pid = [] \<or> trim_space ref = [] then (db, Inl FieldsRequired)
      else case mp_tx env (payout_paid_tx env pid ref) db of
             (db', Inl e) \<Rightarrow> (db', Inl e)
           | (db', Inr _) \<Rightarrow> (db', load_payout env db' pid))"

definition provider_metadata :: "mp_env \<Rightarrow> payout_event \<Rightarrow> metadata" where
  "provider_metadata env e =
     [''provider_event_id'' \<mapsto> MetaText (trim_space (pv_event e)), ''provider_event_type'' \<mapsto> MetaText (trim_space (pv_type e)),
      ''provider_status'' \<mapsto> MetaText (trim_space (pv_status e)),
      ''provider_reason'' \<mapsto> (if trim_space (pv_reason e) = [] then MetaNull else MetaText (trim_space (pv_reason e))),
      ''provider_processed_at'' \<mapsto> MetaTime (me_now env)]"

text \<open>The states an event of the provider may find a payout in, and the state it gives it.\<close>

definition lifecycle_state :: "string \<Rightarrow> string option" where
  "lifecycle_state type =
     (if type = ''payout.paid'' then Some ''paid_out'' else if type = ''payout.failed'' then Some ''failed'' else None)"

definition end_payout :: "mp_env \<Rightarrow> payout_event \<Rightarrow> string \<Rightarrow> string \<Rightarrow> mp_payout \<Rightarrow> mp_payout" where
  "end_payout env e to ref p =
     p\<lparr>po_status := to, po_ref := set_unless_empty ref (po_ref p), po_meta := po_meta p ++ provider_metadata env e,
       po_updated := me_now env\<rparr>"

definition payout_transition :: "mp_env \<Rightarrow> payout_event \<Rightarrow> string \<Rightarrow> string \<Rightarrow> mp_payout \<Rightarrow> mp_db \<Rightarrow> mp_error + mp_db" where
  "payout_transition env e to ref p tx =
     try_step (fail_if (po_status p \<noteq> ''payout_pending'' \<and> po_status p \<noteq> to) (BadTransition (po_status p) to)) (\<lambda>_.
     try_step (db_call env MpUpdatePayout) (\<lambda>_.
     try_step (db_call env MpUpdateSettlement) (\<lambda>_.
     Inr (tx\<lparr>md_payouts := fst (sql_update (\<lambda>q. po_id q = po_id p) (end_payout env e to ref) (md_payouts tx)),
             md_settlements := (if to = ''paid_out'' then settlements_paid_out env (po_id p) (md_settlements tx)
                                else settlements_released env (po_id p) (md_settlements tx))\<rparr>))))"

definition payout_lifecycle_event :: "mp_env \<Rightarrow> payout_event \<Rightarrow> string \<Rightarrow> string \<Rightarrow> mp_payout \<Rightarrow> lifecycle_event" where
  "payout_lifecycle_event env e provider to p =
     lifecycle_event_of env provider (transition_key provider (trim_space (pv_event e)) ''marketplace_payout'' (po_id p))
       (trim_space (pv_event e)) (trim_space (pv_type e)) (po_org p) (po_user p) [] ''marketplace_payout'' (po_id p) to"

definition payout_lifecycle_tx :: "mp_env \<Rightarrow> payout_event \<Rightarrow> string \<Rightarrow> mp_db \<Rightarrow> mp_error + (mp_db \<times> string)" where
  "payout_lifecycle_tx env e to tx =
     try_step (load_payout_for_lifecycle env tx (trim_space (pv_payout e)) (trim_space (pv_ref e)) (lower_or [] (pv_provider e))) (\<lambda>p.
     (let provider = (if lower_or [] (pv_provider e) = [] then po_provider p else lower_or [] (pv_provider e));
          ref0 = coalesce_empty (po_ref p);
          ref = (if trim_space (pv_ref e) = [] then ref0 else trim_space (pv_ref e))
      in try_step (fail_if (provider \<noteq> [] \<and> po_provider p \<noteq> [] \<and> po_provider p \<noteq> provider) WrongProvider) (\<lambda>_.
         try_step (fail_if (trim_space (pv_ref e) \<noteq> [] \<and> ref0 \<noteq> [] \<and> ref0 \<noteq> trim_space (pv_ref e)) WrongProviderPayout) (\<lambda>_.
         try_step (insert_transition env (payout_lifecycle_event env e provider to p) tx) (\<lambda>(tx1, inserted).
         (if \<not> inserted then Inr (tx1, po_id p)
          else try_step (payout_transition env e to ref p tx1) (\<lambda>tx2. Inr (tx2, po_id p))))))))"

definition apply_provider_payout_lifecycle :: "mp_env \<Rightarrow> payout_event \<Rightarrow> mp_db \<Rightarrow> mp_db \<times> (mp_error + mp_payout)" where
  "apply_provider_payout_lifecycle env e db =
     (if trim_space (pv_event e) = [] \<or> trim_space (pv_type e) = [] then (db, Inl FieldsRequired)
      else if trim_space (pv_payout e) = [] \<and> trim_space (pv_ref e) = [] then (db, Inl FieldsRequired)
      else case lifecycle_state (trim_space (pv_type e)) of
             None \<Rightarrow> (db, Inl (UnsupportedEvent (trim_space (pv_type e))))
           | Some to \<Rightarrow>
               (case mp_tx env (payout_lifecycle_tx env e to) db of
                  (db', Inl err) \<Rightarrow> (db', Inl err)
                | (db', Inr pid) \<Rightarrow> (db', load_payout env db' pid)))"

definition mark_payout_failed :: "mp_env \<Rightarrow> string \<Rightarrow> string \<Rightarrow> string \<Rightarrow> mp_db \<Rightarrow> mp_db \<times> (mp_error + mp_payout)" where
  "mark_payout_failed env pid0 ref0 reason0 db =
     (let pid = trim_space pid0; ref = trim_space ref0; reason = trim_space reason0
      in if pid = [] \<or> ref = [] \<or> reason = [] then (db, Inl FieldsRequired)
         else apply_provider_payout_lifecycle env
                \<lparr>pv_provider = [], pv_event = ''admin:payout.failed:'' @ pid @ '':'' @ ref, pv_type = ''payout.failed'',
                 pv_payout = pid, pv_ref = ref, pv_status = ''failed'', pv_reason = reason\<rparr> db)"

subsection \<open>The payout batch\<close>

definition list_queued_payouts :: "mp_env \<Rightarrow> string \<Rightarrow> nat \<Rightarrow> mp_db \<Rightarrow> mp_error + string list" where
  "list_queued_payouts env name limit db =
     try_step (db_call env MpListQueued) (\<lambda>_.
     Inr (take limit (List.map po_id (sort_key (\<lambda>p. (po_created p, po_id p))
            (filter (\<lambda>p. po_provider p = name \<and> po_status p = ''payout_pending'' \<and> coalesce_empty (po_ref p) = []) (md_payouts db))))))"

record payout_group =
  pg_org :: string
  pg_user :: string
  pg_currency :: string
  pg_amount :: usd
  pg_settlements :: "string list"
  pg_oldest :: gotime

text \<open>A row of the query: the settlement and the currency of its order.\<close>

definition due_settlement :: "gotime \<Rightarrow> mp_settlement \<Rightarrow> bool" where
  "due_settlement now s \<longleftrightarrow>
     ms_status s = ''available'' \<and> ms_payout s = None \<and> (case ms_hold s of None \<Rightarrow> True | Some t \<Rightarrow> t \<le> now)"

definition due_rows :: "gotime \<Rightarrow> mp_db \<Rightarrow> (mp_settlement \<times> string) list" where
  "due_rows now tx =
     sort_key (\<lambda>(s, cur). (ms_publisher_org s, ms_publisher s, cur, ms_created s, ms_id s))
       (concat (List.map (\<lambda>s. case sql_select (\<lambda>w. mo_id w = ms_order s) (md_orders tx) of
                                 None \<Rightarrow> [] | Some w \<Rightarrow> [(s, mo_currency w)])
                  (filter (due_settlement now) (md_settlements tx))))"

definition due_amount :: "mp_settlement \<Rightarrow> usd" where
  "due_amount s = max (ms_net s - ms_refunded s) 0"

definition group_key :: "payout_group \<Rightarrow> string \<times> string \<times> string" where
  "group_key g = (pg_org g, pg_user g, pg_currency g)"

definition row_key :: "mp_settlement \<times> string \<Rightarrow> string \<times> string \<times> string" where
  "row_key r = (ms_publisher_org (fst r), ms_publisher (fst r), snd r)"

definition join_group :: "mp_settlement \<Rightarrow> payout_group \<Rightarrow> payout_group" where
  "join_group s g =
     g\<lparr>pg_amount := round_amount (pg_amount g + due_amount s), pg_settlements := pg_settlements g @ [ms_id s],
       pg_oldest := (if ms_created s < pg_oldest g then ms_created s else pg_oldest g)\<rparr>"

definition start_group :: "mp_settlement \<Rightarrow> string \<Rightarrow> payout_group" where
  "start_group s cur =
     \<lparr>pg_org = ms_publisher_org s, pg_user = ms_publisher s, pg_currency = cur, pg_amount = 0, pg_settlements = [],
      pg_oldest = ms_created s\<rparr>"

text \<open>The map of groups with the order in which its keys were first seen.\<close>

fun add_row :: "mp_settlement \<times> string \<Rightarrow> payout_group list \<Rightarrow> payout_group list" where
  "add_row (s, cur) [] = [join_group s (start_group s cur)]"
| "add_row (s, cur) (g # gs) =
     (if group_key g = row_key (s, cur) then join_group s g # gs else g # add_row (s, cur) gs)"

definition payout_groups :: "(mp_settlement \<times> string) list \<Rightarrow> payout_group list" where
  "payout_groups rows = fold add_row rows []"

definition group_is_due :: "mp_service \<Rightarrow> gotime \<Rightarrow> payout_group \<Rightarrow> bool" where
  "group_is_due sv now g \<longleftrightarrow>
     \<not> (pg_amount g \<le> 0 \<or> pg_settlements g = [])
   \<and> \<not> (0 < sv_min_amount sv \<and> pg_amount g < sv_min_amount sv
        \<and> (sv_min_cycle sv \<le> 0 \<or> pg_oldest g = zero_time \<or> now < pg_oldest g + sv_min_cycle sv))"

definition pay_group :: "mp_env \<Rightarrow> string \<Rightarrow> gotime \<Rightarrow> nat \<Rightarrow> payout_group \<Rightarrow> mp_db \<Rightarrow> mp_error + (mp_db \<times> string list)" where
  "pay_group env name now n g tx =
     try_step (fail_if (\<not> me_payout_ready env (GuardGroup n)) ReadinessDenied) (\<lambda>_.
     try_step (insert_payout env (queued_payout env (me_id env ''payout'' n) (pg_org g) (pg_user g) (pg_amount g) (pg_currency g) name
                 Map.empty now) tx) (\<lambda>tx1.
     try_step (db_call env MpUpdateSettlement) (\<lambda>_.
     (let (ss, k) = sql_update (\<lambda>s. ms_id s \<in> set (pg_settlements g) \<and> ms_status s = ''available'' \<and> ms_payout s = None)
                      (linked_to now (me_id env ''payout'' n))
                      (md_settlements tx1)
      in Inr (tx1\<lparr>md_settlements := ss\<rparr>, if k = 0 then [] else [me_id env ''payout'' n])))))"

fun pay_groups :: "mp_env \<Rightarrow> mp_service \<Rightarrow> string \<Rightarrow> gotime \<Rightarrow> nat \<Rightarrow> payout_group list \<Rightarrow> mp_db \<Rightarrow> mp_error + (mp_db \<times> string list)" where
  "pay_groups env sv name now n [] tx = Inr (tx, [])"
| "pay_groups env sv name now n (g # gs) tx =
     (if \<not> group_is_due sv now g then pay_groups env sv name now (Suc n) gs tx
      else try_step (pay_group env name now n g tx) (\<lambda>(tx1, ids).
           try_step (pay_groups env sv name now (Suc n) gs tx1) (\<lambda>(tx2, ids2). Inr (tx2, ids @ ids2))))"

definition due_payouts_tx :: "mp_env \<Rightarrow> mp_service \<Rightarrow> string \<Rightarrow> gotime \<Rightarrow> mp_db \<Rightarrow> mp_error + (mp_db \<times> string list)" where
  "due_payouts_tx env sv name now tx =
     try_step (db_call env MpQueryDue) (\<lambda>_. pay_groups env sv name now 0 (payout_groups (due_rows now tx)) tx)"

definition create_due_payouts :: "mp_env \<Rightarrow> mp_service \<Rightarrow> gotime \<Rightarrow> mp_world \<Rightarrow> mp_world \<times> (mp_error + mp_payout list)" where
  "create_due_payouts env sv now0 w =
     (if \<not> me_payout_ready env GuardEntry then (w, Inl ReadinessDenied)
      else case payout_provider_name sv of Inl e \<Rightarrow> (w, Inl e)
      | Inr name \<Rightarrow>
          (let now = (if now0 = zero_time then me_now env else now0)
           in case list_queued_payouts env name 100 (mw_db w) of Inl e \<Rightarrow> (w, Inl e)
              | Inr queued \<Rightarrow>
                  (case dispatch_persisted_payouts env sv queued w of (w1, Inl e) \<Rightarrow> (w1, Inl e)
                   | (w1, Inr earlier) \<Rightarrow>
                       (case mp_tx env (due_payouts_tx env sv name now) (mw_db w1) of
                          (db, Inl e) \<Rightarrow> (w1\<lparr>mw_db := db\<rparr>, Inl e)
                        | (db, Inr ids) \<Rightarrow>
                            (case dispatch_persisted_payouts env sv ids (w1\<lparr>mw_db := db\<rparr>) of
                               (w2, Inl e) \<Rightarrow> (w2, Inl e)
                             | (w2, Inr later) \<Rightarrow> (w2, Inr (earlier @ later)))))))"

subsection \<open>Runs\<close>

datatype mp_op =
    OpCheckout paid_checkout | OpSession string string string | OpCheckoutFailed string string string
  | OpCompleted checkout_completed | OpRefund mp_refund | OpPayoutPending string string
  | OpPayoutPaid string string | OpPayoutFailed string string string | OpPayoutEvent payout_event | OpDuePayouts gotime

fun mp_exec :: "mp_env \<times> mp_service \<times> mp_op \<Rightarrow> mp_world \<Rightarrow> mp_world" where
  "mp_exec (env, sv, OpCheckout r) w = w\<lparr>mw_db := fst (create_paid_install_checkout env sv r (mw_db w))\<rparr>"
| "mp_exec (env, sv, OpSession oid intent session) w = w\<lparr>mw_db := fst (set_checkout_session env oid intent session (mw_db w))\<rparr>"
| "mp_exec (env, sv, OpCheckoutFailed oid intent reason) w = w\<lparr>mw_db := fst (mark_checkout_failed env oid intent reason (mw_db w))\<rparr>"
| "mp_exec (env, sv, OpCompleted c) w = w\<lparr>mw_db := fst (apply_checkout_completed env c (mw_db w))\<rparr>"
| "mp_exec (env, sv, OpRefund r) w = w\<lparr>mw_db := fst (apply_marketplace_refund env r (mw_db w))\<rparr>"
| "mp_exec (env, sv, OpPayoutPending sid ref) w = fst (mark_settlement_payout_pending env sv sid ref w)"
| "mp_exec (env, sv, OpPayoutPaid pid ref) w = w\<lparr>mw_db := fst (mark_payout_paid env pid ref (mw_db w))\<rparr>"
| "mp_exec (env, sv, OpPayoutFailed pid ref reason) w = w\<lparr>mw_db := fst (mark_payout_failed env pid ref reason (mw_db w))\<rparr>"
| "mp_exec (env, sv, OpPayoutEvent e) w = w\<lparr>mw_db := fst (apply_provider_payout_lifecycle env e (mw_db w))\<rparr>"
| "mp_exec (env, sv, OpDuePayouts now) w = fst (create_due_payouts env sv now w)"

definition mp_run :: "(mp_env \<times> mp_service \<times> mp_op) list \<Rightarrow> mp_world \<Rightarrow> mp_world" where
  "mp_run steps w = fold mp_exec steps w"

end
