(* ===== verification/Marketplace_Properties.thy ===== *)
theory Marketplace_Properties
  imports Marketplace_Settlement "HOL-Library.Multiset"
begin

text \<open>
  What the settlement service keeps and where it does not: the books of orders and settlements
  balance, payouts only move forward, the provider is only asked for persisted payouts, a batch
  pays exactly what is due; settlements never become due on their own, one can be paid twice, a
  refund before the payment is lost, and one refused payout stops every batch.
\<close>

subsection \<open>Steps and transactions\<close>

lemma db_call_Inr [simp]: "db_call env c = Inr u \<longleftrightarrow> \<not> me_fault env c"
  by (simp add: db_call_def)

lemma mp_tx_Inr:
  "mp_tx env body db = (db', Inr x) \<longleftrightarrow> body db = Inr (db', x) \<and> \<not> me_fault env MpBegin \<and> \<not> me_fault env MpCommit"
  by (auto simp: mp_tx_def split: sum.splits if_splits)

lemma mp_tx_Inl: "mp_tx env body db = (db', Inl e) \<Longrightarrow> db' = db"
  by (auto simp: mp_tx_def split: sum.splits if_splits prod.splits)

lemma mp_tx_cases:
  "fst (mp_tx env body db) = db \<or> (\<exists>x. body db = Inr (fst (mp_tx env body db), x))"
  by (auto simp: mp_tx_def split: sum.splits)

text \<open>What a method does to the tables: nothing, or what its transaction does.\<close>

definition changes_by :: "(mp_db \<Rightarrow> mp_error + (mp_db \<times> 'a)) \<Rightarrow> mp_db \<Rightarrow> mp_db \<Rightarrow> bool" where
  "changes_by body db db' \<longleftrightarrow> db' = db \<or> (\<exists>x. body db = Inr (db', x))"

lemma changes_tx: "changes_by body db (fst (mp_tx env body db))"
  using mp_tx_cases by (auto simp: changes_by_def)

lemma changes_refl [simp]: "changes_by body db db"
  by (simp add: changes_by_def)

lemma changes_then:
  "changes_by body db (fst (case mp_tx env body db of (db', Inl e) \<Rightarrow> (db', Inl e) | (db', Inr x) \<Rightarrow> (db', f db' x)))"
proof -
  have "fst (case mp_tx env body db of (db', Inl e) \<Rightarrow> (db', Inl e) | (db', Inr x) \<Rightarrow> (db', f db' x)) = fst (mp_tx env body db)"
    by (auto split: prod.splits sum.splits)
  then show ?thesis by (simp add: changes_tx)
qed

lemma create_changes: "changes_by (create_checkout_tx env sv r) db (fst (create_paid_install_checkout env sv r db))"
  using changes_then by (auto simp: create_paid_install_checkout_def)

lemma session_changes: "changes_by (set_session_tx env oid intent session) db (fst (set_checkout_session env oid intent session db))"
  by (auto simp: set_checkout_session_def changes_tx)

lemma checkout_failed_changes:
  "changes_by (checkout_failed_tx env oid intent reason) db (fst (mark_checkout_failed env oid intent reason db))"
  by (auto simp: mark_checkout_failed_def changes_tx)

lemma completed_changes: "changes_by (completed_tx env c) db (fst (apply_checkout_completed env c db))"
  using changes_then by (auto simp: apply_checkout_completed_def)

lemma refund_changes: "0 < mr_amount r \<and> changes_by (refund_tx env r) db (fst (apply_marketplace_refund env r db)) \<or> fst (apply_marketplace_refund env r db) = db"
  by (auto simp: apply_marketplace_refund_def changes_tx)

lemma paid_changes: "changes_by (payout_paid_tx env pid ref) db (fst (mark_payout_paid env pid ref db))"
  using changes_then by (auto simp: mark_payout_paid_def)

lemma lifecycle_changes:
  "fst (apply_provider_payout_lifecycle env e db) = db
   \<or> (\<exists>to. lifecycle_state (trim_space (pv_type e)) = Some to
        \<and> changes_by (payout_lifecycle_tx env e to) db (fst (apply_provider_payout_lifecycle env e db)))"
  using changes_then [of "payout_lifecycle_tx env e x" for x]
  by (auto simp: apply_provider_payout_lifecycle_def split: option.splits)

subsection \<open>The books\<close>

definition order_ok :: "mp_order \<Rightarrow> bool" where
  "order_ok w \<longleftrightarrow> 0 < mo_gross w \<and> 0 \<le> mo_fee w \<and> 0 \<le> mo_net w \<and> mo_fee w + mo_net w = mo_gross w
     \<and> cents (mo_gross w) \<and> cents (mo_net w) \<and> 0 \<le> mo_refunded w \<and> mo_refunded w \<le> mo_gross w"

definition settles :: "mp_settlement \<Rightarrow> mp_order \<Rightarrow> bool" where
  "settles s w \<longleftrightarrow> mo_id w = ms_order s \<and> ms_gross s = mo_gross w \<and> ms_fee s = mo_fee w \<and> ms_net s = mo_net w
     \<and> 0 \<le> ms_refunded s \<and> ms_refunded s \<le> mo_refunded w"

definition books_ok :: "mp_order list \<Rightarrow> mp_settlement list \<Rightarrow> bool" where
  "books_ok ws ss \<longleftrightarrow> distinct (List.map mo_id ws) \<and> distinct (List.map mo_intent ws)
     \<and> distinct (List.map ms_order ss) \<and> distinct (List.map ms_id ss)
     \<and> (\<forall>w \<in> set ws. order_ok w) \<and> (\<forall>s \<in> set ss. \<exists>w \<in> set ws. settles s w)"

definition links_ok :: "mp_settlement list \<Rightarrow> mp_payout list \<Rightarrow> bool" where
  "links_ok ss ps \<longleftrightarrow> distinct (List.map po_id ps) \<and> (\<forall>s \<in> set ss. \<forall>pid. ms_payout s = Some pid \<longrightarrow> pid \<in> po_id ` set ps)"

definition market_ok :: "mp_db \<Rightarrow> bool" where
  "market_ok db \<longleftrightarrow> books_ok (md_orders db) (md_settlements db) \<and> links_ok (md_settlements db) (md_payouts db)"

lemma books_map_settlements:
  assumes "books_ok ws ss"
    and "\<And>s. s \<in> set ss \<Longrightarrow> (ms_id (f s), ms_order (f s), ms_gross (f s), ms_fee (f s), ms_net (f s), ms_refunded (f s))
      = (ms_id s, ms_order s, ms_gross s, ms_fee s, ms_net s, ms_refunded s)"
  shows "books_ok ws (List.map f ss)"
proof -
  have "List.map ms_id (List.map f ss) = List.map ms_id ss" "List.map ms_order (List.map f ss) = List.map ms_order ss"
    using assms(2) by auto
  moreover have "\<exists>w \<in> set ws. settles (f s) w" if "s \<in> set ss" for s
    using assms that by (auto simp: books_ok_def settles_def)
  ultimately show ?thesis using assms(1) by (auto simp: books_ok_def simp del: map_map)
qed

lemma books_map_orders:
  assumes "books_ok ws ss"
    and "\<And>w. w \<in> set ws \<Longrightarrow> (mo_id (f w), mo_intent (f w), mo_gross (f w), mo_fee (f w), mo_net (f w), mo_refunded (f w))
      = (mo_id w, mo_intent w, mo_gross w, mo_fee w, mo_net w, mo_refunded w)"
  shows "books_ok (List.map f ws) ss"
proof -
  have "List.map mo_id (List.map f ws) = List.map mo_id ws" "List.map mo_intent (List.map f ws) = List.map mo_intent ws"
    using assms(2) by auto
  moreover have "\<exists>w \<in> set (List.map f ws). settles s w" if "s \<in> set ss" for s
  proof -
    from assms(1) that obtain w where "w \<in> set ws" "settles s w" by (auto simp: books_ok_def)
    with assms(2) [of w] show ?thesis by (intro bexI [of _ "f w"]) (auto simp: settles_def)
  qed
  moreover have "\<forall>w \<in> set (List.map f ws). order_ok w" using assms by (auto simp: books_ok_def order_ok_def)
  ultimately show ?thesis using assms(1) by (auto simp: books_ok_def simp del: map_map)
qed

lemma books_add_order:
  assumes "books_ok ws ss" "order_ok w" "\<forall>x \<in> set ws. mo_id x \<noteq> mo_id w \<and> mo_intent x \<noteq> mo_intent w"
  shows "books_ok (ws @ [w]) ss"
  using assms by (fastforce simp: books_ok_def)

lemma books_add_settlement:
  assumes "books_ok ws ss" "w \<in> set ws" "settles s w" "\<forall>x \<in> set ss. ms_order x \<noteq> ms_order s \<and> ms_id x \<noteq> ms_id s"
  shows "books_ok ws (ss @ [s])"
  using assms by (fastforce simp: books_ok_def)

lemma books_refund:
  assumes ok: "books_ok ws ss" and r: "\<And>w. w \<in> set ws \<Longrightarrow> mo_id w = oid \<Longrightarrow> 0 \<le> r \<and> r \<le> mo_gross w"
    and f: "\<And>w. (mo_id (f w), mo_intent (f w), mo_gross (f w), mo_fee (f w), mo_net (f w), mo_refunded (f w))
      = (mo_id w, mo_intent w, mo_gross w, mo_fee w, mo_net w, r)"
    and g: "\<And>s. (ms_id (g s), ms_order (g s), ms_gross (g s), ms_fee (g s), ms_net (g s), ms_refunded (g s))
      = (ms_id s, ms_order s, ms_gross s, ms_fee s, ms_net s, r)"
  shows "books_ok (List.map (\<lambda>w. if mo_id w = oid then f w else w) ws) (List.map (\<lambda>s. if ms_order s = oid then g s else s) ss)"
    (is "books_ok ?ws ?ss")
proof -
  have "List.map mo_id ?ws = List.map mo_id ws" "List.map mo_intent ?ws = List.map mo_intent ws"
    "List.map ms_id ?ss = List.map ms_id ss" "List.map ms_order ?ss = List.map ms_order ss"
    using f g by auto
  moreover have "\<forall>w \<in> set ?ws. order_ok w" using ok r f by (auto simp: books_ok_def order_ok_def)
  moreover have "\<exists>w \<in> set ?ws. settles s w" if "s \<in> set ?ss" for s
  proof -
    from that obtain s0 where s0: "s0 \<in> set ss" "s = (if ms_order s0 = oid then g s0 else s0)" by auto
    with ok obtain w where w: "w \<in> set ws" "settles s0 w" by (auto simp: books_ok_def)
    with s0 f [of w] g [of s0] r [of w] have "settles s (if mo_id w = oid then f w else w)"
      by (auto simp: settles_def)
    moreover have "(if mo_id w = oid then f w else w) \<in> set ?ws" using w(1) by (auto simp del: if_image_distrib)
    ultimately show ?thesis by blast
  qed
  ultimately show ?thesis using ok by (auto simp: books_ok_def simp del: map_map)
qed

lemma links_map:
  assumes "links_ok ss ps" and "\<And>s. s \<in> set ss \<Longrightarrow> ms_payout (f s) = ms_payout s \<or> ms_payout (f s) = None"
    and "\<And>p. p \<in> set ps \<Longrightarrow> po_id (g p) = po_id p"
  shows "links_ok (List.map f ss) (List.map g ps)"
proof -
  have ids: "List.map po_id (List.map g ps) = List.map po_id ps" using assms(3) by auto
  then have "po_id ` set (List.map g ps) = po_id ` set ps" by (metis set_map)
  moreover have "ms_payout (f s) = Some pid \<Longrightarrow> ms_payout s = Some pid" if "s \<in> set ss" for s pid
    using assms(2) [OF that] by auto
  ultimately show ?thesis using assms(1) ids by (fastforce simp: links_ok_def simp del: map_map)
qed

lemma links_map_settlements:
  "links_ok ss ps \<Longrightarrow> (\<And>s. s \<in> set ss \<Longrightarrow> ms_payout (f s) = ms_payout s \<or> ms_payout (f s) = None) \<Longrightarrow> links_ok (List.map f ss) ps"
  using links_map [of ss ps f "\<lambda>p. p"] by simp

lemma links_add_settlement: "links_ok ss ps \<Longrightarrow> ms_payout s = None \<Longrightarrow> links_ok (ss @ [s]) ps"
  by (auto simp: links_ok_def)

lemma links_add_payout:
  assumes "links_ok ss ps" "\<forall>q \<in> set ps. po_id q \<noteq> po_id p"
    and "\<And>s. s \<in> set ss \<Longrightarrow> ms_payout (f s) = ms_payout s \<or> ms_payout (f s) = Some (po_id p)"
  shows "links_ok (List.map f ss) (ps @ [p])"
proof -
  have "pid = po_id p \<or> pid \<in> po_id ` set ps" if "s \<in> set ss" "ms_payout (f s) = Some pid" for s pid
    using assms(1) assms(3) [OF that(1)] that by (auto simp: links_ok_def)
  with assms(1,2) show ?thesis by (fastforce simp: links_ok_def)
qed

subsection \<open>Every operation keeps the books\<close>

lemma joined: "(w, p) \<in> set (order_join db) \<Longrightarrow> w \<in> set (md_orders db) \<and> p \<in> set (md_intents db) \<and> pi_id p = mo_intent w"
  by (auto simp: order_join_def split: option.splits dest: sql_select_Some dest!: sql_select_Some [OF sym])

lemma create_checkout_rows:
  assumes "create_checkout_tx env sv r tx = Inr (tx', oid)"
  shows "\<exists>a price sales amt p w. calculate_order_amounts (sv_basis sv) (sv_tiers sv) price sales = Inr amt
    \<and> w = checkout_order env r a (coalesce_empty (checkout_version tx r)) amt
    \<and> (\<forall>x \<in> set (md_orders tx). mo_id x \<noteq> mo_id w \<and> mo_intent x \<noteq> mo_intent w)
    \<and> tx' = tx\<lparr>md_intents := md_intents tx @ [p], md_orders := md_orders tx @ [w]\<rparr> \<and> oid = mo_id w"
proof -
  from assms obtain a price sales amt tx1 where amt: "amounts_step sv price sales = Inr amt"
    and ins: "insert_intent env (checkout_intent env r a (coalesce_empty (checkout_version tx r)) (oa_gross amt)) tx = Inr tx1"
    "insert_order env (checkout_order env r a (coalesce_empty (checkout_version tx r)) amt) tx1 = Inr tx'" and oid: "oid = me_id env ''order'' 0"
    unfolding create_checkout_tx_def by (auto simp: step_simps)
  have "calculate_order_amounts (sv_basis sv) (sv_tiers sv) price sales = Inr amt"
    using amt by (auto simp: amounts_step_def split: sum.splits)
  with ins oid show ?thesis
    by (intro exI [of _ a] exI [of _ price] exI [of _ sales] exI [of _ amt]
          exI [of _ "checkout_intent env r a (coalesce_empty (checkout_version tx r)) (oa_gross amt)"])
      (auto simp: insert_intent_def insert_order_def step_simps list_ex_iff checkout_order_def)
qed

lemma create_checkout_ok:
  assumes ok: "market_ok tx" and tx: "create_checkout_tx env sv r tx = Inr (tx', oid)"
  shows "market_ok tx'"
proof -
  from create_checkout_rows [OF tx] obtain a price sales amt p w where
    amt: "calculate_order_amounts (sv_basis sv) (sv_tiers sv) price sales = Inr amt"
    and w: "w = checkout_order env r a (coalesce_empty (checkout_version tx r)) amt"
    and new: "\<forall>x \<in> set (md_orders tx). mo_id x \<noteq> mo_id w \<and> mo_intent x \<noteq> mo_intent w"
    and tx': "tx' = tx\<lparr>md_intents := md_intents tx @ [p], md_orders := md_orders tx @ [w]\<rparr>" by blast
  from order_amounts_core [OF amt] have "order_ok w"
    by (simp add: w order_ok_def checkout_order_def grid_dec6 cents_grid)
  with ok new show ?thesis by (auto simp: market_ok_def tx' intro!: books_add_order)
qed

lemma session_ok: "market_ok tx \<Longrightarrow> set_session_tx env oid intent session tx = Inr (tx', u) \<Longrightarrow> market_ok tx'"
  by (auto simp: set_session_tx_def step_simps split_beta market_ok_def sql_update_rows intro!: books_map_orders)

lemma checkout_failed_ok: "market_ok tx \<Longrightarrow> checkout_failed_tx env oid intent reason tx = Inr (tx', u) \<Longrightarrow> market_ok tx'"
  by (auto simp: checkout_failed_tx_def step_simps split_beta market_ok_def sql_update_rows intro!: books_map_orders)

text \<open>A duplicate event changes nothing.\<close>

lemma insert_transition_rows:
  assumes "insert_transition env e tx = Inr (tx1, inserted)"
  shows "(inserted \<longrightarrow> tx1 = tx\<lparr>md_events := md_events tx @ [e]\<rparr>) \<and> (\<not> inserted \<longrightarrow> tx1 = tx)
    \<and> inserted = (\<forall>x \<in> set (md_events tx). le_key x \<noteq> le_key e)"
  using assms by (auto simp: insert_transition_def step_simps list_ex_iff split: if_splits)

definition fulfilled :: "mp_env \<Rightarrow> checkout_completed \<Rightarrow> mp_order \<Rightarrow> string \<Rightarrow> mp_db \<Rightarrow> mp_db \<Rightarrow> bool" where
  "fulfilled env c w install tx tx' \<longleftrightarrow>
     md_orders tx' = List.map (\<lambda>x. if mo_id x = mo_id w then paid_order env c install x else x) (md_orders tx)
   \<and> md_payouts tx' = md_payouts tx \<and> md_events tx' = md_events tx
   \<and> md_intents tx' = List.map (\<lambda>p. if pi_id p = mo_intent w then p\<lparr>pi_status := ''completed'', pi_checkout := set_unless_empty (cc_checkout c) (pi_checkout p),
           pi_payment := set_unless_empty (cc_payment c) (pi_payment p), pi_updated := me_now env\<rparr> else p) (md_intents tx)
   \<and> (if list_ex (\<lambda>s. ms_order s = mo_id w) (md_settlements tx) then md_settlements tx' = md_settlements tx
      else md_settlements tx' = md_settlements tx @ [settlement_of env w]
         \<and> (\<forall>x \<in> set (md_settlements tx). ms_order x \<noteq> mo_id w \<and> ms_id x \<noteq> me_id env ''settlement'' 0))"

lemma fulfil_rows:
  assumes "fulfil_order env c w tx = Inr tx'"
  shows "\<exists>install. fulfilled env c w install tx tx'"
proof -
  from assms obtain tx2 tx3 install tx4 where steps: "complete_intent env (mo_intent w) c tx = Inr tx2"
    "record_install env w tx2 = Inr (tx3, install)" "mark_order_paid env c w install tx3 = Inr tx4"
    "insert_settlement env w tx4 = Inr tx'"
    unfolding fulfil_order_def by (auto simp: try_step_Inr)
  from steps(1) have 1: "md_orders tx2 = md_orders tx" "md_settlements tx2 = md_settlements tx" "md_payouts tx2 = md_payouts tx"
    "md_events tx2 = md_events tx" "md_intents tx2 = List.map (\<lambda>p. if pi_id p = mo_intent w then p\<lparr>pi_status := ''completed'', pi_checkout := set_unless_empty (cc_checkout c) (pi_checkout p),
           pi_payment := set_unless_empty (cc_payment c) (pi_payment p), pi_updated := me_now env\<rparr> else p) (md_intents tx)"
    by (auto simp: complete_intent_def step_simps sql_update_rows)
  from steps(2) have 2: "md_orders tx3 = md_orders tx2" "md_settlements tx3 = md_settlements tx2" "md_payouts tx3 = md_payouts tx2"
    "md_events tx3 = md_events tx2" "md_intents tx3 = md_intents tx2"
    by (auto simp: record_install_def step_simps split: if_splits)
  from steps(3) have 3: "md_orders tx4 = List.map (\<lambda>x. if mo_id x = mo_id w then paid_order env c install x else x) (md_orders tx3)"
    "md_settlements tx4 = md_settlements tx3" "md_payouts tx4 = md_payouts tx3" "md_events tx4 = md_events tx3" "md_intents tx4 = md_intents tx3"
    by (auto simp: mark_order_paid_def step_simps sql_update_rows)
  from steps(4) 1 2 3 show ?thesis
    by (intro exI [of _ install]) (auto simp: fulfilled_def insert_settlement_def step_simps list_ex_iff split: if_splits)
qed

lemma completed_cases:
  assumes "completed_tx env c tx = Inr (tx', oid)"
  obtains w p where "(w, p) \<in> set (order_join tx)" "load_order_for_update env tx (cc_order c) (cc_intent c) = Inr (w, p)" "oid = mo_id w"
      "\<exists>e \<in> set (md_events tx). le_key e = le_key (checkout_event env c w p)" "tx' = tx"
    | w p where "(w, p) \<in> set (order_join tx)" "load_order_for_update env tx (cc_order c) (cc_intent c) = Inr (w, p)" "oid = mo_id w"
      "\<forall>e \<in> set (md_events tx). le_key e \<noteq> le_key (checkout_event env c w p)"
      "fulfil_order env c w (tx\<lparr>md_events := md_events tx @ [checkout_event env c w p]\<rparr>) = Inr tx'"
proof -
  from assms obtain w p tx1 inserted where load: "load_order_for_update env tx (cc_order c) (cc_intent c) = Inr (w, p)"
    and ins: "insert_transition env (checkout_event env c w p) tx = Inr (tx1, inserted)"
    and rest: "(if \<not> inserted then Inr (tx1, mo_id w) else try_step (fulfil_order env c w tx1) (\<lambda>tx2. Inr (tx2, mo_id w))) = Inr (tx', oid)"
    unfolding completed_tx_def by (auto simp: try_step_Inr)
  from load have order: "(w, p) \<in> set (order_join tx)"
    by (auto simp: load_order_for_update_def try_step_Inr dest!: sql_select_Some)
  show thesis
  proof (cases inserted)
    case True
    then have tx1: "tx1 = tx\<lparr>md_events := md_events tx @ [checkout_event env c w p]\<rparr>"
      and fresh: "\<forall>e \<in> set (md_events tx). le_key e \<noteq> le_key (checkout_event env c w p)"
      using insert_transition_rows [OF ins] by simp_all
    from True rest have "fulfil_order env c w tx1 = Inr tx'" "oid = mo_id w" by (auto simp: try_step_Inr)
    then show ?thesis using that(2) [OF order load _ fresh] by (simp only: tx1)
  next
    case False
    then have "tx1 = tx" "\<exists>e \<in> set (md_events tx). le_key e = le_key (checkout_event env c w p)"
      using insert_transition_rows [OF ins] by auto
    then show ?thesis using that(1) [OF order load] rest False by simp
  qed
qed

lemma completed_ok:
  assumes ok: "market_ok tx" and tx: "completed_tx env c tx = Inr (tx', oid)"
  shows "market_ok tx'"
  using tx
proof (cases rule: completed_cases)
  case (1 w p)
  with ok show ?thesis by simp
next
  case (2 w p)
  from fulfil_rows [OF 2(5)] obtain install where
    "fulfilled env c w install (tx\<lparr>md_events := md_events tx @ [checkout_event env c w p]\<rparr>) tx'" by blast
  then have rows: "md_orders tx' = List.map (\<lambda>x. if mo_id x = mo_id w then paid_order env c install x else x) (md_orders tx)"
      "md_payouts tx' = md_payouts tx"
    and ss: "if list_ex (\<lambda>s. ms_order s = mo_id w) (md_settlements tx) then md_settlements tx' = md_settlements tx
       else md_settlements tx' = md_settlements tx @ [settlement_of env w]
          \<and> (\<forall>x \<in> set (md_settlements tx). ms_order x \<noteq> mo_id w \<and> ms_id x \<noteq> me_id env ''settlement'' 0)"
    by (simp_all add: fulfilled_def)
  have books: "books_ok (md_orders tx') (md_settlements tx)"
    unfolding rows using ok by (auto simp: market_ok_def paid_order_def intro!: books_map_orders)
  have w: "w \<in> set (md_orders tx)" using joined [OF 2(1)] by blast
  show ?thesis
  proof (cases "list_ex (\<lambda>s. ms_order s = mo_id w) (md_settlements tx)")
    case True
    with ss rows books ok show ?thesis by (auto simp: market_ok_def)
  next
    case False
    have "settles (settlement_of env w) (paid_order env c install w)"
      using ok w by (auto simp: settles_def settlement_of_def paid_order_def market_ok_def books_ok_def order_ok_def)
    moreover have "paid_order env c install w \<in> set (md_orders tx')" using w by (auto simp: rows)
    ultimately have "books_ok (md_orders tx') (md_settlements tx @ [settlement_of env w])"
      using books ss False by (intro books_add_settlement) (auto simp: settlement_of_def)
    moreover have "links_ok (md_settlements tx @ [settlement_of env w]) (md_payouts tx)"
      using ok by (intro links_add_settlement) (auto simp: market_ok_def settlement_of_def)
    ultimately show ?thesis using ss False rows(2) by (simp add: market_ok_def)
  qed
qed

lemma market_refund_cases:
  assumes "refund_tx env r tx = Inr (tx', u)"
  obtains w p where "(w, p) \<in> set (order_join tx)" "load_order_for_refund env tx (mr_intent r) (mr_payment r) = Inr (w, p)"
      "\<exists>e \<in> set (md_events tx). le_key e = le_key (refund_event env r w p)" "tx' = tx"
    | w p where "(w, p) \<in> set (order_join tx)" "load_order_for_refund env tx (mr_intent r) (mr_payment r) = Inr (w, p)"
      "\<forall>e \<in> set (md_events tx). le_key e \<noteq> le_key (refund_event env r w p)"
      "tx' = refund_rows env w (refunded_total r w) (tx\<lparr>md_events := md_events tx @ [refund_event env r w p]\<rparr>)"
proof -
  from assms obtain w p tx1 inserted where load: "load_order_for_refund env tx (mr_intent r) (mr_payment r) = Inr (w, p)"
    and ins: "insert_transition env (refund_event env r w p) tx = Inr (tx1, inserted)"
    and rest: "tx' = (if inserted then refund_rows env w (refunded_total r w) tx1 else tx1)"
    unfolding refund_tx_def by (auto simp: try_step_Inr split: if_splits)
  from load have order: "(w, p) \<in> set (order_join tx)"
    by (auto simp: load_order_for_refund_def try_step_Inr dest!: sql_select_Some)
  show thesis
  proof (cases inserted)
    case True
    then have tx1: "tx1 = tx\<lparr>md_events := md_events tx @ [refund_event env r w p]\<rparr>"
      and fresh: "\<forall>e \<in> set (md_events tx). le_key e \<noteq> le_key (refund_event env r w p)"
      using insert_transition_rows [OF ins] by simp_all
    with rest True show ?thesis using that(2) [OF order load fresh] by simp
  next
    case False
    then have "tx1 = tx" "\<exists>e \<in> set (md_events tx). le_key e = le_key (refund_event env r w p)"
      using insert_transition_rows [OF ins] by auto
    then show ?thesis using that(1) [OF order load] rest False by simp
  qed
qed

lemma market_refund_ok:
  assumes ok: "market_ok tx" and pos: "0 < mr_amount r" and tx: "refund_tx env r tx = Inr (tx', u)"
  shows "market_ok tx'"
  using tx
proof (cases rule: market_refund_cases)
  case (1 w p)
  with ok show ?thesis by simp
next
  case (2 w p)
  have w: "w \<in> set (md_orders tx)" "order_ok w" using joined [OF 2(1)] ok by (auto simp: market_ok_def books_ok_def)
  have bound: "0 \<le> refunded_total r w" "refunded_total r w \<le> mo_gross w"
    using w(2) pos by (auto simp: refunded_total_def order_ok_def)
  then have r: "0 \<le> dec6 (refunded_total r w)" "dec6 (refunded_total r w) \<le> mo_gross w"
    using w(2) dec6_mono [OF bound] by (simp_all add: dec6_nonneg order_ok_def grid_dec6 cents_grid)
  have "w' = w" if "w' \<in> set (md_orders tx)" "mo_id w' = mo_id w" for w'
    using ok w(1) that by (auto simp: market_ok_def books_ok_def distinct_map dest: inj_onD)
  then have "books_ok (md_orders tx') (md_settlements tx')"
    unfolding 2(4) refund_rows_def sql_update_rows using ok r by (simp add: market_ok_def) (rule books_refund, auto)
  moreover have "links_ok (md_settlements tx') (md_payouts tx')"
    unfolding 2(4) refund_rows_def sql_update_rows using ok by (simp add: market_ok_def) (rule links_map_settlements, auto)
  ultimately show ?thesis by (simp add: market_ok_def)
qed

subsection \<open>Payouts move forward\<close>

text \<open>A payout keeps what it pays to whom, and its state once it has left \<open>payout_pending\<close>.\<close>

definition payout_evolves :: "mp_payout \<Rightarrow> mp_payout \<Rightarrow> bool" where
  "payout_evolves p q \<longleftrightarrow> po_id q = po_id p \<and> po_org q = po_org p \<and> po_user q = po_user p \<and> po_amount q = po_amount p
     \<and> po_currency q = po_currency p \<and> (po_status p = ''payout_pending'' \<or> po_status q = po_status p)"

definition payouts_evolve :: "mp_payout list \<Rightarrow> mp_payout list \<Rightarrow> bool" where
  "payouts_evolve ps qs \<longleftrightarrow> list_all2 payout_evolves ps (take (length ps) qs)"

lemma payout_evolves_refl [simp]: "payout_evolves p p"
  by (simp add: payout_evolves_def)

lemma payout_evolves_trans: "payout_evolves p q \<Longrightarrow> payout_evolves q r \<Longrightarrow> payout_evolves p r"
  by (auto simp: payout_evolves_def)

lemma payouts_evolve_refl [simp]: "payouts_evolve ps ps"
  by (simp add: payouts_evolve_def list_all2_refl)

lemma payouts_evolve_trans:
  assumes "payouts_evolve ps qs" "payouts_evolve qs rs"
  shows "payouts_evolve ps rs"
proof -
  have len: "length ps \<le> length qs" using assms(1) by (auto simp: payouts_evolve_def dest: list_all2_lengthD)
  have "list_all2 payout_evolves (take (length ps) qs) (take (length ps) (take (length qs) rs))"
    using assms(2) unfolding payouts_evolve_def by (rule list_all2_takeI)
  with len have "list_all2 payout_evolves (take (length ps) qs) (take (length ps) rs)" by (simp add: min_absorb1)
  with assms(1) show ?thesis unfolding payouts_evolve_def
    using list_all2_trans [of payout_evolves payout_evolves payout_evolves] payout_evolves_trans by blast
qed

lemma payouts_evolve_map: "(\<And>p. p \<in> set ps \<Longrightarrow> payout_evolves p (g p)) \<Longrightarrow> payouts_evolve ps (List.map g ps)"
  by (simp add: payouts_evolve_def list_all2_conv_all_nth)

lemma payouts_evolve_add: "payouts_evolve ps (ps @ new)"
  by (simp add: payouts_evolve_def list_all2_refl)

lemma payouts_evolve_member:
  assumes "payouts_evolve ps qs" "p \<in> set ps"
  shows "\<exists>q \<in> set qs. payout_evolves p q"
proof -
  from assms(2) obtain n where n: "n < length ps" "p = ps ! n" by (auto simp: in_set_conv_nth)
  with assms(1) have "payout_evolves p (take (length ps) qs ! n)" "n < length qs"
    by (auto simp: payouts_evolve_def list_all2_conv_all_nth)
  with n show ?thesis by auto
qed

definition good_step :: "mp_db \<Rightarrow> mp_db \<Rightarrow> bool" where
  "good_step db db' \<longleftrightarrow> (market_ok db \<longrightarrow> market_ok db' \<and> payouts_evolve (md_payouts db) (md_payouts db'))"

lemma good_refl [simp]: "good_step db db"
  by (simp add: good_step_def)

lemma good_trans: "good_step a b \<Longrightarrow> good_step b c \<Longrightarrow> good_step a c"
  by (auto simp: good_step_def intro: payouts_evolve_trans)

lemma good_changes:
  "changes_by body db db' \<Longrightarrow> (\<And>x. body db = Inr (db', x) \<Longrightarrow> good_step db db') \<Longrightarrow> good_step db db'"
  by (auto simp: changes_by_def)

lemma create_checkout_good: "create_checkout_tx env sv r tx = Inr (tx', oid) \<Longrightarrow> good_step tx tx'"
  using create_checkout_ok by (auto simp: good_step_def dest: create_checkout_rows)

lemma session_good: "set_session_tx env oid intent session tx = Inr (tx', u) \<Longrightarrow> good_step tx tx'"
  using session_ok by (auto simp: good_step_def set_session_tx_def step_simps split_beta)

lemma checkout_failed_good: "checkout_failed_tx env oid intent reason tx = Inr (tx', u) \<Longrightarrow> good_step tx tx'"
  using checkout_failed_ok by (auto simp: good_step_def checkout_failed_tx_def step_simps split_beta)

lemma completed_payouts: "completed_tx env c tx = Inr (tx', oid) \<Longrightarrow> md_payouts tx' = md_payouts tx"
  by (erule completed_cases) (auto dest!: fulfil_rows simp: fulfilled_def)

lemma completed_good: "completed_tx env c tx = Inr (tx', oid) \<Longrightarrow> good_step tx tx'"
  using completed_ok completed_payouts by (simp add: good_step_def)

lemma refund_good: "0 < mr_amount r \<Longrightarrow> refund_tx env r tx = Inr (tx', u) \<Longrightarrow> good_step tx tx'"
  using market_refund_ok by (auto simp: good_step_def refund_rows_def elim!: market_refund_cases)

lemma same_payout: "links_ok ss ps \<Longrightarrow> p \<in> set ps \<Longrightarrow> q \<in> set ps \<Longrightarrow> po_id p = po_id q \<Longrightarrow> p = q"
  by (auto simp: links_ok_def distinct_map dest: inj_onD)

lemma books_settlement_states:
  "books_ok ws ss \<Longrightarrow> books_ok ws (settlements_paid_out env pid ss)" "books_ok ws ss \<Longrightarrow> books_ok ws (settlements_released env pid ss)"
  by (auto simp: settlements_paid_out_def settlements_released_def sql_update_rows intro!: books_map_settlements)

lemma links_settlement_states:
  assumes "links_ok ss ps" "\<And>p. p \<in> set ps \<Longrightarrow> po_id (g p) = po_id p"
  shows "links_ok (settlements_paid_out env pid ss) (List.map g ps)" "links_ok (settlements_released env pid ss) (List.map g ps)"
  using assms by (auto simp: settlements_paid_out_def settlements_released_def sql_update_rows intro!: links_map split: if_splits)

lemma paid_good:
  assumes tx: "payout_paid_tx env pid ref tx = Inr (tx', u)"
  shows "good_step tx tx'"
  unfolding good_step_def
proof
  assume ok: "market_ok tx"
  let ?g = "\<lambda>q. if po_id q = pid then q\<lparr>po_status := ''paid_out'', po_ref := Some (trim_space ref), po_updated := me_now env\<rparr> else q"
  from tx obtain p where p: "p \<in> set (md_payouts tx)" "po_id p = pid" "po_status p = ''payout_pending'' \<or> po_status p = ''paid_out''"
    and tx': "tx' = tx\<lparr>md_payouts := List.map ?g (md_payouts tx), md_settlements := settlements_paid_out env pid (md_settlements tx)\<rparr>"
    by (auto simp: payout_paid_tx_def step_simps sql_update_rows dest!: sql_select_Some)
  have "payout_evolves q (?g q)" if "q \<in> set (md_payouts tx)" for q
  proof (cases "po_id q = pid")
    case True
    with p that ok have "q = p" by (auto simp: market_ok_def dest: same_payout)
    with p show ?thesis by (auto simp: payout_evolves_def)
  qed simp
  then have "payouts_evolve (md_payouts tx) (md_payouts tx')" by (simp add: tx' payouts_evolve_map)
  moreover have "market_ok tx'" using ok by (auto simp: tx' market_ok_def intro!: books_settlement_states links_settlement_states)
  ultimately show "market_ok tx' \<and> payouts_evolve (md_payouts tx) (md_payouts tx')" by blast
qed

lemma transition_good:
  assumes tx: "payout_transition env e to ref p tx = Inr tx'" and p: "p \<in> set (md_payouts tx)"
  shows "good_step tx tx'"
  unfolding good_step_def
proof
  assume ok: "market_ok tx"
  let ?g = "\<lambda>q. if po_id q = po_id p then end_payout env e to ref q else q"
  from tx have status: "po_status p = ''payout_pending'' \<or> po_status p = to"
    and tx': "tx' = tx\<lparr>md_payouts := List.map ?g (md_payouts tx),
      md_settlements := (if to = ''paid_out'' then settlements_paid_out env (po_id p) (md_settlements tx)
                         else settlements_released env (po_id p) (md_settlements tx))\<rparr>"
    by (auto simp: payout_transition_def step_simps sql_update_rows)
  have "payout_evolves q (?g q)" if "q \<in> set (md_payouts tx)" for q
  proof (cases "po_id q = po_id p")
    case True
    with p that ok have "q = p" by (auto simp: market_ok_def dest: same_payout)
    with status show ?thesis by (auto simp: payout_evolves_def end_payout_def)
  qed simp
  then have "payouts_evolve (md_payouts tx) (md_payouts tx')" by (simp add: tx' payouts_evolve_map)
  moreover have "market_ok tx'"
    using ok by (auto simp: tx' market_ok_def end_payout_def intro!: books_settlement_states links_settlement_states)
  ultimately show "market_ok tx' \<and> payouts_evolve (md_payouts tx) (md_payouts tx')" by blast
qed

lemma lifecycle_good:
  assumes "payout_lifecycle_tx env e to tx = Inr (tx', pid)"
  shows "good_step tx tx'"
proof -
  from assms obtain p provider ref tx1 inserted where
    load: "load_payout_for_lifecycle env tx (trim_space (pv_payout e)) (trim_space (pv_ref e)) (lower_or [] (pv_provider e)) = Inr p"
    and ins: "insert_transition env (payout_lifecycle_event env e provider to p) tx = Inr (tx1, inserted)"
    and rest: "(if \<not> inserted then Inr (tx1, po_id p) else try_step (payout_transition env e to ref p tx1) (\<lambda>tx2. Inr (tx2, po_id p))) = Inr (tx', pid)"
    unfolding payout_lifecycle_tx_def by (auto simp: step_simps)
  from load have p: "p \<in> set (md_payouts tx)"
    by (auto simp: load_payout_for_lifecycle_def try_step_Inr split: option.splits dest!: sql_select_Some)
  from insert_transition_rows [OF ins] have same: "md_orders tx1 = md_orders tx" "md_settlements tx1 = md_settlements tx" "md_payouts tx1 = md_payouts tx"
    by (cases inserted; simp)+
  then have "good_step tx tx1" by (simp add: good_step_def market_ok_def)
  moreover have "good_step tx1 tx'"
  proof (cases inserted)
    case True
    with rest have "payout_transition env e to ref p tx1 = Inr tx'" by (auto simp: try_step_Inr)
    with p same show ?thesis by (auto intro!: transition_good)
  qed (use rest in simp)
  ultimately show ?thesis by (rule good_trans)
qed

subsection \<open>New payouts\<close>

lemma insert_payout_rows:
  assumes "insert_payout env p tx = Inr tx1"
  shows "tx1 = tx\<lparr>md_payouts := md_payouts tx @ [p]\<rparr> \<and> (\<forall>q \<in> set (md_payouts tx). po_id q \<noteq> po_id p)"
  using assms by (auto simp: insert_payout_def step_simps list_ex_iff)

lemma linked_good:
  assumes ins: "insert_payout env p tx = Inr tx1"
    and f: "\<And>s. (ms_id (f s), ms_order (f s), ms_gross (f s), ms_fee (f s), ms_net (f s), ms_refunded (f s))
      = (ms_id s, ms_order s, ms_gross s, ms_fee s, ms_net s, ms_refunded s)"
    and link: "\<And>s. ms_payout (f s) = ms_payout s \<or> ms_payout (f s) = Some (po_id p)"
  shows "good_step tx (tx1\<lparr>md_settlements := List.map f (md_settlements tx1)\<rparr>)"
proof -
  from insert_payout_rows [OF ins] have tx1: "tx1 = tx\<lparr>md_payouts := md_payouts tx @ [p]\<rparr>"
    and new: "\<forall>q \<in> set (md_payouts tx). po_id q \<noteq> po_id p" by blast+
  have "market_ok tx \<Longrightarrow> books_ok (md_orders tx) (List.map f (md_settlements tx))"
    using f by (intro books_map_settlements) (auto simp: market_ok_def)
  moreover have "market_ok tx \<Longrightarrow> links_ok (List.map f (md_settlements tx)) (md_payouts tx @ [p])"
    using new link by (intro links_add_payout) (auto simp: market_ok_def)
  ultimately show ?thesis by (simp add: good_step_def market_ok_def tx1 payouts_evolve_add)
qed

lemma payout_pending_rows:
  assumes "payout_pending_tx env sv name sid ref tx = Inr (tx', pid)"
  shows "pid = me_id env ''payout'' 0 \<and> (\<exists>s amt tx1. sql_select (\<lambda>s. ms_id s = sid) (md_settlements tx) = Some s
    \<and> calculate_payout_amount sv s (me_now env) = Inr amt
    \<and> insert_payout env (queued_payout env (me_id env ''payout'' 0) (ms_publisher_org s) (ms_publisher s) amt ''usd'' name
        (operator_metadata ref) (me_now env)) tx = Inr tx1
    \<and> tx' = tx1\<lparr>md_settlements := fst (sql_update (\<lambda>x. ms_id x = ms_id s) (linked_to (me_now env) (me_id env ''payout'' 0)) (md_settlements tx1))\<rparr>)"
  using assms unfolding payout_pending_tx_def by (simp add: try_step_Inr) blast

lemma payout_pending_good:
  assumes "payout_pending_tx env sv name sid ref tx = Inr (tx', pid)"
  shows "good_step tx tx'"
proof -
  from payout_pending_rows [OF assms] obtain s :: mp_settlement and amt tx1 where
    ins: "insert_payout env (queued_payout env (me_id env ''payout'' 0) (ms_publisher_org s) (ms_publisher s) amt ''usd'' name
        (operator_metadata ref) (me_now env)) tx = Inr tx1"
    and tx': "tx' = tx1\<lparr>md_settlements := fst (sql_update (\<lambda>x. ms_id x = ms_id s) (linked_to (me_now env) (me_id env ''payout'' 0)) (md_settlements tx1))\<rparr>"
    by blast
  show ?thesis unfolding tx' sql_update_rows by (rule linked_good [OF ins]) (auto simp: queued_payout_def linked_to_def)
qed

lemma pay_group_good:
  assumes "pay_group env name now n g tx = Inr (tx', ids)"
  shows "good_step tx tx'"
proof -
  from assms obtain tx1 where ins: "insert_payout env (queued_payout env (me_id env ''payout'' n) (pg_org g) (pg_user g) (pg_amount g) (pg_currency g) name
        Map.empty now) tx = Inr tx1"
    and tx': "tx' = tx1\<lparr>md_settlements := List.map (\<lambda>s. if ms_id s \<in> set (pg_settlements g) \<and> ms_status s = ''available'' \<and> ms_payout s = None
      then linked_to now (me_id env ''payout'' n) s else s) (md_settlements tx1)\<rparr>"
    unfolding pay_group_def by (auto simp: step_simps split_beta sql_update_rows)
  show ?thesis unfolding tx' by (rule linked_good [OF ins]) (auto simp: queued_payout_def linked_to_def)
qed

lemma pay_groups_good: "pay_groups env sv name now n gs tx = Inr (tx', ids) \<Longrightarrow> good_step tx tx'"
proof (induction gs arbitrary: n tx tx' ids)
  case (Cons g gs)
  show ?case
  proof (cases "group_is_due sv now g")
    case True
    with Cons.prems obtain tx1 ids1 ids2 where "pay_group env name now n g tx = Inr (tx1, ids1)"
      "pay_groups env sv name now (Suc n) gs tx1 = Inr (tx', ids2)" by (auto simp: try_step_Inr)
    then show ?thesis using pay_group_good Cons.IH good_trans by blast
  qed (use Cons in auto)
qed simp

lemma due_payouts_good: "due_payouts_tx env sv name now tx = Inr (tx', ids) \<Longrightarrow> good_step tx tx'"
  by (auto simp: due_payouts_tx_def try_step_Inr intro: pay_groups_good)

subsection \<open>Dispatch\<close>

text \<open>A record of a dispatch changes what the payout says about it, nothing else.\<close>

definition dispatch_marked :: "mp_db \<Rightarrow> mp_db \<Rightarrow> bool" where
  "dispatch_marked db db' \<longleftrightarrow>
     (\<exists>g. db' = db\<lparr>md_payouts := List.map g (md_payouts db)\<rparr>
        \<and> (\<forall>p. payout_evolves p (g p) \<and> po_status (g p) = po_status p \<and> po_created (g p) = po_created p))"

lemma dispatch_marked_refl [simp]: "dispatch_marked db db"
  unfolding dispatch_marked_def by (rule exI [of _ "\<lambda>p. p"]) simp

lemma dispatch_marked_good: "dispatch_marked db db' \<Longrightarrow> good_step db db'"
  by (auto simp: dispatch_marked_def good_step_def market_ok_def payout_evolves_def
      intro!: payouts_evolve_map links_map [where f = "\<lambda>s. s", simplified])

lemma record_success_marked: "dispatch_marked db (fst (record_dispatch_success env pid name ref db))"
proof -
  have "fst (record_dispatch_success env pid name ref db) = db
    \<or> fst (record_dispatch_success env pid name ref db) = db\<lparr>md_payouts := List.map (\<lambda>p. if po_id p = pid \<and> po_status p \<in> {''payout_pending'', ''paid_out''}
        then p\<lparr>po_provider := name, po_ref := nullif_empty ref,
               po_meta := (po_meta p)(''dispatch_status'' \<mapsto> MetaText ''dispatched'', ''provider_dispatched_at'' \<mapsto> MetaTime (me_now env)),
               po_updated := me_now env\<rparr> else p) (md_payouts db)\<rparr>"
    by (auto simp: record_dispatch_success_def Let_def split_beta sql_update_rows)
  then show ?thesis
  proof
    assume "fst (record_dispatch_success env pid name ref db) = db\<lparr>md_payouts := List.map (\<lambda>p. if po_id p = pid \<and> po_status p \<in> {''payout_pending'', ''paid_out''}
        then p\<lparr>po_provider := name, po_ref := nullif_empty ref,
               po_meta := (po_meta p)(''dispatch_status'' \<mapsto> MetaText ''dispatched'', ''provider_dispatched_at'' \<mapsto> MetaTime (me_now env)),
               po_updated := me_now env\<rparr> else p) (md_payouts db)\<rparr>" (is "_ = db\<lparr>md_payouts := List.map ?g _\<rparr>")
    then show ?thesis unfolding dispatch_marked_def by (intro exI [of _ ?g]) (auto simp: payout_evolves_def)
  qed simp
qed

lemma record_failure_marked: "dispatch_marked db (fst (record_dispatch_failure env pid db))"
proof -
  have "fst (record_dispatch_failure env pid db) = db
    \<or> fst (record_dispatch_failure env pid db) = db\<lparr>md_payouts := List.map (\<lambda>p. if po_id p = pid \<and> po_status p = ''payout_pending''
        then p\<lparr>po_meta := (po_meta p)(''dispatch_status'' \<mapsto> MetaText ''failed'', ''provider_dispatch_failed_at'' \<mapsto> MetaTime (me_now env)),
               po_updated := me_now env\<rparr> else p) (md_payouts db)\<rparr>"
    by (auto simp: record_dispatch_failure_def Let_def split_beta sql_update_rows)
  then show ?thesis
  proof
    assume "fst (record_dispatch_failure env pid db) = db\<lparr>md_payouts := List.map (\<lambda>p. if po_id p = pid \<and> po_status p = ''payout_pending''
        then p\<lparr>po_meta := (po_meta p)(''dispatch_status'' \<mapsto> MetaText ''failed'', ''provider_dispatch_failed_at'' \<mapsto> MetaTime (me_now env)),
               po_updated := me_now env\<rparr> else p) (md_payouts db)\<rparr>" (is "_ = db\<lparr>md_payouts := List.map ?g _\<rparr>")
    then show ?thesis unfolding dispatch_marked_def by (intro exI [of _ ?g]) (auto simp: payout_evolves_def)
  qed simp
qed

text \<open>What one dispatch does: at most one request, for a payout that is in the table.\<close>

lemma dispatch_one:
  assumes "dispatch_persisted_payout env sv pid w = (w', res)"
  shows "dispatch_marked (mw_db w) (mw_db w')
    \<and> (mw_sent w' = mw_sent w \<or> (\<exists>p ids. p \<in> set (md_payouts (mw_db w)) \<and> mw_sent w' = mw_sent w @ [dispatch_request p ids]))"
proof (cases "load_dispatch_intent env (mw_db w) pid")
  case (Inl e)
  with assms show ?thesis by (simp add: dispatch_persisted_payout_def)
next
  case (Inr x)
  obtain p ids where x: "x = (p, ids)" by fastforce
  with Inr have p: "p \<in> set (md_payouts (mw_db w))"
    by (auto simp: load_dispatch_intent_def load_payout_def try_step_Inr dest!: sql_select_Some)
  obtain sent out where d: "dispatch_payout env sv (dispatch_request p ids) = (sent, out)" by fastforce
  then have sent: "sent = [] \<or> sent = [dispatch_request p ids]" by (auto simp: dispatch_payout_def split: sum.splits)
  have "w' = w \<or> (mw_sent w' = mw_sent w @ sent \<and> dispatch_marked (mw_db w) (mw_db w'))"
  proof (cases out)
    case (Inl e)
    with assms Inr x d record_failure_marked [of "mw_db w" env "po_id p"] show ?thesis
      by (auto simp: dispatch_persisted_payout_def split: if_splits prod.splits option.splits)
  next
    case (Inr y)
    with assms \<open>load_dispatch_intent env (mw_db w) pid = Inr x\<close> x d
      record_success_marked [of "mw_db w" env "po_id p" "fst y" "snd y"] show ?thesis
      by (cases y) (auto simp: dispatch_persisted_payout_def split: if_splits prod.splits option.splits)
  qed
  with sent p show ?thesis by auto
qed

subsection \<open>Runs of the service\<close>

text \<open>A request the provider was sent for a payout that is in the table.\<close>

definition asked_for :: "mp_db \<Rightarrow> payout_request \<Rightarrow> bool" where
  "asked_for db r \<longleftrightarrow> list_ex (\<lambda>p. pr_payout r = po_id p \<and> pr_org r = po_org p \<and> pr_user r = po_user p
      \<and> pr_amount r = round_amount (po_amount p) \<and> pr_currency r = normalize_marketplace_currency (po_currency p)) (md_payouts db)"

lemma asked_for_later:
  assumes "payouts_evolve (md_payouts db) (md_payouts db')" "asked_for db r"
  shows "asked_for db' r"
proof -
  from assms(2) obtain p where p: "p \<in> set (md_payouts db)" "pr_payout r = po_id p" "pr_org r = po_org p" "pr_user r = po_user p"
    "pr_amount r = round_amount (po_amount p)" "pr_currency r = normalize_marketplace_currency (po_currency p)"
    by (auto simp: asked_for_def list_ex_iff)
  from payouts_evolve_member [OF assms(1) p(1)] obtain q where "q \<in> set (md_payouts db')" "payout_evolves p q" by blast
  with p show ?thesis by (auto simp: asked_for_def list_ex_iff payout_evolves_def intro!: bexI [of _ q])
qed

definition world_step :: "mp_world \<Rightarrow> mp_world \<Rightarrow> bool" where
  "world_step w w' \<longleftrightarrow> good_step (mw_db w) (mw_db w')
     \<and> (\<exists>new. mw_sent w' = mw_sent w @ new \<and> (market_ok (mw_db w) \<longrightarrow> (\<forall>r \<in> set new. asked_for (mw_db w') r)))"

lemma world_step_refl [simp]: "world_step w w"
  by (simp add: world_step_def)

lemma world_step_trans:
  assumes "world_step u v" "world_step v w"
  shows "world_step u w"
proof -
  from assms obtain a b where new: "mw_sent v = mw_sent u @ a" "mw_sent w = mw_sent v @ b"
    and a: "market_ok (mw_db u) \<Longrightarrow> \<forall>r \<in> set a. asked_for (mw_db v) r"
    and b: "market_ok (mw_db v) \<Longrightarrow> \<forall>r \<in> set b. asked_for (mw_db w) r" by (auto simp: world_step_def)
  have good: "good_step (mw_db u) (mw_db v)" "good_step (mw_db v) (mw_db w)" using assms by (simp_all add: world_step_def)
  have "market_ok (mw_db u) \<Longrightarrow> \<forall>r \<in> set (a @ b). asked_for (mw_db w) r"
    using a b good asked_for_later by (fastforce simp: good_step_def)
  with new good good_trans show ?thesis by (auto simp: world_step_def)
qed

lemma world_step_db: "good_step (mw_db w) db \<Longrightarrow> world_step w (w\<lparr>mw_db := db\<rparr>)"
  by (simp add: world_step_def)

lemma world_dispatch: "dispatch_persisted_payout env sv pid w = (w', res) \<Longrightarrow> world_step w w'"
proof -
  assume d: "dispatch_persisted_payout env sv pid w = (w', res)"
  from dispatch_one [OF d] have mark: "dispatch_marked (mw_db w) (mw_db w')" by blast
  then have good: "good_step (mw_db w) (mw_db w')" by (rule dispatch_marked_good)
  from dispatch_one [OF d] consider "mw_sent w' = mw_sent w"
    | p ids where "p \<in> set (md_payouts (mw_db w))" "mw_sent w' = mw_sent w @ [dispatch_request p ids]" by blast
  then show ?thesis
  proof cases
    case 1
    with good show ?thesis by (simp add: world_step_def)
  next
    case 2
    then have "asked_for (mw_db w) (dispatch_request p ids)" by (auto simp: asked_for_def list_ex_iff dispatch_request_def)
    with good 2 asked_for_later show ?thesis by (auto simp: world_step_def good_step_def)
  qed
qed

lemma world_dispatches: "dispatch_persisted_payouts env sv pids w = (w', res) \<Longrightarrow> world_step w w'"
proof (induction pids arbitrary: w w' res)
  case (Cons pid pids)
  obtain w1 r1 where one: "dispatch_persisted_payout env sv pid w = (w1, r1)" by fastforce
  note first = world_dispatch [OF this]
  show ?case
  proof (cases r1)
    case (Inl e)
    with Cons.prems one first show ?thesis by simp
  next
    case (Inr p)
    obtain w2 r2 where rest: "dispatch_persisted_payouts env sv pids w1 = (w2, r2)" by fastforce
    with Cons.prems one Inr have "w' = w2" by (auto split: sum.splits)
    with Cons.IH [OF rest] first show ?thesis by (auto intro: world_step_trans)
  qed
qed simp

lemma world_pending: "world_step w (fst (mark_settlement_payout_pending env sv sid ref w))"
proof (cases "sid = [] \<or> \<not> me_settlement_ready env \<or> \<not> me_payout_ready env GuardEntry")
  case True
  then show ?thesis by (auto simp: mark_settlement_payout_pending_def)
next
  case False
  show ?thesis
  proof (cases "payout_provider_name sv")
    case (Inl e)
    with False show ?thesis by (simp add: mark_settlement_payout_pending_def)
  next
    case (Inr name)
    obtain db r where tx: "mp_tx env (payout_pending_tx env sv name sid ref) (mw_db w) = (db, r)" by fastforce
    have good: "good_step (mw_db w) db"
      using changes_tx [of "payout_pending_tx env sv name sid ref" "mw_db w" env] tx payout_pending_good good_changes by fastforce
    show ?thesis
    proof (cases r)
      case (Inl e)
      with False Inr tx good show ?thesis by (simp add: mark_settlement_payout_pending_def world_step_db)
    next
      case (Inr pid)
      obtain w' res where d: "dispatch_persisted_payout env sv pid (w\<lparr>mw_db := db\<rparr>) = (w', res)" by fastforce
      with False \<open>payout_provider_name sv = Inr name\<close> tx Inr have "fst (mark_settlement_payout_pending env sv sid ref w) = w'"
        by (simp add: mark_settlement_payout_pending_def)
      with world_dispatch [OF d] world_step_db [OF good] show ?thesis by (auto intro: world_step_trans)
    qed
  qed
qed

lemma world_due: "world_step w (fst (create_due_payouts env sv now0 w))"
proof (cases "me_payout_ready env GuardEntry")
  case ready: True
  let ?now = "if now0 = zero_time then me_now env else now0"
  show ?thesis
  proof (cases "payout_provider_name sv")
    case name: (Inr name)
    show ?thesis
    proof (cases "list_queued_payouts env name 100 (mw_db w)")
      case queued: (Inr queued)
      obtain w1 r1 where one: "dispatch_persisted_payouts env sv queued w = (w1, r1)" by fastforce
      obtain db r where tx: "mp_tx env (due_payouts_tx env sv name ?now) (mw_db w1) = (db, r)" by fastforce
      have good: "good_step (mw_db w1) db"
        using changes_tx [of "due_payouts_tx env sv name ?now" "mw_db w1" env] tx due_payouts_good good_changes by fastforce
      obtain w2 r2 where two: "dispatch_persisted_payouts env sv (case r of Inl e \<Rightarrow> [] | Inr ids \<Rightarrow> ids) (w1\<lparr>mw_db := db\<rparr>) = (w2, r2)" by fastforce
      have steps: "world_step w w1" "world_step w1 (w1\<lparr>mw_db := db\<rparr>)" "world_step (w1\<lparr>mw_db := db\<rparr>) w2"
        using world_dispatches [OF one] world_step_db [OF good] world_dispatches [OF two] by blast+
      have "fst (create_due_payouts env sv now0 w) \<in> {w1, w1\<lparr>mw_db := db\<rparr>, w2}"
        using ready name queued one tx two by (auto simp: create_due_payouts_def Let_def split: sum.splits)
      moreover have to1: "world_step w (w1\<lparr>mw_db := db\<rparr>)" by (rule world_step_trans [OF steps(1,2)])
      moreover have "world_step w w2" by (rule world_step_trans [OF to1 steps(3)])
      ultimately show ?thesis using steps(1) by auto
    qed (use ready name in \<open>simp add: create_due_payouts_def Let_def\<close>)
  qed (use ready in \<open>simp add: create_due_payouts_def\<close>)
qed (simp add: create_due_payouts_def)

lemma world_exec: "world_step w (mp_exec step w)"
proof -
  obtain env sv op where step: "step = (env, sv, op)" by (cases step)
  have create: "good_step db (fst (create_paid_install_checkout env sv r db))" for r db
    using good_changes [OF create_changes] create_checkout_good by blast
  have session: "good_step db (fst (set_checkout_session env oid intent s db))" for oid intent s db
    using good_changes [OF session_changes] session_good by blast
  have checkout_failed: "good_step db (fst (mark_checkout_failed env oid intent reason db))" for oid intent reason db
    using good_changes [OF checkout_failed_changes] checkout_failed_good by blast
  have completed: "good_step db (fst (apply_checkout_completed env c db))" for c db
    using good_changes [OF completed_changes] completed_good by blast
  have refund: "good_step db (fst (apply_marketplace_refund env r db))" for r db
  proof -
    from refund_changes [of r env db] consider "0 < mr_amount r" "changes_by (refund_tx env r) db (fst (apply_marketplace_refund env r db))"
      | "fst (apply_marketplace_refund env r db) = db" by blast
    then show ?thesis
    proof cases
      case 1
      from good_changes [OF 1(2)] refund_good [OF 1(1)] show ?thesis by blast
    qed simp
  qed
  have paid: "good_step db (fst (mark_payout_paid env pid ref db))" for pid ref db
    using good_changes [OF paid_changes] paid_good by blast
  have lifecycle: "good_step db (fst (apply_provider_payout_lifecycle env e db))" for e db
  proof -
    from lifecycle_changes [of env e db] consider "fst (apply_provider_payout_lifecycle env e db) = db"
      | to where "changes_by (payout_lifecycle_tx env e to) db (fst (apply_provider_payout_lifecycle env e db))" by blast
    then show ?thesis
    proof cases
      case 2
      from good_changes [OF 2] lifecycle_good show ?thesis by blast
    qed simp
  qed
  have failed: "good_step db (fst (mark_payout_failed env pid ref reason db))" for pid ref reason db
    using lifecycle by (simp add: mark_payout_failed_def Let_def)
  show ?thesis unfolding step
    by (cases op) (simp_all add: world_step_db create session checkout_failed completed refund paid lifecycle failed world_pending world_due)
qed

lemma world_run: "world_step w (mp_run steps w)"
proof (induction steps arbitrary: w)
  case (Cons step steps)
  then show ?case using world_exec world_step_trans unfolding mp_run_def by fastforce
qed (simp add: mp_run_def)

text \<open>The tables before the first sale.\<close>

definition fresh_market :: "mp_agent list \<Rightarrow> mp_version list \<Rightarrow> mp_world" where
  "fresh_market agents versions =
     \<lparr>mw_db = \<lparr>md_agents = agents, md_versions = versions, md_intents = [], md_orders = [], md_settlements = [],
               md_payouts = [], md_installs = [], md_events = []\<rparr>, mw_sent = []\<rparr>"

lemma fresh_market_ok: "market_ok (mw_db (fresh_market agents versions))"
  by (simp add: fresh_market_def market_ok_def books_ok_def links_ok_def)

text \<open>
  C19. The books balance after every run from empty tables, whatever fails in between: each order
  splits into fee and publisher's part and is refunded at most in full; each settlement belongs to
  one order, carries its amounts and no more refund than it; payouts that settlements name exist.
\<close>

theorem settlement_books_balance: "market_ok (mw_db (mp_run steps (fresh_market agents versions)))"
  using world_run [of "fresh_market agents versions" steps] fresh_market_ok [of agents versions]
  by (simp add: world_step_def good_step_def)

text \<open>
  The provider is asked to pay only what is recorded: after every run from empty tables each
  request it was sent is that of a payout in the table, with its publisher, amount and currency.
\<close>

theorem provider_asked_for_recorded_payouts:
  "list_all (asked_for (mw_db (mp_run steps (fresh_market agents versions)))) (mw_sent (mp_run steps (fresh_market agents versions)))"
  using world_run [of "fresh_market agents versions" steps] fresh_market_ok [of agents versions]
  by (auto simp: world_step_def list_all_iff fresh_market_def)

text \<open>
  A payout that was paid out or has failed stays so, with its publisher, amount and currency:
  no run of operations, in any order and with any failures, reopens, changes or removes it.
\<close>

theorem ended_payout_is_final:
  assumes "market_ok (mw_db w)"
  shows "payouts_evolve (md_payouts (mw_db w)) (md_payouts (mw_db (mp_run steps w)))"
  using world_run [of w steps] assms by (simp add: world_step_def good_step_def)

subsection \<open>What a batch pays\<close>

lemma add_row_keys:
  "List.map group_key (add_row r gs)
     = (if row_key r \<in> group_key ` set gs then List.map group_key gs else List.map group_key gs @ [row_key r])"
proof (induction gs)
  case Nil
  show ?case by (cases r) (simp add: join_group_def start_group_def group_key_def row_key_def)
next
  case (Cons g gs)
  then show ?case by (cases r) (auto simp: join_group_def group_key_def row_key_def)
qed

lemma add_row_group:
  assumes "distinct (List.map group_key gs)" "g' \<in> set (add_row (s, cur) gs)"
  shows "(group_key g' \<noteq> row_key (s, cur) \<and> g' \<in> set gs)
    \<or> (\<exists>g \<in> set gs. group_key g = row_key (s, cur) \<and> g' = join_group s g)
    \<or> (row_key (s, cur) \<notin> group_key ` set gs \<and> g' = join_group s (start_group s cur))"
  using assms
proof (induction gs)
  case (Cons g gs)
  show ?case
  proof (cases "group_key g = row_key (s, cur)")
    case True
    then have "x \<in> set gs \<Longrightarrow> group_key x \<noteq> row_key (s, cur)" for x using Cons.prems(1) by (auto simp: image_iff)
    with True Cons.prems(2) show ?thesis by auto
  qed (use Cons in auto)
qed simp

lemma join_group_simps [simp]:
  "group_key (join_group s g) = group_key g" "pg_settlements (join_group s g) = pg_settlements g @ [ms_id s]"
  "pg_amount (join_group s g) = round_amount (pg_amount g + due_amount s)"
  "group_key (start_group s cur) = row_key (s, cur)" "pg_settlements (start_group s cur) = []" "pg_amount (start_group s cur) = 0"
  by (simp_all add: join_group_def start_group_def group_key_def row_key_def)

definition groups_exact :: "(mp_settlement \<times> string) list \<Rightarrow> payout_group list \<Rightarrow> bool" where
  "groups_exact rows gs \<longleftrightarrow> distinct (List.map group_key gs) \<and> group_key ` set gs = row_key ` set rows
     \<and> (\<forall>g \<in> set gs. pg_settlements g = List.map (ms_id \<circ> fst) (filter (\<lambda>r. row_key r = group_key g) rows)
          \<and> pg_amount g = sum_list (List.map (due_amount \<circ> fst) (filter (\<lambda>r. row_key r = group_key g) rows)))"

lemma cents_sum: "(\<And>x. x \<in> set xs \<Longrightarrow> cents (f x)) \<Longrightarrow> cents (sum_list (List.map f xs))"
  by (induction xs) (auto simp: cents_add)

lemma add_row_exact:
  assumes exact: "groups_exact rows gs" and c: "\<And>r. r \<in> set (rows @ [(s, cur)]) \<Longrightarrow> cents (due_amount (fst r))"
  shows "groups_exact (rows @ [(s, cur)]) (add_row (s, cur) gs)"
proof -
  have dist: "distinct (List.map group_key gs)" and keys: "group_key ` set gs = row_key ` set rows" using exact by (simp_all add: groups_exact_def)
  have total: "cents (sum_list (List.map (due_amount \<circ> fst) (filter P (rows @ [(s, cur)]))))" for P
    using c by (intro cents_sum) (auto split: if_splits)
  have "distinct (List.map group_key (add_row (s, cur) gs))" unfolding add_row_keys using dist by auto
  moreover have "group_key ` set (add_row (s, cur) gs) = row_key ` set (rows @ [(s, cur)])"
  proof -
    have "group_key ` set (add_row (s, cur) gs) = set (List.map group_key (add_row (s, cur) gs))" by simp
    also have "\<dots> = row_key ` set (rows @ [(s, cur)])" unfolding add_row_keys using keys by auto
    finally show ?thesis .
  qed
  moreover have "pg_settlements g' = List.map (ms_id \<circ> fst) (filter (\<lambda>r. row_key r = group_key g') (rows @ [(s, cur)]))
      \<and> pg_amount g' = sum_list (List.map (due_amount \<circ> fst) (filter (\<lambda>r. row_key r = group_key g') (rows @ [(s, cur)])))"
    if "g' \<in> set (add_row (s, cur) gs)" for g'
    using add_row_group [OF dist that]
  proof (elim disjE)
    assume "group_key g' \<noteq> row_key (s, cur) \<and> g' \<in> set gs"
    with exact show ?thesis by (auto simp: groups_exact_def)
  next
    assume "\<exists>g \<in> set gs. group_key g = row_key (s, cur) \<and> g' = join_group s g"
    then obtain g where g: "g \<in> set gs" "group_key g = row_key (s, cur)" "g' = join_group s g" by blast
    with exact have old: "pg_settlements g = List.map (ms_id \<circ> fst) (filter (\<lambda>r. row_key r = row_key (s, cur)) rows)"
      "pg_amount g = sum_list (List.map (due_amount \<circ> fst) (filter (\<lambda>r. row_key r = row_key (s, cur)) rows))"
      by (auto simp: groups_exact_def)
    have "cents (pg_amount g + due_amount s)" using total [of "\<lambda>r. row_key r = row_key (s, cur)"] by (simp add: old add.commute)
    with g old show ?thesis by simp
  next
    assume new: "row_key (s, cur) \<notin> group_key ` set gs \<and> g' = join_group s (start_group s cur)"
    then have "\<forall>r \<in> set rows. row_key r \<noteq> row_key (s, cur)" using keys by (metis image_eqI)
    then have "filter (\<lambda>r. row_key r = row_key (s, cur)) rows = []" by (simp add: filter_empty_conv)
    moreover have "cents (due_amount s)" using c [of "(s, cur)"] by simp
    ultimately show ?thesis using new by simp
  qed
  ultimately show ?thesis by (simp add: groups_exact_def)
qed

lemma payout_groups_exact:
  "(\<And>r. r \<in> set rows \<Longrightarrow> cents (due_amount (fst r))) \<Longrightarrow> groups_exact rows (payout_groups rows)"
proof (induction rows rule: rev_induct)
  case Nil
  show ?case by (simp add: payout_groups_def groups_exact_def)
next
  case (snoc r rows)
  then show ?case using add_row_exact [of rows "payout_groups rows" "fst r" "snd r"] by (simp add: payout_groups_def)
qed

lemma filter_map_iff:
  "(\<And>x. x \<in> set xs \<Longrightarrow> P (f x) \<longleftrightarrow> Q x) \<Longrightarrow> filter P (List.map f xs) = List.map f (filter Q xs)"
  by (induction xs) auto

text \<open>The currency of a settlement's order, and what a settlement is grouped by.\<close>

definition currency_of :: "mp_db \<Rightarrow> mp_settlement \<Rightarrow> string" where
  "currency_of tx s = (case sql_select (\<lambda>w. mo_id w = ms_order s) (md_orders tx) of None \<Rightarrow> [] | Some w \<Rightarrow> mo_currency w)"

definition key_of :: "mp_db \<Rightarrow> mp_settlement \<Rightarrow> string \<times> string \<times> string" where
  "key_of tx s = row_key (s, currency_of tx s)"

lemma due_rows_mset:
  assumes "books_ok (md_orders tx) (md_settlements tx)"
  shows "mset (due_rows now tx) = mset (List.map (\<lambda>s. (s, currency_of tx s)) (filter (due_settlement now) (md_settlements tx)))"
proof -
  have found: "\<exists>w. sql_select (\<lambda>w. mo_id w = ms_order s) (md_orders tx) = Some w" if "s \<in> set (md_settlements tx)" for s
  proof (rule ccontr)
    assume "\<nexists>w. sql_select (\<lambda>w. mo_id w = ms_order s) (md_orders tx) = Some w"
    then have "sql_select (\<lambda>w. mo_id w = ms_order s) (md_orders tx) = None" by (cases "sql_select (\<lambda>w. mo_id w = ms_order s) (md_orders tx)") auto
    with assms that show False by (auto simp: sql_select_None books_ok_def settles_def)
  qed
  have "concat (List.map (\<lambda>s. case sql_select (\<lambda>w. mo_id w = ms_order s) (md_orders tx) of None \<Rightarrow> [] | Some w \<Rightarrow> [(s, mo_currency w)]) ss)
      = List.map (\<lambda>s. (s, currency_of tx s)) ss" if "set ss \<subseteq> set (md_settlements tx)" for ss
    using that by (induction ss) (use found in \<open>force simp: currency_of_def\<close>)+
  then show ?thesis by (simp add: due_rows_def)
qed

text \<open>
  The settlements after some groups were paid, given which payout each key got: the due settlements
  of those keys are linked, the others are as they were.
\<close>

definition after_paying :: "mp_db \<Rightarrow> gotime \<Rightarrow> (string \<times> string \<times> string \<rightharpoonup> string) \<Rightarrow> mp_settlement \<Rightarrow> mp_settlement" where
  "after_paying tx now A s =
     (if due_settlement now s then (case A (key_of tx s) of None \<Rightarrow> s | Some pid \<Rightarrow> linked_to now pid s) else s)"

text \<open>A paid group: its key, its payout and the due settlements it stands for.\<close>

definition pays :: "mp_db \<Rightarrow> gotime \<Rightarrow> payout_group \<Rightarrow> bool" where
  "pays tx now g \<longleftrightarrow>
     set (pg_settlements g) = ms_id ` {s \<in> set (md_settlements tx). due_settlement now s \<and> key_of tx s = group_key g}
   \<and> pg_amount g = sum_list (List.map due_amount (filter (\<lambda>s. due_settlement now s \<and> key_of tx s = group_key g) (md_settlements tx)))"

lemma linked_simps [simp]:
  "ms_id (linked_to now pid s) = ms_id s" "ms_payout (linked_to now pid s) = Some pid" "ms_status (linked_to now pid s) = ''payout_pending''"
  "due_amount (linked_to now pid s) = due_amount s" "ms_publisher_org (linked_to now pid s) = ms_publisher_org s"
  "ms_publisher (linked_to now pid s) = ms_publisher s"
  by (simp_all add: linked_to_def due_amount_def)

lemma after_paying_id [simp]: "ms_id (after_paying tx now A s) = ms_id s" "due_amount (after_paying tx now A s) = due_amount s"
  by (auto simp: after_paying_def split: option.splits)

lemma pay_group_step:
  assumes ids: "distinct (List.map ms_id (md_settlements tx0))"
    and now_rows: "md_settlements tx = List.map (after_paying tx0 now A) (md_settlements tx0)"
    and g: "pays tx0 now g" "A (group_key g) = None"
    and pay: "pay_group env name now n g tx = Inr (tx', res)"
  shows "md_settlements tx' = List.map (after_paying tx0 now (A(group_key g \<mapsto> me_id env ''payout'' n))) (md_settlements tx0)
    \<and> (\<exists>p. md_payouts tx' = md_payouts tx @ [p] \<and> po_id p = me_id env ''payout'' n \<and> po_amount p = dec6 (pg_amount g)
         \<and> po_org p = pg_org g \<and> po_user p = pg_user g \<and> po_currency p = pg_currency g \<and> po_status p = ''payout_pending''
         \<and> (\<forall>q \<in> set (md_payouts tx). po_id q \<noteq> po_id p))"
proof -
  let ?pid = "me_id env ''payout'' n"
  let ?p = "queued_payout env ?pid (pg_org g) (pg_user g) (pg_amount g) (pg_currency g) name Map.empty now"
  let ?hit = "\<lambda>s. ms_id s \<in> set (pg_settlements g) \<and> ms_status s = ''available'' \<and> ms_payout s = None"
  from pay obtain tx1 where ins: "insert_payout env ?p tx = Inr tx1"
    and tx': "tx' = tx1\<lparr>md_settlements := List.map (\<lambda>s. if ?hit s then linked_to now ?pid s else s) (md_settlements tx1)\<rparr>"
    unfolding pay_group_def by (auto simp: step_simps split_beta sql_update_rows)
  from insert_payout_rows [OF ins] have tx1: "tx1 = tx\<lparr>md_payouts := md_payouts tx @ [?p]\<rparr>"
    and new: "\<forall>q \<in> set (md_payouts tx). po_id q \<noteq> po_id ?p" by blast+
  have step: "(if ?hit (after_paying tx0 now A s) then linked_to now ?pid (after_paying tx0 now A s) else after_paying tx0 now A s)
      = after_paying tx0 now (A(group_key g \<mapsto> ?pid)) s" if s: "s \<in> set (md_settlements tx0)" for s
  proof (cases "due_settlement now s \<and> key_of tx0 s = group_key g")
    case True
    then have "ms_id s \<in> set (pg_settlements g)" using g(1) s by (auto simp: pays_def)
    moreover have "ms_status s = ''available''" "ms_payout s = None" using True by (auto simp: due_settlement_def)
    ultimately show ?thesis using True g(2) by (simp add: after_paying_def)
  next
    case False
    have "ms_id s \<notin> set (pg_settlements g)"
    proof
      assume "ms_id s \<in> set (pg_settlements g)"
      then obtain s' where "s' \<in> set (md_settlements tx0)" "ms_id s' = ms_id s" "due_settlement now s'" "key_of tx0 s' = group_key g"
        using g(1) by (auto simp: pays_def)
      with ids s False show False by (auto simp: distinct_map dest: inj_onD)
    qed
    with False show ?thesis by (auto simp: after_paying_def split: option.splits)
  qed
  have "md_settlements tx' = List.map (after_paying tx0 now (A(group_key g \<mapsto> ?pid))) (md_settlements tx0)"
    unfolding tx' tx1 using step by (simp add: now_rows)
  with new show ?thesis by (simp add: tx' tx1 queued_payout_def)
qed

lemma pay_groups_exact:
  assumes ids: "distinct (List.map ms_id (md_settlements tx0))"
    and "md_settlements tx = List.map (after_paying tx0 now A) (md_settlements tx0)"
    and "\<And>g. g \<in> set gs \<Longrightarrow> pays tx0 now g \<and> A (group_key g) = None" "distinct (List.map group_key gs)"
    and "pay_groups env sv name now n gs tx = Inr (tx', res)"
  shows "\<exists>new paid. md_payouts tx' = md_payouts tx @ new \<and> list_all2 (\<lambda>p g. g \<in> set gs \<and> group_is_due sv now g \<and> po_amount p = dec6 (pg_amount g)
        \<and> po_org p = pg_org g \<and> po_user p = pg_user g \<and> po_currency p = pg_currency g \<and> po_status p = ''payout_pending'') new paid
      \<and> distinct (List.map group_key paid) \<and> distinct (List.map po_id new) \<and> (\<forall>p \<in> set new. \<forall>q \<in> set (md_payouts tx). po_id q \<noteq> po_id p)
      \<and> md_settlements tx' = List.map (after_paying tx0 now (A ++ map_of (zip (List.map group_key paid) (List.map po_id new)))) (md_settlements tx0)"
  using assms(2-)
proof (induction gs arbitrary: n tx tx' res A)
  case Nil
  then show ?case by auto
next
  case (Cons g gs)
  show ?case
  proof (cases "group_is_due sv now g")
    case False
    with Cons.prems obtain res' where rest: "pay_groups env sv name now (Suc n) gs tx = Inr (tx', res')" by auto
    have "\<exists>new paid. md_payouts tx' = md_payouts tx @ new \<and> list_all2 (\<lambda>p g. g \<in> set gs \<and> group_is_due sv now g \<and> po_amount p = dec6 (pg_amount g)
        \<and> po_org p = pg_org g \<and> po_user p = pg_user g \<and> po_currency p = pg_currency g \<and> po_status p = ''payout_pending'') new paid
      \<and> distinct (List.map group_key paid) \<and> distinct (List.map po_id new) \<and> (\<forall>p \<in> set new. \<forall>q \<in> set (md_payouts tx). po_id q \<noteq> po_id p)
      \<and> md_settlements tx' = List.map (after_paying tx0 now (A ++ map_of (zip (List.map group_key paid) (List.map po_id new)))) (md_settlements tx0)"
      using Cons.prems by (intro Cons.IH [OF _ _ _ rest]) auto
    then show ?thesis by (elim exE) (intro exI, auto elim!: list_all2_mono)
  next
    case True
    with Cons.prems obtain tx1 r1 r2 where one: "pay_group env name now n g tx = Inr (tx1, r1)"
      and rest: "pay_groups env sv name now (Suc n) gs tx1 = Inr (tx', r2)" by (auto simp: try_step_Inr)
    let ?pid = "me_id env ''payout'' n"
    have g: "pays tx0 now g" "A (group_key g) = None" using Cons.prems by auto
    from pay_group_step [OF ids Cons.prems(1) g one] obtain p where
      rows: "md_settlements tx1 = List.map (after_paying tx0 now (A(group_key g \<mapsto> ?pid))) (md_settlements tx0)"
      and p: "md_payouts tx1 = md_payouts tx @ [p]" "po_id p = ?pid" "po_amount p = dec6 (pg_amount g)" "po_org p = pg_org g" "po_user p = pg_user g"
        "po_currency p = pg_currency g" "po_status p = ''payout_pending''" "\<forall>q \<in> set (md_payouts tx). po_id q \<noteq> po_id p" by blast
    have fresh: "\<And>h. h \<in> set gs \<Longrightarrow> pays tx0 now h \<and> (A(group_key g \<mapsto> ?pid)) (group_key h) = None"
      using Cons.prems(2,3) by (auto simp: image_iff)
    have "distinct (List.map group_key gs)" using Cons.prems(3) by simp
    from Cons.IH [OF rows fresh this rest] obtain new paid where
      new: "md_payouts tx' = md_payouts tx1 @ new"
      "list_all2 (\<lambda>p g. g \<in> set gs \<and> group_is_due sv now g \<and> po_amount p = dec6 (pg_amount g)
        \<and> po_org p = pg_org g \<and> po_user p = pg_user g \<and> po_currency p = pg_currency g \<and> po_status p = ''payout_pending'') new paid"
      "distinct (List.map group_key paid)" "distinct (List.map po_id new)" "\<forall>x \<in> set new. \<forall>q \<in> set (md_payouts tx1). po_id q \<noteq> po_id x"
      "md_settlements tx' = List.map (after_paying tx0 now (A(group_key g \<mapsto> ?pid) ++ map_of (zip (List.map group_key paid) (List.map po_id new)))) (md_settlements tx0)"
      by blast
    have len: "length new = length paid" using new(2) by (rule list_all2_lengthD)
    have paid: "set paid \<subseteq> set gs" using new(2) len by (fastforce simp: list_all2_conv_all_nth in_set_conv_nth)
    then have notin: "group_key g \<notin> group_key ` set paid" using Cons.prems(3) by auto
    then have "map_of (zip (List.map group_key paid) (List.map po_id new)) (group_key g) = None"
      using len by (simp add: map_of_eq_None_iff) (metis image_set length_map map_fst_zip set_map)
    then have maps: "A ++ map_of (zip (List.map group_key (g # paid)) (List.map po_id (p # new)))
        = A(group_key g \<mapsto> ?pid) ++ map_of (zip (List.map group_key paid) (List.map po_id new))"
      using p(2) by (auto simp: fun_eq_iff map_add_def split: option.splits)
    have "md_payouts tx' = md_payouts tx @ (p # new)" using new(1) p(1) by simp
    moreover have "list_all2 (\<lambda>p h. h \<in> set (g # gs) \<and> group_is_due sv now h \<and> po_amount p = dec6 (pg_amount h)
        \<and> po_org p = pg_org h \<and> po_user p = pg_user h \<and> po_currency p = pg_currency h \<and> po_status p = ''payout_pending'') (p # new) (g # paid)"
      using True p new(2) by (auto elim!: list_all2_mono)
    moreover have "distinct (List.map group_key (g # paid))" using notin new(3) by simp
    moreover have "distinct (List.map po_id (p # new))" using new(4,5) p(1) by auto
    moreover have "\<forall>x \<in> set (p # new). \<forall>q \<in> set (md_payouts tx). po_id q \<noteq> po_id x" using new(5) p(1,8) by auto
    moreover have "md_settlements tx' = List.map (after_paying tx0 now (A ++ map_of (zip (List.map group_key (g # paid)) (List.map po_id (p # new))))) (md_settlements tx0)"
      unfolding maps by (rule new(6))
    ultimately show ?thesis by (intro exI [of _ "p # new"] exI [of _ "g # paid"]) blast
  qed
qed

lemma due_rows_set:
  assumes "books_ok (md_orders tx) (md_settlements tx)"
  shows "set (due_rows now tx) = (\<lambda>s. (s, currency_of tx s)) ` {s \<in> set (md_settlements tx). due_settlement now s}"
proof -
  have "set (due_rows now tx) = set (List.map (\<lambda>s. (s, currency_of tx s)) (filter (due_settlement now) (md_settlements tx)))"
    by (rule mset_eq_setD [OF due_rows_mset [OF assms]])
  then show ?thesis by auto
qed

lemma groups_pay:
  assumes ok: "books_ok (md_orders tx) (md_settlements tx)"
    and c: "\<And>s. s \<in> set (md_settlements tx) \<Longrightarrow> cents (due_amount s)"
    and g: "g \<in> set (payout_groups (due_rows now tx))"
  shows "pays tx now g"
proof -
  let ?row = "\<lambda>s. (s, currency_of tx s)"
  note rows = due_rows_mset [OF ok, of now]
  note members = due_rows_set [OF ok, of now]
  have "groups_exact (due_rows now tx) (payout_groups (due_rows now tx))"
    using members c by (intro payout_groups_exact) auto
  with g have exact: "pg_settlements g = List.map (ms_id \<circ> fst) (filter (\<lambda>r. row_key r = group_key g) (due_rows now tx))"
    "pg_amount g = sum_list (List.map (due_amount \<circ> fst) (filter (\<lambda>r. row_key r = group_key g) (due_rows now tx)))"
    by (auto simp: groups_exact_def)
  have "set (pg_settlements g) = (\<lambda>r. ms_id (fst r)) ` {r \<in> set (due_rows now tx). row_key r = group_key g}"
    unfolding exact(1) by (simp add: comp_def)
  also have "\<dots> = ms_id ` {s \<in> set (md_settlements tx). due_settlement now s \<and> key_of tx s = group_key g}"
    unfolding members key_of_def by (auto simp: image_iff)
  finally have "set (pg_settlements g) = ms_id ` {s \<in> set (md_settlements tx). due_settlement now s \<and> key_of tx s = group_key g}" .
  moreover have "mset (List.map (due_amount \<circ> fst) (filter (\<lambda>r. row_key r = group_key g) (due_rows now tx)))
      = mset (List.map due_amount (filter (\<lambda>s. due_settlement now s \<and> key_of tx s = group_key g) (md_settlements tx)))"
  proof -
    have "mset (List.map (due_amount \<circ> fst) (filter (\<lambda>r. row_key r = group_key g) (due_rows now tx)))
        = image_mset (due_amount \<circ> fst) (filter_mset (\<lambda>r. row_key r = group_key g) (mset (due_rows now tx)))" by simp
    also have "\<dots> = mset (List.map (due_amount \<circ> fst) (filter (\<lambda>r. row_key r = group_key g) (List.map ?row (filter (due_settlement now) (md_settlements tx)))))"
      unfolding rows by simp
    also have "\<dots> = mset (List.map due_amount (filter (\<lambda>s. due_settlement now s \<and> key_of tx s = group_key g) (md_settlements tx)))"
      by (simp add: filter_map comp_def key_of_def conj_commute)
    finally show ?thesis .
  qed
  then have "pg_amount g = sum_list (List.map due_amount (filter (\<lambda>s. due_settlement now s \<and> key_of tx s = group_key g) (md_settlements tx)))"
    unfolding exact(2) by (simp only: sum_mset_sum_list [symmetric])
  ultimately show ?thesis by (simp add: pays_def)
qed

lemma payout_groups_distinct:
  assumes "books_ok (md_orders tx) (md_settlements tx)" "\<And>s. s \<in> set (md_settlements tx) \<Longrightarrow> cents (due_amount s)"
  shows "distinct (List.map group_key (payout_groups (due_rows now tx)))"
proof -
  have "groups_exact (due_rows now tx) (payout_groups (due_rows now tx))"
    using assms(2) by (intro payout_groups_exact) (auto simp: due_rows_set [OF assms(1)])
  then show ?thesis by (simp add: groups_exact_def)
qed

text \<open>What a settlement becomes in a batch: nothing, or, when it is due, part of one of its payouts.\<close>

definition settled_by :: "gotime \<Rightarrow> mp_payout list \<Rightarrow> mp_settlement \<Rightarrow> mp_settlement \<Rightarrow> bool" where
  "settled_by now new s s' \<longleftrightarrow> s' = s \<or>
     (due_settlement now s \<and> list_ex (\<lambda>p. s' = linked_to now (po_id p) s \<and> po_org p = ms_publisher_org s \<and> po_user p = ms_publisher s) new)"

definition pays_its_settlements :: "mp_db \<Rightarrow> mp_payout \<Rightarrow> bool" where
  "pays_its_settlements db p \<longleftrightarrow> po_status p = ''payout_pending'' \<and> 0 < po_amount p
     \<and> po_amount p = sum_list (List.map due_amount (filter (\<lambda>s. ms_payout s = Some (po_id p)) (md_settlements db)))"

lemma due_payouts_core:
  assumes ok: "market_ok tx" and c: "\<And>s. s \<in> set (md_settlements tx) \<Longrightarrow> cents (due_amount s)"
    and tx: "due_payouts_tx env sv name now tx = Inr (tx', ids)"
  shows "\<exists>new. md_payouts tx' = md_payouts tx @ new \<and> list_all (pays_its_settlements tx') new
    \<and> list_all2 (settled_by now new) (md_settlements tx) (md_settlements tx')"
proof -
  let ?gs = "payout_groups (due_rows now tx)"
  have books: "books_ok (md_orders tx) (md_settlements tx)" and links: "links_ok (md_settlements tx) (md_payouts tx)"
    using ok by (simp_all add: market_ok_def)
  then have sids: "distinct (List.map ms_id (md_settlements tx))" by (simp add: books_ok_def)
  have start: "md_settlements tx = List.map (after_paying tx now Map.empty) (md_settlements tx)"
    by (auto simp: after_paying_def intro!: map_idI [symmetric])
  from tx have run: "pay_groups env sv name now 0 ?gs tx = Inr (tx', ids)" by (auto simp: due_payouts_tx_def try_step_Inr)
  from pay_groups_exact [OF sids start _ payout_groups_distinct [OF books c] run] groups_pay [OF books c] obtain new paid where
    pays: "md_payouts tx' = md_payouts tx @ new" "list_all2 (\<lambda>p g. g \<in> set ?gs \<and> group_is_due sv now g \<and> po_amount p = dec6 (pg_amount g)
        \<and> po_org p = pg_org g \<and> po_user p = pg_user g \<and> po_currency p = pg_currency g \<and> po_status p = ''payout_pending'') new paid"
    "distinct (List.map group_key paid)" "distinct (List.map po_id new)" "\<forall>p \<in> set new. \<forall>q \<in> set (md_payouts tx). po_id q \<noteq> po_id p"
    and rows: "md_settlements tx' = List.map (after_paying tx now (map_of (zip (List.map group_key paid) (List.map po_id new)))) (md_settlements tx)"
    by auto
  let ?A = "map_of (zip (List.map group_key paid) (List.map po_id new))"
  have len: "length new = length paid" using pays(2) by (rule list_all2_lengthD)
  have A: "?A k = Some pid \<longleftrightarrow> (\<exists>i < length new. k = group_key (paid ! i) \<and> pid = po_id (new ! i))" for k pid
  proof -
    have "?A k = Some pid \<longleftrightarrow> (k, pid) \<in> set (zip (List.map group_key paid) (List.map po_id new))"
      using pays(3) len by (simp add: map_of_eq_Some_iff)
    also have "\<dots> \<longleftrightarrow> (\<exists>i < length new. k = group_key (paid ! i) \<and> pid = po_id (new ! i))"
      unfolding in_set_zip using len
      by (intro ex_cong1) (auto simp: nth_map)
    finally show ?thesis .
  qed
  have "pays_its_settlements tx' p" if "p \<in> set new" for p
  proof -
    from that obtain i where i: "i < length new" "p = new ! i" by (auto simp: in_set_conv_nth)
    let ?g = "paid ! i"
    from pays(2) i have g: "?g \<in> set ?gs" "group_is_due sv now ?g" "po_amount p = dec6 (pg_amount ?g)" "po_status p = ''payout_pending''"
      by (auto simp: list_all2_conv_all_nth)
    from groups_pay [OF books c g(1)] have amount: "pg_amount ?g = sum_list (List.map due_amount (filter (\<lambda>s. due_settlement now s \<and> key_of tx s = group_key ?g) (md_settlements tx)))"
      by (simp add: pays_def)
    have "cents (pg_amount ?g)" unfolding amount using c by (intro cents_sum) auto
    then have exact: "po_amount p = pg_amount ?g" using g(3) by (simp add: grid_dec6 cents_grid)
    have "0 < pg_amount ?g" using g(2) by (auto simp: group_is_due_def)
    have mine: "ms_payout (after_paying tx now ?A s) = Some (po_id p) \<longleftrightarrow> due_settlement now s \<and> key_of tx s = group_key ?g"
      if s: "s \<in> set (md_settlements tx)" for s
    proof -
      have "po_id p \<notin> po_id ` set (md_payouts tx)" using pays(5) \<open>p \<in> set new\<close> by fastforce
      then have "ms_payout s \<noteq> Some (po_id p)" using links s by (auto simp: links_ok_def)
      moreover have "?A (key_of tx s) = Some (po_id p) \<longleftrightarrow> key_of tx s = group_key ?g"
        unfolding A using i pays(4) by (auto simp: distinct_conv_nth)
      moreover have "ms_payout (after_paying tx now ?A s) = (if due_settlement now s \<and> ?A (key_of tx s) \<noteq> None then ?A (key_of tx s) else ms_payout s)"
        by (cases "?A (key_of tx s)") (simp_all add: after_paying_def)
      ultimately show ?thesis by (cases "?A (key_of tx s)") (simp_all split: if_splits)
    qed
    have "filter (\<lambda>s. ms_payout s = Some (po_id p)) (md_settlements tx')
        = List.map (after_paying tx now ?A) (filter (\<lambda>s. due_settlement now s \<and> key_of tx s = group_key ?g) (md_settlements tx))"
      unfolding rows by (rule filter_map_iff) (rule mine)
    then have "sum_list (List.map due_amount (filter (\<lambda>s. ms_payout s = Some (po_id p)) (md_settlements tx'))) = pg_amount ?g"
      unfolding amount by (simp only: List.map_map comp_def after_paying_id)
    with g(4) exact \<open>0 < pg_amount ?g\<close> show ?thesis by (simp add: pays_its_settlements_def)
  qed
  moreover have "settled_by now new s (after_paying tx now ?A s)" if "s \<in> set (md_settlements tx)" for s
  proof (cases "due_settlement now s \<and> ?A (key_of tx s) \<noteq> None")
    case True
    then obtain pid where pid: "?A (key_of tx s) = Some pid" by blast
    then obtain i where i: "i < length new" "key_of tx s = group_key (paid ! i)" "?A (key_of tx s) = Some (po_id (new ! i))"
      unfolding A by blast
    with pays(2) have "po_org (new ! i) = pg_org (paid ! i)" "po_user (new ! i) = pg_user (paid ! i)" by (auto simp: list_all2_conv_all_nth)
    with i have "po_org (new ! i) = ms_publisher_org s" "po_user (new ! i) = ms_publisher s"
      by (simp_all add: key_of_def row_key_def group_key_def)
    moreover have "after_paying tx now ?A s = linked_to now (po_id (new ! i)) s" using True i(3) by (simp add: after_paying_def)
    ultimately have "list_ex (\<lambda>p. after_paying tx now ?A s = linked_to now (po_id p) s \<and> po_org p = ms_publisher_org s \<and> po_user p = ms_publisher s) new"
      unfolding list_ex_iff using nth_mem [OF i(1)] by blast
    with True show ?thesis by (simp add: settled_by_def)
  next
    case False
    then have "after_paying tx now ?A s = s" by (cases "?A (key_of tx s)") (simp_all add: after_paying_def)
    then show ?thesis by (simp add: settled_by_def)
  qed
  ultimately show ?thesis using pays(1) unfolding rows
    by (intro exI [of _ new]) (simp add: list_all_iff list_all2_conv_all_nth)
qed

end
