(* ===== verification/Marketplace_Flows.thy ===== *)
theory Marketplace_Flows
  imports Marketplace_Properties
begin

text \<open>
  Marketplace settlement, run by run: a replayed provider event changes nothing, a payout batch
  pays each publisher exactly what is due, and two places where the flow of \<open>settlement.go\<close> does
  not lead where it is meant to: no settlement becomes due by itself, and a settlement that was
  paid out can be paid out again.
\<close>

subsection \<open>Sample runs\<close>

definition calm_env :: "gotime \<Rightarrow> mp_env" where
  "calm_env now = \<lparr>me_now = now, me_id = (\<lambda>kind n. kind), me_fault = (\<lambda>c. False), me_settlement_ready = True,
     me_payout_ready = (\<lambda>g. True), me_answer = (\<lambda>r. Some ''ref'')\<rparr>"

definition sample_service :: mp_service where
  "sample_service = new_settlement_service [OptProvider ''stripe'']"

definition sample_order :: "string \<Rightarrow> mp_order" where
  "sample_order i = \<lparr>mo_id = ''order-'' @ i, mo_buyer_org = ''b'', mo_buyer = ''bob'', mo_publisher_org = ''p'', mo_publisher = ''pat'',
     mo_agent = ''agent'', mo_version = None, mo_intent = ''intent-'' @ i, mo_checkout = None, mo_payment = None, mo_install = None,
     mo_gross = 100, mo_fee = 20, mo_net = 80, mo_refunded = 10, mo_currency = ''eur'', mo_status = ''partially_refunded'',
     mo_paid_at = Some 1, mo_created = 1, mo_updated = 1\<rparr>"

definition sample_settlement :: "string \<Rightarrow> mp_settlement" where
  "sample_settlement i = \<lparr>ms_id = ''settlement-'' @ i, ms_order = ''order-'' @ i, ms_publisher_org = ''p'', ms_publisher = ''pat'',
     ms_agent = ''agent'', ms_gross = 100, ms_fee = 20, ms_net = 80, ms_refunded = 10, ms_payout = None, ms_status = ''available'',
     ms_hold = Some 5, ms_created = 1, ms_updated = 1\<rparr>"

definition sample_market :: mp_db where
  "sample_market = \<lparr>md_agents = [], md_versions = [], md_intents = [], md_orders = [sample_order ''1'', sample_order ''2''],
     md_settlements = [sample_settlement ''1'', sample_settlement ''2''], md_payouts = [], md_installs = [], md_events = []\<rparr>"

lemmas sample_defs = sample_market_def sample_order_def sample_settlement_def

lemma sample_market_ok: "market_ok sample_market"
  by (simp add: sample_defs market_ok_def books_ok_def links_ok_def order_ok_def settles_def)

lemma sample_due: "due_rows 10 sample_market = [(sample_settlement ''1'', ''eur''), (sample_settlement ''2'', ''eur'')]"
  by (simp add: sample_defs due_rows_def due_settlement_def sql_select_def insort_key_def)

definition sample_group :: payout_group where
  "sample_group = \<lparr>pg_org = ''p'', pg_user = ''pat'', pg_currency = ''eur'', pg_amount = 140,
     pg_settlements = [''settlement-1'', ''settlement-2''], pg_oldest = 1\<rparr>"

lemma sample_groups: "payout_groups (due_rows 10 sample_market) = [sample_group]"
proof -
  have "round_amount (0 + 70) = 70" "round_amount (70 + 70) = 140" by (simp_all add: cents_numeral)
  then show ?thesis
    unfolding sample_due
    by (simp add: payout_groups_def sample_group_def join_group_def start_group_def due_amount_def sample_settlement_def
        group_key_def row_key_def)
qed

definition sample_paid :: mp_db where
  "sample_paid = sample_market\<lparr>
     md_payouts := [queued_payout (calm_env 10) ''payout'' ''p'' ''pat'' 140 ''eur'' ''stripe'' Map.empty 10],
     md_settlements := [linked_to 10 ''payout'' (sample_settlement ''1''), linked_to 10 ''payout'' (sample_settlement ''2'')]\<rparr>"

lemma sample_batch:
  "due_payouts_tx (calm_env 10) sample_service ''stripe'' 10 sample_market = Inr (sample_paid, [''payout''])"
proof -
  have due: "group_is_due sample_service 10 sample_group"
    by (simp add: group_is_due_def sample_group_def sample_service_def new_settlement_service_def standard_tiers_def Let_def)
  have "pay_group (calm_env 10) ''stripe'' 10 0 sample_group sample_market = Inr (sample_paid, [''payout''])"
    by (simp add: pay_group_def calm_env_def fail_if_def insert_payout_def db_call_def sample_group_def sample_paid_def
        sample_market_def sample_settlement_def sql_update_def queued_payout_def linked_to_def Let_def)
  with due show ?thesis
    by (simp add: due_payouts_tx_def sample_groups db_call_def fail_if_def calm_env_def)
qed

subsection \<open>Batches\<close>

text \<open>
  C21. A payout batch pays exactly what is due, when the books balance (\<open>market_ok\<close>, which every run from
  empty tables keeps) and what is left of every settlement is in whole cents: each new payout is open,
  above zero and the sum of what is left of the settlements linked to it, and each settlement is as
  before or, when it was due, linked to one new payout of its own publisher. Without that, and in any
  order of rows, publishers would be paid twice or not at all. (A refund of part of a cent is accepted
  by the code; then the sums of a batch are rounded to cents as they are added up.)
\<close>

theorem due_payouts_pay_exactly:
  assumes "market_ok tx" and "list_all (\<lambda>s. cents (due_amount s)) (md_settlements tx)"
    and "due_payouts_tx env sv name now tx = Inr (tx', ids)"
  shows "\<exists>new. md_payouts tx' = md_payouts tx @ new \<and> list_all (pays_its_settlements tx') new
    \<and> list_all2 (settled_by now new) (md_settlements tx) (md_settlements tx')"
  using assms by (intro due_payouts_core) (auto simp: list_all_iff)

theorem due_payouts_pay_exactly_witness:
  "sum_list (List.map due_amount (md_settlements sample_market)) = 140 \<and> List.map po_amount (md_payouts sample_paid) = [140]
   \<and> list_all (pays_its_settlements sample_paid) (md_payouts sample_paid)"
proof -
  have "list_all (\<lambda>s. cents (due_amount s)) (md_settlements sample_market)"
    by (simp add: sample_defs due_amount_def cents_numeral)
  from due_payouts_pay_exactly [OF sample_market_ok this sample_batch]
  have "list_all (pays_its_settlements sample_paid) (md_payouts sample_paid)" by (auto simp: sample_market_def)
  moreover have "dec6 140 = 140" by (rule grid_dec6 [OF cents_grid]) (rule cents_numeral)
  ultimately show ?thesis by (simp add: sample_defs due_amount_def sample_paid_def queued_payout_def)
qed

text \<open>A run on the sample tables that pays the batch and then reports it paid.\<close>

theorem ended_payout_is_final_witness:
  "payouts_evolve (md_payouts sample_paid)
     (md_payouts (mw_db (mp_run [(calm_env 20, sample_service, OpPayoutPaid ''payout'' ''po_1''),
        (calm_env 30, sample_service, OpDuePayouts 30)] \<lparr>mw_db = sample_paid, mw_sent = []\<rparr>)))"
proof -
  have "market_ok sample_paid"
    by (simp add: sample_paid_def sample_defs market_ok_def books_ok_def links_ok_def order_ok_def settles_def linked_to_def queued_payout_def)
  then show ?thesis
    using ended_payout_is_final [of "\<lparr>mw_db = sample_paid, mw_sent = []\<rparr>"] by simp
qed

subsection \<open>Replayed events\<close>

lemma order_join_updates:
  assumes w: "\<And>x. mo_intent (f x) = mo_intent x" and p: "\<And>x. pi_id (g x) = pi_id x"
  shows "order_join (db\<lparr>md_orders := List.map f (md_orders db), md_intents := List.map g (md_intents db)\<rparr>)
    = List.map (\<lambda>(x, y). (f x, g y)) (order_join db)"
proof -
  have "sql_select (\<lambda>q. pi_id q = i) (List.map g (md_intents db)) = map_option g (sql_select (\<lambda>q. pi_id q = i) (md_intents db))" for i
    by (rule sql_select_map) (simp add: p)
  then have "concat (List.map (\<lambda>x. case sql_select (\<lambda>q. pi_id q = mo_intent x) (List.map g (md_intents db)) of
        None \<Rightarrow> [] | Some q \<Rightarrow> [(x, q)]) (List.map f xs))
      = List.map (\<lambda>(x, y). (f x, g y)) (concat (List.map (\<lambda>x. case sql_select (\<lambda>q. pi_id q = mo_intent x) (md_intents db) of
        None \<Rightarrow> [] | Some q \<Rightarrow> [(x, q)]) xs))" for xs
    by (induction xs) (auto simp: w split: option.splits)
  then show ?thesis by (simp add: order_join_def)
qed

lemma mp_tx_no_change: "(\<And>tx x. body db = Inr (tx, x) \<Longrightarrow> tx = db) \<Longrightarrow> fst (mp_tx env body db) = db"
  by (auto simp: mp_tx_def split: sum.splits prod.splits)

lemma known_event_inserts_nothing:
  assumes "list_ex (\<lambda>x. le_key x = le_key e) (md_events tx)" "insert_transition env e tx = Inr (tx1, inserted)"
  shows "tx1 = tx \<and> \<not> inserted"
  using assms by (auto simp: insert_transition_def step_simps)

lemma load_order_found:
  "load_order_for_update env tx oid i = Inr wp \<Longrightarrow> sql_select (\<lambda>(x, p). mo_intent x = i \<and> (oid = [] \<or> mo_id x = oid)) (order_join tx) = Some wp"
  by (simp add: load_order_for_update_def try_step_Inr)

lemma load_refund_found:
  "load_order_for_refund env tx i pay = Inr wp \<Longrightarrow>
   sql_select (\<lambda>(x, p). (i \<noteq> [] \<and> mo_intent x = i) \<or> (pay \<noteq> [] \<and> pi_payment p = Some pay)) (order_join tx) = Some wp"
  by (simp add: load_order_for_refund_def try_step_Inr)

lemma order_join_rows:
  "md_orders tx = md_orders db \<Longrightarrow> md_intents tx = md_intents db \<Longrightarrow> order_join tx = order_join db"
  by (simp add: order_join_def)

lemma checkout_key:
  "le_key (checkout_event env c w p) = transition_key (pi_provider p) (cc_event c) ''marketplace_checkout'' (mo_intent w)"
  by (simp add: checkout_event_def lifecycle_event_of_def)

lemma refund_key:
  "le_key (refund_event env r w p) = transition_key (pi_provider p) (mr_event r) ''marketplace_refund'' (mr_refund r)"
  by (simp add: refund_event_def lifecycle_event_of_def)

text \<open>An event that the order it is for has already been through.\<close>

definition completion_known :: "checkout_completed \<Rightarrow> mp_db \<Rightarrow> bool" where
  "completion_known c db \<longleftrightarrow> (\<exists>w p. sql_select (\<lambda>(x, p). mo_intent x = cc_intent c \<and> (cc_order c = [] \<or> mo_id x = cc_order c)) (order_join db) = Some (w, p)
     \<and> list_ex (\<lambda>e. le_key e = transition_key (pi_provider p) (cc_event c) ''marketplace_checkout'' (mo_intent w)) (md_events db))"

definition refund_known :: "mp_refund \<Rightarrow> mp_db \<Rightarrow> bool" where
  "refund_known r db \<longleftrightarrow> (\<exists>w p. sql_select (\<lambda>(x, p). (mr_intent r \<noteq> [] \<and> mo_intent x = mr_intent r) \<or> (mr_payment r \<noteq> [] \<and> pi_payment p = Some (mr_payment r)))
       (order_join db) = Some (w, p)
     \<and> list_ex (\<lambda>e. le_key e = transition_key (pi_provider p) (mr_event r) ''marketplace_refund'' (mr_refund r)) (md_events db))"

text \<open>The rows of orders and intents rewritten in place, and more events.\<close>

definition rewritten :: "(mp_order \<Rightarrow> mp_order) \<Rightarrow> (mp_intent \<Rightarrow> mp_intent) \<Rightarrow> mp_db \<Rightarrow> mp_db \<Rightarrow> bool" where
  "rewritten h g db db' \<longleftrightarrow> md_orders db' = List.map h (md_orders db) \<and> md_intents db' = List.map g (md_intents db)
     \<and> set (md_events db) \<subseteq> set (md_events db')
     \<and> (\<forall>x. mo_id (h x) = mo_id x \<and> mo_intent (h x) = mo_intent x) \<and> (\<forall>q. pi_id (g q) = pi_id q \<and> pi_provider (g q) = pi_provider q)"

lemma rewritten_join: "rewritten h g db db' \<Longrightarrow> order_join db' = List.map (\<lambda>(x, y). (h x, g y)) (order_join db)"
  using order_join_rows [of db' "db\<lparr>md_orders := List.map h (md_orders db), md_intents := List.map g (md_intents db)\<rparr>"]
  by (simp add: rewritten_def order_join_updates)

lemma rewritten_select:
  assumes "rewritten h g db db'" and "\<And>x y. P (h x, g y) = P (x, y)" and "sql_select P (order_join db) = Some (w, p)"
  shows "sql_select P (order_join db') = Some (h w, g p)"
proof -
  have "sql_select P (order_join db') = map_option (\<lambda>(x, y). (h x, g y)) (sql_select P (order_join db))"
    unfolding rewritten_join [OF assms(1)] by (rule sql_select_map) (auto simp: assms(2))
  with assms(3) show ?thesis by simp
qed

lemma completion_known_rewritten:
  assumes r: "rewritten h g db db'" and s: "sql_select (\<lambda>(x, p). mo_intent x = cc_intent c \<and> (cc_order c = [] \<or> mo_id x = cc_order c)) (order_join db) = Some (w, p)"
    and e: "list_ex (\<lambda>e. le_key e = transition_key (pi_provider p) (cc_event c) ''marketplace_checkout'' (mo_intent w)) (md_events db')"
  shows "completion_known c db'"
proof -
  have "sql_select (\<lambda>(x, p). mo_intent x = cc_intent c \<and> (cc_order c = [] \<or> mo_id x = cc_order c)) (order_join db') = Some (h w, g p)"
    using r by (intro rewritten_select [OF r _ s]) (simp add: rewritten_def)
  with r e show ?thesis unfolding completion_known_def rewritten_def by (intro exI [of _ "h w"] exI [of _ "g p"]) simp
qed

lemma completion_known_later: "rewritten h g db db' \<Longrightarrow> completion_known c db \<Longrightarrow> completion_known c db'"
  unfolding completion_known_def [of c db]
  by (elim exE conjE, rule completion_known_rewritten) (auto simp: rewritten_def list_ex_iff)

lemma refund_known_rewritten:
  assumes r: "rewritten h g db db'" and pay: "\<And>q. pi_payment (g q) = pi_payment q"
    and s: "sql_select (\<lambda>(x, p). (mr_intent r \<noteq> [] \<and> mo_intent x = mr_intent r) \<or> (mr_payment r \<noteq> [] \<and> pi_payment p = Some (mr_payment r))) (order_join db) = Some (w, p)"
    and e: "list_ex (\<lambda>e. le_key e = transition_key (pi_provider p) (mr_event r) ''marketplace_refund'' (mr_refund r)) (md_events db')"
  shows "refund_known r db'"
proof -
  have "sql_select (\<lambda>(x, p). (mr_intent r \<noteq> [] \<and> mo_intent x = mr_intent r) \<or> (mr_payment r \<noteq> [] \<and> pi_payment p = Some (mr_payment r))) (order_join db') = Some (h w, g p)"
    using r by (intro rewritten_select [OF r _ s]) (simp add: rewritten_def pay)
  with r e show ?thesis unfolding refund_known_def rewritten_def by (intro exI [of _ "h w"] exI [of _ "g p"]) simp
qed

lemma fulfilled_rewritten:
  assumes "fulfilled env c w install (db\<lparr>md_events := md_events db @ es\<rparr>) db'"
  shows "rewritten (\<lambda>x. if mo_id x = mo_id w then paid_order env c install x else x)
    (\<lambda>q. if pi_id q = mo_intent w then q\<lparr>pi_status := ''completed'', pi_checkout := set_unless_empty (cc_checkout c) (pi_checkout q),
       pi_payment := set_unless_empty (cc_payment c) (pi_payment q), pi_updated := me_now env\<rparr> else q) db db'"
  using assms by (simp add: rewritten_def fulfilled_def paid_order_def)

lemma refund_rewritten:
  "\<exists>h g. rewritten h g db (refund_rows env w amt (db\<lparr>md_events := md_events db @ es\<rparr>)) \<and> (\<forall>q. pi_payment (g q) = pi_payment q)"
  by (intro exI [of _ "\<lambda>x. if mo_id x = mo_id w then x\<lparr>mo_status := refund_order_status amt w, mo_refunded := dec6 amt, mo_updated := me_now env\<rparr> else x"]
      exI [of _ "\<lambda>p. if pi_id p = mo_intent w then p\<lparr>pi_status := refund_order_status amt w, pi_refunded := dec6 amt, pi_updated := me_now env\<rparr> else p"])
    (simp add: rewritten_def refund_rows_def sql_update_rows)

lemma completed_makes_known:
  assumes "completed_tx env c db = Inr (db', oid)"
  shows "completion_known c db'"
  using assms
proof (cases rule: completed_cases)
  case (1 w p)
  then show ?thesis using load_order_found [OF 1(2)]
    by (auto simp: list_ex_iff checkout_key completion_known_def intro!: exI [of _ w] exI [of _ p])
next
  case (2 w p)
  from fulfil_rows [OF 2(5)] obtain install where
    f: "fulfilled env c w install (db\<lparr>md_events := md_events db @ [checkout_event env c w p]\<rparr>) db'" ..
  have "checkout_event env c w p \<in> set (md_events db')" using f by (simp add: fulfilled_def)
  then have "list_ex (\<lambda>e. le_key e = transition_key (pi_provider p) (cc_event c) ''marketplace_checkout'' (mo_intent w)) (md_events db')"
    unfolding list_ex_iff checkout_key [of env, symmetric] by blast
  with completion_known_rewritten [OF fulfilled_rewritten [OF f] load_order_found [OF 2(2)]] show ?thesis .
qed

lemma completed_known_again:
  assumes "completion_known c db" "completed_tx env c db = Inr (tx, x)"
  shows "tx = db"
  using assms(2)
proof (cases rule: completed_cases)
  case (2 w p)
  with load_order_found [OF 2(2)] assms(1) show ?thesis by (auto simp: completion_known_def list_ex_iff checkout_key)
qed simp

lemma refund_tx_effect:
  assumes "refund_tx env r db = Inr (db', u)"
  shows "refund_known r db' \<and> (completion_known c db \<longrightarrow> completion_known c db')"
  using assms
proof (cases rule: market_refund_cases)
  case (1 w p)
  then show ?thesis using load_refund_found [OF 1(2)]
    by (auto simp: list_ex_iff refund_key refund_known_def intro!: exI [of _ w] exI [of _ p])
next
  case (2 w p)
  from refund_rewritten [of db env w "refunded_total r w" "[refund_event env r w p]"] 2(4) obtain h g where
    re: "rewritten h g db db'" and pay: "\<And>q. pi_payment (g q) = pi_payment q" by blast
  have "refund_event env r w p \<in> set (md_events db')" using 2(4) by (simp add: refund_rows_def)
  then have "list_ex (\<lambda>e. le_key e = transition_key (pi_provider p) (mr_event r) ''marketplace_refund'' (mr_refund r)) (md_events db')"
    unfolding list_ex_iff by (intro bexI [where x = "refund_event env r w p"] refund_key)
  with refund_known_rewritten [OF re pay load_refund_found [OF 2(2)]] completion_known_later [OF re] show ?thesis by blast
qed

lemma refund_known_again:
  assumes "refund_known r db" "refund_tx env r db = Inr (tx, u)"
  shows "tx = db"
  using assms(2)
proof (cases rule: market_refund_cases)
  case (2 w p)
  with load_refund_found [OF 2(2)] assms(1) show ?thesis by (auto simp: refund_known_def list_ex_iff refund_key)
qed simp

text \<open>
  C20. The provider's events are applied once: after a checkout was completed and then refunded,
  delivering either event again, at any time and whatever fails then, leaves every table as it
  is. No second install, settlement or refund comes of it and a refunded order stays refunded.
\<close>

theorem replayed_events_change_nothing:
  assumes "apply_checkout_completed env1 c db = (db1, Inr s)" and "apply_marketplace_refund env2 r db1 = (db2, Inr u)"
  shows "fst (apply_checkout_completed env3 c db2) = db2 \<and> fst (apply_marketplace_refund env3 r db2) = db2"
proof -
  from assms(1) obtain oid where "completed_tx env1 c db = Inr (db1, oid)" and fields: "cc_event c \<noteq> []" "cc_intent c \<noteq> []"
    by (auto simp: apply_checkout_completed_def mp_tx_def split: if_splits sum.splits prod.splits)
  then have 1: "completion_known c db1" by (intro completed_makes_known)
  from assms(2) obtain x where "refund_tx env2 r db1 = Inr (db2, x)"
    by (auto simp: apply_marketplace_refund_def mp_tx_def split: if_splits sum.splits prod.splits)
  then have 2: "completion_known c db2" "refund_known r db2" using refund_tx_effect 1 by blast+
  have "fst (mp_tx env3 (completed_tx env3 c) db2) = db2" by (rule mp_tx_no_change) (rule completed_known_again [OF 2(1)])
  moreover have "fst (mp_tx env3 (refund_tx env3 r) db2) = db2" by (rule mp_tx_no_change) (rule refund_known_again [OF 2(2)])
  ultimately show ?thesis using fields
    by (auto simp: apply_checkout_completed_def apply_marketplace_refund_def split: sum.splits prod.splits)
qed

definition sample_agent :: mp_agent where
  "sample_agent = \<lparr>ag_id = ''agent'', ag_org = ''p'', ag_owner = ''pat'', ag_visibility = ''public'', ag_status = ''approved'',
     ag_pricing = ''one_time'', ag_amount = Some 100, ag_installs = 0\<rparr>"

definition sample_sale :: mp_db where
  "sample_sale = \<lparr>md_agents = [sample_agent], md_versions = [],
     md_intents = [\<lparr>pi_id = ''intent-1'', pi_provider = ''stripe'', pi_org = ''b'', pi_user = ''bob'', pi_kind = ''marketplace_install'',
       pi_amount = 100, pi_currency = ''eur'', pi_status = ''pending'', pi_checkout = None, pi_payment = None, pi_refunded = 0,
       pi_meta = Map.empty, pi_created = 1, pi_updated = 1, pi_package = None, pi_subscription = None, pi_invoice = None\<rparr>],
     md_orders = [(sample_order ''1'')\<lparr>mo_refunded := 0, mo_status := ''pending_payment'', mo_paid_at := None\<rparr>],
     md_settlements = [], md_payouts = [], md_installs = [], md_events = []\<rparr>"

definition sample_completion :: checkout_completed where
  "sample_completion = \<lparr>cc_event = ''evt_1'', cc_order = [], cc_intent = ''intent-1'', cc_checkout = ''cs_1'', cc_payment = ''pay_1''\<rparr>"

definition sample_refund :: mp_refund where
  "sample_refund = \<lparr>mr_event = ''evt_2'', mr_refund = ''re_1'', mr_intent = [], mr_payment = ''pay_1'', mr_amount = 40\<rparr>"

lemma sample_sale_completed: "\<exists>s. snd (apply_checkout_completed (calm_env 3) sample_completion sample_sale) = Inr s"
  by (simp add: apply_checkout_completed_def sample_completion_def mp_tx_def calm_env_def completed_tx_def load_order_for_update_def
      db_call_def fail_if_def or_error_def order_join_def sample_sale_def sample_order_def sql_select_def insert_transition_def
      fulfil_order_def complete_intent_def session_taken_def sql_update_def record_install_def mark_order_paid_def paid_order_def
      insert_settlement_def settlement_of_def load_settlement_by_order_def Let_def sample_agent_def)

lemma sample_sale_refunded:
  assumes "apply_checkout_completed (calm_env 3) sample_completion sample_sale = (db1, res)"
  shows "snd (apply_marketplace_refund (calm_env 4) sample_refund db1) = Inr ()"
proof -
  have "db1 = fst (apply_checkout_completed (calm_env 3) sample_completion sample_sale)" using assms by simp
  also have "order_join \<dots> \<noteq> [] \<and> list_all (\<lambda>(x, p). pi_payment p = Some ''pay_1'') (order_join \<dots>)"
    by (simp add: apply_checkout_completed_def sample_completion_def mp_tx_def calm_env_def completed_tx_def load_order_for_update_def
      db_call_def fail_if_def or_error_def order_join_def sample_sale_def sample_order_def sql_select_def insert_transition_def
      fulfil_order_def complete_intent_def session_taken_def sql_update_def record_install_def mark_order_paid_def paid_order_def
      insert_settlement_def settlement_of_def load_settlement_by_order_def Let_def sample_agent_def set_unless_empty_def)
  finally obtain w p rest where "order_join db1 = (w, p) # rest" "pi_payment p = Some ''pay_1''" by (cases "order_join db1") auto
  then have "load_order_for_refund (calm_env 4) db1 [] ''pay_1'' = Inr (w, p)"
    by (simp add: load_order_for_refund_def db_call_def fail_if_def calm_env_def or_error_def sql_select_def)
  then show ?thesis
    by (simp add: apply_marketplace_refund_def sample_refund_def refund_tx_def mp_tx_def insert_transition_def db_call_def fail_if_def
        calm_env_def)
qed

theorem replayed_events_change_nothing_witness:
  "let db1 = fst (apply_checkout_completed (calm_env 3) sample_completion sample_sale);
       db2 = fst (apply_marketplace_refund (calm_env 4) sample_refund db1)
   in fst (apply_checkout_completed (calm_env 9) sample_completion db2) = db2
    \<and> fst (apply_marketplace_refund (calm_env 9) sample_refund db2) = db2"
proof -
  obtain db1 s where one: "apply_checkout_completed (calm_env 3) sample_completion sample_sale = (db1, Inr s)"
    using sample_sale_completed by (metis prod.collapse)
  obtain db2 where two: "apply_marketplace_refund (calm_env 4) sample_refund db1 = (db2, Inr ())"
    using sample_sale_refunded [OF one] by (metis prod.collapse)
  show ?thesis using replayed_events_change_nothing [OF one two, of "calm_env 9"] one two by simp
qed

subsection \<open>Where the flow does not lead\<close>

text \<open>No settlement is due, and nothing was ever paid.\<close>

definition nothing_due :: "mp_db \<Rightarrow> bool" where
  "nothing_due db \<longleftrightarrow> md_payouts db = [] \<and> list_all (\<lambda>s. ms_status s \<noteq> ''available'') (md_settlements db)"

lemma nothing_due_rows: "nothing_due db \<Longrightarrow> due_rows now db = []"
  by (auto simp: nothing_due_def due_rows_def due_settlement_def list_all_iff filter_empty_conv)

lemma nothing_due_batch:
  assumes "nothing_due (mw_db w)"
  shows "fst (create_due_payouts env sv now w) = w"
proof -
  have "md_payouts (mw_db w) = []" using assms by (simp add: nothing_due_def)
  then have queued: "list_queued_payouts env name 100 (mw_db w) = Inr []" if "\<not> me_fault env MpListQueued" for name
    using that by (simp add: list_queued_payouts_def db_call_def fail_if_def)
  have none: "list_queued_payouts env name 100 (mw_db w) = Inl (MpFault MpListQueued)" if "me_fault env MpListQueued" for name
    using that by (simp add: list_queued_payouts_def db_call_def fail_if_def)
  have tx: "\<exists>e. mp_tx env (due_payouts_tx env sv name t) (mw_db w) \<in> {(mw_db w, Inl e), (mw_db w, Inr [])}" for name t
    using nothing_due_rows [OF assms, of t] by (simp add: mp_tx_def due_payouts_tx_def payout_groups_def db_call_def fail_if_def)
  show ?thesis
  proof (cases "me_payout_ready env GuardEntry \<and> \<not> me_fault env MpListQueued")
    case True
    show ?thesis
    proof (cases "payout_provider_name sv")
      case (Inr name)
      with True tx [of name "if now = zero_time then me_now env else now"] queued [of name] show ?thesis
        by (auto simp: create_due_payouts_def Let_def)
    qed (simp add: create_due_payouts_def)
  qed (auto simp: create_due_payouts_def Let_def none split: sum.splits)
qed

lemma nothing_due_changes:
  assumes "changes_by body db db'" "nothing_due db" "\<And>tx x. nothing_due db \<Longrightarrow> body db = Inr (tx, x) \<Longrightarrow> nothing_due tx"
  shows "nothing_due db'"
  using assms by (auto simp: changes_by_def)

lemma nothing_due_create: "nothing_due db \<Longrightarrow> nothing_due (fst (create_paid_install_checkout env sv r db))"
  by (erule nothing_due_changes [OF create_changes]) (auto dest!: create_checkout_rows simp: nothing_due_def)

lemma nothing_due_session: "nothing_due db \<Longrightarrow> nothing_due (fst (set_checkout_session env oid intent session db))"
  by (erule nothing_due_changes [OF session_changes]) (auto simp: set_session_tx_def step_simps split_beta nothing_due_def)

lemma nothing_due_failed: "nothing_due db \<Longrightarrow> nothing_due (fst (mark_checkout_failed env oid intent reason db))"
  by (erule nothing_due_changes [OF checkout_failed_changes]) (auto simp: checkout_failed_tx_def step_simps split_beta nothing_due_def)

lemma nothing_due_completed:
  assumes "nothing_due db"
  shows "nothing_due (fst (apply_checkout_completed env c db))"
proof (rule nothing_due_changes [OF completed_changes assms])
  fix tx oid
  assume "completed_tx env c db = Inr (tx, oid)"
  then show "nothing_due tx"
  proof (cases rule: completed_cases)
    case (2 w p)
    from fulfil_rows [OF 2(5)] assms show ?thesis
      by (auto simp: fulfilled_def nothing_due_def settlement_of_def split: if_splits)
  qed (use assms in simp)
qed

lemma nothing_due_refund:
  assumes "nothing_due db"
  shows "nothing_due (fst (apply_marketplace_refund env r db))"
proof (cases "mr_event r = [] \<or> mr_refund r = [] \<or> mr_amount r \<le> 0")
  case False
  then have "apply_marketplace_refund env r db = mp_tx env (refund_tx env r) db" by (auto simp: apply_marketplace_refund_def)
  moreover have "nothing_due (fst (mp_tx env (refund_tx env r) db))"
  proof (rule nothing_due_changes [OF changes_tx assms])
    fix tx u
    assume "refund_tx env r db = Inr (tx, u)"
    then show "nothing_due tx"
    proof (cases rule: market_refund_cases)
      case (2 w p)
      have "refund_settlement_status (refunded_total r w) w \<noteq> ''available''" by (simp add: refund_settlement_status_def)
      with assms show ?thesis by (simp add: 2(4) refund_rows_def nothing_due_def sql_update_rows list_all_length)
    qed (use assms in simp)
  qed
  ultimately show ?thesis by simp
qed (use assms in \<open>auto simp: apply_marketplace_refund_def\<close>)

lemma nothing_due_paid: "nothing_due db \<Longrightarrow> nothing_due (fst (mark_payout_paid env pid ref db))"
  by (erule nothing_due_changes [OF paid_changes]) (auto simp: payout_paid_tx_def step_simps nothing_due_def sql_select_def)

lemma nothing_due_lifecycle:
  assumes "nothing_due db"
  shows "nothing_due (fst (apply_provider_payout_lifecycle env e db))"
proof -
  from lifecycle_changes [of env e db] consider "fst (apply_provider_payout_lifecycle env e db) = db"
    | to where "changes_by (payout_lifecycle_tx env e to) db (fst (apply_provider_payout_lifecycle env e db))" by blast
  then show ?thesis
  proof cases
    case 2
    then show ?thesis using assms
      by (rule nothing_due_changes)
        (auto simp: payout_lifecycle_tx_def step_simps nothing_due_def sql_select_def load_payout_for_lifecycle_def)
  qed (use assms in simp)
qed

fun by_operator :: "mp_env \<times> mp_service \<times> mp_op \<Rightarrow> bool" where
  "by_operator (env, sv, OpPayoutPending sid ref) = True"
| "by_operator (env, sv, op) = False"

lemma nothing_due_exec:
  assumes "nothing_due (mw_db w)" "\<not> by_operator step"
  shows "nothing_due (mw_db (mp_exec step w)) \<and> mw_sent (mp_exec step w) = mw_sent w"
proof -
  obtain env sv op where step: "step = (env, sv, op)" by (cases step)
  show ?thesis using assms unfolding step
    by (cases op) (simp_all add: nothing_due_create nothing_due_session nothing_due_failed nothing_due_completed nothing_due_refund
        nothing_due_paid nothing_due_lifecycle nothing_due_batch mark_payout_failed_def Let_def)
qed

text \<open>
  No publisher is paid by the batches alone: a settlement starts as pending and only a failed
  payout makes one available, so in every run without an operator's own payout request, however
  long and with whatever sales, no payout is created and the provider is never asked to pay.
\<close>

theorem batches_never_start_paying:
  assumes "list_all (\<lambda>step. \<not> by_operator step) steps"
  shows "md_payouts (mw_db (mp_run steps (fresh_market agents versions))) = []
    \<and> mw_sent (mp_run steps (fresh_market agents versions)) = []"
proof -
  have "nothing_due (mw_db (mp_run steps w)) \<and> mw_sent (mp_run steps w) = mw_sent w" if "nothing_due (mw_db w)" for w
    using assms that
  proof (induction steps arbitrary: w)
    case (Cons step steps)
    then show ?case using nothing_due_exec [of w step] by (simp add: mp_run_def)
  qed (simp add: mp_run_def)
  from this [of "fresh_market agents versions"] show ?thesis by (simp add: fresh_market_def nothing_due_def)
qed

theorem batches_never_start_paying_witness:
  "mw_sent (mp_run [(calm_env 1, sample_service, OpCheckout \<lparr>pc_buyer_org = ''b'', pc_buyer = ''bob'', pc_agent = ''agent'',
       pc_version = [], pc_provider = [], pc_currency = []\<rparr>),
     (calm_env 2, sample_service, OpCompleted \<lparr>cc_event = ''evt_1'', cc_order = [], cc_intent = ''intent'', cc_checkout = [], cc_payment = []\<rparr>),
     (calm_env (90 * 24 * 60 * go_minute), sample_service, OpDuePayouts 0)] (fresh_market [sample_agent] [])) = []"
  by (rule batches_never_start_paying [THEN conjunct2]) simp

text \<open>
  A payout an operator asks for does not look at what became of the settlement: as long as the
  amount left passes the minimum, a settlement that is held, reversed or already paid out gets
  another payout of the full amount, in dollars whatever the order's currency.
\<close>

theorem operator_payout_ignores_status:
  assumes "sql_select (\<lambda>x. ms_id x = sid) (md_settlements tx) = Some s"
    and "list_all (\<lambda>p. po_id p \<noteq> me_id env ''payout'' 0) (md_payouts tx)" and "me_fault env = (\<lambda>c. False)"
    and "calculate_payout_amount sv s (me_now env) = Inr amt"
  shows "\<exists>tx'. payout_pending_tx env sv name sid ref tx = Inr (tx', me_id env ''payout'' 0)
    \<and> (\<exists>p. md_payouts tx' = md_payouts tx @ [p] \<and> po_id p = me_id env ''payout'' 0 \<and> po_amount p = dec6 amt \<and> po_currency p = ''usd''
          \<and> po_status p = ''payout_pending'')"
proof -
  have "\<not> list_ex (\<lambda>q. po_id q = me_id env ''payout'' 0) (md_payouts tx)" using assms(2) by (auto simp: list_all_iff list_ex_iff)
  then show ?thesis
    using assms(1,3,4) by (simp add: payout_pending_tx_def db_call_def fail_if_def or_error_def insert_payout_def queued_payout_def)
qed

theorem operator_payout_ignores_status_witness:
  "\<exists>tx'. payout_pending_tx (calm_env 50) sample_service ''stripe'' ''settlement-1'' []
       (sample_market\<lparr>md_settlements := [(sample_settlement ''1'')\<lparr>ms_status := ''paid_out'', ms_payout := Some ''earlier''\<rparr>]\<rparr>) = Inr (tx', ''payout'')"
proof -
  let ?s = "(sample_settlement ''1'')\<lparr>ms_status := ''paid_out'', ms_payout := Some ''earlier''\<rparr>"
  have "calculate_payout_amount sample_service ?s 50 = Inr (max 0 (round_amount (80 - 10)))"
    by (simp add: calculate_payout_amount_def sample_service_def new_settlement_service_def standard_tiers_def Let_def sample_settlement_def)
  then show ?thesis
    using operator_payout_ignores_status [of "''settlement-1''" "sample_market\<lparr>md_settlements := [?s]\<rparr>" ?s "calm_env 50" sample_service
        "max 0 (round_amount (80 - 10))" "''stripe''" "[]"]
    by (auto simp: calm_env_def sample_market_def sample_settlement_def sql_select_def)
qed

end
