(* ===== verification/Billing_Lifecycle.thy ===== *)
theory Billing_Lifecycle
  imports Quota_Ledger Marketplace_Settlement
begin

text \<open>
  The billing lifecycle: \<open>src/server/internal/stripe/lifecycle.go\<close>, the provider's events applied to
  payment intents, top-up orders, balances, subscriptions, invoices and refunds; \<open>ledger.go\<close> and
  \<open>webhook.go\<close>, the record of deliveries and the Stripe handler behind the signature check; and the
  handler of the domestic providers, \<open>src/server/internal/http/domestic_payment_webhook_handler.go\<close>.

  The tables \<open>payment_intents\<close> and \<open>billing_lifecycle_events\<close> are those of the marketplace, which
  applies the events of paid installs, and \<open>quotas\<close> is that of the ledger. The environment gives
  the clock, new identifiers, the driver calls that fail and the environment of the marketplace.
  An event's data is the decoded JSON object, with zero values for what it does not have, or
  nothing when it cannot be decoded. Of the foreign keys the payment intent of an event is
  checked. Payloads, error texts, reasons, metrics and spans are left out; the amount a checkout
  event reports is not kept, since no code reads it after it is set.
\<close>

subsection \<open>Tables\<close>

record bl_topup =
  bt_id :: string
  bt_org :: string
  bt_user :: string
  bt_intent :: "string option"
  bt_checkout :: "string option"
  bt_amount :: usd
  bt_status :: string
  bt_trade :: "string option"
  bt_paid_at :: "gotime option"
  bt_refunded :: usd

record bl_subscription =
  bs_sub_id :: string
  bs_sub_org :: string
  bs_sub_user :: string
  bs_package :: string
  bs_next_plan :: "string option"
  bs_sub_status :: string
  bs_provider_sub :: "string option"
  bs_customer :: "string option"
  bs_sub_checkout :: "string option"
  bs_invoice :: "string option"
  bs_failed_at :: "gotime option"
  bs_cancel_at_end :: bool
  bs_sub_created :: gotime
  bs_sub_updated :: gotime

record bl_user =
  us_id :: string
  us_plan :: "string option"

record bl_invoice =
  iv_id :: string
  iv_provider_id :: string
  iv_provider_sub :: "string option"
  iv_provider_payment :: "string option"
  iv_org :: string
  iv_user :: string
  iv_subscription :: "string option"
  iv_intent :: "string option"
  iv_status :: string
  iv_due :: usd
  iv_paid :: usd
  iv_currency :: string
  iv_created :: gotime
  iv_updated :: gotime

record bl_refund =
  rf_id :: string
  rf_provider :: string
  rf_provider_id :: string
  rf_charge :: "string option"
  rf_payment :: "string option"
  rf_org :: string
  rf_user :: string
  rf_intent :: string
  rf_topup :: "string option"
  rf_amount :: usd
  rf_currency :: string
  rf_status :: string
  rf_created :: gotime
  rf_updated :: gotime

record webhook_event =
  wh_id :: string
  wh_provider :: string
  wh_event :: string
  wh_type :: string
  wh_status :: string

record bl_db =
  bl_market :: mp_db
  bl_quotas :: "quota_row list"
  bl_topups :: "bl_topup list"
  bl_subs :: "bl_subscription list"
  bl_users :: "bl_user list"
  bl_invoices :: "bl_invoice list"
  bl_refunds :: "bl_refund list"
  bl_webhooks :: "webhook_event list"

datatype bl_call =
    BlBegin | BlInsertEvent | BlEventRows | BlCommit | BlLoadIntent | BlUpdateIntent
  | BlFindSubscription | BlWriteSubscription | BlUpdateUser | BlLoadTopup | BlUpdateTopup
  | BlEnsureQuota | BlUpdateQuota | BlFindIntent | BlUpsertInvoice | BlSubscriptionRows
  | BlUpsertRefund | BlInsertWebhook | BlWebhookRows | BlIntentRows

datatype bl_error =
    BlFault bl_call | BlMissingFields | BlPlanRequired | BlOrderRequired | BlNoMarketplace | BlNoRows
  | BlKindMismatch | BlUnsupportedKind | BlCheckViolation | BlMissingIntent | BlDuplicate
  | BlIntentRequired | BlPackageRequired | BlUndecodable | BlMarketplace mp_error

record bl_env =
  be_now :: gotime
  be_id :: "string \<Rightarrow> string"
  be_fault :: "bl_call \<Rightarrow> bool"
  be_market :: mp_env

definition bl_call :: "bl_env \<Rightarrow> bl_call \<Rightarrow> bl_error + unit" where
  "bl_call env c = fail_if (be_fault env c) (BlFault c)"

abbreviation bl_intents :: "bl_db \<Rightarrow> mp_intent list" where
  "bl_intents db \<equiv> md_intents (bl_market db)"

abbreviation bl_events :: "bl_db \<Rightarrow> lifecycle_event list" where
  "bl_events db \<equiv> md_events (bl_market db)"

definition set_intents :: "mp_intent list \<Rightarrow> bl_db \<Rightarrow> bl_db" where
  "set_intents ps db = db\<lparr>bl_market := (bl_market db)\<lparr>md_intents := ps\<rparr>\<rparr>"

definition add_event :: "lifecycle_event \<Rightarrow> bl_db \<Rightarrow> bl_db" where
  "add_event e db = db\<lparr>bl_market := (bl_market db)\<lparr>md_events := bl_events db @ [e]\<rparr>\<rparr>"

subsection \<open>Transitions\<close>

text \<open>
  \<open>withTransition\<close>: the event is inserted under its key, and only when the key is new are its
  effects applied, in the same transaction.
\<close>

definition with_transition ::
  "bl_env \<Rightarrow> lifecycle_event \<Rightarrow> (bl_db \<Rightarrow> bl_error + bl_db) \<Rightarrow> bl_db \<Rightarrow> bl_db \<times> bl_error option" where
  "with_transition env e effects db =
     (if be_fault env BlBegin then (db, Some (BlFault BlBegin))
      else if be_fault env BlInsertEvent then (db, Some (BlFault BlInsertEvent))
      else if list_ex (\<lambda>x. le_key x = le_key e) (bl_events db)
        then (db, if be_fault env BlEventRows then Some (BlFault BlEventRows) else None)
      else if le_intent e \<noteq> None \<and> \<not> list_ex (\<lambda>p. Some (pi_id p) = le_intent e) (bl_intents db)
        then (db, Some BlMissingIntent)
      else if be_fault env BlEventRows then (db, Some (BlFault BlEventRows))
      else case effects (add_event e db) of
             Inl err \<Rightarrow> (db, Some err)
           | Inr tx \<Rightarrow> if be_fault env BlCommit then (db, Some (BlFault BlCommit)) else (tx, None))"

definition transition_event ::
  "bl_env \<Rightarrow> string \<Rightarrow> string \<Rightarrow> string \<Rightarrow> string \<Rightarrow> string \<times> string \<times> string \<Rightarrow> string \<times> string \<Rightarrow> string \<Rightarrow> lifecycle_event" where
  "transition_event env provider key event type owner entity state =
     \<lparr>le_key = key, le_provider = lower_or ''stripe'' provider, le_event = event, le_type = type,
      le_org = fst owner, le_user = fst (snd owner), le_intent = nullif_empty (snd (snd owner)),
      le_entity_type = fst entity, le_entity = snd entity, le_state = state, le_created = be_now env\<rparr>"

definition bl_key :: "string \<Rightarrow> string \<Rightarrow> string \<Rightarrow> string \<Rightarrow> string" where
  "bl_key provider event kind entity = join_with '':'' [provider, event, kind, entity]"

subsection \<open>Checkouts\<close>

record checkout_input =
  ci_provider :: string
  ci_org :: string
  ci_user :: string
  ci_intent :: string
  ci_package :: string
  ci_kind :: string
  ci_payment :: string
  ci_subscription :: string
  ci_customer :: string
  ci_checkout :: string
  ci_order :: string

text \<open>\<open>applySubscriptionCheckout\<close>; the latest of the matching rows, the first of equally late ones.\<close>

definition checkout_subscription :: "checkout_input \<Rightarrow> bl_db \<Rightarrow> bl_subscription option" where
  "checkout_subscription i tx =
     fold (\<lambda>s best. case best of None \<Rightarrow> Some s | Some b \<Rightarrow> if bs_sub_created b < bs_sub_created s then Some s else best)
       (filter (\<lambda>s. bs_sub_org s = ci_org i \<and> bs_sub_user s = ci_user i
          \<and> (if ci_subscription i = [] then bs_sub_status s \<in> {''active'', ''past_due''}
             else bs_provider_sub s = Some (ci_subscription i))) (bl_subs tx)) None"

definition new_subscription :: "bl_env \<Rightarrow> checkout_input \<Rightarrow> bl_subscription" where
  "new_subscription env i =
     \<lparr>bs_sub_id = be_id env ''subscription'', bs_sub_org = ci_org i, bs_sub_user = ci_user i, bs_package = ci_package i,
      bs_next_plan = None, bs_sub_status = ''active'', bs_provider_sub = nullif_empty (ci_subscription i),
      bs_customer = nullif_empty (ci_customer i), bs_sub_checkout = nullif_empty (ci_checkout i), bs_invoice = None,
      bs_failed_at = None, bs_cancel_at_end = False, bs_sub_created = be_now env, bs_sub_updated = be_now env\<rparr>"

definition renewed_subscription :: "bl_env \<Rightarrow> checkout_input \<Rightarrow> bl_subscription \<Rightarrow> bl_subscription" where
  "renewed_subscription env i s =
     s\<lparr>bs_package := ci_package i, bs_sub_status := ''active'',
       bs_provider_sub := set_unless_empty (ci_subscription i) (bs_provider_sub s),
       bs_customer := set_unless_empty (ci_customer i) (bs_customer s),
       bs_sub_checkout := set_unless_empty (ci_checkout i) (bs_sub_checkout s),
       bs_failed_at := None, bs_sub_updated := be_now env\<rparr>"

definition write_subscription :: "bl_env \<Rightarrow> checkout_input \<Rightarrow> bl_db \<Rightarrow> bl_error + bl_db" where
  "write_subscription env i tx =
     (case checkout_subscription i tx of
        None \<Rightarrow>
          try_step (bl_call env BlWriteSubscription) (\<lambda>_.
          try_step (fail_if (list_ex (\<lambda>s. bs_sub_id s = be_id env ''subscription''
                       \<or> (ci_subscription i \<noteq> [] \<and> bs_provider_sub s = Some (ci_subscription i))) (bl_subs tx)) BlDuplicate) (\<lambda>_.
          Inr (tx\<lparr>bl_subs := bl_subs tx @ [new_subscription env i]\<rparr>)))
      | Some s \<Rightarrow>
          try_step (bl_call env BlWriteSubscription) (\<lambda>_.
          Inr (tx\<lparr>bl_subs := fst (sql_update (\<lambda>x. bs_sub_id x = bs_sub_id s) (renewed_subscription env i) (bl_subs tx))\<rparr>)))"

definition apply_subscription_checkout :: "bl_env \<Rightarrow> checkout_input \<Rightarrow> bl_db \<Rightarrow> bl_error + bl_db" where
  "apply_subscription_checkout env i tx =
     try_step (fail_if (ci_package i = []) BlPackageRequired) (\<lambda>_.
     try_step (bl_call env BlFindSubscription) (\<lambda>_.
     try_step (write_subscription env i tx) (\<lambda>tx1.
     try_step (bl_call env BlUpdateUser) (\<lambda>_.
     Inr (tx1\<lparr>bl_users := fst (sql_update (\<lambda>u. us_id u = ci_user i) (\<lambda>u. u\<lparr>us_plan := Some (ci_package i)\<rparr>) (bl_users tx1))\<rparr>)))))"

text \<open>\<open>ensureQuota\<close> and the statement that moves an organization's balance.\<close>

definition ensure_quota :: "bl_env \<Rightarrow> string \<Rightarrow> string \<Rightarrow> bl_db \<Rightarrow> bl_error + bl_db" where
  "ensure_quota env user org tx =
     (let row = \<lparr>q_id = ''quota_'' @ be_id env ''quota'', q_org = org, q_user = user, q_scope = ''organization'',
                 q_balance = 0, q_used = 0, q_created = be_now env, q_updated = be_now env\<rparr>
      in try_step (bl_call env BlEnsureQuota) (\<lambda>_.
         Inr (if list_ex (quota_conflict row) (bl_quotas tx) then tx else tx\<lparr>bl_quotas := bl_quotas tx @ [row]\<rparr>)))"

definition move_balance :: "bl_env \<Rightarrow> string \<Rightarrow> usd \<Rightarrow> bl_db \<Rightarrow> bl_error + bl_db" where
  "move_balance env org amt tx =
     try_step (bl_call env BlUpdateQuota) (\<lambda>_.
     Inr (tx\<lparr>bl_quotas := fst (sql_update (\<lambda>q. q_org q = org \<and> q_scope q = ''organization'')
            (\<lambda>q. q\<lparr>q_balance := dec6 (q_balance q + amt), q_updated := be_now env\<rparr>) (bl_quotas tx))\<rparr>))"

definition topup_of_intent :: "string \<Rightarrow> string \<Rightarrow> string \<Rightarrow> bl_topup \<Rightarrow> bool" where
  "topup_of_intent intent org user t \<longleftrightarrow> bt_intent t = Some intent \<and> bt_org t = org \<and> bt_user t = user"

definition paid_topup :: "bl_env \<Rightarrow> checkout_input \<Rightarrow> bl_topup \<Rightarrow> bl_topup" where
  "paid_topup env i t =
     t\<lparr>bt_status := ''paid'', bt_trade := nullif_empty (ci_payment i), bt_paid_at := Some (be_now env),
       bt_checkout := set_unless_empty (ci_checkout i) (bt_checkout t)\<rparr>"

definition apply_topup_checkout :: "bl_env \<Rightarrow> checkout_input \<Rightarrow> bl_db \<Rightarrow> bl_error + bl_db" where
  "apply_topup_checkout env i tx =
     try_step (bl_call env BlLoadTopup) (\<lambda>_.
     try_step (or_error BlNoRows (sql_select (topup_of_intent (ci_intent i) (ci_org i) (ci_user i)) (bl_topups tx))) (\<lambda>t.
     (if bt_status t = ''paid'' then Inr tx
      else try_step (bl_call env BlUpdateTopup) (\<lambda>_.
           try_step (ensure_quota env (ci_user i) (ci_org i)
             (tx\<lparr>bl_topups := fst (sql_update (\<lambda>x. bt_id x = bt_id t) (paid_topup env i) (bl_topups tx))\<rparr>)) (\<lambda>tx1.
           move_balance env (ci_org i) (bt_amount t) tx1)))))"

definition own_intent :: "string \<Rightarrow> string \<Rightarrow> string \<Rightarrow> mp_intent \<Rightarrow> bool" where
  "own_intent intent org user p \<longleftrightarrow> pi_id p = intent \<and> pi_org p = org \<and> pi_user p = user"

definition load_intent :: "bl_env \<Rightarrow> string \<Rightarrow> string \<Rightarrow> string \<Rightarrow> bl_db \<Rightarrow> bl_error + mp_intent" where
  "load_intent env intent org user tx =
     try_step (bl_call env BlLoadIntent) (\<lambda>_. or_error BlNoRows (sql_select (own_intent intent org user) (bl_intents tx)))"

definition completed_intent :: "bl_env \<Rightarrow> checkout_input \<Rightarrow> mp_intent \<Rightarrow> mp_intent" where
  "completed_intent env i p =
     p\<lparr>pi_status := ''completed'', pi_checkout := set_unless_empty (ci_checkout i) (pi_checkout p),
       pi_payment := set_unless_empty (ci_payment i) (pi_payment p),
       pi_subscription := set_unless_empty (ci_subscription i) (pi_subscription p), pi_updated := be_now env\<rparr>"

definition with_package :: "mp_intent \<Rightarrow> checkout_input \<Rightarrow> checkout_input" where
  "with_package p i = (if ci_package i = [] then i\<lparr>ci_package := coalesce_empty (pi_package p)\<rparr> else i)"

definition complete_intents :: "bl_env \<Rightarrow> checkout_input \<Rightarrow> bl_db \<Rightarrow> bl_db" where
  "complete_intents env i tx =
     set_intents (fst (sql_update (\<lambda>q. pi_id q = ci_intent i) (completed_intent env i) (bl_intents tx))) tx"

definition checkout_of_kind :: "bl_env \<Rightarrow> checkout_input \<Rightarrow> bl_db \<Rightarrow> bl_error + bl_db" where
  "checkout_of_kind env i tx =
     (if ci_kind i = ''subscription'' then apply_subscription_checkout env i tx
      else if ci_kind i = ''topup'' then apply_topup_checkout env i tx
      else Inl BlUnsupportedKind)"

definition checkout_effects :: "bl_env \<Rightarrow> checkout_input \<Rightarrow> bl_db \<Rightarrow> bl_error + bl_db" where
  "checkout_effects env i tx =
     try_step (load_intent env (ci_intent i) (ci_org i) (ci_user i) tx) (\<lambda>p.
     try_step (fail_if (pi_kind p \<noteq> ci_kind i) BlKindMismatch) (\<lambda>_.
     try_step (bl_call env BlUpdateIntent) (\<lambda>_.
     try_step (fail_if (session_taken (ci_intent i) (ci_checkout i) (bl_market tx)) BlDuplicate) (\<lambda>_.
     checkout_of_kind env (with_package p i) (complete_intents env (with_package p i) tx)))))"

definition checkout_transition :: "bl_env \<Rightarrow> string \<Rightarrow> checkout_input \<Rightarrow> lifecycle_event" where
  "checkout_transition env event i =
     (let provider = lower_or ''stripe'' (ci_provider i)
      in transition_event env provider (bl_key provider event ''checkout'' (ci_intent i)) event
           ''checkout.session.completed'' (ci_org i, ci_user i, ci_intent i) (ci_kind i, ci_intent i) ''completed'')"

definition store_checkout_completed :: "bl_env \<Rightarrow> string \<Rightarrow> checkout_input \<Rightarrow> bl_db \<Rightarrow> bl_db \<times> bl_error option" where
  "store_checkout_completed env event i db = with_transition env (checkout_transition env event i) (checkout_effects env i) db"

subsection \<open>Invoices\<close>

record invoice_input =
  ii_invoice :: string
  ii_subscription :: string
  ii_payment :: string
  ii_customer :: string
  ii_org :: string
  ii_user :: string
  ii_intent :: string
  ii_status :: string
  ii_due :: usd
  ii_paid :: usd
  ii_currency :: string

definition find_subscription_id :: "bl_env \<Rightarrow> string \<Rightarrow> string \<Rightarrow> string \<Rightarrow> bl_db \<Rightarrow> bl_error + string" where
  "find_subscription_id env org user provider_sub tx =
     (if provider_sub = [] then Inr []
      else try_step (bl_call env BlFindSubscription) (\<lambda>_.
           Inr (case sql_select (\<lambda>s. bs_sub_org s = org \<and> bs_sub_user s = user \<and> bs_provider_sub s = Some provider_sub) (bl_subs tx) of
                  None \<Rightarrow> [] | Some s \<Rightarrow> bs_sub_id s)))"

text \<open>The lookup whose error the code drops: the identifier stays as it was.\<close>

definition find_intent_id :: "bl_env \<Rightarrow> string \<Rightarrow> string \<Rightarrow> string \<Rightarrow> string \<Rightarrow> bl_db \<Rightarrow> string" where
  "find_intent_id env intent payment org user tx =
     (if intent = [] \<and> payment \<noteq> [] \<and> \<not> be_fault env BlFindIntent
      then (case sql_select (\<lambda>p. pi_org p = org \<and> pi_user p = user \<and> pi_payment p = Some payment) (bl_intents tx) of
              None \<Rightarrow> [] | Some p \<Rightarrow> pi_id p)
      else intent)"

definition invoice_row :: "bl_env \<Rightarrow> invoice_input \<Rightarrow> string \<Rightarrow> string \<Rightarrow> bl_invoice" where
  "invoice_row env i sub intent =
     \<lparr>iv_id = be_id env ''invoice'', iv_provider_id = ii_invoice i, iv_provider_sub = nullif_empty (ii_subscription i),
      iv_provider_payment = nullif_empty (ii_payment i), iv_org = ii_org i, iv_user = ii_user i,
      iv_subscription = nullif_empty sub, iv_intent = nullif_empty intent, iv_status = ii_status i,
      iv_due = dec6 (ii_due i), iv_paid = dec6 (ii_paid i), iv_currency = ii_currency i,
      iv_created = be_now env, iv_updated = be_now env\<rparr>"

definition upsert_invoice :: "bl_env \<Rightarrow> invoice_input \<Rightarrow> string \<Rightarrow> string \<Rightarrow> bl_db \<Rightarrow> bl_error + bl_db" where
  "upsert_invoice env i sub intent tx =
     (let row = invoice_row env i sub intent; known = (\<lambda>v. iv_provider_id v = ii_invoice i)
      in try_step (bl_call env BlUpsertInvoice) (\<lambda>_.
         try_step (fail_if (ii_status i \<notin> {''draft'', ''open'', ''paid'', ''failed'', ''void'', ''uncollectible''}) BlCheckViolation) (\<lambda>_.
         (if list_ex known (bl_invoices tx)
          then Inr (tx\<lparr>bl_invoices := fst (sql_update known (\<lambda>v. v\<lparr>iv_status := iv_status row, iv_due := iv_due row,
                 iv_paid := iv_paid row, iv_provider_sub := iv_provider_sub row, iv_provider_payment := iv_provider_payment row,
                 iv_subscription := iv_subscription row, iv_intent := iv_intent row, iv_updated := iv_updated row\<rparr>) (bl_invoices tx))\<rparr>)
          else try_step (fail_if (list_ex (\<lambda>v. iv_id v = iv_id row) (bl_invoices tx)) BlDuplicate)
                 (\<lambda>_. Inr (tx\<lparr>bl_invoices := bl_invoices tx @ [row]\<rparr>))))))"

text \<open>A statement on the subscription of an invoice; none is issued when the invoice has none.\<close>

definition on_subscription :: "bl_env \<Rightarrow> string \<Rightarrow> (bl_subscription \<Rightarrow> bl_subscription) \<Rightarrow> bl_db \<Rightarrow> bl_error + bl_db" where
  "on_subscription env sub f tx =
     (if sub = [] then Inr tx
      else try_step (bl_call env BlWriteSubscription) (\<lambda>_.
           Inr (tx\<lparr>bl_subs := fst (sql_update (\<lambda>s. bs_sub_id s = sub) f (bl_subs tx))\<rparr>)))"

definition on_intent :: "bl_env \<Rightarrow> string \<Rightarrow> (mp_intent \<Rightarrow> mp_intent) \<Rightarrow> bl_db \<Rightarrow> bl_error + bl_db" where
  "on_intent env intent f tx =
     (if intent = [] then Inr tx
      else try_step (bl_call env BlUpdateIntent) (\<lambda>_.
           Inr (set_intents (fst (sql_update (\<lambda>p. pi_id p = intent) f (bl_intents tx))) tx)))"

definition paid_subscription :: "bl_env \<Rightarrow> invoice_input \<Rightarrow> bl_subscription \<Rightarrow> bl_subscription" where
  "paid_subscription env i s =
     s\<lparr>bs_sub_status := ''active'', bs_package := (case bs_next_plan s of None \<Rightarrow> bs_package s | Some p \<Rightarrow> p),
       bs_next_plan := None, bs_invoice := Some (ii_invoice i), bs_customer := set_unless_empty (ii_customer i) (bs_customer s),
       bs_failed_at := None, bs_sub_updated := be_now env\<rparr>"

definition unpaid_subscription :: "bl_env \<Rightarrow> invoice_input \<Rightarrow> bl_subscription \<Rightarrow> bl_subscription" where
  "unpaid_subscription env i s =
     s\<lparr>bs_sub_status := ''past_due'', bs_invoice := Some (ii_invoice i), bs_failed_at := Some (be_now env),
       bs_sub_updated := be_now env\<rparr>"

definition paid_intent :: "bl_env \<Rightarrow> invoice_input \<Rightarrow> mp_intent \<Rightarrow> mp_intent" where
  "paid_intent env i p =
     p\<lparr>pi_status := ''completed'', pi_payment := set_unless_empty (ii_payment i) (pi_payment p),
       pi_subscription := set_unless_empty (ii_subscription i) (pi_subscription p), pi_invoice := Some (ii_invoice i),
       pi_updated := be_now env\<rparr>"

definition unpaid_intent :: "bl_env \<Rightarrow> invoice_input \<Rightarrow> mp_intent \<Rightarrow> mp_intent" where
  "unpaid_intent env i p =
     p\<lparr>pi_status := ''failed'', pi_payment := set_unless_empty (ii_payment i) (pi_payment p),
       pi_invoice := Some (ii_invoice i), pi_updated := be_now env\<rparr>"

definition invoice_effects :: "bl_env \<Rightarrow> invoice_input \<Rightarrow> bool \<Rightarrow> bl_db \<Rightarrow> bl_error + bl_db" where
  "invoice_effects env i paid tx =
     try_step (find_subscription_id env (ii_org i) (ii_user i) (ii_subscription i) tx) (\<lambda>sub.
     (let intent = find_intent_id env (ii_intent i) (ii_payment i) (ii_org i) (ii_user i) tx
      in try_step (upsert_invoice env i sub intent tx) (\<lambda>tx1.
         try_step (on_subscription env sub (if paid then paid_subscription env i else unpaid_subscription env i) tx1) (\<lambda>tx2.
         on_intent env intent (if paid then paid_intent env i else unpaid_intent env i) tx2))))"

definition invoice_transition :: "bl_env \<Rightarrow> string \<Rightarrow> invoice_input \<Rightarrow> bool \<Rightarrow> lifecycle_event" where
  "invoice_transition env event i paid =
     transition_event env [] (bl_key ''stripe'' event ''invoice'' (ii_invoice i)) event
       (if paid then ''invoice.paid'' else ''invoice.payment_failed'') (ii_org i, ii_user i, ii_intent i)
       (''invoice'', ii_invoice i) (if paid then ''paid'' else ''failed'')"

definition store_invoice :: "bl_env \<Rightarrow> string \<Rightarrow> invoice_input \<Rightarrow> bool \<Rightarrow> bl_db \<Rightarrow> bl_db \<times> bl_error option" where
  "store_invoice env event i paid db = with_transition env (invoice_transition env event i paid) (invoice_effects env i paid) db"

subsection \<open>Subscriptions\<close>

record subscription_input =
  si_provider :: string
  si_subscription :: string
  si_customer :: string
  si_org :: string
  si_user :: string
  si_status :: string
  si_cancel_at_end :: bool

definition subscription_effects :: "bl_env \<Rightarrow> subscription_input \<Rightarrow> bl_db \<Rightarrow> bl_error + bl_db" where
  "subscription_effects env i tx =
     try_step (bl_call env BlWriteSubscription) (\<lambda>_.
     (let (ss, n) = sql_update (\<lambda>s. bs_sub_org s = si_org i \<and> bs_sub_user s = si_user i \<and> bs_provider_sub s = Some (si_subscription i))
            (\<lambda>s. s\<lparr>bs_sub_status := (if si_status i = [] then bs_sub_status s else si_status i),
                   bs_customer := set_unless_empty (si_customer i) (bs_customer s),
                   bs_cancel_at_end := si_cancel_at_end i, bs_sub_updated := be_now env\<rparr>) (bl_subs tx)
      in try_step (bl_call env BlSubscriptionRows) (\<lambda>_.
         try_step (fail_if (n = 0) BlNoRows) (\<lambda>_. Inr (tx\<lparr>bl_subs := ss\<rparr>)))))"

definition subscription_transition :: "bl_env \<Rightarrow> string \<Rightarrow> string \<Rightarrow> subscription_input \<Rightarrow> lifecycle_event" where
  "subscription_transition env event type i =
     (let provider = lower_or ''stripe'' (si_provider i)
      in transition_event env provider (bl_key provider event ''subscription'' (si_subscription i)) event
           (if provider = ''stripe'' then ''customer.'' @ type else provider @ ''.'' @ type)
           (si_org i, si_user i, []) (''subscription'', si_subscription i) (si_status i))"

definition store_subscription :: "bl_env \<Rightarrow> string \<Rightarrow> string \<Rightarrow> subscription_input \<Rightarrow> bl_db \<Rightarrow> bl_db \<times> bl_error option" where
  "store_subscription env event type i db =
     with_transition env (subscription_transition env event type i) (subscription_effects env i) db"

definition store_subscription_updated :: "bl_env \<Rightarrow> string \<Rightarrow> subscription_input \<Rightarrow> bl_db \<Rightarrow> bl_db \<times> bl_error option" where
  "store_subscription_updated env event i db = store_subscription env event ''subscription.updated'' i db"

definition store_subscription_deleted :: "bl_env \<Rightarrow> string \<Rightarrow> subscription_input \<Rightarrow> bl_db \<Rightarrow> bl_db \<times> bl_error option" where
  "store_subscription_deleted env event i db =
     store_subscription env event ''subscription.deleted'' (i\<lparr>si_status := ''cancelled''\<rparr>) db"

subsection \<open>Refunds\<close>

record refund_input =
  ri_provider :: string
  ri_refund :: string
  ri_charge :: string
  ri_payment :: string
  ri_org :: string
  ri_user :: string
  ri_intent :: string
  ri_kind :: string
  ri_amount :: usd
  ri_currency :: string
  ri_status :: string

definition load_refund_topup :: "bl_env \<Rightarrow> refund_input \<Rightarrow> mp_intent \<Rightarrow> bl_db \<Rightarrow> bl_error + bl_topup option" where
  "load_refund_topup env i p tx =
     (if pi_kind p \<noteq> ''topup'' then Inr None
      else try_step (bl_call env BlLoadTopup) (\<lambda>_.
           try_step (or_error BlNoRows (sql_select (topup_of_intent (pi_id p) (ri_org i) (ri_user i)) (bl_topups tx))) (\<lambda>t. Inr (Some t))))"

definition refund_row_of :: "bl_env \<Rightarrow> refund_input \<Rightarrow> string \<Rightarrow> bl_topup option \<Rightarrow> bl_refund" where
  "refund_row_of env i intent topup =
     \<lparr>rf_id = be_id env ''refund'', rf_provider = lower_or ''stripe'' (ri_provider i), rf_provider_id = ri_refund i,
      rf_charge = nullif_empty (ri_charge i), rf_payment = nullif_empty (ri_payment i), rf_org = ri_org i, rf_user = ri_user i,
      rf_intent = intent, rf_topup = (case topup of None \<Rightarrow> None | Some t \<Rightarrow> nullif_empty (bt_id t)), rf_amount = dec6 (ri_amount i),
      rf_currency = ri_currency i, rf_status = ri_status i, rf_created = be_now env, rf_updated = be_now env\<rparr>"

definition upsert_refund :: "bl_env \<Rightarrow> bl_refund \<Rightarrow> bl_db \<Rightarrow> bl_error + bl_db" where
  "upsert_refund env row tx =
     (let known = (\<lambda>r. rf_provider r = rf_provider row \<and> rf_provider_id r = rf_provider_id row)
      in try_step (bl_call env BlUpsertRefund) (\<lambda>_.
         try_step (fail_if (rf_status row \<notin> {''pending'', ''succeeded'', ''failed'', ''canceled''}) BlCheckViolation) (\<lambda>_.
         (if list_ex known (bl_refunds tx)
          then Inr (tx\<lparr>bl_refunds := fst (sql_update known (\<lambda>r. r\<lparr>rf_status := rf_status row, rf_updated := rf_updated row\<rparr>) (bl_refunds tx))\<rparr>)
          else try_step (fail_if (list_ex (\<lambda>r. rf_id r = rf_id row) (bl_refunds tx)) BlDuplicate)
                 (\<lambda>_. Inr (tx\<lparr>bl_refunds := bl_refunds tx @ [row]\<rparr>))))))"

definition capped_refund :: "usd \<Rightarrow> usd \<Rightarrow> usd \<Rightarrow> usd" where
  "capped_refund prior amt limit = (if limit < prior + amt then limit else prior + amt)"

definition intent_refund_status :: "usd \<Rightarrow> usd \<Rightarrow> string" where
  "intent_refund_status refunded limit = (if limit \<le> refunded then ''refunded'' else ''partially_refunded'')"

definition refund_topup :: "bl_env \<Rightarrow> refund_input \<Rightarrow> mp_intent \<Rightarrow> bl_topup \<Rightarrow> bl_db \<Rightarrow> bl_error + bl_db" where
  "refund_topup env i p t tx =
     (if bt_id t = [] then Inr tx
      else try_step (bl_call env BlUpdateTopup) (\<lambda>_.
           move_balance env (ri_org i) (- ri_amount i)
             (tx\<lparr>bl_topups := fst (sql_update (\<lambda>x. bt_id x = bt_id t)
                 (\<lambda>x. x\<lparr>bt_status := intent_refund_status (capped_refund (pi_refunded p) (ri_amount i) (pi_amount p)) (pi_amount p),
                        bt_refunded := dec6 (capped_refund (bt_refunded t) (ri_amount i) (pi_amount p))\<rparr>) (bl_topups tx))\<rparr>)))"

definition refunded_intent :: "bl_env \<Rightarrow> refund_input \<Rightarrow> mp_intent \<Rightarrow> mp_intent \<Rightarrow> mp_intent" where
  "refunded_intent env i p q =
     q\<lparr>pi_status := intent_refund_status (capped_refund (pi_refunded p) (ri_amount i) (pi_amount p)) (pi_amount p),
       pi_refunded := dec6 (capped_refund (pi_refunded p) (ri_amount i) (pi_amount p)), pi_updated := be_now env\<rparr>"

definition refund_intents :: "bl_env \<Rightarrow> refund_input \<Rightarrow> mp_intent \<Rightarrow> bl_db \<Rightarrow> bl_db" where
  "refund_intents env i p tx =
     set_intents (fst (sql_update (\<lambda>q. pi_id q = pi_id p) (refunded_intent env i p) (bl_intents tx))) tx"

definition refund_effects :: "bl_env \<Rightarrow> refund_input \<Rightarrow> bl_db \<Rightarrow> bl_error + bl_db" where
  "refund_effects env i tx =
     (let intent = find_intent_id env (ri_intent i) (ri_payment i) (ri_org i) (ri_user i) tx
      in try_step (fail_if (intent = []) BlIntentRequired) (\<lambda>_.
         try_step (load_intent env intent (ri_org i) (ri_user i) tx) (\<lambda>p.
         try_step (load_refund_topup env i p tx) (\<lambda>topup.
         try_step (upsert_refund env (refund_row_of env i intent topup) tx) (\<lambda>tx1.
         try_step (bl_call env BlUpdateIntent) (\<lambda>_.
         (case topup of None \<Rightarrow> Inr (refund_intents env i p tx1)
          | Some t \<Rightarrow> refund_topup env i p t (refund_intents env i p tx1))))))))"

definition refund_transition :: "bl_env \<Rightarrow> string \<Rightarrow> refund_input \<Rightarrow> lifecycle_event" where
  "refund_transition env event i =
     (let provider = lower_or ''stripe'' (ri_provider i)
      in transition_event env provider (bl_key provider event ''refund'' (ri_refund i)) event ''refund.created''
           (ri_org i, ri_user i, ri_intent i) (''refund'', ri_refund i) (ri_status i))"

definition store_refund :: "bl_env \<Rightarrow> string \<Rightarrow> refund_input \<Rightarrow> bl_db \<Rightarrow> bl_db \<times> bl_error option" where
  "store_refund env event i db = with_transition env (refund_transition env event i) (refund_effects env i) db"

subsection \<open>Stripe events\<close>

record stripe_object =
  so_id :: string
  so_reference :: string
  so_meta :: "string \<rightharpoonup> string"
  so_payment :: string
  so_subscription :: string
  so_customer :: string
  so_charge :: string
  so_status :: string
  so_amount :: int
  so_amount_total :: int
  so_amount_due :: int
  so_amount_paid :: int
  so_currency :: string
  so_cancel_at_end :: bool

text \<open>The data of an event: absent, not decodable, or decoded.\<close>

datatype event_data = NoData | BadData | Decoded stripe_object

record stripe_event =
  ev_id :: string
  ev_type :: string
  ev_data :: event_data

definition meta_of :: "stripe_object \<Rightarrow> string \<Rightarrow> string" where
  "meta_of ob k = coalesce_empty (so_meta ob k)"

definition cents_to_amount :: "int \<Rightarrow> usd" where
  "cents_to_amount c = of_int c / 100"

definition or_default :: "string \<Rightarrow> string \<Rightarrow> string" where
  "or_default d s = (if s = [] then d else s)"

definition normalize_subscription_status :: "string \<Rightarrow> string" where
  "normalize_subscription_status s =
     (if s \<in> {[], ''active'', ''trialing''} then ''active''
      else if s \<in> {''past_due'', ''unpaid'', ''incomplete'', ''incomplete_expired''} then ''past_due''
      else if s = ''canceled'' then ''cancelled'' else s)"

definition decoded :: "stripe_event \<Rightarrow> bl_error + stripe_object" where
  "decoded ev = (case ev_data ev of Decoded ob \<Rightarrow> Inr ob | _ \<Rightarrow> Inl BlUndecodable)"

definition parse_checkout_completed :: "stripe_event \<Rightarrow> bl_error + checkout_input" where
  "parse_checkout_completed ev =
     try_step (decoded ev) (\<lambda>ob.
     (let intent = or_default (so_reference ob) (meta_of ob ''payment_intent_id'');
          kind = or_default ''subscription'' (meta_of ob ''checkout_kind'');
          i = \<lparr>ci_provider = [], ci_org = meta_of ob ''organization_id'', ci_user = meta_of ob ''user_id'', ci_intent = intent,
               ci_package = meta_of ob ''plan_id'', ci_kind = kind, ci_payment = so_payment ob,
               ci_subscription = so_subscription ob, ci_customer = so_customer ob, ci_checkout = so_id ob,
               ci_order = meta_of ob ''marketplace_order_id''\<rparr>
      in try_step (fail_if (ci_org i = [] \<or> ci_user i = [] \<or> intent = []) BlMissingFields) (\<lambda>_.
         try_step (fail_if (kind = ''subscription'' \<and> ci_package i = []) BlPlanRequired) (\<lambda>_.
         try_step (fail_if (kind = ''marketplace_install'' \<and> ci_order i = []) BlOrderRequired) (\<lambda>_. Inr i)))))"

definition parse_invoice :: "stripe_event \<Rightarrow> bl_error + invoice_input" where
  "parse_invoice ev =
     try_step (decoded ev) (\<lambda>ob.
     (let i = \<lparr>ii_invoice = so_id ob, ii_subscription = so_subscription ob, ii_payment = so_payment ob, ii_customer = so_customer ob,
               ii_org = meta_of ob ''organization_id'', ii_user = meta_of ob ''user_id'', ii_intent = meta_of ob ''payment_intent_id'',
               ii_status = (if ev_type ev = ''invoice.paid'' then ''paid''
                            else if ev_type ev = ''invoice.payment_failed'' then ''failed'' else so_status ob),
               ii_due = cents_to_amount (so_amount_due ob), ii_paid = cents_to_amount (so_amount_paid ob),
               ii_currency = or_default ''usd'' (so_currency ob)\<rparr>
      in try_step (fail_if (ii_invoice i = [] \<or> ii_org i = [] \<or> ii_user i = []) BlMissingFields) (\<lambda>_. Inr i)))"

definition parse_subscription :: "stripe_event \<Rightarrow> bl_error + subscription_input" where
  "parse_subscription ev =
     try_step (decoded ev) (\<lambda>ob.
     (let i = \<lparr>si_provider = ''stripe'', si_subscription = so_id ob, si_customer = so_customer ob,
               si_org = meta_of ob ''organization_id'', si_user = meta_of ob ''user_id'',
               si_status = (if ev_type ev = ''customer.subscription.deleted'' then ''cancelled''
                            else normalize_subscription_status (so_status ob)),
               si_cancel_at_end = so_cancel_at_end ob\<rparr>
      in try_step (fail_if (si_subscription i = [] \<or> si_org i = [] \<or> si_user i = []) BlMissingFields) (\<lambda>_. Inr i)))"

definition parse_refund :: "stripe_event \<Rightarrow> bl_error + refund_input" where
  "parse_refund ev =
     try_step (decoded ev) (\<lambda>ob.
     (let i = \<lparr>ri_provider = ''stripe'', ri_refund = so_id ob, ri_charge = so_charge ob, ri_payment = so_payment ob,
               ri_org = meta_of ob ''organization_id'', ri_user = meta_of ob ''user_id'', ri_intent = meta_of ob ''payment_intent_id'',
               ri_kind = meta_of ob ''checkout_kind'', ri_amount = cents_to_amount (so_amount ob),
               ri_currency = or_default ''usd'' (so_currency ob), ri_status = or_default ''succeeded'' (so_status ob)\<rparr>
      in try_step (fail_if (ri_refund i = [] \<or> ri_org i = [] \<or> ri_user i = []) BlMissingFields) (\<lambda>_. Inr i)))"

subsection \<open>The lifecycle service\<close>

text \<open>The two calls into the marketplace; \<open>market\<close> says whether it is configured.\<close>

definition reconcile_checkout :: "bl_env \<Rightarrow> bool \<Rightarrow> checkout_completed \<Rightarrow> bl_db \<Rightarrow> bl_db \<times> bl_error option" where
  "reconcile_checkout env market c db =
     (if \<not> market then (db, Some BlNoMarketplace)
      else case apply_checkout_completed (be_market env) c (bl_market db) of
             (m, Inl e) \<Rightarrow> (db\<lparr>bl_market := m\<rparr>, Some (BlMarketplace e))
           | (m, Inr _) \<Rightarrow> (db\<lparr>bl_market := m\<rparr>, None))"

definition reconcile_refund :: "bl_env \<Rightarrow> bool \<Rightarrow> mp_refund \<Rightarrow> bl_db \<Rightarrow> bl_db \<times> bl_error option" where
  "reconcile_refund env market r db =
     (if \<not> market then (db, Some BlNoMarketplace)
      else case apply_marketplace_refund (be_market env) r (bl_market db) of
             (m, Inl e) \<Rightarrow> (db\<lparr>bl_market := m\<rparr>, Some (BlMarketplace e))
           | (m, Inr _) \<Rightarrow> (db\<lparr>bl_market := m\<rparr>, None))"

definition market_refund :: "string \<Rightarrow> refund_input \<Rightarrow> mp_refund" where
  "market_refund event i = \<lparr>mr_event = event, mr_refund = ri_refund i, mr_intent = ri_intent i, mr_payment = ri_payment i, mr_amount = ri_amount i\<rparr>"

text \<open>A refund of a paid install is recorded, then handed to the marketplace.\<close>

definition refund_then_market :: "bl_env \<Rightarrow> bool \<Rightarrow> string \<Rightarrow> refund_input \<Rightarrow> bl_db \<Rightarrow> bl_db \<times> bl_error option" where
  "refund_then_market env market event i db =
     (case store_refund env event i db of
        (db1, Some e) \<Rightarrow> (db1, Some e)
      | (db1, None) \<Rightarrow> reconcile_refund env market (market_refund event i) db1)"

definition apply_checkout_event :: "bl_env \<Rightarrow> bool \<Rightarrow> string \<Rightarrow> checkout_input \<Rightarrow> bl_db \<Rightarrow> bl_db \<times> bl_error option" where
  "apply_checkout_event env market event i db =
     (if ci_kind i = ''marketplace_install''
      then reconcile_checkout env market
             \<lparr>cc_event = event, cc_order = ci_order i, cc_intent = ci_intent i, cc_checkout = ci_checkout i, cc_payment = ci_payment i\<rparr> db
      else store_checkout_completed env event i db)"

definition apply_refund_event :: "bl_env \<Rightarrow> bool \<Rightarrow> string \<Rightarrow> refund_input \<Rightarrow> bl_db \<Rightarrow> bl_db \<times> bl_error option" where
  "apply_refund_event env market event i db =
     (if ri_kind i = ''marketplace_install''
      then (if market then refund_then_market env market event i db else (db, Some BlNoMarketplace))
      else store_refund env event i db)"

definition apply_stripe_event :: "bl_env \<Rightarrow> bool \<Rightarrow> stripe_event \<Rightarrow> bl_db \<Rightarrow> bl_db \<times> bl_error option" where
  "apply_stripe_event env market ev db =
     (if ev_type ev = ''checkout.session.completed'' then
        (case parse_checkout_completed ev of Inl e \<Rightarrow> (db, Some e) | Inr i \<Rightarrow> apply_checkout_event env market (ev_id ev) i db)
      else if ev_type ev = ''invoice.paid'' then
        (case parse_invoice ev of Inl e \<Rightarrow> (db, Some e) | Inr i \<Rightarrow> store_invoice env (ev_id ev) i True db)
      else if ev_type ev = ''invoice.payment_failed'' then
        (case parse_invoice ev of Inl e \<Rightarrow> (db, Some e) | Inr i \<Rightarrow> store_invoice env (ev_id ev) i False db)
      else if ev_type ev = ''customer.subscription.updated'' then
        (case parse_subscription ev of Inl e \<Rightarrow> (db, Some e) | Inr i \<Rightarrow> store_subscription_updated env (ev_id ev) i db)
      else if ev_type ev = ''customer.subscription.deleted'' then
        (case parse_subscription ev of Inl e \<Rightarrow> (db, Some e) | Inr i \<Rightarrow> store_subscription_deleted env (ev_id ev) i db)
      else if ev_type ev \<in> {''refund.created'', ''charge.refunded''} then
        (case parse_refund ev of Inl e \<Rightarrow> (db, Some e) | Inr i \<Rightarrow> apply_refund_event env market (ev_id ev) i db)
      else (db, None))"

subsection \<open>Domestic providers\<close>

record domestic_event =
  de_id :: string
  de_type :: string
  de_org :: string
  de_user :: string
  de_intent :: string
  de_order :: string
  de_package :: string
  de_kind :: string
  de_refund :: string
  de_charge :: string
  de_payment :: string
  de_subscription :: string
  de_customer :: string
  de_checkout :: string
  de_payout :: string
  de_provider_payout :: string
  de_amount :: usd
  de_currency :: string
  de_status :: string
  de_reason :: string
  de_cancel_at_end :: bool

definition domestic_checkout_paid :: "bl_env \<Rightarrow> bool \<Rightarrow> string \<Rightarrow> string \<Rightarrow> checkout_input \<Rightarrow> bl_db \<Rightarrow> bl_db \<times> bl_error option" where
  "domestic_checkout_paid env market provider0 event i0 db =
     (let provider = lower_or ''domestic'' provider0;
          kind = or_default ''subscription'' (trim_space (ci_kind i0));
          i = i0\<lparr>ci_provider := provider, ci_kind := kind\<rparr>
      in if event = [] \<or> ci_org i = [] \<or> ci_user i = [] \<or> ci_intent i = [] then (db, Some BlMissingFields)
         else if kind = ''subscription'' \<and> ci_package i = [] then (db, Some BlPlanRequired)
         else if kind = ''marketplace_install'' then
           (if \<not> market then (db, Some BlNoMarketplace)
            else if trim_space (ci_order i) = [] then (db, Some BlOrderRequired)
            else apply_checkout_event env market event (i\<lparr>ci_order := trim_space (ci_order i)\<rparr>) db)
         else store_checkout_completed env event i db)"

definition domestic_refund :: "bl_env \<Rightarrow> bool \<Rightarrow> string \<Rightarrow> string \<Rightarrow> refund_input \<Rightarrow> bl_db \<Rightarrow> bl_db \<times> bl_error option" where
  "domestic_refund env market provider0 event i0 db =
     (let i = i0\<lparr>ri_provider := lower_or ''domestic'' provider0, ri_refund := trim_space (ri_refund i0), ri_charge := trim_space (ri_charge i0),
                 ri_payment := trim_space (ri_payment i0), ri_kind := trim_space (ri_kind i0),
                 ri_currency := lower_or ''cny'' (ri_currency i0), ri_status := or_default ''succeeded'' (trim_space (ri_status i0))\<rparr>
      in if event = [] \<or> ri_org i0 = [] \<or> ri_user i0 = [] \<or> ri_refund i0 = [] \<or> ri_amount i0 \<le> 0 then (db, Some BlMissingFields)
         else if ri_intent i0 = [] \<and> ri_payment i0 = [] then (db, Some BlMissingFields)
         else if ri_kind i = ''marketplace_install'' then refund_then_market env market event i db
         else store_refund env event i db)"

definition domestic_subscription :: "bl_env \<Rightarrow> string \<Rightarrow> string \<Rightarrow> bool \<Rightarrow> subscription_input \<Rightarrow> bl_db \<Rightarrow> bl_db \<times> bl_error option" where
  "domestic_subscription env provider0 event deleted i0 db =
     (let status = (if deleted then ''cancelled'' else normalize_subscription_status (trim_space (si_status i0)));
          i = i0\<lparr>si_provider := lower_or ''domestic'' provider0, si_status := status\<rparr>
      in if event = [] \<or> si_org i = [] \<or> si_user i = [] \<or> si_subscription i = [] then (db, Some BlMissingFields)
         else if deleted then store_subscription_deleted env event i db else store_subscription_updated env event i db)"

subsection \<open>Webhooks\<close>

text \<open>
  \<open>RecordWebhookEvent\<close>: one row per provider and event; the flag says whether it is new. The
  statement is its own transaction, so the row stays whatever follows. The columns that repeat
  the event's fields are left out.
\<close>

definition record_webhook_event :: "bl_env \<Rightarrow> string \<Rightarrow> string \<Rightarrow> string \<Rightarrow> string \<Rightarrow> bl_db \<Rightarrow> bl_db \<times> (bl_error + bool)" where
  "record_webhook_event env provider event type status db =
     (let row = \<lparr>wh_id = be_id env ''webhook'', wh_provider = or_default ''stripe'' provider, wh_event = event, wh_type = type,
                 wh_status = status\<rparr>
      in if be_fault env BlInsertWebhook then (db, Inl (BlFault BlInsertWebhook))
         else if wh_status row \<notin> {''processed'', ''failed''} then (db, Inl BlCheckViolation)
         else if list_ex (\<lambda>w. wh_provider w = wh_provider row \<and> wh_event w = event) (bl_webhooks db)
           then (db, if be_fault env BlWebhookRows then Inl (BlFault BlWebhookRows) else Inr False)
         else if list_ex (\<lambda>w. wh_id w = wh_id row) (bl_webhooks db) then (db, Inl BlDuplicate)
         else (db\<lparr>bl_webhooks := bl_webhooks db @ [row]\<rparr>,
               if be_fault env BlWebhookRows then Inl (BlFault BlWebhookRows) else Inr True))"

definition webhook_status :: "stripe_event \<Rightarrow> string" where
  "webhook_status ev =
     (if ev_type ev \<noteq> ''checkout.session.completed'' then ''processed''
      else case ev_data ev of
             Decoded ob \<Rightarrow>
               if meta_of ob ''organization_id'' = [] \<or> meta_of ob ''user_id'' = []
                 \<or> (meta_of ob ''checkout_kind'' \<notin> {''topup'', ''marketplace_install''} \<and> meta_of ob ''plan_id'' = [])
               then ''failed'' else ''processed''
           | _ \<Rightarrow> ''failed'')"

text \<open>
  \<open>HandleWebhook\<close> with the HTTP status it answers; \<open>verified\<close> is the event of a request whose
  signature holds, \<open>lifecycle\<close> the service, if there is one, and whether it has a marketplace.
\<close>

definition stripe_webhook :: "bl_env \<Rightarrow> bool option \<Rightarrow> stripe_event option \<Rightarrow> bl_db \<Rightarrow> bl_db \<times> nat" where
  "stripe_webhook env lifecycle verified db =
     (case verified of
        None \<Rightarrow> (db, 400)
      | Some ev \<Rightarrow>
          (case record_webhook_event env ''stripe'' (ev_id ev) (ev_type ev) (webhook_status ev) db of
             (db1, Inl _) \<Rightarrow> (db1, 500)
           | (db1, Inr _) \<Rightarrow>
               (case lifecycle of
                  None \<Rightarrow> (db1, 200)
                | Some market \<Rightarrow>
                    (case apply_stripe_event env market ev db1 of
                       (db2, Some _) \<Rightarrow> (db2, 500)
                     | (db2, None) \<Rightarrow> (db2, 200)))))"

definition is_payout_type :: "string \<Rightarrow> bool" where
  "is_payout_type t \<longleftrightarrow> trim_space t \<in> {''payout.paid'', ''payout.failed''}"

definition is_refund_type :: "string \<Rightarrow> bool" where
  "is_refund_type t \<longleftrightarrow> trim_space t \<in> {''refund.succeeded'', ''refund.created'', ''payment.refunded''}"

definition is_subscription_type :: "string \<Rightarrow> bool" where
  "is_subscription_type t \<longleftrightarrow>
     trim_space t \<in> {''subscription.updated'', ''subscription.deleted'', ''subscription.cancelled'', ''subscription.canceled''}"

definition domestic_status :: "domestic_event \<Rightarrow> string" where
  "domestic_status e =
     (if is_payout_type (de_type e) then
        (if trim_space (de_payout e) = [] \<and> trim_space (de_provider_payout e) = [] then ''failed'' else ''processed'')
      else if trim_space (de_org e) = [] \<or> trim_space (de_user e) = []
        \<or> (trim_space (de_intent e) = [] \<and> \<not> is_subscription_type (de_type e)) then ''failed''
      else ''processed'')"

definition domestic_checkout_input :: "domestic_event \<Rightarrow> checkout_input" where
  "domestic_checkout_input e =
     \<lparr>ci_provider = [], ci_org = trim_space (de_org e), ci_user = trim_space (de_user e), ci_intent = trim_space (de_intent e),
      ci_package = trim_space (de_package e), ci_kind = trim_space (de_kind e), ci_payment = trim_space (de_payment e),
      ci_subscription = trim_space (de_subscription e), ci_customer = trim_space (de_customer e),
      ci_checkout = trim_space (de_checkout e), ci_order = trim_space (de_order e)\<rparr>"

definition domestic_refund_input :: "domestic_event \<Rightarrow> refund_input" where
  "domestic_refund_input e =
     \<lparr>ri_provider = [], ri_refund = trim_space (de_refund e), ri_charge = trim_space (de_charge e), ri_payment = trim_space (de_payment e),
      ri_org = trim_space (de_org e), ri_user = trim_space (de_user e), ri_intent = trim_space (de_intent e),
      ri_kind = trim_space (de_kind e), ri_amount = de_amount e, ri_currency = trim_space (de_currency e), ri_status = trim_space (de_status e)\<rparr>"

definition domestic_subscription_input :: "domestic_event \<Rightarrow> subscription_input" where
  "domestic_subscription_input e =
     \<lparr>si_provider = [], si_subscription = trim_space (de_subscription e), si_customer = trim_space (de_customer e),
      si_org = trim_space (de_org e), si_user = trim_space (de_user e), si_status = trim_space (de_status e),
      si_cancel_at_end = de_cancel_at_end e\<rparr>"

definition domestic_payout :: "bl_env \<Rightarrow> bool \<Rightarrow> string \<Rightarrow> domestic_event \<Rightarrow> bl_db \<Rightarrow> bl_db \<times> bl_error option" where
  "domestic_payout env market provider e db =
     (if \<not> market then (db, None)
      else case apply_provider_payout_lifecycle (be_market env)
                  \<lparr>pv_provider = provider, pv_event = de_id e, pv_type = de_type e, pv_payout = trim_space (de_payout e),
                   pv_ref = trim_space (de_provider_payout e), pv_status = trim_space (de_status e), pv_reason = trim_space (de_reason e)\<rparr>
                  (bl_market db) of
             (m, Inl err) \<Rightarrow> (db\<lparr>bl_market := m\<rparr>, Some (BlMarketplace err))
           | (m, Inr _) \<Rightarrow> (db\<lparr>bl_market := m\<rparr>, None))"

definition domestic_lifecycle :: "bl_env \<Rightarrow> bool \<Rightarrow> string \<Rightarrow> domestic_event \<Rightarrow> bl_db \<Rightarrow> bl_db \<times> bl_error option" where
  "domestic_lifecycle env market provider e db =
     (if de_type e = ''checkout.paid'' then domestic_checkout_paid env market provider (de_id e) (domestic_checkout_input e) db
      else if is_refund_type (de_type e) then domestic_refund env market provider (de_id e) (domestic_refund_input e) db
      else if de_type e = ''subscription.updated''
        then domestic_subscription env provider (de_id e) False (domestic_subscription_input e) db
      else if de_type e \<in> {''subscription.deleted'', ''subscription.cancelled'', ''subscription.canceled''}
        then domestic_subscription env provider (de_id e) True (domestic_subscription_input e) db
      else if is_payout_type (de_type e) then domestic_payout env market provider e db
      else (db, None))"

definition trimmed_event :: "domestic_event \<Rightarrow> domestic_event" where
  "trimmed_event e = e\<lparr>de_id := trim_space (de_id e), de_type := trim_space (de_type e)\<rparr>"

text \<open>The handler of a domestic provider; \<open>configured\<close> stands for the ledger and the secret.\<close>

definition domestic_webhook :: "bl_env \<Rightarrow> bool \<Rightarrow> bool option \<Rightarrow> string \<Rightarrow> domestic_event option \<Rightarrow> bl_db \<Rightarrow> bl_db \<times> nat" where
  "domestic_webhook env configured lifecycle provider verified db =
     (if \<not> configured \<or> provider = [] then (db, 501)
      else case verified of
        None \<Rightarrow> (db, 400)
      | Some e0 \<Rightarrow>
          (let e = trimmed_event e0
           in if de_id e = [] \<or> de_type e = [] then (db, 400)
              else case record_webhook_event env provider (de_id e) (de_type e) (domestic_status e) db of
                     (db1, Inl _) \<Rightarrow> (db1, 500)
                   | (db1, Inr recorded) \<Rightarrow>
                       (case lifecycle of
                          None \<Rightarrow> (db1, 200)
                        | Some market \<Rightarrow>
                            if recorded \<and> domestic_status e = ''processed''
                            then (case domestic_lifecycle env market provider e db1 of
                                    (db2, Some _) \<Rightarrow> (db2, 500)
                                  | (db2, None) \<Rightarrow> (db2, 200))
                            else (db1, 200))))"

subsection \<open>Payment intents\<close>

text \<open>\<open>payment.go\<close>: the store the checkout handlers use.\<close>

definition default_intent :: "bl_env \<Rightarrow> mp_intent \<Rightarrow> mp_intent" where
  "default_intent env p =
     p\<lparr>pi_id := or_default (be_id env ''intent'') (pi_id p), pi_provider := or_default ''stripe'' (pi_provider p),
       pi_currency := or_default ''usd'' (pi_currency p), pi_status := or_default ''pending'' (pi_status p),
       pi_created := (if pi_created p = zero_time then be_now env else pi_created p),
       pi_updated := (if pi_updated p = zero_time then be_now env else pi_updated p)\<rparr>"

definition stored_intent :: "mp_intent \<Rightarrow> mp_intent" where
  "stored_intent p =
     p\<lparr>pi_checkout := nullif_empty (coalesce_empty (pi_checkout p)), pi_package := nullif_empty (coalesce_empty (pi_package p)),
       pi_amount := dec6 (pi_amount p), pi_payment := None, pi_subscription := None, pi_invoice := None, pi_refunded := 0\<rparr>"

definition create_payment_intent :: "bl_env \<Rightarrow> mp_intent \<Rightarrow> bl_db \<Rightarrow> bl_db \<times> (bl_error + mp_intent)" where
  "create_payment_intent env p0 db =
     (let p = default_intent env p0; row = stored_intent p
      in if be_fault env BlUpdateIntent then (db, Inl (BlFault BlUpdateIntent))
         else if pi_kind row \<notin> {''subscription'', ''topup'', ''marketplace_install''}
           \<or> pi_status row \<notin> {''pending'', ''completed'', ''failed'', ''refunded'', ''partially_refunded'', ''cancelled''}
           then (db, Inl BlCheckViolation)
         else if list_ex (\<lambda>q. pi_id q = pi_id row \<or> (pi_checkout row \<noteq> None \<and> pi_checkout q = pi_checkout row)) (bl_intents db)
           then (db, Inl BlDuplicate)
         else (set_intents (bl_intents db @ [row]) db, Inr p))"

definition set_intent_checkout :: "bl_env \<Rightarrow> string \<Rightarrow> string \<Rightarrow> metadata \<Rightarrow> bl_db \<Rightarrow> bl_db \<times> bl_error option" where
  "set_intent_checkout env intent session meta db =
     (if be_fault env BlUpdateIntent then (db, Some (BlFault BlUpdateIntent))
      else if list_ex (\<lambda>q. pi_id q = intent) (bl_intents db) \<and> list_ex (\<lambda>q. pi_id q \<noteq> intent \<and> pi_checkout q = Some session) (bl_intents db)
        then (db, Some BlDuplicate)
      else
        (let (ps, n) = sql_update (\<lambda>q. pi_id q = intent)
               (\<lambda>q. q\<lparr>pi_checkout := Some session, pi_meta := meta, pi_updated := be_now env\<rparr>) (bl_intents db)
         in (set_intents ps db, if be_fault env BlIntentRows then Some (BlFault BlIntentRows) else if n = 0 then Some BlNoRows else None)))"

definition mark_intent_failed :: "bl_env \<Rightarrow> string \<Rightarrow> string \<Rightarrow> bl_db \<Rightarrow> bl_db \<times> bl_error option" where
  "mark_intent_failed env intent reason db =
     (if be_fault env BlUpdateIntent then (db, Some (BlFault BlUpdateIntent))
      else
        (let (ps, n) = sql_update (\<lambda>q. pi_id q = intent \<and> pi_status q = ''pending'')
               (\<lambda>q. q\<lparr>pi_status := ''failed'',
                      pi_meta := (if reason = [] then pi_meta q else (pi_meta q)(''checkout_failure_reason'' \<mapsto> MetaText reason)),
                      pi_updated := be_now env\<rparr>) (bl_intents db)
         in (set_intents ps db, if be_fault env BlIntentRows then Some (BlFault BlIntentRows) else if n = 0 then Some BlNoRows else None)))"

end
