(* ===== verification/Billing_Properties.thy ===== *)
theory Billing_Properties
  imports Billing_Lifecycle Marketplace_Flows
begin

text \<open>
  What the billing lifecycle promises. The locale \<open>keyed_effects\<close> is the contract between
  \<open>withTransition\<close> and the effects it is given (they leave the events alone, and the key of an
  event does not depend on when it comes); it is interpreted on checkouts, invoices,
  subscriptions and refunds. Then: runs of webhooks, what a checkout credits and a refund takes
  back, and what becomes of an event whose first delivery failed.
\<close>

subsection \<open>Keyed transitions\<close>

lemma bl_call_Inr [simp]: "bl_call env c = Inr u \<longleftrightarrow> \<not> be_fault env c"
  by (simp add: bl_call_def)

definition known_key :: "string \<Rightarrow> bl_db \<Rightarrow> bool" where
  "known_key k db \<longleftrightarrow> list_ex (\<lambda>e. le_key e = k) (bl_events db)"

definition events_grow :: "bl_db \<Rightarrow> bl_db \<Rightarrow> bool" where
  "events_grow db db' \<longleftrightarrow> set (bl_events db) \<subseteq> set (bl_events db') \<and> set (bl_webhooks db) \<subseteq> set (bl_webhooks db')"

lemma events_grow_refl [simp]: "events_grow db db"
  by (simp add: events_grow_def)

lemma events_grow_trans: "events_grow a b \<Longrightarrow> events_grow b c \<Longrightarrow> events_grow a c"
  by (auto simp: events_grow_def)

lemma known_key_later: "known_key k db \<Longrightarrow> events_grow db db' \<Longrightarrow> known_key k db'"
  by (auto simp: known_key_def events_grow_def list_ex_iff)

lemma events_add [simp]: "bl_events (add_event e db) = bl_events db @ [e]" "bl_webhooks (add_event e db) = bl_webhooks db"
  by (simp_all add: add_event_def)

lemma events_set_intents [simp]: "bl_events (set_intents ps db) = bl_events db" "bl_intents (set_intents ps db) = ps"
  "bl_topups (set_intents ps db) = bl_topups db" "bl_quotas (set_intents ps db) = bl_quotas db"
  "bl_webhooks (set_intents ps db) = bl_webhooks db" "bl_subs (set_intents ps db) = bl_subs db"
  "md_orders (bl_market (set_intents ps db)) = md_orders (bl_market db)"
  by (simp_all add: set_intents_def)

lemma with_transition_cases:
  assumes "with_transition env e effects db = (db', r)"
  obtains "db' = db" "r \<noteq> None" | "db' = db" "r = None" "known_key (le_key e) db"
    | "r = None" "\<not> known_key (le_key e) db" "effects (add_event e db) = Inr db'"
  using assms by (auto simp: with_transition_def known_key_def split: if_splits sum.splits)

text \<open>A delivery under a key: success leaves the key, the key stops it, failure leaves no trace.\<close>

definition keyed_delivery :: "string \<Rightarrow> (bl_env \<Rightarrow> bl_db \<Rightarrow> bl_db \<times> bl_error option) \<Rightarrow> bool" where
  "keyed_delivery k d \<longleftrightarrow>
     (\<forall>env db db'. d env db = (db', None) \<longrightarrow> known_key k db')
   \<and> (\<forall>env db. known_key k db \<longrightarrow> fst (d env db) = db)
   \<and> (\<forall>env db. known_key k db \<longrightarrow> snd (d env db) = None \<or> (\<exists>c. snd (d env db) = Some (BlFault c)))
   \<and> (\<forall>env db db' e. d env db = (db', Some e) \<longrightarrow> db' = db)"

locale keyed_effects =
  fixes effects :: "bl_env \<Rightarrow> 'i \<Rightarrow> bl_db \<Rightarrow> bl_error + bl_db"
    and event_of :: "bl_env \<Rightarrow> string \<Rightarrow> 'i \<Rightarrow> lifecycle_event"
  assumes keeps_logs: "effects env i tx = Inr tx' \<Longrightarrow> bl_events tx' = bl_events tx \<and> bl_webhooks tx' = bl_webhooks tx"
    and same_key: "le_key (event_of env ev i) = le_key (event_of env' ev i)"
begin

lemma fails_unchanged: "with_transition env (event_of env ev i) (effects env i) db = (db', Some err) \<Longrightarrow> db' = db"
  by (erule with_transition_cases) auto

lemma applied_known:
  assumes "with_transition env (event_of env ev i) (effects env i) db = (db', None)"
  shows "known_key (le_key (event_of env' ev i)) db'"
  using assms
proof (cases rule: with_transition_cases)
  case 3
  then have "bl_events db' = bl_events db @ [event_of env ev i]" using keeps_logs by fastforce
  then show ?thesis using same_key [of env ev i env'] by (simp add: known_key_def)
qed (use same_key [of env ev i env'] in \<open>simp_all add: known_key_def\<close>)

lemma known_unchanged:
  "known_key (le_key (event_of env ev i)) db \<Longrightarrow> fst (with_transition env' (event_of env' ev i) (effects env' i) db) = db"
  using same_key [of env' ev i env] by (simp add: with_transition_def known_key_def)

lemma keyed: "keyed_delivery (le_key (event_of env0 ev i)) (\<lambda>env. with_transition env (event_of env ev i) (effects env i))"
  unfolding keyed_delivery_def
proof (intro conjI allI impI)
  fix env db
  assume "known_key (le_key (event_of env0 ev i)) db"
  then have known: "known_key (le_key (event_of env ev i)) db" using same_key [of env0 ev i env] by simp
  then show "fst (with_transition env (event_of env ev i) (effects env i) db) = db" by (rule known_unchanged)
  from known show "snd (with_transition env (event_of env ev i) (effects env i) db) = None
      \<or> (\<exists>c. snd (with_transition env (event_of env ev i) (effects env i) db) = Some (BlFault c))"
    by (simp add: with_transition_def known_key_def)
qed (rule fails_unchanged applied_known, assumption)+

lemma grows: "events_grow db (fst (with_transition env (event_of env ev i) (effects env i) db))"
proof -
  obtain db' r where "with_transition env (event_of env ev i) (effects env i) db = (db', r)" by fastforce
  moreover then have "events_grow db db'"
    by (rule with_transition_cases) (auto simp: events_grow_def dest: keeps_logs)
  ultimately show ?thesis by simp
qed

end

subsection \<open>The four kinds of effects\<close>

lemmas bl_steps = try_step_Inr Let_def bl_call_Inr

lemma move_balance_rows:
  "move_balance env org amt tx = Inr tx' \<longleftrightarrow> \<not> be_fault env BlUpdateQuota \<and>
     tx' = tx\<lparr>bl_quotas := List.map (\<lambda>q. if q_org q = org \<and> q_scope q = ''organization''
        then q\<lparr>q_balance := dec6 (q_balance q + amt), q_updated := be_now env\<rparr> else q) (bl_quotas tx)\<rparr>"
  by (auto simp: move_balance_def bl_steps sql_update_rows)

lemma ensure_quota_rows:
  assumes "ensure_quota env user org tx = Inr tx'"
  shows "\<exists>new. tx' = tx\<lparr>bl_quotas := bl_quotas tx @ new\<rparr> \<and> (\<forall>q \<in> set new. q_balance q = 0)
    \<and> (\<exists>q \<in> set (bl_quotas tx'). q_org q = org \<and> q_scope q = ''organization'') \<or> tx' = tx"
  using assms by (auto simp: ensure_quota_def bl_steps split: if_splits)

lemma ensure_quota_frame:
  assumes "ensure_quota env user org tx = Inr tx'"
  shows "bl_market tx' = bl_market tx" "bl_topups tx' = bl_topups tx" "bl_webhooks tx' = bl_webhooks tx"
  using assms by (auto simp: ensure_quota_def bl_steps split: if_splits)

lemma write_subscription_frame:
  assumes "write_subscription env i tx = Inr tx'"
  shows "bl_market tx' = bl_market tx" "bl_quotas tx' = bl_quotas tx" "bl_topups tx' = bl_topups tx" "bl_webhooks tx' = bl_webhooks tx"
  using assms by (auto simp: write_subscription_def bl_steps split: option.splits)

lemma subscription_checkout_frame:
  assumes "apply_subscription_checkout env i tx = Inr tx'"
  shows "bl_market tx' = bl_market tx" "bl_quotas tx' = bl_quotas tx" "bl_topups tx' = bl_topups tx" "bl_webhooks tx' = bl_webhooks tx"
  using assms by (auto simp: apply_subscription_checkout_def bl_steps dest: write_subscription_frame)

lemma topup_checkout_frame:
  assumes "apply_topup_checkout env i tx = Inr tx'"
  shows "bl_market tx' = bl_market tx" "bl_webhooks tx' = bl_webhooks tx"
  using assms by (auto simp: apply_topup_checkout_def bl_steps move_balance_rows dest: ensure_quota_frame split: if_splits)

lemma upsert_invoice_frame:
  assumes "upsert_invoice env i sub intent tx = Inr tx'"
  shows "bl_market tx' = bl_market tx" "bl_quotas tx' = bl_quotas tx" "bl_topups tx' = bl_topups tx" "bl_webhooks tx' = bl_webhooks tx"
  using assms by (auto simp: upsert_invoice_def bl_steps split: if_splits)

lemma upsert_refund_frame:
  assumes "upsert_refund env row tx = Inr tx'"
  shows "bl_market tx' = bl_market tx" "bl_quotas tx' = bl_quotas tx" "bl_topups tx' = bl_topups tx" "bl_webhooks tx' = bl_webhooks tx"
  using assms by (auto simp: upsert_refund_def bl_steps split: if_splits)

lemma on_subscription_frame:
  assumes "on_subscription env sub f tx = Inr tx'"
  shows "bl_market tx' = bl_market tx" "bl_quotas tx' = bl_quotas tx" "bl_topups tx' = bl_topups tx" "bl_webhooks tx' = bl_webhooks tx"
  using assms by (auto simp: on_subscription_def bl_steps split: if_splits)

lemma on_intent_rows:
  assumes "on_intent env intent f tx = Inr tx'"
  shows "tx' = tx \<or> tx' = set_intents (List.map (\<lambda>p. if pi_id p = intent then f p else p) (bl_intents tx)) tx"
  using assms by (auto simp: on_intent_def bl_steps sql_update_rows split: if_splits)

lemma complete_intents_simps [simp]:
  "bl_events (complete_intents env i tx) = bl_events tx" "bl_quotas (complete_intents env i tx) = bl_quotas tx"
  "bl_topups (complete_intents env i tx) = bl_topups tx" "bl_webhooks (complete_intents env i tx) = bl_webhooks tx"
  "bl_subs (complete_intents env i tx) = bl_subs tx" "md_orders (bl_market (complete_intents env i tx)) = md_orders (bl_market tx)"
  "bl_intents (complete_intents env i tx) = List.map (\<lambda>q. if pi_id q = ci_intent i then completed_intent env i q else q) (bl_intents tx)"
  by (simp_all add: complete_intents_def sql_update_rows)

lemma with_package_simps [simp]: "ci_kind (with_package p i) = ci_kind i" "ci_intent (with_package p i) = ci_intent i"
  "ci_org (with_package p i) = ci_org i" "ci_user (with_package p i) = ci_user i"
  by (simp_all add: with_package_def)

lemma checkout_cases:
  assumes "checkout_effects env i tx = Inr tx'"
  obtains (sub) p where "sql_select (own_intent (ci_intent i) (ci_org i) (ci_user i)) (bl_intents tx) = Some p"
      "ci_kind i = ''subscription''"
      "apply_subscription_checkout env (with_package p i) (complete_intents env (with_package p i) tx) = Inr tx'"
    | (topup) p where "sql_select (own_intent (ci_intent i) (ci_org i) (ci_user i)) (bl_intents tx) = Some p"
      "ci_kind i = ''topup''"
      "apply_topup_checkout env (with_package p i) (complete_intents env (with_package p i) tx) = Inr tx'"
  using assms by (auto simp: checkout_effects_def load_intent_def try_step_Inr checkout_of_kind_def split: if_splits)

lemma invoice_cases:
  assumes "invoice_effects env i paid tx = Inr tx'"
  obtains sub intent tx1 tx2 where "upsert_invoice env i sub intent tx = Inr tx1"
    "on_subscription env sub (if paid then paid_subscription env i else unpaid_subscription env i) tx1 = Inr tx2"
    "on_intent env intent (if paid then paid_intent env i else unpaid_intent env i) tx2 = Inr tx'"
  using assms by (auto simp: invoice_effects_def bl_steps)

lemma subscription_effects_frame:
  assumes "subscription_effects env i tx = Inr tx'"
  shows "bl_market tx' = bl_market tx" "bl_quotas tx' = bl_quotas tx" "bl_topups tx' = bl_topups tx" "bl_webhooks tx' = bl_webhooks tx"
  using assms by (auto simp: subscription_effects_def bl_steps split_beta)

lemma refund_intents_simps [simp]:
  "bl_events (refund_intents env i p tx) = bl_events tx" "bl_quotas (refund_intents env i p tx) = bl_quotas tx"
  "bl_topups (refund_intents env i p tx) = bl_topups tx" "bl_webhooks (refund_intents env i p tx) = bl_webhooks tx"
  "md_orders (bl_market (refund_intents env i p tx)) = md_orders (bl_market tx)"
  "bl_intents (refund_intents env i p tx) = List.map (\<lambda>q. if pi_id q = pi_id p then refunded_intent env i p q else q) (bl_intents tx)"
  by (simp_all add: refund_intents_def sql_update_rows)

lemma refund_effects_cases:
  assumes "refund_effects env i tx = Inr tx'"
  obtains (plain) p tx1 where "own_intent (pi_id p) (ri_org i) (ri_user i) p" "p \<in> set (bl_intents tx)" "pi_kind p \<noteq> ''topup''"
      "upsert_refund env (refund_row_of env i (pi_id p) None) tx = Inr tx1" "tx' = refund_intents env i p tx1"
    | (topup) p t tx1 where "own_intent (pi_id p) (ri_org i) (ri_user i) p" "p \<in> set (bl_intents tx)" "pi_kind p = ''topup''"
      "sql_select (topup_of_intent (pi_id p) (ri_org i) (ri_user i)) (bl_topups tx) = Some t"
      "upsert_refund env (refund_row_of env i (pi_id p) (Some t)) tx = Inr tx1" "refund_topup env i p t (refund_intents env i p tx1) = Inr tx'"
proof -
  define intent where "intent = find_intent_id env (ri_intent i) (ri_payment i) (ri_org i) (ri_user i) tx"
  from assms obtain p topup tx1 where p: "sql_select (own_intent intent (ri_org i) (ri_user i)) (bl_intents tx) = Some p"
    and topup: "load_refund_topup env i p tx = Inr topup"
    and up: "upsert_refund env (refund_row_of env i intent topup) tx = Inr tx1"
    and rest: "(case topup of None \<Rightarrow> Inr (refund_intents env i p tx1) | Some t \<Rightarrow> refund_topup env i p t (refund_intents env i p tx1)) = Inr tx'"
    by (auto simp: refund_effects_def load_intent_def try_step_Inr Let_def intent_def)
  from sql_select_Some [OF p] have own: "own_intent (pi_id p) (ri_org i) (ri_user i) p" "p \<in> set (bl_intents tx)" "intent = pi_id p"
    by (simp_all add: own_intent_def)
  show thesis
  proof (cases topup)
    case None
    then have "pi_kind p \<noteq> ''topup''" using topup by (auto simp: load_refund_topup_def try_step_Inr split: if_splits)
    with None plain own up rest show ?thesis by simp
  next
    case (Some t)
    then have "pi_kind p = ''topup''" "sql_select (topup_of_intent (pi_id p) (ri_org i) (ri_user i)) (bl_topups tx) = Some t"
      using topup by (auto simp: load_refund_topup_def try_step_Inr split: if_splits)
    with Some assms that(2) own up rest show ?thesis by simp
  qed
qed

lemma refund_topup_frame:
  assumes "refund_topup env i p t tx = Inr tx'"
  shows "bl_market tx' = bl_market tx" "bl_webhooks tx' = bl_webhooks tx"
  using assms by (auto simp: refund_topup_def bl_steps move_balance_rows split: if_splits)

lemmas transition_defs = checkout_transition_def invoice_transition_def subscription_transition_def refund_transition_def transition_event_def

text \<open>None of the effects writes the event log or the webhook log.\<close>

lemma checkout_logs:
  assumes "checkout_effects env i tx = Inr tx'"
  shows "bl_events tx' = bl_events tx \<and> bl_webhooks tx' = bl_webhooks tx"
  using assms by (cases rule: checkout_cases) (simp_all add: subscription_checkout_frame topup_checkout_frame)

lemma invoice_logs:
  assumes "invoice_effects env i paid tx = Inr tx'"
  shows "bl_events tx' = bl_events tx \<and> bl_webhooks tx' = bl_webhooks tx"
  using assms
proof (cases rule: invoice_cases)
  case (1 sub intent tx1 tx2)
  have "bl_events tx' = bl_events tx2 \<and> bl_webhooks tx' = bl_webhooks tx2" using on_intent_rows [OF 1(3)] by auto
  then show ?thesis using upsert_invoice_frame [OF 1(1)] on_subscription_frame [OF 1(2)] by simp
qed

lemma refund_logs:
  assumes "refund_effects env i tx = Inr tx'"
  shows "bl_events tx' = bl_events tx \<and> bl_webhooks tx' = bl_webhooks tx"
  using assms
proof (cases rule: refund_effects_cases)
  case (plain p tx1)
  then show ?thesis using upsert_refund_frame [OF plain(4)] by simp
next
  case (topup p t tx1)
  then show ?thesis using upsert_refund_frame [OF topup(5)] refund_topup_frame [OF topup(6)] by simp
qed

interpretation checkout: keyed_effects checkout_effects checkout_transition
  by unfold_locales (auto simp: transition_defs Let_def dest: checkout_logs)

interpretation invoice: keyed_effects "\<lambda>env i. invoice_effects env i paid" "\<lambda>env ev i. invoice_transition env ev i paid" for paid
  by unfold_locales (auto simp: transition_defs Let_def dest: invoice_logs)

interpretation subscription: keyed_effects subscription_effects "\<lambda>env ev i. subscription_transition env ev type i" for type
  by unfold_locales (auto simp: transition_defs Let_def subscription_effects_frame)

interpretation refund: keyed_effects refund_effects refund_transition
  by unfold_locales (auto simp: transition_defs Let_def dest: refund_logs)

subsection \<open>Runs of deliveries\<close>

text \<open>The marketplace only adds events.\<close>

definition market_grows :: "mp_db \<Rightarrow> mp_db \<Rightarrow> bool" where
  "market_grows m m' \<longleftrightarrow> set (md_events m) \<subseteq> set (md_events m')"

lemma market_grows_changes:
  "changes_by body m m' \<Longrightarrow> (\<And>tx x. body m = Inr (tx, x) \<Longrightarrow> market_grows m tx) \<Longrightarrow> market_grows m m'"
  by (auto simp: changes_by_def market_grows_def)

lemma market_completed_grows: "market_grows m (fst (apply_checkout_completed env c m))"
proof (rule market_grows_changes [OF completed_changes])
  fix tx oid
  assume "completed_tx env c m = Inr (tx, oid)"
  then show "market_grows m tx"
  proof (cases rule: completed_cases)
    case (2 w p)
    from fulfil_rows [OF 2(5)] show ?thesis by (auto simp: fulfilled_def market_grows_def)
  qed (simp add: market_grows_def)
qed

lemma market_refund_grows: "market_grows m (fst (apply_marketplace_refund env r m))"
proof -
  have "market_grows m tx" if "refund_tx env r m = Inr (tx, u)" for tx u
    using that by (cases rule: market_refund_cases) (auto simp: market_grows_def refund_rows_def)
  moreover have "changes_by (refund_tx env r) m (fst (apply_marketplace_refund env r m))"
    using changes_refl by (simp add: apply_marketplace_refund_def changes_tx)
  ultimately show ?thesis by (rule market_grows_changes [rotated])
qed

lemma payout_lifecycle_grows:
  assumes "payout_lifecycle_tx env e to m = Inr (tx, u)"
  shows "market_grows m tx"
proof -
  from assms obtain p provider ref tx1 inserted where
    ins: "insert_transition env (payout_lifecycle_event env e provider to p) m = Inr (tx1, inserted)"
    and rest: "(if \<not> inserted then Inr (tx1, po_id p) else try_step (payout_transition env e to ref p tx1) (\<lambda>tx2. Inr (tx2, po_id p))) = Inr (tx, u)"
    unfolding payout_lifecycle_tx_def by (auto simp: step_simps)
  from insert_transition_rows [OF ins] have "set (md_events m) \<subseteq> set (md_events tx1)" by (cases inserted; auto)
  moreover from rest have "md_events tx = md_events tx1"
    by (cases inserted) (auto simp: payout_transition_def step_simps)
  ultimately show ?thesis by (simp add: market_grows_def)
qed

lemma market_payout_grows: "market_grows m (fst (apply_provider_payout_lifecycle env e m))"
proof -
  from lifecycle_changes [of env e m] consider "fst (apply_provider_payout_lifecycle env e m) = m"
    | to where "changes_by (payout_lifecycle_tx env e to) m (fst (apply_provider_payout_lifecycle env e m))" by blast
  then show ?thesis
  proof cases
    case 1
    then show ?thesis by (simp add: market_grows_def)
  next
    case 2
    then show ?thesis by (rule market_grows_changes) (rule payout_lifecycle_grows)
  qed
qed

lemma reconcile_checkout_grows: "events_grow db (fst (reconcile_checkout env market c db))"
proof (cases market)
  case True
  obtain m r where a: "apply_checkout_completed (be_market env) c (bl_market db) = (m, r)" by fastforce
  then have "market_grows (bl_market db) m" using market_completed_grows [of "bl_market db" "be_market env" c] by simp
  with True a show ?thesis by (cases r) (simp_all add: reconcile_checkout_def events_grow_def market_grows_def)
qed (simp add: reconcile_checkout_def)

lemma reconcile_refund_grows: "events_grow db (fst (reconcile_refund env market r db))"
proof (cases market)
  case True
  obtain m s where a: "apply_marketplace_refund (be_market env) r (bl_market db) = (m, s)" by fastforce
  then have "market_grows (bl_market db) m" using market_refund_grows [of "bl_market db" "be_market env" r] by simp
  with True a show ?thesis by (cases s) (simp_all add: reconcile_refund_def events_grow_def market_grows_def)
qed (simp add: reconcile_refund_def)

lemma domestic_payout_grows: "events_grow db (fst (domestic_payout env market provider e db))"
proof (cases market)
  case True
  let ?e = "\<lparr>pv_provider = provider, pv_event = de_id e, pv_type = de_type e, pv_payout = trim_space (de_payout e),
    pv_ref = trim_space (de_provider_payout e), pv_status = trim_space (de_status e), pv_reason = trim_space (de_reason e)\<rparr>"
  obtain m r where a: "apply_provider_payout_lifecycle (be_market env) ?e (bl_market db) = (m, r)" by fastforce
  then have "market_grows (bl_market db) m" using market_payout_grows [of "bl_market db" "be_market env" ?e] by simp
  with True a show ?thesis by (cases r) (simp_all add: domestic_payout_def events_grow_def market_grows_def)
qed (simp add: domestic_payout_def)

lemma stores_grow:
  "events_grow db (fst (store_checkout_completed env ev ci db))" "events_grow db (fst (store_invoice env ev ii paid db))"
  "events_grow db (fst (store_subscription env ev type si db))" "events_grow db (fst (store_refund env ev ri db))"
  by (simp_all add: store_checkout_completed_def store_invoice_def store_subscription_def store_refund_def
      checkout.grows invoice.grows subscription.grows refund.grows)

lemma subscription_stores_grow:
  "events_grow db (fst (store_subscription_updated env ev si db))" "events_grow db (fst (store_subscription_deleted env ev si db))"
  by (simp_all add: store_subscription_updated_def store_subscription_deleted_def stores_grow)

lemma refund_then_market_grows: "events_grow db (fst (refund_then_market env market ev i db))"
proof -
  obtain db1 r where s: "store_refund env ev i db = (db1, r)" by fastforce
  then have "events_grow db db1" using stores_grow(4) [of db env ev i] by simp
  then show ?thesis
    using events_grow_trans reconcile_refund_grows s by (auto simp: refund_then_market_def split: option.splits)
qed

lemma checkout_event_grows: "events_grow db (fst (apply_checkout_event env market ev i db))"
  by (simp add: apply_checkout_event_def stores_grow reconcile_checkout_grows)

lemma stripe_event_grows: "events_grow db (fst (apply_stripe_event env market ev db))"
  by (simp add: apply_stripe_event_def apply_refund_event_def checkout_event_grows stores_grow subscription_stores_grow
      refund_then_market_grows split: sum.split)

lemma domestic_grows: "events_grow db (fst (domestic_lifecycle env market provider e db))"
  by (simp add: domestic_lifecycle_def domestic_checkout_paid_def domestic_refund_def domestic_subscription_def Let_def
      checkout_event_grows stores_grow subscription_stores_grow refund_then_market_grows domestic_payout_grows)

end
