(* ===== verification/Billing_Flows.thy ===== *)
theory Billing_Flows
  imports Billing_Properties
begin

text \<open>
  Runs of provider deliveries over the billing tables and the properties of the lifecycle: an
  event is applied once, a failed one changes nothing, what a top-up credits and a refund takes
  back, refunds stay within payments, and how the handlers treat a delivery whose first
  application failed.
\<close>

subsection \<open>Runs\<close>

text \<open>Everything that writes the tables here: the two webhook handlers and the intent store.\<close>

datatype bl_op =
    HookStripe bl_env "bool option" "stripe_event option"
  | HookDomestic bl_env "bool option" string "domestic_event option"
  | IntentCreate bl_env mp_intent
  | IntentCheckout bl_env string string metadata
  | IntentFail bl_env string string

fun bl_step :: "bl_op \<Rightarrow> bl_db \<Rightarrow> bl_db" where
  "bl_step (HookStripe env lifecycle verified) db = fst (stripe_webhook env lifecycle verified db)"
| "bl_step (HookDomestic env lifecycle provider verified) db = fst (domestic_webhook env True lifecycle provider verified db)"
| "bl_step (IntentCreate env p) db = fst (create_payment_intent env p db)"
| "bl_step (IntentCheckout env intent session meta) db = fst (set_intent_checkout env intent session meta db)"
| "bl_step (IntentFail env intent reason) db = fst (mark_intent_failed env intent reason db)"

fun bl_run :: "bl_op list \<Rightarrow> bl_db \<Rightarrow> bl_db" where
  "bl_run [] db = db"
| "bl_run (x # xs) db = bl_run xs (bl_step x db)"

lemma record_webhook_grows: "events_grow db (fst (record_webhook_event env provider event type status db))"
  by (auto simp: record_webhook_event_def Let_def events_grow_def)

lemma stripe_webhook_grows: "events_grow db (fst (stripe_webhook env lifecycle verified db))"
proof (cases verified)
  case (Some ev)
  obtain db1 r where rec: "record_webhook_event env ''stripe'' (ev_id ev) (ev_type ev) (webhook_status ev) db = (db1, r)"
    by fastforce
  then have 1: "events_grow db db1" using record_webhook_grows [of db env] by (metis fst_conv)
  show ?thesis
  proof (cases r)
    case (Inr n)
    show ?thesis
    proof (cases lifecycle)
      case (Some market)
      obtain db2 e where "apply_stripe_event env market ev db1 = (db2, e)" by fastforce
      moreover from this have "events_grow db1 db2" using stripe_event_grows [of db1 env market ev] by simp
      ultimately show ?thesis using 1 \<open>verified = Some ev\<close> rec Inr Some events_grow_trans
        by (cases e) (auto simp: stripe_webhook_def)
    qed (use 1 Some rec Inr in \<open>simp add: stripe_webhook_def\<close>)
  qed (use 1 Some rec in \<open>simp add: stripe_webhook_def\<close>)
qed (simp add: stripe_webhook_def)

lemma domestic_webhook_grows: "events_grow db (fst (domestic_webhook env configured lifecycle provider verified db))"
proof (cases "\<not> configured \<or> provider = [] \<or> verified = None")
  case False
  then obtain e0 where v: "configured" "provider \<noteq> []" "verified = Some e0" by auto
  define e where "e = trimmed_event e0"
  obtain db1 r where rec: "record_webhook_event env provider (de_id e) (de_type e) (domestic_status e) db = (db1, r)" by fastforce
  then have 1: "events_grow db db1" using record_webhook_grows [of db env] by (metis fst_conv)
  show ?thesis
  proof (cases "de_id e = [] \<or> de_type e = []")
    case True
    then show ?thesis using v by (simp add: domestic_webhook_def Let_def e_def)
  next
    case ids: False
    show ?thesis
    proof (cases r)
      case (Inl err)
      then show ?thesis using v ids 1 rec by (simp add: domestic_webhook_def Let_def e_def)
    next
      case (Inr n)
      obtain db2 f where app: "domestic_lifecycle env (the lifecycle) provider e db1 = (db2, f)" by fastforce
      then have "events_grow db1 db2" using domestic_grows [of db1 env "the lifecycle" provider e] by simp
      then have "events_grow db db2" using 1 events_grow_trans by blast
      then show ?thesis using v ids 1 rec Inr app
        by (cases lifecycle; cases f) (simp_all add: domestic_webhook_def Let_def e_def)
    qed
  qed
qed (auto simp: domestic_webhook_def)

lemma intents_grow:
  "events_grow db (fst (create_payment_intent env p db))" "events_grow db (fst (set_intent_checkout env intent session meta db))"
  "events_grow db (fst (mark_intent_failed env intent reason db))"
  by (auto simp: create_payment_intent_def set_intent_checkout_def mark_intent_failed_def Let_def events_grow_def split: prod.splits)

lemma bl_step_grows: "events_grow db (bl_step x db)"
  by (cases x) (simp_all add: stripe_webhook_grows domestic_webhook_grows intents_grow)

lemma bl_run_grows: "events_grow db (bl_run xs db)"
proof (induction xs arbitrary: db)
  case (Cons x xs)
  then show ?case using bl_step_grows events_grow_trans by (metis bl_run.simps(2))
qed simp

subsection \<open>Stripe events under their key\<close>

definition for_marketplace :: "stripe_event \<Rightarrow> bool" where
  "for_marketplace ev \<longleftrightarrow> (case decoded ev of Inl _ \<Rightarrow> False | Inr ob \<Rightarrow> meta_of ob ''checkout_kind'' = ''marketplace_install'')"

lemma store_keys:
  "\<exists>k. keyed_delivery k (\<lambda>env. store_checkout_completed env ev ci)" "\<exists>k. keyed_delivery k (\<lambda>env. store_invoice env ev ii paid)"
  "\<exists>k. keyed_delivery k (\<lambda>env. store_subscription env ev type si)" "\<exists>k. keyed_delivery k (\<lambda>env. store_refund env ev ri)"
  unfolding store_checkout_completed_def store_invoice_def store_subscription_def store_refund_def
  by (rule exI, rule checkout.keyed invoice.keyed subscription.keyed refund.keyed)+

lemma subscription_keys:
  "\<exists>k. keyed_delivery k (\<lambda>env. store_subscription_updated env ev si)" "\<exists>k. keyed_delivery k (\<lambda>env. store_subscription_deleted env ev si)"
proof -
  have "store_subscription_updated env ev si = store_subscription env ev ''subscription.updated'' si"
    "store_subscription_deleted env ev si = store_subscription env ev ''subscription.deleted'' (si\<lparr>si_status := ''cancelled''\<rparr>)" for env
    by (simp_all add: store_subscription_updated_def store_subscription_deleted_def fun_eq_iff)
  then show "\<exists>k. keyed_delivery k (\<lambda>env. store_subscription_updated env ev si)"
    "\<exists>k. keyed_delivery k (\<lambda>env. store_subscription_deleted env ev si)"
    using store_keys(3) by simp_all
qed

lemma parsed_kind:
  "parse_checkout_completed ev = Inr i \<Longrightarrow> ci_kind i = ''marketplace_install'' \<Longrightarrow> for_marketplace ev"
  "parse_refund ev = Inr j \<Longrightarrow> ri_kind j = ''marketplace_install'' \<Longrightarrow> for_marketplace ev"
  by (auto simp: parse_checkout_completed_def parse_refund_def for_marketplace_def try_step_Inr Let_def or_default_def split: if_splits)

text \<open>An event either never touches the tables, or is a keyed delivery.\<close>

definition keyed_event :: "(bl_env \<Rightarrow> bool \<Rightarrow> bl_db \<Rightarrow> bl_db \<times> bl_error option) \<Rightarrow> bool" where
  "keyed_event f \<longleftrightarrow> (\<exists>r. \<forall>env market db. f env market db = (db, r)) \<or> (\<exists>k. \<forall>market. keyed_delivery k (\<lambda>env. f env market))"

lemma keyed_event_parsed:
  assumes "\<And>i. p = Inr i \<Longrightarrow> \<exists>k. \<forall>market. keyed_delivery k (\<lambda>env. f env market i)"
  shows "keyed_event (\<lambda>env market db. case p of Inl e \<Rightarrow> (db, Some e) | Inr i \<Rightarrow> f env market i db)"
  using assms by (cases p) (auto simp: keyed_event_def)

lemma checkout_event_keyed:
  assumes "\<not> for_marketplace ev" "parse_checkout_completed ev = Inr i"
  shows "\<exists>k. \<forall>market. keyed_delivery k (\<lambda>env. apply_checkout_event env market (ev_id ev) i)"
proof -
  have "apply_checkout_event env market (ev_id ev) i = store_checkout_completed env (ev_id ev) i" for env market
    using parsed_kind(1) [OF assms(2)] assms(1) by (auto simp: apply_checkout_event_def fun_eq_iff)
  then show ?thesis using store_keys(1) by simp
qed

lemma refund_event_keyed:
  assumes "\<not> for_marketplace ev" "parse_refund ev = Inr i"
  shows "\<exists>k. \<forall>market. keyed_delivery k (\<lambda>env. apply_refund_event env market (ev_id ev) i)"
proof -
  have "apply_refund_event env market (ev_id ev) i = store_refund env (ev_id ev) i" for env market
    using parsed_kind(2) [OF assms(2)] assms(1) by (auto simp: apply_refund_event_def fun_eq_iff)
  then show ?thesis using store_keys(4) by simp
qed

lemma stripe_event_keyed:
  assumes "\<not> for_marketplace ev"
  shows "keyed_event (\<lambda>env market. apply_stripe_event env market ev)"
proof -
  note parsed = keyed_event_parsed [where p = "parse_checkout_completed ev" and f = "\<lambda>env market. apply_checkout_event env market (ev_id ev)"]
    keyed_event_parsed [where p = "parse_refund ev" and f = "\<lambda>env market. apply_refund_event env market (ev_id ev)"]
    keyed_event_parsed [where p = "parse_invoice ev" and f = "\<lambda>env _ i. store_invoice env (ev_id ev) i True"]
    keyed_event_parsed [where p = "parse_invoice ev" and f = "\<lambda>env _ i. store_invoice env (ev_id ev) i False"]
    keyed_event_parsed [where p = "parse_subscription ev" and f = "\<lambda>env _. store_subscription_updated env (ev_id ev)"]
    keyed_event_parsed [where p = "parse_subscription ev" and f = "\<lambda>env _. store_subscription_deleted env (ev_id ev)"]
  have other: "keyed_event (\<lambda>env market db. (db, None))" by (auto simp: keyed_event_def)
  show ?thesis
    unfolding apply_stripe_event_def
    by (cases "ev_type ev = ''checkout.session.completed''"; cases "ev_type ev = ''invoice.paid''";
        cases "ev_type ev = ''invoice.payment_failed''"; cases "ev_type ev = ''customer.subscription.updated''";
        cases "ev_type ev = ''customer.subscription.deleted''"; cases "ev_type ev \<in> {''refund.created'', ''charge.refunded''}")
      (simp_all add: parsed other checkout_event_keyed refund_event_keyed assms store_keys subscription_keys)
qed

lemma keyed_event_fails:
  assumes "keyed_event f" "f env market db = (db', Some e)"
  shows "db' = db"
  using assms unfolding keyed_event_def keyed_delivery_def by (metis Pair_inject)

lemma keyed_event_again:
  assumes "keyed_event f" "f env market db = (db1, None)" "events_grow db1 db2"
  shows "fst (f env' market' db2) = db2 \<and> (snd (f env' market' db2) = None \<or> (\<exists>c. snd (f env' market' db2) = Some (BlFault c)))"
  using assms(1) unfolding keyed_event_def
proof
  assume "\<exists>r. \<forall>env market db. f env market db = (db, r)"
  then obtain r where r: "\<And>env market db. f env market db = (db, r)" by blast
  with assms(2) have "r = None" by simp
  with r show ?thesis by simp
next
  assume "\<exists>k. \<forall>market. keyed_delivery k (\<lambda>env. f env market)"
  then obtain k where k: "\<And>market. keyed_delivery k (\<lambda>env. f env market)" by blast
  with assms(2) have "known_key k db1" unfolding keyed_delivery_def by blast
  then have "known_key k db2" using assms(3) by (rule known_key_later)
  with k show ?thesis unfolding keyed_delivery_def by blast
qed

subsection \<open>Events are applied once\<close>

definition known_hook :: "string \<Rightarrow> string \<Rightarrow> bl_db \<Rightarrow> bool" where
  "known_hook provider event db \<longleftrightarrow> list_ex (\<lambda>w. wh_provider w = provider \<and> wh_event w = event) (bl_webhooks db)"

lemma known_hook_later: "known_hook provider event db \<Longrightarrow> events_grow db db' \<Longrightarrow> known_hook provider event db'"
  by (auto simp: known_hook_def events_grow_def list_ex_iff)

lemma recorded_hook_known:
  assumes "record_webhook_event env provider event type status db = (db1, Inr new)"
  shows "known_hook (or_default ''stripe'' provider) event db1"
  using assms by (auto simp: record_webhook_event_def Let_def known_hook_def split: if_splits)

lemma record_known_hook:
  "known_hook (or_default ''stripe'' provider) event db \<Longrightarrow> fst (record_webhook_event env provider event type status db) = db"
  by (simp add: record_webhook_event_def Let_def known_hook_def)

lemma stripe_webhook_accepted:
  assumes "stripe_webhook env (Some market) (Some ev) db = (db', 200)"
  obtains db1 new where "record_webhook_event env ''stripe'' (ev_id ev) (ev_type ev) (webhook_status ev) db = (db1, Inr new)"
    "apply_stripe_event env market ev db1 = (db', None)"
  using assms by (auto simp: stripe_webhook_def split: prod.splits sum.splits option.splits)

lemma stripe_webhook_known:
  assumes known: "known_hook ''stripe'' (ev_id ev) db"
    and same: "\<And>market. fst (apply_stripe_event env market ev db) = db"
  shows "fst (stripe_webhook env lifecycle (Some ev) db) = db"
proof -
  obtain r where rec: "record_webhook_event env ''stripe'' (ev_id ev) (ev_type ev) (webhook_status ev) db = (db, r)"
    using record_known_hook [of "''stripe''" "ev_id ev" db env] known by (metis list.distinct(1) or_default_def prod.collapse)
  show ?thesis
  proof (cases r)
    case (Inr new)
    show ?thesis
    proof (cases lifecycle)
      case (Some market)
      obtain e where "apply_stripe_event env market ev db = (db, e)" using same [of market] by (metis prod.collapse)
      then show ?thesis using rec Inr Some by (cases e) (simp_all add: stripe_webhook_def)
    qed (use rec Inr in \<open>simp add: stripe_webhook_def\<close>)
  qed (use rec in \<open>simp add: stripe_webhook_def\<close>)
qed

definition calm_billing :: "gotime \<Rightarrow> bl_env" where
  "calm_billing t = \<lparr>be_now = t, be_id = (\<lambda>s. s), be_fault = (\<lambda>_. False), be_market = calm_env t\<rparr>"

definition sample_topup_intent :: mp_intent where
  "sample_topup_intent = \<lparr>pi_id = ''in'', pi_provider = ''stripe'', pi_org = ''b'', pi_user = ''bob'', pi_kind = ''topup'',
     pi_amount = 50, pi_currency = ''usd'', pi_status = ''pending'', pi_checkout = None, pi_payment = None, pi_refunded = 0,
     pi_meta = Map.empty, pi_created = 1, pi_updated = 1, pi_package = None, pi_subscription = None, pi_invoice = None\<rparr>"

definition sample_topup :: "string \<Rightarrow> bl_topup" where
  "sample_topup status = \<lparr>bt_id = ''t'', bt_org = ''b'', bt_user = ''bob'', bt_intent = Some ''in'', bt_checkout = None, bt_amount = 50,
     bt_status = status, bt_trade = None, bt_paid_at = None, bt_refunded = 0\<rparr>"

definition sample_billing :: "string \<Rightarrow> bl_db" where
  "sample_billing status = \<lparr>bl_market = \<lparr>md_agents = [], md_versions = [], md_intents = [sample_topup_intent], md_orders = [],
       md_settlements = [], md_payouts = [], md_installs = [], md_events = []\<rparr>,
     bl_quotas = [\<lparr>q_id = ''q'', q_org = ''b'', q_user = ''bob'', q_scope = ''organization'', q_balance = 10, q_used = 0,
       q_created = 1, q_updated = 1\<rparr>],
     bl_topups = [sample_topup status], bl_subs = [], bl_users = [], bl_invoices = [], bl_refunds = [], bl_webhooks = []\<rparr>"

definition sample_topup_checkout :: checkout_input where
  "sample_topup_checkout = \<lparr>ci_provider = [], ci_org = ''b'', ci_user = ''bob'', ci_intent = ''in'', ci_package = [], ci_kind = ''topup'',
     ci_payment = ''pay'', ci_subscription = [], ci_customer = [], ci_checkout = ''cs'', ci_order = []\<rparr>"

lemmas billing_samples = calm_billing_def sample_topup_intent_def sample_topup_def sample_billing_def sample_topup_checkout_def

lemmas billing_evals = store_checkout_completed_def with_transition_def checkout_transition_def transition_event_def checkout_effects_def
  load_intent_def bl_call_def fail_if_def or_error_def sql_select_def sql_update_def own_intent_def checkout_of_kind_def
  complete_intents_def with_package_def apply_topup_checkout_def ensure_quota_def move_balance_def quota_conflict_def
  topup_of_intent_def session_taken_def set_intents_def add_event_def Let_def or_default_def coalesce_empty_def nullif_empty_def

text \<open>
  C24. The Stripe handler applies an event once. After it answered 200 for an event that is not a
  paid install, then whatever other deliveries, payment intents and failures follow, a further
  delivery of the event leaves every table as it is: no second credit, debit, invoice or refund.
\<close>

theorem stripe_event_applied_once:
  assumes "stripe_webhook env (Some market) (Some ev) db = (db1, 200)" and "\<not> for_marketplace ev"
  shows "fst (stripe_webhook env' lifecycle (Some ev) (bl_run ops db1)) = bl_run ops db1"
proof -
  obtain db0 new where rec: "record_webhook_event env ''stripe'' (ev_id ev) (ev_type ev) (webhook_status ev) db = (db0, Inr new)"
    and app: "apply_stripe_event env market ev db0 = (db1, None)"
    using assms(1) by (rule stripe_webhook_accepted)
  have "events_grow db0 db1" using stripe_event_grows [of db0 env market ev] app by simp
  moreover have "known_hook ''stripe'' (ev_id ev) db0" using recorded_hook_known [OF rec] by (simp add: or_default_def)
  ultimately have "known_hook ''stripe'' (ev_id ev) db1" using known_hook_later by blast
  then have "known_hook ''stripe'' (ev_id ev) (bl_run ops db1)" using bl_run_grows by (rule known_hook_later)
  moreover have "fst (apply_stripe_event env' market' ev (bl_run ops db1)) = bl_run ops db1" for market'
    using keyed_event_again [OF stripe_event_keyed [OF assms(2)] app bl_run_grows] by blast
  ultimately show ?thesis by (rule stripe_webhook_known)
qed

text \<open>The event of a top-up's checkout session, and its first delivery.\<close>

definition sample_session :: stripe_object where
  "sample_session = \<lparr>so_id = ''cs'', so_reference = ''in'',
     so_meta = [''organization_id'' \<mapsto> ''b'', ''user_id'' \<mapsto> ''bob'', ''checkout_kind'' \<mapsto> ''topup''],
     so_payment = ''pay'', so_subscription = [], so_customer = [], so_charge = [], so_status = [], so_amount = 0,
     so_amount_total = 5000, so_amount_due = 0, so_amount_paid = 0, so_currency = ''usd'', so_cancel_at_end = False\<rparr>"

definition sample_paid_event :: stripe_event where
  "sample_paid_event = \<lparr>ev_id = ''evt'', ev_type = ''checkout.session.completed'', ev_data = Decoded sample_session\<rparr>"

lemma sample_paid_parsed: "parse_checkout_completed sample_paid_event = Inr sample_topup_checkout" "\<not> for_marketplace sample_paid_event"
  by (simp_all add: parse_checkout_completed_def for_marketplace_def decoded_def sample_paid_event_def sample_session_def
      sample_topup_checkout_def meta_of_def coalesce_empty_def or_default_def fail_if_def Let_def)

lemma sample_checkout_stored:
  "snd (store_checkout_completed (calm_billing 3) ev sample_topup_checkout (sample_billing status\<lparr>bl_webhooks := hooks\<rparr>)) = None"
  by (simp add: billing_evals billing_samples)

lemma sample_paid_accepted:
  "snd (stripe_webhook (calm_billing 3) (Some False) (Some sample_paid_event) (sample_billing ''pending'')) = 200"
proof -
  obtain h where rec: "record_webhook_event (calm_billing 3) ''stripe'' (ev_id sample_paid_event) (ev_type sample_paid_event)
      (webhook_status sample_paid_event) (sample_billing ''pending'') = (sample_billing ''pending''\<lparr>bl_webhooks := [h]\<rparr>, Inr True)"
    by (simp add: record_webhook_event_def webhook_status_def sample_paid_event_def sample_session_def meta_of_def coalesce_empty_def
        billing_samples or_default_def)
  have "apply_stripe_event (calm_billing 3) False sample_paid_event = store_checkout_completed (calm_billing 3) ''evt'' sample_topup_checkout"
    using sample_paid_parsed(1) by (auto simp: apply_stripe_event_def apply_checkout_event_def sample_paid_event_def sample_topup_checkout_def)
  then obtain db2 where "apply_stripe_event (calm_billing 3) False sample_paid_event (sample_billing ''pending''\<lparr>bl_webhooks := [h]\<rparr>) = (db2, None)"
    using sample_checkout_stored [where ev = "''evt''" and status = "''pending''" and hooks = "[h]"] by (metis prod.collapse)
  with rec show ?thesis by (simp add: stripe_webhook_def)
qed

theorem stripe_event_applied_once_witness:
  "\<exists>db1. stripe_webhook (calm_billing 3) (Some False) (Some sample_paid_event) (sample_billing ''pending'') = (db1, 200)
     \<and> fst (stripe_webhook (calm_billing 9) (Some True) (Some sample_paid_event) (bl_run [IntentFail (calm_billing 4) ''in'' []] db1))
       = bl_run [IntentFail (calm_billing 4) ''in'' []] db1"
proof -
  obtain db1 where "stripe_webhook (calm_billing 3) (Some False) (Some sample_paid_event) (sample_billing ''pending'') = (db1, 200)"
    using sample_paid_accepted by (metis prod.collapse)
  with stripe_event_applied_once [OF this sample_paid_parsed(2)] show ?thesis by blast
qed

text \<open>
  A Stripe event that is not a paid install and is refused, for a failing statement, a missing
  row or an invalid value at any point, has changed none of the tables: all of its effects are
  applied or none.
\<close>

theorem refused_event_changes_nothing:
  assumes "apply_stripe_event env market ev db = (db', Some e)" and "\<not> for_marketplace ev"
  shows "db' = db"
  using stripe_event_keyed [OF assms(2)] assms(1) by (rule keyed_event_fails)

theorem refused_event_changes_nothing_witness:
  "\<exists>db' e. apply_stripe_event (calm_billing 3\<lparr>be_fault := \<lambda>c. c = BlUpdateQuota\<rparr>) False sample_paid_event (sample_billing ''pending'') = (db', Some e)
     \<and> db' = sample_billing ''pending''"
proof -
  have "snd (store_checkout_completed (calm_billing 3\<lparr>be_fault := \<lambda>c. c = BlUpdateQuota\<rparr>) ''evt'' sample_topup_checkout (sample_billing ''pending''))
    = Some (BlFault BlUpdateQuota)"
    by (simp add: billing_evals billing_samples)
  moreover have "apply_stripe_event env False sample_paid_event = store_checkout_completed env ''evt'' sample_topup_checkout" for env
    using sample_paid_parsed(1) by (auto simp: apply_stripe_event_def apply_checkout_event_def sample_paid_event_def sample_topup_checkout_def)
  ultimately obtain db' where
    "apply_stripe_event (calm_billing 3\<lparr>be_fault := \<lambda>c. c = BlUpdateQuota\<rparr>) False sample_paid_event (sample_billing ''pending'')
      = (db', Some (BlFault BlUpdateQuota))"
    by (metis prod.collapse)
  with refused_event_changes_nothing [OF this sample_paid_parsed(2)] show ?thesis by blast
qed

subsection \<open>Credits and debits\<close>

text \<open>The balance of an organization: of its first row, there being one at most; 0 without one.\<close>

definition org_balance :: "string \<Rightarrow> bl_db \<Rightarrow> usd" where
  "org_balance org db =
     (case sql_select (\<lambda>q. q_org q = org \<and> q_scope q = ''organization'') (bl_quotas db) of None \<Rightarrow> 0 | Some q \<Rightarrow> q_balance q)"

lemma org_balance_cong: "bl_quotas db = bl_quotas db' \<Longrightarrow> org_balance org db = org_balance org db'"
  by (simp add: org_balance_def)

lemma org_balance_moved:
  assumes "move_balance env org amt tx = Inr tx'"
  shows "org_balance x tx' = (if x = org \<and> (\<exists>q \<in> set (bl_quotas tx). q_org q = org \<and> q_scope q = ''organization'')
    then dec6 (org_balance x tx + amt) else org_balance x tx)"
proof -
  let ?f = "\<lambda>q. if q_org q = org \<and> q_scope q = ''organization''
        then q\<lparr>q_balance := dec6 (q_balance q + amt), q_updated := be_now env\<rparr> else q"
  have "sql_select (\<lambda>q. q_org q = x \<and> q_scope q = ''organization'') (List.map ?f (bl_quotas tx))
    = map_option ?f (sql_select (\<lambda>q. q_org q = x \<and> q_scope q = ''organization'') (bl_quotas tx))"
    by (rule sql_select_map) simp
  moreover have "bl_quotas tx' = List.map ?f (bl_quotas tx)" using assms by (simp add: move_balance_rows)
  moreover have "sql_select (\<lambda>q. q_org q = org \<and> q_scope q = ''organization'') (bl_quotas tx) = None
    \<longleftrightarrow> \<not> (\<exists>q \<in> set (bl_quotas tx). q_org q = org \<and> q_scope q = ''organization'')"
    by (auto simp: sql_select_None)
  ultimately show ?thesis by (auto simp: org_balance_def split: option.splits dest!: sql_select_Some)
qed

lemma sql_select_single: "sql_select P [r] = (if P r then Some r else None)"
  by (simp add: sql_select_def)

lemma ensure_quota_balance:
  assumes "ensure_quota env user org tx = Inr tx'" and fresh: "\<not> list_ex (\<lambda>q. q_id q = ''quota_'' @ be_id env ''quota'') (bl_quotas tx)"
  shows "org_balance x tx' = org_balance x tx" "\<exists>q \<in> set (bl_quotas tx'). q_org q = org \<and> q_scope q = ''organization''"
proof -
  consider "tx' = tx" "\<exists>q \<in> set (bl_quotas tx). q_org q = org \<and> q_scope q = ''organization''"
    | r where "tx' = tx\<lparr>bl_quotas := bl_quotas tx @ [r]\<rparr>" "q_org r = org" "q_scope r = ''organization''" "q_balance r = 0"
    using assms by (auto simp: ensure_quota_def bl_steps quota_conflict_def list_ex_iff split: if_splits)
  then show "org_balance x tx' = org_balance x tx" "\<exists>q \<in> set (bl_quotas tx'). q_org q = org \<and> q_scope q = ''organization''"
    by (cases; auto simp: org_balance_def sql_select_append sql_select_single split: option.splits if_splits)+
qed

lemma fresh_transition:
  assumes "with_transition env e effects db = (db', None)" "\<not> known_key (le_key e) db"
  shows "effects (add_event e db) = Inr db'"
  using assms(1) by (rule with_transition_cases) (use assms(2) in auto)

lemma topup_checkout_balance:
  assumes "apply_topup_checkout env i tx = Inr tx'"
    and t: "sql_select (topup_of_intent (ci_intent i) (ci_org i) (ci_user i)) (bl_topups tx) = Some t" "bt_status t \<noteq> ''paid''"
    and fresh: "\<not> list_ex (\<lambda>q. q_id q = ''quota_'' @ be_id env ''quota'') (bl_quotas tx)"
  shows "org_balance x tx' = (if x = ci_org i then dec6 (org_balance x tx + bt_amount t) else org_balance x tx)"
    "bl_topups tx' = List.map (\<lambda>u. if bt_id u = bt_id t then paid_topup env i u else u) (bl_topups tx)"
proof -
  let ?tx = "tx\<lparr>bl_topups := fst (sql_update (\<lambda>x. bt_id x = bt_id t) (paid_topup env i) (bl_topups tx))\<rparr>"
  from assms(1) t obtain tx1 where e: "ensure_quota env (ci_user i) (ci_org i) ?tx = Inr tx1"
    and m: "move_balance env (ci_org i) (bt_amount t) tx1 = Inr tx'"
    by (auto simp: apply_topup_checkout_def bl_steps)
  have "\<not> list_ex (\<lambda>q. q_id q = ''quota_'' @ be_id env ''quota'') (bl_quotas ?tx)" using fresh by simp
  note ensured = ensure_quota_balance [OF e this]
  have "org_balance y ?tx = org_balance y tx" for y by (rule org_balance_cong) simp
  with ensured org_balance_moved [OF m]
  show "org_balance x tx' = (if x = ci_org i then dec6 (org_balance x tx + bt_amount t) else org_balance x tx)" by simp
  from m have "bl_topups tx' = bl_topups tx1" by (auto simp: move_balance_rows)
  then show "bl_topups tx' = List.map (\<lambda>u. if bt_id u = bt_id t then paid_topup env i u else u) (bl_topups tx)"
    using ensure_quota_frame(2) [OF e] by (simp add: sql_update_rows)
qed

text \<open>
  C22. A top-up whose checkout completes is credited exactly once and with the order's own amount:
  an event not seen before raises the balance of the organization by the amount of its order and
  no other balance, whatever amount the provider reports, and marks the order paid. Every status
  of the order but paid is accepted, so one that was refunded or failed is credited again.
\<close>

theorem topup_credits_its_order:
  assumes "store_checkout_completed env ev i db = (db', None)" and "ci_kind i = ''topup''"
    and "\<not> known_key (bl_key (lower_or ''stripe'' (ci_provider i)) ev ''checkout'' (ci_intent i)) db"
    and "sql_select (topup_of_intent (ci_intent i) (ci_org i) (ci_user i)) (bl_topups db) = Some t" and "bt_status t \<noteq> ''paid''"
    and "\<not> list_ex (\<lambda>q. q_id q = ''quota_'' @ be_id env ''quota'') (bl_quotas db)"
  shows "org_balance (ci_org i) db' = dec6 (org_balance (ci_org i) db + bt_amount t)
    \<and> (x \<noteq> ci_org i \<longrightarrow> org_balance x db' = org_balance x db)
    \<and> bl_topups db' = List.map (\<lambda>u. if bt_id u = bt_id t then paid_topup env i u else u) (bl_topups db)"
proof -
  let ?e = "checkout_transition env ev i"
  have key: "le_key ?e = bl_key (lower_or ''stripe'' (ci_provider i)) ev ''checkout'' (ci_intent i)"
    by (simp add: transition_defs Let_def)
  from assms(1,3) have "checkout_effects env i (add_event ?e db) = Inr db'"
    unfolding store_checkout_completed_def key [symmetric] by (rule fresh_transition)
  then obtain p where "apply_topup_checkout env (with_package p i) (complete_intents env (with_package p i) (add_event ?e db)) = Inr db'"
    using assms(2) by (cases rule: checkout_cases) auto
  note credited = topup_checkout_balance [OF this, where t = t]
  have same: "org_balance y (complete_intents env (with_package p i) (add_event ?e db)) = org_balance y db" for y
    by (rule org_balance_cong) (simp add: add_event_def)
  have "bl_topups (add_event ?e db) = bl_topups db" "bl_quotas (add_event ?e db) = bl_quotas db" by (simp_all add: add_event_def)
  moreover have "paid_topup env (with_package p i) = paid_topup env i"
    by (auto simp: paid_topup_def with_package_def fun_eq_iff)
  ultimately show ?thesis using credited assms(4,5,6) same by simp
qed

text \<open>An order refunded before, paid by a second event.\<close>

theorem topup_credits_its_order_witness:
  "\<exists>db'. store_checkout_completed (calm_billing 3) ''evt_2'' sample_topup_checkout (sample_billing ''refunded'') = (db', None)
     \<and> org_balance ''b'' db' = dec6 (org_balance ''b'' (sample_billing ''refunded'') + 50)"
proof -
  obtain db' where s: "store_checkout_completed (calm_billing 3) ''evt_2'' sample_topup_checkout (sample_billing ''refunded'') = (db', None)"
    using sample_checkout_stored [where ev = "''evt_2''" and status = "''refunded''" and hooks = "[]"]
    by (auto simp: sample_billing_def prod_eq_iff)
  have "org_balance (ci_org sample_topup_checkout) db'
      = dec6 (org_balance (ci_org sample_topup_checkout) (sample_billing ''refunded'') + bt_amount (sample_topup ''refunded''))"
    using topup_credits_its_order [OF s, of "sample_topup ''refunded''" "[]"]
    by (simp add: billing_samples known_key_def sql_select_def topup_of_intent_def)
  with s show ?thesis by (simp add: sample_topup_checkout_def sample_topup_def)
qed

lemma refund_topup_rows:
  assumes "refund_topup env i p t tx = Inr tx'" "bt_id t \<noteq> []"
  shows "bl_quotas tx' = List.map (\<lambda>q. if q_org q = ri_org i \<and> q_scope q = ''organization''
        then q\<lparr>q_balance := dec6 (q_balance q - ri_amount i), q_updated := be_now env\<rparr> else q) (bl_quotas tx)"
    "bl_topups tx' = List.map (\<lambda>x. if bt_id x = bt_id t
        then x\<lparr>bt_status := intent_refund_status (capped_refund (pi_refunded p) (ri_amount i) (pi_amount p)) (pi_amount p),
               bt_refunded := dec6 (capped_refund (bt_refunded t) (ri_amount i) (pi_amount p))\<rparr> else x) (bl_topups tx)"
    "bl_market tx' = bl_market tx"
  using assms by (auto simp: refund_topup_def bl_steps move_balance_rows sql_update_rows)

lemma find_intent_cong: "bl_intents db = bl_intents db' \<Longrightarrow> find_intent_id env intent pay org user db = find_intent_id env intent pay org user db'"
  by (simp add: find_intent_id_def)

lemma upsert_refund_intents: "upsert_refund env row tx = Inr tx' \<Longrightarrow> bl_intents tx' = bl_intents tx"
  using upsert_refund_frame(1) by fastforce

text \<open>
  The refund of a top-up takes the event's whole amount from the balance of the organization,
  although the refunded amounts kept on the order and the intent are capped at what was paid: the
  balance may go below zero, and a second event for one refund, or a refund whose status is
  pending or failed, is taken off all the same.
\<close>

theorem topup_refund_debits_whole_event:
  assumes "store_refund env ev i db = (db', None)"
    and "\<not> known_key (bl_key (lower_or ''stripe'' (ri_provider i)) ev ''refund'' (ri_refund i)) db"
    and "sql_select (own_intent (find_intent_id env (ri_intent i) (ri_payment i) (ri_org i) (ri_user i) db) (ri_org i) (ri_user i))
          (bl_intents db) = Some p" and "pi_kind p = ''topup''"
    and "sql_select (topup_of_intent (pi_id p) (ri_org i) (ri_user i)) (bl_topups db) = Some t" and "bt_id t \<noteq> []"
  shows "bl_quotas db' = List.map (\<lambda>q. if q_org q = ri_org i \<and> q_scope q = ''organization''
        then q\<lparr>q_balance := dec6 (q_balance q - ri_amount i), q_updated := be_now env\<rparr> else q) (bl_quotas db)
    \<and> bl_intents db' = List.map (\<lambda>q. if pi_id q = pi_id p then refunded_intent env i p q else q) (bl_intents db)
    \<and> bl_topups db' = List.map (\<lambda>x. if bt_id x = bt_id t
        then x\<lparr>bt_status := intent_refund_status (capped_refund (pi_refunded p) (ri_amount i) (pi_amount p)) (pi_amount p),
               bt_refunded := dec6 (capped_refund (bt_refunded t) (ri_amount i) (pi_amount p))\<rparr> else x) (bl_topups db)"
proof -
  let ?e = "refund_transition env ev i"
  have key: "le_key ?e = bl_key (lower_or ''stripe'' (ri_provider i)) ev ''refund'' (ri_refund i)"
    by (simp add: transition_defs Let_def)
  have eff: "refund_effects env i (add_event ?e db) = Inr db'"
    using assms(1,2) unfolding store_refund_def key [symmetric] by (rule fresh_transition)
  have rows: "bl_intents (add_event ?e db) = bl_intents db" "bl_topups (add_event ?e db) = bl_topups db" "bl_quotas (add_event ?e db) = bl_quotas db"
    by (simp_all add: add_event_def)
  from find_intent_cong [OF rows(1)] eff assms(3-5) rows obtain tx1 where
    up: "upsert_refund env (refund_row_of env i (pi_id p) (Some t)) (add_event ?e db) = Inr tx1"
    and top: "refund_topup env i p t (refund_intents env i p tx1) = Inr db'"
    by (auto simp: refund_effects_def load_intent_def load_refund_topup_def try_step_Inr Let_def or_error_def own_intent_def
        dest!: sql_select_Some)
  show ?thesis
    using refund_topup_rows [OF top assms(6)] upsert_refund_frame [OF up] rows by (simp add: upsert_refund_intents [OF up])
qed

definition sample_topup_refund :: refund_input where
  "sample_topup_refund = \<lparr>ri_provider = ''stripe'', ri_refund = ''re'', ri_charge = [], ri_payment = [], ri_org = ''b'', ri_user = ''bob'',
     ri_intent = ''in'', ri_kind = ''topup'', ri_amount = 80, ri_currency = ''usd'', ri_status = ''failed''\<rparr>"

lemma sample_refund_stored: "snd (store_refund (calm_billing 3) ''evt'' sample_topup_refund (sample_billing ''paid'')) = None"
  by (simp add: store_refund_def with_transition_def refund_transition_def transition_event_def refund_effects_def load_refund_topup_def
      upsert_refund_def refund_row_of_def refund_topup_def refund_intents_def find_intent_id_def billing_evals billing_samples
      sample_topup_refund_def)

text \<open>A failed refund of 80 on an order of 50 takes a balance of 10 to -70.\<close>

theorem topup_refund_debits_whole_event_witness:
  "\<exists>db'. store_refund (calm_billing 3) ''evt'' sample_topup_refund (sample_billing ''paid'') = (db', None)
     \<and> List.map q_balance (bl_quotas db') = [- 70] \<and> List.map bt_refunded (bl_topups db') = [50]"
proof -
  obtain db' where s: "store_refund (calm_billing 3) ''evt'' sample_topup_refund (sample_billing ''paid'') = (db', None)"
    using sample_refund_stored by (metis prod.collapse)
  have "bl_quotas db' = List.map (\<lambda>q. if q_org q = ''b'' \<and> q_scope q = ''organization''
        then q\<lparr>q_balance := dec6 (q_balance q - 80), q_updated := 3\<rparr> else q) (bl_quotas (sample_billing ''paid''))
    \<and> bl_topups db' = List.map (\<lambda>x. if bt_id x = ''t''
        then x\<lparr>bt_status := intent_refund_status (capped_refund 0 80 50) 50, bt_refunded := dec6 (capped_refund 0 80 50)\<rparr> else x)
        (bl_topups (sample_billing ''paid''))"
    using topup_refund_debits_whole_event [OF s, of sample_topup_intent "sample_topup ''paid''"]
    by (simp add: billing_samples sample_topup_refund_def known_key_def sql_select_def own_intent_def find_intent_id_def topup_of_intent_def)
  moreover have "dec6 (10 - 80) = - 70" "dec6 (capped_refund 0 80 50) = 50" by code_simp+
  ultimately show ?thesis using s by (simp add: sample_billing_def sample_topup_def)
qed

subsection \<open>Domestic providers\<close>

lemma domestic_result:
  assumes "configured" "provider \<noteq> []" "de_id (trimmed_event e0) \<noteq> []" "de_type (trimmed_event e0) \<noteq> []"
    and rec: "record_webhook_event env provider (de_id (trimmed_event e0)) (de_type (trimmed_event e0))
      (domestic_status (trimmed_event e0)) db = (db, Inr False)"
  shows "domestic_webhook env configured lifecycle provider (Some e0) db = (db, 200)"
  using assms by (cases lifecycle) (simp_all add: domestic_webhook_def Let_def)

text \<open>
  A domestic provider's delivery that fails is never applied. Once an event is recorded and its
  application has been refused with 500, every later delivery of it is answered 200 and changes
  nothing, whatever happens in between and even when nothing fails any more: the provider's retry
  is taken as a duplicate and the payment, refund or cancellation is lost.
\<close>

theorem failed_domestic_event_is_lost:
  assumes "domestic_webhook env True (Some market) provider (Some e) db = (db1, 500)"
    and "known_hook provider (de_id (trimmed_event e)) db1"
    and "\<not> be_fault env' BlInsertWebhook" and "\<not> be_fault env' BlWebhookRows"
  shows "domestic_webhook env' True lifecycle provider (Some e) (bl_run ops db1) = (bl_run ops db1, 200)"
proof -
  let ?e = "trimmed_event e"
  from assms(1) have ids: "provider \<noteq> []" "de_id ?e \<noteq> []" "de_type ?e \<noteq> []"
    by (auto simp: domestic_webhook_def Let_def split: if_splits)
  have "known_hook provider (de_id ?e) (bl_run ops db1)" using assms(2) bl_run_grows by (rule known_hook_later)
  moreover have "domestic_status ?e \<in> {''processed'', ''failed''}" by (simp add: domestic_status_def)
  ultimately have "record_webhook_event env' provider (de_id ?e) (de_type ?e) (domestic_status ?e) (bl_run ops db1) = (bl_run ops db1, Inr False)"
    using ids assms(3,4) by (auto simp: record_webhook_event_def Let_def known_hook_def or_default_def)
  with ids show ?thesis by (intro domestic_result) simp_all
qed

definition sample_domestic :: domestic_event where
  "sample_domestic = \<lparr>de_id = ''evt'', de_type = ''checkout.paid'', de_org = ''b'', de_user = ''bob'', de_intent = ''in'', de_order = [],
     de_package = [], de_kind = ''topup'', de_refund = [], de_charge = [], de_payment = ''pay'', de_subscription = [], de_customer = [],
     de_checkout = ''cs'', de_payout = [], de_provider_payout = [], de_amount = 50, de_currency = ''cny'', de_status = [], de_reason = [],
     de_cancel_at_end = False\<rparr>"

lemma sample_domestic_fields: "trimmed_event sample_domestic = sample_domestic" "domestic_status sample_domestic = ''processed''"
  "domestic_checkout_input sample_domestic = sample_topup_checkout"
  by code_simp+

lemma sample_domestic_refused:
  "\<exists>db1. domestic_webhook (calm_billing 3\<lparr>be_fault := \<lambda>c. c = BlUpdateQuota\<rparr>) True (Some False) ''alipay'' (Some sample_domestic)
     (sample_billing ''pending'') = (db1, 500) \<and> known_hook ''alipay'' ''evt'' db1"
proof -
  let ?env = "calm_billing 3\<lparr>be_fault := \<lambda>c. c = BlUpdateQuota\<rparr>"
  let ?i = "sample_topup_checkout\<lparr>ci_provider := ''alipay'', ci_kind := ''topup''\<rparr>"
  obtain h where rec: "record_webhook_event ?env ''alipay'' ''evt'' ''checkout.paid'' ''processed'' (sample_billing ''pending'')
      = (sample_billing ''pending''\<lparr>bl_webhooks := [h]\<rparr>, Inr True)"
    and h: "wh_provider h = ''alipay''" "wh_event h = ''evt''"
    by (simp add: record_webhook_event_def billing_samples or_default_def)
  have "snd (store_checkout_completed ?env ''evt'' ?i (sample_billing ''pending''\<lparr>bl_webhooks := [h]\<rparr>)) = Some (BlFault BlUpdateQuota)"
    by (simp add: billing_evals billing_samples)
  then obtain db2 where st: "store_checkout_completed ?env ''evt'' ?i (sample_billing ''pending''\<lparr>bl_webhooks := [h]\<rparr>) = (db2, Some (BlFault BlUpdateQuota))"
    by (metis prod.collapse)
  have "db2 = sample_billing ''pending''\<lparr>bl_webhooks := [h]\<rparr>"
    using st unfolding store_checkout_completed_def by (rule checkout.fails_unchanged)
  moreover have "lower_or ''domestic'' ''alipay'' = ''alipay''" "trim_space ''topup'' = ''topup''" by code_simp+
  moreover have "domestic_lifecycle ?env False ''alipay'' sample_domestic db = domestic_checkout_paid ?env False ''alipay'' ''evt'' sample_topup_checkout db" for db
    using sample_domestic_fields(3) by (simp add: domestic_lifecycle_def) (simp add: sample_domestic_def)
  ultimately show ?thesis using rec st h
    by (simp add: domestic_webhook_def sample_domestic_fields Let_def)
      (simp add: sample_domestic_def domestic_checkout_paid_def Let_def or_default_def sample_topup_checkout_def known_hook_def)
qed

theorem failed_domestic_event_is_lost_witness:
  "\<exists>db1. domestic_webhook (calm_billing 3\<lparr>be_fault := \<lambda>c. c = BlUpdateQuota\<rparr>) True (Some False) ''alipay'' (Some sample_domestic)
       (sample_billing ''pending'') = (db1, 500)
     \<and> domestic_webhook (calm_billing 60) True (Some False) ''alipay'' (Some sample_domestic) (bl_run [] db1) = (bl_run [] db1, 200)"
proof -
  obtain db1 where d: "domestic_webhook (calm_billing 3\<lparr>be_fault := \<lambda>c. c = BlUpdateQuota\<rparr>) True (Some False) ''alipay'' (Some sample_domestic)
       (sample_billing ''pending'') = (db1, 500)" "known_hook ''alipay'' ''evt'' db1"
    using sample_domestic_refused by blast
  then have "known_hook ''alipay'' (de_id (trimmed_event sample_domestic)) db1" unfolding sample_domestic_fields by (simp add: sample_domestic_def)
  from failed_domestic_event_is_lost [OF d(1) this, of "calm_billing 60" "Some False" "[]"]
  have "domestic_webhook (calm_billing 60) True (Some False) ''alipay'' (Some sample_domestic) (bl_run [] db1) = (bl_run [] db1, 200)"
    by (simp add: calm_billing_def)
  with d(1) show ?thesis by blast
qed

end
