(* ===== verification/Billing_Amounts.thy ===== *)
theory Billing_Amounts
  imports Billing_Flows
begin

text \<open>
  What is refunded stays within what was paid: an invariant of the payment intents over every run
  of deliveries, the marketplace's included.
\<close>

definition payments_ok :: "mp_db \<Rightarrow> bool" where
  "payments_ok m \<longleftrightarrow> distinct (List.map pi_id (md_intents m))
     \<and> (\<forall>p \<in> set (md_intents m). grid (pi_amount p) \<and> 0 \<le> pi_amount p \<and> pi_refunded p \<le> pi_amount p)
     \<and> (\<forall>w \<in> set (md_orders m). \<exists>p \<in> set (md_intents m). pi_id p = mo_intent w \<and> mo_gross w \<le> pi_amount p)"

lemma payments_ok_cong: "md_intents m' = md_intents m \<Longrightarrow> md_orders m' = md_orders m \<Longrightarrow> payments_ok m' = payments_ok m"
  by (simp add: payments_ok_def)

lemma payments_ok_map:
  assumes ok: "payments_ok m" and i: "md_intents m' = List.map g (md_intents m)" and h: "md_orders m' = List.map h (md_orders m)"
    and g: "\<And>p. p \<in> set (md_intents m) \<Longrightarrow> pi_id (g p) = pi_id p \<and> pi_amount (g p) = pi_amount p \<and> pi_refunded (g p) \<le> pi_amount p"
    and same: "\<And>w. mo_intent (h w) = mo_intent w \<and> mo_gross (h w) = mo_gross w"
  shows "payments_ok m'"
proof -
  have ids: "List.map pi_id (List.map g (md_intents m)) = List.map pi_id (md_intents m)" using g by simp
  have "distinct (List.map pi_id (md_intents m))" using ok by (simp add: payments_ok_def)
  then have "distinct (List.map pi_id (md_intents m'))" unfolding i ids .
  moreover have "\<forall>p \<in> set (md_intents m'). grid (pi_amount p) \<and> 0 \<le> pi_amount p \<and> pi_refunded p \<le> pi_amount p"
    using ok g unfolding i by (auto simp: payments_ok_def)
  moreover have "\<exists>p \<in> set (md_intents m'). pi_id p = mo_intent w \<and> mo_gross w \<le> pi_amount p" if "w \<in> set (md_orders m')" for w
  proof -
    from that obtain v where v: "v \<in> set (md_orders m)" "w = h v" unfolding h by auto
    with ok obtain p where "p \<in> set (md_intents m)" "pi_id p = mo_intent v" "mo_gross v \<le> pi_amount p"
      unfolding payments_ok_def by blast
    with g v same show ?thesis unfolding i by (intro bexI [of _ "g p"]) auto
  qed
  ultimately show ?thesis by (simp add: payments_ok_def)
qed

lemma payments_ok_amount: "payments_ok m \<Longrightarrow> p \<in> set (md_intents m) \<Longrightarrow> dec6 (pi_amount p) = pi_amount p"
  by (simp add: payments_ok_def grid_dec6)

lemma payments_ok_id: "payments_ok m \<Longrightarrow> p \<in> set (md_intents m) \<Longrightarrow> q \<in> set (md_intents m) \<Longrightarrow> pi_id p = pi_id q \<Longrightarrow> p = q"
  by (auto simp: payments_ok_def distinct_map dest: inj_onD)

lemma dec6_below: "x \<le> y \<Longrightarrow> 0 \<le> y \<Longrightarrow> dec6 y = y \<Longrightarrow> dec6 x \<le> y"
proof (cases "0 \<le> x")
  case False
  then have "0 \<le> \<lfloor>- x * 1000000 + 1 / 2\<rfloor>" by simp
  with False have "dec6 x \<le> 0" by (simp add: dec6_def)
  then show "0 \<le> y \<Longrightarrow> dec6 x \<le> y" by simp
qed (metis dec6_mono)

lemma capped_below: "0 \<le> limit \<Longrightarrow> dec6 limit = limit \<Longrightarrow> dec6 (capped_refund prior amt limit) \<le> limit"
  by (rule dec6_below) (simp_all add: capped_refund_def)

subsection \<open>The effects keep it\<close>

lemma intents_payments_ok:
  assumes "payments_ok (bl_market db)"
    and "\<And>p. p \<in> set (bl_intents db) \<Longrightarrow> pi_id (g p) = pi_id p \<and> pi_amount (g p) = pi_amount p \<and> pi_refunded (g p) \<le> pi_amount p"
  shows "payments_ok (bl_market (set_intents (List.map g (bl_intents db)) db))"
  by (rule payments_ok_map [OF assms(1), where g = g and h = "\<lambda>w. w"]) (simp_all add: set_intents_def assms(2))

lemma rewrite_payments_ok:
  assumes "payments_ok (bl_market db)" and "\<And>p. pi_id (f p) = pi_id p \<and> pi_amount (f p) = pi_amount p \<and> pi_refunded (f p) = pi_refunded p"
  shows "payments_ok (bl_market (set_intents (List.map (\<lambda>p. if P p then f p else p) (bl_intents db)) db))"
proof (rule intents_payments_ok [OF assms(1)])
  fix p
  assume "p \<in> set (bl_intents db)"
  with assms(1) have "pi_refunded p \<le> pi_amount p" by (simp add: payments_ok_def)
  with assms(2) [of p] show "pi_id (if P p then f p else p) = pi_id p \<and> pi_amount (if P p then f p else p) = pi_amount p
    \<and> pi_refunded (if P p then f p else p) \<le> pi_amount p" by simp
qed

lemma add_event_payments [simp]: "payments_ok (bl_market (add_event e db)) = payments_ok (bl_market db)"
  by (rule payments_ok_cong) (simp_all add: add_event_def)

lemma checkout_payments:
  assumes "checkout_effects env i tx = Inr tx'" "payments_ok (bl_market tx)"
  shows "payments_ok (bl_market tx')"
proof -
  have base: "payments_ok (bl_market (complete_intents env j tx))" for j
    unfolding complete_intents_def sql_update_rows using assms(2) by (rule rewrite_payments_ok) (simp add: completed_intent_def)
  from assms(1) show ?thesis
  proof (cases rule: checkout_cases)
    case (sub p)
    with subscription_checkout_frame(1) [OF sub(3)] base show ?thesis by simp
  next
    case (topup p)
    with topup_checkout_frame(1) [OF topup(3)] base show ?thesis by simp
  qed
qed

lemma invoice_payments:
  assumes "invoice_effects env i paid tx = Inr tx'" "payments_ok (bl_market tx)"
  shows "payments_ok (bl_market tx')"
  using assms(1)
proof (cases rule: invoice_cases)
  case (1 sub intent tx1 tx2)
  have tx2: "payments_ok (bl_market tx2)"
    using assms(2) upsert_invoice_frame(1) [OF 1(1)] on_subscription_frame(1) [OF 1(2)] by simp
  have "payments_ok (bl_market (set_intents (List.map (\<lambda>p. if pi_id p = intent
      then (if paid then paid_intent env i else unpaid_intent env i) p else p) (bl_intents tx2)) tx2))"
    using tx2 by (rule rewrite_payments_ok) (simp add: paid_intent_def unpaid_intent_def)
  with on_intent_rows [OF 1(3)] tx2 show ?thesis by auto
qed

lemma refund_intents_payments:
  assumes ok: "payments_ok (bl_market tx)" and p: "p \<in> set (bl_intents tx)"
  shows "payments_ok (bl_market (refund_intents env i p tx))"
  unfolding refund_intents_def sql_update_rows using ok
proof (rule intents_payments_ok)
  fix q
  assume q: "q \<in> set (bl_intents tx)"
  have "0 \<le> pi_amount p" using ok p by (simp add: payments_ok_def)
  then have "dec6 (capped_refund (pi_refunded p) (ri_amount i) (pi_amount p)) \<le> pi_amount p"
    using payments_ok_amount [OF ok p] by (rule capped_below)
  moreover have "pi_refunded q \<le> pi_amount q" using ok q by (simp add: payments_ok_def)
  ultimately show "pi_id (if pi_id q = pi_id p then refunded_intent env i p q else q) = pi_id q
    \<and> pi_amount (if pi_id q = pi_id p then refunded_intent env i p q else q) = pi_amount q
    \<and> pi_refunded (if pi_id q = pi_id p then refunded_intent env i p q else q) \<le> pi_amount q"
    using payments_ok_id [OF ok q p] by (auto simp: refunded_intent_def)
qed

lemma refund_payments:
  assumes "refund_effects env i tx = Inr tx'" "payments_ok (bl_market tx)"
  shows "payments_ok (bl_market tx')"
  using assms(1)
proof (cases rule: refund_effects_cases)
  case (plain p tx1)
  with upsert_refund_frame(1) [OF plain(4)] assms(2) show ?thesis by (simp add: refund_intents_payments)
next
  case (topup p t tx1)
  have "payments_ok (bl_market (refund_intents env i p tx1))"
    using topup(2) upsert_refund_frame(1) [OF topup(5)] assms(2) by (simp add: refund_intents_payments)
  with refund_topup_frame(1) [OF topup(6)] show ?thesis by simp
qed

subsection \<open>The deliveries keep it\<close>

lemma with_transition_payments:
  assumes "payments_ok (bl_market db)"
    and "\<And>tx tx'. effects tx = Inr tx' \<Longrightarrow> payments_ok (bl_market tx) \<Longrightarrow> payments_ok (bl_market tx')"
  shows "payments_ok (bl_market (fst (with_transition env e effects db)))"
proof -
  obtain db' r where w: "with_transition env e effects db = (db', r)" by fastforce
  then have "payments_ok (bl_market db')"
  proof (rule with_transition_cases)
    assume "effects (add_event e db) = Inr db'"
    then show ?thesis by (rule assms(2)) (simp add: assms(1))
  qed (simp_all add: assms(1))
  with w show ?thesis by simp
qed

lemma stores_payments:
  assumes "payments_ok (bl_market db)"
  shows "payments_ok (bl_market (fst (store_checkout_completed env ev ci db)))" "payments_ok (bl_market (fst (store_invoice env ev ii paid db)))"
    "payments_ok (bl_market (fst (store_subscription env ev type si db)))" "payments_ok (bl_market (fst (store_refund env ev ri db)))"
  unfolding store_checkout_completed_def store_invoice_def store_subscription_def store_refund_def
  using assms by (rule with_transition_payments; auto dest: checkout_payments invoice_payments refund_payments simp: subscription_effects_frame)+

lemma subscription_stores_payments:
  assumes "payments_ok (bl_market db)"
  shows "payments_ok (bl_market (fst (store_subscription_updated env ev si db)))"
    "payments_ok (bl_market (fst (store_subscription_deleted env ev si db)))"
  using assms by (simp_all add: store_subscription_updated_def store_subscription_deleted_def stores_payments)

lemma market_changes_payments:
  "changes_by body m m' \<Longrightarrow> payments_ok m \<Longrightarrow> (\<And>tx x. body m = Inr (tx, x) \<Longrightarrow> payments_ok tx) \<Longrightarrow> payments_ok m'"
  by (auto simp: changes_by_def)

lemma market_completed_payments:
  assumes ok: "payments_ok m"
  shows "payments_ok (fst (apply_checkout_completed env c m))"
  using completed_changes ok
proof (rule market_changes_payments)
  fix tx oid
  assume "completed_tx env c m = Inr (tx, oid)"
  then show "payments_ok tx"
  proof (cases rule: completed_cases)
    case (2 w p)
    from fulfil_rows [OF 2(5)] obtain install where
      f: "fulfilled env c w install (m\<lparr>md_events := md_events m @ [checkout_event env c w p]\<rparr>) tx" ..
    show ?thesis
      by (rule payments_ok_map [OF ok, where h = "\<lambda>x. if mo_id x = mo_id w then paid_order env c install x else x" and
            g = "\<lambda>p. if pi_id p = mo_intent w then p\<lparr>pi_status := ''completed'', pi_checkout := set_unless_empty (cc_checkout c) (pi_checkout p),
              pi_payment := set_unless_empty (cc_payment c) (pi_payment p), pi_updated := me_now env\<rparr> else p"])
        (use f ok in \<open>auto simp: fulfilled_def paid_order_def payments_ok_def\<close>)
  qed (simp add: ok)
qed

lemma market_refund_payments:
  assumes ok: "payments_ok m"
  shows "payments_ok (fst (apply_marketplace_refund env r m))"
proof -
  have "payments_ok tx" if "refund_tx env r m = Inr (tx, u)" for tx u
    using that
  proof (cases rule: market_refund_cases)
    case (2 w p)
    have "w \<in> set (md_orders m)" using joined [OF 2(1)] by simp
    then obtain q where q: "q \<in> set (md_intents m)" "pi_id q = mo_intent w" "mo_gross w \<le> pi_amount q"
      using ok unfolding payments_ok_def by blast
    have "refunded_total r w \<le> pi_amount q" using q(3) by (simp add: refunded_total_def)
    then have cap: "dec6 (refunded_total r w) \<le> pi_amount q"
      using ok q(1) by (intro dec6_below) (auto simp: payments_ok_amount payments_ok_def)
    have below: "pi_refunded (if pi_id x = mo_intent w then x\<lparr>pi_status := refund_order_status (refunded_total r w) w,
        pi_refunded := dec6 (refunded_total r w), pi_updated := me_now env\<rparr> else x) \<le> pi_amount x" if "x \<in> set (md_intents m)" for x
    proof (cases "pi_id x = mo_intent w")
      case True
      with payments_ok_id [OF ok that q(1)] q(2) have "x = q" by simp
      with True cap show ?thesis by simp
    next
      case False
      with ok that show ?thesis by (simp add: payments_ok_def)
    qed
    show ?thesis
      by (rule payments_ok_map [OF ok, where h = "\<lambda>x. if mo_id x = mo_id w then x\<lparr>mo_status := refund_order_status (refunded_total r w) w,
            mo_refunded := dec6 (refunded_total r w), mo_updated := me_now env\<rparr> else x" and
            g = "\<lambda>x. if pi_id x = mo_intent w then x\<lparr>pi_status := refund_order_status (refunded_total r w) w,
            pi_refunded := dec6 (refunded_total r w), pi_updated := me_now env\<rparr> else x"])
        (use below in \<open>auto simp: 2(4) refund_rows_def sql_update_rows\<close>)
  qed (simp add: ok)
  moreover have "changes_by (refund_tx env r) m (fst (apply_marketplace_refund env r m))"
    using changes_refl by (simp add: apply_marketplace_refund_def changes_tx)
  ultimately show ?thesis using ok market_changes_payments by blast
qed

lemma payout_lifecycle_payments:
  assumes "payout_lifecycle_tx env e to m = Inr (tx, u)" "payments_ok m"
  shows "payments_ok tx"
proof -
  from assms(1) obtain p provider ref tx1 inserted where
    ins: "insert_transition env (payout_lifecycle_event env e provider to p) m = Inr (tx1, inserted)"
    and rest: "(if \<not> inserted then Inr (tx1, po_id p) else try_step (payout_transition env e to ref p tx1) (\<lambda>tx2. Inr (tx2, po_id p))) = Inr (tx, u)"
    unfolding payout_lifecycle_tx_def by (auto simp: step_simps)
  from insert_transition_rows [OF ins] have "md_intents tx1 = md_intents m" "md_orders tx1 = md_orders m" by (cases inserted; simp)+
  moreover from rest have "md_intents tx = md_intents tx1" "md_orders tx = md_orders tx1"
    by (cases inserted; auto simp: payout_transition_def step_simps)+
  ultimately show ?thesis using assms(2) payments_ok_cong [of tx m] by simp
qed

lemma market_payout_payments:
  assumes "payments_ok m"
  shows "payments_ok (fst (apply_provider_payout_lifecycle env e m))"
proof -
  from lifecycle_changes [of env e m] consider "fst (apply_provider_payout_lifecycle env e m) = m"
    | to where "changes_by (payout_lifecycle_tx env e to) m (fst (apply_provider_payout_lifecycle env e m))" by blast
  then show ?thesis
  proof cases
    case 2
    then show ?thesis using assms by (rule market_changes_payments) (rule payout_lifecycle_payments [OF _ assms])
  qed (simp add: assms)
qed

lemma reconcile_payments:
  assumes "payments_ok (bl_market db)"
  shows "payments_ok (bl_market (fst (reconcile_checkout env market c db)))" "payments_ok (bl_market (fst (reconcile_refund env market r db)))"
proof -
  obtain m s where a: "apply_checkout_completed (be_market env) c (bl_market db) = (m, s)" by fastforce
  then have "payments_ok m" using market_completed_payments [OF assms, of "be_market env" c] by simp
  with a assms show "payments_ok (bl_market (fst (reconcile_checkout env market c db)))"
    by (cases s) (simp_all add: reconcile_checkout_def)
  obtain m' s' where b: "apply_marketplace_refund (be_market env) r (bl_market db) = (m', s')" by fastforce
  then have "payments_ok m'" using market_refund_payments [OF assms, of "be_market env" r] by simp
  with b assms show "payments_ok (bl_market (fst (reconcile_refund env market r db)))"
    by (cases s') (simp_all add: reconcile_refund_def)
qed

lemma payout_payments:
  assumes "payments_ok (bl_market db)"
  shows "payments_ok (bl_market (fst (domestic_payout env market provider e db)))"
proof -
  let ?e = "\<lparr>pv_provider = provider, pv_event = de_id e, pv_type = de_type e, pv_payout = trim_space (de_payout e),
    pv_ref = trim_space (de_provider_payout e), pv_status = trim_space (de_status e), pv_reason = trim_space (de_reason e)\<rparr>"
  obtain m r where a: "apply_provider_payout_lifecycle (be_market env) ?e (bl_market db) = (m, r)" by fastforce
  then have "payments_ok m" using market_payout_payments [OF assms, of "be_market env" ?e] by simp
  with a assms show ?thesis by (cases r) (simp_all add: domestic_payout_def)
qed

lemma refund_then_market_payments:
  assumes "payments_ok (bl_market db)"
  shows "payments_ok (bl_market (fst (refund_then_market env market ev i db)))"
proof -
  obtain db1 r where s: "store_refund env ev i db = (db1, r)" by fastforce
  then have "payments_ok (bl_market db1)" using stores_payments(4) [OF assms, of env ev i] by simp
  with s reconcile_payments(2) show ?thesis by (cases r) (simp_all add: refund_then_market_def)
qed

lemma event_payments:
  assumes "payments_ok (bl_market db)"
  shows "payments_ok (bl_market (fst (apply_checkout_event env market ev ci db)))"
    "payments_ok (bl_market (fst (apply_refund_event env market ev ri db)))"
    "payments_ok (bl_market (fst (apply_stripe_event env market sev db)))"
  using assms by (simp_all add: apply_stripe_event_def apply_refund_event_def apply_checkout_event_def stores_payments reconcile_payments
      subscription_stores_payments refund_then_market_payments split: sum.split)

lemma domestic_payments:
  "payments_ok (bl_market db) \<Longrightarrow> payments_ok (bl_market (fst (domestic_lifecycle env market provider e db)))"
  by (simp add: domestic_lifecycle_def domestic_checkout_paid_def domestic_refund_def domestic_subscription_def Let_def
      event_payments stores_payments subscription_stores_payments refund_then_market_payments payout_payments)

lemma record_payments: "bl_market (fst (record_webhook_event env provider event type status db)) = bl_market db"
  by (simp add: record_webhook_event_def Let_def)

lemma stripe_webhook_payments:
  assumes "payments_ok (bl_market db)"
  shows "payments_ok (bl_market (fst (stripe_webhook env lifecycle verified db)))"
proof (cases verified)
  case (Some ev)
  obtain db1 r where rec: "record_webhook_event env ''stripe'' (ev_id ev) (ev_type ev) (webhook_status ev) db = (db1, r)"
    by fastforce
  then have 1: "payments_ok (bl_market db1)" using record_payments [of env] assms by (metis fst_conv)
  obtain db2 e where ap: "apply_stripe_event env (the lifecycle) ev db1 = (db2, e)" by fastforce
  then have "payments_ok (bl_market db2)" using event_payments(3) [OF 1, of env "the lifecycle" ev] by simp
  with 1 rec Some ap show ?thesis by (cases r; cases lifecycle; cases e) (simp_all add: stripe_webhook_def)
qed (simp add: stripe_webhook_def assms)

lemma domestic_webhook_payments:
  assumes "payments_ok (bl_market db)"
  shows "payments_ok (bl_market (fst (domestic_webhook env configured lifecycle provider verified db)))"
proof (cases verified)
  case (Some e0)
  define e where "e = trimmed_event e0"
  obtain db1 r where rec: "record_webhook_event env provider (de_id e) (de_type e) (domestic_status e) db = (db1, r)" by fastforce
  then have 1: "payments_ok (bl_market db1)" using record_payments [of env] assms by (metis fst_conv)
  obtain db2 f where ap: "domestic_lifecycle env (the lifecycle) provider e db1 = (db2, f)" by fastforce
  then have 2: "payments_ok (bl_market db2)" using domestic_payments [OF 1, of env "the lifecycle" provider e] by simp
  show ?thesis
  proof (cases r)
    case (Inl err)
    with assms rec 1 Some show ?thesis by (simp add: domestic_webhook_def Let_def e_def)
  next
    case (Inr new)
    with assms rec 1 2 ap Some show ?thesis
      by (cases lifecycle; cases f) (simp_all add: domestic_webhook_def Let_def e_def)
  qed
qed (simp add: domestic_webhook_def assms)

subsection \<open>Runs keep it\<close>

lemma created_payments:
  assumes ok: "payments_ok (bl_market db)" and "0 \<le> pi_amount p"
  shows "payments_ok (bl_market (fst (create_payment_intent env p db)))"
proof -
  let ?row = "stored_intent (default_intent env p)"
  have row: "pi_refunded ?row = 0" "grid (pi_amount ?row)" "0 \<le> pi_amount ?row"
    using assms(2) by (simp_all add: stored_intent_def default_intent_def dec6_nonneg)
  have "payments_ok (bl_market (set_intents (bl_intents db @ [?row]) db))"
    if "\<not> list_ex (\<lambda>q. pi_id q = pi_id ?row \<or> (pi_checkout ?row \<noteq> None \<and> pi_checkout q = pi_checkout ?row)) (bl_intents db)"
  proof -
    from that have "pi_id ?row \<notin> set (List.map pi_id (bl_intents db))" by (auto simp: list_ex_iff)
    with ok row show ?thesis by (auto simp: payments_ok_def set_intents_def)
  qed
  with ok show ?thesis by (simp add: create_payment_intent_def Let_def)
qed

lemma checkout_set_payments:
  assumes "payments_ok (bl_market db)"
  shows "payments_ok (bl_market (fst (set_intent_checkout env intent session meta db)))"
proof -
  have "payments_ok (bl_market (set_intents (List.map (\<lambda>q. if pi_id q = intent
      then q\<lparr>pi_checkout := Some session, pi_meta := meta, pi_updated := be_now env\<rparr> else q) (bl_intents db)) db))"
    using assms by (rule rewrite_payments_ok) simp
  with assms show ?thesis by (simp add: set_intent_checkout_def Let_def split_beta sql_update_rows)
qed

lemma failed_payments:
  assumes "payments_ok (bl_market db)"
  shows "payments_ok (bl_market (fst (mark_intent_failed env intent reason db)))"
proof -
  have "payments_ok (bl_market (set_intents (List.map (\<lambda>q. if pi_id q = intent \<and> pi_status q = ''pending''
      then q\<lparr>pi_status := ''failed'', pi_meta := (if reason = [] then pi_meta q else (pi_meta q)(''checkout_failure_reason'' \<mapsto> MetaText reason)),
             pi_updated := be_now env\<rparr> else q) (bl_intents db)) db))"
    using assms by (rule rewrite_payments_ok) simp
  with assms show ?thesis by (simp add: mark_intent_failed_def Let_def split_beta sql_update_rows)
qed

text \<open>Intents are created with an amount that is not negative.\<close>

fun sane_op :: "bl_op \<Rightarrow> bool" where
  "sane_op (IntentCreate env p) \<longleftrightarrow> 0 \<le> pi_amount p"
| "sane_op _ \<longleftrightarrow> True"

lemma bl_step_payments: "payments_ok (bl_market db) \<Longrightarrow> sane_op x \<Longrightarrow> payments_ok (bl_market (bl_step x db))"
  by (cases x) (simp_all add: stripe_webhook_payments domestic_webhook_payments created_payments checkout_set_payments failed_payments)

lemma bl_run_payments: "payments_ok (bl_market db) \<Longrightarrow> list_all sane_op xs \<Longrightarrow> payments_ok (bl_market (bl_run xs db))"
  by (induction xs arbitrary: db) (simp_all add: bl_step_payments)

text \<open>
  C23. No run of deliveries records more refunded on a payment intent than was paid on it: whatever
  events of Stripe and of the domestic providers arrive, in whatever order, repeated, refused
  half-way or refunding more than was paid, for top-ups, subscriptions and paid installs, the
  refunded amount of every intent stays at or below its amount and intents stay one row each.
\<close>

theorem refunds_stay_within_payments:
  assumes "payments_ok (bl_market db)" and "list_all sane_op ops" and "p \<in> set (bl_intents (bl_run ops db))"
  shows "pi_refunded p \<le> pi_amount p \<and> distinct (List.map pi_id (bl_intents (bl_run ops db)))"
  using bl_run_payments [OF assms(1,2)] assms(3) by (simp add: payments_ok_def)

lemma sample_billing_payments: "payments_ok (bl_market (sample_billing status))"
proof -
  have "dec6 50 = 50" by code_simp
  then show ?thesis by (simp add: payments_ok_def sample_billing_def sample_topup_intent_def grid_def)
qed

definition sample_refund_event :: stripe_event where
  "sample_refund_event = \<lparr>ev_id = ''evt_r'', ev_type = ''refund.created'', ev_data = Decoded (sample_session\<lparr>so_id := ''re'',
     so_meta := (so_meta sample_session)(''payment_intent_id'' \<mapsto> ''in''), so_amount := 8000\<rparr>)\<rparr>"

definition sample_event_refund :: refund_input where
  "sample_event_refund = sample_topup_refund\<lparr>ri_payment := ''pay'', ri_status := ''succeeded''\<rparr>"

lemma sample_refund_parsed: "parse_refund sample_refund_event = Inr sample_event_refund"
  by (simp add: parse_refund_def decoded_def sample_refund_event_def sample_session_def sample_event_refund_def sample_topup_refund_def
      meta_of_def coalesce_empty_def or_default_def fail_if_def Let_def cents_to_amount_def)

lemma sample_event_refund_stored:
  "bl_intents (fst (store_refund (calm_billing 5) ''evt_r'' sample_event_refund (sample_billing ''paid''\<lparr>bl_webhooks := hooks\<rparr>)))
     = [sample_topup_intent\<lparr>pi_status := intent_refund_status (capped_refund 0 80 50) 50, pi_refunded := dec6 (capped_refund 0 80 50),
         pi_updated := 5\<rparr>]"
  "snd (store_refund (calm_billing 5) ''evt_r'' sample_event_refund (sample_billing ''paid''\<lparr>bl_webhooks := hooks\<rparr>)) = None"
  by (simp_all add: store_refund_def with_transition_def refund_transition_def transition_event_def refund_effects_def load_refund_topup_def
      upsert_refund_def refund_row_of_def refund_topup_def refund_intents_def find_intent_id_def billing_evals billing_samples
      sample_topup_refund_def sample_event_refund_def refunded_intent_def)

lemma sample_refund_run:
  "bl_intents (bl_run [HookStripe (calm_billing 5) (Some False) (Some sample_refund_event)] (sample_billing ''paid''))
     = [sample_topup_intent\<lparr>pi_status := ''refunded'', pi_refunded := 50, pi_updated := 5\<rparr>]"
proof -
  obtain h where rec: "record_webhook_event (calm_billing 5) ''stripe'' (ev_id sample_refund_event) (ev_type sample_refund_event)
      (webhook_status sample_refund_event) (sample_billing ''paid'') = (sample_billing ''paid''\<lparr>bl_webhooks := [h]\<rparr>, Inr True)"
    by (simp add: record_webhook_event_def webhook_status_def sample_refund_event_def billing_samples or_default_def)
  have "apply_stripe_event (calm_billing 5) False sample_refund_event = store_refund (calm_billing 5) ''evt_r'' sample_event_refund"
    using sample_refund_parsed
    by (auto simp: apply_stripe_event_def apply_refund_event_def sample_refund_event_def sample_event_refund_def sample_topup_refund_def)
  moreover obtain db2 where st: "store_refund (calm_billing 5) ''evt_r'' sample_event_refund (sample_billing ''paid''\<lparr>bl_webhooks := [h]\<rparr>) = (db2, None)"
    using sample_event_refund_stored(2) [of "[h]"] by (metis prod.collapse)
  ultimately have "bl_run [HookStripe (calm_billing 5) (Some False) (Some sample_refund_event)] (sample_billing ''paid'') = db2"
    using rec by (simp add: stripe_webhook_def)
  moreover have "dec6 (capped_refund 0 80 50) = 50" "intent_refund_status (capped_refund 0 80 50) 50 = ''refunded''" by code_simp+
  ultimately show ?thesis using sample_event_refund_stored(1) [of "[h]"] st by simp
qed

text \<open>A refund of 80 on a payment of 50: 50 are recorded.\<close>

theorem refunds_stay_within_payments_witness:
  "pi_refunded (sample_topup_intent\<lparr>pi_status := ''refunded'', pi_refunded := 50, pi_updated := 5\<rparr>) \<le> 50
     \<and> distinct (List.map pi_id (bl_intents (bl_run [HookStripe (calm_billing 5) (Some False) (Some sample_refund_event)] (sample_billing ''paid''))))"
proof -
  let ?p = "sample_topup_intent\<lparr>pi_status := ''refunded'', pi_refunded := 50, pi_updated := 5\<rparr>"
  let ?ops = "[HookStripe (calm_billing 5) (Some False) (Some sample_refund_event)]"
  have "list_all sane_op ?ops" by simp
  moreover have "?p \<in> set (bl_intents (bl_run ?ops (sample_billing ''paid'')))" unfolding sample_refund_run by simp
  ultimately have "pi_refunded ?p \<le> pi_amount ?p \<and> distinct (List.map pi_id (bl_intents (bl_run ?ops (sample_billing ''paid''))))"
    by (rule refunds_stay_within_payments [OF sample_billing_payments])
  then show ?thesis by (simp add: sample_topup_intent_def)
qed

end
