(* ===== verification/Schedule_Store.thy ===== *)
theory Schedule_Store
  imports Prelude "HOL-Library.Product_Lexorder"
begin

text \<open>
  Scheduled tasks: \<open>src/server/internal/schedule/store.go\<close>, the tables \<open>scheduled_tasks\<close> and
  \<open>scheduled_task_runs\<close> and every statement and transaction over them. The environment gives the
  clock, new identifiers (\<open>auth.NewID\<close> may fail), the driver calls that fail, the task rows another
  transaction has locked, and the cron library: for an expression it accepts, the function that
  gives the next time after a time. A call is told apart by its kind and the row it is for.

  Deleting a task deletes its runs (\<open>ON DELETE CASCADE\<close>). Identifiers are ordered bytewise. The
  organization's foreign key and the length limits are not modelled, nor the rows that
  \<open>SyncWorkflowScheduledTasks\<close> returns, which its caller drops.
\<close>

record sched_task =
  st_id :: string
  st_org :: string
  st_name :: string
  st_type :: string
  st_target :: string
  st_trigger :: "string option"
  st_cron :: string
  st_enabled :: bool
  st_last :: "gotime option"
  st_next :: "gotime option"
  st_created :: gotime
  st_updated :: gotime

record sched_run =
  sr_id :: string
  sr_org :: string
  sr_task :: string
  sr_status :: string
  sr_started :: "gotime option"
  sr_finished :: "gotime option"
  sr_error :: string
  sr_created :: gotime
  sr_updated :: gotime

record sched_db =
  sd_tasks :: "sched_task list"
  sd_runs :: "sched_run list"

datatype sched_call =
    ScInsertTask | ScBegin | ScUpsertTask | ScDeleteTasks | ScCommit | ScListTasks | ScGetTask | ScEnableTask
  | ScSelectDue | ScInsertRun | ScRecordRun | ScEndRun | ScMoveTask | ScMoveRows | ScUpdateRun | ScListRuns | ScCountRuns

datatype sched_error =
    ScFault sched_call | ScNoId | ScNoRows | ScDuplicate | ScNoOrganization | ScBadStatus | ScNoName | ScNoTaskId
  | ScNoTarget | ScBadTargetType | ScBadCron | ScCronSyntax | ScNoStarter | ScNoWorkflowStarter | ScNoAgentStarter
  | ScNotReady | ScTarget string | ScExecutionFailed string

datatype sched_gate = GateClaim | GateStart | GateContinue | GateAgent

record sched_env =
  sc_clock :: "string \<Rightarrow> gotime"
  sc_new_id :: "string \<Rightarrow> string option"
  sc_fault :: "sched_call \<Rightarrow> string \<Rightarrow> bool"
  sc_locked :: "sched_task \<Rightarrow> bool"
  sc_cron :: "string \<Rightarrow> (gotime \<Rightarrow> gotime) option"
  sc_text :: "sched_error \<Rightarrow> string"
  sc_refuses :: "sched_gate \<Rightarrow> string \<Rightarrow> bool"

definition sc_call :: "sched_env \<Rightarrow> sched_call \<Rightarrow> string \<Rightarrow> sched_error + unit" where
  "sc_call env c key = fail_if (sc_fault env c key) (ScFault c)"

definition utc_or_now :: "sched_env \<Rightarrow> string \<Rightarrow> gotime \<Rightarrow> gotime" where
  "utc_or_now env key t = (if t = zero_time then sc_clock env key else t)"

text \<open>A transaction: rolled back on an error of its body or of the commit.\<close>

definition sched_tx :: "sched_env \<Rightarrow> string \<Rightarrow> (sched_db \<Rightarrow> sched_error + (sched_db \<times> 'a)) \<Rightarrow> sched_db \<Rightarrow> sched_db \<times> (sched_error + 'a)" where
  "sched_tx env key body db =
     (if sc_fault env ScBegin key then (db, Inl (ScFault ScBegin))
      else case body db of
             Inl e \<Rightarrow> (db, Inl e)
           | Inr (tx, x) \<Rightarrow> if sc_fault env ScCommit key then (db, Inl (ScFault ScCommit)) else (tx, Inr x))"

subsection \<open>Tasks\<close>

record create_task_input =
  cti_org :: string
  cti_name :: string
  cti_type :: string
  cti_target :: string
  cti_cron :: string
  cti_enabled :: bool
  cti_now :: gotime
  cti_next :: "gotime option"

definition new_task :: "sched_env \<Rightarrow> string \<Rightarrow> create_task_input \<Rightarrow> sched_task" where
  "new_task env i c =
     \<lparr>st_id = i, st_org = cti_org c, st_name = cti_name c, st_type = cti_type c, st_target = cti_target c, st_trigger = None,
      st_cron = cti_cron c, st_enabled = cti_enabled c, st_last = None, st_next = cti_next c,
      st_created = sc_clock env [], st_updated = sc_clock env []\<rparr>"

definition create_scheduled_task :: "sched_env \<Rightarrow> create_task_input \<Rightarrow> sched_db \<Rightarrow> sched_db \<times> (sched_error + sched_task)" where
  "create_scheduled_task env c db =
     (case sc_new_id env [] of
        None \<Rightarrow> (db, Inl ScNoId)
      | Some i \<Rightarrow>
          if sc_fault env ScInsertTask [] then (db, Inl (ScFault ScInsertTask))
          else if list_ex (\<lambda>t. st_id t = i) (sd_tasks db) then (db, Inl ScDuplicate)
          else (db\<lparr>sd_tasks := sd_tasks db @ [new_task env i c]\<rparr>, Inr (new_task env i c)))"

record trigger_input =
  tri_id :: string
  tri_name :: string
  tri_cron :: string
  tri_enabled :: bool
  tri_next :: "gotime option"

record sync_input =
  syn_org :: string
  syn_workflow :: string
  syn_triggers :: "trigger_input list"
  syn_now :: gotime

definition of_workflow :: "string \<Rightarrow> string \<Rightarrow> sched_task \<Rightarrow> bool" where
  "of_workflow org wid t \<longleftrightarrow> st_org t = org \<and> st_type t = ''workflow'' \<and> st_target t = wid \<and> st_trigger t \<noteq> None"

definition of_trigger :: "string \<Rightarrow> string \<Rightarrow> string \<Rightarrow> sched_task \<Rightarrow> bool" where
  "of_trigger org wid trig t \<longleftrightarrow> of_workflow org wid t \<and> st_trigger t = Some trig"

definition trigger_task :: "string \<Rightarrow> sync_input \<Rightarrow> gotime \<Rightarrow> trigger_input \<Rightarrow> sched_task" where
  "trigger_task i s now tr =
     \<lparr>st_id = i, st_org = syn_org s, st_name = tri_name tr, st_type = ''workflow'', st_target = syn_workflow s,
      st_trigger = Some (tri_id tr), st_cron = tri_cron tr, st_enabled = tri_enabled tr, st_last = None,
      st_next = tri_next tr, st_created = now, st_updated = now\<rparr>"

definition resync_task :: "gotime \<Rightarrow> trigger_input \<Rightarrow> sched_task \<Rightarrow> sched_task" where
  "resync_task now tr t =
     t\<lparr>st_name := tri_name tr, st_cron := tri_cron tr, st_enabled := tri_enabled tr, st_next := tri_next tr, st_updated := now\<rparr>"

definition upsert_trigger :: "sched_env \<Rightarrow> sync_input \<Rightarrow> gotime \<Rightarrow> trigger_input \<Rightarrow> sched_task list \<Rightarrow> sched_error + sched_task list" where
  "upsert_trigger env s now tr ts =
     try_step (or_error ScNoId (sc_new_id env (tri_id tr))) (\<lambda>i.
     try_step (sc_call env ScUpsertTask (tri_id tr)) (\<lambda>_.
     (let same = of_trigger (syn_org s) (syn_workflow s) (tri_id tr)
      in if list_ex same ts then Inr (fst (sql_update same (resync_task now tr) ts))
         else if list_ex (\<lambda>t. st_id t = i) ts then Inl ScDuplicate
         else Inr (ts @ [trigger_task i s now tr]))))"

fun upsert_triggers :: "sched_env \<Rightarrow> sync_input \<Rightarrow> gotime \<Rightarrow> trigger_input list \<Rightarrow> sched_task list \<Rightarrow> sched_error + sched_task list" where
  "upsert_triggers env s now [] ts = Inr ts"
| "upsert_triggers env s now (tr # trs) ts = try_step (upsert_trigger env s now tr ts) (upsert_triggers env s now trs)"

text \<open>The rows a sync deletes, with the runs that go with them.\<close>

definition stale_trigger :: "sync_input \<Rightarrow> sched_task \<Rightarrow> bool" where
  "stale_trigger s t \<longleftrightarrow>
     of_workflow (syn_org s) (syn_workflow s) t
     \<and> (syn_triggers s \<noteq> [] \<longrightarrow> (\<forall>tr \<in> set (syn_triggers s). st_trigger t \<noteq> Some (tri_id tr)))"

definition delete_tasks :: "(sched_task \<Rightarrow> bool) \<Rightarrow> sched_db \<Rightarrow> sched_db" where
  "delete_tasks P db =
     db\<lparr>sd_tasks := filter (\<lambda>t. \<not> P t) (sd_tasks db),
        sd_runs := filter (\<lambda>r. \<not> list_ex (\<lambda>t. P t \<and> st_id t = sr_task r) (sd_tasks db)) (sd_runs db)\<rparr>"

definition sync_workflow_tasks :: "sched_env \<Rightarrow> sync_input \<Rightarrow> sched_db \<Rightarrow> sched_db \<times> (sched_error + unit)" where
  "sync_workflow_tasks env s db =
     sched_tx env [] (\<lambda>tx.
       try_step (upsert_triggers env s (utc_or_now env [] (syn_now s)) (syn_triggers s) (sd_tasks tx)) (\<lambda>ts.
       try_step (sc_call env ScDeleteTasks []) (\<lambda>_.
       Inr (delete_tasks (stale_trigger s) (tx\<lparr>sd_tasks := ts\<rparr>), ())))) db"

definition task_key :: "string \<Rightarrow> string \<Rightarrow> sched_task \<Rightarrow> bool" where
  "task_key org i t \<longleftrightarrow> st_org t = org \<and> st_id t = i"

definition get_scheduled_task :: "sched_env \<Rightarrow> string \<Rightarrow> string \<Rightarrow> sched_db \<Rightarrow> sched_error + sched_task" where
  "get_scheduled_task env org i db =
     try_step (sc_call env ScGetTask i) (\<lambda>_. or_error ScNoRows (sql_select (task_key org i) (sd_tasks db)))"

definition update_task_enabled :: "sched_env \<Rightarrow> string \<Rightarrow> string \<Rightarrow> bool \<Rightarrow> gotime option \<Rightarrow> sched_db \<Rightarrow> sched_db \<times> (sched_error + sched_task)" where
  "update_task_enabled env org i enabled next db =
     (if sc_fault env ScEnableTask i then (db, Inl (ScFault ScEnableTask))
      else
        (let f = (\<lambda>t. t\<lparr>st_enabled := enabled, st_next := next, st_updated := sc_clock env i\<rparr>)
         in case sql_select (task_key org i) (sd_tasks db) of
              None \<Rightarrow> (db, Inl ScNoRows)
            | Some t \<Rightarrow> (db\<lparr>sd_tasks := fst (sql_update (task_key org i) f (sd_tasks db))\<rparr>, Inr (f t))))"

text \<open>\<open>ORDER BY next_run_at ASC NULLS LAST, created_at DESC, id DESC\<close>.\<close>

definition list_order :: "sched_task \<Rightarrow> bool \<times> gotime \<times> gotime" where
  "list_order t = (st_next t = None, (case st_next t of None \<Rightarrow> 0 | Some n \<Rightarrow> n), - st_created t)"

definition list_scheduled_tasks :: "sched_env \<Rightarrow> string \<Rightarrow> sched_db \<Rightarrow> sched_error + sched_task list" where
  "list_scheduled_tasks env org db =
     try_step (sc_call env ScListTasks []) (\<lambda>_.
     Inr (sort_key list_order (rev (sort_key st_id (filter (\<lambda>t. st_org t = org) (sd_tasks db))))))"

subsection \<open>Runs\<close>

definition running_of :: "sched_db \<Rightarrow> string \<Rightarrow> string \<Rightarrow> sched_run list" where
  "running_of db org task = filter (\<lambda>r. sr_org r = org \<and> sr_task r = task \<and> sr_status r = ''running'') (sd_runs db)"

definition task_due :: "sched_db \<Rightarrow> gotime \<Rightarrow> sched_task \<Rightarrow> bool" where
  "task_due db now t \<longleftrightarrow>
     st_enabled t \<and> (case st_next t of None \<Rightarrow> False | Some n \<Rightarrow> n \<le> now) \<and> running_of db (st_org t) (st_id t) = []"

definition due_order :: "sched_task \<Rightarrow> gotime \<times> gotime \<times> string" where
  "due_order t = ((case st_next t of None \<Rightarrow> 0 | Some n \<Rightarrow> n), st_created t, st_id t)"

definition due_tasks :: "sched_env \<Rightarrow> gotime \<Rightarrow> int \<Rightarrow> sched_db \<Rightarrow> sched_task list" where
  "due_tasks env now limit db =
     take (nat limit) (sort_key due_order (filter (\<lambda>t. task_due db now t \<and> \<not> sc_locked env t) (sd_tasks db)))"

definition claimed_run :: "string \<Rightarrow> gotime \<Rightarrow> sched_task \<Rightarrow> sched_run" where
  "claimed_run i now t =
     \<lparr>sr_id = i, sr_org = st_org t, sr_task = st_id t, sr_status = ''running'', sr_started = Some now, sr_finished = None,
      sr_error = [], sr_created = now, sr_updated = now\<rparr>"

fun claim_tasks :: "sched_env \<Rightarrow> gotime \<Rightarrow> sched_task list \<Rightarrow> sched_run list \<Rightarrow> sched_error + (sched_run list \<times> (sched_task \<times> sched_run) list)" where
  "claim_tasks env now [] rs = Inr (rs, [])"
| "claim_tasks env now (t # ts) rs =
     try_step (or_error ScNoId (sc_new_id env (st_id t))) (\<lambda>i.
     try_step (sc_call env ScInsertRun (st_id t)) (\<lambda>_.
     try_step (fail_if (list_ex (\<lambda>r. sr_id r = i) rs) ScDuplicate) (\<lambda>_.
     try_step (claim_tasks env now ts (rs @ [claimed_run i now t])) (\<lambda>(rs', cs).
     Inr (rs', (t, claimed_run i now t) # cs)))))"

definition claim_due_runs :: "sched_env \<Rightarrow> gotime \<Rightarrow> int \<Rightarrow> sched_db \<Rightarrow> sched_db \<times> (sched_error + (sched_task \<times> sched_run) list)" where
  "claim_due_runs env now0 limit0 db =
     (let now = utc_or_now env [] now0; limit = (if limit0 \<le> 0 then 50 else limit0)
      in sched_tx env [] (\<lambda>tx.
           try_step (sc_call env ScSelectDue []) (\<lambda>_.
           try_step (claim_tasks env now (due_tasks env now limit tx) (sd_runs tx)) (\<lambda>(rs, cs).
           Inr (tx\<lparr>sd_runs := rs\<rparr>, cs)))) db)"

record record_run_input =
  rri_org :: string
  rri_task :: string
  rri_status :: string
  rri_started :: "gotime option"
  rri_finished :: "gotime option"
  rri_error :: string

definition recorded_run :: "sched_env \<Rightarrow> string \<Rightarrow> record_run_input \<Rightarrow> sched_run" where
  "recorded_run env i c =
     \<lparr>sr_id = i, sr_org = rri_org c, sr_task = rri_task c, sr_status = rri_status c, sr_started = rri_started c,
      sr_finished = rri_finished c, sr_error = rri_error c, sr_created = sc_clock env [], sr_updated = sc_clock env []\<rparr>"

definition record_scheduled_run :: "sched_env \<Rightarrow> record_run_input \<Rightarrow> sched_db \<Rightarrow> sched_db \<times> (sched_error + sched_run)" where
  "record_scheduled_run env c db =
     (case sc_new_id env [] of
        None \<Rightarrow> (db, Inl ScNoId)
      | Some i \<Rightarrow>
          if sc_fault env ScRecordRun [] then (db, Inl (ScFault ScRecordRun))
          else if \<not> list_ex (task_key (rri_org c) (rri_task c)) (sd_tasks db) then (db, Inl ScNoRows)
          else if list_ex (\<lambda>r. sr_id r = i) (sd_runs db) then (db, Inl ScDuplicate)
          else (db\<lparr>sd_runs := sd_runs db @ [recorded_run env i c]\<rparr>, Inr (recorded_run env i c)))"

text \<open>The end of a running run, and what it does to the task.\<close>

definition running_key :: "string \<Rightarrow> string \<Rightarrow> string \<Rightarrow> sched_run \<Rightarrow> bool" where
  "running_key org task i r \<longleftrightarrow> sr_org r = org \<and> sr_task r = task \<and> sr_id r = i \<and> sr_status r = ''running''"

definition ended_run :: "sched_env \<Rightarrow> string \<Rightarrow> gotime \<Rightarrow> string \<Rightarrow> sched_run \<Rightarrow> sched_run" where
  "ended_run env status finished err r =
     r\<lparr>sr_status := status, sr_finished := Some finished, sr_error := err, sr_updated := sc_clock env (sr_id r)\<rparr>"

definition end_run :: "sched_env \<Rightarrow> string \<times> string \<times> string \<Rightarrow> (sched_run \<Rightarrow> sched_run) \<Rightarrow> sched_db \<Rightarrow> sched_error + (sched_db \<times> sched_run)" where
  "end_run env key f tx =
     (case key of (org, task, i) \<Rightarrow>
        try_step (sc_call env ScEndRun i) (\<lambda>_.
        try_step (or_error ScNoRows (sql_select (running_key org task i) (sd_runs tx))) (\<lambda>r.
        Inr (tx\<lparr>sd_runs := fst (sql_update (running_key org task i) f (sd_runs tx))\<rparr>, f r))))"

definition move_task :: "sched_env \<Rightarrow> string \<times> string \<times> string \<Rightarrow> (sched_task \<Rightarrow> sched_task) \<Rightarrow> sched_db \<Rightarrow> sched_error + sched_db" where
  "move_task env key f tx =
     (case key of (org, task, i) \<Rightarrow>
        try_step (sc_call env ScMoveTask i) (\<lambda>_.
        try_step (sc_call env ScMoveRows i) (\<lambda>_.
        try_step (fail_if (\<not> list_ex (task_key org task) (sd_tasks tx)) ScNoRows) (\<lambda>_.
        Inr (tx\<lparr>sd_tasks := fst (sql_update (task_key org task) f (sd_tasks tx))\<rparr>)))))"

definition moved_task :: "sched_env \<Rightarrow> string \<Rightarrow> gotime \<Rightarrow> gotime \<Rightarrow> sched_task \<Rightarrow> sched_task" where
  "moved_task env i finished next t = t\<lparr>st_last := Some finished, st_next := Some next, st_updated := sc_clock env i\<rparr>"

definition end_and_move ::
  "sched_env \<Rightarrow> string \<times> string \<times> string \<Rightarrow> (sched_run \<Rightarrow> sched_run) \<Rightarrow> (sched_task \<Rightarrow> sched_task) \<Rightarrow> sched_db
    \<Rightarrow> sched_db \<times> (sched_error + sched_run)" where
  "end_and_move env key f g db =
     sched_tx env (snd (snd key)) (\<lambda>tx.
       try_step (end_run env key f tx) (\<lambda>(tx1, r). try_step (move_task env key g tx1) (\<lambda>tx2. Inr (tx2, r)))) db"

definition complete_scheduled_run :: "sched_env \<Rightarrow> string \<times> string \<times> string \<Rightarrow> gotime \<Rightarrow> gotime \<Rightarrow> sched_db \<Rightarrow> sched_db \<times> (sched_error + sched_run)" where
  "complete_scheduled_run env key finished0 next0 db =
     (let i = snd (snd key); finished = utc_or_now env i finished0; next = (if next0 = zero_time then finished else next0)
      in end_and_move env key (ended_run env ''completed'' finished []) (moved_task env i finished next) db)"

definition fail_scheduled_run :: "sched_env \<Rightarrow> string \<times> string \<times> string \<Rightarrow> gotime \<Rightarrow> string \<Rightarrow> gotime \<Rightarrow> sched_db \<Rightarrow> sched_db \<times> (sched_error + sched_run)" where
  "fail_scheduled_run env key finished0 err next0 db =
     (let i = snd (snd key); finished = utc_or_now env i finished0; next = (if next0 = zero_time then finished else next0)
      in end_and_move env key (ended_run env ''failed'' finished err) (moved_task env i finished next) db)"

definition complete_manual_run :: "sched_env \<Rightarrow> string \<times> string \<times> string \<Rightarrow> gotime \<Rightarrow> sched_db \<Rightarrow> sched_db \<times> (sched_error + sched_run)" where
  "complete_manual_run env key finished0 db =
     (let i = snd (snd key); finished = utc_or_now env i finished0
      in end_and_move env key (ended_run env ''completed'' finished [])
           (\<lambda>t. t\<lparr>st_last := Some finished, st_updated := sc_clock env i\<rparr>) db)"

record update_run_input =
  uri_status :: string
  uri_finished :: "gotime option"
  uri_error :: string

definition update_scheduled_run :: "sched_env \<Rightarrow> string \<Rightarrow> string \<Rightarrow> update_run_input \<Rightarrow> sched_db \<Rightarrow> sched_db \<times> (sched_error + sched_run)" where
  "update_scheduled_run env org i u db =
     (if sc_fault env ScUpdateRun i then (db, Inl (ScFault ScUpdateRun))
      else
        (let P = (\<lambda>r. sr_org r = org \<and> sr_id r = i);
             f = (\<lambda>r. r\<lparr>sr_status := uri_status u, sr_finished := uri_finished u, sr_error := uri_error u, sr_updated := sc_clock env i\<rparr>)
         in case sql_select P (sd_runs db) of
              None \<Rightarrow> (db, Inl ScNoRows)
            | Some r \<Rightarrow> (db\<lparr>sd_runs := fst (sql_update P f (sd_runs db))\<rparr>, Inr (f r))))"

definition list_scheduled_runs :: "sched_env \<Rightarrow> string \<Rightarrow> string \<Rightarrow> sched_db \<Rightarrow> sched_error + sched_run list" where
  "list_scheduled_runs env org task db =
     try_step (sc_call env ScListRuns task) (\<lambda>_.
     Inr (rev (sort_key (\<lambda>r. (sr_created r, sr_id r)) (filter (\<lambda>r. sr_org r = org \<and> sr_task r = task) (sd_runs db)))))"

definition count_running_runs :: "sched_env \<Rightarrow> string \<Rightarrow> string \<Rightarrow> sched_db \<Rightarrow> sched_error + nat" where
  "count_running_runs env org task db = try_step (sc_call env ScCountRuns task) (\<lambda>_. Inr (length (running_of db org task)))"

end
