(* ===== verification/Schedule_Service.thy ===== *)
theory Schedule_Service
  imports Schedule_Store
begin

text \<open>
  Scheduled tasks: \<open>src/server/internal/schedule/service.go\<close>, the checks of every request and the
  manual runs, and \<open>worker.go\<close>, the pass over the tasks that are due. The workflow and agent
  services are the interfaces \<open>WorkflowStarter\<close> and \<open>AgentStarter\<close> of the code: the environment of a
  service gives what they answer, and whether they are configured. Executions and agent runs are
  told by what the code looks at: an error, the identifier, the status and the error message.
  A readiness guard is a gate that may refuse. The executions and agent runs in the results of a
  pass are left out.
\<close>

datatype payload_value = PayBool bool | PayOther string

type_synonym payload = "string \<rightharpoonup> payload_value"

record start_request =
  stq_org :: string
  stq_workflow :: string
  stq_task :: string
  stq_run :: string
  stq_cron :: string
  stq_manual :: "bool option"
  stq_payload :: payload
  stq_input :: payload

record agent_request =
  agq_org :: string
  agq_user :: string
  agq_agent :: string
  agq_conversation :: string
  agq_input :: string

record execution =
  ex_id :: string
  ex_status :: string
  ex_message :: "string option"

record sched_service =
  sv_workflows :: bool
  sv_agents :: bool
  sv_start :: "start_request \<Rightarrow> string + execution"
  sv_continue :: "string \<Rightarrow> string \<Rightarrow> string + execution option"
  sv_agent :: "agent_request \<Rightarrow> string option"

definition next_run_time :: "sched_env \<Rightarrow> string \<Rightarrow> gotime \<Rightarrow> sched_error + gotime" where
  "next_run_time env expr now = try_step (or_error ScCronSyntax (sc_cron env expr)) (\<lambda>next. Inr (next (utc_or_now env [] now)))"

definition valid_cron :: "sched_env \<Rightarrow> string \<Rightarrow> bool" where
  "valid_cron env expr \<longleftrightarrow> trim_space expr \<noteq> [] \<and> sc_cron env expr \<noteq> None"

text \<open>The next time of a task that is enabled, with the error its callers give.\<close>

definition enabled_next :: "sched_env \<Rightarrow> bool \<Rightarrow> string \<Rightarrow> gotime \<Rightarrow> sched_error + gotime option" where
  "enabled_next env enabled expr now =
     (if \<not> enabled then Inr None
      else case next_run_time env expr now of Inl _ \<Rightarrow> Inl ScBadCron | Inr n \<Rightarrow> Inr (Some n))"

definition normalize_create_input :: "sched_env \<Rightarrow> string \<Rightarrow> create_task_input \<Rightarrow> sched_error + create_task_input" where
  "normalize_create_input env org c =
     (let n = \<lparr>cti_org = trim_space org, cti_name = trim_space (cti_name c), cti_type = to_lower (trim_space (cti_type c)),
               cti_target = trim_space (cti_target c), cti_cron = trim_space (cti_cron c), cti_enabled = cti_enabled c,
               cti_now = zero_time, cti_next = None\<rparr>
      in try_step (fail_if (cti_org n = []) ScNoOrganization) (\<lambda>_.
         try_step (fail_if (cti_name n = []) ScNoName) (\<lambda>_.
         try_step (fail_if (cti_type n \<notin> {''workflow'', ''agent''}) ScBadTargetType) (\<lambda>_.
         try_step (fail_if (cti_target n = []) ScNoTarget) (\<lambda>_.
         try_step (fail_if (\<not> valid_cron env (cti_cron n)) ScBadCron) (\<lambda>_.
         try_step (enabled_next env (cti_enabled n) (cti_cron n) (cti_now c)) (\<lambda>next.
         Inr (n\<lparr>cti_next := next\<rparr>))))))))"

definition schedule_create :: "sched_env \<Rightarrow> string \<Rightarrow> create_task_input \<Rightarrow> sched_db \<Rightarrow> sched_db \<times> (sched_error + sched_task)" where
  "schedule_create env org c db =
     (case normalize_create_input env org c of Inl e \<Rightarrow> (db, Inl e) | Inr n \<Rightarrow> create_scheduled_task env n db)"

definition normalize_trigger :: "sched_env \<Rightarrow> gotime \<Rightarrow> trigger_input \<Rightarrow> sched_error + trigger_input" where
  "normalize_trigger env now tr =
     (let i = trim_space (tri_id tr); name = trim_space (tri_name tr); expr = trim_space (tri_cron tr)
      in try_step (fail_if (i = []) ScNoTaskId) (\<lambda>_.
         try_step (fail_if (\<not> valid_cron env expr) ScBadCron) (\<lambda>_.
         try_step (enabled_next env (tri_enabled tr) expr now) (\<lambda>next.
         Inr \<lparr>tri_id = i, tri_name = (if name = [] then i else name), tri_cron = expr, tri_enabled = tri_enabled tr, tri_next = next\<rparr>))))"

fun normalize_triggers :: "sched_env \<Rightarrow> gotime \<Rightarrow> trigger_input list \<Rightarrow> sched_error + trigger_input list" where
  "normalize_triggers env now [] = Inr []"
| "normalize_triggers env now (tr # trs) =
     try_step (normalize_trigger env now tr) (\<lambda>n. try_step (normalize_triggers env now trs) (\<lambda>ns. Inr (n # ns)))"

definition normalize_sync_input :: "sched_env \<Rightarrow> sync_input \<Rightarrow> sched_error + sync_input" where
  "normalize_sync_input env s =
     (let org = trim_space (syn_org s); workflow = trim_space (syn_workflow s)
      in try_step (fail_if (org = []) ScNoOrganization) (\<lambda>_.
         try_step (fail_if (workflow = []) ScNoTarget) (\<lambda>_.
         try_step (normalize_triggers env (syn_now s) (syn_triggers s)) (\<lambda>trs.
         Inr \<lparr>syn_org = org, syn_workflow = workflow, syn_triggers = trs, syn_now = syn_now s\<rparr>))))"

definition schedule_sync :: "sched_env \<Rightarrow> sync_input \<Rightarrow> sched_db \<Rightarrow> sched_db \<times> (sched_error + unit)" where
  "schedule_sync env s db = (case normalize_sync_input env s of Inl e \<Rightarrow> (db, Inl e) | Inr n \<Rightarrow> sync_workflow_tasks env n db)"

definition schedule_list :: "sched_env \<Rightarrow> string \<Rightarrow> sched_db \<Rightarrow> sched_error + sched_task list" where
  "schedule_list env org db = (if trim_space org = [] then Inl ScNoOrganization else list_scheduled_tasks env (trim_space org) db)"

definition schedule_update_enabled ::
  "sched_env \<Rightarrow> string \<Rightarrow> string \<Rightarrow> bool \<Rightarrow> gotime \<Rightarrow> sched_db \<Rightarrow> sched_db \<times> (sched_error + sched_task)" where
  "schedule_update_enabled env org0 task0 enabled now db =
     (let org = trim_space org0; task = trim_space task0
      in if org = [] then (db, Inl ScNoOrganization)
         else if task = [] then (db, Inl ScNoTaskId)
         else case get_scheduled_task env org task db of
                Inl e \<Rightarrow> (db, Inl e)
              | Inr t \<Rightarrow> (case enabled_next env enabled (st_cron t) now of
                             Inl e \<Rightarrow> (db, Inl e)
                           | Inr next \<Rightarrow> update_task_enabled env org task enabled next db))"

subsection \<open>Runs\<close>

definition valid_run_status :: "string \<Rightarrow> bool" where
  "valid_run_status s \<longleftrightarrow> s \<in> {''queued'', ''running'', ''completed'', ''failed'', ''cancelled''}"

definition normalize_record_input :: "string \<Rightarrow> record_run_input \<Rightarrow> sched_error + record_run_input" where
  "normalize_record_input org c =
     (let n = \<lparr>rri_org = trim_space org, rri_task = trim_space (rri_task c), rri_status = to_lower (trim_space (rri_status c)),
               rri_started = rri_started c, rri_finished = rri_finished c, rri_error = trim_space (rri_error c)\<rparr>
      in try_step (fail_if (rri_org n = []) ScNoOrganization) (\<lambda>_.
         try_step (fail_if (rri_task n = []) ScNoTaskId) (\<lambda>_.
         try_step (fail_if (\<not> valid_run_status (rri_status n)) ScBadStatus) (\<lambda>_. Inr n))))"

definition queued_input :: "record_run_input \<Rightarrow> record_run_input" where
  "queued_input n = n\<lparr>rri_status := ''queued'', rri_started := None\<rparr>"

definition schedule_record_run :: "sched_env \<Rightarrow> string \<Rightarrow> record_run_input \<Rightarrow> sched_db \<Rightarrow> sched_db \<times> (sched_error + sched_run)" where
  "schedule_record_run env org c db =
     (case normalize_record_input org c of
        Inl e \<Rightarrow> (db, Inl e)
      | Inr n \<Rightarrow>
          if rri_status n = ''running'' then
            (case count_running_runs env (rri_org n) (rri_task n) db of
               Inl e \<Rightarrow> (db, Inl e)
             | Inr k \<Rightarrow> record_scheduled_run env (if 0 < k then queued_input n else n) db)
          else record_scheduled_run env n db)"

definition normalize_update_input :: "update_run_input \<Rightarrow> sched_error + update_run_input" where
  "normalize_update_input u =
     (let n = \<lparr>uri_status = to_lower (trim_space (uri_status u)), uri_finished = uri_finished u, uri_error = trim_space (uri_error u)\<rparr>
      in try_step (fail_if (\<not> valid_run_status (uri_status n)) ScBadStatus) (\<lambda>_. Inr n))"

definition schedule_update_run :: "sched_env \<Rightarrow> string \<Rightarrow> string \<Rightarrow> update_run_input \<Rightarrow> sched_db \<Rightarrow> sched_db \<times> (sched_error + sched_run)" where
  "schedule_update_run env org0 run0 u db =
     (let org = trim_space org0; run = trim_space run0
      in if org = [] then (db, Inl ScNoOrganization)
         else if run = [] then (db, Inl ScNoTaskId)
         else case normalize_update_input u of Inl e \<Rightarrow> (db, Inl e) | Inr n \<Rightarrow> update_scheduled_run env org run n db)"

definition schedule_list_runs :: "sched_env \<Rightarrow> string \<Rightarrow> string \<Rightarrow> sched_db \<Rightarrow> sched_error + sched_run list" where
  "schedule_list_runs env org0 task0 db =
     (let org = trim_space org0; task = trim_space task0
      in try_step (fail_if (org = []) ScNoOrganization) (\<lambda>_.
         try_step (fail_if (task = []) ScNoTaskId) (\<lambda>_.
         try_step (get_scheduled_task env org task db) (\<lambda>_. list_scheduled_runs env org task db))))"

text \<open>\<open>startClaimedWorkflow\<close>: the checks, the trigger payload and the start of the execution.\<close>

definition start_claimed_workflow :: "sched_service \<Rightarrow> sched_task \<Rightarrow> sched_run \<Rightarrow> payload option \<Rightarrow> sched_error + execution" where
  "start_claimed_workflow sv t r pay =
     (let org = trim_space (st_org t); workflow = trim_space (st_target t); task = trim_space (st_id t); run = trim_space (sr_id r);
          given = (case pay of None \<Rightarrow> Map.empty | Some p \<Rightarrow> p)
      in try_step (fail_if (org = [] \<or> trim_space (sr_org r) \<noteq> org) ScNoOrganization) (\<lambda>_.
         try_step (fail_if (to_lower (trim_space (st_type t)) \<noteq> ''workflow'') ScBadTargetType) (\<lambda>_.
         try_step (fail_if (workflow = []) ScNoTarget) (\<lambda>_.
         try_step (fail_if (task = [] \<or> trim_space (sr_task r) \<noteq> task) ScNoTaskId) (\<lambda>_.
         try_step (fail_if (run = []) ScNoTaskId) (\<lambda>_.
         case sv_start sv \<lparr>stq_org = org, stq_workflow = workflow, stq_task = task, stq_run = run, stq_cron = trim_space (st_cron t),
                           stq_manual = (case given ''manual'' of Some (PayBool b) \<Rightarrow> Some b | _ \<Rightarrow> None),
                           stq_payload = given, stq_input = given\<rparr> of
           Inl msg \<Rightarrow> Inl (ScTarget msg) | Inr x \<Rightarrow> Inr x))))))"

definition agent_input :: "sched_task \<Rightarrow> sched_run \<Rightarrow> string" where
  "agent_input t r = ''Scheduled task '' @ trim_space (st_id t) @ '' run '' @ trim_space (sr_id r)"

definition agent_request_of :: "string \<Rightarrow> string \<Rightarrow> sched_task \<Rightarrow> sched_run \<Rightarrow> agent_request" where
  "agent_request_of org user t r =
     \<lparr>agq_org = org, agq_user = user, agq_agent = trim_space (st_target t), agq_conversation = trim_space (sr_id r), agq_input = agent_input t r\<rparr>"

text \<open>The result of a run: the task, the run row and the error.\<close>

record run_result =
  rr_task :: sched_task
  rr_run :: sched_run
  rr_err :: "sched_error option"

definition failed_input :: "sched_env \<Rightarrow> gotime \<Rightarrow> sched_error \<Rightarrow> update_run_input" where
  "failed_input env finished e = \<lparr>uri_status = ''failed'', uri_finished = Some finished, uri_error = sc_text env e\<rparr>"

definition with_run :: "run_result \<Rightarrow> sched_db \<times> (sched_error + sched_run) \<Rightarrow> sched_db \<times> run_result" where
  "with_run x out = (case out of (db, Inl _) \<Rightarrow> (db, x) | (db, Inr r) \<Rightarrow> (db, x\<lparr>rr_run := r\<rparr>))"

definition fail_manual :: "sched_env \<Rightarrow> string \<Rightarrow> run_result \<Rightarrow> sched_error \<Rightarrow> sched_db \<Rightarrow> sched_db \<times> run_result" where
  "fail_manual env org x e db =
     with_run (x\<lparr>rr_err := Some e\<rparr>)
       (schedule_update_run env org (sr_id (rr_run x)) (failed_input env (sc_clock env (sr_id (rr_run x))) e) db)"

definition run_key :: "sched_task \<Rightarrow> sched_run \<Rightarrow> string \<times> string \<times> string" where
  "run_key t r = (st_org t, st_id t, sr_id r)"

definition complete_manual :: "sched_env \<Rightarrow> run_result \<Rightarrow> sched_db \<Rightarrow> sched_db \<times> run_result" where
  "complete_manual env x db =
     (case complete_manual_run env (run_key (rr_task x) (rr_run x)) (sc_clock env (sr_id (rr_run x))) db of
        (db', Inl e) \<Rightarrow> (db', x\<lparr>rr_err := Some e\<rparr>)
      | (db', Inr r) \<Rightarrow> (db', x\<lparr>rr_run := r\<rparr>))"

definition running_input :: "sched_env \<Rightarrow> string \<Rightarrow> record_run_input" where
  "running_input env task =
     \<lparr>rri_org = [], rri_task = task, rri_status = ''running'', rri_started = Some (sc_clock env []), rri_finished = None, rri_error = []\<rparr>"

definition run_now_target :: "sched_env \<Rightarrow> sched_service \<Rightarrow> string \<times> string \<Rightarrow> run_result \<Rightarrow> sched_db \<Rightarrow> sched_db \<times> run_result" where
  "run_now_target env sv session x db =
     (let t = rr_task x; r = rr_run x; type = to_lower (trim_space (st_type t)); org = fst session
      in if type = ''agent'' then
           (if \<not> sv_agents sv then fail_manual env org x ScNoAgentStarter db
            else case sv_agent sv (agent_request_of org (snd session) t r) of
                   Some msg \<Rightarrow> fail_manual env org x (ScTarget msg) db
                 | None \<Rightarrow> complete_manual env x db)
         else if type \<noteq> ''workflow'' then (db, x\<lparr>rr_err := Some ScBadTargetType\<rparr>)
         else if \<not> sv_workflows sv then fail_manual env org x ScNoWorkflowStarter db
         else case start_claimed_workflow sv t r (Some [''manual'' \<mapsto> PayBool True]) of
                Inl e \<Rightarrow> fail_manual env org x e db
              | Inr _ \<Rightarrow> complete_manual env x db)"

definition run_now :: "sched_env \<Rightarrow> sched_service \<Rightarrow> string \<times> string \<Rightarrow> string \<Rightarrow> sched_db \<Rightarrow> sched_db \<times> (sched_error + run_result)" where
  "run_now env sv session task0 db =
     (let org = trim_space (fst session); task = trim_space task0
      in if org = [] then (db, Inl ScNoOrganization)
         else if task = [] then (db, Inl ScNoTaskId)
         else case get_scheduled_task env org task db of
                Inl e \<Rightarrow> (db, Inl e)
              | Inr t \<Rightarrow>
                  (case schedule_record_run env (fst session) (running_input env task) db of
                     (db1, Inl e) \<Rightarrow> (db1, Inl e)
                   | (db1, Inr r) \<Rightarrow>
                       (let x = \<lparr>rr_task = t, rr_run = r, rr_err = None\<rparr>
                        in if sr_status r = ''queued'' then (db1, Inr x)
                           else (case run_now_target env sv session x db1 of (db2, y) \<Rightarrow> (db2, Inr y)))))"

definition trigger_workflow ::
  "sched_env \<Rightarrow> sched_service \<Rightarrow> string \<Rightarrow> sched_task \<Rightarrow> payload option \<Rightarrow> sched_db \<Rightarrow> sched_db \<times> (sched_error + execution)" where
  "trigger_workflow env sv org0 t pay db =
     (let org = trim_space org0; workflow = trim_space (st_target t); task = trim_space (st_id t)
      in if \<not> sv_workflows sv then (db, Inl ScNoStarter)
         else if org = [] \<or> trim_space (st_org t) \<noteq> org then (db, Inl ScNoOrganization)
         else if to_lower (trim_space (st_type t)) \<noteq> ''workflow'' then (db, Inl ScBadTargetType)
         else if workflow = [] then (db, Inl ScNoTarget)
         else if task = [] then (db, Inl ScNoTaskId)
         else case schedule_record_run env org0 (running_input env task) db of
                (db1, Inl e) \<Rightarrow> (db1, Inl e)
              | (db1, Inr r) \<Rightarrow>
                  (let finished = sc_clock env (sr_id r)
                   in case start_claimed_workflow sv (t\<lparr>st_id := task, st_org := org, st_type := ''workflow'', st_target := workflow\<rparr>) r pay of
                        Inl e \<Rightarrow> (fst (schedule_update_run env org0 (sr_id r) (failed_input env finished e) db1), Inl e)
                      | Inr ex \<Rightarrow> (fst (schedule_update_run env org0 (sr_id r)
                                     \<lparr>uri_status = ''completed'', uri_finished = Some finished, uri_error = []\<rparr> db1), Inr ex)))"

subsection \<open>The worker\<close>

definition fail_claimed :: "sched_env \<Rightarrow> run_result \<Rightarrow> sched_error \<Rightarrow> gotime \<Rightarrow> sched_db \<Rightarrow> sched_db \<times> run_result" where
  "fail_claimed env x e now db =
     (let t = rr_task x; r = rr_run x; finished = sc_clock env (sr_id r); y = x\<lparr>rr_err := Some e\<rparr>;
          fallback = (\<lambda>db. with_run y (schedule_update_run env (st_org t) (sr_id r) (failed_input env finished e) db))
      in case next_run_time env (st_cron t) now of
           Inl _ \<Rightarrow> fallback db
         | Inr next \<Rightarrow>
             (case fail_scheduled_run env (run_key t r) finished (sc_text env e) next db of
                (db1, Inr r') \<Rightarrow> (db1, y\<lparr>rr_run := r'\<rparr>)
              | (db1, Inl _) \<Rightarrow> fallback db1))"

definition complete_claimed :: "sched_env \<Rightarrow> run_result \<Rightarrow> gotime \<Rightarrow> sched_db \<Rightarrow> sched_db \<times> run_result" where
  "complete_claimed env x now db =
     (let t = rr_task x; r = rr_run x
      in case next_run_time env (st_cron t) now of
           Inl e \<Rightarrow> fail_claimed env x e now db
         | Inr next \<Rightarrow>
             (case complete_scheduled_run env (run_key t r) (sc_clock env (sr_id r)) next db of
                (db1, Inl e) \<Rightarrow> (db1, x\<lparr>rr_err := Some e\<rparr>)
              | (db1, Inr r') \<Rightarrow> (db1, x\<lparr>rr_run := r'\<rparr>)))"

definition execution_ended :: "string \<Rightarrow> bool" where
  "execution_ended s \<longleftrightarrow>
     s \<in> {''succeeded'', ''completed'', ''partial_success'', ''failed'', ''cancelled'', ''timeout'', ''max_iterations''}"

definition execution_bad :: "string \<Rightarrow> bool" where
  "execution_bad s \<longleftrightarrow> s \<in> {''failed'', ''cancelled'', ''timeout'', ''max_iterations''}"

definition execution_text :: "execution \<Rightarrow> string" where
  "execution_text ex =
     (case ex_message ex of
        None \<Rightarrow> ''scheduled workflow execution failed''
      | Some m \<Rightarrow> if trim_space m = [] then ''scheduled workflow execution failed'' else trim_space m)"

definition run_claimed_workflow ::
  "sched_env \<Rightarrow> sched_service \<Rightarrow> sched_task \<times> sched_run \<Rightarrow> gotime \<Rightarrow> sched_db \<Rightarrow> sched_db \<times> run_result" where
  "run_claimed_workflow env sv c now db =
     (let t = fst c; r = snd c; x = \<lparr>rr_task = t, rr_run = r, rr_err = None\<rparr>
      in if \<not> sv_workflows sv then fail_claimed env x ScNoWorkflowStarter now db
         else if sc_refuses env GateStart (sr_id r) then fail_claimed env x ScNotReady now db
         else case start_claimed_workflow sv t r None of
           Inl e \<Rightarrow> fail_claimed env x e now db
         | Inr ex \<Rightarrow>
             if sc_refuses env GateContinue (sr_id r) then fail_claimed env x ScNotReady now db
             else case sv_continue sv (st_org t) (ex_id ex) of
               Inl msg \<Rightarrow> fail_claimed env x (ScTarget msg) now db
             | Inr None \<Rightarrow> (db, x)
             | Inr (Some ex') \<Rightarrow>
                 if \<not> execution_ended (ex_status ex') then (db, x)
                 else if execution_bad (ex_status ex') then fail_claimed env x (ScExecutionFailed (execution_text ex')) now db
                 else complete_claimed env x now db)"

definition run_claimed_agent ::
  "sched_env \<Rightarrow> sched_service \<Rightarrow> sched_task \<times> sched_run \<Rightarrow> gotime \<Rightarrow> sched_db \<Rightarrow> sched_db \<times> run_result" where
  "run_claimed_agent env sv c now db =
     (let t = fst c; r = snd c; x = \<lparr>rr_task = t, rr_run = r, rr_err = None\<rparr>
      in if \<not> sv_agents sv then fail_claimed env x ScNoAgentStarter now db
         else if sc_refuses env GateAgent (sr_id r) then fail_claimed env x ScNotReady now db
         else case sv_agent sv (agent_request_of (st_org t) (''scheduled_task:'' @ trim_space (st_id t)) t r) of
                Some msg \<Rightarrow> fail_claimed env x (ScTarget msg) now db
              | None \<Rightarrow> complete_claimed env x now db)"

definition run_claimed :: "sched_env \<Rightarrow> sched_service \<Rightarrow> gotime \<Rightarrow> sched_task \<times> sched_run \<Rightarrow> sched_db \<Rightarrow> sched_db \<times> run_result" where
  "run_claimed env sv now c db =
     (if to_lower (trim_space (st_type (fst c))) = ''agent'' then run_claimed_agent env sv c now db
      else run_claimed_workflow env sv c now db)"

fun run_claimed_all :: "sched_env \<Rightarrow> sched_service \<Rightarrow> gotime \<Rightarrow> (sched_task \<times> sched_run) list \<Rightarrow> sched_db \<Rightarrow> sched_db \<times> run_result list" where
  "run_claimed_all env sv now [] db = (db, [])"
| "run_claimed_all env sv now (c # cs) db =
     (case run_claimed env sv now c db of
        (db1, x) \<Rightarrow> (case run_claimed_all env sv now cs db1 of (db2, xs) \<Rightarrow> (db2, x # xs)))"

definition run_due_tasks :: "sched_env \<Rightarrow> sched_service \<Rightarrow> gotime \<Rightarrow> int \<Rightarrow> sched_db \<Rightarrow> sched_db \<times> (sched_error + run_result list)" where
  "run_due_tasks env sv now0 limit0 db =
     (let now = utc_or_now env [] now0; limit = (if limit0 \<le> 0 then 50 else limit0)
      in if \<not> sv_workflows sv \<and> \<not> sv_agents sv then (db, Inl ScNoStarter)
         else if sc_refuses env GateClaim [] then (db, Inl ScNotReady)
         else case claim_due_runs env now limit db of
                (db1, Inl e) \<Rightarrow> (db1, Inl e)
              | (db1, Inr cs) \<Rightarrow> (case run_claimed_all env sv now cs db1 of (db2, xs) \<Rightarrow> (db2, Inr xs)))"

end
