(* ===== verification/Schedule_Properties.thy ===== *)
theory Schedule_Properties
  imports Schedule_Service
begin

text \<open>
  What the schedule store promises: a claim takes exactly what is due, a task has one running run
  at a time, a sync leaves exactly the triggers of the workflow, and the rows stay well-formed.
\<close>

subsection \<open>Transactions\<close>

lemma sc_call_Inr [simp]: "sc_call env c k = Inr u \<longleftrightarrow> \<not> sc_fault env c k"
  by (simp add: sc_call_def)

lemma sched_tx_cases:
  assumes "sched_tx env k body db = (db', r)"
  obtains e where "db' = db" "r = Inl e" | x where "body db = Inr (db', x)" "r = Inr x"
  using assms by (auto simp: sched_tx_def split: if_splits sum.splits prod.splits)

subsection \<open>Claims\<close>

lemma claim_tasks_rows:
  assumes "claim_tasks env now ts rs = Inr (rs', cs)"
  shows "rs' = rs @ List.map snd cs" "List.map fst cs = ts"
    "\<forall>c \<in> set cs. \<exists>i. snd c = claimed_run i now (fst c) \<and> sc_new_id env (st_id (fst c)) = Some i"
    "distinct (List.map sr_id (List.map snd cs)) \<and> (\<forall>c \<in> set cs. \<forall>r \<in> set rs. sr_id r \<noteq> sr_id (snd c))"
  using assms
proof (induction ts arbitrary: rs rs' cs)
  case (Cons t ts)
  {
    case 1
    then show ?case using Cons.IH(1) by (fastforce simp: try_step_Inr)
  next
    case 2
    then show ?case using Cons.IH(2) by (fastforce simp: try_step_Inr)
  next
    case 3
    then obtain i cs' where i: "sc_new_id env (st_id t) = Some i" and cs: "cs = (t, claimed_run i now t) # cs'"
      and rest: "claim_tasks env now ts (rs @ [claimed_run i now t]) = Inr (rs', cs')"
      by (auto simp: try_step_Inr)
    with Cons.IH(3) [OF rest] show ?case by simp
  next
    case 4
    then obtain i cs' where i: "\<not> list_ex (\<lambda>r. sr_id r = i) rs" and cs: "cs = (t, claimed_run i now t) # cs'"
      and rest: "claim_tasks env now ts (rs @ [claimed_run i now t]) = Inr (rs', cs')"
      by (auto simp: try_step_Inr)
    from Cons.IH(4) [OF rest] have "\<forall>c \<in> set cs'. sr_id (snd c) \<noteq> i" by (fastforce simp: claimed_run_def)
    with Cons.IH(4) [OF rest] i show ?case by (force simp: cs list_ex_iff claimed_run_def)
  }
qed simp_all

lemma claim_due_rows:
  assumes "claim_due_runs env now limit db = (db', Inr cs)"
  defines "ts \<equiv> due_tasks env (utc_or_now env [] now) (if limit \<le> 0 then 50 else limit) db"
  shows "claim_tasks env (utc_or_now env [] now) ts (sd_runs db) = Inr (sd_runs db', cs)" "sd_tasks db' = sd_tasks db"
proof -
  have "\<exists>rs. claim_tasks env (utc_or_now env [] now) ts (sd_runs db) = Inr (rs, cs) \<and> db' = db\<lparr>sd_runs := rs\<rparr>"
    using assms(1) unfolding claim_due_runs_def Let_def ts_def
    by (rule sched_tx_cases) (auto simp: try_step_Inr)
  then show "claim_tasks env (utc_or_now env [] now) ts (sd_runs db) = Inr (sd_runs db', cs)" "sd_tasks db' = sd_tasks db" by auto
qed

lemma claim_due_fails: "claim_due_runs env now limit db = (db', Inl e) \<Longrightarrow> db' = db"
  unfolding claim_due_runs_def Let_def by (erule sched_tx_cases) auto

lemma due_task_set: "t \<in> set (due_tasks env now limit db) \<Longrightarrow> t \<in> set (sd_tasks db) \<and> task_due db now t \<and> \<not> sc_locked env t"
  by (auto simp: due_tasks_def dest: in_set_takeD)

lemma not_taken: "x \<in> set xs \<Longrightarrow> x \<notin> set (take n xs) \<Longrightarrow> x \<in> set (drop n xs)"
  by (metis Un_iff append_take_drop_id set_append)

lemma sorted_take_drop: "sorted xs \<Longrightarrow> x \<in> set (take n xs) \<Longrightarrow> y \<in> set (drop n xs) \<Longrightarrow> x \<le> y"
  by (metis append_take_drop_id sorted_append)

lemma due_tasks_rest:
  assumes "t \<in> set (sd_tasks db)" "task_due db now t" "\<not> sc_locked env t" "t \<notin> set (due_tasks env now limit db)"
  shows "length (due_tasks env now limit db) = nat limit \<and> (\<forall>u \<in> set (due_tasks env now limit db). due_order u \<le> due_order t)"
proof -
  let ?xs = "sort_key due_order (filter (\<lambda>t. task_due db now t \<and> \<not> sc_locked env t) (sd_tasks db))"
  have "t \<in> set ?xs" using assms(1-3) by simp
  then have t: "t \<in> set (drop (nat limit) ?xs)" using assms(4) unfolding due_tasks_def by (rule not_taken)
  then have "nat limit < length ?xs" by (cases "nat limit < length ?xs") simp_all
  then have "length (due_tasks env now limit db) = nat limit" by (simp add: due_tasks_def)
  moreover have "due_order u \<le> due_order t" if "u \<in> set (due_tasks env now limit db)" for u
  proof (rule sorted_take_drop)
    show "sorted (List.map due_order ?xs)" by simp
    show "due_order u \<in> set (take (nat limit) (List.map due_order ?xs))" using that by (simp add: due_tasks_def take_map)
    show "due_order t \<in> set (drop (nat limit) (List.map due_order ?xs))" using t by (simp only: drop_map set_map imageI)
  qed
  ultimately show ?thesis by blast
qed

lemma due_tasks_sorted: "sorted (List.map due_order (due_tasks env now limit db))"
  by (simp add: due_tasks_def take_map [symmetric] sorted_wrt_take)

text \<open>
  C30. A claim takes exactly what is due. It claims enabled tasks whose time has come, that have no
  running run and whose row is not locked, in the order of their times, up to the limit, and gives
  each one new running run started now; a task that is due and free is only passed over when the
  limit is used up by tasks before it. Nothing else is written.
\<close>

theorem claim_takes_what_is_due:
  assumes "claim_due_runs env now limit db = (db', Inr cs)" and "now \<noteq> zero_time" and "0 < limit"
  shows "sd_tasks db' = sd_tasks db \<and> sd_runs db' = sd_runs db @ List.map snd cs \<and> length cs \<le> nat limit
    \<and> sorted (List.map due_order (List.map fst cs))
    \<and> (\<forall>c \<in> set cs. fst c \<in> set (sd_tasks db) \<and> task_due db now (fst c) \<and> \<not> sc_locked env (fst c)
          \<and> (\<exists>i. snd c = claimed_run i now (fst c)))
    \<and> (\<forall>t \<in> set (sd_tasks db). task_due db now t \<and> \<not> sc_locked env t \<longrightarrow>
          t \<in> fst ` set cs \<or> length cs = nat limit \<and> (\<forall>c \<in> set cs. due_order (fst c) \<le> due_order t))"
proof -
  let ?ts = "due_tasks env now limit db"
  from claim_due_rows [OF assms(1)] assms(2,3)
  have rows: "claim_tasks env now ?ts (sd_runs db) = Inr (sd_runs db', cs)" and tasks: "sd_tasks db' = sd_tasks db"
    by (simp_all add: utc_or_now_def)
  note claimed = claim_tasks_rows [OF rows]
  have len: "length cs = length ?ts" using claimed(2) by (metis length_map)
  have "length ?ts \<le> nat limit" by (simp add: due_tasks_def)
  moreover have "fst c \<in> set (sd_tasks db) \<and> task_due db now (fst c) \<and> \<not> sc_locked env (fst c)" if "c \<in> set cs" for c
  proof (rule due_task_set)
    show "fst c \<in> set ?ts" using that claimed(2) by (metis in_set_conv_nth length_map nth_map nth_mem)
  qed
  moreover have "t \<in> fst ` set cs \<or> length cs = nat limit \<and> (\<forall>c \<in> set cs. due_order (fst c) \<le> due_order t)"
    if "t \<in> set (sd_tasks db)" "task_due db now t" "\<not> sc_locked env t" for t
  proof (cases "t \<in> set ?ts")
    case True
    then show ?thesis unfolding claimed(2) [symmetric] by simp
  next
    case False
    from due_tasks_rest [OF that False] show ?thesis unfolding claimed(2) [symmetric] len [symmetric] by simp
  qed
  ultimately show ?thesis using claimed(1,3) tasks len due_tasks_sorted [of env now limit db] unfolding claimed(2) by auto
qed

definition calm_sched :: "gotime \<Rightarrow> sched_env" where
  "calm_sched t = \<lparr>sc_clock = (\<lambda>_. t), sc_new_id = (\<lambda>k. Some (''run_'' @ k)), sc_fault = (\<lambda>_ _. False), sc_locked = (\<lambda>_. False),
     sc_cron = (\<lambda>e. if e = ''hourly'' then Some (\<lambda>t. t + 10) else if e = ''never'' then Some (\<lambda>_. zero_time) else None),
     sc_text = (\<lambda>_. ''failed''), sc_refuses = (\<lambda>_ _. False)\<rparr>"

definition sample_task :: "string \<Rightarrow> gotime \<Rightarrow> sched_task" where
  "sample_task i next = \<lparr>st_id = i, st_org = ''org'', st_name = ''report'', st_type = ''workflow'', st_target = ''flow'', st_trigger = None,
     st_cron = ''hourly'', st_enabled = True, st_last = None, st_next = Some next, st_created = 1, st_updated = 1\<rparr>"

definition sample_schedule :: sched_db where
  "sample_schedule = \<lparr>sd_tasks = [sample_task ''b'' 7, sample_task ''a'' 5, sample_task ''c'' 30], sd_runs = []\<rparr>"

lemmas sched_samples = calm_sched_def sample_task_def sample_schedule_def

lemmas sched_evals = claim_due_runs_def sched_tx_def sc_call_def fail_if_def or_error_def utc_or_now_def due_tasks_def task_due_def
  running_of_def due_order_def claimed_run_def zero_time_def Let_def

lemma sample_claim:
  "snd (claim_due_runs (calm_sched 8) 8 5 sample_schedule)
     = Inr [(sample_task ''a'' 5, claimed_run ''run_a'' 8 (sample_task ''a'' 5)), (sample_task ''b'' 7, claimed_run ''run_b'' 8 (sample_task ''b'' 7))]"
  by (simp add: sched_evals sched_samples)

theorem claim_takes_what_is_due_witness:
  "\<exists>db' cs. claim_due_runs (calm_sched 8) 8 5 sample_schedule = (db', Inr cs) \<and> length cs \<le> 5
     \<and> sd_runs db' = List.map snd cs \<and> List.map st_id (List.map fst cs) = [''a'', ''b'']"
proof -
  let ?cs = "[(sample_task ''a'' 5, claimed_run ''run_a'' 8 (sample_task ''a'' 5)), (sample_task ''b'' 7, claimed_run ''run_b'' 8 (sample_task ''b'' 7))]"
  obtain db' where c: "claim_due_runs (calm_sched 8) 8 5 sample_schedule = (db', Inr ?cs)" using sample_claim by (metis prod.collapse)
  have "sd_runs db' = sd_runs sample_schedule @ List.map snd ?cs" using claim_takes_what_is_due [OF c] by (simp add: zero_time_def)
  with c show ?thesis by (intro exI [of _ db'] exI [of _ ?cs]) (simp add: sample_task_def sample_schedule_def)
qed

subsection \<open>One running run\<close>

definition same_task :: "sched_run \<Rightarrow> sched_run \<Rightarrow> bool" where
  "same_task r s \<longleftrightarrow> sr_org r = sr_org s \<and> sr_task r = sr_task s"

definition sched_ok :: "sched_db \<Rightarrow> bool" where
  "sched_ok db \<longleftrightarrow> distinct (List.map st_id (sd_tasks db)) \<and> distinct (List.map sr_id (sd_runs db))
     \<and> (\<forall>r \<in> set (sd_runs db). \<forall>s \<in> set (sd_runs db).
          sr_status r = ''running'' \<and> sr_status s = ''running'' \<and> same_task r s \<longrightarrow> r = s)"

lemma running_of_empty: "running_of db org task = [] \<longleftrightarrow> (\<forall>r \<in> set (sd_runs db). \<not> (sr_org r = org \<and> sr_task r = task \<and> sr_status r = ''running''))"
  by (auto simp: running_of_def filter_empty_conv)

lemma at_most_one:
  assumes "distinct xs" and same: "\<And>x y. x \<in> set xs \<Longrightarrow> y \<in> set xs \<Longrightarrow> x = y"
  shows "length xs \<le> 1"
proof (rule ccontr)
  assume "\<not> length xs \<le> 1"
  then obtain x y zs where "xs = x # y # zs" by (cases xs; cases "tl xs") auto
  with assms(1) same [of x y] show False by simp
qed

lemma sched_ok_running: "sched_ok db \<Longrightarrow> length (running_of db org task) \<le> 1"
proof -
  assume ok: "sched_ok db"
  then have "distinct (sd_runs db)" by (simp add: sched_ok_def distinct_map)
  then have "distinct (running_of db org task)" by (simp add: running_of_def)
  moreover have "r = s" if "r \<in> set (running_of db org task)" "s \<in> set (running_of db org task)" for r s
    using ok that by (auto simp: sched_ok_def running_of_def same_task_def)
  ultimately show ?thesis by (rule at_most_one)
qed

text \<open>Tasks rewritten in place, and runs of which each keeps its task and none starts to run.\<close>

definition calms :: "(sched_run \<Rightarrow> sched_run) \<Rightarrow> bool" where
  "calms f \<longleftrightarrow> (\<forall>r. sr_id (f r) = sr_id r \<and> sr_org (f r) = sr_org r \<and> sr_task (f r) = sr_task r
     \<and> (sr_status (f r) = ''running'' \<longrightarrow> f r = r))"

lemma sched_ok_map:
  assumes ok: "sched_ok db" and f: "calms f" and g: "\<And>t. st_id (g t) = st_id t"
    and db': "sd_runs db' = List.map f (sd_runs db)" "sd_tasks db' = List.map g (sd_tasks db)"
  shows "sched_ok db'"
proof -
  have "List.map sr_id (sd_runs db') = List.map sr_id (sd_runs db)" using f by (simp add: db'(1) calms_def)
  moreover have "List.map st_id (sd_tasks db') = List.map st_id (sd_tasks db)" using g by (simp add: db'(2))
  moreover have "r = s" if "r \<in> set (sd_runs db')" "s \<in> set (sd_runs db')" "sr_status r = ''running''" "sr_status s = ''running''" "same_task r s" for r s
  proof -
    from that(1,2) obtain r0 s0 where "r0 \<in> set (sd_runs db)" "r = f r0" "s0 \<in> set (sd_runs db)" "s = f s0" unfolding db' by auto
    moreover with that f have "r = r0" "s = s0" by (auto simp: calms_def)
    ultimately show ?thesis using ok that by (auto simp: sched_ok_def)
  qed
  ultimately show ?thesis using ok by (auto simp: sched_ok_def)
qed

lemma sched_ok_add:
  assumes ok: "sched_ok db" and tasks: "sd_tasks db' = sd_tasks db" and runs: "sd_runs db' = sd_runs db @ [r]"
    and fresh: "\<forall>s \<in> set (sd_runs db). sr_id s \<noteq> sr_id r"
    and alone: "sr_status r = ''running'' \<Longrightarrow> running_of db (sr_org r) (sr_task r) = []"
  shows "sched_ok db'"
  using ok fresh alone by (auto simp: sched_ok_def tasks runs running_of_empty same_task_def)

lemma sched_ok_tasks: "sched_ok db \<Longrightarrow> distinct (List.map st_id ts) \<Longrightarrow> sched_ok (db\<lparr>sd_tasks := ts\<rparr>)"
  by (simp add: sched_ok_def)

lemma claim_tasks_ok:
  assumes "claim_tasks env now ts (sd_runs db) = Inr (rs', cs)" "sched_ok db"
    and "distinct (List.map st_id ts)" "\<forall>t \<in> set ts. running_of db (st_org t) (st_id t) = []"
  shows "sched_ok (db\<lparr>sd_runs := rs'\<rparr>)"
  using assms
proof (induction ts arbitrary: db rs' cs)
  case (Cons t ts)
  from Cons.prems(1) obtain i cs' where i: "\<not> list_ex (\<lambda>r. sr_id r = i) (sd_runs db)"
    and rest: "claim_tasks env now ts (sd_runs db @ [claimed_run i now t]) = Inr (rs', cs')"
    by (auto simp: try_step_Inr)
  let ?db = "db\<lparr>sd_runs := sd_runs db @ [claimed_run i now t]\<rparr>"
  have ok: "sched_ok ?db"
    by (rule sched_ok_add [OF Cons.prems(2)]) (use i Cons.prems(4) in \<open>auto simp: claimed_run_def list_ex_iff\<close>)
  have "running_of ?db (st_org u) (st_id u) = []" if "u \<in> set ts" for u
    using Cons.prems(3,4) that by (auto simp: running_of_empty claimed_run_def)
  with Cons.IH [of ?db] rest ok Cons.prems(3) show ?case by simp
qed simp

lemma due_tasks_distinct: "distinct (List.map st_id (sd_tasks db)) \<Longrightarrow> distinct (List.map st_id (due_tasks env now limit db))"
proof -
  assume "distinct (List.map st_id (sd_tasks db))"
  then have "distinct (List.map st_id (filter P (sd_tasks db)))" for P by (rule distinct_map_filter)
  moreover have "distinct (List.map st_id (sort_key due_order xs)) = distinct (List.map st_id xs)" for xs
    by (simp add: distinct_map)
  ultimately show ?thesis by (simp add: due_tasks_def take_map [symmetric])
qed

lemma claim_due_ok:
  assumes "sched_ok db"
  shows "sched_ok (fst (claim_due_runs env now limit db))"
proof -
  obtain db' r where c: "claim_due_runs env now limit db = (db', r)" by fastforce
  have "sched_ok db'"
  proof (cases r)
    case (Inl e)
    with c assms claim_due_fails show ?thesis by blast
  next
    case (Inr cs)
    note rows = claim_due_rows [OF c [unfolded Inr]]
    have "sched_ok (db\<lparr>sd_runs := sd_runs db'\<rparr>)"
      using rows(1) assms
    proof (rule claim_tasks_ok)
      show "distinct (List.map st_id (due_tasks env (utc_or_now env [] now) (if limit \<le> 0 then 50 else limit) db))"
        using assms by (intro due_tasks_distinct) (simp add: sched_ok_def)
    qed (use due_task_set in \<open>fastforce simp: task_due_def\<close>)
    with rows(2) show ?thesis by (simp add: sched_ok_def)
  qed
  with c show ?thesis by simp
qed

lemma end_and_move_rows:
  assumes "end_and_move env (org, task, i) f g db = (db', Inr r)"
  shows "sd_runs db' = List.map (\<lambda>r. if running_key org task i r then f r else r) (sd_runs db)"
    "sd_tasks db' = List.map (\<lambda>t. if task_key org task t then g t else t) (sd_tasks db)"
    "\<exists>r0 \<in> set (sd_runs db). running_key org task i r0 \<and> r = f r0"
  using assms unfolding end_and_move_def
  by (rule sched_tx_cases; auto simp: end_run_def move_task_def step_simps sql_update_rows dest!: sql_select_Some)+

lemma end_and_move_fails: "end_and_move env key f g db = (db', Inl e) \<Longrightarrow> db' = db"
  unfolding end_and_move_def by (erule sched_tx_cases) auto

lemma end_and_move_ok:
  assumes ok: "sched_ok db" and f: "calms f" and g: "\<And>t. st_id (g t) = st_id t"
  shows "sched_ok (fst (end_and_move env key f g db))"
proof -
  obtain org task i where k: "key = (org, task, i)" by (cases key)
  obtain db' r where e: "end_and_move env (org, task, i) f g db = (db', r)" by fastforce
  have "sched_ok db'"
  proof (cases r)
    case (Inl err)
    with e end_and_move_fails ok show ?thesis by blast
  next
    case (Inr x)
    note rows = end_and_move_rows [OF e [unfolded Inr]]
    from ok show ?thesis
      by (rule sched_ok_map [OF _ _ _ rows(1,2)]) (use f g in \<open>auto simp: calms_def\<close>)
  qed
  with e k show ?thesis by simp
qed

lemma ended_calms: "status \<noteq> ''running'' \<Longrightarrow> calms (ended_run env status finished err)"
  by (simp add: calms_def ended_run_def)

lemma finishing_ok:
  assumes "sched_ok db"
  shows "sched_ok (fst (complete_scheduled_run env key finished next db))" "sched_ok (fst (fail_scheduled_run env key finished err next db))"
    "sched_ok (fst (complete_manual_run env key finished db))"
  using assms by (simp_all add: complete_scheduled_run_def fail_scheduled_run_def complete_manual_run_def Let_def end_and_move_ok
      ended_calms moved_task_def)

lemma update_run_rows:
  assumes "update_scheduled_run env org i u db = (db', r)"
  shows "sd_tasks db' = sd_tasks db" "sd_runs db' = sd_runs db \<or> sd_runs db' = List.map (\<lambda>r. if sr_org r = org \<and> sr_id r = i
      then r\<lparr>sr_status := uri_status u, sr_finished := uri_finished u, sr_error := uri_error u, sr_updated := sc_clock env i\<rparr> else r) (sd_runs db)"
  using assms by (auto simp: update_scheduled_run_def Let_def sql_update_rows split: if_splits option.splits)

lemma update_run_ok:
  assumes ok: "sched_ok db" and "uri_status u \<noteq> ''running''"
  shows "sched_ok (fst (update_scheduled_run env org i u db))"
proof -
  obtain db' r where e: "update_scheduled_run env org i u db = (db', r)" by fastforce
  from update_run_rows [OF e] have tasks: "sd_tasks db' = List.map (\<lambda>t. t) (sd_tasks db)" by simp
  from update_run_rows(2) [OF e] have "sched_ok db'"
  proof
    assume "sd_runs db' = sd_runs db"
    with tasks ok show ?thesis by (simp add: sched_ok_def)
  next
    assume "sd_runs db' = List.map (\<lambda>r. if sr_org r = org \<and> sr_id r = i
      then r\<lparr>sr_status := uri_status u, sr_finished := uri_finished u, sr_error := uri_error u, sr_updated := sc_clock env i\<rparr> else r) (sd_runs db)"
    from sched_ok_map [OF ok _ _ this tasks] assms(2) show ?thesis by (simp add: calms_def)
  qed
  with e show ?thesis by simp
qed

lemma schedule_update_ok:
  assumes "sched_ok db" "to_lower (trim_space (uri_status u)) \<noteq> ''running''"
  shows "sched_ok (fst (schedule_update_run env org i u db))"
  using assms by (auto simp: schedule_update_run_def Let_def normalize_update_input_def try_step_Inr update_run_ok split: sum.split)

lemma record_run_rows:
  assumes "record_scheduled_run env c db = (db', Inr r)"
  shows "sd_tasks db' = sd_tasks db" "sd_runs db' = sd_runs db @ [r]" "\<forall>s \<in> set (sd_runs db). sr_id s \<noteq> sr_id r"
    "r = recorded_run env (sr_id r) c" "sc_new_id env [] = Some (sr_id r)"
  using assms by (auto simp: record_scheduled_run_def list_ex_iff recorded_run_def split: option.splits if_splits)

lemma record_run_fails: "record_scheduled_run env c db = (db', Inl e) \<Longrightarrow> db' = db"
  by (auto simp: record_scheduled_run_def split: option.splits if_splits)

lemma schedule_record_cases:
  assumes "schedule_record_run env org c db = (db', r)"
  obtains e where "r = Inl e" "db' = db" | n x where "r = Inr x" "record_scheduled_run env n db = (db', Inr x)"
    "rri_status n = ''running'' \<Longrightarrow> running_of db (rri_org n) (rri_task n) = []"
proof (cases r)
  case (Inl e)
  with assms have "db' = db"
    by (auto simp: schedule_record_run_def dest: record_run_fails split: sum.splits if_splits)
  with Inl that(1) show ?thesis by blast
next
  case (Inr x)
  from assms Inr obtain n where n: "normalize_record_input org c = Inr n" by (cases "normalize_record_input org c") (auto simp: schedule_record_run_def)
  show ?thesis
  proof (cases "rri_status n = ''running''")
    case True
    with assms Inr n obtain k where k: "count_running_runs env (rri_org n) (rri_task n) db = Inr k"
      and rec: "record_scheduled_run env (if 0 < k then queued_input n else n) db = (db', Inr x)"
      by (cases "count_running_runs env (rri_org n) (rri_task n) db") (auto simp: schedule_record_run_def)
    from k have "k = length (running_of db (rri_org n) (rri_task n))" by (auto simp: count_running_runs_def try_step_Inr)
    with that(2) [OF Inr rec] show ?thesis by (cases "0 < k") (auto simp: queued_input_def)
  next
    case False
    with assms Inr n have "record_scheduled_run env n db = (db', Inr x)" by (simp add: schedule_record_run_def)
    with that(2) [OF Inr this] False show ?thesis by simp
  qed
qed

lemma schedule_record_ok:
  assumes ok: "sched_ok db"
  shows "sched_ok (fst (schedule_record_run env org c db))"
proof -
  obtain db' r where e: "schedule_record_run env org c db = (db', r)" by fastforce
  then have "sched_ok db'"
  proof (cases rule: schedule_record_cases)
    case (2 n x)
    note rows = record_run_rows [OF 2(2)]
    from ok rows(1-3) show ?thesis
    proof (rule sched_ok_add)
      assume "sr_status x = ''running''"
      with 2(3) rows(4) show "running_of db (sr_org x) (sr_task x) = []" by (metis recorded_run_def sched_run.select_convs(2-4))
    qed
  qed (simp add: ok)
  with e show ?thesis by simp
qed

lemma create_ok: "sched_ok db \<Longrightarrow> sched_ok (fst (create_scheduled_task env c db))"
  by (auto simp: create_scheduled_task_def sched_ok_def new_task_def list_ex_iff split: option.split)

lemma schedule_create_ok: "sched_ok db \<Longrightarrow> sched_ok (fst (schedule_create env org c db))"
  by (simp add: schedule_create_def create_ok split: sum.split)

lemma map_keeps_ids: "(\<And>t. st_id (f t) = st_id t) \<Longrightarrow> List.map st_id (List.map (\<lambda>t. if P t then f t else t) ts) = List.map st_id ts"
  by simp

lemma enable_ok: "sched_ok db \<Longrightarrow> sched_ok (fst (update_task_enabled env org i enabled next db))"
  by (auto simp: update_task_enabled_def Let_def sql_update_rows comp_def if_distrib [of st_id] cong: if_cong
      intro!: sched_ok_tasks split: option.split) (simp add: sched_ok_def)

lemma schedule_enable_ok: "sched_ok db \<Longrightarrow> sched_ok (fst (schedule_update_enabled env org i enabled now db))"
  by (auto simp: schedule_update_enabled_def Let_def enable_ok split: sum.split)

lemma upsert_triggers_distinct:
  "upsert_triggers env s now trs ts = Inr ts' \<Longrightarrow> distinct (List.map st_id ts) \<Longrightarrow> distinct (List.map st_id ts')"
proof (induction trs arbitrary: ts)
  case (Cons tr trs)
  from Cons.prems(1) obtain ts1 where u: "upsert_trigger env s now tr ts = Inr ts1" and rest: "upsert_triggers env s now trs ts1 = Inr ts'"
    by (auto simp: try_step_Inr)
  have "distinct (List.map st_id ts1)"
    using u Cons.prems(2)
    by (auto simp: upsert_trigger_def step_simps sql_update_rows resync_task_def trigger_task_def list_ex_iff comp_def
        if_distrib [of st_id] cong: if_cong split: if_splits)
  with rest Cons.IH show ?case by blast
qed simp

lemma delete_tasks_ok:
  assumes "distinct (List.map st_id (sd_tasks db))" "sched_ok (db\<lparr>sd_tasks := []\<rparr>)"
  shows "sched_ok (delete_tasks P db)"
  using assms by (auto simp: sched_ok_def delete_tasks_def distinct_map_filter)

lemma sync_cases:
  assumes "sync_workflow_tasks env s db = (db', r)"
  obtains e where "r = Inl e" "db' = db"
    | ts where "r = Inr ()" "upsert_triggers env s (utc_or_now env [] (syn_now s)) (syn_triggers s) (sd_tasks db) = Inr ts"
      "db' = delete_tasks (stale_trigger s) (db\<lparr>sd_tasks := ts\<rparr>)"
  using assms unfolding sync_workflow_tasks_def by (rule sched_tx_cases) (auto simp: try_step_Inr)

lemma sync_ok:
  assumes ok: "sched_ok db"
  shows "sched_ok (fst (sync_workflow_tasks env s db))"
proof -
  obtain db' r where e: "sync_workflow_tasks env s db = (db', r)" by fastforce
  then have "sched_ok db'"
  proof (cases rule: sync_cases)
    case (2 ts)
    have "distinct (List.map st_id ts)" by (rule upsert_triggers_distinct [OF 2(2)]) (use ok in \<open>simp add: sched_ok_def\<close>)
    then show ?thesis unfolding 2(3) by (intro delete_tasks_ok) (use ok in \<open>simp_all add: sched_ok_def\<close>)
  qed (simp add: ok)
  with e show ?thesis by simp
qed

lemma schedule_sync_ok: "sched_ok db \<Longrightarrow> sched_ok (fst (schedule_sync env s db))"
  by (simp add: schedule_sync_def sync_ok split: sum.split)

text \<open>What workers and requests do to the tables, one store operation or request at a time.\<close>

datatype sched_op =
    OpClaim sched_env gotime int
  | OpComplete sched_env "string \<times> string \<times> string" gotime gotime
  | OpFail sched_env "string \<times> string \<times> string" gotime string gotime
  | OpCompleteManual sched_env "string \<times> string \<times> string" gotime
  | OpEndRun sched_env string string update_run_input
  | OpRecord sched_env string record_run_input
  | OpCreate sched_env string create_task_input
  | OpSync sched_env sync_input
  | OpEnable sched_env string string bool gotime

fun sched_step :: "sched_op \<Rightarrow> sched_db \<Rightarrow> sched_db" where
  "sched_step (OpClaim env now limit) db = fst (claim_due_runs env now limit db)"
| "sched_step (OpComplete env key finished next) db = fst (complete_scheduled_run env key finished next db)"
| "sched_step (OpFail env key finished err next) db = fst (fail_scheduled_run env key finished err next db)"
| "sched_step (OpCompleteManual env key finished) db = fst (complete_manual_run env key finished db)"
| "sched_step (OpEndRun env org i u) db = fst (schedule_update_run env org i u db)"
| "sched_step (OpRecord env org c) db = fst (schedule_record_run env org c db)"
| "sched_step (OpCreate env org c) db = fst (schedule_create env org c db)"
| "sched_step (OpSync env s) db = fst (schedule_sync env s db)"
| "sched_step (OpEnable env org i enabled now) db = fst (schedule_update_enabled env org i enabled now db)"

fun sched_steps :: "sched_op list \<Rightarrow> sched_db \<Rightarrow> sched_db" where
  "sched_steps [] db = db"
| "sched_steps (x # xs) db = sched_steps xs (sched_step x db)"

text \<open>No request sets a run back to running; the callers of the code only end runs this way.\<close>

fun ends_runs :: "sched_op \<Rightarrow> bool" where
  "ends_runs (OpEndRun env org i u) \<longleftrightarrow> to_lower (trim_space (uri_status u)) \<noteq> ''running''"
| "ends_runs _ \<longleftrightarrow> True"

lemma sched_step_ok: "sched_ok db \<Longrightarrow> ends_runs x \<Longrightarrow> sched_ok (sched_step x db)"
  by (cases x) (simp_all add: claim_due_ok finishing_ok schedule_update_ok schedule_record_ok schedule_create_ok schedule_sync_ok
      schedule_enable_ok)

lemma sched_steps_ok: "sched_ok db \<Longrightarrow> list_all ends_runs xs \<Longrightarrow> sched_ok (sched_steps xs db)"
  by (induction xs arbitrary: db) (simp_all add: sched_step_ok)

text \<open>
  C29. A task has at most one running run. However the claims, completions and failures of any
  number of workers, manual runs, syncs and changes of tasks interleave, each of them as a whole,
  and whichever statements fail, no task ever has two runs in the status running.
\<close>

theorem one_running_run_per_task:
  assumes "list_all ends_runs ops"
  shows "length (running_of (sched_steps ops \<lparr>sd_tasks = [], sd_runs = []\<rparr>) org task) \<le> 1"
proof -
  have "sched_ok \<lparr>sd_tasks = [], sd_runs = []\<rparr>" by (simp add: sched_ok_def)
  from sched_steps_ok [OF this assms] show ?thesis by (rule sched_ok_running)
qed

definition sample_create :: create_task_input where
  "sample_create = \<lparr>cti_org = [], cti_name = ''report'', cti_type = ''workflow'', cti_target = ''flow'', cti_cron = ''hourly'',
     cti_enabled = True, cti_now = 1, cti_next = None\<rparr>"

theorem one_running_run_per_task_witness:
  "length (running_of (sched_steps [OpCreate (calm_sched 1) ''org'' sample_create, OpClaim (calm_sched 20) 20 5, OpClaim (calm_sched 21) 21 5]
     \<lparr>sd_tasks = [], sd_runs = []\<rparr>) ''org'' ''run_'') \<le> 1"
  by (rule one_running_run_per_task) simp

subsection \<open>The triggers of a workflow\<close>

definition carries :: "trigger_input \<Rightarrow> sched_task \<Rightarrow> bool" where
  "carries tr t \<longleftrightarrow> st_trigger t = Some (tri_id tr) \<and> st_name t = tri_name tr \<and> st_cron t = tri_cron tr
     \<and> st_enabled t = tri_enabled tr \<and> st_next t = tri_next tr"

definition same_row :: "sched_task \<Rightarrow> sched_task \<Rightarrow> bool" where
  "same_row t u \<longleftrightarrow> st_id u = st_id t \<and> st_org u = st_org t \<and> st_type u = st_type t \<and> st_target u = st_target t
     \<and> st_trigger u = st_trigger t \<and> st_last u = st_last t \<and> st_created u = st_created t"

lemma same_row_keys:
  "same_row t u \<Longrightarrow> of_workflow org wid u \<longleftrightarrow> of_workflow org wid t"
  "same_row t u \<Longrightarrow> of_trigger org wid x u \<longleftrightarrow> of_trigger org wid x t"
  by (simp_all add: same_row_def of_workflow_def of_trigger_def)

lemma resync_same_row: "same_row t (resync_task now tr t)"
  by (simp add: same_row_def resync_task_def)

lemma filter_kept:
  assumes "\<And>x. P x \<Longrightarrow> \<not> Q x \<and> \<not> Q (f x)"
  shows "filter Q (List.map (\<lambda>x. if P x then f x else x) xs) = filter Q xs"
  using assms by (induction xs) auto

lemma upsert_trigger_cases:
  assumes "upsert_trigger env s now tr ts = Inr ts'"
  obtains "list_ex (of_trigger (syn_org s) (syn_workflow s) (tri_id tr)) ts"
      "ts' = List.map (\<lambda>t. if of_trigger (syn_org s) (syn_workflow s) (tri_id tr) t then resync_task now tr t else t) ts"
    | i where "\<not> list_ex (of_trigger (syn_org s) (syn_workflow s) (tri_id tr)) ts" "ts' = ts @ [trigger_task i s now tr]"
  using assms by (auto simp: upsert_trigger_def step_simps Let_def sql_update_rows split: if_splits)

definition synced :: "sync_input \<Rightarrow> trigger_input list \<Rightarrow> sched_task list \<Rightarrow> sched_task list \<Rightarrow> bool" where
  "synced s trs ts ts' \<longleftrightarrow>
     (\<forall>tr \<in> set trs. list_ex (of_trigger (syn_org s) (syn_workflow s) (tri_id tr)) ts'
        \<and> (\<forall>t \<in> set ts'. of_trigger (syn_org s) (syn_workflow s) (tri_id tr) t \<longrightarrow> carries tr t))
     \<and> (\<forall>x. x \<notin> tri_id ` set trs \<longrightarrow>
          filter (of_trigger (syn_org s) (syn_workflow s) x) ts' = filter (of_trigger (syn_org s) (syn_workflow s) x) ts)
     \<and> filter (\<lambda>t. \<not> of_workflow (syn_org s) (syn_workflow s) t) ts' = filter (\<lambda>t. \<not> of_workflow (syn_org s) (syn_workflow s) t) ts
     \<and> (\<forall>t \<in> set ts. \<exists>u \<in> set ts'. same_row t u)"

lemma list_ex_rewritten: "(\<And>t. P (f t) \<longleftrightarrow> P t) \<Longrightarrow> list_ex P (List.map (\<lambda>t. if Q t then f t else t) ts) \<longleftrightarrow> list_ex P ts"
  by (induction ts) auto

lemma upsert_trigger_synced:
  assumes "upsert_trigger env s now tr ts = Inr ts'"
  shows "synced s [tr] ts ts'"
  using assms
proof (cases rule: upsert_trigger_cases)
  case 1
  let ?f = "resync_task now tr"
  have keys: "of_trigger o' w y (?f t) \<longleftrightarrow> of_trigger o' w y t" "of_workflow o' w (?f t) \<longleftrightarrow> of_workflow o' w t" for o' w y t
    using same_row_keys [OF resync_same_row] by blast+
  have carry: "of_trigger o' w (tri_id tr) t \<Longrightarrow> carries tr (?f t)" for o' w t
    by (simp add: of_trigger_def carries_def resync_task_def)
  have "filter (of_trigger (syn_org s) (syn_workflow s) x) ts' = filter (of_trigger (syn_org s) (syn_workflow s) x) ts" if "x \<noteq> tri_id tr" for x
    unfolding 1(2) by (rule filter_kept) (use that keys(1) in \<open>auto simp: of_trigger_def\<close>)
  moreover have "filter (\<lambda>t. \<not> of_workflow (syn_org s) (syn_workflow s) t) ts' = filter (\<lambda>t. \<not> of_workflow (syn_org s) (syn_workflow s) t) ts"
    unfolding 1(2) by (rule filter_kept) (simp add: keys(2) of_trigger_def)
  moreover have "\<exists>u \<in> set ts'. same_row t u" if "t \<in> set ts" for t
    using that resync_same_row [of t now tr] unfolding 1(2) by (auto simp: same_row_def)
  moreover have "list_ex (of_trigger (syn_org s) (syn_workflow s) (tri_id tr)) ts'"
    using 1(1) unfolding 1(2) by (subst list_ex_rewritten) (rule keys(1))
  moreover have "carries tr t" if "t \<in> set ts'" "of_trigger (syn_org s) (syn_workflow s) (tri_id tr) t" for t
    using that keys(1) carry unfolding 1(2) by (auto split: if_splits)
  ultimately show ?thesis by (simp add: synced_def)
next
  case (2 i)
  have new: "of_trigger (syn_org s) (syn_workflow s) x (trigger_task i s now tr) \<longleftrightarrow> x = tri_id tr"
    "of_workflow (syn_org s) (syn_workflow s) (trigger_task i s now tr)" "carries tr (trigger_task i s now tr)" for x
    by (auto simp: of_trigger_def of_workflow_def trigger_task_def carries_def)
  have "\<exists>u \<in> set ts'. same_row t u" if "t \<in> set ts" for t using that by (auto simp: 2(2) same_row_def)
  with 2 new show ?thesis by (auto simp: synced_def list_ex_iff)
qed

lemma same_row_trans: "same_row t u \<Longrightarrow> same_row u v \<Longrightarrow> same_row t v"
  by (simp add: same_row_def)

lemma filter_members: "filter P xs = filter P ys \<Longrightarrow> P x \<Longrightarrow> x \<in> set xs \<longleftrightarrow> x \<in> set ys"
  by (metis mem_Collect_eq set_filter)

lemma filter_empty_same: "filter P xs = filter P ys \<Longrightarrow> list_ex P xs \<longleftrightarrow> list_ex P ys"
  by (metis filter_empty_conv list_ex_iff)

lemma synced_step:
  assumes one: "synced s [tr] ts ts1" and more: "synced s trs ts1 ts'" and fresh: "tri_id tr \<notin> tri_id ` set trs"
  shows "synced s (tr # trs) ts ts'"
proof -
  let ?of = "of_trigger (syn_org s) (syn_workflow s)"
  have same: "filter (?of (tri_id tr)) ts' = filter (?of (tri_id tr)) ts1" using more fresh unfolding synced_def by blast
  have "list_ex (?of (tri_id tr)) ts'" using one filter_empty_same [OF same] by (simp add: synced_def)
  moreover have "carries tr t" if t: "t \<in> set ts'" "?of (tri_id tr) t" for t
  proof -
    have "t \<in> set ts1" using filter_members [OF same t(2)] t(1) by simp
    with one t(2) show ?thesis by (simp add: synced_def)
  qed
  moreover have "filter (?of x) ts' = filter (?of x) ts" if "x \<notin> tri_id ` set (tr # trs)" for x
  proof -
    have "filter (?of x) ts' = filter (?of x) ts1" using more that by (simp add: synced_def)
    also have "\<dots> = filter (?of x) ts" using one that by (simp add: synced_def)
    finally show ?thesis .
  qed
  moreover have "\<exists>v \<in> set ts'. same_row t v" if t: "t \<in> set ts" for t
  proof -
    obtain u where u: "u \<in> set ts1" "same_row t u" using one t unfolding synced_def by blast
    obtain v where "v \<in> set ts'" "same_row u v" using more u(1) unfolding synced_def by blast
    with u(2) same_row_trans show ?thesis by blast
  qed
  ultimately show ?thesis using one more by (simp add: synced_def)
qed

lemma synced_keeps:
  assumes "synced s trs ts ts'" "t \<in> set ts" "of_trigger org wid x t"
  shows "\<exists>u \<in> set ts'. same_row t u \<and> of_trigger org wid x u"
proof -
  from assms(1) have "\<forall>t \<in> set ts. \<exists>u \<in> set ts'. same_row t u" unfolding synced_def by (elim conjE)
  with assms(2) obtain u where u: "u \<in> set ts'" "same_row t u" by auto
  moreover from same_row_keys(2) [OF u(2)] assms(3) have "of_trigger org wid x u" by blast
  ultimately show ?thesis by blast
qed

lemma upsert_triggers_synced:
  "upsert_triggers env s now trs ts = Inr ts' \<Longrightarrow> distinct (List.map tri_id trs) \<Longrightarrow> synced s trs ts ts'"
proof (induction trs arbitrary: ts)
  case Nil
  then show ?case by (auto simp: synced_def same_row_def)
next
  case (Cons tr trs)
  from Cons.prems(1) obtain ts1 where u: "upsert_trigger env s now tr ts = Inr ts1" and rest: "upsert_triggers env s now trs ts1 = Inr ts'"
    by (auto simp: try_step_Inr)
  have more: "synced s trs ts1 ts'" using Cons.IH [OF rest] Cons.prems(2) by simp
  show ?case by (rule synced_step [OF upsert_trigger_synced [OF u] more]) (use Cons.prems(2) in simp)
qed

text \<open>
  C40. A sync leaves exactly the triggers of the workflow. When a workflow is saved, there is
  afterwards a task for each of its schedule triggers, with the name, cron expression, switch and
  next time of the trigger, and no task of the workflow for any other trigger. A trigger that was
  there keeps its task with its identifier and last run; tasks made by users, of other workflows
  and of other organizations stay as they are.
\<close>

theorem sync_leaves_exactly_the_triggers:
  assumes "sync_workflow_tasks env s db = (db', Inr ())" and "distinct (List.map tri_id (syn_triggers s))"
  shows "(\<forall>tr \<in> set (syn_triggers s). \<exists>t \<in> set (sd_tasks db'). of_trigger (syn_org s) (syn_workflow s) (tri_id tr) t \<and> carries tr t)
    \<and> (\<forall>t \<in> set (sd_tasks db'). of_workflow (syn_org s) (syn_workflow s) t \<longrightarrow> (\<exists>tr \<in> set (syn_triggers s). carries tr t))
    \<and> (\<forall>t \<in> set (sd_tasks db). \<forall>tr \<in> set (syn_triggers s). of_trigger (syn_org s) (syn_workflow s) (tri_id tr) t \<longrightarrow>
          (\<exists>u \<in> set (sd_tasks db'). same_row t u \<and> carries tr u))
    \<and> filter (\<lambda>t. \<not> of_workflow (syn_org s) (syn_workflow s) t) (sd_tasks db')
        = filter (\<lambda>t. \<not> of_workflow (syn_org s) (syn_workflow s) t) (sd_tasks db)"
proof -
  from assms(1) obtain ts where ts: "upsert_triggers env s (utc_or_now env [] (syn_now s)) (syn_triggers s) (sd_tasks db) = Inr ts"
    and db': "db' = delete_tasks (stale_trigger s) (db\<lparr>sd_tasks := ts\<rparr>)"
    by (cases rule: sync_cases) auto
  let ?of = "of_trigger (syn_org s) (syn_workflow s)"
  from upsert_triggers_synced [OF ts assms(2)] have sync: "synced s (syn_triggers s) (sd_tasks db) ts" .
  have tasks: "sd_tasks db' = filter (\<lambda>t. \<not> stale_trigger s t) ts" by (simp add: db' delete_tasks_def)
  have kept: "\<not> stale_trigger s t" if "tr \<in> set (syn_triggers s)" "?of (tri_id tr) t" for tr t
    using that by (auto simp: stale_trigger_def of_trigger_def)
  have known: "\<exists>tr \<in> set (syn_triggers s). ?of (tri_id tr) t" if "\<not> stale_trigger s t" "of_workflow (syn_org s) (syn_workflow s) t" for t
    using that by (auto simp: stale_trigger_def of_trigger_def)
  have each: "\<exists>t \<in> set (sd_tasks db'). ?of (tri_id tr) t \<and> carries tr t" if tr: "tr \<in> set (syn_triggers s)" for tr
  proof -
    obtain t where "t \<in> set ts" "?of (tri_id tr) t" "carries tr t" using sync tr unfolding synced_def list_ex_iff by blast
    with kept [OF tr] show ?thesis unfolding tasks by auto
  qed
  have carry: "carries tr t" if "tr \<in> set (syn_triggers s)" "t \<in> set ts" "?of (tri_id tr) t" for tr t
    using sync that unfolding synced_def by blast
  have only: "\<exists>tr \<in> set (syn_triggers s). carries tr t" if "t \<in> set (sd_tasks db')" "of_workflow (syn_org s) (syn_workflow s) t" for t
  proof -
    from that(1) have t: "t \<in> set ts" "\<not> stale_trigger s t" unfolding tasks by simp_all
    from known [OF t(2) that(2)] carry [OF _ t(1)] show ?thesis by blast
  qed
  have rows: "\<exists>u \<in> set (sd_tasks db'). same_row t u \<and> carries tr u"
    if "t \<in> set (sd_tasks db)" "tr \<in> set (syn_triggers s)" "?of (tri_id tr) t" for t tr
  proof -
    from synced_keeps [OF sync that(1,3)] obtain u where u: "u \<in> set ts" "same_row t u" "?of (tri_id tr) u" by auto
    have "u \<in> set (sd_tasks db')" using u(1) kept [OF that(2) u(3)] by (simp add: tasks)
    with u(2) carry [OF that(2) u(1,3)] show ?thesis by blast
  qed
  have "filter (\<lambda>t. \<not> of_workflow (syn_org s) (syn_workflow s) t) (sd_tasks db') = filter (\<lambda>t. \<not> of_workflow (syn_org s) (syn_workflow s) t) ts"
    unfolding tasks filter_filter by (rule filter_cong [OF refl]) (metis stale_trigger_def)
  also have "\<dots> = filter (\<lambda>t. \<not> of_workflow (syn_org s) (syn_workflow s) t) (sd_tasks db)" using sync unfolding synced_def by blast
  finally have "filter (\<lambda>t. \<not> of_workflow (syn_org s) (syn_workflow s) t) (sd_tasks db')
      = filter (\<lambda>t. \<not> of_workflow (syn_org s) (syn_workflow s) t) (sd_tasks db)" .
  moreover have "\<forall>tr \<in> set (syn_triggers s). \<exists>t \<in> set (sd_tasks db'). ?of (tri_id tr) t \<and> carries tr t" by (rule ballI) (rule each)
  moreover have "\<forall>t \<in> set (sd_tasks db'). of_workflow (syn_org s) (syn_workflow s) t \<longrightarrow> (\<exists>tr \<in> set (syn_triggers s). carries tr t)"
    by (intro ballI impI) (rule only)
  moreover have "\<forall>t \<in> set (sd_tasks db). \<forall>tr \<in> set (syn_triggers s). ?of (tri_id tr) t \<longrightarrow>
      (\<exists>u \<in> set (sd_tasks db'). same_row t u \<and> carries tr u)" by (intro ballI impI) (rule rows)
  ultimately show ?thesis by (intro conjI)
qed

definition hourly_trigger :: "string \<Rightarrow> trigger_input" where
  "hourly_trigger i = \<lparr>tri_id = i, tri_name = i, tri_cron = ''hourly'', tri_enabled = True, tri_next = Some 30\<rparr>"

definition saved_workflow :: sync_input where
  "saved_workflow = \<lparr>syn_org = ''org'', syn_workflow = ''flow'', syn_triggers = [hourly_trigger ''new'', hourly_trigger ''kept''], syn_now = 20\<rparr>"

definition triggered_tasks :: sched_db where
  "triggered_tasks = \<lparr>sd_tasks = [(sample_task ''a'' 5)\<lparr>st_trigger := Some ''dropped''\<rparr>, (sample_task ''b'' 5)\<lparr>st_trigger := Some ''kept''\<rparr>,
     sample_task ''c'' 5], sd_runs = []\<rparr>"

lemma sample_sync: "snd (sync_workflow_tasks (calm_sched 20) saved_workflow triggered_tasks) = Inr ()"
  by (simp add: sync_workflow_tasks_def upsert_trigger_def saved_workflow_def triggered_tasks_def hourly_trigger_def sched_evals step_simps
      sched_samples of_trigger_def of_workflow_def)

theorem sync_leaves_exactly_the_triggers_witness:
  "\<exists>db' t u. sync_workflow_tasks (calm_sched 20) saved_workflow triggered_tasks = (db', Inr ()) \<and> t \<in> set (sd_tasks db')
     \<and> carries (hourly_trigger ''new'') t \<and> u \<in> set (sd_tasks db') \<and> st_id u = ''b'' \<and> carries (hourly_trigger ''kept'') u"
proof -
  obtain db' where e: "sync_workflow_tasks (calm_sched 20) saved_workflow triggered_tasks = (db', Inr ())"
    using sample_sync by (metis prod.collapse)
  have ids: "distinct (List.map tri_id (syn_triggers saved_workflow))" by (simp add: saved_workflow_def hourly_trigger_def)
  let ?b = "(sample_task ''b'' 5)\<lparr>st_trigger := Some ''kept''\<rparr>"
  have b: "?b \<in> set (sd_tasks triggered_tasks)" "of_trigger (syn_org saved_workflow) (syn_workflow saved_workflow) (tri_id (hourly_trigger ''kept'')) ?b"
    "st_id ?b = ''b''"
    by (simp_all add: triggered_tasks_def of_trigger_def of_workflow_def saved_workflow_def hourly_trigger_def sample_task_def)
  have trs: "hourly_trigger ''new'' \<in> set (syn_triggers saved_workflow)" "hourly_trigger ''kept'' \<in> set (syn_triggers saved_workflow)"
    by (simp_all add: saved_workflow_def)
  note leaves = sync_leaves_exactly_the_triggers [OF e ids]
  from leaves trs(1) obtain t where t: "t \<in> set (sd_tasks db')" "carries (hourly_trigger ''new'') t" by blast
  from leaves trs(2) b(1,2) obtain u where u: "u \<in> set (sd_tasks db')" "same_row ?b u" "carries (hourly_trigger ''kept'') u" by blast
  from u(2) b(3) have "st_id u = ''b''" by (simp add: same_row_def)
  with e t u show ?thesis by blast
qed

subsection \<open>Well-formed rows\<close>

definition task_formed :: "sched_task \<Rightarrow> bool" where
  "task_formed t \<longleftrightarrow> st_org t \<noteq> [] \<and> st_name t \<noteq> [] \<and> st_type t \<in> {''workflow'', ''agent''} \<and> st_target t \<noteq> []
     \<and> (st_trigger t \<noteq> None \<longrightarrow> st_type t = ''workflow'') \<and> (st_enabled t \<longrightarrow> st_next t \<noteq> None)"

definition run_formed :: "sched_task list \<Rightarrow> sched_run \<Rightarrow> bool" where
  "run_formed ts r \<longleftrightarrow> valid_run_status (sr_status r) \<and> list_ex (task_key (sr_org r) (sr_task r)) ts"

definition sched_formed :: "sched_db \<Rightarrow> bool" where
  "sched_formed db \<longleftrightarrow> list_all task_formed (sd_tasks db) \<and> list_all (run_formed (sd_tasks db)) (sd_runs db)"

lemma formed_map:
  assumes "sched_formed db" "\<And>t. task_formed t \<Longrightarrow> task_formed (g t)" "\<And>t org i. task_key org i (g t) \<longleftrightarrow> task_key org i t"
    and "\<And>r. run_formed (sd_tasks db) r \<Longrightarrow> run_formed (sd_tasks db) (f r)"
  shows "sched_formed \<lparr>sd_tasks = List.map g (sd_tasks db), sd_runs = List.map f (sd_runs db)\<rparr>"
proof -
  have "list_ex (task_key org i) (List.map g ts) \<longleftrightarrow> list_ex (task_key org i) ts" for org i ts
    by (induction ts) (simp_all add: assms(3))
  then have "run_formed (List.map g ts) r \<longleftrightarrow> run_formed ts r" for ts r by (simp add: run_formed_def)
  with assms(1,2,4) show ?thesis by (auto simp: sched_formed_def list_all_iff)
qed

lemma formed_rows: "sched_formed db \<Longrightarrow> sd_tasks db' = sd_tasks db \<Longrightarrow> \<forall>r \<in> set (sd_runs db'). r \<in> set (sd_runs db) \<or> run_formed (sd_tasks db) r \<Longrightarrow> sched_formed db'"
  by (auto simp: sched_formed_def list_all_iff)

lemma claim_formed:
  assumes "sched_formed db"
  shows "sched_formed (fst (claim_due_runs env now limit db))"
proof -
  obtain db' r where c: "claim_due_runs env now limit db = (db', r)" by fastforce
  have "sched_formed db'"
  proof (cases r)
    case (Inl e)
    with c assms claim_due_fails show ?thesis by blast
  next
    case (Inr cs)
    note rows = claim_due_rows [OF c [unfolded Inr]]
    note claimed = claim_tasks_rows [OF rows(1)]
    have "run_formed (sd_tasks db) (snd c)" if "c \<in> set cs" for c
    proof -
      have "fst c \<in> set (List.map fst cs)" using that by simp
      then have "fst c \<in> set (sd_tasks db)" using claimed(2) due_task_set by metis
      with claimed(3) that show ?thesis
        by (fastforce simp: run_formed_def claimed_run_def valid_run_status_def list_ex_iff task_key_def)
    qed
    then show ?thesis using claimed(1) by (intro formed_rows [OF assms rows(2)]) auto
  qed
  with c show ?thesis by simp
qed

lemma end_and_move_formed:
  assumes "sched_formed db" "\<And>t. task_formed t \<Longrightarrow> task_formed (g t)" "\<And>t o' i. task_key o' i (g t) \<longleftrightarrow> task_key o' i t"
    and "\<And>ts r. run_formed ts r \<Longrightarrow> run_formed ts (f r)"
  shows "sched_formed (fst (end_and_move env key f g db))"
proof -
  obtain org task i where k: "key = (org, task, i)" by (cases key)
  obtain db' r where e: "end_and_move env (org, task, i) f g db = (db', r)" by fastforce
  have "sched_formed db'"
  proof (cases r)
    case (Inl err)
    with e end_and_move_fails assms(1) show ?thesis by blast
  next
    case (Inr x)
    note rows = end_and_move_rows [OF e [unfolded Inr]]
    have "sched_formed \<lparr>sd_tasks = sd_tasks db', sd_runs = sd_runs db'\<rparr>"
      unfolding rows(1,2) using assms by (intro formed_map) (auto simp: if_distrib)
    then show ?thesis by (simp add: sched_formed_def)
  qed
  with e k show ?thesis by simp
qed

lemma ended_formed: "valid_run_status status \<Longrightarrow> run_formed ts r \<Longrightarrow> run_formed ts (ended_run env status finished err r)"
  by (simp add: run_formed_def ended_run_def)

lemma finishing_formed:
  assumes "sched_formed db"
  shows "sched_formed (fst (complete_scheduled_run env key finished next db))" "sched_formed (fst (fail_scheduled_run env key finished err next db))"
    "sched_formed (fst (complete_manual_run env key finished db))"
  unfolding complete_scheduled_run_def fail_scheduled_run_def complete_manual_run_def Let_def
  by (rule end_and_move_formed [OF assms];
      simp add: ended_formed valid_run_status_def moved_task_def task_formed_def task_key_def)+

lemma update_run_formed:
  assumes "sched_formed db"
  shows "sched_formed (fst (schedule_update_run env org i u db))"
proof (cases "normalize_update_input u")
  case (Inl e)
  with assms show ?thesis by (simp add: schedule_update_run_def Let_def)
next
  case (Inr n)
  then have status: "valid_run_status (uri_status n)" by (auto simp: normalize_update_input_def Let_def try_step_Inr)
  obtain db' r where e: "update_scheduled_run env (trim_space org) (trim_space i) n db = (db', r)" by fastforce
  let ?f = "\<lambda>r. r\<lparr>sr_status := uri_status n, sr_finished := uri_finished n, sr_error := uri_error n, sr_updated := sc_clock env (trim_space i)\<rparr>"
  have "run_formed (sd_tasks db) (?f r)" if "run_formed (sd_tasks db) r" for r using that status by (simp add: run_formed_def)
  with assms have "\<forall>r \<in> set (sd_runs db). run_formed (sd_tasks db) r \<and> run_formed (sd_tasks db) (?f r)" by (simp add: sched_formed_def list_all_iff)
  then have "sched_formed db'"
    by (intro formed_rows [OF assms update_run_rows(1) [OF e]]) (use update_run_rows(2) [OF e] in auto)
  with e Inr assms show ?thesis by (simp add: schedule_update_run_def Let_def)
qed

lemma enabled_next_set: "enabled_next env enabled expr now = Inr next \<Longrightarrow> enabled \<Longrightarrow> next \<noteq> None"
  by (auto simp: enabled_next_def split: sum.splits)

lemma create_formed:
  assumes "sched_formed db"
  shows "sched_formed (fst (schedule_create env org c db))"
proof (cases "normalize_create_input env org c")
  case (Inl e)
  with assms show ?thesis by (simp add: schedule_create_def)
next
  case (Inr n)
  then have n: "cti_org n \<noteq> []" "cti_name n \<noteq> []" "cti_type n \<in> {''workflow'', ''agent''}" "cti_target n \<noteq> []"
    "cti_enabled n \<Longrightarrow> cti_next n \<noteq> None"
    by (auto simp: normalize_create_input_def Let_def step_simps dest: enabled_next_set)
  have "task_formed (new_task env i n)" for i using n by (auto simp: task_formed_def new_task_def)
  moreover have "run_formed (ts @ [t]) r" if "run_formed ts r" for ts t r using that by (simp add: run_formed_def)
  ultimately show ?thesis using assms Inr
    by (auto simp: schedule_create_def create_scheduled_task_def sched_formed_def list_all_iff split: option.split)
qed

lemma record_formed:
  assumes "sched_formed db"
  shows "sched_formed (fst (schedule_record_run env org c db))"
proof -
  obtain db' r where e: "schedule_record_run env org c db = (db', r)" by fastforce
  have recorded: "sched_formed db'" if "record_scheduled_run env n db = (db', Inr x)" "valid_run_status (rri_status n)" for n x
  proof (rule formed_rows [OF assms record_run_rows(1) [OF that(1)]])
    have "run_formed (sd_tasks db) x"
      using that by (auto simp: record_scheduled_run_def recorded_run_def run_formed_def split: option.splits if_splits)
    then show "\<forall>r \<in> set (sd_runs db'). r \<in> set (sd_runs db) \<or> run_formed (sd_tasks db) r"
      using record_run_rows(2) [OF that(1)] by auto
  qed
  have valid: "valid_run_status (rri_status n)" if "normalize_record_input org c = Inr n" for n
    using that by (auto simp: normalize_record_input_def Let_def step_simps)
  have "valid_run_status (rri_status (queued_input n))" for n by (simp add: queued_input_def valid_run_status_def)
  with e recorded valid assms show ?thesis
    by (cases r) (auto simp: schedule_record_run_def dest: record_run_fails split: sum.splits if_splits)
qed

lemma enable_formed:
  assumes "sched_formed db"
  shows "sched_formed (fst (schedule_update_enabled env org i enabled now db))"
proof -
  have stored: "sched_formed (fst (update_task_enabled env o' j enabled nx db))" if "enabled \<Longrightarrow> nx \<noteq> None" for o' j nx
  proof -
    let ?g = "\<lambda>t. if task_key o' j t then t\<lparr>st_enabled := enabled, st_next := nx, st_updated := sc_clock env j\<rparr> else t"
    have "sched_formed \<lparr>sd_tasks = List.map ?g (sd_tasks db), sd_runs = List.map (\<lambda>r. r) (sd_runs db)\<rparr>"
      using that by (intro formed_map [OF assms]) (auto simp: task_formed_def task_key_def)
    with assms show ?thesis
      by (auto simp: update_task_enabled_def Let_def sql_update_rows sched_formed_def split: option.split)
  qed
  have "sched_formed (fst (update_task_enabled env o' j enabled nx db))" if "enabled_next env enabled expr now = Inr nx" for o' j expr nx
    using that by (intro stored) (rule enabled_next_set)
  with assms show ?thesis by (simp add: schedule_update_enabled_def Let_def split: sum.split)
qed

definition trigger_formed :: "trigger_input \<Rightarrow> bool" where
  "trigger_formed tr \<longleftrightarrow> tri_name tr \<noteq> [] \<and> (tri_enabled tr \<longrightarrow> tri_next tr \<noteq> None)"

lemma normalize_triggers_formed: "normalize_triggers env now trs = Inr ns \<Longrightarrow> list_all trigger_formed ns"
proof (induction trs arbitrary: ns)
  case (Cons tr trs)
  have "normalize_trigger env now tr = Inr n \<Longrightarrow> trigger_formed n" for n
    by (auto simp: normalize_trigger_def Let_def step_simps trigger_formed_def dest: enabled_next_set split: if_splits)
  with Cons show ?case by (auto simp: step_simps)
qed simp

lemma upsert_formed:
  assumes "upsert_trigger env s now tr ts = Inr ts'" "list_all task_formed ts" "trigger_formed tr" "syn_org s \<noteq> []" "syn_workflow s \<noteq> []"
  shows "list_all task_formed ts' \<and> (\<forall>org i. list_ex (task_key org i) ts \<longrightarrow> list_ex (task_key org i) ts')"
  using assms(1)
proof (cases rule: upsert_trigger_cases)
  case 1
  have "task_key o' i (resync_task now tr t) = task_key o' i t" for o' i t by (simp add: task_key_def resync_task_def)
  then have "list_ex (task_key o' i) ts' = list_ex (task_key o' i) ts" for o' i unfolding 1(2) by (rule list_ex_rewritten)
  moreover have "task_formed (resync_task now tr t)" if "task_formed t" for t
    using that assms(3) by (auto simp: task_formed_def resync_task_def trigger_formed_def)
  ultimately show ?thesis using assms(2) by (auto simp: 1(2) list_all_iff)
next
  case (2 i)
  have "task_formed (trigger_task i s now tr)" using assms(3-5) by (auto simp: task_formed_def trigger_task_def trigger_formed_def)
  then show ?thesis using assms(2) by (auto simp: 2(2))
qed

lemma upserts_formed:
  "upsert_triggers env s now trs ts = Inr ts' \<Longrightarrow> list_all task_formed ts \<Longrightarrow> list_all trigger_formed trs \<Longrightarrow> syn_org s \<noteq> [] \<Longrightarrow> syn_workflow s \<noteq> []
   \<Longrightarrow> list_all task_formed ts' \<and> (\<forall>org i. list_ex (task_key org i) ts \<longrightarrow> list_ex (task_key org i) ts')"
proof (induction trs arbitrary: ts)
  case (Cons tr trs)
  from Cons.prems(1) obtain ts1 where u: "upsert_trigger env s now tr ts = Inr ts1" "upsert_triggers env s now trs ts1 = Inr ts'"
    by (auto simp: try_step_Inr)
  with upsert_formed [OF u(1)] Cons show ?case by simp
qed simp

lemma delete_formed:
  assumes "list_all task_formed (sd_tasks db)" "list_all (run_formed (sd_tasks db)) (sd_runs db)"
  shows "sched_formed (delete_tasks P db)"
  using assms by (fastforce simp: sched_formed_def delete_tasks_def list_all_iff list_ex_iff run_formed_def task_key_def)

lemma sync_formed:
  assumes "sched_formed db"
  shows "sched_formed (fst (schedule_sync env s db))"
proof (cases "normalize_sync_input env s")
  case (Inl e)
  with assms show ?thesis by (simp add: schedule_sync_def)
next
  case (Inr n)
  then have n: "syn_org n \<noteq> []" "syn_workflow n \<noteq> []" "list_all trigger_formed (syn_triggers n)"
    by (auto simp: normalize_sync_input_def Let_def step_simps dest: normalize_triggers_formed)
  obtain db' r where e: "sync_workflow_tasks env n db = (db', r)" by fastforce
  then have "sched_formed db'"
  proof (cases rule: sync_cases)
    case (2 ts)
    have "list_all task_formed (sd_tasks db)" using assms by (simp add: sched_formed_def)
    from upserts_formed [OF 2(2) this n(3,1,2)] assms have "list_all task_formed ts" "list_all (run_formed ts) (sd_runs db)"
      by (auto simp: sched_formed_def run_formed_def list_all_iff)
    then show ?thesis unfolding 2(3) by (intro delete_formed) simp_all
  qed (simp add: assms)
  with e Inr show ?thesis by (simp add: schedule_sync_def)
qed

lemma sched_steps_formed: "sched_formed db \<Longrightarrow> sched_formed (sched_steps ops db)"
proof (induction ops arbitrary: db)
  case (Cons x xs)
  have "sched_formed (sched_step x db)" using Cons.prems
    by (cases x) (simp_all add: claim_formed finishing_formed update_run_formed record_formed create_formed sync_formed enable_formed)
  with Cons.IH show ?case by simp
qed simp

text \<open>
  C31. Rows are well-formed. Whatever workers and requests do, and whichever statements fail, every
  task belongs to an organization, has a name and a target of one of the two kinds, comes from a
  trigger only when it runs a workflow, and has a next time while it is enabled, so that an enabled
  task is never lost to the worker; every run has one of the five statuses and a task of its
  organization.
\<close>

theorem schedule_rows_are_formed:
  shows "list_all task_formed (sd_tasks (sched_steps ops \<lparr>sd_tasks = [], sd_runs = []\<rparr>))
    \<and> list_all (run_formed (sd_tasks (sched_steps ops \<lparr>sd_tasks = [], sd_runs = []\<rparr>))) (sd_runs (sched_steps ops \<lparr>sd_tasks = [], sd_runs = []\<rparr>))"
  using sched_steps_formed [of "\<lparr>sd_tasks = [], sd_runs = []\<rparr>" ops] by (simp add: sched_formed_def)

end
