(* ===== verification/Schedule_Flows.thy ===== *)
theory Schedule_Flows
  imports Schedule_Properties
begin

text \<open>
  Whole passes of the worker and manual runs: a run that ends moves its task to the next time; a
  run that is queued, or left running, stays so for good.
\<close>

subsection \<open>Runs that are left over\<close>

text \<open>Only the runs with these identifiers change, and they keep their task.\<close>

definition only_runs :: "string set \<Rightarrow> sched_db \<Rightarrow> sched_db \<Rightarrow> bool" where
  "only_runs ids db db' \<longleftrightarrow> (\<exists>f. sd_runs db' = List.map f (sd_runs db)
     \<and> (\<forall>r. sr_id (f r) = sr_id r \<and> sr_org (f r) = sr_org r \<and> sr_task (f r) = sr_task r \<and> (sr_id r \<notin> ids \<longrightarrow> f r = r)))"

lemma only_runs_refl [simp]: "only_runs ids db db"
  unfolding only_runs_def by (intro exI [of _ "\<lambda>r. r"]) simp

lemma only_runs_trans:
  assumes "only_runs ids db db1" "only_runs ids' db1 db2"
  shows "only_runs (ids \<union> ids') db db2"
proof -
  from assms obtain f g where "sd_runs db1 = List.map f (sd_runs db)" "sd_runs db2 = List.map g (sd_runs db1)"
    "\<forall>r. sr_id (f r) = sr_id r \<and> sr_org (f r) = sr_org r \<and> sr_task (f r) = sr_task r \<and> (sr_id r \<notin> ids \<longrightarrow> f r = r)"
    "\<forall>r. sr_id (g r) = sr_id r \<and> sr_org (g r) = sr_org r \<and> sr_task (g r) = sr_task r \<and> (sr_id r \<notin> ids' \<longrightarrow> g r = r)"
    unfolding only_runs_def by blast
  then show ?thesis unfolding only_runs_def by (intro exI [of _ "g \<circ> f"]) auto
qed

lemma only_runs_map:
  assumes "sd_runs db' = List.map (\<lambda>r. if P r then f r else r) (sd_runs db)" "\<And>r. P r \<Longrightarrow> sr_id r \<in> ids"
    "\<And>r. sr_id (f r) = sr_id r \<and> sr_org (f r) = sr_org r \<and> sr_task (f r) = sr_task r"
  shows "only_runs ids db db'"
  unfolding only_runs_def by (intro exI [of _ "\<lambda>r. if P r then f r else r"]) (use assms in auto)

lemma update_only: "only_runs {i} db (fst (update_scheduled_run env org i u db))"
proof -
  obtain db' r where e: "update_scheduled_run env org i u db = (db', r)" by fastforce
  from update_run_rows(2) [OF e] have "only_runs {i} db db'"
  proof
    assume "sd_runs db' = sd_runs db"
    then show ?thesis unfolding only_runs_def by (intro exI [of _ "\<lambda>r. r"]) simp
  next
    assume "sd_runs db' = List.map (\<lambda>r. if sr_org r = org \<and> sr_id r = i
      then r\<lparr>sr_status := uri_status u, sr_finished := uri_finished u, sr_error := uri_error u, sr_updated := sc_clock env i\<rparr> else r) (sd_runs db)"
    then show ?thesis by (rule only_runs_map) auto
  qed
  with e show ?thesis by simp
qed

lemma schedule_update_only: "trim_space i = i \<Longrightarrow> only_runs {i} db (fst (schedule_update_run env org i u db))"
  using update_only by (auto simp: schedule_update_run_def Let_def split: sum.split)

lemma end_and_move_only:
  assumes "\<And>r. sr_id (f r) = sr_id r \<and> sr_org (f r) = sr_org r \<and> sr_task (f r) = sr_task r"
  shows "only_runs {snd (snd key)} db (fst (end_and_move env key f g db))"
proof -
  obtain org task i where k: "key = (org, task, i)" by (cases key)
  obtain db' r where e: "end_and_move env (org, task, i) f g db = (db', r)" by fastforce
  have "only_runs {i} db db'"
  proof (cases r)
    case (Inl err)
    with e end_and_move_fails show ?thesis by fastforce
  next
    case (Inr x)
    note rows = end_and_move_rows(1) [OF e [unfolded Inr]]
    then show ?thesis by (rule only_runs_map) (use assms in \<open>auto simp: running_key_def\<close>)
  qed
  with e k show ?thesis by simp
qed

lemma finishing_only:
  "only_runs {snd (snd key)} db (fst (complete_scheduled_run env key finished next db))"
  "only_runs {snd (snd key)} db (fst (fail_scheduled_run env key finished err next db))"
  "only_runs {snd (snd key)} db (fst (complete_manual_run env key finished db))"
  by (simp_all add: complete_scheduled_run_def fail_scheduled_run_def complete_manual_run_def Let_def end_and_move_only ended_run_def)

lemma with_run_db: "fst (with_run x out) = fst out"
  by (auto simp: with_run_def split: prod.split sum.split)

lemma fail_claimed_only:
  assumes "trim_space (sr_id (rr_run x)) = sr_id (rr_run x)"
  shows "only_runs {sr_id (rr_run x)} db (fst (fail_claimed env x e now db))"
proof (cases "next_run_time env (st_cron (rr_task x)) now")
  case (Inl err)
  then show ?thesis using assms by (simp add: fail_claimed_def Let_def with_run_db schedule_update_only)
next
  case (Inr nx)
  let ?r = "rr_run x"
  obtain db1 s where f: "fail_scheduled_run env (run_key (rr_task x) ?r) (sc_clock env (sr_id ?r)) (sc_text env e) nx db = (db1, s)" by fastforce
  have one: "only_runs {sr_id ?r} db db1"
    using finishing_only(2) [where key = "run_key (rr_task x) ?r" and db = db and env = env] f by (metis fst_conv run_key_def snd_conv)
  have "only_runs ({sr_id ?r} \<union> {sr_id ?r}) db (fst (schedule_update_run env (st_org (rr_task x)) (sr_id ?r) u db1))" for u
    using one schedule_update_only [OF assms] by (rule only_runs_trans)
  with one Inr f show ?thesis by (cases s) (simp_all add: fail_claimed_def Let_def with_run_db)
qed

lemma complete_claimed_only:
  assumes "trim_space (sr_id (rr_run x)) = sr_id (rr_run x)"
  shows "only_runs {sr_id (rr_run x)} db (fst (complete_claimed env x now db))"
proof (cases "next_run_time env (st_cron (rr_task x)) now")
  case (Inl err)
  then show ?thesis using fail_claimed_only [OF assms] by (simp add: complete_claimed_def Let_def)
next
  case (Inr nx)
  let ?r = "rr_run x"
  obtain db1 s where f: "complete_scheduled_run env (run_key (rr_task x) ?r) (sc_clock env (sr_id ?r)) nx db = (db1, s)" by fastforce
  have "only_runs {sr_id ?r} db db1"
    using finishing_only(1) [where key = "run_key (rr_task x) ?r" and db = db and env = env] f by (metis fst_conv run_key_def snd_conv)
  with Inr f show ?thesis by (cases s) (simp_all add: complete_claimed_def Let_def)
qed

lemma run_claimed_only:
  assumes "trim_space (sr_id (snd c)) = sr_id (snd c)"
  shows "only_runs {sr_id (snd c)} db (fst (run_claimed env sv now c db))"
proof -
  let ?x = "\<lparr>rr_task = fst c, rr_run = snd c, rr_err = None\<rparr>"
  have "only_runs {sr_id (snd c)} db (fst (fail_claimed env ?x e now db))" "only_runs {sr_id (snd c)} db (fst (complete_claimed env ?x now db))" for e
    using fail_claimed_only [of ?x] complete_claimed_only [of ?x] assms by simp_all
  then show ?thesis
    by (simp add: run_claimed_def run_claimed_agent_def run_claimed_workflow_def Let_def split: option.split sum.split)
qed

lemma run_claimed_all_only:
  "(\<forall>c \<in> set cs. trim_space (sr_id (snd c)) = sr_id (snd c)) \<Longrightarrow>
   only_runs (sr_id ` snd ` set cs) db (fst (run_claimed_all env sv now cs db))"
proof (induction cs arbitrary: db)
  case (Cons c cs)
  obtain db1 x where 1: "run_claimed env sv now c db = (db1, x)" by fastforce
  obtain db2 xs where 2: "run_claimed_all env sv now cs db1 = (db2, xs)" by fastforce
  have "only_runs {sr_id (snd c)} db db1" using run_claimed_only [of c db env sv now] 1 Cons.prems by simp
  moreover have "only_runs (sr_id ` snd ` set cs) db1 db2" using Cons.IH [of db1] 2 Cons.prems by simp
  ultimately show ?case using only_runs_trans 1 2 by fastforce
qed simp

text \<open>The rows there are stay as they are, and a task with a running run only gets queued ones.\<close>

definition leaves_runs :: "sched_db \<Rightarrow> sched_db \<Rightarrow> bool" where
  "leaves_runs db db' \<longleftrightarrow> set (sd_runs db) \<subseteq> set (sd_runs db')
     \<and> (\<forall>r \<in> set (sd_runs db). sr_status r = ''running'' \<longrightarrow>
          (\<forall>s \<in> set (sd_runs db'). same_task r s \<longrightarrow> s \<in> set (sd_runs db) \<or> sr_status s = ''queued''))"

lemma leaves_refl [simp]: "leaves_runs db db"
  by (simp add: leaves_runs_def)

lemma leaves_trans: "leaves_runs db db1 \<Longrightarrow> leaves_runs db1 db2 \<Longrightarrow> leaves_runs db db2"
  unfolding leaves_runs_def by blast

lemma leaves_added:
  assumes runs: "sd_runs db1 = sd_runs db @ new" and only: "only_runs (sr_id ` set new) db1 db2"
    and fresh: "\<forall>r \<in> set (sd_runs db). \<forall>s \<in> set new. sr_id r \<noteq> sr_id s"
    and alone: "\<forall>s \<in> set new. running_of db (sr_org s) (sr_task s) = []"
  shows "leaves_runs db db2"
proof -
  from only obtain f where f: "sd_runs db2 = List.map f (sd_runs db1)"
    "\<And>r. sr_org (f r) = sr_org r \<and> sr_task (f r) = sr_task r \<and> (sr_id r \<notin> sr_id ` set new \<longrightarrow> f r = r)"
    unfolding only_runs_def by blast
  have same: "f r = r" if "r \<in> set (sd_runs db)" for r using that fresh f(2) by blast
  then have "List.map f (sd_runs db) = sd_runs db" by (simp add: map_idI)
  then have runs2: "sd_runs db2 = sd_runs db @ List.map f new" using f(1) runs by simp
  have "\<not> same_task r (f s)" if "r \<in> set (sd_runs db)" "sr_status r = ''running''" "s \<in> set new" for r s
    using that alone f(2) [of s] by (auto simp: running_of_empty same_task_def)
  with runs2 show ?thesis by (auto simp: leaves_runs_def)
qed

definition trimmed_ids :: "sched_env \<Rightarrow> bool" where
  "trimmed_ids env \<longleftrightarrow> (\<forall>k i. sc_new_id env k = Some i \<longrightarrow> trim_space i = i)"

lemma pass_leaves:
  assumes "trimmed_ids env"
  shows "leaves_runs db (fst (run_due_tasks env sv now limit db))"
proof (cases "\<not> sv_workflows sv \<and> \<not> sv_agents sv \<or> sc_refuses env GateClaim []")
  case False
  let ?now = "utc_or_now env [] now" and ?limit = "if limit \<le> 0 then 50 else limit"
  obtain db1 r where c: "claim_due_runs env ?now ?limit db = (db1, r)" by fastforce
  show ?thesis
  proof (cases r)
    case (Inl e)
    have "db1 = db" using c [unfolded Inl] by (rule claim_due_fails)
    with c Inl False show ?thesis by (simp add: run_due_tasks_def Let_def)
  next
    case (Inr cs)
    note rows = claim_due_rows [OF c [unfolded Inr]]
    note claimed = claim_tasks_rows [OF rows(1)]
    obtain db2 xs where all: "run_claimed_all env sv ?now cs db1 = (db2, xs)" by fastforce
    have "\<forall>c \<in> set cs. trim_space (sr_id (snd c)) = sr_id (snd c)"
      using claimed(3) assms by (fastforce simp: trimmed_ids_def claimed_run_def)
    then have only: "only_runs (sr_id ` set (List.map snd cs)) db1 db2"
      using run_claimed_all_only [where cs = cs and env = env and sv = sv and now = ?now and db = db1] all by (simp add: image_image)
    have "running_of db (sr_org s) (sr_task s) = []" if "s \<in> set (List.map snd cs)" for s
    proof -
      from that obtain c where c: "c \<in> set cs" "s = snd c" by auto
      then have "fst c \<in> set (due_tasks env (utc_or_now env [] ?now) (if ?limit \<le> 0 then 50 else ?limit) db)"
        using claimed(2) by (metis image_eqI list.set_map)
      from due_task_set [OF this] claimed(3) c show ?thesis by (auto simp: task_due_def claimed_run_def)
    qed
    then have "leaves_runs db db2" using claimed(1,4) only by (intro leaves_added [of db1 db "List.map snd cs"]) auto
    with c Inr False all show ?thesis by (simp add: run_due_tasks_def Let_def)
  qed
qed (auto simp: run_due_tasks_def Let_def)

lemma run_now_target_only:
  assumes "trim_space (sr_id (rr_run x)) = sr_id (rr_run x)"
  shows "only_runs {sr_id (rr_run x)} db (fst (run_now_target env sv session x db))"
proof -
  have f: "only_runs {sr_id (rr_run x)} db (fst (fail_manual env org x e db))" for org e
    using assms by (simp add: fail_manual_def with_run_db schedule_update_only)
  have c: "only_runs {sr_id (rr_run x)} db (fst (complete_manual env x db))"
  proof -
    obtain db1 s where e: "complete_manual_run env (run_key (rr_task x) (rr_run x)) (sc_clock env (sr_id (rr_run x))) db = (db1, s)" by fastforce
    have "only_runs {sr_id (rr_run x)} db db1"
      using finishing_only(3) [where key = "run_key (rr_task x) (rr_run x)" and db = db and env = env] e by (metis fst_conv run_key_def snd_conv)
    with e show ?thesis by (cases s) (simp_all add: complete_manual_def)
  qed
  from f c show ?thesis by (simp add: run_now_target_def Let_def split: option.split sum.split)
qed

lemma running_status: "to_lower (trim_space ''running'') = ''running''"
  by code_simp

lemma recorded_status:
  assumes "schedule_record_run env org (running_input env task) db = (db', Inr x)"
  shows "sr_status x = ''running'' \<or> sr_status x = ''queued''"
proof -
  from assms obtain n where n: "normalize_record_input org (running_input env task) = Inr n"
    by (cases "normalize_record_input org (running_input env task)") (auto simp: schedule_record_run_def)
  then have "rri_status n = ''running''"
    by (auto simp: normalize_record_input_def running_input_def running_status step_simps)
  with assms n obtain m where "record_scheduled_run env m db = (db', Inr x)" "m = n \<or> m = queued_input n"
    by (auto simp: schedule_record_run_def split: sum.splits if_splits)
  moreover from this(1) have "sr_status x = rri_status m" by (auto simp: record_scheduled_run_def recorded_run_def split: option.splits if_splits)
  ultimately show ?thesis using \<open>rri_status n = ''running''\<close> by (auto simp: queued_input_def)
qed

lemma run_now_leaves:
  assumes "trimmed_ids env"
  shows "leaves_runs db (fst (run_now env sv session task db))"
proof -
  let ?i = "trim_space task"
  show ?thesis
  proof (cases "trim_space (fst session) = [] \<or> ?i = []")
    case True
    then show ?thesis by (auto simp: run_now_def Let_def)
  next
    case ids: False
    show ?thesis
    proof (cases "get_scheduled_task env (trim_space (fst session)) ?i db")
      case (Inl e)
      with ids show ?thesis by (simp add: run_now_def Let_def)
    next
      case (Inr t)
      obtain db1 r where rec: "schedule_record_run env (fst session) (running_input env ?i) db = (db1, r)" by fastforce
      then show ?thesis
      proof (cases rule: schedule_record_cases)
        case (1 e)
        with ids Inr rec show ?thesis by (simp add: run_now_def Let_def)
      next
        case (2 n x)
        note rows = record_run_rows [OF 2(2)]
        show ?thesis
        proof (cases "sr_status x = ''queued''")
          case True
          have "leaves_runs db db1" using True by (auto simp: leaves_runs_def rows(2))
          with ids Inr rec 2(1) True show ?thesis by (simp add: run_now_def Let_def)
        next
          case False
          let ?x = "\<lparr>rr_task = t, rr_run = x, rr_err = None\<rparr>"
          obtain db2 y where go: "run_now_target env sv session ?x db1 = (db2, y)" by fastforce
          have "trim_space (sr_id x) = sr_id x" using assms rows(5) by (simp add: trimmed_ids_def)
          then have "only_runs {sr_id x} db1 db2" using run_now_target_only [of ?x db1 env sv session] go by simp
          moreover have "running_of db (sr_org x) (sr_task x) = []"
          proof -
            have "sr_status x = ''running''" using recorded_status [OF rec [unfolded 2(1)]] False by simp
            moreover have "rri_status n = sr_status x" "sr_org x = rri_org n" "sr_task x = rri_task n"
              using rows(4) by (metis recorded_run_def sched_run.select_convs(2-4))+
            ultimately show ?thesis using 2(3) by simp
          qed
          ultimately have "leaves_runs db db2" using rows(2,3) by (intro leaves_added [of db1 db "[x]"]) auto
          with ids Inr rec 2(1) False go show ?thesis by (simp add: run_now_def Let_def)
        qed
      qed
    qed
  qed
qed

text \<open>The passes of workers and the manual runs of users, one after the other.\<close>

datatype sched_pass =
    WorkerPass sched_env sched_service gotime int
  | ManualPass sched_env sched_service "string \<times> string" string

fun pass_env :: "sched_pass \<Rightarrow> sched_env" where
  "pass_env (WorkerPass env sv now limit) = env"
| "pass_env (ManualPass env sv session task) = env"

fun schedule_pass :: "sched_pass \<Rightarrow> sched_db \<Rightarrow> sched_db" where
  "schedule_pass (WorkerPass env sv now limit) db = fst (run_due_tasks env sv now limit db)"
| "schedule_pass (ManualPass env sv session task) db = fst (run_now env sv session task db)"

fun schedule_passes :: "sched_pass list \<Rightarrow> sched_db \<Rightarrow> sched_db" where
  "schedule_passes [] db = db"
| "schedule_passes (p # ps) db = schedule_passes ps (schedule_pass p db)"

lemma schedule_pass_leaves: "trimmed_ids (pass_env p) \<Longrightarrow> leaves_runs db (schedule_pass p db)"
  by (cases p) (simp_all add: pass_leaves run_now_leaves)

lemma schedule_passes_leaves: "list_all (\<lambda>p. trimmed_ids (pass_env p)) ps \<Longrightarrow> leaves_runs db (schedule_passes ps db)"
  by (induction ps arbitrary: db) (auto intro: leaves_trans schedule_pass_leaves)

text \<open>
  A run that is left over stays so. Whatever passes of workers and manual runs come after it, a
  run row that is there is never taken up again: a queued run is never started, and a run left
  running (its workflow was waiting, or the statement that ends it failed) is never ended; and
  while it runs, its task gets no new run but queued ones.
\<close>

theorem left_over_runs_stay:
  assumes "list_all (\<lambda>p. trimmed_ids (pass_env p)) ps" and "r \<in> set (sd_runs db)"
  shows "r \<in> set (sd_runs (schedule_passes ps db))
    \<and> (sr_status r = ''running'' \<longrightarrow> (\<forall>s \<in> set (sd_runs (schedule_passes ps db)).
          same_task r s \<longrightarrow> s \<in> set (sd_runs db) \<or> sr_status s = ''queued''))"
  using schedule_passes_leaves [OF assms(1), of db] assms(2) unfolding leaves_runs_def by blast

definition sample_service :: sched_service where
  "sample_service = \<lparr>sv_workflows = True, sv_agents = False, sv_start = (\<lambda>q. Inr \<lparr>ex_id = stq_run q, ex_status = ''queued'', ex_message = None\<rparr>),
     sv_continue = (\<lambda>_ i. Inr (Some \<lparr>ex_id = i, ex_status = ''waiting'', ex_message = None\<rparr>)), sv_agent = (\<lambda>_. None)\<rparr>"

definition sample_ids :: "gotime \<Rightarrow> sched_env" where
  "sample_ids t = (calm_sched t)\<lparr>sc_new_id := (\<lambda>_. Some ''run-1'')\<rparr>"

lemma sample_ids_trimmed: "trimmed_ids (sample_ids t)"
proof -
  have "trim_space ''run-1'' = ''run-1''" by code_simp
  then show ?thesis by (simp add: trimmed_ids_def sample_ids_def)
qed

text \<open>A run of a task that was due at 5, left running since 8; a pass at 99 leaves it running.\<close>

theorem left_over_runs_stay_witness:
  "\<exists>r. sr_status r = ''running''
     \<and> r \<in> set (sd_runs (schedule_passes [WorkerPass (sample_ids 99) sample_service 99 5]
                            (sample_schedule\<lparr>sd_runs := [claimed_run ''run-0'' 8 (sample_task ''a'' 5)]\<rparr>)))"
proof -
  let ?r = "claimed_run ''run-0'' 8 (sample_task ''a'' 5)"
  have "?r \<in> set (sd_runs (schedule_passes [WorkerPass (sample_ids 99) sample_service 99 5] (sample_schedule\<lparr>sd_runs := [?r]\<rparr>)))"
    using left_over_runs_stay [of "[WorkerPass (sample_ids 99) sample_service 99 5]" ?r "sample_schedule\<lparr>sd_runs := [?r]\<rparr>"] sample_ids_trimmed by simp
  then show ?thesis by (intro exI [of _ ?r]) (simp add: claimed_run_def)
qed

subsection \<open>The end of a run\<close>

lemma with_run_status:
  "with_run x out = (db', y) \<Longrightarrow> (\<forall>r. snd out = Inr r \<longrightarrow> sr_status r = s) \<Longrightarrow> sr_status (rr_run x) \<noteq> s' \<Longrightarrow> s \<noteq> s' \<Longrightarrow> sr_status (rr_run y) \<noteq> s'"
  by (auto simp: with_run_def split: prod.splits sum.splits)

lemma failed_status: "to_lower (trim_space ''failed'') = ''failed''"
  by code_simp

lemma schedule_update_status:
  "snd (schedule_update_run env org i u db) = Inr r \<Longrightarrow> sr_status r = to_lower (trim_space (uri_status u))"
  by (auto simp: schedule_update_run_def normalize_update_input_def update_scheduled_run_def Let_def step_simps
      split: sum.splits option.splits if_splits)

lemma fail_scheduled_status:
  assumes "fail_scheduled_run env key finished err next db = (db', Inr r)"
  shows "sr_status r = ''failed''"
proof -
  obtain org task i where k: "key = (org, task, i)" by (cases key)
  from end_and_move_rows(3) [OF assms [unfolded fail_scheduled_run_def Let_def k]] show ?thesis by (auto simp: ended_run_def)
qed

lemma fail_claimed_status:
  assumes "fail_claimed env x e now db = (db', y)" "sr_status (rr_run x) \<noteq> ''completed''"
  shows "sr_status (rr_run y) \<noteq> ''completed''"
proof -
  let ?t = "rr_task x" and ?r = "rr_run x"
  have fallback: "sr_status (rr_run z) \<noteq> ''completed''"
    if "with_run (x\<lparr>rr_err := Some e\<rparr>) (schedule_update_run env (st_org ?t) (sr_id ?r) (failed_input env (sc_clock env (sr_id ?r)) e) db1) = (db2, z)"
    for db1 db2 z
    using that by (rule with_run_status [where s = "''failed''"])
      (use assms(2) in \<open>auto dest: schedule_update_status simp: failed_input_def failed_status\<close>)
  show ?thesis
  proof (cases "next_run_time env (st_cron ?t) now")
    case (Inl err)
    with assms(1) fallback show ?thesis by (simp add: fail_claimed_def Let_def)
  next
    case (Inr nx)
    obtain db1 s where f: "fail_scheduled_run env (run_key ?t ?r) (sc_clock env (sr_id ?r)) (sc_text env e) nx db = (db1, s)" by fastforce
    show ?thesis
    proof (cases s)
      case (Inl err)
      with assms(1) Inr f fallback show ?thesis by (simp add: fail_claimed_def Let_def)
    next
      case s: (Inr r)
      with assms(1) Inr f have "rr_run y = r" by (auto simp: fail_claimed_def Let_def)
      with fail_scheduled_status [OF f [unfolded s]] show ?thesis by simp
    qed
  qed
qed

lemma completed_claim:
  assumes run: "run_claimed env sv now c db = (db', y)" and end_status: "sr_status (rr_run y) = ''completed''"
    and start: "sr_status (snd c) \<noteq> ''completed''"
  obtains nx where "next_run_time env (st_cron (fst c)) now = Inr nx"
    "complete_scheduled_run env (run_key (fst c) (snd c)) (sc_clock env (sr_id (snd c))) nx db = (db', Inr (rr_run y))"
proof -
  let ?x = "\<lparr>rr_task = fst c, rr_run = snd c, rr_err = None\<rparr>"
  have fails: "fail_claimed env ?x e now db \<noteq> (db', y)" for e
    using fail_claimed_status [of env ?x e now db db' y] end_status start by auto
  have same: "(db, ?x) \<noteq> (db', y)" using end_status start by auto
  have "complete_claimed env ?x now db = (db', y)"
    using run fails same
    by (simp add: run_claimed_def run_claimed_agent_def run_claimed_workflow_def Let_def split: if_splits option.splits sum.splits)
  then show ?thesis using that fails same end_status start
    by (fastforce simp: complete_claimed_def Let_def split: sum.splits prod.splits)
qed

lemma completed_move:
  assumes "complete_scheduled_run env (org, task, i) finished0 next0 db = (db', Inr r)"
  defines "finished \<equiv> utc_or_now env i finished0"
  shows "sd_runs db' = List.map (\<lambda>r. if running_key org task i r then ended_run env ''completed'' finished [] r else r) (sd_runs db)"
    "sd_tasks db' = List.map (\<lambda>t. if task_key org task t
       then moved_task env i finished (if next0 = zero_time then finished else next0) t else t) (sd_tasks db)"
    "\<exists>r0 \<in> set (sd_runs db). running_key org task i r0 \<and> r = ended_run env ''completed'' finished [] r0"
  using end_and_move_rows [OF assms(1) [unfolded complete_scheduled_run_def Let_def snd_conv]] by (simp_all add: finished_def)

lemma ended_no_running:
  assumes "sched_ok db" "r0 \<in> set (sd_runs db)" "running_key org task i r0"
    and "sd_runs db' = List.map (\<lambda>r. if running_key org task i r then ended_run env ''completed'' finished [] r else r) (sd_runs db)"
  shows "running_of db' org task = []"
proof -
  have "running_key org task i r" if "r \<in> set (sd_runs db)" "sr_org r = org" "sr_task r = task" "sr_status r = ''running''" for r
    using assms(1-3) that unfolding sched_ok_def same_task_def running_key_def by metis
  then show ?thesis by (auto simp: running_of_empty assms(4) ended_run_def)
qed

lemma filter_untouched_by:
  assumes "\<And>x. P x \<Longrightarrow> Q x" "\<And>x. P x \<Longrightarrow> Q (f x)"
  shows "filter (\<lambda>x. \<not> Q x) (List.map (\<lambda>x. if P x then f x else x) xs) = filter (\<lambda>x. \<not> Q x) xs"
  using assms by (induction xs) auto

lemma moved_key: "task_key org task (moved_task env i finished next u) \<longleftrightarrow> task_key org task u"
  by (simp add: task_key_def moved_task_def)

text \<open>
  A finished run moves its task to the next time. When the worker ends a claimed run as
  completed, the run is stored so, the task is stamped with the end and its next time is the one
  the cron expression gives after the time of the pass (the end itself when there is none). From
  then on the task is due exactly when it is enabled and that time has come. No other task and no
  other run changes.
\<close>

theorem finished_run_moves_its_task:
  assumes "sched_ok db" and "run_claimed env sv now c db = (db', y)" and "sr_status (rr_run y) = ''completed''"
    and "sr_status (snd c) = ''running''"
  shows "\<exists>occurs finished due. sc_cron env (st_cron (fst c)) = Some occurs \<and> finished = utc_or_now env (sr_id (snd c)) (sc_clock env (sr_id (snd c)))
    \<and> due = (if occurs (utc_or_now env [] now) = zero_time then finished else occurs (utc_or_now env [] now))
    \<and> rr_run y \<in> set (sd_runs db') \<and> sr_finished (rr_run y) = Some finished
    \<and> (\<forall>u \<in> set (sd_tasks db'). task_key (st_org (fst c)) (st_id (fst c)) u \<longrightarrow>
          st_last u = Some finished \<and> (\<forall>T. task_due db' T u \<longleftrightarrow> st_enabled u \<and> due \<le> T))
    \<and> filter (\<lambda>u. \<not> task_key (st_org (fst c)) (st_id (fst c)) u) (sd_tasks db') = filter (\<lambda>u. \<not> task_key (st_org (fst c)) (st_id (fst c)) u) (sd_tasks db)
    \<and> filter (\<lambda>r. sr_id r \<noteq> sr_id (snd c)) (sd_runs db') = filter (\<lambda>r. sr_id r \<noteq> sr_id (snd c)) (sd_runs db)"
proof -
  let ?org = "st_org (fst c)" and ?task = "st_id (fst c)" and ?i = "sr_id (snd c)"
  let ?fin = "utc_or_now env ?i (sc_clock env ?i)"
  from assms(3,4) obtain nx where nx: "next_run_time env (st_cron (fst c)) now = Inr nx"
    and ended: "complete_scheduled_run env (?org, ?task, ?i) (sc_clock env ?i) nx db = (db', Inr (rr_run y))"
    using completed_claim [OF assms(2)] by (auto simp: run_key_def)
  note rows = completed_move [OF ended]
  from rows(3) obtain r0 where r0: "r0 \<in> set (sd_runs db)" "running_key ?org ?task ?i r0" "rr_run y = ended_run env ''completed'' ?fin [] r0" by blast
  have idle: "running_of db' ?org ?task = []" using assms(1) r0(1,2) rows(1) by (rule ended_no_running)
  have run: "rr_run y \<in> set (sd_runs db')" "sr_finished (rr_run y) = Some ?fin" unfolding rows(1) r0(3) using r0(1,2) by (force simp: ended_run_def)+
  from nx obtain occurs where occurs: "sc_cron env (st_cron (fst c)) = Some occurs" "nx = occurs (utc_or_now env [] now)"
    by (auto simp: next_run_time_def step_simps)
  let ?due = "if nx = zero_time then ?fin else nx"
  have moved: "st_last u = Some ?fin \<and> (\<forall>T. task_due db' T u \<longleftrightarrow> st_enabled u \<and> ?due \<le> T)"
    if "u \<in> set (sd_tasks db')" "task_key ?org ?task u" for u
  proof -
    from that have "\<exists>t. u = moved_task env ?i ?fin ?due t" unfolding rows(2) by (auto simp: task_key_def split: if_splits)
    with that(2) idle show ?thesis by (auto simp: task_due_def moved_task_def task_key_def)
  qed
  have tasks: "filter (\<lambda>u. \<not> task_key ?org ?task u) (sd_tasks db') = filter (\<lambda>u. \<not> task_key ?org ?task u) (sd_tasks db)"
    unfolding rows(2) by (rule filter_untouched_by) (simp_all add: moved_key)
  have "filter (\<lambda>r. \<not> sr_id r = ?i) (sd_runs db') = filter (\<lambda>r. \<not> sr_id r = ?i) (sd_runs db)"
    unfolding rows(1) by (rule filter_untouched_by) (simp_all add: running_key_def ended_run_def)
  with occurs(1) run tasks have all: "sc_cron env (st_cron (fst c)) = Some occurs \<and> ?fin = ?fin \<and> ?due = ?due
    \<and> rr_run y \<in> set (sd_runs db') \<and> sr_finished (rr_run y) = Some ?fin
    \<and> (\<forall>u \<in> set (sd_tasks db'). task_key ?org ?task u \<longrightarrow> st_last u = Some ?fin \<and> (\<forall>T. task_due db' T u \<longleftrightarrow> st_enabled u \<and> ?due \<le> T))
    \<and> filter (\<lambda>u. \<not> task_key ?org ?task u) (sd_tasks db') = filter (\<lambda>u. \<not> task_key ?org ?task u) (sd_tasks db)
    \<and> filter (\<lambda>r. sr_id r \<noteq> ?i) (sd_runs db') = filter (\<lambda>r. sr_id r \<noteq> ?i) (sd_runs db)"
    by (intro conjI ballI impI moved refl) assumption+
  then show ?thesis unfolding occurs(2) by (intro exI)
qed

definition sample_agents :: sched_service where
  "sample_agents = sample_service\<lparr>sv_workflows := False, sv_agents := True\<rparr>"

definition agent_task :: sched_task where
  "agent_task = (sample_task ''a'' 5)\<lparr>st_type := ''agent''\<rparr>"

definition agent_schedule :: sched_db where
  "agent_schedule = \<lparr>sd_tasks = [agent_task], sd_runs = [claimed_run ''run-0'' 8 agent_task]\<rparr>"

lemma agent_type: "to_lower (trim_space ''agent'') = ''agent''"
  by code_simp

lemmas agent_samples = agent_task_def agent_schedule_def sample_agents_def sample_service_def sched_samples claimed_run_def

definition ended_agent_run :: sched_run where
  "ended_agent_run = ended_run (calm_sched 20) ''completed'' 20 [] (claimed_run ''run-0'' 8 agent_task)"

definition agent_schedule_after :: sched_db where
  "agent_schedule_after = \<lparr>sd_tasks = [moved_task (calm_sched 20) ''run-0'' 20 25 agent_task], sd_runs = [ended_agent_run]\<rparr>"

lemma sample_end:
  "run_claimed (calm_sched 20) sample_agents 15 (agent_task, claimed_run ''run-0'' 8 agent_task) agent_schedule
     = (agent_schedule_after, \<lparr>rr_task = agent_task, rr_run = ended_agent_run, rr_err = None\<rparr>)"
  by (simp add: run_claimed_def run_claimed_agent_def complete_claimed_def complete_scheduled_run_def end_and_move_def end_run_def
      move_task_def next_run_time_def run_key_def task_key_def running_key_def sched_evals agent_type agent_samples step_simps
      sql_select_def sql_update_def ended_agent_run_def agent_schedule_after_def)

theorem finished_run_moves_its_task_witness:
  "\<exists>u. sd_tasks agent_schedule_after = [u] \<and> task_due agent_schedule_after 25 u \<and> \<not> task_due agent_schedule_after 24 u"
proof -
  let ?u = "moved_task (calm_sched 20) ''run-0'' 20 25 agent_task"
  have ok: "sched_ok agent_schedule" by (simp add: sched_ok_def agent_schedule_def)
  have u: "sd_tasks agent_schedule_after = [?u]" "task_key (st_org agent_task) (st_id agent_task) ?u" "st_enabled ?u"
    by (simp_all add: agent_schedule_after_def moved_key) (simp_all add: task_key_def moved_task_def agent_task_def sample_task_def)
  from finished_run_moves_its_task [OF ok sample_end] obtain occurs finished due where
    o: "sc_cron (calm_sched 20) (st_cron agent_task) = Some occurs"
      "due = (if occurs (utc_or_now (calm_sched 20) [] 15) = zero_time then finished else occurs (utc_or_now (calm_sched 20) [] 15))"
      "task_due agent_schedule_after T ?u \<longleftrightarrow> st_enabled ?u \<and> due \<le> T" for T
    using u(1,2) by (auto simp: ended_agent_run_def ended_run_def claimed_run_def)
  from o(1,2) have "due = 25" by (auto simp: agent_task_def sample_task_def calm_sched_def utc_or_now_def zero_time_def)
  with o(3) u(1,3) show ?thesis by auto
qed

end
