(* ===== verification/Tenant_Store.thy ===== *)
theory Tenant_Store
  imports Prelude "HOL-Library.Product_Lexorder"
begin

text \<open>
  Organizations, memberships and invitations: \<open>src/server/internal/tenant/store.go\<close> over the
  tables \<open>organizations\<close>, \<open>organization_memberships\<close>, \<open>organization_invitations\<close> and \<open>audit_logs\<close>,
  with their unique indexes, checks and foreign keys (migrations 0022, 0025 and 0026), which
  decide whether a statement succeeds.

  The environment gives the database's clock, the identifiers \<open>newID\<close> makes, the driver calls
  that fail, and the \<open>ILIKE\<close> operator of the search. The users table belongs to another package
  and is only read. Metadata is the JSON text of a map, whose encoding cannot fail; changes in
  an audit row are the pairs that are encoded.
\<close>

record tn_org =
  og_id :: string
  og_slug :: string
  og_name :: string
  og_status :: string
  og_metadata :: string
  og_creator :: "string option"
  og_created :: gotime
  og_updated :: gotime
  og_archived :: "gotime option"

record tn_member =
  tm_id :: string
  tm_org :: string
  tm_user :: string
  tm_role :: string
  tm_creator :: "string option"
  tm_created :: gotime
  tm_updated :: gotime
  tm_removed :: "gotime option"

record tn_invite =
  iv_id :: string
  iv_org :: string
  iv_email :: string
  iv_role :: string
  iv_hash :: string
  iv_status :: string
  iv_inviter :: string
  iv_acceptor :: "string option"
  iv_expires :: gotime
  iv_accepted :: "gotime option"
  iv_revoked :: "gotime option"
  iv_created :: gotime
  iv_updated :: gotime

record tn_audit =
  ta_actor :: string
  ta_email :: string
  ta_action :: string
  ta_org :: string
  ta_changes :: "(string \<times> string) list"
  ta_ip :: string

record tn_user =
  tu_id :: string
  tu_email :: string

record tn_db =
  td_orgs :: "tn_org list"
  td_members :: "tn_member list"
  td_invites :: "tn_invite list"
  td_audits :: "(string \<times> tn_audit) list"
  td_users :: "tn_user list"

datatype tn_call =
    TnBegin | TnCommit | TnListOrgs | TnCountOrgs | TnGetOrg | TnInsertOrg | TnUpdateOrg | TnArchiveOrg | TnListMine | TnListMembers
  | TnGetMember | TnInsertMember | TnInsertInvite | TnGetInvite | TnGetInviteHash | TnAcceptInvite | TnRevokeInvite | TnUpdateRole
  | TnRemoveMember | TnDemoteOwner | TnPromoteOwner | TnInsertAudit

datatype tn_error =
    TnFault tn_call | TnDuplicate | TnCheck | TnForeignKey | TnNoAuditActor | TnNewOwnerMissing
  | TnNoOrgId | TnNoUserId | TnNoMembership | TnBadRole | TnNoName | TnBadSlug | TnBadStatus | TnBadEmail | TnAlreadyMember
  | TnNoRandom | TnNoToken | TnNoInvite | TnNotPending | TnExpired | TnWrongEmail | TnNoInviteId | TnUseTransfer | TnNoMember
  | TnOnlyOwners | TnRemoveOwner | TnNoNewOwner | TnSameOwner

datatype tn_row = RowMember | RowAudit | RowOrg | RowInvite

record tn_env =
  te_now :: gotime
  te_id :: "tn_row \<Rightarrow> string"
  te_fault :: "tn_call \<Rightarrow> bool"
  te_ilike :: "string \<Rightarrow> string \<Rightarrow> bool"
  te_random :: "string option"
  te_hash :: "string \<Rightarrow> string"

definition tn_call :: "tn_env \<Rightarrow> tn_call \<Rightarrow> tn_error + unit" where
  "tn_call env c = fail_if (te_fault env c) (TnFault c)"

definition tn_tx :: "tn_env \<Rightarrow> (tn_db \<Rightarrow> tn_error + (tn_db \<times> 'a)) \<Rightarrow> tn_db \<Rightarrow> tn_db \<times> (tn_error + 'a)" where
  "tn_tx env body db =
     (if te_fault env TnBegin then (db, Inl (TnFault TnBegin))
      else case body db of
             Inl e \<Rightarrow> (db, Inl e)
           | Inr (tx, x) \<Rightarrow> if te_fault env TnCommit then (db, Inl (TnFault TnCommit)) else (tx, Inr x))"

subsection \<open>Constraints\<close>

definition slug_char :: "char \<Rightarrow> bool" where
  "slug_char c \<longleftrightarrow> CHR ''a'' \<le> c \<and> c \<le> CHR ''z'' \<or> CHR ''0'' \<le> c \<and> c \<le> CHR ''9''"

text \<open>\<open>^[a-z0-9][a-z0-9-]{1,61}[a-z0-9]$\<close>.\<close>

definition slug_ok :: "string \<Rightarrow> bool" where
  "slug_ok s \<longleftrightarrow>
     3 \<le> length s \<and> length s \<le> 63 \<and> slug_char (hd s) \<and> slug_char (last s)
     \<and> list_all (\<lambda>c. slug_char c \<or> c = CHR ''-'') s"

definition org_status_ok :: "string \<Rightarrow> bool" where
  "org_status_ok s \<longleftrightarrow> s \<in> {''active'', ''disabled'', ''archived''}"

definition has_org :: "tn_db \<Rightarrow> string \<Rightarrow> bool" where
  "has_org db i \<longleftrightarrow> list_ex (\<lambda>o'. og_id o' = i) (td_orgs db)"

definition has_user :: "tn_db \<Rightarrow> string \<Rightarrow> bool" where
  "has_user db i \<longleftrightarrow> list_ex (\<lambda>u. tu_id u = i) (td_users db)"

text \<open>The two unique indexes on active memberships.\<close>

definition active_of :: "string \<Rightarrow> string \<Rightarrow> tn_member \<Rightarrow> bool" where
  "active_of org user m \<longleftrightarrow> tm_org m = org \<and> tm_user m = user \<and> tm_removed m = None"

definition owner_of :: "string \<Rightarrow> tn_member \<Rightarrow> bool" where
  "owner_of org m \<longleftrightarrow> tm_org m = org \<and> tm_role m = ''owner'' \<and> tm_removed m = None"

definition new_member :: "tn_env \<Rightarrow> string \<Rightarrow> string \<Rightarrow> string \<Rightarrow> string \<Rightarrow> tn_member" where
  "new_member env org user role creator =
     \<lparr>tm_id = te_id env RowMember, tm_org = org, tm_user = user, tm_role = role, tm_creator = Some creator,
      tm_created = te_now env, tm_updated = te_now env, tm_removed = None\<rparr>"

definition insert_member :: "tn_env \<Rightarrow> tn_member \<Rightarrow> tn_db \<Rightarrow> tn_error + tn_db" where
  "insert_member env m tx =
     try_step (tn_call env TnInsertMember) (\<lambda>_.
     try_step (fail_if (tm_role m \<notin> {''owner'', ''admin'', ''member''}) TnCheck) (\<lambda>_.
     try_step (fail_if (list_ex (\<lambda>x. tm_id x = tm_id m) (td_members tx)) TnDuplicate) (\<lambda>_.
     try_step (fail_if (list_ex (active_of (tm_org m) (tm_user m)) (td_members tx)) TnDuplicate) (\<lambda>_.
     try_step (fail_if (tm_role m = ''owner'' \<and> list_ex (owner_of (tm_org m)) (td_members tx)) TnDuplicate) (\<lambda>_.
     try_step (fail_if (\<not> has_org tx (tm_org m) \<or> \<not> has_user tx (tm_user m)) TnForeignKey) (\<lambda>_.
     try_step (fail_if (case tm_creator m of None \<Rightarrow> False | Some c \<Rightarrow> \<not> has_user tx c) TnForeignKey) (\<lambda>_.
     Inr (tx\<lparr>td_members := td_members tx @ [m]\<rparr>))))))))"

definition insert_audit :: "tn_env \<Rightarrow> tn_audit \<Rightarrow> tn_db \<Rightarrow> tn_error + tn_db" where
  "insert_audit env a tx =
     try_step (fail_if (ta_actor a = []) TnNoAuditActor) (\<lambda>_.
     try_step (tn_call env TnInsertAudit) (\<lambda>_.
     try_step (fail_if (list_ex (\<lambda>x. fst x = te_id env RowAudit) (td_audits tx)) TnDuplicate) (\<lambda>_.
     try_step (fail_if (\<not> has_user tx (ta_actor a)) TnForeignKey) (\<lambda>_.
     try_step (fail_if (ta_org a \<noteq> [] \<and> \<not> has_org tx (ta_org a)) TnForeignKey) (\<lambda>_.
     Inr (tx\<lparr>td_audits := td_audits tx @ [(te_id env RowAudit, a)]\<rparr>))))))"

subsection \<open>Organizations\<close>

record org_filter =
  of_status :: string
  of_search :: string
  of_limit :: int
  of_offset :: int

definition org_matches :: "tn_env \<Rightarrow> org_filter \<Rightarrow> tn_org \<Rightarrow> bool" where
  "org_matches env f o' \<longleftrightarrow>
     (of_status f = [] \<or> og_status o' = of_status f)
     \<and> (of_search f = [] \<or> te_ilike env (og_name o') (of_search f) \<or> te_ilike env (og_slug o') (of_search f))"

definition sql_list_orgs :: "tn_env \<Rightarrow> org_filter \<Rightarrow> tn_db \<Rightarrow> tn_error + (tn_org list \<times> nat)" where
  "sql_list_orgs env f db =
     (let rows = filter (org_matches env f) (td_orgs db)
      in try_step (tn_call env TnListOrgs) (\<lambda>_.
         try_step (tn_call env TnCountOrgs) (\<lambda>_.
         Inr (take (nat (of_limit f)) (drop (nat (of_offset f)) (sort_key (\<lambda>o'. - og_created o') rows)), length rows))))"

definition sql_get_org :: "tn_env \<Rightarrow> string \<Rightarrow> tn_db \<Rightarrow> tn_error + tn_org option" where
  "sql_get_org env i db = try_step (tn_call env TnGetOrg) (\<lambda>_. Inr (sql_select (\<lambda>o'. og_id o' = i) (td_orgs db)))"

record org_input =
  oi_slug :: string
  oi_name :: string
  oi_status :: string
  oi_metadata :: string
  oi_creator :: "string option"

definition new_org :: "tn_env \<Rightarrow> org_input \<Rightarrow> tn_org" where
  "new_org env i =
     \<lparr>og_id = te_id env RowOrg, og_slug = oi_slug i, og_name = oi_name i, og_status = oi_status i, og_metadata = oi_metadata i,
      og_creator = oi_creator i, og_created = te_now env, og_updated = te_now env, og_archived = None\<rparr>"

definition insert_org :: "tn_env \<Rightarrow> tn_org \<Rightarrow> tn_db \<Rightarrow> tn_error + tn_db" where
  "insert_org env o' tx =
     try_step (tn_call env TnInsertOrg) (\<lambda>_.
     try_step (fail_if (\<not> slug_ok (og_slug o') \<or> \<not> org_status_ok (og_status o')) TnCheck) (\<lambda>_.
     try_step (fail_if (list_ex (\<lambda>x. og_id x = og_id o' \<or> og_slug x = og_slug o') (td_orgs tx)) TnDuplicate) (\<lambda>_.
     try_step (fail_if (case og_creator o' of None \<Rightarrow> False | Some c \<Rightarrow> \<not> has_user tx c) TnForeignKey) (\<lambda>_.
     Inr (tx\<lparr>td_orgs := td_orgs tx @ [o']\<rparr>)))))"

definition first_owner :: "tn_env \<Rightarrow> tn_org \<Rightarrow> tn_db \<Rightarrow> tn_error + tn_db" where
  "first_owner env o' tx =
     (case og_creator o' of
        None \<Rightarrow> Inr tx
      | Some c \<Rightarrow> if c = [] then Inr tx else insert_member env (new_member env (og_id o') c ''owner'' c) tx)"

definition sql_create_org :: "tn_env \<Rightarrow> org_input \<Rightarrow> tn_db \<Rightarrow> tn_db \<times> (tn_error + tn_org)" where
  "sql_create_org env i db =
     tn_tx env (\<lambda>tx.
       try_step (insert_org env (new_org env i) tx) (\<lambda>tx1.
       try_step (first_owner env (new_org env i) tx1) (\<lambda>tx2.
       Inr (tx2, new_org env i)))) db"

record org_update =
  ou_name :: "string option"
  ou_status :: "string option"
  ou_metadata :: "string option"

definition coalesce :: "'a option \<Rightarrow> 'a \<Rightarrow> 'a" where
  "coalesce x y = (case x of None \<Rightarrow> y | Some z \<Rightarrow> z)"

definition updated_org :: "tn_env \<Rightarrow> org_update \<Rightarrow> tn_org \<Rightarrow> tn_org" where
  "updated_org env u o' =
     o'\<lparr>og_name := coalesce (ou_name u) (og_name o'), og_status := coalesce (ou_status u) (og_status o'),
        og_metadata := coalesce (ou_metadata u) (og_metadata o'), og_updated := te_now env\<rparr>"

text \<open>\<open>UPDATE ... RETURNING\<close> of the row with an identifier; no row is no error.\<close>

definition write_org :: "tn_env \<Rightarrow> tn_call \<Rightarrow> string \<Rightarrow> (tn_org \<Rightarrow> tn_org) \<Rightarrow> tn_db \<Rightarrow> tn_db \<times> (tn_error + tn_org option)" where
  "write_org env c i f db =
     (if te_fault env c then (db, Inl (TnFault c))
      else case sql_select (\<lambda>o'. og_id o' = i) (td_orgs db) of
             None \<Rightarrow> (db, Inr None)
           | Some o' \<Rightarrow> if org_status_ok (og_status (f o'))
                        then (db\<lparr>td_orgs := fst (sql_update (\<lambda>x. og_id x = i) f (td_orgs db))\<rparr>, Inr (Some (f o')))
                        else (db, Inl TnCheck))"

definition sql_update_org :: "tn_env \<Rightarrow> string \<Rightarrow> org_update \<Rightarrow> tn_db \<Rightarrow> tn_db \<times> (tn_error + tn_org option)" where
  "sql_update_org env i u db = write_org env TnUpdateOrg i (updated_org env u) db"

definition sql_archive_org :: "tn_env \<Rightarrow> string \<Rightarrow> tn_db \<Rightarrow> tn_db \<times> (tn_error + tn_org option)" where
  "sql_archive_org env i db =
     write_org env TnArchiveOrg i (\<lambda>o'. o'\<lparr>og_status := ''archived'', og_archived := Some (te_now env), og_updated := te_now env\<rparr>) db"

subsection \<open>Memberships\<close>

text \<open>A membership joined with its organization and its user.\<close>

record member_view =
  mv_row :: tn_member
  mv_slug :: string
  mv_name :: string
  mv_email :: string

fun member_views :: "tn_db \<Rightarrow> tn_member list \<Rightarrow> member_view list" where
  "member_views db [] = []"
| "member_views db (m # ms) =
     (case (sql_select (\<lambda>o'. og_id o' = tm_org m) (td_orgs db), sql_select (\<lambda>u. tu_id u = tm_user m) (td_users db)) of
        (Some o', Some u) \<Rightarrow> [\<lparr>mv_row = m, mv_slug = og_slug o', mv_name = og_name o', mv_email = tu_email u\<rparr>]
      | _ \<Rightarrow> []) @ member_views db ms"

definition role_rank :: "string \<Rightarrow> nat" where
  "role_rank r = (if r = ''owner'' then 1 else if r = ''admin'' then 2 else 3)"

definition sql_my_memberships :: "tn_env \<Rightarrow> string \<Rightarrow> tn_db \<Rightarrow> tn_error + member_view list" where
  "sql_my_memberships env user db =
     try_step (tn_call env TnListMine) (\<lambda>_.
     Inr (sort_key (\<lambda>v. (mv_name v, tm_created (mv_row v)))
       (member_views db (filter (\<lambda>m. tm_user m = user \<and> tm_removed m = None) (td_members db)))))"

definition sql_list_members :: "tn_env \<Rightarrow> string \<Rightarrow> tn_db \<Rightarrow> tn_error + member_view list" where
  "sql_list_members env org db =
     try_step (tn_call env TnListMembers) (\<lambda>_.
     Inr (sort_key (\<lambda>v. (role_rank (tm_role (mv_row v)), mv_email v))
       (member_views db (filter (\<lambda>m. tm_org m = org \<and> tm_removed m = None) (td_members db)))))"

definition sql_active_member :: "tn_env \<Rightarrow> string \<Rightarrow> string \<Rightarrow> tn_db \<Rightarrow> tn_error + member_view option" where
  "sql_active_member env org user db =
     try_step (tn_call env TnGetMember) (\<lambda>_.
     Inr (case member_views db (filter (active_of org user) (td_members db)) of [] \<Rightarrow> None | v # vs \<Rightarrow> Some v))"

definition sql_update_role :: "tn_env \<Rightarrow> string \<Rightarrow> string \<Rightarrow> string \<Rightarrow> tn_audit \<Rightarrow> tn_db \<Rightarrow> tn_db \<times> (tn_error + tn_member option)" where
  "sql_update_role env org user role audit db =
     (let f = (\<lambda>m. m\<lparr>tm_role := role, tm_updated := te_now env\<rparr>)
      in case sql_select (active_of org user) (td_members db) of
           None \<Rightarrow> if te_fault env TnBegin then (db, Inl (TnFault TnBegin))
                   else if te_fault env TnUpdateRole then (db, Inl (TnFault TnUpdateRole)) else (db, Inr None)
         | Some m \<Rightarrow>
             tn_tx env (\<lambda>tx.
               try_step (tn_call env TnUpdateRole) (\<lambda>_.
               try_step (fail_if (role \<notin> {''owner'', ''admin'', ''member''}) TnCheck) (\<lambda>_.
               try_step (fail_if (role = ''owner'' \<and> list_ex (\<lambda>x. owner_of org x \<and> tm_user x \<noteq> user) (td_members tx)) TnDuplicate) (\<lambda>_.
               try_step (insert_audit env audit (tx\<lparr>td_members := fst (sql_update (active_of org user) f (td_members tx))\<rparr>)) (\<lambda>tx1.
               Inr (tx1, Some (f m))))))) db)"

definition sql_remove_member :: "tn_env \<Rightarrow> string \<Rightarrow> string \<Rightarrow> tn_audit \<Rightarrow> tn_db \<Rightarrow> tn_db \<times> (tn_error + unit)" where
  "sql_remove_member env org user audit db =
     (if te_fault env TnBegin then (db, Inl (TnFault TnBegin))
      else if te_fault env TnRemoveMember then (db, Inl (TnFault TnRemoveMember))
      else if \<not> list_ex (active_of org user) (td_members db) then (db, Inr ())
      else tn_tx env (\<lambda>tx.
             try_step (insert_audit env audit
               (tx\<lparr>td_members := fst (sql_update (active_of org user)
                    (\<lambda>m. m\<lparr>tm_removed := Some (te_now env), tm_updated := te_now env\<rparr>) (td_members tx))\<rparr>)) (\<lambda>tx1.
             Inr (tx1, ()))) db)"

definition demote_owner :: "tn_env \<Rightarrow> string \<Rightarrow> string \<Rightarrow> tn_db \<Rightarrow> tn_db" where
  "demote_owner env org user tx =
     tx\<lparr>td_members := fst (sql_update (\<lambda>m. active_of org user m \<and> tm_role m = ''owner'')
          (\<lambda>m. m\<lparr>tm_role := ''admin'', tm_updated := te_now env\<rparr>) (td_members tx))\<rparr>"

definition promote_owner :: "tn_env \<Rightarrow> string \<Rightarrow> string \<Rightarrow> tn_db \<Rightarrow> tn_error + tn_db" where
  "promote_owner env org user tx =
     try_step (fail_if (list_ex (active_of org user) (td_members tx)
                        \<and> list_ex (\<lambda>x. owner_of org x \<and> tm_user x \<noteq> user) (td_members tx)) TnDuplicate) (\<lambda>_.
     try_step (fail_if (\<not> list_ex (active_of org user) (td_members tx)) TnNewOwnerMissing) (\<lambda>_.
     Inr (tx\<lparr>td_members := fst (sql_update (active_of org user)
            (\<lambda>m. m\<lparr>tm_role := ''owner'', tm_updated := te_now env\<rparr>) (td_members tx))\<rparr>)))"

definition sql_transfer :: "tn_env \<Rightarrow> string \<Rightarrow> string \<Rightarrow> string \<Rightarrow> tn_audit \<Rightarrow> tn_db \<Rightarrow> tn_db \<times> (tn_error + unit)" where
  "sql_transfer env org owner new_owner audit db =
     tn_tx env (\<lambda>tx.
       try_step (tn_call env TnDemoteOwner) (\<lambda>_.
       try_step (tn_call env TnPromoteOwner) (\<lambda>_.
       try_step (promote_owner env org new_owner (demote_owner env org owner tx)) (\<lambda>tx1.
       try_step (insert_audit env audit tx1) (\<lambda>tx2.
       Inr (tx2, ())))))) db"

subsection \<open>Invitations\<close>

definition insert_invite :: "tn_env \<Rightarrow> tn_invite \<Rightarrow> tn_db \<Rightarrow> tn_error + tn_db" where
  "insert_invite env i tx =
     try_step (tn_call env TnInsertInvite) (\<lambda>_.
     try_step (fail_if (iv_role i \<notin> {''admin'', ''member''} \<or> iv_status i \<notin> {''pending'', ''accepted'', ''revoked'', ''expired''}) TnCheck) (\<lambda>_.
     try_step (fail_if (list_ex (\<lambda>x. iv_id x = iv_id i \<or> iv_hash x = iv_hash i) (td_invites tx)) TnDuplicate) (\<lambda>_.
     try_step (fail_if (\<not> has_org tx (iv_org i) \<or> \<not> has_user tx (iv_inviter i)) TnForeignKey) (\<lambda>_.
     Inr (tx\<lparr>td_invites := td_invites tx @ [i]\<rparr>)))))"

definition sql_create_invite :: "tn_env \<Rightarrow> tn_invite \<Rightarrow> tn_audit \<Rightarrow> tn_db \<Rightarrow> tn_db \<times> (tn_error + tn_invite)" where
  "sql_create_invite env i audit db =
     tn_tx env (\<lambda>tx. try_step (insert_invite env i tx) (\<lambda>tx1. try_step (insert_audit env audit tx1) (\<lambda>tx2. Inr (tx2, i)))) db"

definition sql_invite_by_hash :: "tn_env \<Rightarrow> string \<Rightarrow> tn_db \<Rightarrow> tn_error + tn_invite option" where
  "sql_invite_by_hash env h db =
     try_step (tn_call env TnGetInviteHash) (\<lambda>_. Inr (sql_select (\<lambda>i. iv_hash i = h) (td_invites db)))"

definition sql_get_invite :: "tn_env \<Rightarrow> string \<Rightarrow> string \<Rightarrow> tn_db \<Rightarrow> tn_error + tn_invite option" where
  "sql_get_invite env org i db =
     try_step (tn_call env TnGetInvite) (\<lambda>_. Inr (sql_select (\<lambda>x. iv_org x = org \<and> iv_id x = i) (td_invites db)))"

text \<open>The update that marks the invitation is not asked whether it found a row.\<close>

definition mark_accepted :: "tn_env \<Rightarrow> tn_invite \<Rightarrow> string \<Rightarrow> tn_db \<Rightarrow> tn_db" where
  "mark_accepted env i user tx =
     tx\<lparr>td_invites := fst (sql_update (\<lambda>x. iv_id x = iv_id i \<and> iv_status x = ''pending'')
          (\<lambda>x. x\<lparr>iv_status := ''accepted'', iv_acceptor := Some user, iv_accepted := Some (te_now env), iv_updated := te_now env\<rparr>)
          (td_invites tx))\<rparr>"

definition sql_accept_invite :: "tn_env \<Rightarrow> tn_invite \<Rightarrow> string \<Rightarrow> tn_audit \<Rightarrow> tn_db \<Rightarrow> tn_db \<times> (tn_error + tn_member)" where
  "sql_accept_invite env i user audit db =
     (let m = new_member env (iv_org i) user (iv_role i) (iv_inviter i)
      in tn_tx env (\<lambda>tx.
           try_step (tn_call env TnAcceptInvite) (\<lambda>_.
           try_step (fail_if (list_ex (\<lambda>x. iv_id x = iv_id i \<and> iv_status x = ''pending'') (td_invites tx) \<and> \<not> has_user tx user) TnForeignKey) (\<lambda>_.
           try_step (insert_member env m (mark_accepted env i user tx)) (\<lambda>tx1.
           try_step (insert_audit env audit tx1) (\<lambda>tx2.
           Inr (tx2, m)))))) db)"

definition sql_revoke_invite :: "tn_env \<Rightarrow> string \<Rightarrow> string \<Rightarrow> tn_audit \<Rightarrow> tn_db \<Rightarrow> tn_db \<times> (tn_error + tn_invite option)" where
  "sql_revoke_invite env org i audit db =
     (let P = (\<lambda>x. iv_org x = org \<and> iv_id x = i \<and> iv_status x = ''pending'');
          f = (\<lambda>x. x\<lparr>iv_status := ''revoked'', iv_revoked := Some (te_now env), iv_updated := te_now env\<rparr>)
      in if te_fault env TnBegin then (db, Inl (TnFault TnBegin))
         else if te_fault env TnRevokeInvite then (db, Inl (TnFault TnRevokeInvite))
         else case sql_select P (td_invites db) of
                None \<Rightarrow> (db, Inr None)
              | Some x \<Rightarrow>
                  tn_tx env (\<lambda>tx.
                    try_step (insert_audit env audit (tx\<lparr>td_invites := fst (sql_update P f (td_invites tx))\<rparr>)) (\<lambda>tx1.
                    Inr (tx1, Some (f x)))) db)"

end
