(* ===== verification/Tenant_Service.thy ===== *)
theory Tenant_Service
  imports Tenant_Store
begin

text \<open>
  Organizations, memberships and invitations: \<open>src/server/internal/tenant/service.go\<close>, the checks
  of every request over the store, and \<open>scope.go\<close>, the scope of a session. \<open>crypto/rand\<close> and
  SHA-256 are given by the environment: the hexadecimal text of the random bytes (or a failure)
  and the hexadecimal digest of a text. A request is its checks, then at most one transaction of
  the store; where the checks read a row that the transaction is about, the two are separate
  definitions, so that other requests can be put between them.
\<close>

record tn_actor =
  ac_user :: string
  ac_email :: string
  ac_ip :: string

definition normalize_name :: "string \<Rightarrow> tn_error + string" where
  "normalize_name s = (if trim_space s = [] then Inl TnNoName else Inr (trim_space s))"

definition normalize_slug :: "string \<Rightarrow> tn_error + string" where
  "normalize_slug s = (if slug_ok (trim_space s) then Inr (trim_space s) else Inl TnBadSlug)"

definition normalize_org_status :: "string \<Rightarrow> tn_error + string" where
  "normalize_org_status s = (if org_status_ok (trim_space s) then Inr (trim_space s) else Inl TnBadStatus)"

definition normalize_email :: "string \<Rightarrow> tn_error + string" where
  "normalize_email s =
     (let e = to_lower (trim_space s) in if e = [] \<or> CHR ''@'' \<notin> set e then Inl TnBadEmail else Inr e)"

definition normalize_member_role :: "string \<Rightarrow> tn_error + string" where
  "normalize_member_role s =
     (if trim_space s \<in> {''owner'', ''admin'', ''member''} then Inr (trim_space s) else Inl TnBadRole)"

definition normalize_invite_role :: "string \<Rightarrow> tn_error + string" where
  "normalize_invite_role s = (if trim_space s \<in> {''admin'', ''member''} then Inr (trim_space s) else Inl TnBadRole)"

definition hash_token :: "tn_env \<Rightarrow> string \<Rightarrow> string" where
  "hash_token env raw = (if trim_space raw = [] then [] else te_hash env raw)"

definition new_invitation_token :: "tn_env \<Rightarrow> tn_error + (string \<times> string)" where
  "new_invitation_token env = try_step (or_error TnNoRandom (te_random env)) (\<lambda>raw. Inr (raw, hash_token env raw))"

definition audit_record :: "tn_actor \<Rightarrow> string \<Rightarrow> string \<Rightarrow> (string \<times> string) list \<Rightarrow> tn_audit" where
  "audit_record a action org changes =
     \<lparr>ta_actor = ac_user a, ta_email = ac_email a, ta_action = action, ta_org = org, ta_changes = changes, ta_ip = ac_ip a\<rparr>"

subsection \<open>Who may\<close>

definition require_role :: "tn_env \<Rightarrow> string \<Rightarrow> string \<Rightarrow> string list \<Rightarrow> tn_db \<Rightarrow> tn_error + tn_member" where
  "require_role env org user roles db =
     try_step (fail_if (trim_space org = []) TnNoOrgId) (\<lambda>_.
     try_step (fail_if (trim_space user = []) TnNoUserId) (\<lambda>_.
     try_step (sql_active_member env org user db) (\<lambda>found.
     try_step (or_error TnNoMembership found) (\<lambda>v.
     try_step (fail_if (tm_role (mv_row v) \<notin> set roles) TnBadRole) (\<lambda>_. Inr (mv_row v))))))"

definition find_by_email :: "tn_env \<Rightarrow> string \<Rightarrow> string \<Rightarrow> tn_db \<Rightarrow> tn_error + member_view option" where
  "find_by_email env org email db =
     try_step (sql_list_members env org db) (\<lambda>vs.
     Inr (List.find (\<lambda>v. to_lower (mv_email v) = to_lower email \<and> tm_removed (mv_row v) = None) vs))"

record tn_scope =
  tsc_member :: string
  tsc_org :: string
  tsc_role :: string
  tsc_user :: string

definition resolve_scope :: "tn_env \<Rightarrow> string \<Rightarrow> string \<Rightarrow> tn_db \<Rightarrow> tn_error + tn_scope" where
  "resolve_scope env user org db =
     try_step (fail_if (trim_space user = []) TnNoUserId) (\<lambda>_.
     try_step (fail_if (trim_space org = []) TnNoMembership) (\<lambda>_.
     try_step (sql_active_member env org user db) (\<lambda>found.
     try_step (or_error TnNoMembership found) (\<lambda>v.
     Inr \<lparr>tsc_member = tm_id (mv_row v), tsc_org = tm_org (mv_row v), tsc_role = tm_role (mv_row v), tsc_user = tm_user (mv_row v)\<rparr>))))"

subsection \<open>Organizations\<close>

definition list_organizations :: "tn_env \<Rightarrow> org_filter \<Rightarrow> tn_db \<Rightarrow> tn_error + (tn_org list \<times> nat)" where
  "list_organizations env f db =
     (let limit = (if of_limit f \<le> 0 then 20 else of_limit f)
      in sql_list_orgs env (f\<lparr>of_limit := (if 100 < limit then 100 else limit), of_offset := max 0 (of_offset f)\<rparr>) db)"

definition get_organization :: "tn_env \<Rightarrow> string \<Rightarrow> tn_db \<Rightarrow> tn_error + tn_org option" where
  "get_organization env i db = (if trim_space i = [] then Inl TnNoOrgId else sql_get_org env i db)"

record create_org_request =
  cor_slug :: string
  cor_name :: string
  cor_metadata :: "string option"
  cor_creator :: "string option"

definition create_organization :: "tn_env \<Rightarrow> create_org_request \<Rightarrow> tn_db \<Rightarrow> tn_db \<times> (tn_error + tn_org)" where
  "create_organization env r db =
     (case try_step (normalize_name (cor_name r)) (\<lambda>name. try_step (normalize_slug (cor_slug r)) (\<lambda>slug. Inr (name, slug))) of
        Inl e \<Rightarrow> (db, Inl e)
      | Inr (name, slug) \<Rightarrow>
          sql_create_org env \<lparr>oi_slug = slug, oi_name = name, oi_status = ''active'',
            oi_metadata = coalesce (cor_metadata r) ''{}'', oi_creator = cor_creator r\<rparr> db)"

text \<open>A field that is not given stays; one that is given is normalized.\<close>

definition given :: "('a \<Rightarrow> tn_error + 'b) \<Rightarrow> 'a option \<Rightarrow> tn_error + 'b option" where
  "given f x = (case x of None \<Rightarrow> Inr None | Some y \<Rightarrow> try_step (f y) (\<lambda>z. Inr (Some z)))"

definition update_organization :: "tn_env \<Rightarrow> string \<Rightarrow> org_update \<Rightarrow> tn_db \<Rightarrow> tn_db \<times> (tn_error + tn_org option)" where
  "update_organization env i u db =
     (if trim_space i = [] then (db, Inl TnNoOrgId)
      else case try_step (given normalize_name (ou_name u)) (\<lambda>name.
                try_step (given normalize_org_status (ou_status u)) (\<lambda>status. Inr (name, status))) of
             Inl e \<Rightarrow> (db, Inl e)
           | Inr (name, status) \<Rightarrow> sql_update_org env i \<lparr>ou_name = name, ou_status = status, ou_metadata = ou_metadata u\<rparr> db)"

definition archive_organization :: "tn_env \<Rightarrow> string \<Rightarrow> tn_db \<Rightarrow> tn_db \<times> (tn_error + tn_org option)" where
  "archive_organization env i db = (if trim_space i = [] then (db, Inl TnNoOrgId) else sql_archive_org env i db)"

definition list_my_memberships :: "tn_env \<Rightarrow> string \<Rightarrow> tn_db \<Rightarrow> tn_error + member_view list" where
  "list_my_memberships env user db = (if trim_space user = [] then Inl TnNoUserId else sql_my_memberships env user db)"

definition list_members :: "tn_env \<Rightarrow> tn_actor \<Rightarrow> string \<Rightarrow> tn_db \<Rightarrow> tn_error + member_view list" where
  "list_members env a org db =
     try_step (require_role env org (ac_user a) [''owner'', ''admin'', ''member''] db) (\<lambda>_. sql_list_members env org db)"

subsection \<open>Invitations\<close>

definition new_invite :: "tn_env \<Rightarrow> tn_actor \<Rightarrow> string \<Rightarrow> string \<times> string \<Rightarrow> string \<Rightarrow> tn_invite" where
  "new_invite env a org email_role hash =
     \<lparr>iv_id = te_id env RowInvite, iv_org = org, iv_email = fst email_role, iv_role = snd email_role, iv_hash = hash,
      iv_status = ''pending'', iv_inviter = ac_user a, iv_acceptor = None, iv_expires = te_now env + 7 * 24 * 60 * go_minute,
      iv_accepted = None, iv_revoked = None, iv_created = te_now env, iv_updated = te_now env\<rparr>"

definition check_invite :: "tn_env \<Rightarrow> tn_actor \<Rightarrow> string \<Rightarrow> string \<times> string \<Rightarrow> tn_db \<Rightarrow> tn_error + (tn_invite \<times> string)" where
  "check_invite env a org request db =
     try_step (require_role env org (ac_user a) [''owner'', ''admin''] db) (\<lambda>_.
     try_step (normalize_email (fst request)) (\<lambda>email.
     try_step (normalize_invite_role (snd request)) (\<lambda>role.
     try_step (find_by_email env org email db) (\<lambda>found.
     try_step (fail_if (found \<noteq> None) TnAlreadyMember) (\<lambda>_.
     try_step (new_invitation_token env) (\<lambda>(raw, hash).
     Inr (new_invite env a org (email, role) hash, raw)))))))"

definition invite_member :: "tn_env \<Rightarrow> tn_actor \<Rightarrow> string \<Rightarrow> string \<times> string \<Rightarrow> tn_db \<Rightarrow> tn_db \<times> (tn_error + (tn_invite \<times> string))" where
  "invite_member env a org request db =
     (case check_invite env a org request db of
        Inl e \<Rightarrow> (db, Inl e)
      | Inr (i, raw) \<Rightarrow>
          (case sql_create_invite env i
                  (audit_record a ''organization.member.invite'' org [(''email'', iv_email i), (''role'', iv_role i)]) db of
             (db', Inl e) \<Rightarrow> (db', Inl e)
           | (db', Inr i') \<Rightarrow> (db', Inr (i', raw))))"

definition check_accept :: "tn_env \<Rightarrow> tn_actor \<Rightarrow> string \<Rightarrow> tn_db \<Rightarrow> tn_error + tn_invite" where
  "check_accept env a token db =
     (let hash = hash_token env (trim_space token)
      in try_step (fail_if (hash = []) TnNoToken) (\<lambda>_.
         try_step (sql_invite_by_hash env hash db) (\<lambda>found.
         try_step (or_error TnNoInvite found) (\<lambda>i.
         try_step (fail_if (iv_status i \<noteq> ''pending'') TnNotPending) (\<lambda>_.
         try_step (fail_if (iv_expires i < te_now env) TnExpired) (\<lambda>_.
         try_step (normalize_email (ac_email a)) (\<lambda>email.
         try_step (fail_if (to_lower (iv_email i) \<noteq> to_lower email) TnWrongEmail) (\<lambda>_.
         Inr i))))))))"

text \<open>The transaction of an acceptance whose checks read the invitation \<open>i\<close>.\<close>

definition accept_checked :: "tn_env \<Rightarrow> tn_actor \<Rightarrow> tn_invite \<Rightarrow> tn_db \<Rightarrow> tn_db \<times> (tn_error + tn_member)" where
  "accept_checked env a i db =
     sql_accept_invite env i (ac_user a)
       (audit_record a ''organization.member.accept'' (iv_org i) [(''email'', iv_email i), (''role'', iv_role i)]) db"

definition accept_invitation :: "tn_env \<Rightarrow> tn_actor \<Rightarrow> string \<Rightarrow> tn_db \<Rightarrow> tn_db \<times> (tn_error + tn_member)" where
  "accept_invitation env a token db =
     (case check_accept env a token db of Inl e \<Rightarrow> (db, Inl e) | Inr i \<Rightarrow> accept_checked env a i db)"

definition check_revoke :: "tn_env \<Rightarrow> tn_actor \<Rightarrow> string \<Rightarrow> string \<Rightarrow> tn_db \<Rightarrow> tn_error + tn_invite" where
  "check_revoke env a org i db =
     try_step (require_role env org (ac_user a) [''owner'', ''admin''] db) (\<lambda>_.
     try_step (fail_if (trim_space i = []) TnNoInviteId) (\<lambda>_.
     try_step (sql_get_invite env org (trim_space i) db) (\<lambda>found.
     try_step (or_error TnNoInvite found) (\<lambda>x.
     try_step (fail_if (iv_status x \<noteq> ''pending'') TnNotPending) (\<lambda>_. Inr x)))))"

definition revoke_invitation :: "tn_env \<Rightarrow> tn_actor \<Rightarrow> string \<Rightarrow> string \<Rightarrow> tn_db \<Rightarrow> tn_db \<times> (tn_error + tn_invite option)" where
  "revoke_invitation env a org i db =
     (case check_revoke env a org i db of
        Inl e \<Rightarrow> (db, Inl e)
      | Inr x \<Rightarrow> sql_revoke_invite env org (trim_space i)
          (audit_record a ''organization.member.invitation_revoke'' org
             [(''invitationID'', trim_space i), (''email'', iv_email x), (''role'', iv_role x)]) db)"

subsection \<open>Members\<close>

definition check_target :: "tn_env \<Rightarrow> string \<Rightarrow> string \<Rightarrow> tn_db \<Rightarrow> tn_error + tn_member" where
  "check_target env org user db =
     try_step (sql_active_member env org user db) (\<lambda>found. try_step (or_error TnNoMember found) (\<lambda>v. Inr (mv_row v)))"

definition check_update_role :: "tn_env \<Rightarrow> tn_actor \<Rightarrow> string \<times> string \<Rightarrow> string \<Rightarrow> tn_db \<Rightarrow> tn_error + string" where
  "check_update_role env a org_user role0 db =
     try_step (normalize_member_role role0) (\<lambda>role.
     try_step (fail_if (role = ''owner'') TnUseTransfer) (\<lambda>_.
     try_step (require_role env (fst org_user) (ac_user a) [''owner'', ''admin''] db) (\<lambda>me.
     try_step (check_target env (fst org_user) (snd org_user) db) (\<lambda>target.
     try_step (fail_if (tm_role target = ''owner'' \<and> tm_role me \<noteq> ''owner'') TnOnlyOwners) (\<lambda>_.
     try_step (fail_if (tm_role target = ''owner'') TnUseTransfer) (\<lambda>_. Inr role))))))"

definition update_member_role :: "tn_env \<Rightarrow> tn_actor \<Rightarrow> string \<times> string \<Rightarrow> string \<Rightarrow> tn_db \<Rightarrow> tn_db \<times> (tn_error + tn_member option)" where
  "update_member_role env a org_user role0 db =
     (case check_update_role env a org_user role0 db of
        Inl e \<Rightarrow> (db, Inl e)
      | Inr role \<Rightarrow> sql_update_role env (fst org_user) (snd org_user) role
          (audit_record a ''organization.member.role_update'' (fst org_user) [(''userID'', snd org_user), (''role'', role)]) db)"

definition check_remove :: "tn_env \<Rightarrow> tn_actor \<Rightarrow> string \<times> string \<Rightarrow> tn_db \<Rightarrow> tn_error + tn_member" where
  "check_remove env a org_user db =
     try_step (require_role env (fst org_user) (ac_user a) [''owner'', ''admin''] db) (\<lambda>me.
     try_step (check_target env (fst org_user) (snd org_user) db) (\<lambda>target.
     try_step (fail_if (tm_role target = ''owner'') (if tm_role me \<noteq> ''owner'' then TnOnlyOwners else TnRemoveOwner)) (\<lambda>_. Inr target)))"

definition remove_checked :: "tn_env \<Rightarrow> tn_actor \<Rightarrow> string \<times> string \<Rightarrow> tn_member \<Rightarrow> tn_db \<Rightarrow> tn_db \<times> (tn_error + unit)" where
  "remove_checked env a org_user target db =
     sql_remove_member env (fst org_user) (snd org_user)
       (audit_record a ''organization.member.remove'' (fst org_user) [(''userID'', snd org_user), (''role'', tm_role target)]) db"

definition remove_member :: "tn_env \<Rightarrow> tn_actor \<Rightarrow> string \<times> string \<Rightarrow> tn_db \<Rightarrow> tn_db \<times> (tn_error + unit)" where
  "remove_member env a org_user db =
     (case check_remove env a org_user db of Inl e \<Rightarrow> (db, Inl e) | Inr target \<Rightarrow> remove_checked env a org_user target db)"

definition check_transfer :: "tn_env \<Rightarrow> tn_actor \<Rightarrow> string \<Rightarrow> string \<Rightarrow> tn_db \<Rightarrow> tn_error + string" where
  "check_transfer env a org user0 db =
     try_step (require_role env org (ac_user a) [''owner''] db) (\<lambda>_.
     try_step (fail_if (trim_space user0 = []) TnNoNewOwner) (\<lambda>_.
     try_step (fail_if (trim_space user0 = ac_user a) TnSameOwner) (\<lambda>_.
     try_step (sql_active_member env org (trim_space user0) db) (\<lambda>found.
     try_step (fail_if (found = None) TnNoNewOwner) (\<lambda>_. Inr (trim_space user0))))))"

definition transfer_ownership :: "tn_env \<Rightarrow> tn_actor \<Rightarrow> string \<Rightarrow> string \<Rightarrow> tn_db \<Rightarrow> tn_db \<times> (tn_error + unit)" where
  "transfer_ownership env a org user0 db =
     (case check_transfer env a org user0 db of
        Inl e \<Rightarrow> (db, Inl e)
      | Inr user \<Rightarrow> sql_transfer env org (ac_user a) user
          (audit_record a ''organization.owner.transfer'' org [(''fromUserID'', ac_user a), (''toUserID'', user)]) db)"

end
