(* ===== verification/Tenant_Properties.thy ===== *)
theory Tenant_Properties
  imports Tenant_Service
begin

text \<open>
  What tenancy promises. The tables are abstracted to a map from organizations and users to roles;
  every request changes it only in the way, and by the people, that the roles allow, and an
  organization keeps exactly one owner. Between the checks of a request and its transaction other
  requests may run: then a revoked invitation can still be accepted, and an organization can lose
  its owner for good.
\<close>

type_synonym role_map = "string \<times> string \<rightharpoonup> string"

definition roles :: "tn_db \<Rightarrow> role_map" where
  "roles db = (\<lambda>(org, user). map_option tm_role (sql_select (active_of org user) (td_members db)))"

text \<open>The foreign keys of memberships, and the check on the roles of invitations.\<close>

definition invitable :: "string \<Rightarrow> bool" where
  "invitable r \<longleftrightarrow> r \<in> {''admin'', ''member''}"

definition member_refs :: "tn_db \<Rightarrow> bool" where
  "member_refs db \<longleftrightarrow> (\<forall>m \<in> set (td_members db). has_org db (tm_org m) \<and> has_user db (tm_user m))
     \<and> (\<forall>i \<in> set (td_invites db). invitable (iv_role i))"

definition one_owner :: "tn_db \<Rightarrow> bool" where
  "one_owner db \<longleftrightarrow> (\<forall>org u v. roles db (org, u) = Some ''owner'' \<longrightarrow> roles db (org, v) = Some ''owner'' \<longrightarrow> u = v)"

text \<open>The organizations with the user who made each.\<close>

definition org_keys :: "tn_db \<Rightarrow> (string \<times> string option) list" where
  "org_keys db = List.map (\<lambda>o'. (og_id o', og_creator o')) (td_orgs db)"

definition owned :: "tn_db \<Rightarrow> bool" where
  "owned db \<longleftrightarrow> (\<forall>(i, creator) \<in> set (org_keys db). \<forall>c. creator = Some c \<longrightarrow> c \<noteq> [] \<longrightarrow> (\<exists>u. roles db (i, u) = Some ''owner''))"

definition tn_ok :: "tn_db \<Rightarrow> bool" where
  "tn_ok db \<longleftrightarrow> member_refs db \<and> one_owner db \<and> owned db"

subsection \<open>Statements and the role map\<close>

lemma tn_call_Inr [simp]: "tn_call env c = Inr u \<longleftrightarrow> \<not> te_fault env c"
  by (simp add: tn_call_def)

lemma tn_tx_cases:
  assumes "tn_tx env body db = (db', r)"
  obtains e where "db' = db" "r = Inl e" | x where "body db = Inr (db', x)" "r = Inr x"
  using assms by (auto simp: tn_tx_def split: if_splits sum.splits prod.splits)

lemma select_ex: "list_ex P xs \<longleftrightarrow> sql_select P xs \<noteq> None"
  by (auto simp: sql_simps list_ex_iff)

lemma roles_Some: "roles db (org, user) = Some r \<Longrightarrow> \<exists>m \<in> set (td_members db). active_of org user m \<and> tm_role m = r"
  by (auto simp: roles_def dest!: sql_select_Some)

lemma roles_None: "roles db (org, user) = None \<longleftrightarrow> \<not> list_ex (active_of org user) (td_members db)"
  by (auto simp: roles_def select_ex)

lemma owner_row: "roles db (org, u) = Some ''owner'' \<Longrightarrow> list_ex (owner_of org) (td_members db)"
  by (auto simp: list_ex_iff owner_of_def active_of_def dest!: roles_Some)

lemma roles_same: "td_members db' = td_members db \<Longrightarrow> roles db' = roles db"
  by (simp add: roles_def)

lemma select_filter: "sql_select P xs = (case filter P xs of [] \<Rightarrow> None | x # ys \<Rightarrow> Some x)"
  by (induction xs) (auto simp: sql_select_def)

lemma views_of_refs: "\<forall>m \<in> set ms. has_org db (tm_org m) \<and> has_user db (tm_user m) \<Longrightarrow> List.map mv_row (member_views db ms) = ms"
  by (induction ms) (auto simp: has_org_def has_user_def select_ex)

lemma active_member_role:
  assumes "member_refs db" "sql_active_member env org user db = Inr found"
  shows "map_option (tm_role \<circ> mv_row) found = roles db (org, user)"
    "found = Some v \<Longrightarrow> active_of org user (mv_row v)"
proof -
  let ?ms = "filter (active_of org user) (td_members db)"
  from assms(2) have found: "found = (case member_views db ?ms of [] \<Rightarrow> None | v # vs \<Rightarrow> Some v)"
    by (auto simp: sql_active_member_def try_step_Inr)
  have rows: "List.map mv_row (member_views db ?ms) = ?ms"
    using assms(1) by (intro views_of_refs) (simp add: member_refs_def)
  have sel: "sql_select (active_of org user) (td_members db) = (case ?ms of [] \<Rightarrow> None | m # ms \<Rightarrow> Some m)"
    by (rule select_filter)
  show "map_option (tm_role \<circ> mv_row) found = roles db (org, user)"
    using rows unfolding found roles_def by (cases "member_views db ?ms"; cases ?ms) (auto simp: sel)
  show "active_of org user (mv_row v)" if "found = Some v"
    using rows that unfolding found by (cases "member_views db ?ms") (auto dest!: filter_eq_ConsD [OF sym])
qed

lemma require_role_holds:
  assumes "member_refs db" "require_role env org user allowed db = Inr m"
  shows "roles db (org, user) = Some (tm_role m)" "tm_role m \<in> set allowed"
  using assms(2) active_member_role(1) [OF assms(1)] by (fastforce simp: require_role_def try_step_Inr)+

lemma check_target_holds:
  assumes "member_refs db" "check_target env org user db = Inr m"
  shows "roles db (org, user) = Some (tm_role m)"
  using assms(2) active_member_role(1) [OF assms(1)] by (fastforce simp: check_target_def try_step_Inr)

text \<open>Rewriting the active rows of a member.\<close>

lemma roles_rewrite:
  assumes rows: "td_members db' = List.map (\<lambda>m. if active_of org user m \<and> P m then f m else m) (td_members db)"
    and same: "\<And>m. tm_org (f m) = tm_org m \<and> tm_user (f m) = tm_user m \<and> tm_removed (f m) = tm_removed m"
    and role: "\<And>m. tm_role (f m) = r" and first: "\<And>m. sql_select (active_of org user) (td_members db) = Some m \<Longrightarrow> P m"
    and here: "roles db (org, user) \<noteq> None"
  shows "roles db' = (roles db)((org, user) \<mapsto> r)"
proof (rule ext, clarify)
  fix o' u
  let ?g = "\<lambda>m. if active_of org user m \<and> P m then f m else m"
  have keep: "active_of o' u (?g m) = active_of o' u m" for m using same [of m] by (simp add: active_of_def)
  have sel: "sql_select (active_of o' u) (td_members db') = map_option ?g (sql_select (active_of o' u) (td_members db))"
    unfolding rows by (rule sql_select_map) (rule keep)
  show "roles db' (o', u) = ((roles db)((org, user) \<mapsto> r)) (o', u)"
  proof (cases "(o', u) = (org, user)")
    case True
    with here obtain m where m: "sql_select (active_of org user) (td_members db) = Some m" by (auto simp: roles_def)
    with sql_select_Some [OF m] first [OF m] True sel role show ?thesis by (simp add: roles_def)
  next
    case False
    have "\<not> active_of org user m" if "active_of o' u m" for m using False that by (auto simp: active_of_def)
    then have "map_option (tm_role \<circ> ?g) (sql_select (active_of o' u) (td_members db)) = map_option tm_role (sql_select (active_of o' u) (td_members db))"
      by (intro option.map_cong refl) (auto dest: sql_select_Some)
    moreover have "((roles db)((org, user) \<mapsto> r)) (o', u) = roles db (o', u)" using False by (intro fun_upd_other)
    ultimately show ?thesis using sel by (simp add: roles_def option.map_comp)
  qed
qed

lemma roles_removed:
  assumes rows: "td_members db' = List.map (\<lambda>m. if active_of org user m then f m else m) (td_members db)"
    and gone: "\<And>m. tm_removed (f m) \<noteq> None"
  shows "roles db' = (roles db)((org, user) := None)"
proof (rule ext, clarify)
  fix o' u
  let ?g = "\<lambda>m. if active_of org user m then f m else m"
  show "roles db' (o', u) = ((roles db)((org, user) := None)) (o', u)"
  proof (cases "(o', u) = (org, user)")
    case True
    have "\<not> active_of org user (?g m)" for m using gone [of m] by (auto simp: active_of_def)
    then have "\<not> list_ex (active_of org user) (td_members db')" unfolding rows list_ex_iff set_map by blast
    with True show ?thesis by (simp add: roles_None [symmetric])
  next
    case False
    have "active_of o' u (?g m) = active_of o' u m \<and> (active_of o' u m \<longrightarrow> ?g m = m)" for m
      using False gone [of m] by (auto simp: active_of_def)
    then have "sql_select (active_of o' u) (List.map ?g ms) = sql_select (active_of o' u) ms" for ms
      by (induction ms) (auto simp: sql_select_def)
    moreover have "((roles db)((org, user) := None)) (o', u) = roles db (o', u)" using False by (intro fun_upd_other)
    ultimately show ?thesis by (simp add: roles_def rows)
  qed
qed

lemma roles_added:
  assumes "td_members db' = td_members db @ [m]" "tm_removed m = None" "\<not> list_ex (active_of (tm_org m) (tm_user m)) (td_members db)"
  shows "roles db' = (roles db)((tm_org m, tm_user m) \<mapsto> tm_role m)"
proof (rule ext, clarify)
  fix o' u
  show "roles db' (o', u) = ((roles db)((tm_org m, tm_user m) \<mapsto> tm_role m)) (o', u)"
    using assms by (auto simp: roles_def sql_select_append select_ex sql_select_def [of _ "[m]"] active_of_def split: option.splits)
qed

subsection \<open>What each transaction does to the roles\<close>

lemma insert_member_rows:
  assumes "insert_member env m tx = Inr tx'"
  shows "tx' = tx\<lparr>td_members := td_members tx @ [m]\<rparr>" "\<not> list_ex (active_of (tm_org m) (tm_user m)) (td_members tx)"
    "tm_role m = ''owner'' \<Longrightarrow> \<not> list_ex (owner_of (tm_org m)) (td_members tx)" "has_org tx (tm_org m)" "has_user tx (tm_user m)"
  using assms by (auto simp: insert_member_def try_step_Inr)

lemma insert_audit_rows: "insert_audit env a tx = Inr tx' \<Longrightarrow> tx' = tx\<lparr>td_audits := td_audits tx @ [(te_id env RowAudit, a)]\<rparr>"
  by (auto simp: insert_audit_def try_step_Inr)

lemma create_org_rows:
  assumes "sql_create_org env i db = (db', r)"
  obtains "db' = db" | "\<not> has_org db (te_id env RowOrg)" "td_orgs db' = td_orgs db @ [new_org env i]" "td_users db' = td_users db"
      "oi_creator i = None \<or> oi_creator i = Some []" "td_members db' = td_members db"
    | c where "\<not> has_org db (te_id env RowOrg)" "td_orgs db' = td_orgs db @ [new_org env i]" "td_users db' = td_users db"
      "oi_creator i = Some c" "c \<noteq> []" "has_user db c" "td_members db' = td_members db @ [new_member env (te_id env RowOrg) c ''owner'' c]"
      "\<not> list_ex (active_of (te_id env RowOrg) c) (td_members db)" "\<not> list_ex (owner_of (te_id env RowOrg)) (td_members db)"
  using assms unfolding sql_create_org_def
proof (cases rule: tn_tx_cases)
  case (2 x)
  then obtain tx1 where 1: "insert_org env (new_org env i) db = Inr tx1" "first_owner env (new_org env i) tx1 = Inr db'"
    by (auto simp: try_step_Inr)
  from 1(1) have tx1: "tx1 = db\<lparr>td_orgs := td_orgs db @ [new_org env i]\<rparr>" "\<not> has_org db (te_id env RowOrg)"
    by (auto simp: insert_org_def try_step_Inr has_org_def new_org_def list_ex_iff)
  show ?thesis
  proof (cases "oi_creator i = None \<or> oi_creator i = Some []")
    case True
    with 1(2) tx1 that(2) show ?thesis by (auto simp: first_owner_def new_org_def)
  next
    case False
    then obtain c where c: "oi_creator i = Some c" "c \<noteq> []" by auto
    with 1(2) have ins: "insert_member env (new_member env (te_id env RowOrg) c ''owner'' c) tx1 = Inr db'"
      by (simp add: first_owner_def new_org_def)
    note rows = insert_member_rows [OF ins]
    have "\<not> list_ex (active_of (te_id env RowOrg) c) (td_members db)" "\<not> list_ex (owner_of (te_id env RowOrg)) (td_members db)"
      "has_user db c" using rows(2,3,5) by (simp_all add: new_member_def tx1 has_user_def)
    with that(3) c tx1 rows(1) show ?thesis by simp
  qed
qed

lemma write_org_rows:
  assumes "write_org env call i f db = (db', r)" "\<And>o'. og_id (f o') = og_id o'" "\<And>o'. og_creator (f o') = og_creator o'"
  shows "td_members db' = td_members db" "td_users db' = td_users db" "td_invites db' = td_invites db"
    "List.map og_id (td_orgs db') = List.map og_id (td_orgs db)" "org_keys db' = org_keys db"
  using assms by (auto simp: write_org_def sql_update_rows org_keys_def split: if_splits option.splits)

lemma update_role_roles:
  assumes "sql_update_role env org user role a db = (db', r)"
  shows "(db' = db \<or> roles db' = (roles db)((org, user) \<mapsto> role)) \<and> td_orgs db' = td_orgs db \<and> td_users db' = td_users db
    \<and> (member_refs db \<longrightarrow> member_refs db')"
proof (cases "sql_select (active_of org user) (td_members db)")
  case None
  with assms show ?thesis by (auto simp: sql_update_role_def Let_def split: if_splits)
next
  case (Some m)
  let ?f = "\<lambda>m. m\<lparr>tm_role := role, tm_updated := te_now env\<rparr>"
  from assms Some have tx: "tn_tx env (\<lambda>tx.
      try_step (tn_call env TnUpdateRole) (\<lambda>_.
      try_step (fail_if (role \<notin> {''owner'', ''admin'', ''member''}) TnCheck) (\<lambda>_.
      try_step (fail_if (role = ''owner'' \<and> list_ex (\<lambda>x. owner_of org x \<and> tm_user x \<noteq> user) (td_members tx)) TnDuplicate) (\<lambda>_.
      try_step (insert_audit env a (tx\<lparr>td_members := fst (sql_update (active_of org user) ?f (td_members tx))\<rparr>)) (\<lambda>tx1.
      Inr (tx1, Some (?f m))))))) db = (db', r)" by (simp add: sql_update_role_def Let_def)
  then show ?thesis
  proof (cases rule: tn_tx_cases)
    case (2 x)
    then have rows: "td_members db' = List.map (\<lambda>m. if active_of org user m \<and> True then ?f m else m) (td_members db)"
      "td_orgs db' = td_orgs db" "td_users db' = td_users db" "td_invites db' = td_invites db"
      by (auto simp: try_step_Inr sql_update_rows dest!: insert_audit_rows)
    have "roles db (org, user) \<noteq> None" using Some by (simp add: roles_def)
    then have "roles db' = (roles db)((org, user) \<mapsto> role)" by (intro roles_rewrite [OF rows(1)]) simp_all
    with rows show ?thesis by (auto simp: member_refs_def has_org_def has_user_def)
  qed simp
qed

lemma remove_member_roles:
  assumes "sql_remove_member env org user a db = (db', r)"
  shows "(db' = db \<or> roles db' = (roles db)((org, user) := None)) \<and> td_orgs db' = td_orgs db \<and> td_users db' = td_users db
    \<and> (member_refs db \<longrightarrow> member_refs db')"
proof (cases "te_fault env TnBegin \<or> te_fault env TnRemoveMember \<or> \<not> list_ex (active_of org user) (td_members db)")
  case True
  with assms have "db' = db" unfolding sql_remove_member_def by (simp split: if_splits)
  then show ?thesis by simp
next
  case False
  let ?f = "\<lambda>m. m\<lparr>tm_removed := Some (te_now env), tm_updated := te_now env\<rparr>"
  from assms False have tx: "tn_tx env (\<lambda>tx.
      try_step (insert_audit env a (tx\<lparr>td_members := fst (sql_update (active_of org user) ?f (td_members tx))\<rparr>)) (\<lambda>tx1.
      Inr (tx1, ()))) db = (db', r)" by (simp add: sql_remove_member_def)
  then show ?thesis
  proof (cases rule: tn_tx_cases)
    case (2 x)
    then have rows: "td_members db' = List.map (\<lambda>m. if active_of org user m then ?f m else m) (td_members db)"
      "td_orgs db' = td_orgs db" "td_users db' = td_users db" "td_invites db' = td_invites db"
      by (auto simp: try_step_Inr sql_update_rows dest!: insert_audit_rows)
    have "roles db' = (roles db)((org, user) := None)" by (rule roles_removed [OF rows(1)]) simp
    with rows show ?thesis by (auto simp: member_refs_def has_org_def has_user_def)
  qed simp
qed

lemma transfer_roles:
  assumes "sql_transfer env org owner user a db = (db', r)" and owner: "roles db (org, owner) = Some ''owner''" and other: "owner \<noteq> user"
  shows "(db' = db \<or> roles db (org, user) \<noteq> None \<and> roles db' = (roles db)((org, owner) \<mapsto> ''admin'', (org, user) \<mapsto> ''owner''))
    \<and> td_orgs db' = td_orgs db \<and> td_users db' = td_users db \<and> (member_refs db \<longrightarrow> member_refs db')"
  using assms(1) unfolding sql_transfer_def
proof (cases rule: tn_tx_cases)
  case (2 x)
  let ?tx = "demote_owner env org owner db"
  let ?down = "\<lambda>m. m\<lparr>tm_role := ''admin'', tm_updated := te_now env\<rparr>" and ?up = "\<lambda>m. m\<lparr>tm_role := ''owner'', tm_updated := te_now env\<rparr>"
  have low: "td_members ?tx = List.map (\<lambda>m. if active_of org owner m \<and> tm_role m = ''owner'' then ?down m else m) (td_members db)"
    by (simp add: demote_owner_def sql_update_rows)
  have demoted: "roles ?tx = (roles db)((org, owner) \<mapsto> ''admin'')"
    by (rule roles_rewrite [OF low]) (use owner in \<open>auto simp: roles_def\<close>)
  from 2 have rows: "td_members db' = List.map (\<lambda>m. if active_of org user m \<and> True then ?up m else m) (td_members ?tx)"
    "td_orgs db' = td_orgs db" "td_users db' = td_users db" "list_ex (active_of org user) (td_members ?tx)" "td_invites db' = td_invites db"
    by (auto simp: try_step_Inr promote_owner_def sql_update_rows demote_owner_def dest!: insert_audit_rows)
  from rows(4) have here: "roles ?tx (org, user) \<noteq> None" by (simp add: roles_None)
  then have "roles db' = (roles ?tx)((org, user) \<mapsto> ''owner'')" by (intro roles_rewrite [OF rows(1)]) simp_all
  moreover have "roles db (org, user) \<noteq> None" using here other by (auto simp: demoted)
  ultimately have "roles db (org, user) \<noteq> None \<and> roles db' = (roles db)((org, owner) \<mapsto> ''admin'', (org, user) \<mapsto> ''owner'')"
    by (simp add: demoted)
  moreover have "member_refs db \<longrightarrow> member_refs db'" unfolding member_refs_def rows(1,5) low by (auto simp: has_org_def has_user_def rows(2,3))
  ultimately show ?thesis using rows(2,3) by blast
qed simp

lemma accept_roles:
  assumes "sql_accept_invite env i user a db = (db', r)"
  shows "(db' = db \<or> roles db (iv_org i, user) = None \<and> roles db' = (roles db)((iv_org i, user) \<mapsto> iv_role i)
      \<and> (iv_role i = ''owner'' \<longrightarrow> \<not> list_ex (owner_of (iv_org i)) (td_members db)))
    \<and> td_orgs db' = td_orgs db \<and> td_users db' = td_users db \<and> (member_refs db \<longrightarrow> member_refs db')"
  using assms unfolding sql_accept_invite_def Let_def
proof (cases rule: tn_tx_cases)
  case (2 x)
  let ?m = "new_member env (iv_org i) user (iv_role i) (iv_inviter i)"
  from 2 obtain tx where ins: "insert_member env ?m (mark_accepted env i user db) = Inr tx" and last: "td_members db' = td_members tx"
    "td_orgs db' = td_orgs tx" "td_users db' = td_users tx" "td_invites db' = td_invites tx"
    by (auto simp: try_step_Inr dest!: insert_audit_rows)
  note rows = insert_member_rows [OF ins]
  have mem: "td_members db' = td_members db @ [?m]" "td_orgs db' = td_orgs db" "td_users db' = td_users db"
    "td_invites db' = td_invites (mark_accepted env i user db)"
    using last rows(1) by (simp_all add: mark_accepted_def)
  have m: "tm_org ?m = iv_org i" "tm_user ?m = user" "tm_role ?m = iv_role i" "tm_removed ?m = None" by (simp_all add: new_member_def)
  have free: "\<not> list_ex (active_of (tm_org ?m) (tm_user ?m)) (td_members db)" using rows(2) by (simp add: mark_accepted_def)
  have "roles db' = (roles db)((iv_org i, user) \<mapsto> iv_role i)" using roles_added [OF mem(1) m(4) free] m(1-3) by simp
  moreover have "roles db (iv_org i, user) = None" using free m(1,2) by (simp add: roles_None)
  moreover have "iv_role i = ''owner'' \<longrightarrow> \<not> list_ex (owner_of (iv_org i)) (td_members db)" using rows(3) by (simp add: mark_accepted_def new_member_def)
  moreover have "member_refs db \<longrightarrow> member_refs db'" using rows(4,5) m(1,2) by (auto simp: member_refs_def mem has_org_def has_user_def mark_accepted_def sql_update_rows)
  ultimately show ?thesis using mem(2,3) by blast
qed simp

lemma create_invite_keeps:
  assumes "sql_create_invite env i a db = (db', r)"
  shows "td_members db' = td_members db \<and> td_orgs db' = td_orgs db \<and> (member_refs db \<longrightarrow> member_refs db')"
  using assms unfolding sql_create_invite_def
  by (cases rule: tn_tx_cases) (auto simp: try_step_Inr insert_invite_def member_refs_def has_org_def has_user_def invitable_def dest!: insert_audit_rows)

lemma revoke_invite_keeps:
  assumes "sql_revoke_invite env org j a db = (db', r)"
  shows "td_members db' = td_members db \<and> td_orgs db' = td_orgs db \<and> (member_refs db \<longrightarrow> member_refs db')"
  using assms
  by (auto simp: sql_revoke_invite_def Let_def tn_tx_def try_step_Inr sql_update_rows member_refs_def has_org_def has_user_def
      split: if_splits option.splits sum.splits dest!: insert_audit_rows)

subsection \<open>Requests\<close>

datatype tn_request =
    RqCreate tn_env create_org_request
  | RqUpdate tn_env string org_update
  | RqArchive tn_env string
  | RqInvite tn_env tn_actor string "string \<times> string"
  | RqAccept tn_env tn_actor string
  | RqRevoke tn_env tn_actor string string
  | RqRole tn_env tn_actor "string \<times> string" string
  | RqRemove tn_env tn_actor "string \<times> string"
  | RqTransfer tn_env tn_actor string string

fun tn_serve :: "tn_request \<Rightarrow> tn_db \<Rightarrow> tn_db" where
  "tn_serve (RqCreate env r) db = fst (create_organization env r db)"
| "tn_serve (RqUpdate env i u) db = fst (update_organization env i u db)"
| "tn_serve (RqArchive env i) db = fst (archive_organization env i db)"
| "tn_serve (RqInvite env a org r) db = fst (invite_member env a org r db)"
| "tn_serve (RqAccept env a token) db = fst (accept_invitation env a token db)"
| "tn_serve (RqRevoke env a org i) db = fst (revoke_invitation env a org i db)"
| "tn_serve (RqRole env a ou role) db = fst (update_member_role env a ou role db)"
| "tn_serve (RqRemove env a ou) db = fst (remove_member env a ou db)"
| "tn_serve (RqTransfer env a org user) db = fst (transfer_ownership env a org user db)"

fun tn_serves :: "tn_request list \<Rightarrow> tn_db \<Rightarrow> tn_db" where
  "tn_serves [] db = db"
| "tn_serves (x # xs) db = tn_serves xs (tn_serve x db)"

text \<open>The changes of the role map that a request may make.\<close>

definition may_manage :: "role_map \<Rightarrow> string \<Rightarrow> string \<Rightarrow> bool" where
  "may_manage rm org user \<longleftrightarrow> rm (org, user) = Some ''owner'' \<or> rm (org, user) = Some ''admin''"

definition plain_member :: "role_map \<Rightarrow> string \<times> string \<Rightarrow> bool" where
  "plain_member rm ou \<longleftrightarrow> (\<exists>r. rm ou = Some r \<and> r \<noteq> ''owner'')"

fun may_change :: "tn_db \<Rightarrow> tn_request \<Rightarrow> role_map \<Rightarrow> role_map \<Rightarrow> bool" where
  "may_change db (RqCreate env r) rm rm' \<longleftrightarrow>
     (\<exists>c. cor_creator r = Some c \<and> \<not> has_org db (te_id env RowOrg) \<and> rm' = rm((te_id env RowOrg, c) \<mapsto> ''owner''))"
| "may_change db (RqAccept env a token) rm rm' \<longleftrightarrow>
     (\<exists>i \<in> set (td_invites db). iv_hash i = hash_token env (trim_space token) \<and> iv_status i = ''pending'' \<and> te_now env \<le> iv_expires i
        \<and> to_lower (iv_email i) = to_lower (to_lower (trim_space (ac_email a))) \<and> invitable (iv_role i)
        \<and> rm (iv_org i, ac_user a) = None \<and> rm' = rm((iv_org i, ac_user a) \<mapsto> iv_role i))"
| "may_change db (RqRole env a ou role) rm rm' \<longleftrightarrow>
     may_manage rm (fst ou) (ac_user a) \<and> plain_member rm ou
     \<and> (\<exists>r. invitable r \<and> rm' = rm(ou \<mapsto> r))"
| "may_change db (RqRemove env a ou) rm rm' \<longleftrightarrow>
     may_manage rm (fst ou) (ac_user a) \<and> plain_member rm ou \<and> rm' = rm(ou := None)"
| "may_change db (RqTransfer env a org user) rm rm' \<longleftrightarrow>
     rm (org, ac_user a) = Some ''owner'' \<and> trim_space user \<noteq> ac_user a \<and> rm (org, trim_space user) \<noteq> None
     \<and> rm' = rm((org, ac_user a) \<mapsto> ''admin'', (org, trim_space user) \<mapsto> ''owner'')"
| "may_change db _ rm rm' \<longleftrightarrow> False"

text \<open>
  What is kept, and how the roles and the organizations change, for each request.
\<close>

definition fair_step :: "tn_db \<Rightarrow> tn_request \<Rightarrow> tn_db \<Rightarrow> bool" where
  "fair_step db x db' \<longleftrightarrow> member_refs db' \<and> (roles db' = roles db \<or> may_change db x (roles db) (roles db'))"

lemma role_step:
  assumes "member_refs db"
  shows "fair_step db (RqRole env a ou role) (tn_serve (RqRole env a ou role) db)"
proof (cases "check_update_role env a ou role db")
  case (Inl e)
  with assms show ?thesis by (simp add: fair_step_def update_member_role_def)
next
  case (Inr r)
  then obtain me target where c: "require_role env (fst ou) (ac_user a) [''owner'', ''admin''] db = Inr me"
    "check_target env (fst ou) (snd ou) db = Inr target" "tm_role target \<noteq> ''owner''" "invitable r"
    by (auto simp: invitable_def check_update_role_def try_step_Inr normalize_member_role_def split: if_splits)
  have allowed: "may_manage (roles db) (fst ou) (ac_user a)" "plain_member (roles db) ou"
    using require_role_holds [OF assms c(1)] check_target_holds [OF assms c(2)] c(3) by (auto simp: may_manage_def plain_member_def)
  obtain db' z where s: "sql_update_role env (fst ou) (snd ou) r
      (audit_record a ''organization.member.role_update'' (fst ou) [(''userID'', snd ou), (''role'', r)]) db = (db', z)" by fastforce
  from update_role_roles [OF s] assms Inr s allowed c(4) show ?thesis by (auto simp: fair_step_def update_member_role_def)
qed

lemma remove_step:
  assumes "member_refs db"
  shows "fair_step db (RqRemove env a ou) (tn_serve (RqRemove env a ou) db)"
proof (cases "check_remove env a ou db")
  case (Inl e)
  with assms show ?thesis by (simp add: fair_step_def remove_member_def)
next
  case (Inr target)
  then obtain me where c: "require_role env (fst ou) (ac_user a) [''owner'', ''admin''] db = Inr me"
    "check_target env (fst ou) (snd ou) db = Inr target" "tm_role target \<noteq> ''owner''"
    by (auto simp: check_remove_def try_step_Inr)
  have allowed: "may_manage (roles db) (fst ou) (ac_user a)" "plain_member (roles db) ou"
    using require_role_holds [OF assms c(1)] check_target_holds [OF assms c(2)] c(3) by (auto simp: may_manage_def plain_member_def)
  obtain db' z where s: "sql_remove_member env (fst ou) (snd ou)
      (audit_record a ''organization.member.remove'' (fst ou) [(''userID'', snd ou), (''role'', tm_role target)]) db = (db', z)" by fastforce
  from remove_member_roles [OF s] assms Inr s allowed show ?thesis by (auto simp: fair_step_def remove_member_def remove_checked_def)
qed

lemma create_org_invites: "sql_create_org env i db = (db', z) \<Longrightarrow> td_invites db' = td_invites db"
  unfolding sql_create_org_def
  by (erule tn_tx_cases) (auto simp: try_step_Inr insert_org_def first_owner_def split: option.splits if_splits dest!: insert_member_rows(1))

lemma transfer_step:
  assumes "member_refs db"
  shows "fair_step db (RqTransfer env a org user) (tn_serve (RqTransfer env a org user) db)"
proof (cases "check_transfer env a org user db")
  case (Inl e)
  with assms show ?thesis by (simp add: fair_step_def transfer_ownership_def)
next
  case (Inr u)
  then obtain me where c: "require_role env org (ac_user a) [''owner''] db = Inr me" "u = trim_space user" "u \<noteq> ac_user a"
    by (auto simp: check_transfer_def try_step_Inr)
  have owner: "roles db (org, ac_user a) = Some ''owner''" using require_role_holds [OF assms c(1)] by simp
  obtain db' z where s: "sql_transfer env org (ac_user a) u
      (audit_record a ''organization.owner.transfer'' org [(''fromUserID'', ac_user a), (''toUserID'', u)]) db = (db', z)" by fastforce
  from transfer_roles [OF s owner] assms Inr s c(2,3) owner show ?thesis by (auto simp: fair_step_def transfer_ownership_def)
qed

lemma check_accept_holds:
  assumes "check_accept env a token db = Inr i"
  shows "i \<in> set (td_invites db)" "iv_hash i = hash_token env (trim_space token)" "iv_status i = ''pending''" "te_now env \<le> iv_expires i"
    "to_lower (iv_email i) = to_lower (to_lower (trim_space (ac_email a)))"
  using assms by (auto simp: check_accept_def Let_def try_step_Inr sql_invite_by_hash_def normalize_email_def split: if_splits dest!: sql_select_Some)

lemma accept_step:
  assumes "member_refs db"
  shows "fair_step db (RqAccept env a token) (tn_serve (RqAccept env a token) db)"
proof (cases "check_accept env a token db")
  case (Inl e)
  with assms show ?thesis by (simp add: fair_step_def accept_invitation_def)
next
  case (Inr i)
  note i = check_accept_holds [OF Inr]
  have role: "invitable (iv_role i)" using assms i(1) by (simp add: member_refs_def)
  obtain db' z where s: "accept_checked env a i db = (db', z)" by fastforce
  from accept_roles [OF s [unfolded accept_checked_def]] assms Inr s i role show ?thesis
    by (simp add: fair_step_def accept_invitation_def) blast
qed

lemma create_step:
  assumes "member_refs db"
  shows "fair_step db (RqCreate env r) (tn_serve (RqCreate env r) db)"
proof -
  have ok: "fair_step db (RqCreate env r) db'" if "sql_create_org env i db = (db', z)" "oi_creator i = cor_creator r" for i db' z
    using that(1)
  proof (cases rule: create_org_rows)
    case 1
    with assms show ?thesis by (simp add: fair_step_def)
  next
    case 2
    have "member_refs db'" using assms create_org_invites [OF that(1)] 2 by (auto simp: member_refs_def has_org_def has_user_def)
    with roles_same [OF 2(5)] show ?thesis by (simp add: fair_step_def)
  next
    case (3 c)
    let ?m = "new_member env (te_id env RowOrg) c ''owner'' c"
    have m: "tm_org ?m = te_id env RowOrg" "tm_user ?m = c" "tm_role ?m = ''owner''" "tm_removed ?m = None" by (simp_all add: new_member_def)
    have "\<not> list_ex (active_of (tm_org ?m) (tm_user ?m)) (td_members db)" using 3(8) m(1,2) by simp
    from roles_added [OF 3(7) m(4) this] have "roles db' = (roles db)((te_id env RowOrg, c) \<mapsto> ''owner'')" by (simp add: m)
    moreover have "member_refs db'" using assms 3 m(1,2) create_org_invites [OF that(1)] by (auto simp: member_refs_def has_org_def has_user_def new_org_def)
    moreover have "cor_creator r = Some c" using that(2) 3(4) by simp
    ultimately show ?thesis using 3(1) by (auto simp: fair_step_def)
  qed
  have made: "fair_step db (RqCreate env r) (fst (sql_create_org env i db))" if "oi_creator i = cor_creator r" for i
    using ok [OF _ that] by (cases "sql_create_org env i db") simp
  have "fair_step db x db" for x using assms by (simp add: fair_step_def)
  with made show ?thesis by (simp add: create_organization_def split: sum.split)
qed

lemma keeping_step: "td_members db' = td_members db \<Longrightarrow> member_refs db' \<Longrightarrow> fair_step db x db'"
  using roles_same [of db' db] by (simp add: fair_step_def)

lemma has_org_ids: "has_org db i \<longleftrightarrow> i \<in> set (List.map og_id (td_orgs db))"
  by (auto simp: has_org_def list_ex_iff)

lemma write_step:
  assumes "member_refs db" "\<And>o'. og_id (f o') = og_id o'" "\<And>o'. og_creator (f o') = og_creator o'"
  shows "fair_step db x (fst (write_org env call i f db))"
proof -
  obtain db' r where w: "write_org env call i f db = (db', r)" by fastforce
  note rows = write_org_rows [OF w assms(2,3)]
  have "has_org db' o' = has_org db o'" for o'
    unfolding has_org_ids rows(4) by (rule refl)
  then have "member_refs db'" using assms(1) rows(1-3) by (simp add: member_refs_def has_user_def)
  with w rows(1) show ?thesis by (simp add: keeping_step)
qed

lemma serve_step: "member_refs db \<Longrightarrow> fair_step db x (tn_serve x db)"
proof -
  assume refs: "member_refs db"
  have id: "fair_step db y db" for y using refs by (simp add: fair_step_def)
  show ?thesis
  proof (cases x)
    case (RqUpdate env i u)
    have "fair_step db y (fst (write_org env TnUpdateOrg i (updated_org env v) db))" for y v
      by (rule write_step [OF refs]) (simp_all add: updated_org_def)
    with id RqUpdate show ?thesis by (auto simp: update_organization_def sql_update_org_def split: sum.split)
  next
    case (RqArchive env i)
    have "fair_step db y (fst (sql_archive_org env i db))" for y
      unfolding sql_archive_org_def by (rule write_step [OF refs]) simp_all
    with id RqArchive show ?thesis by (simp add: archive_organization_def)
  next
    case (RqInvite env a org r)
    show ?thesis
    proof (cases "check_invite env a org r db")
      case (Inl e)
      with id RqInvite show ?thesis by (simp add: invite_member_def)
    next
      case (Inr p)
      obtain i raw where p: "p = (i, raw)" by (cases p)
      obtain db' z where s: "sql_create_invite env i (audit_record a ''organization.member.invite'' org
          [(''email'', iv_email i), (''role'', iv_role i)]) db = (db', z)" by fastforce
      have "tn_serve x db = db'" using Inr p s by (cases z) (simp_all add: RqInvite invite_member_def)
      with create_invite_keeps [OF s] refs show ?thesis by (simp add: keeping_step)
    qed
  next
    case (RqRevoke env a org i)
    show ?thesis
    proof (cases "check_revoke env a org i db")
      case (Inl e)
      with id RqRevoke show ?thesis by (simp add: revoke_invitation_def)
    next
      case (Inr y)
      obtain db' z where s: "sql_revoke_invite env org (trim_space i) (audit_record a ''organization.member.invitation_revoke'' org
          [(''invitationID'', trim_space i), (''email'', iv_email y), (''role'', iv_role y)]) db = (db', z)" by fastforce
      have "tn_serve x db = db'" using Inr s by (simp add: RqRevoke revoke_invitation_def)
      with revoke_invite_keeps [OF s] refs show ?thesis by (simp add: keeping_step)
    qed
  qed (simp_all only: refs create_step accept_step role_step remove_step transfer_step)
qed

lemma serves_refs: "member_refs db \<Longrightarrow> member_refs (tn_serves xs db)"
  by (induction xs arbitrary: db) (use serve_step in \<open>auto simp: fair_step_def\<close>)

definition no_tenants :: "tn_user list \<Rightarrow> tn_db" where
  "no_tenants users = \<lparr>td_orgs = [], td_members = [], td_invites = [], td_audits = [], td_users = users\<rparr>"

lemma no_tenants_refs: "member_refs (no_tenants users)"
  by (simp add: member_refs_def no_tenants_def)

text \<open>
  C32. Only those may change roles who are allowed to. Abstracted to the map from organizations and
  users to roles, whatever was requested before and whichever statements fail, a request leaves
  the map as it is or makes one change it may make: creating an organization makes its creator
  the owner; accepting an invitation that is pending and in time, by its token and as the user
  with its address, gives the invited role, never owner, to somebody who has none; owners and
  admins set the roles of others to admin or member and remove them, but not the owner; only the
  owner hands ownership over, to another member, and becomes an admin.
\<close>

theorem only_authorized_role_changes:
  assumes "db = tn_serves xs (no_tenants users)"
  shows "roles (tn_serve x db) = roles db \<or> may_change db x (roles db) (roles (tn_serve x db))"
  using serve_step [OF serves_refs [OF no_tenants_refs [of users], of xs], of x] by (simp add: assms fair_step_def)

subsection \<open>The owner\<close>

definition grown :: "tn_db \<Rightarrow> tn_db \<Rightarrow> bool" where
  "grown db db' \<longleftrightarrow> (\<exists>i creator. org_keys db' = org_keys db @ [(i, creator)] \<and> \<not> has_org db i
     \<and> (\<forall>c. creator = Some c \<longrightarrow> c \<noteq> [] \<longrightarrow> roles db' (i, c) = Some ''owner''))"

lemma create_grows:
  assumes "sql_create_org env i db = (db', z)"
  shows "org_keys db' = org_keys db \<or> grown db db'"
  using assms
proof (cases rule: create_org_rows)
  case (3 c)
  let ?m = "new_member env (te_id env RowOrg) c ''owner'' c"
  have m: "tm_org ?m = te_id env RowOrg" "tm_user ?m = c" "tm_role ?m = ''owner''" "tm_removed ?m = None" by (simp_all add: new_member_def)
  have "\<not> list_ex (active_of (tm_org ?m) (tm_user ?m)) (td_members db)" using 3(8) m(1,2) by simp
  from roles_added [OF 3(7) m(4) this] have "roles db' (te_id env RowOrg, c) = Some ''owner''" by (simp add: m)
  with 3(1,2,4) show ?thesis by (auto simp: grown_def org_keys_def new_org_def)
qed (auto simp: grown_def org_keys_def new_org_def)

lemma orgs_kept:
  "td_orgs (fst (sql_update_role env org user role a db)) = td_orgs db"
  "td_orgs (fst (sql_remove_member env org user a db)) = td_orgs db"
  "td_orgs (fst (sql_accept_invite env i user a db)) = td_orgs db"
  "td_orgs (fst (sql_create_invite env i a db)) = td_orgs db"
  "td_orgs (fst (sql_revoke_invite env org j a db)) = td_orgs db"
  using update_role_roles [OF prod.collapse [symmetric]] remove_member_roles [OF prod.collapse [symmetric]]
    accept_roles [OF prod.collapse [symmetric]] create_invite_keeps [OF prod.collapse [symmetric]]
    revoke_invite_keeps [OF prod.collapse [symmetric]] by simp_all

lemma transfer_orgs: "td_orgs (fst (sql_transfer env org owner user a db)) = td_orgs db"
  by (auto simp: sql_transfer_def tn_tx_def try_step_Inr promote_owner_def demote_owner_def split: sum.split dest!: insert_audit_rows)

lemma fst_case_prod_sum: "fst (case p of (d, Inl e) \<Rightarrow> (d, f e) | (d, Inr y) \<Rightarrow> (d, g y)) = fst p"
  by (simp split: prod.split sum.split)

lemma orgs_step: "org_keys (tn_serve x db) = org_keys db \<or> grown db (tn_serve x db)"
proof -
  have same: ?thesis if "td_orgs (tn_serve x db) = td_orgs db" using that by (simp add: org_keys_def)
  have writes: "org_keys (fst (write_org env call i f db)) = org_keys db"
    if "\<And>o'. og_id (f o') = og_id o'" "\<And>o'. og_creator (f o') = og_creator o'" for env call i f
    by (rule write_org_rows(5) [OF prod.collapse [symmetric] that])
  show ?thesis
  proof (cases x)
    case (RqCreate env r)
    have "org_keys (fst (sql_create_org env i db)) = org_keys db \<or> grown db (fst (sql_create_org env i db))" for i
      by (rule create_grows [OF prod.collapse [symmetric]])
    then show ?thesis unfolding RqCreate by (simp add: create_organization_def split: sum.split)
  next
    case (RqUpdate env i u)
    then show ?thesis by (simp add: update_organization_def sql_update_org_def updated_org_def writes split: sum.split)
  next
    case (RqArchive env i)
    then show ?thesis by (simp add: archive_organization_def sql_archive_org_def writes)
  next
    case (RqInvite env a org r)
    then show ?thesis by (intro same) (simp add: invite_member_def fst_case_prod_sum orgs_kept(4) split: sum.split)
  next
    case (RqAccept env a token)
    then show ?thesis by (intro same) (simp add: accept_invitation_def accept_checked_def orgs_kept(3) split: sum.split)
  next
    case (RqRevoke env a org i)
    then show ?thesis by (intro same) (simp add: revoke_invitation_def orgs_kept(5) split: sum.split)
  next
    case (RqRole env a ou role)
    then show ?thesis by (intro same) (simp add: update_member_role_def orgs_kept(1) split: sum.split)
  next
    case (RqRemove env a ou)
    then show ?thesis by (intro same) (simp add: remove_member_def remove_checked_def orgs_kept(2) split: sum.split)
  next
    case (RqTransfer env a org user)
    then show ?thesis by (intro same) (simp add: transfer_ownership_def transfer_orgs split: sum.split)
  qed
qed

lemma new_org_without_members: "member_refs db \<Longrightarrow> \<not> has_org db i \<Longrightarrow> roles db (i, u) = None"
  by (auto simp: roles_None list_ex_iff member_refs_def active_of_def)

lemma may_accept:
  "may_change db (RqAccept env a token) rm rm' \<Longrightarrow> \<exists>o' r. invitable r \<and> rm (o', ac_user a) = None \<and> rm' = rm((o', ac_user a) \<mapsto> r)"
  by auto

lemma change_one_owner:
  assumes refs: "member_refs db" and ok: "one_owner db" and change: "may_change db x (roles db) (roles db')"
  shows "one_owner db'"
proof (cases x)
  case (RqCreate env r)
  with change obtain c where "\<not> has_org db (te_id env RowOrg)" "roles db' = (roles db)((te_id env RowOrg, c) \<mapsto> ''owner'')" by auto
  with ok new_org_without_members [OF refs] show ?thesis by (auto simp: one_owner_def split: if_splits)
next
  case (RqAccept env a token)
  from may_accept [OF change [unfolded RqAccept]] obtain o' r where "invitable r" "roles db' = (roles db)((o', ac_user a) \<mapsto> r)" by blast
  with ok show ?thesis by (auto simp: one_owner_def invitable_def split: if_splits)
next
  case (RqRole env a ou role)
  with change obtain r where "invitable r" "roles db' = (roles db)(ou \<mapsto> r)" by auto
  with ok show ?thesis by (auto simp: one_owner_def invitable_def split: if_splits)
next
  case (RqRemove env a ou)
  with change have "roles db' = (roles db)(ou := None)" by auto
  with ok show ?thesis by (auto simp: one_owner_def split: if_splits)
next
  case (RqTransfer env a org user)
  with change have t: "roles db (org, ac_user a) = Some ''owner''" "trim_space user \<noteq> ac_user a"
    "roles db' = (roles db)((org, ac_user a) \<mapsto> ''admin'', (org, trim_space user) \<mapsto> ''owner'')" by auto
  have "v = ac_user a" if "roles db (org, v) = Some ''owner''" for v using ok t(1) that unfolding one_owner_def by blast
  with ok t(3) show ?thesis by (auto simp: one_owner_def split: if_splits)
qed (use change in auto)

lemma change_keeps_owned:
  assumes ok: "one_owner db" and change: "may_change db x (roles db) (roles db')" and owner: "roles db (i, u) = Some ''owner''"
  shows "\<exists>v. roles db' (i, v) = Some ''owner''"
proof (cases x)
  case (RqCreate env r)
  with change owner show ?thesis by auto
next
  case (RqAccept env a token)
  with change owner have "roles db' (i, u) = Some ''owner''" by auto
  then show ?thesis by blast
next
  case (RqRole env a ou role)
  with change owner have "roles db' (i, u) = Some ''owner''" by (auto simp: plain_member_def)
  then show ?thesis by blast
next
  case (RqRemove env a ou)
  with change owner have "roles db' (i, u) = Some ''owner''" by (auto simp: plain_member_def)
  then show ?thesis by blast
next
  case (RqTransfer env a org user)
  with change owner show ?thesis by (cases "i = org") auto
qed (use change in auto)

lemma serve_ok:
  assumes ok: "tn_ok db"
  shows "tn_ok (tn_serve x db)"
proof -
  from ok have refs: "member_refs db" and one: "one_owner db" and own: "owned db" by (simp_all add: tn_ok_def)
  note step = serve_step [OF refs, of x, unfolded fair_step_def]
  have one': "one_owner (tn_serve x db)" using step one change_one_owner [OF refs one] by (auto simp: one_owner_def)
  have kept: "\<exists>v. roles (tn_serve x db) (i, v) = Some ''owner''" if "roles db (i, u) = Some ''owner''" for i u
    using step change_keeps_owned [OF one _ that] that by metis
  have "owned (tn_serve x db)" unfolding owned_def
  proof clarify
    fix i creator c
    assume k: "(i, Some c) \<in> set (org_keys (tn_serve x db))" "c \<noteq> []"
    from orgs_step [of x db] show "\<exists>u. roles (tn_serve x db) (i, u) = Some ''owner''"
    proof
      assume "org_keys (tn_serve x db) = org_keys db"
      with k own have "\<exists>u. roles db (i, u) = Some ''owner''" by (fastforce simp: owned_def)
      with kept show ?thesis by blast
    next
      assume "grown db (tn_serve x db)"
      with k consider "(i, Some c) \<in> set (org_keys db)" | "roles (tn_serve x db) (i, c) = Some ''owner''" by (auto simp: grown_def)
      then show ?thesis
      proof cases
        case 1
        with k(2) own have "\<exists>u. roles db (i, u) = Some ''owner''" by (fastforce simp: owned_def)
        with kept show ?thesis by blast
      qed blast
    qed
  qed
  with step one' show ?thesis by (simp add: tn_ok_def)
qed

lemma serves_ok: "tn_ok db \<Longrightarrow> tn_ok (tn_serves xs db)"
  by (induction xs arbitrary: db) (auto intro: serve_ok)

lemma no_tenants_ok: "tn_ok (no_tenants users)"
  using no_tenants_refs by (auto simp: tn_ok_def one_owner_def owned_def org_keys_def roles_def no_tenants_def sql_select_def)

text \<open>
  C33. An organization keeps exactly one owner. Whatever is requested, by whomever, each request as a
  whole and with any statement failing, every organization that a user made has an owner at any
  time, and only one.
\<close>

theorem organization_keeps_one_owner:
  assumes "o' \<in> set (td_orgs (tn_serves xs (no_tenants users)))" and "og_creator o' = Some c" and "c \<noteq> []"
  shows "\<exists>!u. roles (tn_serves xs (no_tenants users)) (og_id o', u) = Some ''owner''"
proof -
  let ?db = "tn_serves xs (no_tenants users)"
  have ok: "one_owner ?db" "owned ?db" using serves_ok [OF no_tenants_ok] by (simp_all add: tn_ok_def)
  have "(og_id o', Some c) \<in> set (org_keys ?db)" using assms(1,2) by (force simp: org_keys_def)
  with ok(2) assms(3) have "\<exists>u. roles ?db (og_id o', u) = Some ''owner''" by (fastforce simp: owned_def)
  with ok(1) show ?thesis unfolding one_owner_def by blast
qed

subsection \<open>Between the checks and the transaction\<close>

text \<open>
  An acceptance does not depend on the invitation at the time of its transaction. When the
  checks have read a pending invitation and it is revoked before the transaction, the user still
  joins with the invited role, while the invitation stays revoked.
\<close>

theorem revoked_invitation_still_joins:
  assumes "check_accept env a token db = Inr i" and "accept_checked env a i db1 = (db2, Inr m)"
  shows "roles db2 (iv_org i, ac_user a) = Some (iv_role i)
    \<and> (\<forall>x \<in> set (td_invites db1). iv_status x \<noteq> ''pending'' \<longrightarrow> x \<in> set (td_invites db2))"
proof -
  let ?m = "new_member env (iv_org i) (ac_user a) (iv_role i) (iv_inviter i)"
  from assms(2) [unfolded accept_checked_def sql_accept_invite_def Let_def]
  obtain tx where ins: "insert_member env ?m (mark_accepted env i (ac_user a) db1) = Inr tx"
    and last: "td_members db2 = td_members tx" "td_invites db2 = td_invites tx"
    by (cases rule: tn_tx_cases) (auto simp: try_step_Inr dest!: insert_audit_rows)
  note rows = insert_member_rows [OF ins]
  have m: "tm_org ?m = iv_org i" "tm_user ?m = ac_user a" "tm_role ?m = iv_role i" "tm_removed ?m = None" by (simp_all add: new_member_def)
  have mem: "td_members db2 = td_members db1 @ [?m]" using last rows(1) by (simp add: mark_accepted_def)
  have "\<not> list_ex (active_of (tm_org ?m) (tm_user ?m)) (td_members db1)" using rows(2) by (simp add: mark_accepted_def)
  from roles_added [OF mem m(4) this] have "roles db2 (iv_org i, ac_user a) = Some (iv_role i)" by (simp add: m)
  moreover have "td_invites db2 = td_invites (mark_accepted env i (ac_user a) db1)" using last(2) rows(1) by simp
  ultimately show ?thesis by (force simp: mark_accepted_def sql_update_rows)
qed

lemma no_owner_step:
  assumes refs: "member_refs db" and org: "has_org db org" and none: "\<forall>u. roles db (org, u) \<noteq> Some ''owner''"
  shows "has_org (tn_serve x db) org \<and> (\<forall>u. roles (tn_serve x db) (org, u) \<noteq> Some ''owner'')"
proof -
  have "has_org (tn_serve x db) org"
  proof -
    have keys: "has_org d org \<longleftrightarrow> org \<in> fst ` set (org_keys d)" for d
      unfolding has_org_ids org_keys_def by force
    from orgs_step [of x db] have "set (org_keys db) \<subseteq> set (org_keys (tn_serve x db))" by (auto simp: grown_def)
    with org show ?thesis unfolding keys by blast
  qed
  moreover have "roles (tn_serve x db) (org, u) \<noteq> Some ''owner''" for u
  proof (cases "roles (tn_serve x db) = roles db")
    case False
    then have change: "may_change db x (roles db) (roles (tn_serve x db))" using serve_step [OF refs, of x] by (simp add: fair_step_def)
    show ?thesis
    proof (cases x)
      case (RqAccept env a token)
      from may_accept [OF change [unfolded RqAccept], folded RqAccept] obtain o' r where "invitable r"
        "roles (tn_serve x db) = (roles db)((o', ac_user a) \<mapsto> r)" by blast
      with none show ?thesis by (auto simp: invitable_def)
    qed (use change none org in \<open>auto simp: invitable_def split: if_splits\<close>)
  qed (use none in simp)
  ultimately show ?thesis by blast
qed

lemma no_owner_serves:
  "member_refs db \<Longrightarrow> has_org db org \<Longrightarrow> \<forall>u. roles db (org, u) \<noteq> Some ''owner''
   \<Longrightarrow> roles (tn_serves xs db) (org, u) \<noteq> Some ''owner''"
proof (induction xs arbitrary: db)
  case (Cons x xs)
  have "member_refs (tn_serve x db)" using serve_step [OF Cons.prems(1)] by (simp add: fair_step_def)
  with Cons.IH no_owner_step [OF Cons.prems] show ?case by simp
qed simp

lemma removed_gone:
  assumes "sql_remove_member env org user a db = (db', Inr ())"
  shows "roles db' (org, user) = None"
proof (cases "te_fault env TnBegin \<or> te_fault env TnRemoveMember \<or> \<not> list_ex (active_of org user) (td_members db)")
  case True
  with assms have "db' = db \<and> \<not> list_ex (active_of org user) (td_members db)"
    unfolding sql_remove_member_def by (simp split: if_splits)
  then show ?thesis by (simp add: roles_None)
next
  case False
  let ?f = "\<lambda>m. m\<lparr>tm_removed := Some (te_now env), tm_updated := te_now env\<rparr>"
  from assms False have tx: "tn_tx env (\<lambda>tx.
      try_step (insert_audit env a (tx\<lparr>td_members := fst (sql_update (active_of org user) ?f (td_members tx))\<rparr>)) (\<lambda>tx1.
      Inr (tx1, ()))) db = (db', Inr ())" by (simp add: sql_remove_member_def)
  then have rows: "td_members db' = List.map (\<lambda>m. if active_of org user m then ?f m else m) (td_members db)"
    by (cases rule: tn_tx_cases) (auto simp: try_step_Inr sql_update_rows dest!: insert_audit_rows)
  have "roles db' = (roles db)((org, user) := None)" by (rule roles_removed [OF rows]) simp
  then show ?thesis by simp
qed

text \<open>
  An organization can lose its owner for good. When the removal of a member was checked while
  the user was no owner, and the ownership is handed over to that user before the transaction, the
  removal still succeeds; after it no sequence of requests ever gives the organization an owner
  again.
\<close>

theorem ownerless_organization_stays_ownerless:
  assumes "tn_ok db" and "has_org db org" and "roles db (org, user) = Some ''owner''"
    and "remove_checked env a (org, user) target db = (db', Inr ())"
  shows "\<forall>u. roles (tn_serves xs db') (org, u) \<noteq> Some ''owner''"
proof -
  have refs: "member_refs db" and one: "one_owner db" using assms(1) by (simp_all add: tn_ok_def)
  note removed = remove_member_roles [OF assms(4) [unfolded remove_checked_def fst_conv snd_conv]]
  have gone: "roles db' (org, user) = None"
    using removed_gone [OF assms(4) [unfolded remove_checked_def fst_conv snd_conv]] .
  have "roles db' (org, u) \<noteq> Some ''owner''" for u
  proof (cases "u = user")
    case False
    have u: "roles db (org, u) \<noteq> Some ''owner''" using one assms(3) False unfolding one_owner_def by blast
    from removed have "db' = db \<or> roles db' = (roles db)((org, user) := None)" by (rule conjunct1)
    then show ?thesis using u False by (elim disjE) simp_all
  qed (simp add: gone)
  moreover have "has_org db' org" using removed assms(2) by (simp add: has_org_def)
  ultimately show ?thesis using no_owner_serves removed refs by blast
qed

subsection \<open>Samples\<close>

definition calm_tenants :: "string \<Rightarrow> tn_env" where
  "calm_tenants i = \<lparr>te_now = 100, te_id = (\<lambda>_. i), te_fault = (\<lambda>_. False), te_ilike = (\<lambda>_ _. True),
     te_random = Some ''c0ffee'', te_hash = (\<lambda>s. CHR ''#'' # s)\<rparr>"

definition tenant_actor :: "string \<Rightarrow> string \<Rightarrow> tn_actor" where
  "tenant_actor u mail = \<lparr>ac_user = u, ac_email = mail, ac_ip = []\<rparr>"

definition tenant_users :: "tn_user list" where
  "tenant_users = [\<lparr>tu_id = ''ann'', tu_email = ''ann@x''\<rparr>, \<lparr>tu_id = ''bob'', tu_email = ''bob@x''\<rparr>]"

definition found_org :: tn_request where
  "found_org = RqCreate (calm_tenants ''o1'') \<lparr>cor_slug = ''acme'', cor_name = ''Acme'', cor_metadata = None, cor_creator = Some ''ann''\<rparr>"

definition invite_bob :: tn_request where
  "invite_bob = RqInvite (calm_tenants ''i1'') (tenant_actor ''ann'' ''ann@x'') ''o1'' (''bob@x'', ''admin'')"

definition bob_joins :: tn_request where
  "bob_joins = RqAccept (calm_tenants ''m2'') (tenant_actor ''bob'' ''bob@x'') ''c0ffee''"

definition invited_tenants :: tn_db where
  "invited_tenants = tn_serves [found_org, invite_bob] (no_tenants tenant_users)"

definition revoked_tenants :: tn_db where
  "revoked_tenants = tn_serve (RqRevoke (calm_tenants ''r1'') (tenant_actor ''ann'' ''ann@x'') ''o1'' ''i1'') invited_tenants"

definition joined_tenants :: tn_db where
  "joined_tenants = tn_serve bob_joins invited_tenants"

definition handed_tenants :: tn_db where
  "handed_tenants = tn_serve (RqTransfer (calm_tenants ''t1'') (tenant_actor ''ann'' ''ann@x'') ''o1'' ''bob'') joined_tenants"

theorem organization_keeps_one_owner_witness:
  "\<exists>!u. roles handed_tenants (''o1'', u) = Some ''owner''"
proof -
  let ?xs = "[found_org, invite_bob, bob_joins, RqTransfer (calm_tenants ''t1'') (tenant_actor ''ann'' ''ann@x'') ''o1'' ''bob'']"
  have db: "handed_tenants = tn_serves ?xs (no_tenants tenant_users)"
    by (simp add: handed_tenants_def joined_tenants_def invited_tenants_def)
  have "List.map (\<lambda>o'. (og_id o', og_creator o')) (td_orgs handed_tenants) = [(''o1'', Some ''ann'')]" by code_simp
  then obtain o' where "o' \<in> set (td_orgs handed_tenants)" "og_id o' = ''o1''" "og_creator o' = Some ''ann''" by (cases "td_orgs handed_tenants") auto
  with organization_keeps_one_owner [of o' ?xs tenant_users "''ann''"] db show ?thesis by simp
qed

theorem revoked_invitation_still_joins_witness:
  "\<exists>db2 m. accept_checked (calm_tenants ''m2'') (tenant_actor ''bob'' ''bob@x'') (hd (td_invites invited_tenants)) revoked_tenants = (db2, Inr m)
     \<and> roles db2 (''o1'', ''bob'') = Some ''admin'' \<and> List.map iv_status (td_invites db2) = [''revoked'']"
proof -
  let ?env = "calm_tenants ''m2''" and ?bob = "tenant_actor ''bob'' ''bob@x''" and ?i = "hd (td_invites invited_tenants)"
  have "(case check_accept ?env ?bob ''c0ffee'' invited_tenants of Inr i \<Rightarrow> i = ?i | Inl _ \<Rightarrow> False)" by code_simp
  then have check: "check_accept ?env ?bob ''c0ffee'' invited_tenants = Inr ?i" by (auto split: sum.splits)
  have "(case accept_checked ?env ?bob ?i revoked_tenants of (db2, Inr _) \<Rightarrow> List.map iv_status (td_invites db2) = [''revoked''] | _ \<Rightarrow> False)" by code_simp
  then obtain db2 m where went: "accept_checked ?env ?bob ?i revoked_tenants = (db2, Inr m)" "List.map iv_status (td_invites db2) = [''revoked'']"
    by (auto split: prod.splits sum.splits)
  have "iv_org ?i = ''o1'' \<and> iv_role ?i = ''admin'' \<and> ac_user ?bob = ''bob''" by code_simp
  with revoked_invitation_still_joins [OF check went(1)] went show ?thesis by auto
qed

theorem ownerless_organization_stays_ownerless_witness:
  "\<exists>db'. remove_checked (calm_tenants ''a9'') (tenant_actor ''ann'' ''ann@x'') (''o1'', ''bob'') (last (td_members joined_tenants)) handed_tenants = (db', Inr ())
     \<and> roles (tn_serves [bob_joins, found_org] db') (''o1'', ''ann'') \<noteq> Some ''owner''"
proof -
  let ?env = "calm_tenants ''a9''" and ?ann = "tenant_actor ''ann'' ''ann@x''" and ?m = "last (td_members joined_tenants)"
  have "handed_tenants = tn_serves [found_org, invite_bob, bob_joins, RqTransfer (calm_tenants ''t1'') ?ann ''o1'' ''bob''] (no_tenants tenant_users)"
    by (simp add: handed_tenants_def joined_tenants_def invited_tenants_def)
  then have ok: "tn_ok handed_tenants" using serves_ok [OF no_tenants_ok] by metis
  have org: "has_org handed_tenants ''o1''" by code_simp
  have owner: "roles handed_tenants (''o1'', ''bob'') = Some ''owner''" by code_simp
  have "snd (remove_checked ?env ?ann (''o1'', ''bob'') ?m handed_tenants) = Inr ()" by code_simp
  then obtain db' where "remove_checked ?env ?ann (''o1'', ''bob'') ?m handed_tenants = (db', Inr ())" by (metis prod.collapse)
  with ownerless_organization_stays_ownerless [OF ok org owner this, of "[bob_joins, found_org]"] show ?thesis by blast
qed

theorem only_authorized_role_changes_witness:
  "roles joined_tenants = roles invited_tenants \<or> may_change invited_tenants bob_joins (roles invited_tenants) (roles joined_tenants)"
  using only_authorized_role_changes [of invited_tenants "[found_org, invite_bob]" tenant_users bob_joins]
  by (simp add: invited_tenants_def joined_tenants_def del: may_change.simps)

end
