(* ===== verification/Chunking.thy ===== *)
theory Chunking
  imports Prelude
begin

text \<open>
  The chunking engine of the knowledge base: \<open>src/server/internal/knowledge/chunking/engine.go\<close>, the
  four strategies that split the text of a document.

  A text is the list of its runes (code points), which is what the engine counts in; the byte form
  of a Go string only shows outside the engine, for valid UTF-8. \<open>is_uspace\<close> is \<open>unicode.IsSpace\<close>.
  The two loops over positions are partial functions: \<open>None\<close> is a loop that does not end, or a
  slice out of range or a division by zero, which stop the program.
\<close>

type_synonym doc_text = "nat list"

definition is_uspace :: "nat \<Rightarrow> bool" where
  "is_uspace r \<longleftrightarrow>
     r \<in> {9, 10, 11, 12, 13, 32, 0x85, 0xA0, 0x1680, 0x2028, 0x2029, 0x202F, 0x205F, 0x3000} \<or> 0x2000 \<le> r \<and> r \<le> 0x200A"

definition trim_text :: "doc_text \<Rightarrow> doc_text" where
  "trim_text t = rev (dropWhile is_uspace (rev (dropWhile is_uspace t)))"

text \<open>\<open>strings.ReplaceAll(content, "\r\n", "\n")\<close>.\<close>

fun unix_lines :: "doc_text \<Rightarrow> doc_text" where
  "unix_lines [] = []"
| "unix_lines [r] = [r]"
| "unix_lines (r # s # t) = (if r = 13 \<and> s = 10 then 10 # unix_lines t else r # unix_lines (s # t))"

definition normalize_text :: "doc_text \<Rightarrow> doc_text" where
  "normalize_text t = trim_text (unix_lines t)"

definition slice :: "doc_text \<Rightarrow> nat \<Rightarrow> nat \<Rightarrow> doc_text" where
  "slice t i j = take (j - i) (drop i t)"

text \<open>\<open>strings.Split\<close> at a line feed, and at two.\<close>

definition glue :: "nat \<Rightarrow> doc_text list \<Rightarrow> doc_text list" where
  "glue r ps = (case ps of [] \<Rightarrow> [[r]] | p # ps' \<Rightarrow> (r # p) # ps')"

fun split_lines :: "doc_text \<Rightarrow> doc_text list" where
  "split_lines [] = [[]]"
| "split_lines (r # t) = (if r = 10 then [] # split_lines t else glue r (split_lines t))"

fun split_paragraphs :: "doc_text \<Rightarrow> doc_text list" where
  "split_paragraphs [] = [[]]"
| "split_paragraphs [r] = [[r]]"
| "split_paragraphs (r # s # t) = (if r = 10 \<and> s = 10 then [] # split_paragraphs t else glue r (split_paragraphs (s # t)))"

definition split_semantic :: "doc_text \<Rightarrow> doc_text list" where
  "split_semantic t = (if length (split_paragraphs t) = 1 then split_lines t else split_paragraphs t)"

text \<open>\<open>strings.Join(strings.Fields(t), " ")\<close>.\<close>

fun fields_of :: "doc_text \<Rightarrow> doc_text \<Rightarrow> doc_text list" where
  "fields_of word [] = (if word = [] then [] else [word])"
| "fields_of word (r # t) =
     (if is_uspace r then (if word = [] then fields_of [] t else word # fields_of [] t) else fields_of (word @ [r]) t)"

fun join_text :: "doc_text list \<Rightarrow> doc_text" where
  "join_text [] = []"
| "join_text [w] = w"
| "join_text (w # v # ws) = w @ 32 # join_text (v # ws)"

definition collapse :: "doc_text \<Rightarrow> doc_text" where
  "collapse t = join_text (fields_of [] t)"

subsection \<open>Pages\<close>

record doc_page =
  dp_number :: int
  dp_content :: doc_text

record page_entry =
  pe_start :: int
  pe_page :: int

fun page_entries :: "int \<Rightarrow> doc_page list \<Rightarrow> page_entry list" where
  "page_entries offset [] = []"
| "page_entries offset (p # ps) =
     \<lparr>pe_start = offset, pe_page = dp_number p\<rparr> # page_entries (offset + int (length (dp_content p)) + 1) ps"

definition build_page_map :: "doc_page list \<Rightarrow> page_entry list" where
  "build_page_map ps = page_entries 0 ps"

definition lookup_page :: "page_entry list \<Rightarrow> int \<Rightarrow> int" where
  "lookup_page es offset =
     (case es of
        [] \<Rightarrow> 0
      | e # _ \<Rightarrow> fold (\<lambda>x page. if pe_start x \<le> offset then pe_page x else page) es (pe_page e))"

record engine_chunk =
  ec_index :: nat
  ec_content :: doc_text
  ec_page :: int
  ec_start :: int
  ec_end :: int

definition add_chunk :: "page_entry list \<Rightarrow> int \<Rightarrow> int \<Rightarrow> doc_text \<Rightarrow> engine_chunk list \<Rightarrow> engine_chunk list" where
  "add_chunk pm start stop t cs =
     cs @ [\<lparr>ec_index = length cs, ec_content = t, ec_page = lookup_page pm start, ec_start = start, ec_end = stop\<rparr>]"

subsection \<open>Fixed size\<close>

partial_function (option) fixed_loop ::
  "page_entry list \<Rightarrow> int \<times> int \<Rightarrow> doc_text \<Rightarrow> int \<Rightarrow> engine_chunk list \<Rightarrow> engine_chunk list option" where
  "fixed_loop pm size_overlap rs start cs =
     (if int (length rs) \<le> start then Some cs
      else
        (let stop = min (start + fst size_overlap) (int (length rs))
         in if start < 0 \<or> stop < start then None
            else
              (let t = trim_text (slice rs (nat start) (nat stop));
                   cs' = (if t = [] then cs else add_chunk pm start stop t cs)
               in if stop = int (length rs) then Some cs' else fixed_loop pm size_overlap rs (stop - snd size_overlap) cs')))"

definition fixed_size :: "doc_text \<Rightarrow> doc_page list \<Rightarrow> int \<times> int \<Rightarrow> engine_chunk list option" where
  "fixed_size content pages size_overlap =
     (if normalize_text content = [] then Some []
      else if fst size_overlap = 0 then None
      else fixed_loop (build_page_map pages) size_overlap (normalize_text content) 0 [])"

subsection \<open>Splitting at spaces\<close>

fun space_before :: "doc_text \<Rightarrow> nat \<Rightarrow> nat \<Rightarrow> nat" where
  "space_before rs start i = (if start < i \<and> \<not> is_uspace (rs ! (i - 1)) then space_before rs start (i - 1) else i)"

function skip_spaces :: "doc_text \<Rightarrow> nat \<Rightarrow> nat" where
  "skip_spaces rs i = (if i < length rs \<and> is_uspace (rs ! i) then skip_spaces rs (i + 1) else i)"
  by pat_completeness auto

termination by (relation "measure (\<lambda>(rs, i). length rs - i)") auto

declare space_before.simps [simp del] skip_spaces.simps [simp del]

definition cut_at :: "nat \<Rightarrow> doc_text \<Rightarrow> nat \<Rightarrow> nat" where
  "cut_at m rs start =
     (let i = space_before rs start (start + m) in if i = start then start + m else i)"

partial_function (option) split_loop :: "nat \<Rightarrow> doc_text \<Rightarrow> nat \<Rightarrow> doc_text list \<Rightarrow> doc_text list option" where
  "split_loop m rs start ts =
     (if length rs \<le> start then Some ts
      else if length rs \<le> start + m then Some (ts @ [trim_text (drop start rs)])
      else split_loop m rs (skip_spaces rs (cut_at m rs start)) (ts @ [trim_text (slice rs start (cut_at m rs start))]))"

definition split_text :: "nat \<Rightarrow> doc_text \<Rightarrow> doc_text list option" where
  "split_text m content =
     (let rs = trim_text content
      in if rs = [] then Some [] else if length rs \<le> m then Some [rs] else split_loop m rs 0 [])"

text \<open>The pieces of a paragraph, all with the offset of the paragraph.\<close>

fun add_pieces :: "page_entry list \<Rightarrow> int \<Rightarrow> doc_text list \<Rightarrow> engine_chunk list \<Rightarrow> engine_chunk list" where
  "add_pieces pm offset [] cs = cs"
| "add_pieces pm offset (t # ts) cs =
     add_pieces pm offset ts (if t = [] then cs else add_chunk pm offset (offset + int (length t)) t cs)"

subsection \<open>Semantic\<close>

fun semantic_loop :: "nat \<Rightarrow> page_entry list \<Rightarrow> doc_text list \<Rightarrow> int \<Rightarrow> engine_chunk list \<Rightarrow> engine_chunk list option" where
  "semantic_loop m pm [] offset cs = Some cs"
| "semantic_loop m pm (p # ps) offset cs =
     (if collapse p = [] then semantic_loop m pm ps (offset + int (length p) + 2) cs
      else case split_text m (collapse p) of
             None \<Rightarrow> None
           | Some ts \<Rightarrow> semantic_loop m pm ps (offset + int (length p) + 2) (add_pieces pm offset ts cs))"

definition semantic :: "nat \<Rightarrow> doc_text \<Rightarrow> doc_page list \<Rightarrow> engine_chunk list option" where
  "semantic m content pages =
     (if normalize_text content = [] then Some []
      else semantic_loop m (build_page_map pages) (split_semantic (normalize_text content)) 0 [])"

subsection \<open>Questions and answers\<close>

text \<open>\<open>strings.HasPrefix(lower, "q:")\<close> of the trimmed text in lower case; the letter is a small one.\<close>

definition starts_with :: "nat \<Rightarrow> doc_text \<Rightarrow> bool" where
  "starts_with letter t = (case trim_text t of r # s # _ \<Rightarrow> (r = letter \<or> r = letter - 32) \<and> s = 58 | _ \<Rightarrow> False)"

definition flush_group :: "engine_chunk list \<Rightarrow> engine_chunk list \<Rightarrow> engine_chunk list" where
  "flush_group out pending =
     (if pending = [] then out
      else out @ [\<lparr>ec_index = length out, ec_content = join_text (List.map ec_content pending), ec_page = ec_page (hd pending),
                   ec_start = ec_start (hd pending), ec_end = ec_end (last pending)\<rparr>])"

fun qa_loop :: "engine_chunk list \<Rightarrow> engine_chunk list \<Rightarrow> engine_chunk list \<Rightarrow> engine_chunk list" where
  "qa_loop [] out pending = flush_group out pending"
| "qa_loop (c # cs) out pending =
     (let (out1, pending1) = (if starts_with 113 (ec_content c) then (flush_group out pending, []) else (out, pending));
          pending2 = pending1 @ [c]
      in if starts_with 97 (ec_content c) then qa_loop cs (flush_group out1 pending2) [] else qa_loop cs out1 pending2)"

definition qa_split :: "nat \<Rightarrow> doc_text \<Rightarrow> doc_page list \<Rightarrow> engine_chunk list option" where
  "qa_split m content pages =
     (case semantic m content pages of None \<Rightarrow> None | Some cs \<Rightarrow> Some (if cs = [] then [] else qa_loop cs [] []))"

subsection \<open>Templates\<close>

definition is_heading :: "doc_text \<Rightarrow> bool" where
  "is_heading line = (case trim_text line of r # s # _ \<Rightarrow> r = 35 | _ \<Rightarrow> False)"

fun heading_sections :: "doc_text list \<Rightarrow> doc_text list \<Rightarrow> doc_text \<Rightarrow> doc_text list" where
  "heading_sections [] sections current = (if current = [] then sections else sections @ [current])"
| "heading_sections (line # ls) sections current =
     (let (sections1, current1) = (if is_heading line \<and> current \<noteq> [] then (sections @ [current], []) else (sections, current))
      in heading_sections ls sections1 ((if current1 = [] then [] else current1 @ [10]) @ line))"

definition split_by_headings :: "doc_text \<Rightarrow> doc_text list" where
  "split_by_headings t = heading_sections (split_lines t) [] []"

fun template_paras :: "nat \<Rightarrow> page_entry list \<Rightarrow> doc_text list \<Rightarrow> int \<times> engine_chunk list \<Rightarrow> (int \<times> engine_chunk list) option" where
  "template_paras m pm [] oc = Some oc"
| "template_paras m pm (p # ps) (offset, cs) =
     (if trim_text p = [] then template_paras m pm ps (offset + 1, cs)
      else case split_text m (trim_text p) of
             None \<Rightarrow> None
           | Some ts \<Rightarrow> template_paras m pm ps (offset + int (length (trim_text p)) + 1, add_pieces pm offset ts cs))"

fun template_loop :: "nat \<Rightarrow> page_entry list \<Rightarrow> doc_text list \<Rightarrow> int \<times> engine_chunk list \<Rightarrow> engine_chunk list option" where
  "template_loop m pm [] oc = Some (snd oc)"
| "template_loop m pm (s # ss) (offset, cs) =
     (let t = trim_text s
      in if t = [] then template_loop m pm ss (offset + int (length s) + 1, cs)
         else if length t \<le> m
           then template_loop m pm ss (offset + int (length s) + 1, add_chunk pm offset (offset + int (length t)) t cs)
         else case template_paras m pm (split_semantic t) (offset, cs) of
                None \<Rightarrow> None
              | Some (offset', cs') \<Rightarrow> template_loop m pm ss (offset' + int (length s) + 1, cs'))"

definition template_chunks :: "nat \<Rightarrow> doc_text \<Rightarrow> doc_page list \<Rightarrow> engine_chunk list option" where
  "template_chunks m content pages =
     (if normalize_text content = [] then Some []
      else template_loop m (build_page_map pages) (split_by_headings (normalize_text content)) (0, []))"

subsection \<open>The engine\<close>

record chunk_config =
  cc_strategy :: string
  cc_size :: int
  cc_overlap :: int

definition normalize_config :: "chunk_config \<Rightarrow> chunk_config" where
  "normalize_config c =
     (let size0 = (if cc_size c \<le> 0 then 500 else cc_size c);
          size1 = (if size0 < 100 then 100 else size0);
          size = (if 4000 < size1 then 4000 else size1);
          overlap0 = (if cc_overlap c < 0 then 0 else cc_overlap c);
          overlap1 = (if size \<le> overlap0 then size - 1 else overlap0);
          overlap = (if overlap1 = 0 \<and> size = 500 then 50 else overlap1)
      in \<lparr>cc_strategy = trim_space (cc_strategy c), cc_size = size, cc_overlap = overlap\<rparr>)"

definition chunk_text :: "doc_text \<Rightarrow> doc_page list \<Rightarrow> chunk_config \<Rightarrow> engine_chunk list option" where
  "chunk_text content pages config =
     (let c = normalize_config config; m = nat (cc_size c)
      in if cc_strategy c = ''semantic'' then semantic m content pages
         else if cc_strategy c = ''qa_split'' then qa_split m content pages
         else if cc_strategy c = ''template'' then template_chunks m content pages
         else fixed_size content pages (cc_size c, cc_overlap c))"

end
