(* ===== verification/Chunking_Properties.thy ===== *)
theory Chunking_Properties
  imports Chunking
begin

text \<open>
  What the chunking engine promises: it always returns, whatever the configuration; the three
  strategies that do not overlap keep every rune of the text that is not white space, in order; the
  fixed windows leave no such rune uncovered; and no chunk but a group of \<open>qa_split\<close> is longer than
  the size in effect.
\<close>

subsection \<open>The ink of a text\<close>

text \<open>What is left of a text without its white space: the contents that a splitter has to keep.\<close>

definition ink :: "doc_text \<Rightarrow> doc_text" where
  "ink t = filter (\<lambda>r. \<not> is_uspace r) t"

named_theorems ink_simps "the ink of what the splitters build"

lemma ink_Nil [ink_simps]: "ink [] = []"
  by (simp add: ink_def)

lemma ink_Cons [ink_simps]: "ink (r # t) = (if is_uspace r then ink t else r # ink t)"
  by (simp add: ink_def)

lemma ink_append [ink_simps]: "ink (s @ t) = ink s @ ink t"
  by (simp add: ink_def)

lemma spaces_are_space [simp]: "is_uspace 10" "is_uspace 13" "is_uspace 32"
  by (simp_all add: is_uspace_def)

lemma ink_drop_spaces: "ink (dropWhile is_uspace t) = ink t"
  by (induction t) (simp_all add: ink_simps)

lemma ink_rev: "ink (rev t) = rev (ink t)"
  by (simp add: ink_def rev_filter)

lemma ink_trim [ink_simps]: "ink (trim_text t) = ink t"
  by (simp add: trim_text_def ink_rev ink_drop_spaces)

lemma ink_unix_lines [ink_simps]: "ink (unix_lines t) = ink t"
  by (induction t rule: unix_lines.induct) (auto simp: ink_simps)

lemma ink_normalize [ink_simps]: "ink (normalize_text t) = ink t"
  by (simp add: normalize_text_def ink_simps)

lemma concat_glue [ink_simps]: "concat (glue r ps) = r # concat ps"
  by (cases ps) (simp_all add: glue_def)

lemma ink_split_lines [ink_simps]: "ink (concat (split_lines t)) = ink t"
  by (induction t) (auto simp: ink_simps)

lemma ink_split_paragraphs [ink_simps]: "ink (concat (split_paragraphs t)) = ink t"
  by (induction t rule: split_paragraphs.induct) (auto simp: ink_simps)

lemma ink_split_semantic [ink_simps]: "ink (concat (split_semantic t)) = ink t"
  by (simp add: split_semantic_def ink_simps)

lemma ink_fields: "ink (concat (fields_of w t)) = ink (w @ t)"
  by (induction w t rule: fields_of.induct) (auto simp: ink_simps)

lemma ink_join [ink_simps]: "ink (join_text ws) = ink (concat ws)"
  by (induction ws rule: join_text.induct) (simp_all add: ink_simps)

lemma ink_collapse [ink_simps]: "ink (collapse t) = ink t"
  by (simp add: collapse_def ink_simps ink_fields)

lemma ink_headings: "ink (concat (heading_sections ls sections current)) = ink (concat sections @ current @ concat ls)"
  by (induction ls arbitrary: sections current) (auto simp: ink_simps)

lemma ink_split_by_headings [ink_simps]: "ink (concat (split_by_headings t)) = ink t"
  by (simp add: split_by_headings_def ink_headings ink_split_lines)

lemma trim_length: "length (trim_text t) \<le> length t"
proof -
  have "length (dropWhile is_uspace (rev (dropWhile is_uspace t))) \<le> length (dropWhile is_uspace t)"
    by (metis length_dropWhile_le length_rev)
  also have "\<dots> \<le> length t" by (rule length_dropWhile_le)
  finally show ?thesis by (simp add: trim_text_def)
qed

subsection \<open>Splitting at spaces\<close>

lemma space_before_le: "space_before rs start i \<le> i"
  by (induction rs start i rule: space_before.induct) (subst space_before.simps, force)

lemma space_before_ge: "start \<le> i \<Longrightarrow> start \<le> space_before rs start i"
  by (induction rs start i rule: space_before.induct) (subst space_before.simps, force)

lemma cut_after: "0 < m \<Longrightarrow> start < cut_at m rs start"
  using space_before_ge [of start "start + m" rs] by (auto simp: cut_at_def Let_def)

lemma cut_within: "cut_at m rs start \<le> start + m"
  using space_before_le [of rs start "start + m"] by (auto simp: cut_at_def Let_def)

lemma skip_ge: "i \<le> skip_spaces rs i"
  by (induction rs i rule: skip_spaces.induct) (subst skip_spaces.simps, auto)

lemma drop_at: "i < length rs \<Longrightarrow> drop i rs = rs ! i # drop (Suc i) rs"
  by (simp add: Cons_nth_drop_Suc)

lemma ink_skip: "ink (drop (skip_spaces rs i) rs) = ink (drop i rs)"
proof (induction rs i rule: skip_spaces.induct)
  case (1 rs i)
  show ?case
  proof (cases "i < length rs \<and> is_uspace (rs ! i)")
    case True
    then show ?thesis using 1 by (subst skip_spaces.simps) (simp add: drop_at ink_simps)
  next
    case False
    then have "skip_spaces rs i = i" by (subst skip_spaces.simps) auto
    then show ?thesis by simp
  qed
qed

lemma slice_drop: "i \<le> j \<Longrightarrow> slice t i j @ drop j t = drop i t"
  by (metis append_take_drop_id drop_drop le_add_diff_inverse2 slice_def)

lemma ink_slice: "i \<le> j \<Longrightarrow> ink (slice t i j) @ ink (drop j t) = ink (drop i t)"
  by (simp add: slice_drop flip: ink_append)

lemma slice_length: "length (slice t i j) \<le> j - i"
  by (simp add: slice_def)

text \<open>Every piece is at most \<open>m\<close> runes long and together they have the ink of the rest of the text.\<close>

lemma split_loop_spec:
  "0 < m \<Longrightarrow> \<exists>ts'. split_loop m rs start ts = Some (ts @ ts') \<and> ink (concat ts') = ink (drop start rs)
     \<and> (\<forall>t \<in> set ts'. length t \<le> m)"
proof (induction "length rs - start" arbitrary: start ts rule: less_induct)
  case less
  consider "length rs \<le> start" | "start < length rs" "length rs \<le> start + m" | "start + m < length rs" by linarith
  then show ?case
  proof cases
    case 1
    then show ?thesis by (subst split_loop.simps) (simp add: ink_simps)
  next
    case 2
    have "length (trim_text (drop start rs)) \<le> m" using trim_length [of "drop start rs"] 2 by simp
    then show ?thesis using 2 by (subst split_loop.simps) (simp add: ink_simps)
  next
    case 3
    let ?cut = "cut_at m rs start"
    let ?start' = "skip_spaces rs ?cut"
    let ?t = "trim_text (slice rs start ?cut)"
    have before: "start < ?cut" using cut_after less.prems by blast
    then have "length rs - ?start' < length rs - start" using skip_ge [of ?cut rs] 3 by linarith
    from less.hyps [OF this less.prems] obtain ts' where
      rest: "split_loop m rs ?start' (ts @ [?t]) = Some ((ts @ [?t]) @ ts')"
        "ink (concat ts') = ink (drop ?start' rs)" "\<forall>t \<in> set ts'. length t \<le> m"
      by blast
    have "split_loop m rs start ts = Some (ts @ (?t # ts'))"
      using 3 rest(1) by (subst split_loop.simps) simp
    moreover have "ink (concat (?t # ts')) = ink (drop start rs)"
      using ink_slice [of start ?cut rs] before rest(2) by (simp add: ink_append ink_trim ink_skip)
    moreover have "length ?t \<le> m"
      using trim_length [of "slice rs start ?cut"] slice_length [of rs start ?cut] cut_within [of m rs start] by linarith
    ultimately show ?thesis using rest(3) by (intro exI [of _ "?t # ts'"]) simp
  qed
qed

lemma split_text_spec:
  assumes "0 < m"
  obtains ts where "split_text m t = Some ts" "ink (concat ts) = ink t" "\<forall>p \<in> set ts. length p \<le> m"
proof -
  have "\<exists>ts. split_text m t = Some ts \<and> ink (concat ts) = ink (trim_text t) \<and> (\<forall>p \<in> set ts. length p \<le> m)"
    using split_loop_spec [OF assms, of "trim_text t" 0 "[]"] by (cases "trim_text t = []") (auto simp: split_text_def Let_def ink_Nil)
  then show thesis using that by (auto simp: ink_simps)
qed

subsection \<open>Chunks\<close>

text \<open>The chunks are numbered from zero, none is empty and none longer than \<open>m\<close>.\<close>

definition formed_chunks :: "nat \<Rightarrow> engine_chunk list \<Rightarrow> bool" where
  "formed_chunks m cs \<longleftrightarrow>
     List.map ec_index cs = [0..<length cs] \<and> (\<forall>c \<in> set cs. ec_content c \<noteq> [] \<and> length (ec_content c) \<le> m)"

definition chunk_ink :: "engine_chunk list \<Rightarrow> doc_text" where
  "chunk_ink cs = ink (concat (List.map ec_content cs))"

lemma no_chunks [simp]: "formed_chunks m []" "chunk_ink [] = []"
  by (simp_all add: formed_chunks_def chunk_ink_def ink_simps)

lemma chunk_ink_add [ink_simps]: "chunk_ink (add_chunk pm i j t cs) = chunk_ink cs @ ink t"
  by (simp add: chunk_ink_def add_chunk_def ink_simps)

lemma formed_add: "formed_chunks m cs \<Longrightarrow> t \<noteq> [] \<Longrightarrow> length t \<le> m \<Longrightarrow> formed_chunks m (add_chunk pm i j t cs)"
  by (auto simp: formed_chunks_def add_chunk_def)

lemma chunk_ink_pieces [ink_simps]: "chunk_ink (add_pieces pm i ts cs) = chunk_ink cs @ ink (concat ts)"
  by (induction pm i ts cs rule: add_pieces.induct) (simp_all add: ink_simps)

lemma formed_pieces:
  "formed_chunks m cs \<Longrightarrow> \<forall>t \<in> set ts. length t \<le> m \<Longrightarrow> formed_chunks m (add_pieces pm i ts cs)"
  by (induction pm i ts cs rule: add_pieces.induct) (simp_all add: formed_add)

text \<open>What a strategy owes for a text: chunks that are well formed and keep its ink.\<close>

definition keeps :: "nat \<Rightarrow> engine_chunk list \<Rightarrow> doc_text \<Rightarrow> engine_chunk list option \<Rightarrow> bool" where
  "keeps m cs t result \<longleftrightarrow> (\<exists>cs'. result = Some cs' \<and> formed_chunks m cs' \<and> chunk_ink cs' = chunk_ink cs @ ink t)"

lemma semantic_loop_keeps:
  "0 < m \<Longrightarrow> formed_chunks m cs \<Longrightarrow> keeps m cs (concat ps) (semantic_loop m pm ps offset cs)"
proof (induction ps arbitrary: offset cs)
  case Nil
  then show ?case by (simp add: keeps_def ink_simps)
next
  case (Cons p ps)
  show ?case
  proof (cases "collapse p = []")
    case True
    then have "ink p = []" using ink_collapse [of p] by (simp add: ink_Nil)
    then show ?thesis using Cons True by (simp add: keeps_def ink_append)
  next
    case False
    obtain ts where ts: "split_text m (collapse p) = Some ts" "ink (concat ts) = ink p" "\<forall>t \<in> set ts. length t \<le> m"
      using split_text_spec [OF Cons.prems(1), of "collapse p"] by (auto simp: ink_collapse)
    show ?thesis using Cons.IH [OF Cons.prems(1) formed_pieces [OF Cons.prems(2) ts(3)]] ts False
      by (simp add: keeps_def ink_simps)
  qed
qed

lemma semantic_keeps: "0 < m \<Longrightarrow> keeps m [] t (semantic m t pages)"
  using semantic_loop_keeps [of m "[]" "split_semantic (normalize_text t)" "build_page_map pages" 0]
    ink_normalize [of t]
  by (cases "normalize_text t = []") (simp_all add: semantic_def keeps_def ink_simps)

lemma template_paras_keeps:
  "0 < m \<Longrightarrow> formed_chunks m cs \<Longrightarrow>
   \<exists>offset' cs'. template_paras m pm ps (offset, cs) = Some (offset', cs') \<and> formed_chunks m cs'
     \<and> chunk_ink cs' = chunk_ink cs @ ink (concat ps)"
proof (induction ps arbitrary: offset cs)
  case Nil
  then show ?case by (simp add: ink_simps)
next
  case (Cons p ps)
  show ?case
  proof (cases "trim_text p = []")
    case True
    then have "ink p = []" using ink_trim [of p] by (simp add: ink_Nil)
    then show ?thesis using Cons True by (simp add: ink_append)
  next
    case False
    obtain ts where ts: "split_text m (trim_text p) = Some ts" "ink (concat ts) = ink p" "\<forall>t \<in> set ts. length t \<le> m"
      using split_text_spec [OF Cons.prems(1), of "trim_text p"] by (auto simp: ink_trim)
    show ?thesis using Cons.IH [OF Cons.prems(1) formed_pieces [OF Cons.prems(2) ts(3)]] ts False
      by (simp add: ink_simps)
  qed
qed

lemma template_loop_keeps:
  "0 < m \<Longrightarrow> formed_chunks m cs \<Longrightarrow> keeps m cs (concat ss) (template_loop m pm ss (offset, cs))"
proof (induction ss arbitrary: offset cs)
  case Nil
  then show ?case by (simp add: keeps_def ink_simps)
next
  case (Cons s ss)
  consider "trim_text s = []" | "trim_text s \<noteq> []" "length (trim_text s) \<le> m" | "m < length (trim_text s)" by linarith
  then show ?case
  proof cases
    case 1
    then have "ink s = []" using ink_trim [of s] by (simp add: ink_Nil)
    then show ?thesis using Cons 1 by (simp add: keeps_def ink_append)
  next
    case 2
    then show ?thesis using Cons.IH [OF Cons.prems(1) formed_add [OF Cons.prems(2) 2]] by (simp add: keeps_def ink_simps Let_def)
  next
    case 3
    obtain offset' cs' where paras:
      "template_paras m pm (split_semantic (trim_text s)) (offset, cs) = Some (offset', cs')" "formed_chunks m cs'"
      "chunk_ink cs' = chunk_ink cs @ ink s"
      using template_paras_keeps [OF Cons.prems, of pm "split_semantic (trim_text s)" offset] by (auto simp: ink_simps)
    have "trim_text s \<noteq> []" using 3 by auto
    then show ?thesis using Cons.IH [OF Cons.prems(1) paras(2)] paras(1,3) 3 by (simp add: keeps_def ink_simps)
  qed
qed

lemma template_keeps: "0 < m \<Longrightarrow> keeps m [] t (template_chunks m t pages)"
  using template_loop_keeps [of m "[]" "split_by_headings (normalize_text t)" "build_page_map pages" 0]
    ink_normalize [of t]
  by (cases "normalize_text t = []") (simp_all add: template_chunks_def keeps_def ink_simps)

text \<open>A group of \<open>qa_split\<close> joins its chunks, so it keeps their ink but not their size.\<close>

definition numbered :: "engine_chunk list \<Rightarrow> bool" where
  "numbered cs \<longleftrightarrow> List.map ec_index cs = [0..<length cs]"

lemma numbered_Nil [simp]: "numbered []"
  by (simp add: numbered_def)

lemma flush_ink [ink_simps]: "chunk_ink (flush_group out pending) = chunk_ink out @ chunk_ink pending"
  by (simp add: flush_group_def chunk_ink_def ink_simps)

lemma flush_numbered: "numbered out \<Longrightarrow> numbered (flush_group out pending)"
  by (simp add: flush_group_def numbered_def)

lemma chunk_ink_append [ink_simps]: "chunk_ink (cs @ ds) = chunk_ink cs @ chunk_ink ds"
  by (simp add: chunk_ink_def ink_simps)

lemma chunk_ink_Cons: "chunk_ink (c # cs) = ink (ec_content c) @ chunk_ink cs"
  by (simp add: chunk_ink_def ink_simps)

lemma qa_ink: "chunk_ink (qa_loop cs out pending) = chunk_ink out @ chunk_ink pending @ chunk_ink cs"
  by (induction cs arbitrary: out pending) (simp_all add: ink_simps chunk_ink_Cons [of _ "_ # _"] chunk_ink_Cons [of _ cs for cs] Let_def)

lemma qa_numbered: "numbered out \<Longrightarrow> numbered (qa_loop cs out pending)"
  by (induction cs arbitrary: out pending) (simp_all add: flush_numbered Let_def)

lemma qa_split_keeps:
  assumes "0 < m"
  shows "\<exists>cs. qa_split m t pages = Some cs \<and> numbered cs \<and> chunk_ink cs = ink t"
proof -
  obtain cs where "semantic m t pages = Some cs" "chunk_ink cs = ink t"
    using semantic_keeps [OF assms, of t pages] by (auto simp: keeps_def)
  then show ?thesis by (auto simp: qa_split_def qa_ink intro!: qa_numbered)
qed

subsection \<open>Windows\<close>

text \<open>A chunk of the fixed strategy is the trimmed text of the window it names.\<close>

definition is_window :: "page_entry list \<Rightarrow> int \<Rightarrow> doc_text \<Rightarrow> engine_chunk \<Rightarrow> bool" where
  "is_window pm width rs c \<longleftrightarrow>
     0 \<le> ec_start c \<and> ec_start c < ec_end c \<and> ec_end c \<le> int (length rs) \<and> ec_end c - ec_start c \<le> width
     \<and> ec_content c = trim_text (slice rs (nat (ec_start c)) (nat (ec_end c))) \<and> ec_page c = lookup_page pm (ec_start c)"

definition covered :: "doc_text \<Rightarrow> engine_chunk list \<Rightarrow> int \<Rightarrow> bool" where
  "covered rs cs i \<longleftrightarrow> is_uspace (rs ! nat i) \<or> (\<exists>c \<in> set cs. ec_start c \<le> i \<and> i < ec_end c)"

lemma covered_more: "covered rs cs i \<Longrightarrow> set cs \<subseteq> set cs' \<Longrightarrow> covered rs cs' i"
  by (auto simp: covered_def)

lemma add_chunk_set [simp]:
  "set (add_chunk pm i j t cs) =
     insert \<lparr>ec_index = length cs, ec_content = t, ec_page = lookup_page pm i, ec_start = i, ec_end = j\<rparr> (set cs)"
  by (simp add: add_chunk_def)

lemma blank_window:
  assumes "trim_text (slice rs (nat start) (nat stop)) = []" "0 \<le> start" "start \<le> i" "i < stop" "stop \<le> int (length rs)"
  shows "is_uspace (rs ! nat i)"
proof -
  let ?t = "slice rs (nat start) (nat stop)"
  have "ink ?t = []" using ink_trim [of ?t] assms(1) by (simp add: ink_Nil)
  then have blank: "\<And>r. r \<in> set ?t \<Longrightarrow> is_uspace r" by (simp add: ink_def filter_empty_conv)
  have "nat i - nat start < length ?t" using assms(2-5) by (simp add: slice_def)
  then have "?t ! (nat i - nat start) \<in> set ?t" by simp
  moreover have "?t ! (nat i - nat start) = rs ! nat i" using assms(2-5) by (simp add: slice_def)
  ultimately show ?thesis using blank by metis
qed

lemma one_window:
  fixes rs :: doc_text and cs :: "engine_chunk list"
  defines "cs' \<equiv> \<lambda>pm start stop.
     let t = trim_text (slice rs (nat start) (nat stop)) in if t = [] then cs else add_chunk pm start stop t cs"
  assumes "formed_chunks m cs" "\<forall>c \<in> set cs. is_window pm (int m) rs c"
    and "0 \<le> start" "start < stop" "stop \<le> int (length rs)" "stop - start \<le> int m"
  shows "formed_chunks m (cs' pm start stop)" "\<forall>c \<in> set (cs' pm start stop). is_window pm (int m) rs c"
    and "set cs \<subseteq> set (cs' pm start stop)" "\<forall>i \<in> {start..<stop}. covered rs (cs' pm start stop) i"
proof -
  have "length (trim_text (slice rs (nat start) (nat stop))) \<le> m"
    using trim_length [of "slice rs (nat start) (nat stop)"] slice_length [of rs "nat start" "nat stop"] assms(4-7) by linarith
  then show "formed_chunks m (cs' pm start stop)" using assms(2) by (simp add: cs'_def Let_def formed_add)
  show "\<forall>c \<in> set (cs' pm start stop). is_window pm (int m) rs c"
    using assms(3-7) by (simp add: cs'_def Let_def is_window_def)
  show "set cs \<subseteq> set (cs' pm start stop)" by (auto simp: cs'_def Let_def)
  show "\<forall>i \<in> {start..<stop}. covered rs (cs' pm start stop) i"
    using blank_window [of rs start stop] assms(4-7) by (auto simp: cs'_def Let_def covered_def)
qed

lemma fixed_loop_step:
  assumes "0 \<le> start" "start < int (length rs)" "start \<le> stop" "stop = min (start + fst so) (int (length rs))"
    and "cs' = (let t = trim_text (slice rs (nat start) (nat stop)) in if t = [] then cs else add_chunk pm start stop t cs)"
  shows "fixed_loop pm so rs start cs =
    (if stop = int (length rs) then Some cs' else fixed_loop pm so rs (stop - snd so) cs')"
proof -
  have "\<not> int (length rs) \<le> start" "\<not> (start < 0 \<or> stop < start)" using assms(1-3) by auto
  then show ?thesis unfolding fixed_loop.simps [of pm so rs start cs] assms(4) [symmetric] assms(5) Let_def
    by (simp only: if_False)
qed

lemma fixed_loop_spec:
  assumes "0 \<le> overlap" "overlap < int m"
  shows "0 \<le> start \<Longrightarrow> formed_chunks m cs \<Longrightarrow> \<forall>c \<in> set cs. is_window pm (int m) rs c \<Longrightarrow>
    \<exists>cs'. fixed_loop pm (int m, overlap) rs start cs = Some cs' \<and> formed_chunks m cs'
      \<and> (\<forall>c \<in> set cs'. is_window pm (int m) rs c) \<and> set cs \<subseteq> set cs'
      \<and> (\<forall>i \<in> {start..<int (length rs)}. covered rs cs' i)"
proof (induction "nat (int (length rs) - start)" arbitrary: start cs rule: less_induct)
  case less
  show ?case
  proof (cases "int (length rs) \<le> start")
    case True
    then show ?thesis using less.prems by (subst fixed_loop.simps) simp
  next
    case False
    define stop where "stop = min (start + int m) (int (length rs))"
    let ?cs = "let t = trim_text (slice rs (nat start) (nat stop)) in if t = [] then cs else add_chunk pm start stop t cs"
    have stop: "start < stop" "stop \<le> int (length rs)" "stop - start \<le> int m" using False assms by (auto simp: stop_def)
    have loop: "fixed_loop pm (int m, overlap) rs start cs = (if stop = int (length rs) then Some ?cs else fixed_loop pm (int m, overlap) rs (stop - overlap) ?cs)"
      using fixed_loop_step [of start rs stop "(int m, overlap)" ?cs cs pm] False stop(1) less.prems(1) by (simp add: stop_def)
    note step = one_window [OF less.prems(2,3,1) stop]
    show ?thesis
    proof (cases "stop = int (length rs)")
      case True
      have "fixed_loop pm (int m, overlap) rs start cs = Some ?cs"
        using loop True by simp
      then show ?thesis using step True by (intro exI [of _ ?cs]) simp
    next
      case inner: False
      let ?start = "stop - overlap"
      have ahead: "start < ?start" using inner assms by (auto simp: stop_def)
      then have "nat (int (length rs) - ?start) < nat (int (length rs) - start)" "0 \<le> ?start"
        using False less.prems(1) by auto
      from less.hyps [OF this step(1,2)] obtain cs' where
        rest: "fixed_loop pm (int m, overlap) rs ?start ?cs = Some cs'" "formed_chunks m cs'"
          "\<forall>c \<in> set cs'. is_window pm (int m) rs c" "set ?cs \<subseteq> set cs'"
          "\<forall>i \<in> {?start..<int (length rs)}. covered rs cs' i"
        by blast
      have "fixed_loop pm (int m, overlap) rs start cs = Some cs'"
        using loop inner rest(1) by simp
      moreover have "covered rs cs' i" if "i \<in> {start..<int (length rs)}" for i
      proof (cases "i < stop")
        case True
        then have "covered rs ?cs i" using that step(4) by simp
        then show ?thesis using rest(4) by (rule covered_more)
      next
        case False
        then show ?thesis using that rest(5) assms(1) by simp
      qed
      ultimately show ?thesis using rest(2,3,4) step(3) by blast
    qed
  qed
qed

subsection \<open>The engine\<close>

lemma normalize_bounds:
  "100 \<le> cc_size (normalize_config c)" "cc_size (normalize_config c) \<le> 4000"
  "0 \<le> cc_overlap (normalize_config c)" "cc_overlap (normalize_config c) < cc_size (normalize_config c)"
  by (auto simp: normalize_config_def Let_def)

definition chunk_limit :: "chunk_config \<Rightarrow> nat" where
  "chunk_limit config = nat (cc_size (normalize_config config))"

lemma limit_pos: "0 < chunk_limit c" "int (chunk_limit c) = cc_size (normalize_config c)" "chunk_limit c \<le> 4000"
  using normalize_bounds [of c] by (auto simp: chunk_limit_def)

definition whole_strategies :: "string list" where
  "whole_strategies = [''semantic'', ''qa_split'', ''template'']"

lemma windows_spec:
  assumes "cc_strategy (normalize_config config) \<notin> set whole_strategies"
  shows "\<exists>cs. chunk_text content pages config = Some cs \<and> formed_chunks (chunk_limit config) cs
    \<and> (\<forall>c \<in> set cs. is_window (build_page_map pages) (int (chunk_limit config)) (normalize_text content) c)
    \<and> (\<forall>i \<in> {0..<int (length (normalize_text content))}. covered (normalize_text content) cs i)"
proof (cases "normalize_text content = []")
  case True
  then show ?thesis using assms by (simp add: chunk_text_def Let_def whole_strategies_def fixed_size_def)
next
  case False
  let ?n = "normalize_config config"
  have "chunk_text content pages config
      = fixed_loop (build_page_map pages) (int (chunk_limit config), cc_overlap ?n) (normalize_text content) 0 []"
    using assms False limit_pos [of config] by (simp add: chunk_text_def Let_def whole_strategies_def fixed_size_def)
  then show ?thesis
    using fixed_loop_spec [of "cc_overlap ?n" "chunk_limit config" 0 "[]" "build_page_map pages" "normalize_text content"]
      normalize_bounds [of config] limit_pos [of config] by auto
qed

lemma whole_spec:
  assumes "cc_strategy (normalize_config config) \<in> set whole_strategies"
  shows "\<exists>cs. chunk_text content pages config = Some cs \<and> numbered cs \<and> chunk_ink cs = ink content
    \<and> (cc_strategy (normalize_config config) = ''qa_split'' \<or> formed_chunks (chunk_limit config) cs)"
proof -
  note keeps = semantic_keeps [OF limit_pos(1), of config content pages] template_keeps [OF limit_pos(1), of config content pages]
    qa_split_keeps [OF limit_pos(1), of config content pages]
  have formed: "\<And>cs. formed_chunks (chunk_limit config) cs \<Longrightarrow> numbered cs" by (simp add: formed_chunks_def numbered_def)
  consider "cc_strategy (normalize_config config) = ''semantic''" | "cc_strategy (normalize_config config) = ''qa_split''"
    | "cc_strategy (normalize_config config) = ''template''"
    using assms by (auto simp: whole_strategies_def)
  then show ?thesis
    by cases (use keeps in \<open>auto simp: chunk_text_def Let_def keeps_def chunk_limit_def [symmetric] intro: formed\<close>)
qed

text \<open>
  C34. The chunking engine always returns: whatever the text, the pages and the configuration (a zero
  or negative size, an overlap as large as the size or larger, an unknown strategy), \<open>Chunk\<close> neither
  loops for ever nor slices out of range, since the configuration it works with has
  \<open>0 \<le> Overlap < ChunkSize\<close> and every step of its loops moves the start of the rest forward.
\<close>

theorem chunking_always_ends: "\<exists>chunks. chunk_text content pages config = Some chunks"
proof (cases "cc_strategy (normalize_config config) \<in> set whole_strategies")
  case True
  then show ?thesis using whole_spec [of config content pages] by blast
next
  case False
  then show ?thesis using windows_spec [of config content pages] by blast
qed

text \<open>
  C35. Nothing of the text is lost, repeated or moved by the strategies \<open>semantic\<close>, \<open>qa_split\<close> and
  \<open>template\<close>: the contents of the chunks, one after the other and without white space, are the text
  without its white space; and the chunks are numbered from zero in that order.
\<close>

theorem chunks_keep_the_text:
  assumes "cc_strategy (normalize_config config) \<in> set whole_strategies"
    and "chunk_text content pages config = Some chunks"
  shows "ink (concat (List.map ec_content chunks)) = ink content \<and> List.map ec_index chunks = [0..<length chunks]"
  using whole_spec [OF assms(1), of content pages] assms(2) by (auto simp: chunk_ink_def numbered_def)

text \<open>
  C36. Every other strategy slides a window over the normalised text: each chunk is the trimmed text of
  the window it names, which is no wider than the size in effect, and is on the page of the window's
  start; and every rune of the text that is not white space lies in the window of some chunk.
\<close>

theorem windows_cover_the_text:
  assumes "cc_strategy (normalize_config config) \<notin> set whole_strategies"
    and "chunk_text content pages config = Some chunks"
  shows "(\<forall>c \<in> set chunks.
        0 \<le> ec_start c \<and> ec_start c < ec_end c \<and> ec_end c \<le> int (length (normalize_text content))
        \<and> ec_end c - ec_start c \<le> cc_size (normalize_config config)
        \<and> ec_content c = trim_text (slice (normalize_text content) (nat (ec_start c)) (nat (ec_end c)))
        \<and> ec_page c = lookup_page (build_page_map pages) (ec_start c))
    \<and> (\<forall>i < length (normalize_text content). is_uspace (normalize_text content ! i)
        \<or> (\<exists>c \<in> set chunks. ec_start c \<le> int i \<and> int i < ec_end c))"
    (is "?windows \<and> ?cover")
proof
  note spec = windows_spec [OF assms(1), of content pages, unfolded assms(2)]
  then show ?windows using limit_pos(2) [of config] by (auto simp: is_window_def)
  have "covered (normalize_text content) chunks (int i)" if "i < length (normalize_text content)" for i
    using spec that by auto
  then show ?cover by (auto simp: covered_def)
qed

text \<open>
  Every chunk has some text and, unless it is a group of \<open>qa_split\<close>, at most as many runes as the
  size in effect, which is never below 100 nor above 4000.
\<close>

theorem chunks_within_size:
  assumes "chunk_text content pages config = Some chunks" "cc_strategy (normalize_config config) \<noteq> ''qa_split''"
    and "c \<in> set chunks"
  shows "1 \<le> length (ec_content c) \<and> int (length (ec_content c)) \<le> cc_size (normalize_config config)
    \<and> 100 \<le> cc_size (normalize_config config) \<and> cc_size (normalize_config config) \<le> 4000"
proof -
  have "formed_chunks (chunk_limit config) chunks"
    using whole_spec [of config content pages] windows_spec [of config content pages] assms(1,2)
    by (cases "cc_strategy (normalize_config config) \<in> set whole_strategies") auto
  then have "ec_content c \<noteq> [] \<and> length (ec_content c) \<le> chunk_limit config"
    using assms(3) by (simp add: formed_chunks_def)
  then show ?thesis using limit_pos(2) [of config] normalize_bounds [of config] by (auto simp: Suc_le_eq)
qed

subsection \<open>Concrete runs\<close>

definition sample_text :: doc_text where
  "sample_text = [81, 58, 32, 65, 13, 10, 13, 10, 65, 58, 9, 66, 66, 10]"

definition sample_config :: chunk_config where
  "sample_config = \<lparr>cc_strategy = '' semantic'', cc_size = 0, cc_overlap = 0\<rparr>"

definition sample_chunks :: "engine_chunk list" where
  "sample_chunks = [\<lparr>ec_index = 0, ec_content = [81, 58, 32, 65], ec_page = 0, ec_start = 0, ec_end = 4\<rparr>,
   \<lparr>ec_index = 1, ec_content = [65, 58, 32, 66, 66], ec_page = 0, ec_start = 6, ec_end = 11\<rparr>]"

lemma sample_config_normal: "normalize_config sample_config = \<lparr>cc_strategy = ''semantic'', cc_size = 500, cc_overlap = 50\<rparr>"
  by code_simp

lemma sample_text_normal: "normalize_text sample_text = [81, 58, 32, 65, 10, 10, 65, 58, 9, 66, 66]"
  by (simp add: normalize_text_def sample_text_def trim_text_def is_uspace_def)

lemma sample_chunked: "chunk_text sample_text [] sample_config = Some sample_chunks"
  by (simp add: chunk_text_def sample_config_normal semantic_def sample_text_normal split_semantic_def glue_def collapse_def is_uspace_def split_text_def
    trim_text_def add_chunk_def build_page_map_def lookup_page_def sample_chunks_def)

lemma unix_same: "13 \<notin> set t \<Longrightarrow> unix_lines t = t"
  by (induction t rule: unix_lines.induct) auto

lemma trim_letters: "\<not> is_uspace r \<Longrightarrow> trim_text (replicate n r) = replicate n r"
  by (simp add: trim_text_def)

definition long_text :: doc_text where
  "long_text = replicate 151 65"

definition long_pages :: "doc_page list" where
  "long_pages = [\<lparr>dp_number = 1, dp_content = replicate 70 65\<rparr>, \<lparr>dp_number = 2, dp_content = replicate 80 65\<rparr>]"

definition window_config :: chunk_config where
  "window_config = \<lparr>cc_strategy = ''fixed_size'', cc_size = 7, cc_overlap = 20\<rparr>"

definition long_chunks :: "engine_chunk list" where
  "long_chunks = [\<lparr>ec_index = 0, ec_content = replicate 100 65, ec_page = 1, ec_start = 0, ec_end = 100\<rparr>,
  \<lparr>ec_index = 1, ec_content = replicate 71 65, ec_page = 2, ec_start = 80, ec_end = 151\<rparr>]"

lemma window_config_normal: "normalize_config window_config = \<lparr>cc_strategy = ''fixed_size'', cc_size = 100, cc_overlap = 20\<rparr>"
  by code_simp

lemma letter_ink: "\<not> is_uspace 65" by (simp add: is_uspace_def)

lemma long_text_normal: "normalize_text long_text = long_text"
  using letter_ink by (simp add: normalize_text_def long_text_def unix_same trim_letters)

lemma long_chunked: "chunk_text long_text long_pages window_config = Some long_chunks"
proof -
  let ?pm = "build_page_map long_pages"
  have "chunk_text long_text long_pages window_config = fixed_loop ?pm (100, 20) long_text 0 []"
    by (simp add: chunk_text_def window_config_normal Let_def fixed_size_def long_text_normal) (simp add: long_text_def)
  also have "\<dots> = fixed_loop ?pm (100, 20) long_text 80 [hd long_chunks]"
    by (subst fixed_loop_step [where stop = 100, OF _ _ _ _ refl])
      (simp_all add: long_text_def slice_def trim_letters letter_ink add_chunk_def long_chunks_def build_page_map_def long_pages_def lookup_page_def)
  also have "\<dots> = Some long_chunks"
    by (subst fixed_loop_step [where stop = 151, OF _ _ _ _ refl])
      (simp_all add: long_text_def slice_def trim_letters letter_ink add_chunk_def long_chunks_def build_page_map_def long_pages_def lookup_page_def)
  finally show ?thesis .
qed

lemma chunks_keep_the_text_witness:
  "ink (concat (List.map ec_content sample_chunks)) = ink sample_text
   \<and> List.map ec_index sample_chunks = [0..<length sample_chunks]"
  using chunks_keep_the_text [OF _ sample_chunked]
  by (simp add: sample_config_normal whole_strategies_def)

lemma windows_cover_the_text_witness:
  "ec_content (long_chunks ! 1) = trim_text (slice long_text 80 151) \<and> ec_page (long_chunks ! 1) = 2
   \<and> (\<exists>c \<in> set long_chunks. ec_start c \<le> 120 \<and> 120 < ec_end c)"
proof -
  have other: "cc_strategy (normalize_config window_config) \<notin> set whole_strategies"
    by (simp add: window_config_normal whole_strategies_def)
  note cover = windows_cover_the_text [OF other long_chunked, unfolded long_text_normal]
  have "ec_content (long_chunks ! 1) = trim_text (slice long_text 80 151)"
    using conjunct1 [OF cover] by (simp add: long_chunks_def)
  moreover have "\<exists>c \<in> set long_chunks. ec_start c \<le> 120 \<and> 120 < ec_end c"
    using conjunct2 [OF cover, rule_format, of 120] by (simp add: long_text_def letter_ink)
  ultimately show ?thesis by (simp add: long_chunks_def)
qed

lemma chunks_within_size_witness:
  "ec_content (sample_chunks ! 1) = [65, 58, 32, 66, 66] \<and> int (length (ec_content (sample_chunks ! 1))) \<le> 500"
  using chunks_within_size [OF sample_chunked, of "sample_chunks ! 1"]
  by (simp add: sample_config_normal) (simp add: sample_chunks_def)

end
