(* ===== verification/Cron_Trigger.thy ===== *)
theory Cron_Trigger
  imports Prelude
begin

text \<open>
  The cron triggers of workflows: \<open>src/server/internal/workflow/trigger/schedule.go\<close>.

  Of Go's \<open>time\<close> package the trigger uses the civil calendar and the locations, which are written out
  here: a day is counted from 1 January of the year 1, an instant is a number of nanoseconds from the
  same moment in UTC, and a location is its first offset from UTC with the instants (in seconds) at
  which the offset changes. Loading a location by name is a parameter. \<open>next_from\<close>, the search for
  the next minute, and \<open>step_values\<close>, which counts in 64 bits, are partial functions: \<open>None\<close> is a
  loop that does not end.
\<close>

subsection \<open>The calendar\<close>

definition leap :: "int \<Rightarrow> bool" where
  "leap y \<longleftrightarrow> y mod 4 = 0 \<and> (y mod 100 \<noteq> 0 \<or> y mod 400 = 0)"

definition days_before_year :: "int \<Rightarrow> int" where
  "days_before_year y = 365 * (y - 1) + (y - 1) div 4 - (y - 1) div 100 + (y - 1) div 400"

definition days_before_month :: "bool \<Rightarrow> int \<Rightarrow> int" where
  "days_before_month lp m =
     (if m \<le> 1 then 0 else if m = 2 then 31
      else (if m = 3 then 59 else if m = 4 then 90 else if m = 5 then 120 else if m = 6 then 151 else if m = 7 then 181
            else if m = 8 then 212 else if m = 9 then 243 else if m = 10 then 273 else if m = 11 then 304
            else if m = 12 then 334 else 365) + (if lp then 1 else 0))"

text \<open>The day of \<open>time.Date\<close>, which accepts a month and a day out of range.\<close>

definition day_number :: "int \<Rightarrow> int \<Rightarrow> int \<Rightarrow> int" where
  "day_number y m d =
     (let y' = y + (m - 1) div 12; m' = (m - 1) mod 12 + 1 in days_before_year y' + days_before_month (leap y') m' + (d - 1))"

lemma div_pred:
  assumes "0 < k"
  shows "y div k = (y - 1) div k + (if y mod k = 0 then 1 else 0 :: int)"
proof (cases "y mod k = 0")
  case True
  then have "y - 1 = k * (y div k - 1) + (k - 1)" using mult_div_mod_eq [of k y] by (simp add: algebra_simps)
  then have "(y - 1) div k = y div k - 1" by (rule int_div_pos_eq) (use assms in auto)
  then show ?thesis using True by simp
next
  case False
  have r: "0 \<le> y mod k" "y mod k < k" using assms by simp_all
  have "y - 1 = k * (y div k) + (y mod k - 1)" using mult_div_mod_eq [of k y] by linarith
  then have "(y - 1) div k = y div k" by (rule int_div_pos_eq) (use r False in auto)
  then show ?thesis using False by simp
qed

lemma year_length: "days_before_year (y + 1) = days_before_year y + (if leap y then 366 else 365)"
proof -
  define a b c where "a = (y - 1) div 4" and "b = (y - 1) div 100" and "c = (y - 1) div 400"
  define p q r where "p \<longleftrightarrow> y mod 4 = 0" and "q \<longleftrightarrow> y mod 100 = 0" and "r \<longleftrightarrow> y mod 400 = 0"
  have steps: "y div 4 = a + (if p then 1 else 0)" "y div 100 = b + (if q then 1 else 0)" "y div 400 = c + (if r then 1 else 0)"
    unfolding a_def b_def c_def p_def q_def r_def by (rule div_pred, simp)+
  have "days_before_year (y + 1) = 365 * y + y div 4 - y div 100 + y div 400" by (simp add: days_before_year_def)
  then have next_year: "days_before_year (y + 1) = 365 * y + (a + (if p then 1 else 0)) - (b + (if q then 1 else 0)) + (c + (if r then 1 else 0))"
    by (simp only: steps)
  have this_year: "days_before_year y = 365 * (y - 1) + a - b + c" by (simp only: days_before_year_def a_def b_def c_def)
  have "r \<Longrightarrow> q" using mod_mod_cancel [of 100 400 y] by (simp add: q_def r_def)
  moreover have "q \<Longrightarrow> p" using mod_mod_cancel [of 4 100 y] by (simp add: p_def q_def)
  moreover have "leap y \<longleftrightarrow> p \<and> (\<not> q \<or> r)" by (simp only: leap_def p_def q_def r_def)
  ultimately show ?thesis unfolding next_year this_year by auto
qed

lemma years_grow: "days_before_year y < days_before_year (y + 1)"
  by (simp add: year_length)

text \<open>The year, month and day of a day; the search for the year starts below it.\<close>

function year_from :: "int \<Rightarrow> int \<Rightarrow> int" where
  "year_from n y = (if days_before_year (y + 1) \<le> n then year_from n (y + 1) else y)"
  by pat_completeness auto

termination
proof (relation "measure (\<lambda>(n, y). nat (n - days_before_year y))")
  show "((n, y + 1), (n, y)) \<in> measure (\<lambda>(n, y). nat (n - days_before_year y))" if "days_before_year (y + 1) \<le> n" for n y
    using that years_grow [of y] by simp
qed simp

declare year_from.simps [simp del]

definition year_of :: "int \<Rightarrow> int" where
  "year_of n = year_from n (n div 366 + 1)"

definition year_day :: "int \<Rightarrow> int" where
  "year_day n = n - days_before_year (year_of n)"

definition month_of :: "int \<Rightarrow> int" where
  "month_of n = 1 + int (length (takeWhile (\<lambda>m. days_before_month (leap (year_of n)) m \<le> year_day n) [2..12]))"

definition day_of :: "int \<Rightarrow> int" where
  "day_of n = year_day n - days_before_month (leap (year_of n)) (month_of n) + 1"

text \<open>\<open>Weekday\<close>: 1 January of the year 1 was a Monday, and Sunday is 0.\<close>

definition weekday_of :: "int \<Rightarrow> int" where
  "weekday_of n = (n + 1) mod 7"

subsection \<open>Locations\<close>

record location =
  lc_offset :: int
  lc_moves :: "(int \<times> int) list"

definition utc_location :: location where
  "utc_location = \<lparr>lc_offset = 0, lc_moves = []\<rparr>"

text \<open>The offset at a moment, with the moments from and until which it holds.\<close>

fun zone_from :: "int option \<Rightarrow> int \<Rightarrow> (int \<times> int) list \<Rightarrow> int \<Rightarrow> int \<times> int option \<times> int option" where
  "zone_from since offset [] u = (offset, since, None)"
| "zone_from since offset ((w, o') # ms) u =
     (if u < w then (offset, since, Some w) else zone_from (Some w) o' ms u)"

definition zone_at :: "location \<Rightarrow> int \<Rightarrow> int \<times> int option \<times> int option" where
  "zone_at loc u = zone_from None (lc_offset loc) (lc_moves loc) u"

definition local_seconds :: "location \<Rightarrow> gotime \<Rightarrow> int" where
  "local_seconds loc t = t div go_second + fst (zone_at loc (t div go_second))"

text \<open>
  \<open>time.Date\<close> takes the offset in force when the local time is read as UTC; when the moment it leads
  to is outside the period of that offset, it takes the offset at that moment instead.
\<close>

definition from_local :: "location \<Rightarrow> int \<Rightarrow> int" where
  "from_local loc l =
     (let (offset, since, till) = zone_at loc l; u = l - offset
      in if offset = 0 then l
         else if (case since of None \<Rightarrow> False | Some s \<Rightarrow> u < s) \<or> (case till of None \<Rightarrow> False | Some e \<Rightarrow> e \<le> u)
           then l - fst (zone_at loc u)
         else u)"

definition go_date :: "location \<Rightarrow> int \<times> int \<times> int \<Rightarrow> int \<Rightarrow> int \<Rightarrow> gotime" where
  "go_date loc ymd h mi =
     from_local loc (day_number (fst ymd) (fst (snd ymd)) (snd (snd ymd)) * 86400 + h * 3600 + mi * 60) * go_second"

definition local_day :: "location \<Rightarrow> gotime \<Rightarrow> int" where
  "local_day loc t = local_seconds loc t div 86400"

definition local_hour :: "location \<Rightarrow> gotime \<Rightarrow> int" where
  "local_hour loc t = local_seconds loc t mod 86400 div 3600"

definition local_minute :: "location \<Rightarrow> gotime \<Rightarrow> int" where
  "local_minute loc t = local_seconds loc t mod 3600 div 60"

subsection \<open>Parsing\<close>

record cron_field =
  cf_values :: "int list"
  cf_wild :: bool

record parsed_cron =
  pc_minute :: cron_field
  pc_hour :: cron_field
  pc_day :: cron_field
  pc_month :: cron_field
  pc_weekday :: cron_field
  pc_raw :: string

datatype cron_part = CpMinute | CpHour | CpDay | CpMonth | CpWeekday

datatype cron_reason = CrStep | CrRangeStart | CrRangeEnd | CrRange | CrValue | CrBounds | CrNothing

datatype cron_error = CeEmpty | CeCount nat | CeField cron_part cron_reason | CeNoRun | CeDisabled | CeNoId

text \<open>\<open>strings.Fields\<close>, \<open>strings.Split\<close> and \<open>strings.SplitN(s, sep, 2)\<close> at one character.\<close>

fun string_fields :: "string \<Rightarrow> string \<Rightarrow> string list" where
  "string_fields word [] = (if word = [] then [] else [word])"
| "string_fields word (c # s) =
     (if is_space c then (if word = [] then string_fields [] s else word # string_fields [] s)
      else string_fields (word @ [c]) s)"

fun split_at :: "char \<Rightarrow> string \<Rightarrow> string list" where
  "split_at sep [] = [[]]"
| "split_at sep (c # s) =
     (if c = sep then [] # split_at sep s else (c # hd (split_at sep s)) # tl (split_at sep s))"

definition cut_first :: "char \<Rightarrow> string \<Rightarrow> string \<times> string" where
  "cut_first sep s = (takeWhile (\<lambda>c. c \<noteq> sep) s, tl (dropWhile (\<lambda>c. c \<noteq> sep) s))"

text \<open>The number is built in 64 bits and wraps around without an error.\<close>

fun cron_digits :: "int \<Rightarrow> string \<Rightarrow> int option" where
  "cron_digits v [] = Some v"
| "cron_digits v (c # s) =
     (if (of_char c :: int) < 48 \<or> 57 < (of_char c :: int) then None else cron_digits (int64 (v * 10 + (of_char c - 48))) s)"

definition parse_cron_int :: "string \<Rightarrow> int option" where
  "parse_cron_int s = (if trim_space s = [] then None else cron_digits 0 (trim_space s))"

partial_function (option) step_values :: "int \<Rightarrow> int \<Rightarrow> int \<Rightarrow> int list \<Rightarrow> int list option" where
  "step_values hi step v vs =
     (if v \<le> hi then step_values hi step (int64 (v + step)) (vs @ [v]) else Some vs)"

definition add_seen :: "int list \<Rightarrow> int list \<Rightarrow> int list" where
  "add_seen new vs = fold (\<lambda>v vs. if v \<in> set vs then vs else vs @ [v]) new vs"

definition cron_part_values :: "int \<times> int \<Rightarrow> string \<Rightarrow> cron_reason + int list" where
  "cron_part_values bounds part0 =
     (let part = trim_space part0
      in if CHR ''-'' \<in> set part
         then (case parse_cron_int (trim_space (fst (cut_first (CHR ''-'') part))) of
                 None \<Rightarrow> Inl CrRangeStart
               | Some a \<Rightarrow> (case parse_cron_int (trim_space (snd (cut_first (CHR ''-'') part))) of
                             None \<Rightarrow> Inl CrRangeEnd
                           | Some b \<Rightarrow> if a < fst bounds \<or> snd bounds < b \<or> b < a then Inl CrRange else Inr [a..b]))
         else (case parse_cron_int part of
                 None \<Rightarrow> Inl CrValue
               | Some a \<Rightarrow> if a < fst bounds \<or> snd bounds < a then Inl CrBounds else Inr [a]))"

fun cron_list_values :: "int \<times> int \<Rightarrow> string list \<Rightarrow> int list \<Rightarrow> cron_reason + int list" where
  "cron_list_values bounds [] vs = (if vs = [] then Inl CrNothing else Inr vs)"
| "cron_list_values bounds (part # parts) vs =
     (case cron_part_values bounds part of Inl e \<Rightarrow> Inl e | Inr new \<Rightarrow> cron_list_values bounds parts (add_seen new vs))"

definition parse_cron_field :: "string \<Rightarrow> int \<times> int \<Rightarrow> (cron_reason + cron_field) option" where
  "parse_cron_field field bounds =
     (if field = ''*'' then Some (Inr \<lparr>cf_values = [fst bounds..snd bounds], cf_wild = True\<rparr>)
      else if has_prefix field ''*/''
        then (case parse_cron_int (drop 2 field) of
                None \<Rightarrow> Some (Inl CrStep)
              | Some step \<Rightarrow>
                  if step \<le> 0 then Some (Inl CrStep)
                  else map_option (\<lambda>vs. Inr \<lparr>cf_values = vs, cf_wild = False\<rparr>) (step_values (snd bounds) step (fst bounds) []))
      else Some (case cron_list_values bounds (split_at (CHR '','') field) [] of
                   Inl e \<Rightarrow> Inl e
                 | Inr vs \<Rightarrow> Inr \<lparr>cf_values = vs, cf_wild = False\<rparr>))"

definition cron_step :: "cron_part \<Rightarrow> string \<Rightarrow> int \<times> int \<Rightarrow> (cron_field \<Rightarrow> (cron_error + 'a) option) \<Rightarrow> (cron_error + 'a) option" where
  "cron_step part field bounds k =
     (case parse_cron_field field bounds of
        None \<Rightarrow> None
      | Some (Inl e) \<Rightarrow> Some (Inl (CeField part e))
      | Some (Inr f) \<Rightarrow> k f)"

definition parse_cron :: "string \<Rightarrow> (cron_error + parsed_cron) option" where
  "parse_cron expr0 =
     (let expr = trim_space expr0; fs = string_fields [] expr
      in if expr = [] then Some (Inl CeEmpty)
         else if length fs \<noteq> 5 then Some (Inl (CeCount (length fs)))
         else cron_step CpMinute (fs ! 0) (0, 59) (\<lambda>mi.
              cron_step CpHour (fs ! 1) (0, 23) (\<lambda>h.
              cron_step CpDay (fs ! 2) (1, 31) (\<lambda>d.
              cron_step CpMonth (fs ! 3) (1, 12) (\<lambda>mo.
              cron_step CpWeekday (fs ! 4) (0, 6) (\<lambda>wd.
              Some (Inr \<lparr>pc_minute = mi, pc_hour = h, pc_day = d, pc_month = mo, pc_weekday = wd, pc_raw = expr\<rparr>)))))))"

subsection \<open>The next run\<close>

definition matches_field :: "cron_field \<Rightarrow> int \<Rightarrow> bool" where
  "matches_field f v \<longleftrightarrow> list_ex (\<lambda>x. x = v) (cf_values f)"

definition next_month :: "location \<Rightarrow> gotime \<Rightarrow> gotime" where
  "next_month loc t = go_date loc (year_of (local_day loc t), month_of (local_day loc t) + 1, 1) 0 0"

definition next_day :: "location \<Rightarrow> gotime \<Rightarrow> gotime" where
  "next_day loc t =
     go_date loc (year_of (local_day loc t), month_of (local_day loc t), day_of (local_day loc t) + 1) 0 0"

definition next_hour :: "location \<Rightarrow> gotime \<Rightarrow> gotime" where
  "next_hour loc t =
     go_date loc (year_of (local_day loc t), month_of (local_day loc t), day_of (local_day loc t)) (local_hour loc t + 1) 0"

text \<open>One round of the search: \<open>None\<close> when \<open>t\<close> matches, otherwise where it goes on.\<close>

definition search_step :: "parsed_cron \<Rightarrow> location \<Rightarrow> gotime \<Rightarrow> gotime option" where
  "search_step pc loc t =
     (if \<not> matches_field (pc_month pc) (month_of (local_day loc t)) then Some (next_month loc t)
      else if \<not> matches_field (pc_day pc) (day_of (local_day loc t)) then Some (next_day loc t)
      else if \<not> matches_field (pc_weekday pc) (weekday_of (local_day loc t)) then Some (next_day loc t)
      else if \<not> matches_field (pc_hour pc) (local_hour loc t) then Some (next_hour loc t)
      else if \<not> matches_field (pc_minute pc) (local_minute loc t) then Some (t + go_minute)
      else None)"

partial_function (option) next_from :: "parsed_cron \<Rightarrow> location \<Rightarrow> gotime \<Rightarrow> gotime \<Rightarrow> gotime option" where
  "next_from pc loc limit t =
     (if limit \<le> t then Some zero_time
      else (case search_step pc loc t of None \<Rightarrow> Some t | Some t' \<Rightarrow> next_from pc loc limit t'))"

definition search_start :: "location \<Rightarrow> gotime \<Rightarrow> gotime" where
  "search_start loc t =
     go_date loc (year_of (local_day loc t), month_of (local_day loc t), day_of (local_day loc t))
       (local_hour loc t) (local_minute loc t) + go_minute"

definition next_run :: "parsed_cron \<Rightarrow> location \<Rightarrow> gotime \<Rightarrow> gotime option" where
  "next_run pc loc t = next_from pc loc (t + 2 * 365 * 24 * 60 * go_minute) (search_start loc t)"

subsection \<open>Triggers\<close>

record 'd schedule_trigger =
  sg_id :: string
  sg_name :: string
  sg_cron :: string
  sg_zone :: string
  sg_enabled :: bool
  sg_last :: "gotime option"
  sg_next :: "gotime option"
  sg_definition :: "'d option"

definition new_schedule_trigger :: "string \<times> string \<Rightarrow> string \<Rightarrow> string \<Rightarrow> bool \<Rightarrow> (cron_error + 'd schedule_trigger) option" where
  "new_schedule_trigger id_name expr zone enabled =
     (if trim_space (fst id_name) = [] then Some (Inl CeNoId)
      else map_option (\<lambda>parsed. case parsed of
          Inl e \<Rightarrow> Inl e
        | Inr _ \<Rightarrow> Inr \<lparr>sg_id = trim_space (fst id_name), sg_name = trim_space (snd id_name), sg_cron = trim_space expr,
            sg_zone = (if trim_space zone = [] then ''UTC'' else trim_space zone), sg_enabled = enabled,
            sg_last = None, sg_next = None, sg_definition = None\<rparr>) (parse_cron expr))"

text \<open>\<open>zones\<close> is \<open>time.LoadLocation\<close>; a name it does not know counts as UTC.\<close>

definition trigger_location :: "(string \<Rightarrow> location option) \<Rightarrow> 'd schedule_trigger \<Rightarrow> location" where
  "trigger_location zones g =
     (if trim_space (sg_zone g) = [] then utc_location
      else case zones (trim_space (sg_zone g)) of None \<Rightarrow> utc_location | Some loc \<Rightarrow> loc)"

definition calculate_next_run :: "(string \<Rightarrow> location option) \<Rightarrow> 'd schedule_trigger \<Rightarrow> gotime \<Rightarrow> (cron_error + gotime) option" where
  "calculate_next_run zones g t =
     (if \<not> sg_enabled g then Some (Inl CeDisabled)
      else case parse_cron (sg_cron g) of
             None \<Rightarrow> None
           | Some (Inl e) \<Rightarrow> Some (Inl e)
           | Some (Inr pc) \<Rightarrow>
               map_option (\<lambda>r. if r = zero_time then Inl CeNoRun else Inr r) (next_run pc (trigger_location zones g) t))"

definition should_run :: "'d schedule_trigger \<Rightarrow> gotime \<Rightarrow> bool" where
  "should_run g now \<longleftrightarrow> sg_enabled g \<and> (case sg_next g of None \<Rightarrow> True | Some n \<Rightarrow> n \<le> now)"

definition mark_executed :: "(string \<Rightarrow> location option) \<Rightarrow> 'd schedule_trigger \<Rightarrow> gotime \<Rightarrow> ('d schedule_trigger \<times> cron_error option) option" where
  "mark_executed zones g at_time =
     (let g1 = g\<lparr>sg_last := Some at_time\<rparr>
      in map_option (\<lambda>r. case r of
             Inl CeDisabled \<Rightarrow> (g1\<lparr>sg_next := None\<rparr>, None)
           | Inl e \<Rightarrow> (g1, Some e)
           | Inr n \<Rightarrow> (g1\<lparr>sg_next := Some n\<rparr>, None)) (calculate_next_run zones g1 at_time))"

definition first_value :: "int list \<Rightarrow> int" where
  "first_value vs = (case vs of [] \<Rightarrow> 0 | v # _ \<Rightarrow> v)"

text \<open>\<open>%02d\<close> of a number that is not negative.\<close>

definition two_digits :: "int \<Rightarrow> string" where
  "two_digits n = (if n < 10 then CHR ''0'' # digits n else digits n)"

definition cron_description :: "string \<Rightarrow> string option" where
  "cron_description expr =
     map_option (\<lambda>parsed. case parsed of
         Inl _ \<Rightarrow> expr
       | Inr pc \<Rightarrow>
           if cf_wild (pc_minute pc) \<and> cf_wild (pc_hour pc) then ''every minute''
           else if cf_wild (pc_hour pc) then ''every hour at minute '' @ digits (first_value (cf_values (pc_minute pc)))
           else if cf_wild (pc_day pc) \<and> cf_wild (pc_month pc) \<and> cf_wild (pc_weekday pc)
             then ''daily at '' @ two_digits (first_value (cf_values (pc_hour pc))) @ CHR '':'' #
                  two_digits (first_value (cf_values (pc_minute pc)))
           else expr) (parse_cron expr)"

end
