(* ===== verification/Cron_Properties.thy ===== *)
theory Cron_Properties
  imports Cron_Trigger
begin

text \<open>
  What the cron triggers compute. In a location with one offset (UTC above all) the next run is the
  first minute after the given moment that all five fields match, although the search jumps over
  months, days and hours; so a trigger should run exactly when such a minute has come since its last
  run. Parsing always ends. In a location that moves its clocks forward at midnight the search may
  never return.
\<close>

subsection \<open>The calendar\<close>

lemma years_mono: "y \<le> y' \<Longrightarrow> days_before_year y \<le> days_before_year y'"
proof (induction y' rule: int_ge_induct)
  case (step i)
  then show ?case using years_grow [of i] by linarith
qed simp

lemma year_from_spec:
  "days_before_year y \<le> n \<Longrightarrow> days_before_year (year_from n y) \<le> n \<and> n < days_before_year (year_from n y + 1)"
proof (induction n y rule: year_from.induct)
  case (1 n y)
  show ?case
  proof (cases "days_before_year (y + 1) \<le> n")
    case True
    then show ?thesis using 1 by (subst (1 2) year_from.simps) simp
  next
    case False
    then show ?thesis using 1 by (subst (1 2) year_from.simps) simp
  qed
qed

lemma year_start:
  assumes "0 \<le> n"
  shows "days_before_year (n div 366 + 1) \<le> n"
proof -
  define q where "q = n div 366"
  have "0 \<le> q" "366 * q \<le> n" using assms by (simp_all add: q_def)
  moreover have "q div 4 \<le> q" "q div 400 \<le> q div 100" using \<open>0 \<le> q\<close> zdiv_mono2 [of q 100 400] by simp_all
  ultimately show ?thesis by (simp add: days_before_year_def flip: q_def)
qed

lemma year_of_spec: "0 \<le> n \<Longrightarrow> days_before_year (year_of n) \<le> n \<and> n < days_before_year (year_of n + 1)"
  unfolding year_of_def by (rule year_from_spec [OF year_start])

lemma year_of_eq:
  assumes "0 \<le> n" "days_before_year y \<le> n" "n < days_before_year (y + 1)"
  shows "year_of n = y"
proof -
  have "\<not> y < year_of n" using years_mono [of "y + 1" "year_of n"] year_of_spec [OF assms(1)] assms(3) by auto
  moreover have "\<not> year_of n < y" using years_mono [of "year_of n + 1" y] year_of_spec [OF assms(1)] assms(2) by auto
  ultimately show ?thesis by simp
qed

lemma months_step: "1 \<le> m \<Longrightarrow> m \<le> 12 \<Longrightarrow> days_before_month lp m \<le> days_before_month lp (m + 1)"
  by (auto simp: days_before_month_def)

lemma months_mono: "m \<le> m' \<Longrightarrow> 1 \<le> m \<Longrightarrow> m' \<le> 13 \<Longrightarrow> days_before_month lp m \<le> days_before_month lp m'"
proof (induction m' rule: int_ge_induct)
  case (step i)
  then show ?case using months_step [of i lp] by simp
qed simp

lemma year_day_bounds:
  assumes "0 \<le> n"
  shows "0 \<le> year_day n" "year_day n < days_before_month (leap (year_of n)) 13"
  using year_of_spec [OF assms] by (auto simp: year_day_def year_length days_before_month_def split: if_splits)

lemma months_until:
  fixes k :: int
  assumes "0 \<le> k" "k < days_before_month lp 13"
  defines "m \<equiv> 1 + int (length (takeWhile (\<lambda>m. days_before_month lp m \<le> k) [2..12]))"
  shows "1 \<le> m \<and> m \<le> 12 \<and> days_before_month lp m \<le> k \<and> k < days_before_month lp (m + 1)"
proof -
  have months: "[2..12] = [2, 3, 4, 5, 6, 7, 8, 9, 10, 11, 12 :: int]" by simp
  show ?thesis using assms(1,2) unfolding m_def months by (cases lp) (auto simp: days_before_month_def)
qed

lemma month_of_spec:
  assumes "0 \<le> n"
  shows "1 \<le> month_of n \<and> month_of n \<le> 12 \<and> days_before_month (leap (year_of n)) (month_of n) \<le> year_day n
    \<and> year_day n < days_before_month (leap (year_of n)) (month_of n + 1)"
  unfolding month_of_def using months_until [OF year_day_bounds [OF assms]] .

lemma month_of_eq:
  assumes "0 \<le> n" "1 \<le> m" "m \<le> 12" "days_before_month (leap (year_of n)) m \<le> year_day n"
    and "year_day n < days_before_month (leap (year_of n)) (m + 1)"
  shows "month_of n = m"
proof -
  note spec = month_of_spec [OF assms(1)]
  have "\<not> m < month_of n" using months_mono [of "m + 1" "month_of n" "leap (year_of n)"] spec assms(2-5) by auto
  moreover have "\<not> month_of n < m" using months_mono [of "month_of n + 1" m "leap (year_of n)"] spec assms(2-5) by auto
  ultimately show ?thesis by simp
qed

text \<open>The date of a day names that day, and the first of the next month is the end of the days of the month.\<close>

lemma month_index: "1 \<le> m \<Longrightarrow> m \<le> 12 \<Longrightarrow> (m - 1) div 12 = 0 \<and> (m - 1) mod 12 = m - (1 :: int)"
  by simp

lemma date_of_day: "0 \<le> n \<Longrightarrow> day_number (year_of n) (month_of n) (day_of n + j) = n + j"
  using month_of_spec [of n] month_index [of "month_of n"] by (simp add: day_number_def day_of_def year_day_def)

lemma first_of_next:
  assumes "0 \<le> n"
  shows "day_number (year_of n) (month_of n + 1) 1
    = days_before_year (year_of n) + days_before_month (leap (year_of n)) (month_of n + 1)"
proof (cases "month_of n = 12")
  case True
  then show ?thesis by (simp add: day_number_def year_length days_before_month_def)
next
  case False
  then show ?thesis using month_of_spec [OF assms] month_index [of "month_of n + 1"] by (simp add: day_number_def Let_def)
qed

lemma next_month_after: "0 \<le> n \<Longrightarrow> n < day_number (year_of n) (month_of n + 1) 1"
  using month_of_spec [of n] by (simp add: first_of_next year_day_def)

lemma same_month:
  assumes "0 \<le> n" "n \<le> n'" "n' < day_number (year_of n) (month_of n + 1) 1"
  shows "month_of n' = month_of n"
proof -
  let ?lp = "leap (year_of n)"
  note m = month_of_spec [OF assms(1)] and y = year_of_spec [OF assms(1)]
  have last: "n' < days_before_year (year_of n) + days_before_month ?lp (month_of n + 1)" using assms(1,3) by (simp add: first_of_next)
  also have "\<dots> \<le> days_before_year (year_of n + 1)"
    using months_mono [of "month_of n + 1" 13 ?lp] m by (auto simp: year_length days_before_month_def)
  finally have year: "year_of n' = year_of n" using year_of_eq [of n' "year_of n"] y assms by auto
  show ?thesis
    by (rule month_of_eq) (use assms(1,2) last m in \<open>auto simp: year year_day_def\<close>)
qed

subsection \<open>Minutes\<close>

lemma go_second_nonzero [simp]: "go_second \<noteq> 0"
  using go_second_pos by (rule less_imp_neq [THEN not_sym])

lemma div_below:
  assumes "0 < c" "j < c * n"
  shows "j div c < (n :: int)"
proof (rule ccontr)
  assume "\<not> j div c < n"
  then have "c * n \<le> c * (j div c)" using assms(1) by simp
  also have "\<dots> \<le> j" using mult_div_mod_eq [of c j] pos_mod_sign [of c j] assms(1) by linarith
  finally show False using assms(2) by simp
qed

lemma above_div: "0 < c \<Longrightarrow> k < c * (k div c + (1 :: int))"
  using mult_div_mod_eq [of c k] pos_mod_bound [of c k] unfolding distrib_left by linarith

lemma div_below_iff:
  assumes "0 < c"
  shows "j div c < n \<longleftrightarrow> j < c * (n :: int)"
proof
  assume "j div c < n"
  then have "c * (j div c + 1) \<le> c * n" using assms by (intro mult_left_mono) auto
  then show "j < c * n" using above_div [OF assms, of j] by linarith
qed (rule div_below [OF assms])

lemma mod_then_div: "0 < b \<Longrightarrow> 0 < c \<Longrightarrow> a mod (b * c) div b = a div b mod (c :: int)"
  by (simp add: zmod_zmult2_eq)

text \<open>The clock of a location counted in whole minutes.\<close>

definition local_minutes :: "location \<Rightarrow> gotime \<Rightarrow> int" where
  "local_minutes loc t = local_seconds loc t div 60"

lemma clock_minutes:
  "local_day loc t = local_minutes loc t div 1440" "local_hour loc t = local_minutes loc t div 60 mod 24"
  "local_minute loc t = local_minutes loc t mod 60"
proof -
  let ?l = "local_seconds loc t"
  have "?l div 86400 = ?l div 60 div 1440" using zdiv_zmult2_eq [of 1440 ?l 60] by simp
  then show "local_day loc t = local_minutes loc t div 1440" by (simp only: local_day_def local_minutes_def)
  have "?l mod 86400 div 3600 = ?l div 3600 mod 24" using mod_then_div [of 3600 24 ?l] by simp
  also have "?l div 3600 = ?l div 60 div 60" using zdiv_zmult2_eq [of 60 ?l 60] by simp
  finally show "local_hour loc t = local_minutes loc t div 60 mod 24" by (simp only: local_hour_def local_minutes_def)
  have "?l mod 3600 div 60 = ?l div 60 mod 60" using mod_then_div [of 60 60 ?l] by simp
  then show "local_minute loc t = local_minutes loc t mod 60" by (simp only: local_minute_def local_minutes_def)
qed

lemma minutes_of_clock: "1440 * (k div 1440) + 60 * (k div 60 mod 24) + k mod 60 = (k :: int)"
proof -
  have "k mod 1440 = 60 * (k div 60 mod 24) + k mod 60" using zmod_zmult2_eq [of 24 k 60] by simp
  then show ?thesis using mult_div_mod_eq [of 1440 k] by linarith
qed

definition minute_matches :: "parsed_cron \<Rightarrow> int \<Rightarrow> bool" where
  "minute_matches pc k \<longleftrightarrow>
     matches_field (pc_month pc) (month_of (k div 1440)) \<and> matches_field (pc_day pc) (day_of (k div 1440))
     \<and> matches_field (pc_weekday pc) (weekday_of (k div 1440)) \<and> matches_field (pc_hour pc) (k div 60 mod 24)
     \<and> matches_field (pc_minute pc) (k mod 60)"

text \<open>A moment is due when it is a whole minute of the location and all five fields match it.\<close>

definition cron_due :: "parsed_cron \<Rightarrow> location \<Rightarrow> gotime \<Rightarrow> bool" where
  "cron_due pc loc t \<longleftrightarrow> t mod go_second = 0 \<and> local_seconds loc t mod 60 = 0
     \<and> matches_field (pc_month pc) (month_of (local_day loc t)) \<and> matches_field (pc_day pc) (day_of (local_day loc t))
     \<and> matches_field (pc_weekday pc) (weekday_of (local_day loc t)) \<and> matches_field (pc_hour pc) (local_hour loc t)
     \<and> matches_field (pc_minute pc) (local_minute loc t)"

lemma due_minutes:
  "cron_due pc loc t \<longleftrightarrow> t mod go_second = 0 \<and> local_seconds loc t mod 60 = 0 \<and> minute_matches pc (local_minutes loc t)"
  by (simp add: cron_due_def minute_matches_def clock_minutes)

definition one_offset :: "location \<Rightarrow> bool" where
  "one_offset loc \<longleftrightarrow> lc_moves loc = []"

definition minute_at :: "location \<Rightarrow> int \<Rightarrow> gotime" where
  "minute_at loc k = (60 * k - lc_offset loc) * go_second"

lemma minute_at_less: "minute_at loc i < minute_at loc j \<longleftrightarrow> i < j"
  by (simp add: minute_at_def)

lemma one_offset_seconds: "one_offset loc \<Longrightarrow> local_seconds loc t = t div go_second + lc_offset loc"
  by (simp add: one_offset_def local_seconds_def zone_at_def)

lemma minutes_at [simp]: "one_offset loc \<Longrightarrow> local_minutes loc (minute_at loc k) = k"
  by (simp add: local_minutes_def one_offset_seconds minute_at_def)

lemma go_date_minute:
  "one_offset loc \<Longrightarrow> go_date loc ymd h mi = minute_at loc (1440 * day_number (fst ymd) (fst (snd ymd)) (snd (snd ymd)) + 60 * h + mi)"
  by (simp add: one_offset_def go_date_def from_local_def zone_at_def minute_at_def Let_def)

lemma due_minute_at:
  assumes "one_offset loc"
  shows "cron_due pc loc t \<longleftrightarrow> (\<exists>k. t = minute_at loc k \<and> minute_matches pc k)"
proof
  assume due: "cron_due pc loc t"
  let ?k = "local_minutes loc t"
  have "60 * ?k = t div go_second + lc_offset loc"
    using due mult_div_mod_eq [of 60 "local_seconds loc t"] by (simp add: due_minutes local_minutes_def one_offset_seconds [OF assms])
  moreover have "t = t div go_second * go_second" using due mult_div_mod_eq [of go_second t] by (simp add: due_minutes mult.commute)
  ultimately have "t = minute_at loc ?k" by (simp add: minute_at_def)
  then show "\<exists>k. t = minute_at loc k \<and> minute_matches pc k" using due by (auto simp: due_minutes)
next
  assume "\<exists>k. t = minute_at loc k \<and> minute_matches pc k"
  then show "cron_due pc loc t"
    using assms by (auto simp: due_minutes) (simp_all add: minute_at_def one_offset_seconds)
qed

subsection \<open>The search\<close>

text \<open>A round of the search jumps over minutes that do not match, and only over those.\<close>

definition jumps :: "parsed_cron \<Rightarrow> location \<Rightarrow> int \<Rightarrow> gotime \<Rightarrow> bool" where
  "jumps pc loc k t \<longleftrightarrow> (\<exists>k' > k. t = minute_at loc k' \<and> (\<forall>j \<in> {k..<k'}. \<not> minute_matches pc j))"

lemma next_month_jumps:
  assumes "one_offset loc" "0 \<le> k" "\<not> matches_field (pc_month pc) (month_of (k div 1440))"
  shows "jumps pc loc k (next_month loc (minute_at loc k))"
proof -
  let ?n = "k div 1440"
  let ?n' = "day_number (year_of ?n) (month_of ?n + 1) 1"
  have n: "0 \<le> ?n" using assms(2) by (simp add: pos_imp_zdiv_nonneg_iff)
  have "next_month loc (minute_at loc k) = minute_at loc (1440 * ?n')"
    using assms(1) by (simp add: next_month_def clock_minutes go_date_minute)
  moreover have "k < 1440 * ?n'" using next_month_after [OF n] above_div [of 1440 k] by linarith
  moreover have "\<not> minute_matches pc j" if "j \<in> {k..<1440 * ?n'}" for j
  proof -
    have "?n \<le> j div 1440" using that by (simp add: zdiv_mono1)
    moreover have "j div 1440 < ?n'" using that by (intro div_below) simp_all
    ultimately have "month_of (j div 1440) = month_of ?n" by (rule same_month [OF n])
    then show ?thesis using assms(3) by (simp add: minute_matches_def)
  qed
  ultimately show ?thesis unfolding jumps_def by blast
qed

lemma next_day_jumps:
  assumes "one_offset loc" "0 \<le> k"
    and "\<not> (matches_field (pc_day pc) (day_of (k div 1440)) \<and> matches_field (pc_weekday pc) (weekday_of (k div 1440)))"
  shows "jumps pc loc k (next_day loc (minute_at loc k))"
proof -
  let ?n = "k div 1440"
  have n: "0 \<le> ?n" using assms(2) by (simp add: pos_imp_zdiv_nonneg_iff)
  have "next_day loc (minute_at loc k) = minute_at loc (1440 * (?n + 1))"
    using assms(1) date_of_day [OF n, of 1] by (simp add: next_day_def clock_minutes go_date_minute)
  moreover have "k < 1440 * (?n + 1)" by (rule above_div) simp
  moreover have "\<not> minute_matches pc j" if "j \<in> {k..<1440 * (?n + 1)}" for j
  proof -
    have "?n \<le> j div 1440" using that by (simp add: zdiv_mono1)
    moreover have "j div 1440 < ?n + 1" using that by (intro div_below) simp_all
    ultimately have "j div 1440 = ?n" by simp
    then show ?thesis using assms(3) by (auto simp: minute_matches_def)
  qed
  ultimately show ?thesis unfolding jumps_def by blast
qed

lemma next_hour_jumps:
  assumes "one_offset loc" "0 \<le> k" "\<not> matches_field (pc_hour pc) (k div 60 mod 24)"
  shows "jumps pc loc k (next_hour loc (minute_at loc k))"
proof -
  let ?n = "k div 1440"
  have n: "0 \<le> ?n" using assms(2) by (simp add: pos_imp_zdiv_nonneg_iff)
  have "next_hour loc (minute_at loc k) = minute_at loc (1440 * ?n + 60 * (k div 60 mod 24 + 1))"
    using assms(1) date_of_day [OF n, of 0] by (simp add: next_hour_def clock_minutes go_date_minute)
  also have "1440 * ?n + 60 * (k div 60 mod 24 + 1) = 60 * (k div 60 + 1)"
  proof -
    have "1440 * a + 60 * (b + 1) = 60 * (d + 1)" if "1440 * a + 60 * b + c = k" "60 * d + c = k" for a b c d :: int
      using that by simp
    then show ?thesis using minutes_of_clock [of k] mult_div_mod_eq [of 60 k] .
  qed
  finally have "next_hour loc (minute_at loc k) = minute_at loc (60 * (k div 60 + 1))" .
  moreover have "k < 60 * (k div 60 + 1)" by (rule above_div) simp
  moreover have "\<not> minute_matches pc j" if "j \<in> {k..<60 * (k div 60 + 1)}" for j
  proof -
    have "k div 60 \<le> j div 60" using that by (simp add: zdiv_mono1)
    moreover have "j div 60 < k div 60 + 1" using that by (intro div_below) simp_all
    ultimately have "j div 60 = k div 60" by simp
    then show ?thesis using assms(3) by (simp add: minute_matches_def)
  qed
  ultimately show ?thesis unfolding jumps_def by blast
qed

lemma next_minute_jumps: "\<not> minute_matches pc k \<Longrightarrow> jumps pc loc k (minute_at loc k + go_minute)"
  unfolding jumps_def
proof (intro exI [of _ "k + 1"] conjI ballI)
  show "minute_at loc k + go_minute = minute_at loc (k + 1)" by (simp add: minute_at_def go_minute_def algebra_simps)
  show "\<not> minute_matches pc j" if "\<not> minute_matches pc k" "j \<in> {k..<k + 1}" for j
  proof -
    have "j = k" using that(2) by simp
    then show ?thesis using that(1) by simp
  qed
qed simp

lemma search_step_minute:
  assumes "one_offset loc" "0 \<le> k"
  shows "case search_step pc loc (minute_at loc k) of None \<Rightarrow> minute_matches pc k | Some t \<Rightarrow> jumps pc loc k t"
  using next_month_jumps [OF assms, of pc] next_day_jumps [OF assms, of pc] next_hour_jumps [OF assms, of pc]
    next_minute_jumps [of pc k loc] assms(1)
  by (auto simp: search_step_def clock_minutes minute_matches_def)

lemma least_after:
  assumes "r = zero_time \<and> (\<forall>j \<ge> k'. at_minute j < (limit :: int) \<longrightarrow> \<not> P j)
      \<or> (\<exists>j \<ge> k'. r = at_minute j \<and> r < limit \<and> P j \<and> (\<forall>i \<in> {k'..<j}. \<not> P i))"
    and "\<And>j. k \<le> j \<Longrightarrow> (k' \<le> j \<Longrightarrow> \<not> P j) \<Longrightarrow> \<not> P j" and "k < (k' :: int)"
  shows "r = zero_time \<and> (\<forall>j \<ge> k. at_minute j < limit \<longrightarrow> \<not> P j)
      \<or> (\<exists>j \<ge> k. r = at_minute j \<and> r < limit \<and> P j \<and> (\<forall>i \<in> {k..<j}. \<not> P i))"
  using assms(1)
proof
  assume "r = zero_time \<and> (\<forall>j \<ge> k'. at_minute j < limit \<longrightarrow> \<not> P j)"
  then show ?thesis using assms(2) by blast
next
  assume "\<exists>j \<ge> k'. r = at_minute j \<and> r < limit \<and> P j \<and> (\<forall>i \<in> {k'..<j}. \<not> P i)"
  then obtain j where j: "k' \<le> j" "r = at_minute j" "r < limit" "P j" "\<forall>i \<in> {k'..<j}. \<not> P i" by blast
  have "\<not> P i" if "i \<in> {k..<j}" for i
    by (rule assms(2)) (use that j(5) in auto)
  then show ?thesis using j(1-4) assms(3) by (intro disjI2 exI [of _ j]) simp
qed

lemma next_from_least:
  assumes "one_offset loc"
  shows "0 \<le> k \<Longrightarrow> \<exists>r. next_from pc loc limit (minute_at loc k) = Some r
    \<and> (r = zero_time \<and> (\<forall>j \<ge> k. minute_at loc j < limit \<longrightarrow> \<not> minute_matches pc j)
       \<or> (\<exists>j \<ge> k. r = minute_at loc j \<and> r < limit \<and> minute_matches pc j \<and> (\<forall>i \<in> {k..<j}. \<not> minute_matches pc i)))"
proof (induction "nat (limit - minute_at loc k)" arbitrary: k rule: less_induct)
  case less
  show ?case
  proof (cases "limit \<le> minute_at loc k")
    case True
    then have "next_from pc loc limit (minute_at loc k) = Some zero_time" by (subst next_from.simps) simp
    moreover have "\<not> minute_at loc j < limit" if "k \<le> j" for j
      using True that minute_at_less [of loc j k] by linarith
    ultimately show ?thesis by blast
  next
    case inside: False
    note step = search_step_minute [OF assms less.prems, of pc]
    show ?thesis
    proof (cases "search_step pc loc (minute_at loc k)")
      case None
      then have "next_from pc loc limit (minute_at loc k) = Some (minute_at loc k)" using inside by (subst next_from.simps) simp
      moreover have "\<exists>j \<ge> k. minute_at loc k = minute_at loc j \<and> minute_at loc k < limit \<and> minute_matches pc j
          \<and> (\<forall>i \<in> {k..<j}. \<not> minute_matches pc i)"
        using step None inside by (intro exI [of _ k]) simp
      ultimately show ?thesis by blast
    next
      case (Some t)
      with step obtain k' where k': "k < k'" "t = minute_at loc k'" "\<forall>j \<in> {k..<k'}. \<not> minute_matches pc j"
        by (auto simp: jumps_def)
      have "nat (limit - minute_at loc k') < nat (limit - minute_at loc k)"
        using k'(1) minute_at_less [of loc k k'] inside by simp
      from less.hyps [OF this] k'(1) less.prems obtain r where
        rest: "next_from pc loc limit t = Some r"
          "r = zero_time \<and> (\<forall>j \<ge> k'. minute_at loc j < limit \<longrightarrow> \<not> minute_matches pc j)
           \<or> (\<exists>j \<ge> k'. r = minute_at loc j \<and> r < limit \<and> minute_matches pc j \<and> (\<forall>i \<in> {k'..<j}. \<not> minute_matches pc i))"
        using k'(2) by fastforce
      have skip: "\<not> minute_matches pc j" if "k \<le> j" "k' \<le> j \<Longrightarrow> \<not> minute_matches pc j" for j
        using that k'(3) by (cases "k' \<le> j") auto
      have "next_from pc loc limit (minute_at loc k) = Some r" using inside Some rest(1) by (subst next_from.simps) simp
      moreover from rest(2) have "r = zero_time \<and> (\<forall>j \<ge> k. minute_at loc j < limit \<longrightarrow> \<not> minute_matches pc j)
          \<or> (\<exists>j \<ge> k. r = minute_at loc j \<and> r < limit \<and> minute_matches pc j \<and> (\<forall>i \<in> {k..<j}. \<not> minute_matches pc i))"
        using skip k'(1) by (rule least_after)
      ultimately show ?thesis by blast
    qed
  qed
qed

subsection \<open>A location with one offset\<close>

lemma search_start_minute:
  assumes "one_offset loc" "0 \<le> local_day loc t"
  shows "search_start loc t = minute_at loc (local_minutes loc t + 1)"
proof -
  let ?k = "local_minutes loc t"
  have "day_number (year_of (local_day loc t)) (month_of (local_day loc t)) (day_of (local_day loc t)) = local_day loc t"
    using date_of_day [OF assms(2), of 0] by simp
  then have "search_start loc t = minute_at loc (1440 * (?k div 1440) + 60 * (?k div 60 mod 24) + ?k mod 60) + go_minute"
    by (simp only: search_start_def go_date_minute [OF assms(1)] fst_conv snd_conv clock_minutes)
  also have "\<dots> = minute_at loc ?k + go_minute" by (simp only: minutes_of_clock)
  also have "\<dots> = minute_at loc (?k + 1)" by (simp add: minute_at_def go_minute_def algebra_simps)
  finally show ?thesis .
qed

lemma minute_after:
  assumes "one_offset loc"
  shows "t < minute_at loc k \<longleftrightarrow> local_minutes loc t + 1 \<le> k"
proof -
  let ?n = "t div go_second"
  have t: "t = go_second * ?n + t mod go_second" "0 \<le> t mod go_second" "t mod go_second < go_second"
    using go_second_pos by simp_all
  have "t < m * go_second \<longleftrightarrow> ?n < m" for m
  proof
    assume "?n < m"
    then have "go_second * (?n + 1) \<le> go_second * m" using less_imp_le [OF go_second_pos] by (intro mult_left_mono) auto
    then have "go_second * ?n + go_second \<le> m * go_second" by (simp add: algebra_simps)
    then show "t < m * go_second" using t by linarith
  next
    assume "t < m * go_second"
    then show "?n < m" by (intro div_below) (simp_all add: mult.commute)
  qed
  then have "t < minute_at loc k \<longleftrightarrow> ?n < 60 * k - lc_offset loc" unfolding minute_at_def .
  also have "\<dots> \<longleftrightarrow> ?n + lc_offset loc < 60 * k" by (rule less_diff_eq)
  also have "\<dots> \<longleftrightarrow> (?n + lc_offset loc) div 60 < k"
    by (rule div_below_iff [symmetric]) simp
  finally show ?thesis by (simp only: add1_zle_eq local_minutes_def one_offset_seconds [OF assms])
qed

lemma next_run_least:
  assumes "one_offset loc" "0 \<le> local_day loc t" "0 \<le> t"
  shows "\<exists>r. next_run pc loc t = Some r \<and>
    (if r = zero_time then \<forall>u. t < u \<and> u < t + 730 * 24 * 60 * go_minute \<longrightarrow> \<not> cron_due pc loc u
     else t < r \<and> r < t + 730 * 24 * 60 * go_minute \<and> cron_due pc loc r \<and> (\<forall>u. t < u \<and> u < r \<longrightarrow> \<not> cron_due pc loc u))"
proof -
  let ?k = "local_minutes loc t + 1" and ?limit = "t + 730 * 24 * 60 * go_minute"
  have "0 \<le> ?k" using assms(2) by (simp add: clock_minutes pos_imp_zdiv_nonneg_iff)
  from next_from_least [OF assms(1) this, of pc ?limit] obtain r where
    run: "next_run pc loc t = Some r" and
    least: "r = zero_time \<and> (\<forall>j \<ge> ?k. minute_at loc j < ?limit \<longrightarrow> \<not> minute_matches pc j)
      \<or> (\<exists>j \<ge> ?k. r = minute_at loc j \<and> r < ?limit \<and> minute_matches pc j \<and> (\<forall>i \<in> {?k..<j}. \<not> minute_matches pc i))"
    by (auto simp: next_run_def search_start_minute [OF assms(1,2)])
  note after = minute_after [OF assms(1), of t] and due = due_minute_at [OF assms(1), of pc]
  from least show ?thesis
  proof
    assume none: "r = zero_time \<and> (\<forall>j \<ge> ?k. minute_at loc j < ?limit \<longrightarrow> \<not> minute_matches pc j)"
    then have "\<not> cron_due pc loc u" if "t < u \<and> u < ?limit" for u using that after due by auto
    then show ?thesis using run none by (intro exI [of _ r]) simp
  next
    assume "\<exists>j \<ge> ?k. r = minute_at loc j \<and> r < ?limit \<and> minute_matches pc j \<and> (\<forall>i \<in> {?k..<j}. \<not> minute_matches pc i)"
    then obtain j where j: "?k \<le> j" "r = minute_at loc j" "r < ?limit" "minute_matches pc j" "\<forall>i \<in> {?k..<j}. \<not> minute_matches pc i"
      by blast
    have "t < r" using j(1,2) after by blast
    moreover have "cron_due pc loc r" using j(2,4) due by blast
    moreover have "\<not> cron_due pc loc u" if u: "t < u \<and> u < r" for u
    proof
      assume "cron_due pc loc u"
      then obtain i where i: "u = minute_at loc i" "minute_matches pc i" using due by blast
      then show False using u j(2,5) after minute_at_less [of loc i j] by auto
    qed
    ultimately show ?thesis using run j(3) assms(3) by (intro exI [of _ r]) (simp add: zero_time_def)
  qed
qed

subsection \<open>Parsing\<close>

definition int64_range :: "int \<Rightarrow> bool" where
  "int64_range v \<longleftrightarrow> - (2 ^ 63) \<le> v \<and> v < 2 ^ 63"

lemma int64_in_range: "int64_range (int64 v)"
  using pos_mod_bound [of "2 ^ 64" "v + 2 ^ 63"] pos_mod_sign [of "2 ^ 64" "v + 2 ^ 63"]
  by (simp add: int64_range_def int64_def)

lemma cron_digits_range: "int64_range v \<Longrightarrow> cron_digits v s = Some w \<Longrightarrow> int64_range w"
  by (induction v s rule: cron_digits.induct) (auto simp: int64_in_range split: if_splits)

lemma parse_cron_int_range: "parse_cron_int s = Some v \<Longrightarrow> int64_range v"
  using cron_digits_range [of 0 "trim_space s" v] by (auto simp: parse_cron_int_def int64_range_def split: if_splits)

lemma int64_small: "int64_range v \<Longrightarrow> int64 v = v"
  using int64_id by (simp add: int64_range_def)

text \<open>Counting in steps that do not overflow.\<close>

lemma step_values_plain:
  assumes "0 < step" "step + hi < 2 ^ 63"
  shows "- (2 ^ 63) \<le> v \<Longrightarrow> v \<le> hi + step \<Longrightarrow>
    \<exists>new. step_values hi step v vs = Some (vs @ new) \<and> (\<forall>x \<in> set new. v \<le> x \<and> x \<le> hi) \<and> (v \<le> hi \<longrightarrow> v \<in> set new)"
proof (induction "nat (hi + 1 - v)" arbitrary: v vs rule: less_induct)
  case less
  show ?case
  proof (cases "v \<le> hi")
    case True
    have "int64 (v + step) = v + step" using less.prems(1) True assms by (intro int64_id) auto
    moreover have "nat (hi + 1 - (v + step)) < nat (hi + 1 - v)" using True assms(1) by simp
    from less.hyps [OF this, of "vs @ [v]"] obtain new where
      "step_values hi step (v + step) (vs @ [v]) = Some ((vs @ [v]) @ new)" "\<forall>x \<in> set new. v + step \<le> x \<and> x \<le> hi"
      using True assms less.prems by auto
    ultimately show ?thesis
      using True assms(1) by (subst step_values.simps) (auto intro!: exI [of _ "v # new"])
  qed (subst step_values.simps, simp)
qed

text \<open>
  The largest steps: the second value is past the end of the field, or has wrapped around and is followed
  by a few negative ones.
\<close>

lemma step_values_ends:
  assumes "0 < step" "step < 2 ^ 63" "lo = 0 \<or> lo = 1" "lo \<le> hi" "hi < 60"
  shows "\<exists>new. step_values hi step lo [] = Some new \<and> lo \<in> set new \<and> (\<forall>x \<in> set new. 0 \<le> x \<longrightarrow> lo \<le> x \<and> x \<le> hi)"
proof -
  consider "step + hi < 2 ^ 63" | "2 ^ 63 \<le> step + hi" "lo + step < 2 ^ 63" | "lo = 1" "step = 2 ^ 63 - 1"
    using assms(2,3) by fastforce
  then show ?thesis
  proof cases
    case 1
    then show ?thesis using step_values_plain [OF assms(1) 1, of lo "[]"] assms by auto
  next
    case 2
    have "int64 (lo + step) = lo + step" using 2 assms by (intro int64_id) auto
    moreover have "hi < lo + step" using 2(1) assms(3,5) by auto
    ultimately show ?thesis using assms(4)
      by (subst step_values.simps, subst step_values.simps) simp
  next
    case 3
    have "int64 (1 + step) = - (2 ^ 63)" "int64 (- (2 ^ 63) + step) = - 1" "int64 (- 1 + step) = 2 ^ 63 - 2"
      by (simp_all add: 3(2) int64_def)
    then show ?thesis using assms(4,5) 3
      by (subst step_values.simps, subst step_values.simps, subst step_values.simps, subst step_values.simps) simp
  qed
qed

text \<open>A field that was parsed: no value a clock can show is outside its bounds, and some value is inside.\<close>

definition field_ok :: "int \<times> int \<Rightarrow> cron_field \<Rightarrow> bool" where
  "field_ok bounds f \<longleftrightarrow>
     (\<forall>v \<in> set (cf_values f). 0 \<le> v \<longrightarrow> fst bounds \<le> v \<and> v \<le> snd bounds) \<and> (\<exists>v \<in> set (cf_values f). fst bounds \<le> v \<and> v \<le> snd bounds)"

lemma add_seen_set: "set (add_seen new vs) = set new \<union> set vs"
  by (induction new arbitrary: vs) (auto simp: add_seen_def)

lemma cron_part_bounds: "cron_part_values bounds part = Inr vs \<Longrightarrow> set vs \<subseteq> {fst bounds..snd bounds}"
  by (auto simp: cron_part_values_def Let_def split: if_splits option.splits)

lemma cron_list_bounds:
  "cron_list_values bounds parts vs = Inr ws \<Longrightarrow> set vs \<subseteq> {fst bounds..snd bounds} \<Longrightarrow> ws \<noteq> [] \<and> set ws \<subseteq> {fst bounds..snd bounds}"
proof (induction parts arbitrary: vs)
  case (Cons part parts)
  then show ?case using cron_part_bounds [of bounds part]
    by (auto simp: add_seen_set split: sum.splits)
qed (auto split: if_splits)

lemma parse_field_ends:
  assumes "fst bounds = 0 \<or> fst bounds = 1" "fst bounds \<le> snd bounds" "snd bounds < 60"
  shows "\<exists>r. parse_cron_field field bounds = Some r \<and> (\<forall>f. r = Inr f \<longrightarrow> field_ok bounds f)"
proof -
  consider "field = ''*''" | "field \<noteq> ''*''" "has_prefix field ''*/''" | "field \<noteq> ''*''" "\<not> has_prefix field ''*/''" by blast
  then show ?thesis
  proof cases
    case 1
    then show ?thesis using assms(2) by (auto simp: parse_cron_field_def field_ok_def)
  next
    case 2
    show ?thesis
    proof (cases "parse_cron_int (drop 2 field)")
      case (Some step)
      then have "step < 2 ^ 63" using parse_cron_int_range by (simp add: int64_range_def)
      then show ?thesis using 2 Some step_values_ends [of step "fst bounds" "snd bounds"] assms
        by (fastforce simp: parse_cron_field_def field_ok_def)
    qed (use 2 in \<open>simp add: parse_cron_field_def\<close>)
  next
    case 3
    then show ?thesis using cron_list_bounds [of bounds "split_at (CHR '','') field" "[]"]
      by (cases "cron_list_values bounds (split_at (CHR '','') field) []")
        (auto simp: parse_cron_field_def field_ok_def neq_Nil_conv)
  qed
qed

subsection \<open>A gap at midnight\<close>

text \<open>A search that comes back to where it is never returns.\<close>

lemma next_from_raw:
  assumes "next_from pc loc limit t = Some r"
  shows "search_step pc loc t = Some t \<longrightarrow> limit \<le> t"
  by (rule next_from.raw_induct [where P = "\<lambda>pc loc limit t r. search_step pc loc t = Some t \<longrightarrow> limit \<le> t", OF _ assms])
    (auto split: if_splits)

lemma stuck_search:
  assumes "search_step pc loc s = Some s" "s < limit"
  shows "next_from pc loc limit s = None"
  using next_from_raw [of pc loc limit s] assms by (cases "next_from pc loc limit s") auto

text \<open>
  A location west of UTC whose clocks move forward from the offset \<open>a\<close> to \<open>b\<close> at the midnight (moment \<open>w\<close>)
  that begins day \<open>d\<close>. It may have moved them before and may move them after; \<open>a\<close> has held for long enough
  that it also holds when the local times of the day before are read as UTC.
\<close>

definition midnight_gap :: "location \<Rightarrow> int \<Rightarrow> int \<Rightarrow> int \<Rightarrow> int \<Rightarrow> bool" where
  "midnight_gap loc a b w d \<longleftrightarrow>
     sorted (List.map fst (lc_moves loc)) \<and> fst (zone_at loc w) = b
   \<and> (case zone_at loc (w - 1) of
        (x, since, till) \<Rightarrow> x = a \<and> till = Some w \<and> (case since of None \<Rightarrow> True | Some s \<Rightarrow> s \<le> w + a - 86400))
   \<and> a < 0 \<and> a < b \<and> b < a + 86400 \<and> w + a = 86400 * d \<and> 1 \<le> d"

lemma zone_since:
  "zone_from (Some v) x ms u = (a, s, t) \<Longrightarrow> k \<le> v \<Longrightarrow> \<forall>m \<in> set ms. k \<le> fst m \<Longrightarrow> \<exists>r. s = Some r \<and> k \<le> r"
  by (induction "Some v" x ms u arbitrary: v rule: zone_from.induct) (auto split: if_splits)

lemma zone_period:
  "sorted (List.map fst ms) \<Longrightarrow> zone_from s0 x ms u = (a, s, Some w) \<Longrightarrow> (case s of None \<Rightarrow> True | Some r \<Rightarrow> r \<le> v) \<Longrightarrow> v < w
   \<Longrightarrow> zone_from s0 x ms v = (a, s, Some w)"
proof (induction s0 x ms u rule: zone_from.induct)
  case (2 s0 x m y ms u)
  show ?case
  proof (cases "u < m")
    case False
    then have rest: "zone_from (Some m) y ms u = (a, s, Some w)" using 2(3) by simp
    then obtain r where "s = Some r" "m \<le> r" using zone_since [OF rest order_refl] 2(2) by auto
    then have "\<not> v < m" using 2(4) by simp
    with 2(1) [OF False _ rest 2(4,5)] 2(2) show ?thesis by simp
  qed (use 2 in auto)
qed simp

lemma midnight_gapD:
  assumes "midnight_gap loc a b w d"
  shows "a < 0" "a < b" "b < a + 86400" "w + a = 86400 * d" "1 \<le> d" and "fst (zone_at loc w) = b"
    and "\<And>u. w + a - 86400 \<le> u \<Longrightarrow> u < w
      \<Longrightarrow> \<exists>s. zone_at loc u = (a, s, Some w) \<and> (case s of None \<Rightarrow> True | Some r \<Rightarrow> r \<le> w + a - 86400)"
proof -
  show "a < 0" "a < b" "b < a + 86400" "w + a = 86400 * d" "1 \<le> d" "fst (zone_at loc w) = b"
    using assms by (simp_all add: midnight_gap_def)
  fix u :: int
  assume u: "w + a - 86400 \<le> u" "u < w"
  obtain s where s: "zone_at loc (w - 1) = (a, s, Some w)" "case s of None \<Rightarrow> True | Some r \<Rightarrow> r \<le> w + a - 86400"
    using assms unfolding midnight_gap_def by (auto split: prod.splits)
  then have "case s of None \<Rightarrow> True | Some r \<Rightarrow> r \<le> u" using u(1) by (auto split: option.splits)
  moreover have "sorted (List.map fst (lc_moves loc))" using assms by (simp add: midnight_gap_def)
  ultimately have "zone_at loc u = (a, s, Some w)" using s(1) u(2) unfolding zone_at_def by (blast intro: zone_period)
  with s(2) show "\<exists>s. zone_at loc u = (a, s, Some w) \<and> (case s of None \<Rightarrow> True | Some r \<Rightarrow> r \<le> w + a - 86400)" by blast
qed

text \<open>Midnight does not exist; \<open>time.Date\<close> answers with a moment of the day before.\<close>

lemma to_midnight:
  assumes "midnight_gap loc a b w d"
  shows "from_local loc (86400 * d) = w + a - b"
proof -
  note gap = midnight_gapD [OF assms]
  have l: "86400 * d = w + a" "w + a < w" using gap(1,4) by auto
  obtain s where "zone_at loc (w + a) = (a, s, Some w)" using gap(7) [of "w + a"] l by auto
  then show ?thesis using gap(1,6) l by (simp add: from_local_def)
qed

lemma from_earlier:
  assumes "midnight_gap loc a b w d" "w + a - 86400 \<le> l" "l < w + a"
  shows "from_local loc l = l - a"
proof -
  note gap = midnight_gapD [OF assms(1)]
  obtain s where "zone_at loc l = (a, s, Some w)" "case s of None \<Rightarrow> True | Some r \<Rightarrow> r \<le> w + a - 86400"
    using gap(7) [OF assms(2)] gap(1) assms(3) by auto
  then show ?thesis using gap(1) assms(2,3) by (auto simp: from_local_def split: option.splits)
qed

lemma last_day:
  assumes "midnight_gap loc a b w d" "w - 86400 \<le> t div go_second" "t div go_second < w"
  shows "local_seconds loc t = t div go_second + a" "local_day loc t = d - 1"
proof -
  note gap = midnight_gapD [OF assms(1)]
  have "w + a - 86400 \<le> t div go_second" using gap(1) assms(2) by linarith
  from gap(7) [OF this assms(3)] obtain s where "zone_at loc (t div go_second) = (a, s, Some w)" by blast
  then show seconds: "local_seconds loc t = t div go_second + a" by (simp add: local_seconds_def)
  have "(t div go_second + a) div 86400 = d - 1"
    by (rule int_div_pos_eq [where r = "t div go_second + a - 86400 * (d - 1)"]) (use assms gap(4) in auto)
  then show "local_day loc t = d - 1" by (simp only: local_day_def seconds)
qed

lemma next_day_stuck:
  assumes "midnight_gap loc a b w d" "w - 86400 \<le> t div go_second" "t div go_second < w"
  shows "next_day loc t = (w + a - b) * go_second"
  using date_of_day [of "d - 1" 1] midnight_gapD(5) [OF assms(1)] to_midnight [OF assms(1)]
  by (simp add: next_day_def go_date_def last_day(2) [OF assms] mult.commute [of d])

lemma step_stuck:
  assumes "midnight_gap loc a b w d" "w - 86400 \<le> t div go_second" "t div go_second < w"
    and "matches_field (pc_month pc) (month_of (d - 1))"
    and "\<not> (matches_field (pc_day pc) (day_of (d - 1)) \<and> matches_field (pc_weekday pc) (weekday_of (d - 1)))"
  shows "search_step pc loc t = Some ((w + a - b) * go_second)"
  using assms(4,5) next_day_stuck [OF assms(1-3)] by (auto simp: search_step_def last_day(2) [OF assms(1-3)])

lemma start_in_last_day:
  assumes "midnight_gap loc a b w d" "w - 86400 \<le> t div go_second" "t div go_second < w - 60"
  shows "w - 86400 \<le> search_start loc t div go_second \<and> search_start loc t div go_second < w"
proof -
  have "t div go_second < w" using assms(3) by simp
  note seconds = last_day(1) [OF assms(1,2) this] and day = last_day(2) [OF assms(1,2) this]
  let ?k = "local_minutes loc t"
  have minute: "60 * ?k \<le> t div go_second + a" "t div go_second + a < 60 * ?k + 60"
    using mult_div_mod_eq [of 60 "t div go_second + a"] pos_mod_bound [of 60 "t div go_second + a"]
      pos_mod_sign [of 60 "t div go_second + a"]
    unfolding local_minutes_def seconds by linarith+
  have "1440 * (?k div 1440) + 60 * (?k div 60 mod 24) + ?k mod 60 = ?k" by (rule minutes_of_clock)
  then have "(?k div 1440) * 86400 + (?k div 60 mod 24) * 3600 + (?k mod 60) * 60 = 60 * ?k" by linarith
  moreover have "day_number (year_of (d - 1)) (month_of (d - 1)) (day_of (d - 1)) = ?k div 1440"
    using date_of_day [of "d - 1" 0] midnight_gapD(5) [OF assms(1)] day by (simp add: clock_minutes)
  ultimately have "search_start loc t = from_local loc (60 * ?k) * go_second + go_minute"
    by (simp only: search_start_def go_date_def fst_conv snd_conv day clock_minutes(2,3))
  also have "from_local loc (60 * ?k) = 60 * ?k - a"
  proof (rule from_earlier [OF assms(1)])
    have "60 * (1440 * (d - 1)) < 60 * (?k + 1)" using minute(2) assms(2) midnight_gapD(4) [OF assms(1)] by (simp add: algebra_simps)
    then have "1440 * (d - 1) \<le> ?k" by simp
    then show "w + a - 86400 \<le> 60 * ?k" using midnight_gapD(4) [OF assms(1)] by simp
  qed (use minute assms(3) in simp)
  also have "(60 * ?k - a) * go_second + go_minute = (60 * ?k - a + 60) * go_second" by (simp add: go_minute_def algebra_simps)
  finally have "search_start loc t div go_second = 60 * ?k - a + 60" by simp
  then show ?thesis using minute assms by auto
qed

lemma gap_hangs:
  assumes "midnight_gap loc a b w d" "w - 86400 \<le> t div go_second" "t div go_second < w - 60"
    and "matches_field (pc_month pc) (month_of (d - 1))"
    and "\<not> (matches_field (pc_day pc) (day_of (d - 1)) \<and> matches_field (pc_weekday pc) (weekday_of (d - 1)))"
  shows "next_run pc loc t = None"
proof -
  let ?limit = "t + 2 * 365 * 24 * 60 * go_minute" and ?s = "(w + a - b) * go_second"
  note gap = midnight_gapD [OF assms(1)]
  have "go_second * (w - 86400) \<le> go_second * (t div go_second)" using assms(2) less_imp_le [OF go_second_pos] by (rule mult_left_mono)
  also have "\<dots> \<le> t" using mult_div_mod_eq [of go_second t] pos_mod_sign [OF go_second_pos, of t] by linarith
  finally have "go_second * w - go_second * 86400 \<le> t" by (simp add: right_diff_distrib)
  moreover have "?limit = t + go_second * 63072000" by (simp add: go_minute_def)
  ultimately have limit: "go_second * w < ?limit" using go_second_pos by linarith
  have small: "u < ?limit" if "u div go_second < w" for u
    using that limit div_below_iff [OF go_second_pos, of u w] by linarith
  have stuck: "w - 86400 \<le> ?s div go_second" "?s div go_second < w"
    using gap(2,3) by simp_all
  note start = start_in_last_day [OF assms(1-3)]
  have "\<not> ?limit \<le> search_start loc t" using small [OF conjunct2 [OF start]] by simp
  then have "next_run pc loc t = next_from pc loc ?limit ?s"
    using step_stuck [OF assms(1) conjunct1 [OF start] conjunct2 [OF start] assms(4,5)]
    by (simp add: next_run_def next_from.simps [of _ _ _ "search_start loc t"])
  also have "\<dots> = None" by (rule stuck_search [OF step_stuck [OF assms(1) stuck assms(4,5)] small [OF stuck(2)]])
  finally show ?thesis .
qed

subsection \<open>The properties of the triggers\<close>

text \<open>
  C25. The next run of an enabled trigger is the first one due. In a location with one offset, from any
  moment \<open>t\<close> on, \<open>CalculateNextRun\<close> returns: either the first moment after \<open>t\<close> that is a whole minute and
  matches all five fields of the expression, which is then less than 730 days away, or the error that
  says that no moment of those 730 days does. Nothing that matches is lost in the jumps to the next
  month, day and hour.
\<close>

theorem cron_next_is_least:
  assumes "sg_enabled g" and "parse_cron (sg_cron g) = Some (Inr pc)" and "loc = trigger_location zones g"
    and "one_offset loc" and "0 \<le> t" and "0 \<le> local_day loc t"
  shows "\<exists>r. calculate_next_run zones g t = Some r \<and>
    (case r of
       Inl e \<Rightarrow> e = CeNoRun \<and> (\<forall>u. t < u \<and> u < t + 730 * 24 * 60 * go_minute \<longrightarrow> \<not> cron_due pc loc u)
     | Inr n \<Rightarrow> t < n \<and> n < t + 730 * 24 * 60 * go_minute \<and> cron_due pc loc n \<and> (\<forall>u. t < u \<and> u < n \<longrightarrow> \<not> cron_due pc loc u))"
  using next_run_least [OF assms(4,6,5), of pc] assms(1-3) by (auto simp: calculate_next_run_def split: if_splits)

text \<open>
  C26. In a location with one offset from UTC at all times: once an enabled trigger with a valid expression
  has been marked as executed at \<open>t\<close> (a moment of the years counted from 1, also as a local day) and the mark
  returned no error, it should run at a later moment exactly when a due minute has come since \<open>t\<close>: no due
  minute is missed and it does not run again before one. (Where the clocks are moved the search may skip
  minutes or not return.)
\<close>

theorem trigger_runs_when_due:
  assumes "sg_enabled g" and "parse_cron (sg_cron g) = Some (Inr pc)" and "loc = trigger_location zones g"
    and "one_offset loc" and "0 \<le> t" and "0 \<le> local_day loc t" and "mark_executed zones g t = Some (g', None)"
  shows "sg_last g' = Some t \<and> (should_run g' now \<longleftrightarrow> (\<exists>u. t < u \<and> u \<le> now \<and> cron_due pc loc u))"
proof -
  obtain r where r: "next_run pc loc t = Some r"
    "r \<noteq> zero_time \<Longrightarrow> t < r \<and> cron_due pc loc r \<and> (\<forall>u. t < u \<and> u < r \<longrightarrow> \<not> cron_due pc loc u)"
    using next_run_least [OF assms(4,6,5), of pc] by auto
  have loc: "trigger_location zones (g\<lparr>sg_last := Some t\<rparr>) = loc" by (simp add: trigger_location_def assms(3))
  have "r \<noteq> zero_time \<and> g' = g\<lparr>sg_last := Some t, sg_next := Some r\<rparr>"
    using assms(1,2,7) r(1) loc by (auto simp: mark_executed_def calculate_next_run_def Let_def split: if_splits)
  then have g': "should_run g' now \<longleftrightarrow> r \<le> now" "sg_last g' = Some t" and r': "t < r" "cron_due pc loc r"
    "\<And>u. t < u \<Longrightarrow> u < r \<Longrightarrow> \<not> cron_due pc loc u"
    using r(2) assms(1) by (auto simp: should_run_def)
  have "r \<le> now \<longleftrightarrow> (\<exists>u. t < u \<and> u \<le> now \<and> cron_due pc loc u)"
  proof
    assume "\<exists>u. t < u \<and> u \<le> now \<and> cron_due pc loc u"
    then obtain u where "t < u" "u \<le> now" "cron_due pc loc u" by blast
    then show "r \<le> now" using r'(3) [of u] by force
  qed (use r' in blast)
  then show ?thesis using g' by simp
qed

text \<open>What parsing promises of the five fields.\<close>

definition formed_cron :: "parsed_cron \<Rightarrow> bool" where
  "formed_cron pc \<longleftrightarrow> field_ok (0, 59) (pc_minute pc) \<and> field_ok (0, 23) (pc_hour pc) \<and> field_ok (1, 31) (pc_day pc)
     \<and> field_ok (1, 12) (pc_month pc) \<and> field_ok (0, 6) (pc_weekday pc)"

lemma cron_step_ends:
  assumes "fst bounds = 0 \<or> fst bounds = 1" "fst bounds \<le> snd bounds" "snd bounds < 60"
    and "\<And>f. field_ok bounds f \<Longrightarrow> \<exists>r. k f = Some r \<and> (\<forall>pc. r = Inr pc \<longrightarrow> P pc)"
  shows "\<exists>r. cron_step part field bounds k = Some r \<and> (\<forall>pc. r = Inr pc \<longrightarrow> P pc)"
  using parse_field_ends [OF assms(1-3), of field] assms(4) by (auto simp: cron_step_def split: sum.split)

text \<open>
  C27. Parsing a cron expression ends for every string, also for a step so large that the counter wraps
  around, and a result is well formed: in each of the five fields some value is within the bounds of the
  field and no value a clock can show is outside them.
\<close>

theorem cron_parsing_ends:
  "\<exists>r. parse_cron expr = Some r \<and> (case r of Inl _ \<Rightarrow> True | Inr pc \<Rightarrow> formed_cron pc)"
proof -
  have "\<exists>r. parse_cron expr = Some r \<and> (\<forall>pc. r = Inr pc \<longrightarrow> formed_cron pc)"
    unfolding parse_cron_def Let_def
    by (cases "trim_space expr = []"; cases "length (string_fields [] (trim_space expr)) = 5")
      (auto intro!: cron_step_ends simp: formed_cron_def)
  then show ?thesis by (auto split: sum.split)
qed

text \<open>
  C28. The search for the next run may never return. Take a location west of UTC whose clocks go forward, by
  less than a day, at the midnight that begins day \<open>d\<close>, and are not moved in the day before nor in as many
  hours before that as the location lies west (they may be moved at other times), a moment of the 24 hours
  before that midnight that is not in their last minute, and an expression that matches the month of that day but not
  the day itself (its day of the month or its weekday). Then \<open>CalculateNextRun\<close> runs for ever: \<open>time.Date\<close>
  has no midnight to give for the next day and answers with a moment of the same day, to which the search
  returns again and again.
\<close>

theorem midnight_gap_hangs:
  assumes "sg_enabled g" and "parse_cron (sg_cron g) = Some (Inr pc)" and "midnight_gap (trigger_location zones g) a b w d"
    and "w - 86400 \<le> t div go_second" and "t div go_second < w - 60"
    and "matches_field (pc_month pc) (month_of (d - 1))"
    and "\<not> (matches_field (pc_day pc) (day_of (d - 1)) \<and> matches_field (pc_weekday pc) (weekday_of (d - 1)))"
  shows "calculate_next_run zones g t = None"
  using gap_hangs [OF assms(3-7)] assms(1,2) by (simp add: calculate_next_run_def)

subsection \<open>Concrete runs\<close>

text \<open>Mondays at nine, from noon of Saturday, 8 March 2025 (UTC); and the clocks of Havana from 2024 to 2025.\<close>

definition saturday_noon :: gotime where
  "saturday_noon = 63877032000 * go_second"

definition monday_nine :: gotime where
  "monday_nine = 63877194000 * go_second"

definition mondays :: "string \<Rightarrow> nat schedule_trigger" where
  "mondays zone = \<lparr>sg_id = ''t1'', sg_name = ''weekly'', sg_cron = ''0 9 * * 1'', sg_zone = zone, sg_enabled = True,
     sg_last = None, sg_next = None, sg_definition = None\<rparr>"

definition havana :: location where
  "havana = \<lparr>lc_offset = - 14400,
     lc_moves = [(63866206800, - 18000), (63877093200, - 14400), (63897656400, - 18000)]\<rparr>"

definition sample_zones :: "string \<Rightarrow> location option" where
  "sample_zones name = (if name = ''America/Havana'' then Some havana else None)"

definition mondays_parsed :: parsed_cron where
  "mondays_parsed = \<lparr>pc_minute = \<lparr>cf_values = [0], cf_wild = False\<rparr>, pc_hour = \<lparr>cf_values = [9], cf_wild = False\<rparr>,
     pc_day = \<lparr>cf_values = [1..31], cf_wild = True\<rparr>, pc_month = \<lparr>cf_values = [1..12], cf_wild = True\<rparr>,
     pc_weekday = \<lparr>cf_values = [1], cf_wild = False\<rparr>, pc_raw = ''0 9 * * 1''\<rparr>"

lemma number_fields:
  "parse_cron_field ''0'' (0, 59) = Some (Inr \<lparr>cf_values = [0], cf_wild = False\<rparr>)"
  "parse_cron_field ''9'' (0, 23) = Some (Inr \<lparr>cf_values = [9], cf_wild = False\<rparr>)"
  "parse_cron_field ''1'' (0, 6) = Some (Inr \<lparr>cf_values = [1], cf_wild = False\<rparr>)"
  by (simp_all add: parse_cron_field_def cron_part_values_def parse_cron_int_def trim_space_def is_space_def
    add_seen_def int64_def)

lemma mondays_parse: "parse_cron ''0 9 * * 1'' = Some (Inr mondays_parsed)"
proof -
  have "trim_space ''0 9 * * 1'' = ''0 9 * * 1''" by code_simp
  moreover have "string_fields [] ''0 9 * * 1'' = [''0'', ''9'', ''*'', ''*'', ''1'']" by code_simp
  ultimately show ?thesis
    by (simp add: parse_cron_def cron_step_def number_fields mondays_parsed_def) (simp add: parse_cron_field_def)
qed

lemma saturday_day: "year_of 739317 = 2025" "month_of 739317 = 3" "day_of 739317 = 8" "weekday_of 739317 = 6"
  by (simp_all add: year_of_def year_from.simps days_before_year_def month_of_def year_day_def day_of_def weekday_of_def
    days_before_month_def leap_def)

lemma monday_day: "year_of 739319 = 2025" "month_of 739319 = 3" "day_of 739319 = 10" "weekday_of 739319 = 1"
  by (simp_all add: year_of_def year_from.simps days_before_year_def month_of_def year_day_def day_of_def weekday_of_def
    days_before_month_def leap_def)

lemma monday_due: "cron_due mondays_parsed utc_location monday_nine"
proof -
  have seconds: "local_seconds utc_location monday_nine = 63877194000"
    by (simp add: one_offset_seconds one_offset_def utc_location_def monday_nine_def)
  then have clock: "local_day utc_location monday_nine = 739319" "local_hour utc_location monday_nine = 9"
    "local_minute utc_location monday_nine = 0"
    by (simp_all add: local_day_def local_hour_def local_minute_def)
  show ?thesis unfolding cron_due_def clock monday_day seconds
    by (simp add: matches_field_def mondays_parsed_def list_ex_iff monday_nine_def)
qed

lemma utc_mondays: "trigger_location sample_zones (mondays ''UTC'') = utc_location"
  by (simp add: trigger_location_def mondays_def sample_zones_def trim_space_def is_space_def)

lemma saturday_fits: "one_offset utc_location" "0 \<le> saturday_noon" "0 \<le> local_day utc_location saturday_noon"
  by (simp_all add: one_offset_def utc_location_def saturday_noon_def local_day_def local_seconds_def zone_at_def go_second_def)

lemma before_monday: "saturday_noon < monday_nine" "monday_nine < saturday_noon + 730 * 24 * 60 * go_minute"
  by (simp_all add: saturday_noon_def monday_nine_def go_minute_def go_second_def)

theorem cron_next_is_least_witness:
  "\<exists>n. calculate_next_run sample_zones (mondays ''UTC'') saturday_noon = Some (Inr n)
     \<and> saturday_noon < n \<and> n \<le> monday_nine \<and> cron_due mondays_parsed utc_location n"
proof -
  have "sg_enabled (mondays ''UTC'')" "parse_cron (sg_cron (mondays ''UTC'')) = Some (Inr mondays_parsed)"
    by (simp_all add: mondays_def mondays_parse)
  from cron_next_is_least [OF this utc_mondays [symmetric] saturday_fits] obtain r where
    r: "calculate_next_run sample_zones (mondays ''UTC'') saturday_noon = Some r" and
    least: "case r of
       Inl e \<Rightarrow> e = CeNoRun \<and> (\<forall>u. saturday_noon < u \<and> u < saturday_noon + 730 * 24 * 60 * go_minute \<longrightarrow> \<not> cron_due mondays_parsed utc_location u)
     | Inr n \<Rightarrow> saturday_noon < n \<and> n < saturday_noon + 730 * 24 * 60 * go_minute \<and> cron_due mondays_parsed utc_location n
         \<and> (\<forall>u. saturday_noon < u \<and> u < n \<longrightarrow> \<not> cron_due mondays_parsed utc_location u)"
    by blast
  show ?thesis
  proof (cases r)
    case (Inl e)
    then show ?thesis using least before_monday monday_due by auto
  next
    case (Inr n)
    then have "\<not> monday_nine < n" using least before_monday(1) monday_due by auto
    then show ?thesis using r least Inr by auto
  qed
qed

lemma location_kept: "trigger_location zones (g\<lparr>sg_last := t\<rparr>) = trigger_location zones g"
  by (simp add: trigger_location_def)

theorem trigger_runs_when_due_witness:
  "\<exists>g. mark_executed sample_zones (mondays ''UTC'') saturday_noon = Some (g, None)
     \<and> should_run g monday_nine \<and> \<not> should_run g saturday_noon"
proof -
  let ?g = "mondays ''UTC''"
  have g: "sg_enabled ?g" "parse_cron (sg_cron ?g) = Some (Inr mondays_parsed)"
    by (simp_all add: mondays_def mondays_parse)
  obtain r where r: "next_run mondays_parsed utc_location saturday_noon = Some r" "r \<noteq> zero_time"
    using next_run_least [OF saturday_fits(1,3,2), of mondays_parsed] before_monday monday_due by (auto split: if_splits)
  have "trigger_location sample_zones (?g\<lparr>sg_last := Some saturday_noon\<rparr>) = utc_location"
    unfolding location_kept by (rule utc_mondays)
  then have marked: "mark_executed sample_zones ?g saturday_noon = Some (?g\<lparr>sg_last := Some saturday_noon, sg_next := Some r\<rparr>, None)"
    using g r by (simp add: mark_executed_def calculate_next_run_def Let_def)
  note run = trigger_runs_when_due [OF g utc_mondays [symmetric] saturday_fits marked]
  have "should_run (?g\<lparr>sg_last := Some saturday_noon, sg_next := Some r\<rparr>) monday_nine"
    using run [of monday_nine] before_monday(1) monday_due by blast
  moreover have "\<not> should_run (?g\<lparr>sg_last := Some saturday_noon, sg_next := Some r\<rparr>) saturday_noon"
    using run [of saturday_noon] by auto
  ultimately show ?thesis using marked by blast
qed

theorem midnight_gap_hangs_witness: "calculate_next_run sample_zones (mondays ''America/Havana'') saturday_noon = None"
proof (rule midnight_gap_hangs [of _ mondays_parsed _ "- 18000" "- 14400" 63877093200 739318])
  have "trigger_location sample_zones (mondays ''America/Havana'') = havana"
    by (simp add: trigger_location_def mondays_def sample_zones_def trim_space_def is_space_def)
  then show "midnight_gap (trigger_location sample_zones (mondays ''America/Havana'')) (- 18000) (- 14400) 63877093200 739318"
    by (simp add: midnight_gap_def havana_def zone_at_def)
qed (simp_all add: mondays_def mondays_parse saturday_noon_def saturday_day mondays_parsed_def matches_field_def list_ex_iff)

end
