(* ===== verification/Index_Jobs.thy ===== *)
theory Index_Jobs
  imports Sql_Names "HOL-Library.Product_Lexorder"
begin

text \<open>
  The jobs that bring the chunks of a document into the vector store:
  \<open>src/server/internal/knowledge/index_job_store.go\<close> (the table \<open>knowledge_index_jobs\<close> and the index
  status of the documents) and \<open>index_jobs.go\<close> (the worker and what a job does). The statement with
  which a worker claims jobs asks for a column that is not there, so the database rejects it.

  The environment of a call gives the clock of the store, a new identifier (\<open>auth.NewID\<close> may fail), the
  statements that fail, the job rows another transaction has locked, the name of the host and the number of the process. The
  services a job uses (the list of chunks, the embedder, the vector store) are parameters. Identifiers
  are ordered bytewise; texts are ASCII, so that a rune is a character.
\<close>

record index_job =
  ij_id :: string
  ij_org :: string
  ij_base :: string
  ij_doc :: string
  ij_operation :: string
  ij_status :: string
  ij_error :: string
  ij_attempts :: int
  ij_max :: int
  ij_locked_at :: "gotime option"
  ij_locked_by :: string
  ij_completed_by :: string
  ij_available :: gotime
  ij_completed :: "gotime option"
  ij_created :: gotime
  ij_updated :: gotime

text \<open>Of a document, what the jobs read and write; of a knowledge base, its identifier and organization.\<close>

record index_doc =
  xd_id :: string
  xd_org :: string
  xd_base :: string
  xd_status :: string
  xd_error :: string
  xd_indexed :: "gotime option"
  xd_updated :: gotime

record index_db =
  xb_jobs :: "index_job list"
  xb_docs :: "index_doc list"
  xb_bases :: "(string \<times> string) list"

datatype index_call = IxInsert | IxBegin | IxClaim | IxCommit | IxSucceed | IxFail | IxDeadLetter | IxStatus

datatype index_error = IxFault index_call | IxNoRows | IxNoId | IxDuplicate | IxCheck | IxNoColumn

record index_env =
  ix_clock :: "index_call \<Rightarrow> string \<Rightarrow> gotime"
  ix_new_id :: "string option"
  ix_fault :: "index_call \<Rightarrow> string \<Rightarrow> bool"
  ix_locked :: "index_job \<Rightarrow> bool"
  ix_host :: string
  ix_pid :: nat

text \<open>The name a worker without a name goes by.\<close>

definition default_index_worker :: "string \<Rightarrow> nat \<Rightarrow> string" where
  "default_index_worker host pid =
     ''rag-index-worker:'' @ (if trim_space host = [] then ''unknown-host'' else trim_space host) @ '':'' @ digits (int pid)"

definition ix_call :: "index_env \<Rightarrow> index_call \<Rightarrow> string \<Rightarrow> index_error + unit" where
  "ix_call env c key = fail_if (ix_fault env c key) (IxFault c)"

subsection \<open>Creating a job\<close>

record index_request =
  xr_org :: string
  xr_base :: string
  xr_doc :: string
  xr_operation :: string
  xr_max :: int

definition normalize_index_operation :: "string \<Rightarrow> string" where
  "normalize_index_operation op0 = (if trim_space op0 = [] then ''upsert_document'' else trim_space op0)"

text \<open>The row scan gives a job without a limit the default one.\<close>

definition scan_index_job :: "index_job \<Rightarrow> index_job" where
  "scan_index_job j = j\<lparr>ij_max := (if ij_max j \<le> 0 then 5 else ij_max j)\<rparr>"

definition new_index_job :: "string \<Rightarrow> gotime \<Rightarrow> index_request \<Rightarrow> index_job" where
  "new_index_job i now r =
     \<lparr>ij_id = i, ij_org = trim_space (xr_org r), ij_base = trim_space (xr_base r), ij_doc = trim_space (xr_doc r),
      ij_operation = normalize_index_operation (xr_operation r), ij_status = ''pending'', ij_error = [], ij_attempts = 0,
      ij_max = (if xr_max r \<le> 0 then 5 else xr_max r), ij_locked_at = None, ij_locked_by = [], ij_completed_by = [],
      ij_available = now, ij_completed = None, ij_created = now, ij_updated = now\<rparr>"

definition has_document :: "index_db \<Rightarrow> string \<times> string \<Rightarrow> string \<Rightarrow> bool" where
  "has_document db org_base doc \<longleftrightarrow>
     list_ex (\<lambda>d. xd_org d = fst org_base \<and> xd_base d = snd org_base \<and> xd_id d = doc) (xb_docs db)
     \<and> (snd org_base, fst org_base) \<in> set (xb_bases db)"

definition insert_index_job :: "index_env \<Rightarrow> index_request \<Rightarrow> gotime \<Rightarrow> index_db \<Rightarrow> index_db \<times> (index_error + index_job)" where
  "insert_index_job env r now0 db =
     (let now = (if now0 = zero_time then ix_clock env IxInsert [] else now0)
      in if trim_space (xr_org r) = [] \<or> trim_space (xr_base r) = [] \<or> trim_space (xr_doc r) = [] then (db, Inl IxNoRows)
         else case ix_new_id env of
                None \<Rightarrow> (db, Inl IxNoId)
              | Some i \<Rightarrow>
                  let j = new_index_job i now r
                  in if ix_fault env IxInsert [] then (db, Inl (IxFault IxInsert))
                     else if \<not> has_document db (ij_org j, ij_base j) (ij_doc j) then (db, Inl IxNoRows)
                     else if ij_operation j \<notin> {''upsert_document'', ''delete_document''} then (db, Inl IxCheck)
                     else if list_ex (\<lambda>x. ij_id x = i) (xb_jobs db) then (db, Inl IxDuplicate)
                     else (db\<lparr>xb_jobs := xb_jobs db @ [j]\<rparr>, Inr (scan_index_job j)))"

definition create_index_job :: "index_env \<Rightarrow> index_request \<Rightarrow> index_db \<Rightarrow> index_db \<times> (index_error + index_job)" where
  "create_index_job env r db = insert_index_job env r (ix_clock env IxInsert []) db"

subsection \<open>Claiming\<close>

definition claim_lease :: duration where
  "claim_lease = 5 * go_minute"

definition index_due :: "gotime \<Rightarrow> index_job \<Rightarrow> bool" where
  "index_due now j \<longleftrightarrow> ij_status j \<in> {''pending'', ''failed'', ''processing''} \<and> ij_available j \<le> now \<and> ij_attempts j \<le> ij_max j"

definition index_order :: "index_job \<Rightarrow> gotime \<times> gotime \<times> string" where
  "index_order j = (ij_available j, ij_created j, ij_id j)"

definition due_jobs :: "index_env \<Rightarrow> gotime \<Rightarrow> int \<Rightarrow> index_db \<Rightarrow> index_job list" where
  "due_jobs env now limit db =
     take (nat limit) (sort_key index_order (filter (\<lambda>j. index_due now j \<and> \<not> ix_locked env j) (xb_jobs db)))"

definition claimed_job :: "gotime \<Rightarrow> string \<Rightarrow> index_job \<Rightarrow> index_job" where
  "claimed_job now worker j =
     j\<lparr>ij_status := ''processing'', ij_attempts := ij_attempts j + 1, ij_locked_at := Some now, ij_locked_by := worker,
       ij_completed_by := [], ij_available := now + claim_lease, ij_completed := None, ij_updated := now\<rparr>"

text \<open>
  The names in the claim statement. The update of the table (as \<open>job\<close>, beside the due keys) returns the
  error and the worker through \<open>COALESCE\<close> without an alias, so these outputs go by the name of the
  function; the last \<open>SELECT\<close> asks for them by the names of the columns.
\<close>

definition index_job_columns :: "string list" where
  "index_job_columns =
     [''id'', ''organization_id'', ''knowledge_base_id'', ''document_id'', ''operation'', ''status'', ''error'', ''attempts'',
      ''max_attempts'', ''locked_at'', ''locked_by'', ''completed_by'', ''available_at'', ''completed_at'', ''created_at'', ''updated_at'']"

definition index_returning :: "sql_expr list" where
  "index_returning =
     List.map (ColumnOf ''job'') [''id'', ''organization_id'', ''knowledge_base_id'', ''document_id'', ''operation'', ''status'']
     @ [CallOf ''coalesce'' (ColumnOf ''job'' ''error''), ColumnOf ''job'' ''attempts'', ColumnOf ''job'' ''max_attempts'',
        ColumnOf ''job'' ''locked_at'', CallOf ''coalesce'' (ColumnOf ''job'' ''locked_by'')]
     @ List.map (ColumnOf ''job'') [''available_at'', ''completed_at'', ''created_at'', ''updated_at'']"

definition index_selected :: "sql_expr list" where
  "index_selected =
     List.map Column [''id'', ''organization_id'', ''knowledge_base_id'', ''document_id'', ''operation'', ''status'', ''error'', ''attempts'',
       ''max_attempts'', ''locked_at'', ''locked_by'', ''available_at'', ''completed_at'', ''created_at'', ''updated_at'']"

definition index_names_resolve :: bool where
  "index_names_resolve \<longleftrightarrow>
     list_all (resolves [(''job'', index_job_columns), (''due'', output_names [Column ''id''])]) index_returning
   \<and> list_all (resolves [(''updated'', output_names index_returning)]) index_selected"

text \<open>A statement whose names do not resolve fails; otherwise it updates the due rows and returns them.\<close>

definition claim_index_jobs ::
  "index_env \<Rightarrow> gotime \<Rightarrow> int \<Rightarrow> string \<Rightarrow> index_db \<Rightarrow> index_db \<times> (index_error + index_job list)" where
  "claim_index_jobs env now0 limit0 worker0 db =
     (let limit = (if limit0 \<le> 0 then 10 else limit0);
          now = (if now0 = zero_time then ix_clock env IxClaim [] else now0);
          worker = (if trim_space worker0 = [] then default_index_worker (ix_host env) (ix_pid env) else trim_space worker0);
          due = due_jobs env now limit db;
          f = claimed_job now worker
      in case try_step (ix_call env IxBegin []) (\<lambda>_. try_step (ix_call env IxClaim []) (\<lambda>_.
                try_step (fail_if (\<not> index_names_resolve) IxNoColumn) (\<lambda>_. ix_call env IxCommit []))) of
           Inl e \<Rightarrow> (db, Inl e)
         | Inr _ \<Rightarrow>
             (db\<lparr>xb_jobs := fst (sql_update (\<lambda>j. ij_id j \<in> set (List.map ij_id due)) f (xb_jobs db))\<rparr>,
              Inr (List.map scan_index_job (sort_key index_order (List.map f due)))))"

subsection \<open>Ending a job\<close>

definition job_held :: "string \<times> string \<Rightarrow> string \<Rightarrow> index_job \<Rightarrow> bool" where
  "job_held org_job by_worker j \<longleftrightarrow>
     ij_org j = fst org_job \<and> ij_id j = snd org_job \<and> (trim_space by_worker = [] \<or> ij_locked_by j = trim_space by_worker)"

definition mark_job ::
  "index_env \<Rightarrow> index_call \<Rightarrow> string \<times> string \<Rightarrow> string \<Rightarrow> (index_job \<Rightarrow> index_job) \<Rightarrow> index_db \<Rightarrow> index_db \<times> (index_error + unit)" where
  "mark_job env c org_job by_worker f db =
     (if ix_fault env c (snd org_job) then (db, Inl (IxFault c))
      else if list_ex (job_held org_job by_worker) (xb_jobs db)
        then (db\<lparr>xb_jobs := fst (sql_update (job_held org_job by_worker) f (xb_jobs db))\<rparr>, Inr ())
      else (db, Inl IxNoRows))"

definition succeeded_job :: "string \<Rightarrow> gotime \<Rightarrow> index_job \<Rightarrow> index_job" where
  "succeeded_job by_worker completed j =
     j\<lparr>ij_status := ''succeeded'', ij_error := [], ij_locked_at := None,
       ij_completed_by := (if by_worker = [] then (if ij_locked_by j = [] then ij_completed_by j else ij_locked_by j) else by_worker),
       ij_locked_by := [], ij_available := completed, ij_completed := Some completed, ij_updated := completed\<rparr>"

definition mark_index_succeeded ::
  "index_env \<Rightarrow> string \<times> string \<Rightarrow> string \<Rightarrow> gotime \<Rightarrow> index_db \<Rightarrow> index_db \<times> (index_error + unit)" where
  "mark_index_succeeded env org_job by_worker completed0 db =
     (let completed = (if completed0 = zero_time then ix_clock env IxSucceed (snd org_job) else completed0)
      in mark_job env IxSucceed org_job by_worker (succeeded_job (trim_space by_worker) completed) db)"

definition failed_job :: "gotime \<Rightarrow> string \<Rightarrow> gotime \<Rightarrow> index_job \<Rightarrow> index_job" where
  "failed_job updated reason available j =
     j\<lparr>ij_status := ''failed'', ij_error := trim_space reason, ij_locked_at := None, ij_locked_by := [],
       ij_available := available, ij_completed := None, ij_updated := updated\<rparr>"

definition mark_index_failed ::
  "index_env \<Rightarrow> string \<times> string \<Rightarrow> string \<Rightarrow> string \<Rightarrow> gotime \<Rightarrow> index_db \<Rightarrow> index_db \<times> (index_error + unit)" where
  "mark_index_failed env org_job by_worker reason available0 db =
     (let now = ix_clock env IxFail (snd org_job); available = (if available0 = zero_time then now + go_minute else available0)
      in mark_job env IxFail org_job by_worker (failed_job now reason available) db)"

definition dead_job :: "string \<Rightarrow> gotime \<Rightarrow> index_job \<Rightarrow> index_job" where
  "dead_job reason completed j =
     j\<lparr>ij_status := ''dead_letter'', ij_error := trim_space reason, ij_locked_at := None, ij_locked_by := [],
       ij_available := completed, ij_completed := Some completed, ij_updated := completed\<rparr>"

definition mark_dead_letter ::
  "index_env \<Rightarrow> string \<times> string \<Rightarrow> string \<Rightarrow> string \<Rightarrow> gotime \<Rightarrow> index_db \<Rightarrow> index_db \<times> (index_error + unit)" where
  "mark_dead_letter env org_job by_worker reason completed0 db =
     (let completed = (if completed0 = zero_time then ix_clock env IxDeadLetter (snd org_job) else completed0)
      in mark_job env IxDeadLetter org_job by_worker (dead_job reason completed) db)"

definition is_document :: "string \<times> string \<Rightarrow> index_doc \<Rightarrow> bool" where
  "is_document org_doc d \<longleftrightarrow> xd_org d = fst org_doc \<and> xd_id d = snd org_doc"

definition set_index_status ::
  "index_env \<Rightarrow> string \<times> string \<Rightarrow> string \<Rightarrow> string \<Rightarrow> gotime option \<Rightarrow> index_db \<Rightarrow> index_db \<times> (index_error + unit)" where
  "set_index_status env org_doc status err indexed db =
     (if ix_fault env IxStatus (snd org_doc) then (db, Inl (IxFault IxStatus))
      else if list_ex (is_document org_doc) (xb_docs db)
        then (db\<lparr>xb_docs := fst (sql_update (is_document org_doc)
                (\<lambda>d. d\<lparr>xd_status := status, xd_error := trim_space err, xd_indexed := indexed,
                       xd_updated := ix_clock env IxStatus (snd org_doc)\<rparr>) (xb_docs db))\<rparr>, Inr ())
      else (db, Inl IxNoRows))"

subsection \<open>What a job does\<close>

record chunk_meta =
  cm_version :: string
  cm_page :: int
  cm_source :: string
  cm_start :: int
  cm_end :: int

record chunk_view =
  cv_id :: string
  cv_index :: int
  cv_content :: string
  cv_title :: string
  cv_version :: string
  cv_chars :: int
  cv_tokens :: int
  cv_meta :: chunk_meta

record 'e vector_chunk =
  vc_index :: int
  vc_content :: string
  vc_title :: string
  vc_version :: string
  vc_embedding :: "'e option"
  vc_tokens :: int
  vc_meta :: chunk_meta

text \<open>The services; \<open>None\<close> for one that is not configured, or not offered by the store at hand. Errors are their texts.\<close>

record 'e index_services =
  xs_has_vectors :: bool
  xs_delete :: "(string \<times> string \<times> string \<Rightarrow> string + unit) option"
  xs_upsert :: "string \<times> string \<times> string \<Rightarrow> 'e vector_chunk list \<Rightarrow> string + unit"
  xs_chunks :: "(string \<times> string \<times> string \<Rightarrow> string + chunk_view list) option"
  xs_embed :: "(string list \<Rightarrow> string + 'e list) option"

definition estimate_tokens :: "string \<Rightarrow> int" where
  "estimate_tokens content =
     (let runes = int (length (trim_space content))
      in if runes = 0 then 0 else runes div 4 + (if runes mod 4 \<noteq> 0 then 1 else 0))"

definition chunk_of_view :: "chunk_view \<Rightarrow> 'e vector_chunk" where
  "chunk_of_view v =
     (let m = cv_meta v;
          version = (if trim_space (cv_version v) = [] then trim_space (cm_version m) else trim_space (cv_version v))
      in \<lparr>vc_index = cv_index v, vc_content = cv_content v, vc_title = trim_space (cv_title v), vc_version = version,
          vc_embedding = None, vc_tokens = cv_tokens v,
          vc_meta = (if trim_space (cm_version m) = [] then m\<lparr>cm_version := version\<rparr> else m)\<rparr>)"

definition text_chunk :: "chunk_view \<Rightarrow> 'e vector_chunk" where
  "text_chunk v =
     (let content = trim_space (cv_content v); c = chunk_of_view v
      in c\<lparr>vc_content := content, vc_tokens := (if vc_tokens c = 0 then estimate_tokens content else vc_tokens c)\<rparr>)"

fun set_embeddings :: "'e vector_chunk list \<Rightarrow> 'e list \<Rightarrow> 'e vector_chunk list" where
  "set_embeddings (c # cs) (e # es) = c\<lparr>vc_embedding := Some e\<rparr> # set_embeddings cs es"
| "set_embeddings cs _ = cs"

definition embedded_chunks :: "(string list \<Rightarrow> string + 'e list) \<Rightarrow> chunk_view list \<Rightarrow> string + 'e vector_chunk list" where
  "embedded_chunks embedder views =
     (let cs = List.map text_chunk (filter (\<lambda>v. trim_space (cv_content v) \<noteq> []) views)
      in if cs = [] then Inr []
         else try_step (embedder (List.map vc_content cs)) (\<lambda>es. Inr (set_embeddings cs es)))"

definition delete_vectors :: "'e index_services \<Rightarrow> string \<times> string \<times> string \<Rightarrow> string + unit" where
  "delete_vectors xs key = (if \<not> xs_has_vectors xs then Inr () else case xs_delete xs of None \<Rightarrow> Inr () | Some remove \<Rightarrow> remove key)"

definition upsert_chunks_direct :: "'e index_services \<Rightarrow> string \<times> string \<times> string \<Rightarrow> 'e vector_chunk list \<Rightarrow> string + unit" where
  "upsert_chunks_direct xs key cs = (if \<not> xs_has_vectors xs \<or> cs = [] then Inr () else xs_upsert xs key cs)"

definition reindex_views :: "'e index_services \<Rightarrow> string \<times> string \<times> string \<Rightarrow> chunk_view list \<Rightarrow> string + unit" where
  "reindex_views xs key views =
     (if \<not> xs_has_vectors xs then Inr ()
      else if views = [] then delete_vectors xs key
      else case xs_embed xs of
             None \<Rightarrow> Inl ''knowledge embedder is not configured''
           | Some embedder \<Rightarrow>
               try_step (embedded_chunks embedder views) (\<lambda>cs.
               try_step (delete_vectors xs key) (\<lambda>_. if cs = [] then Inr () else upsert_chunks_direct xs key cs)))"

definition process_index_job :: "'e index_services \<Rightarrow> index_job \<Rightarrow> string + unit" where
  "process_index_job xs j =
     (let key = (trim_space (ij_org j), trim_space (ij_base j), trim_space (ij_doc j))
      in if \<not> xs_has_vectors xs then Inl ''knowledge vector store is not configured''
         else if fst key = [] \<or> fst (snd key) = [] \<or> snd (snd key) = [] then Inl ''knowledge index job missing scope''
         else if normalize_index_operation (ij_operation j) = ''delete_document'' then delete_vectors xs key
         else if normalize_index_operation (ij_operation j) \<noteq> ''upsert_document''
           then Inl (''unsupported knowledge index job operation: '' @ ij_operation j)
         else case xs_chunks xs of
                None \<Rightarrow> Inl ''sql: no rows in result set''
              | Some chunks \<Rightarrow> try_step (chunks key) (reindex_views xs key))"

subsection \<open>The worker\<close>

record index_worker =
  iw_limit :: int
  iw_id :: string

definition new_index_worker :: "index_env \<Rightarrow> int \<Rightarrow> string \<Rightarrow> index_worker" where
  "new_index_worker env limit worker =
     \<lparr>iw_limit = (if limit \<le> 0 then 10 else limit),
      iw_id = (if trim_space worker = [] then default_index_worker (ix_host env) (ix_pid env) else trim_space worker)\<rparr>"

definition index_retry_delay :: "int \<Rightarrow> duration" where
  "index_retry_delay attempts = (if attempts \<le> 0 then go_minute else if 6 < attempts then 6 * go_minute else attempts * go_minute)"

definition index_attempts_exhausted :: "index_job \<Rightarrow> bool" where
  "index_attempts_exhausted j \<longleftrightarrow> (if ij_max j \<le> 0 then 5 else ij_max j) \<le> ij_attempts j"

definition updates_document :: "index_job \<Rightarrow> bool" where
  "updates_document j \<longleftrightarrow> normalize_index_operation (ij_operation j) = ''upsert_document''"

text \<open>A call whose error is only reported.\<close>

definition reported :: "index_db \<times> (index_error + unit) \<Rightarrow> index_db \<times> index_error list" where
  "reported r = (fst r, case snd r of Inl e \<Rightarrow> [e] | Inr _ \<Rightarrow> [])"

definition and_report :: "index_db \<times> index_error list \<Rightarrow> (index_db \<Rightarrow> index_db \<times> index_error list) \<Rightarrow> index_db \<times> index_error list" where
  "and_report r f = (fst (f (fst r)), snd r @ snd (f (fst r)))"

definition report_status :: "index_env \<Rightarrow> index_job \<Rightarrow> string \<Rightarrow> string \<Rightarrow> gotime option \<Rightarrow> index_db \<Rightarrow> index_db \<times> index_error list" where
  "report_status env j status err indexed db =
     (if updates_document j then reported (set_index_status env (ij_org j, ij_doc j) status err indexed db) else (db, []))"

definition record_failed_job :: "index_env \<Rightarrow> index_job \<Rightarrow> string \<Rightarrow> gotime \<Rightarrow> index_db \<Rightarrow> index_db \<times> index_error list" where
  "record_failed_job env j err now db =
     (let reason = trim_space err
      in if index_attempts_exhausted j
         then (let dead = ''dead_letter: '' @ reason
               in and_report (reported (mark_dead_letter env (ij_org j, ij_id j) (ij_locked_by j) dead now db))
                    (report_status env j ''failed'' dead None))
         else and_report (reported (mark_index_failed env (ij_org j, ij_id j) (ij_locked_by j) reason
                            (now + index_retry_delay (ij_attempts j)) db))
                (report_status env j ''failed'' reason None))"

text \<open>
  The two halves of the work on a claimed job: what is written before it is processed (\<open>Inl\<close>: the job is
  left as it is) and what is written after, with the time of the pass and the time after the processing.
\<close>

definition start_job :: "index_env \<Rightarrow> index_job \<Rightarrow> index_db \<Rightarrow> index_db \<times> (index_error + unit)" where
  "start_job env j db =
     (if updates_document j then set_index_status env (ij_org j, ij_doc j) ''indexing'' [] None db else (db, Inr ()))"

definition finish_job :: "index_env \<Rightarrow> gotime \<times> gotime \<Rightarrow> index_job \<Rightarrow> string + unit \<Rightarrow> index_db \<Rightarrow> index_db \<times> index_error list" where
  "finish_job env moments j outcome db =
     (case outcome of
        Inl err \<Rightarrow> record_failed_job env j err (fst moments) db
      | Inr _ \<Rightarrow>
          (case mark_index_succeeded env (ij_org j, ij_id j) (ij_locked_by j) (snd moments) db of
             (db1, Inl e) \<Rightarrow> (db1, [e])
           | (db1, Inr _) \<Rightarrow> report_status env j ''ready'' [] (Some (snd moments)) db1))"

definition work_job ::
  "index_env \<Rightarrow> 'e index_services \<Rightarrow> gotime \<Rightarrow> (string \<Rightarrow> gotime) \<Rightarrow> index_job \<Rightarrow> index_db \<Rightarrow> index_db \<times> index_error list" where
  "work_job env xs now clock j db =
     (case start_job env j db of
        (db1, Inl e) \<Rightarrow> (db1, [e])
      | (db1, Inr _) \<Rightarrow> finish_job env (now, clock (ij_id j)) j (process_index_job xs j) db1)"

fun work_jobs ::
  "index_env \<Rightarrow> 'e index_services \<Rightarrow> gotime \<Rightarrow> (string \<Rightarrow> gotime) \<Rightarrow> index_job list \<Rightarrow> index_db \<Rightarrow> index_db \<times> index_error list" where
  "work_jobs env xs now clock [] db = (db, [])"
| "work_jobs env xs now clock (j # js) db = and_report (work_job env xs now clock j db) (work_jobs env xs now clock js)"

definition run_index_once ::
  "index_worker \<Rightarrow> index_env \<Rightarrow> 'e index_services \<Rightarrow> gotime \<Rightarrow> (string \<Rightarrow> gotime) \<Rightarrow> index_db \<Rightarrow> index_db \<times> index_error list" where
  "run_index_once w env xs now clock db =
     (case claim_index_jobs env now (iw_limit w) (iw_id w) db of
        (db1, Inl e) \<Rightarrow> (db1, [e])
      | (db1, Inr js) \<Rightarrow> work_jobs env xs now clock js db1)"

end
