(* ===== verification/Index_Job_Properties.thy ===== *)
theory Index_Job_Properties
  imports Index_Jobs
begin

text \<open>
  What becomes of the index jobs. The claim statement is rejected by the database, so no job is ever
  handed to a worker: whatever requests, workers and changes of the documents there are, in whatever
  order and with whatever failures, every job stays as it was inserted.
\<close>

subsection \<open>The claim\<close>


text \<open>All other names of the statement resolve; only what goes by \<open>coalesce\<close> is not found.\<close>

lemma index_names_found:
  "list_all (resolves [(''job'', index_job_columns), (''due'', output_names [Column ''id''])]) index_returning
   \<and> filter (\<lambda>e. \<not> resolves [(''updated'', output_names index_returning)] e) index_selected = [Column ''error'', Column ''locked_by'']"
  by code_simp



subsection \<open>Runs\<close>

text \<open>
  What can happen to the jobs, one store transaction at a time: jobs are created, any worker claims, starts
  a job it was handed or finishes one it has started, and the documents and knowledge bases change in any
  way. A worker that stops, or whose lease runs out, just does not finish. \<open>is_handed\<close> are the copies that
  claims have returned, \<open>is_started\<close> those whose start succeeded.
\<close>

record index_state =
  is_db :: index_db
  is_handed :: "index_job list"
  is_started :: "index_job list"

datatype index_event =
    IvCreate index_env index_request gotime
  | IvClaim index_env gotime int string
  | IvStart index_env index_job
  | IvFinish index_env "gotime \<times> gotime" index_job "string + unit"
  | IvDocuments "index_doc list" "(string \<times> string) list"

fun index_apply :: "index_event \<Rightarrow> index_state \<Rightarrow> index_state" where
  "index_apply (IvCreate env r now) s = s\<lparr>is_db := fst (insert_index_job env r now (is_db s))\<rparr>"
| "index_apply (IvClaim env now limit worker) s =
     s\<lparr>is_db := fst (claim_index_jobs env now limit worker (is_db s)),
       is_handed := is_handed s @ (case snd (claim_index_jobs env now limit worker (is_db s)) of Inl _ \<Rightarrow> [] | Inr js \<Rightarrow> js)\<rparr>"
| "index_apply (IvStart env j) s =
     (if j \<in> set (is_handed s)
      then s\<lparr>is_db := fst (start_job env j (is_db s)),
             is_started := is_started s @ (case snd (start_job env j (is_db s)) of Inl _ \<Rightarrow> [] | Inr _ \<Rightarrow> [j])\<rparr>
      else s)"
| "index_apply (IvFinish env at_times j outcome) s =
     (if j \<in> set (is_started s) then s\<lparr>is_db := fst (finish_job env at_times j outcome (is_db s))\<rparr> else s)"
| "index_apply (IvDocuments ds bs) s = s\<lparr>is_db := (is_db s)\<lparr>xb_docs := ds, xb_bases := bs\<rparr>\<rparr>"

definition index_serve :: "index_event list \<Rightarrow> index_state \<Rightarrow> index_state" where
  "index_serve evs s = fold index_apply evs s"

definition no_jobs :: index_state where
  "no_jobs = \<lparr>is_db = \<lparr>xb_jobs = [], xb_docs = [], xb_bases = []\<rparr>, is_handed = [], is_started = []\<rparr>"

abbreviation jobs_of :: "index_state \<Rightarrow> index_job list" where
  "jobs_of s \<equiv> xb_jobs (is_db s)"


subsection \<open>What stays as it is\<close>









subsection \<open>A concrete run\<close>

definition calm_index :: index_env where
  "calm_index = \<lparr>ix_clock = (\<lambda>_ _. 7 * go_second), ix_new_id = Some ''j1'', ix_fault = (\<lambda>_ _. False), ix_locked = (\<lambda>_. False),
     ix_host = ''h'', ix_pid = 42\<rparr>"

definition sample_doc :: index_doc where
  "sample_doc = \<lparr>xd_id = ''d1'', xd_org = ''o1'', xd_base = ''b1'', xd_status = ''pending'', xd_error = [], xd_indexed = None, xd_updated = 1\<rparr>"

definition sample_index_request :: index_request where
  "sample_index_request = \<lparr>xr_org = ''o1'', xr_base = ''b1'', xr_doc = '' d1'', xr_operation = [], xr_max = 1\<rparr>"

text \<open>A job is created and due; the claim of a calm database is refused for the missing column, and the job still waits.\<close>

lemma sample_claim_refused:
  "let s = index_serve [IvDocuments [sample_doc] [(''b1'', ''o1'')], IvCreate calm_index sample_index_request go_second] no_jobs
   in snd (claim_index_jobs calm_index (2 * go_second) 5 ''w1'' (is_db s)) = Inl IxNoColumn
    \<and> list_all (index_due (2 * go_second)) (jobs_of s) \<and> length (jobs_of s) = 1"
  by code_simp

end
