(* ===== verification/Spec2Isabelle.thy ===== *)
theory Spec2Isabelle
  imports Usage_Limits Circuit_Breakers Pricing Load_Balancer Compensation
    Workflow_Graph Workflow_States Workflow_Versions Marketplace_Flows Billing_Amounts Schedule_Flows Tenant_Properties Chunking_Properties
    Cron_Properties Index_Job_Properties
begin

text \<open>
  A verification library for the backend of this repository (Go, \<open>src/server\<close>).

  \<^bold>\<open>The program.\<close> The server relays model requests of organizations to upstream providers.
  A request authenticates with a relay API token, takes a lease on the usage limits of its
  organization and user, reserves money on the quota balance and on the token, is routed to a
  channel of the pool, and is settled with the price of what it used. When it is refused after
  the reservation, a compensation gives the reservation back, at once or by a worker later.
  The modelled parts and how they call each other:

  \<^item> \<open>Quota_Ledger\<close>: \<open>internal/quota/service.go\<close>, the tables \<open>quotas\<close>, \<open>billing_sessions\<close>,
    \<open>topup_orders\<close> as a record \<open>quota_db\<close> of row lists, the SQL store's methods, and the service's
    \<open>PreConsume\<close>, \<open>Settle\<close>, \<open>Refund\<close>, \<open>Topup\<close> and top-up orders. \<open>Ledger_Invariant\<close> holds the
    accounting invariant \<open>ledger_ok\<close>, \<open>Ledger_Properties\<close> the properties: accounts stay
    consistent under any operations and faults, exact reservation, settlement and refund, money
    conserved, idempotent replay, atomic failure, and the cases where the promise breaks.
  \<^item> \<open>Rate_Limiter\<close>: \<open>internal/relay/ratelimit/limiter.go\<close>, the in-memory limiter: a sliding
    window of requests, a fixed window of tokens, requests in flight. Bounds on each, sufficiency
    of \<open>RetryAfter\<close>, agreement of \<open>Check\<close> and \<open>Allow\<close>. The locale \<open>slot_counter\<close> is the contract of
    \<open>Begin\<close>/\<open>End\<close> and is interpreted on the limiter.
  \<^item> \<open>Usage_Limits\<close>: the limit half of \<open>internal/quota/service.go\<close>: settings, packages and
    subscriptions, and leases taken from the rate limiter through its interface. Saved settings
    are the ones resolved (times to the microsecond); open leases are bounded.
  \<^item> \<open>Circuit_Breakers\<close>: \<open>internal/relay/circuitbreaker.go\<close> and
    \<open>internal/gateway/circuit_breaker.go\<close>, state machines with an inductive step relation.
  \<^item> \<open>Pricing\<close>: \<open>internal/relay/pricing.go\<close>, \<open>billing.go\<close>, \<open>types/types.go\<close>: the catalog, its
    loader, quotes and the billing hook.
  \<^item> \<open>Load_Balancer\<close>: \<open>internal/relay/pool.go\<close>, \<open>loadbalancer.go\<close>: the five strategies and the
    fallbacks among them. The locale \<open>channel_selector\<close> states what a strategy owes the balancer
    and is interpreted on each strategy.
  \<^item> \<open>Api_Token\<close>: \<open>internal/relay/api_token.go\<close>: the token table, its quota, refund receipts,
    authentication.
  \<^item> \<open>Compensation\<close>: \<open>internal/relay/quota_compensation.go\<close>: job keys, job store, coordinator and
    worker. The locales \<open>quota_refunder\<close> and \<open>once_refunder\<close> state what it relies on in the quota
    service and the token store; \<open>compensation\<close> extends both, proves the invariant of the jobs once,
    and is interpreted on \<open>Quota_Ledger\<close> and \<open>Api_Token\<close>. The statement with which a worker claims
    jobs is rejected by the database, so what the coordinator leaves open no worker completes.
  \<^item> \<open>Workflow_Graph\<close>: \<open>internal/workflow/executor/dag.go\<close>, the graph of a workflow's nodes:
    construction, topological sort, search for cycles, parallel groups, validation. Each is
    characterised through the edge relation; the sort of the code is proved to be sorting, so
    that the iteration order of Go maps does not show.
  \<^item> \<open>Workflow_States\<close>: \<open>internal/workflow/executor/state_machine.go\<close>, the status of an execution
    (an inductive step relation, reachable histories are paths of the transition table, terminal
    states are final), and \<open>internal/workflow/failure/handler.go\<close>, what to do about a failed node.
  \<^item> \<open>Workflow_Versions\<close>: \<open>internal/workflow/version/manager.go\<close>, drafts, publication, rollback,
    branches; refines an abstract catalogue of numbered definitions.
  \<^item> \<open>Marketplace_Fees\<close>: the platform fee and the split of an order
    (\<open>internal/marketplace/settlement.go\<close>) and the tiers shown to a publisher
    (\<open>revenue_tiers.go\<close>). \<open>Marketplace_Settlement\<close>: the rest of \<open>settlement.go\<close>, checkout,
    completion, refunds, payouts asked for and in batches, the provider's events, over a record of
    eight tables. \<open>Marketplace_Properties\<close>: what every operation keeps (\<open>good_step\<close>: the books
    balance, an ended payout stays ended; \<open>world_step\<close>: and the provider is only asked for payouts
    on record), and what a payout batch pays. \<open>Marketplace_Flows\<close>: replayed events, sample runs,
    and where the flow of the code stops short.
  \<^item> \<open>Billing_Lifecycle\<close>: \<open>internal/stripe/lifecycle.go\<close>, what the provider's events do to payment
    intents, top-up orders, quotas and subscriptions. \<open>Billing_Properties\<close> has the locale
    \<open>keyed_effects\<close>, the contract between the table of processed events and the handlers;
    \<open>Billing_Flows\<close>: an event is applied once, a top-up credits its order; \<open>Billing_Amounts\<close>: what is
    refunded stays within what was paid.
  \<^item> \<open>Schedule_Store\<close>, \<open>Schedule_Service\<close>: \<open>internal/schedule\<close>, scheduled tasks, their triggers and
    runs, the worker's pass. The cron library that computes the next time is a parameter there.
    \<open>Schedule_Properties\<close>: a claim takes exactly what is due, one running run per task, rows stay
    well-formed; \<open>Schedule_Flows\<close>: whole passes, and runs that are never ended.
  \<^item> \<open>Tenant_Store\<close>, \<open>Tenant_Service\<close>: \<open>internal/tenant\<close>, organizations, memberships, invitations.
    \<open>Tenant_Properties\<close>: the tables abstract to a map from organizations and users to roles, which
    changes only as the roles allow; an organization keeps one owner.
  \<^item> \<open>Chunking\<close>: \<open>internal/knowledge/chunking/engine.go\<close>, the strategies that cut a document.
    \<open>Chunking_Properties\<close>: they always end, keep the text, and cover it.
  \<^item> \<open>Cron_Trigger\<close>: \<open>internal/workflow/trigger/schedule.go\<close>, the parser of cron expressions and the
    search for the next minute that matches; a location is its first offset and the moves of its
    clocks.
    \<open>Cron_Properties\<close>: the search finds the least match where the offset is constant, and runs
    forever before a day that has no midnight.
  \<^item> \<open>Index_Jobs\<close>: \<open>internal/knowledge/index_jobs.go\<close>, \<open>index_job_store.go\<close> and what \<open>service.go\<close> does
    for them: the queue of index jobs and its workers. \<open>Index_Job_Properties\<close>: the claim statement is
    rejected by the database, so in every run the jobs stay as they were inserted.
  \<^item> \<open>Sql_Names\<close>: how PostgreSQL finds the columns a statement names, used by the two claims that
    fail for it. The other modelled statements that read several relations qualify their columns;
    their names are not modelled.
  \<^item> This theory: what spans the ledger, the tokens and the compensation.

  \<open>Prelude\<close> has the shared value types (strings as bytes, times in nanoseconds, money as
  rationals with the rounding of the six-decimal columns), the SQL statement shapes over lists
  of rows, tables with a unique index, and the lemma collections.

  \<^bold>\<open>Conventions.\<close> A method takes what it reads from its surroundings (clock, random draw,
  identifier, fault) as arguments and returns the new state with its result, an error as
  \<open>Inl\<close> or \<open>Some\<close>. A driver call that may fail is a constructor of a datatype of calls, and a fault is
  a predicate on it, so every early return is a branch. A transaction's rollback returns the
  tables it began with. A mutex makes its method one step; runs are lists of steps, so any
  interleaving of whole methods is covered, not that of statements within one method without a
  transaction; in \<open>Tenant_Service\<close> the checks of a request and its transaction are separate
  steps. No definition needs fuel: most loops of the
  modelled code range over finite lists, and their recursions are structural or have a measure. The
  loops of \<open>Workflow_Graph\<close> that need one are \<open>kahn\<close> (nodes still to come into the queue),
  \<open>visit_children\<close> (white nodes, then the children left) and \<open>groups_from\<close> (nodes remaining). Loops
  that nothing in the code bounds are partial functions, whose value \<open>None\<close> is a loop that does not
  end: \<open>fixed_loop\<close> and \<open>split_loop\<close> of \<open>Chunking\<close>, \<open>step_values\<close> and \<open>next_from\<close> of \<open>Cron_Trigger\<close>.
  That they end is proved apart (\<open>chunking_always_ends\<close>, \<open>cron_parsing_ends\<close>, and
  \<open>cron_next_is_least\<close> for a constant offset); \<open>midnight_gap_hangs\<close> shows where \<open>next_from\<close> does not.

  \<^bold>\<open>Not modelled.\<close> HTTP, streaming and provider formats, metrics and tracing, the rounding of
  \<open>float64\<close> operations, overflow of numeric columns, SHA-256 (a parameter), and the packages other
  than those named above. The Redis limiters of \<open>internal/billing\<close> and \<open>internal/gateway\<close> are Lua
  scripts run by the Redis server, and the tickers and goroutines around the workers only decide when
  a modelled pass runs. No modelled
  operation deletes an organization, so the foreign keys that delete its rows do not show.
\<close>

subsection \<open>A reservation and its compensation cancel out\<close>









end
